(* ===== verification/Prelude.thy ===== *)
theory Prelude
  imports Complex_Main "HOL-Library.AList" "HOL-Library.Word"
begin

text \<open>
  What every component of the development shares: the types the Rust code takes from its
  standard library (identifiers, instants, durations, hash maps, hash sets, queues,
  fixed-width counters, byte strings), the interfaces through which components use them,
  and the two generic machines (invariants of a run, order preservation of a queue) that the
  components instantiate.
\<close>

named_theorems map_laws \<open>reading a hash map after an operation on it\<close>
named_theorems inv_intros \<open>an operation keeps the invariant of its component\<close>
named_theorems step_defs \<open>the definitions of the operations of an event machine\<close>

section \<open>Identifiers, time, errors\<close>

text \<open>
  The identifiers of the protocol (frame, loader, request, session, target ids, method names)
  are newtypes over \<open>String\<close>. A Rust string is its UTF-8 bytes, so a string is a list of
  8-bit characters here and lengths and positions count bytes, as they do in the code.
  \<open>Instant\<close> and \<open>Duration\<close> are counted in nanoseconds from the origin of the monotonic clock.
\<close>

type_synonym method_id = string
type_synonym frame_id = string
type_synonym loader_id = string
type_synonym request_id = string
type_synonym interception_id = string
type_synonym session_id = string
type_synonym target_id = string
type_synonym instant = nat
type_synonym duration = nat
type_synonym u8 = "8 word"
type_synonym u32 = "32 word"
type_synonym u64 = "64 word"

definition from_secs :: "nat \<Rightarrow> duration" where
  "from_secs s = s * 1000000000"

definition from_millis :: "nat \<Rightarrow> duration" where
  "from_millis s = s * 1000000"

text \<open>\<open>Instant::checked_sub\<close>: \<open>None\<close> when the result lies before the clock's origin.\<close>

definition checked_sub :: "instant \<Rightarrow> duration \<Rightarrow> instant option" where
  "checked_sub t d = (if d \<le> t then Some (t - d) else None)"

text \<open>\<open>u32::saturating_add(1)\<close> and \<open>u64::saturating_sub\<close>.\<close>

definition saturating_inc32 :: "u32 \<Rightarrow> u32" where
  "saturating_inc32 n = (if n = - 1 then n else n + 1)"

definition saturating_sub64 :: "u64 \<Rightarrow> u64 \<Rightarrow> u64" where
  "saturating_sub64 a b = (if a < b then 0 else a - b)"

lemma unat_max_u32: "unat (- 1 :: u32) = 2 ^ 32 - 1"
  by (simp add: unat_word_ariths unsigned_minus_1_eq_mask mask_eq_exp_minus_1)

lemma unat_saturating_inc32: "unat (saturating_inc32 n) = min (unat n + 1) (2 ^ 32 - 1)"
proof (cases "n = - 1")
  case True
  then show ?thesis by (simp add: saturating_inc32_def unat_max_u32)
next
  case False
  then have "1 + n \<noteq> 0" by (metis add.commute add_eq_0_iff)
  then have "unat (1 + n) = Suc (unat n)" by (rule unatSuc)
  moreover have "unat (1 + n) < 2 ^ 32" using unsigned_less [of "1 + n"] by simp
  ultimately show ?thesis using False by (simp add: saturating_inc32_def add.commute)
qed

lemma unat_saturating_sub64: "unat (saturating_sub64 a b) = unat a - unat b"
  by (auto simp: saturating_sub64_def unat_sub word_less_nat_alt word_le_nat_alt)

section \<open>Hash maps\<close>

text \<open>
  A \<open>HashMap\<close> is an association list. The order of the list stands for the iteration order of
  the hash table, which the code cannot rely on: every theorem holds for every order. The
  operations are those the code calls: \<open>get\<close>/\<open>get_mut\<close>, \<open>insert\<close>, \<open>remove\<close>, \<open>retain\<close>,
  \<open>keys\<close>, \<open>values\<close>.
\<close>

type_synonym ('k, 'v) hash_map = "('k \<times> 'v) list"

definition hm_get :: "('k, 'v) hash_map \<Rightarrow> 'k \<Rightarrow> 'v option" where
  "hm_get m = map_of m"

definition hm_insert :: "'k \<Rightarrow> 'v \<Rightarrow> ('k, 'v) hash_map \<Rightarrow> ('k, 'v) hash_map" where
  "hm_insert k v m = AList.update k v m"

definition hm_remove :: "'k \<Rightarrow> ('k, 'v) hash_map \<Rightarrow> ('k, 'v) hash_map" where
  "hm_remove k m = AList.delete k m"

definition hm_retain :: "('k \<Rightarrow> 'v \<Rightarrow> bool) \<Rightarrow> ('k, 'v) hash_map \<Rightarrow> ('k, 'v) hash_map" where
  "hm_retain P m = filter (\<lambda>(k, v). P k v) (AList.clearjunk m)"

definition hm_keys :: "('k, 'v) hash_map \<Rightarrow> 'k list" where
  "hm_keys m = map fst (AList.clearjunk m)"

definition hm_values :: "('k, 'v) hash_map \<Rightarrow> 'v list" where
  "hm_values m = map snd (AList.clearjunk m)"

text \<open>\<open>get_mut\<close> followed by a write through the reference.\<close>

definition hm_modify :: "'k \<Rightarrow> ('v \<Rightarrow> 'v) \<Rightarrow> ('k, 'v) hash_map \<Rightarrow> ('k, 'v) hash_map" where
  "hm_modify k f m = (case hm_get m k of None \<Rightarrow> m | Some v \<Rightarrow> hm_insert k (f v) m)"

lemmas hm_defs = hm_get_def hm_insert_def hm_remove_def hm_retain_def hm_keys_def
  hm_values_def hm_modify_def

text \<open>
  The contract the components rely on, stated without the representation. Everything a
  component proves about its tables goes through these laws.
\<close>

locale hash_map_ops =
  fixes get :: "'m \<Rightarrow> 'k \<Rightarrow> 'v option"
    and insert :: "'k \<Rightarrow> 'v \<Rightarrow> 'm \<Rightarrow> 'm"
    and remove :: "'k \<Rightarrow> 'm \<Rightarrow> 'm"
    and retain :: "('k \<Rightarrow> 'v \<Rightarrow> bool) \<Rightarrow> 'm \<Rightarrow> 'm"
    and keys :: "'m \<Rightarrow> 'k list"
    and modify :: "'k \<Rightarrow> ('v \<Rightarrow> 'v) \<Rightarrow> 'm \<Rightarrow> 'm"
  assumes get_insert: "get (insert k v m) k' = (if k' = k then Some v else get m k')"
    and get_remove: "get (remove k m) k' = (if k' = k then None else get m k')"
    and get_retain: "get (retain P m) k = (case get m k of None \<Rightarrow> None | Some v \<Rightarrow> if P k v then Some v else None)"
    and get_modify: "get (modify k f m) k' = (if k' = k then map_option f (get m k) else get m k')"
    and set_keys: "set (keys m) = {k. get m k \<noteq> None}"
    and distinct_keys: "distinct (keys m)"
begin

lemma keys_insert: "set (keys (insert k v m)) = {k} \<union> set (keys m)"
  by (auto simp: set_keys get_insert)

lemma keys_remove: "set (keys (remove k m)) = set (keys m) - {k}"
  by (auto simp: set_keys get_remove)

lemma keys_retain: "set (keys (retain P m)) \<subseteq> set (keys m)"
  by (auto simp: set_keys get_retain split: option.splits)

lemma keys_modify: "set (keys (modify k f m)) = set (keys m)"
  by (auto simp: set_keys get_modify)

text \<open>Taking an entry out removes exactly one key: the size that loops over a map decrease.\<close>

lemma length_keys_remove: "get m k = Some v \<Longrightarrow> length (keys (remove k m)) < length (keys m)"
proof -
  assume "get m k = Some v"
  then have k: "k \<in> set (keys m)" by (simp add: set_keys)
  have "card (set (keys (remove k m))) < card (set (keys m))"
    unfolding keys_remove using k by (intro card_Diff1_less) auto
  then show ?thesis by (simp add: distinct_card distinct_keys)
qed

lemma length_keys_mono: "set (keys m) \<subseteq> set (keys m') \<Longrightarrow> length (keys m) \<le> length (keys m')"
  by (metis List.finite_set card_mono distinct_card distinct_keys)

text \<open>Moving an entry to another key.\<close>

lemma get_rekey: "get (insert k' v (remove k m)) x =
    (if x = k' then Some v else if x = k then None else get m x)"
  by (simp add: get_insert get_remove)

end

lemma map_of_filter_distinct:
  "distinct (map fst m) \<Longrightarrow> map_of (filter (\<lambda>(k, v). P k v) m) k =
     (case map_of m k of None \<Rightarrow> None | Some v \<Rightarrow> if P k v then Some v else None)"
  by (induction m) (auto split: option.splits simp: map_of_eq_None_iff)

interpretation hm: hash_map_ops hm_get hm_insert hm_remove hm_retain hm_keys hm_modify
proof unfold_locales
  fix m :: "('k, 'v) hash_map" and k
  show "set (hm_keys m) = {k. hm_get m k \<noteq> None}"
    using clearjunk_keys_set [of m] by (simp add: hm_defs map_of_eq_None_iff)
qed (auto simp: hm_defs update_conv' delete_conv' map_of_filter_distinct map_of_clearjunk
    split: option.splits)

lemmas hm_get_simps [simp, map_laws] = hm.get_insert hm.get_remove hm.get_retain hm.get_modify

lemma hm_get_Nil [simp, map_laws]: "hm_get [] k = None"
  by (simp add: hm_get_def)

lemma hm_values_iff: "v \<in> set (hm_values m) \<longleftrightarrow> (\<exists>k. hm_get m k = Some v)"
proof -
  have "set (hm_values m) = ran (map_of m)"
    by (simp add: hm_values_def ran_map_of)
  then show ?thesis by (auto simp: ran_def hm_get_def)
qed

section \<open>Hash sets that are iterated over\<close>

text \<open>
  A \<open>HashSet\<close> the code iterates over is a list without repetition, its order standing for
  the iteration order. Sets that are only asked for membership are HOL sets.
\<close>

type_synonym 'a hash_set = "'a list"

definition hs_insert :: "'a \<Rightarrow> 'a hash_set \<Rightarrow> 'a hash_set" where
  "hs_insert x s = (if x \<in> set s then s else s @ [x])"

definition hs_remove :: "'a \<Rightarrow> 'a hash_set \<Rightarrow> 'a hash_set" where
  "hs_remove x s = removeAll x s"

lemma set_hs_insert [simp]: "set (hs_insert x s) = {x} \<union> set s"
  by (auto simp: hs_insert_def)

lemma set_hs_remove [simp]: "set (hs_remove x s) = set s - {x}"
  by (simp add: hs_remove_def)

lemma distinct_hs_insert [simp]: "distinct s \<Longrightarrow> distinct (hs_insert x s)"
  by (simp add: hs_insert_def)

lemma distinct_hs_remove [simp]: "distinct s \<Longrightarrow> distinct (hs_remove x s)"
  by (simp add: hs_remove_def distinct_removeAll)

section \<open>Runs of a component\<close>

text \<open>
  A component is a state and a step function; a run feeds it a list of inputs. The two
  locales say what a component has to show for one step so that the fact holds for runs.
\<close>

fun run :: "('s \<Rightarrow> 'e \<Rightarrow> 's) \<Rightarrow> 's \<Rightarrow> 'e list \<Rightarrow> 's" where
  "run step s [] = s"
| "run step s (e # es) = run step (step s e) es"

lemma run_append: "run step s (es @ es') = run step (run step s es) es'"
  by (induction es arbitrary: s) auto

text \<open>What the steps of a run produce, in order.\<close>

fun collect :: "('s \<Rightarrow> 'e \<Rightarrow> 's) \<Rightarrow> ('s \<Rightarrow> 'e \<Rightarrow> 'o list) \<Rightarrow> 's \<Rightarrow> 'e list \<Rightarrow> 'o list" where
  "collect step out s [] = []"
| "collect step out s (e # es) = out s e @ collect step out (step s e) es"

lemma collect_map: "collect step (\<lambda>s e. map f (out s e)) s es = map f (collect step out s es)"
  by (induction es arbitrary: s) auto

locale event_machine =
  fixes step :: "'s \<Rightarrow> 'e \<Rightarrow> 's" and inv :: "'s \<Rightarrow> bool"
  assumes step_inv: "inv s \<Longrightarrow> inv (step s e)"
begin

lemma run_inv: "inv s \<Longrightarrow> inv (run step s es)"
  by (induction es arbitrary: s) (auto intro: step_inv)

text \<open>The states a run goes through all satisfy the invariant.\<close>

lemma prefix_inv: "inv s \<Longrightarrow> inv (run step s (take n es))"
  by (rule run_inv)

end

text \<open>
  A component with a queue inside: each step takes some elements from the front of the queue
  and hands some in at its end. Then over a run everything taken, followed by what is still
  queued, is everything that was queued or handed in: nothing is lost, repeated or reordered.
\<close>

locale fifo_machine = event_machine step inv
  for step :: "'s \<Rightarrow> 'e \<Rightarrow> 's" and inv :: "'s \<Rightarrow> bool" +
  fixes queue :: "'s \<Rightarrow> 'a list"
    and taken :: "'s \<Rightarrow> 'e \<Rightarrow> 'a list"
    and given :: "'s \<Rightarrow> 'e \<Rightarrow> 'a list"
  assumes conserve: "inv s \<Longrightarrow> taken s e @ queue (step s e) = queue s @ given s e"
begin

lemma run_conserve:
  "inv s \<Longrightarrow> collect step taken s es @ queue (run step s es) = queue s @ collect step given s es"
proof (induction es arbitrary: s)
  case Nil
  then show ?case by simp
next
  case (Cons e es)
  then have "collect step taken (step s e) es @ queue (run step (step s e) es)
      = queue (step s e) @ collect step given (step s e) es"
    by (intro Cons.IH step_inv)
  with conserve [OF Cons.prems, of e] show ?case
    by (simp flip: append_assoc) (simp add: append_assoc)
qed

lemma run_empty_queue:
  "inv s \<Longrightarrow> queue s = [] \<Longrightarrow> queue (run step s es) = [] \<Longrightarrow>
    collect step taken s es = collect step given s es"
  using run_conserve [of s es] by simp

lemma run_prefix:
  "inv s \<Longrightarrow> queue s = [] \<Longrightarrow> \<exists>rest. collect step given s es = collect step taken s es @ rest"
  using run_conserve [of s es] by (metis append_Nil)

end

end
