(* ===== verification/Cdp.thy ===== *)
theory Cdp
  imports Prelude
begin

text \<open>
  The messages the handler exchanges with the browser: JSON values with the accessors of
  \<open>serde_json\<close> the code calls, requests, responses, method calls and call ids
  (\<open>types/src/lib.rs\<close>), and the protocol commands the handler builds, with their method
  names and their serialisation (the derived \<open>Serialize\<close> of \<open>cdp/src/cdp.rs\<close>: fields in
  declaration order under their protocol names, optional fields left out when \<open>None\<close>).
  The serialisation of these plain structs cannot fail, so the \<open>if let Ok(..)\<close> around it in
  the code always takes its first branch.
\<close>

section \<open>JSON\<close>

datatype json =
    JNull
  | JBool bool
  | JNumber rat
  | JString string
  | JArray "json list"
  | JObject "(string \<times> json) list"

text \<open>\<open>Value::as_str\<close>, \<open>as_bool\<close>, \<open>as_array\<close>, \<open>as_object\<close>.\<close>

fun as_str :: "json \<Rightarrow> string option" where
  "as_str (JString s) = Some s"
| "as_str _ = None"

fun as_bool :: "json \<Rightarrow> bool option" where
  "as_bool (JBool b) = Some b"
| "as_bool _ = None"

fun as_array :: "json \<Rightarrow> json list option" where
  "as_array (JArray xs) = Some xs"
| "as_array _ = None"

fun as_object :: "json \<Rightarrow> (string \<times> json) list option" where
  "as_object (JObject o1) = Some o1"
| "as_object _ = None"

text \<open>\<open>Value::get(key)\<close>, and indexing \<open>v[key]\<close> of a shared reference: a missing key or a
  value that is no object reads as \<open>null\<close>.\<close>

definition json_get :: "json \<Rightarrow> string \<Rightarrow> json option" where
  "json_get v k = Option.bind (as_object v) (\<lambda>o1. map_of o1 k)"

definition json_index :: "json \<Rightarrow> string \<Rightarrow> json" where
  "json_index v k = (case json_get v k of None \<Rightarrow> JNull | Some x \<Rightarrow> x)"

text \<open>\<open>v[key] = x\<close> through \<open>IndexMut\<close>: \<open>null\<close> turns into an object, a value that is neither
  an object nor \<open>null\<close> panics (\<open>None\<close>).\<close>

fun json_set :: "json \<Rightarrow> string \<Rightarrow> json \<Rightarrow> json option" where
  "json_set (JObject o1) k x = Some (JObject (AList.update k x o1))"
| "json_set JNull k x = Some (JObject [(k, x)])"
| "json_set _ k x = None"

section \<open>Calls, requests, responses\<close>

type_synonym call_id = u64

record cdp_request =
  rq_method :: method_id
  rq_session_id :: "session_id option"
  rq_params :: json

definition Request_new :: "method_id \<Rightarrow> json \<Rightarrow> cdp_request" where
  "Request_new m p = \<lparr>rq_method = m, rq_session_id = None, rq_params = p\<rparr>"

definition Request_with_session :: "method_id \<Rightarrow> json \<Rightarrow> session_id \<Rightarrow> cdp_request" where
  "Request_with_session m p s = \<lparr>rq_method = m, rq_session_id = Some s, rq_params = p\<rparr>"

record method_call =
  mc_id :: call_id
  mc_method :: method_id
  mc_session_id :: "session_id option"
  mc_params :: json

record chrome_error =
  err_code :: int
  err_message :: string

record cdp_response =
  rs_id :: call_id
  rs_result :: "json option"
  rs_error :: "chrome_error option"

text \<open>\<open>Method::split\<close>: the domain and the name of a method, the first two parts between dots.\<close>

definition method_split :: "method_id \<Rightarrow> string \<times> string" where
  "method_split m = (let p = (\<lambda>c. c \<noteq> CHR ''.'')
     in (takeWhile p m, takeWhile p (drop 1 (dropWhile p m))))"

section \<open>The commands the handler builds\<close>

datatype auth_response = AuthDefault | CancelAuth | ProvideCredentials

datatype cdp_command =
    PageEnable
  | PageGetFrameTree
  | PageSetLifecycleEventsEnabled bool
  | PageAddScriptToEvaluateOnNewDocument string string
  | PageCreateIsolatedWorld frame_id string bool
  | PageStopLoading
  | NetworkEnable
  | NetworkSetExtraHttpHeaders json
  | NetworkSetBypassServiceWorker bool
  | NetworkSetCacheDisabled bool
  | NetworkEmulateConditionsByRule bool
  | SecuritySetIgnoreCertificateErrors bool
  | FetchEnable
  | FetchDisable
  | FetchFailRequest interception_id
  | FetchFulfillRequest interception_id int "(string \<times> string) list option" "string option"
  | FetchContinueRequest interception_id "string option" "bool option"
  | FetchContinueWithAuth interception_id auth_response "string option" "string option"
  | TargetAttachToTarget target_id
  | TargetSetAutoAttach
  | TargetDetachFromTarget session_id
  | TargetCloseTarget target_id
  | TargetSetDiscoverTargets bool
  | TargetGetTargets
  | LogDisable
  | PerformanceEnable
  | RuntimeRunIfWaitingForDebugger
  | BrowserClose
  | EmulationSetTouchEmulationEnabled bool
  | EmulationSetDeviceMetricsOverride int int rat bool string int

fun method_identifier :: "cdp_command \<Rightarrow> method_id" where
  "method_identifier PageEnable = ''Page.enable''"
| "method_identifier PageGetFrameTree = ''Page.getFrameTree''"
| "method_identifier (PageSetLifecycleEventsEnabled _) = ''Page.setLifecycleEventsEnabled''"
| "method_identifier (PageAddScriptToEvaluateOnNewDocument _ _) = ''Page.addScriptToEvaluateOnNewDocument''"
| "method_identifier (PageCreateIsolatedWorld _ _ _) = ''Page.createIsolatedWorld''"
| "method_identifier PageStopLoading = ''Page.stopLoading''"
| "method_identifier NetworkEnable = ''Network.enable''"
| "method_identifier (NetworkSetExtraHttpHeaders _) = ''Network.setExtraHTTPHeaders''"
| "method_identifier (NetworkSetBypassServiceWorker _) = ''Network.setBypassServiceWorker''"
| "method_identifier (NetworkSetCacheDisabled _) = ''Network.setCacheDisabled''"
| "method_identifier (NetworkEmulateConditionsByRule _) = ''Network.emulateNetworkConditionsByRule''"
| "method_identifier (SecuritySetIgnoreCertificateErrors _) = ''Security.setIgnoreCertificateErrors''"
| "method_identifier FetchEnable = ''Fetch.enable''"
| "method_identifier FetchDisable = ''Fetch.disable''"
| "method_identifier (FetchFailRequest _) = ''Fetch.failRequest''"
| "method_identifier (FetchFulfillRequest _ _ _ _) = ''Fetch.fulfillRequest''"
| "method_identifier (FetchContinueRequest _ _ _) = ''Fetch.continueRequest''"
| "method_identifier (FetchContinueWithAuth _ _ _ _) = ''Fetch.continueWithAuth''"
| "method_identifier (TargetAttachToTarget _) = ''Target.attachToTarget''"
| "method_identifier TargetSetAutoAttach = ''Target.setAutoAttach''"
| "method_identifier (TargetDetachFromTarget _) = ''Target.detachFromTarget''"
| "method_identifier (TargetCloseTarget _) = ''Target.closeTarget''"
| "method_identifier (TargetSetDiscoverTargets _) = ''Target.setDiscoverTargets''"
| "method_identifier TargetGetTargets = ''Target.getTargets''"
| "method_identifier LogDisable = ''Log.disable''"
| "method_identifier PerformanceEnable = ''Performance.enable''"
| "method_identifier RuntimeRunIfWaitingForDebugger = ''Runtime.runIfWaitingForDebugger''"
| "method_identifier BrowserClose = ''Browser.close''"
| "method_identifier (EmulationSetTouchEmulationEnabled _) = ''Emulation.setTouchEmulationEnabled''"
| "method_identifier (EmulationSetDeviceMetricsOverride _ _ _ _ _ _) = ''Emulation.setDeviceMetricsOverride''"

text \<open>An optional field: left out when \<open>None\<close>.\<close>

definition opt_field :: "string \<Rightarrow> ('a \<Rightarrow> json) \<Rightarrow> 'a option \<Rightarrow> (string \<times> json) list" where
  "opt_field k f x = (case x of None \<Rightarrow> [] | Some v \<Rightarrow> [(k, f v)])"

fun auth_response_str :: "auth_response \<Rightarrow> string" where
  "auth_response_str AuthDefault = ''Default''"
| "auth_response_str CancelAuth = ''CancelAuth''"
| "auth_response_str ProvideCredentials = ''ProvideCredentials''"

definition header_entry :: "string \<times> string \<Rightarrow> json" where
  "header_entry h = JObject [(''name'', JString (fst h)), (''value'', JString (snd h))]"

fun to_value :: "cdp_command \<Rightarrow> json" where
  "to_value PageEnable = JObject []"
| "to_value PageGetFrameTree = JObject []"
| "to_value (PageSetLifecycleEventsEnabled b) = JObject [(''enabled'', JBool b)]"
| "to_value (PageAddScriptToEvaluateOnNewDocument src wn) =
     JObject [(''source'', JString src), (''worldName'', JString wn)]"
| "to_value (PageCreateIsolatedWorld f wn g) =
     JObject [(''frameId'', JString f), (''worldName'', JString wn), (''grantUniveralAccess'', JBool g)]"
| "to_value PageStopLoading = JObject []"
| "to_value NetworkEnable = JObject []"
| "to_value (NetworkSetExtraHttpHeaders h) = JObject [(''headers'', h)]"
| "to_value (NetworkSetBypassServiceWorker b) = JObject [(''bypass'', JBool b)]"
| "to_value (NetworkSetCacheDisabled b) = JObject [(''cacheDisabled'', JBool b)]"
| "to_value (NetworkEmulateConditionsByRule b) = JObject [(''offline'', JBool b),
     (''matchedNetworkConditions'', JArray [JObject [(''urlPattern'', JString []), (''latency'', JNumber 0),
        (''downloadThroughput'', JNumber (- 1)), (''uploadThroughput'', JNumber (- 1))]])]"
| "to_value (SecuritySetIgnoreCertificateErrors b) = JObject [(''ignore'', JBool b)]"
| "to_value FetchEnable = JObject [(''patterns'', JArray [JObject [(''urlPattern'', JString ''*''),
     (''requestStage'', JString ''Request'')]]), (''handleAuthRequests'', JBool True)]"
| "to_value FetchDisable = JObject []"
| "to_value (FetchFailRequest i) =
     JObject [(''requestId'', JString i), (''errorReason'', JString ''BlockedByClient'')]"
| "to_value (FetchFulfillRequest i code hs body) = JObject ([(''requestId'', JString i),
     (''responseCode'', JNumber (of_int code))]
     @ opt_field ''responseHeaders'' (\<lambda>h. JArray (map header_entry h)) hs
     @ opt_field ''body'' JString body)"
| "to_value (FetchContinueRequest i u ir) = JObject ([(''requestId'', JString i)]
     @ opt_field ''url'' JString u @ opt_field ''interceptResponse'' JBool ir)"
| "to_value (FetchContinueWithAuth i r un pw) = JObject [(''requestId'', JString i),
     (''authChallengeResponse'', JObject ([(''response'', JString (auth_response_str r))]
        @ opt_field ''username'' JString un @ opt_field ''password'' JString pw))]"
| "to_value (TargetAttachToTarget t) = JObject [(''targetId'', JString t), (''flatten'', JBool True)]"
| "to_value TargetSetAutoAttach = JObject [(''autoAttach'', JBool True),
     (''waitForDebuggerOnStart'', JBool True), (''flatten'', JBool True)]"
| "to_value (TargetDetachFromTarget s) = JObject [(''sessionId'', JString s)]"
| "to_value (TargetCloseTarget t) = JObject [(''targetId'', JString t)]"
| "to_value (TargetSetDiscoverTargets b) = JObject [(''discover'', JBool b)]"
| "to_value TargetGetTargets = JObject []"
| "to_value LogDisable = JObject []"
| "to_value PerformanceEnable = JObject []"
| "to_value RuntimeRunIfWaitingForDebugger = JObject []"
| "to_value BrowserClose = JObject []"
| "to_value (EmulationSetTouchEmulationEnabled b) = JObject [(''enabled'', JBool b)]"
| "to_value (EmulationSetDeviceMetricsOverride w h d m oty oang) = JObject [(''width'', JNumber (of_int w)),
     (''height'', JNumber (of_int h)), (''deviceScaleFactor'', JNumber d), (''mobile'', JBool m),
     (''screenOrientation'', JObject [(''type'', JString oty), (''angle'', JNumber (of_int oang))])]"

text \<open>A command as the code queues it: its method and its serialised parameters.\<close>

definition command_pair :: "cdp_command \<Rightarrow> method_id \<times> json" where
  "command_pair c = (method_identifier c, to_value c)"

end
