(* ===== verification/Cmd.thy ===== *)
theory Cmd
  imports Cdp
begin

text \<open>
  \<open>src/cmd.rs\<close>: the command chain that drives every initialisation sequence, the command
  messages a page handle sends to the handler, and the conversion of a response. Also the
  error type of \<open>src/error.rs\<close>. The sending half of a oneshot channel is the number of the
  channel; sending on it is an output of the operation that sends.
\<close>

type_synonym sender = nat

section \<open>Errors\<close>

record deadline_exceeded =
  de_deadline :: instant
  de_now :: instant

definition DeadlineExceeded_new :: "instant \<Rightarrow> instant \<Rightarrow> deadline_exceeded" where
  "DeadlineExceeded_new now deadline = \<lparr>de_deadline = deadline, de_now = now\<rparr>"

text \<open>The errors of the socket and of the operating system, as far as the code tells them apart; the
  rest is text.\<close>

datatype ws_error =
    AlreadyClosed
  | ResetWithoutClosingHandshake
  | WsHttp string
  | WsHttpFormat string
  | OtherWsError string

datatype io_error = ConnectionRefused | OtherIoError string

text \<open>The variants of \<open>CdpError\<close>; payloads of other foreign error types are their text.\<close>

datatype cdp_error =
    ErrWs ws_error
  | ErrIo io_error
  | ErrSerde
  | ErrChrome chrome_error
  | NoResponse
  | UnexpectedWsMessage string
  | ChannelSendError
  | LaunchExit string
  | LaunchTimeout string
  | LaunchIo string
  | Timeout
  | TooManyNavigations u32
  | FrameNotFound frame_id
  | ChromeMessage string
  | DecodeError string
  | ScrollingFailed string
  | NotFound
  | JavascriptException string
  | UrlError string

definition CdpError_msg :: "string \<Rightarrow> cdp_error" where
  "CdpError_msg m = ChromeMessage m"

section \<open>Responses and command messages\<close>

record 'r command_response =
  cr_id :: call_id
  cr_result :: 'r
  cr_method :: method_id

text \<open>\<open>from_value\<close> is the deserialiser of the command's response type.\<close>

definition to_command_response ::
  "(json \<Rightarrow> 'r option) \<Rightarrow> cdp_response \<Rightarrow> method_id \<Rightarrow> cdp_error + 'r command_response" where
  "to_command_response from_value resp m =
     (case rs_result resp of
        Some res \<Rightarrow> (case from_value res of
            None \<Rightarrow> Inl ErrSerde
          | Some r \<Rightarrow> Inr \<lparr>cr_id = rs_id resp, cr_result = r, cr_method = m\<rparr>)
      | None \<Rightarrow> (case rs_error resp of
            Some err \<Rightarrow> Inl (ErrChrome err)
          | None \<Rightarrow> Inl NoResponse))"

record command_message =
  cm_method :: method_id
  cm_session_id :: "session_id option"
  cm_params :: json
  cm_sender :: sender

text \<open>\<open>params\<close> is what serialising the command returned, \<open>None\<close> for its error.\<close>

definition CommandMessage_with_session ::
  "method_id \<Rightarrow> json option \<Rightarrow> sender \<Rightarrow> session_id option \<Rightarrow> command_message option" where
  "CommandMessage_with_session m params tx sid =
     map_option (\<lambda>p. \<lparr>cm_method = m, cm_session_id = sid, cm_params = p, cm_sender = tx\<rparr>) params"

definition CommandMessage_new :: "method_id \<Rightarrow> json option \<Rightarrow> sender \<Rightarrow> command_message option" where
  "CommandMessage_new m params tx =
     map_option (\<lambda>p. \<lparr>cm_method = m, cm_session_id = None, cm_params = p, cm_sender = tx\<rparr>) params"

definition is_navigation :: "command_message \<Rightarrow> bool" where
  "is_navigation msg = (cm_method msg = ''Page.navigate'')"

definition CommandMessage_split :: "command_message \<Rightarrow> cdp_request \<times> sender" where
  "CommandMessage_split msg =
     (\<lparr>rq_method = cm_method msg, rq_session_id = cm_session_id msg, rq_params = cm_params msg\<rparr>,
      cm_sender msg)"

section \<open>The command chain\<close>

datatype 'a poll = Pending | Ready 'a

record command_chain =
  cc_cmds :: "(method_id \<times> json) list"
  cc_waiting :: "(method_id \<times> instant) option"
  cc_timeout :: duration

type_synonym next_command = "(deadline_exceeded + method_id \<times> json) option poll"

definition CommandChain_new :: "(method_id \<times> json) list \<Rightarrow> duration \<Rightarrow> command_chain" where
  "CommandChain_new cmds t = \<lparr>cc_cmds = cmds, cc_waiting = None, cc_timeout = t\<rparr>"

definition CommandChain_push_back :: "method_id \<Rightarrow> json \<Rightarrow> command_chain \<Rightarrow> command_chain" where
  "CommandChain_push_back m p c = c\<lparr>cc_cmds := cc_cmds c @ [(m, p)]\<rparr>"

definition CommandChain_received_response :: "string \<Rightarrow> command_chain \<Rightarrow> bool \<times> command_chain" where
  "CommandChain_received_response ident c =
     (if map_option fst (cc_waiting c) = Some ident
      then (True, c\<lparr>cc_waiting := None\<rparr>)
      else (False, c))"

definition CommandChain_poll :: "instant \<Rightarrow> command_chain \<Rightarrow> next_command \<times> command_chain" where
  "CommandChain_poll now c =
     (case cc_waiting c of
        Some (cmd, deadline) \<Rightarrow>
          if now > deadline
          then (Ready (Some (Inl (DeadlineExceeded_new now deadline))), c)
          else (Pending, c)
      | None \<Rightarrow> (case cc_cmds c of
            (m, val) # rest \<Rightarrow>
              (Ready (Some (Inr (m, val))),
               c\<lparr>cc_cmds := rest, cc_waiting := Some (m, now + cc_timeout c)\<rparr>)
          | [] \<Rightarrow> (Ready None, c)))"

text \<open>\<open>REQUEST_TIMEOUT\<close> of \<open>src/handler/mod.rs\<close>, and \<open>CommandChain::default\<close>.\<close>

definition REQUEST_TIMEOUT :: nat where
  "REQUEST_TIMEOUT = 30000"

definition CommandChain_default :: command_chain where
  "CommandChain_default = \<lparr>cc_cmds = [], cc_waiting = None, cc_timeout = from_millis REQUEST_TIMEOUT\<rparr>"

lemmas chain_defs = CommandChain_new_def CommandChain_push_back_def
  CommandChain_received_response_def CommandChain_poll_def

section \<open>The chain as a machine\<close>

text \<open>What happens to a chain: it is polled, a response arrives, a command is queued.\<close>

datatype chain_input = ChainPoll instant | ChainResponse string | ChainPush method_id json

fun chain_step :: "command_chain \<Rightarrow> chain_input \<Rightarrow> command_chain" where
  "chain_step c (ChainPoll now) = snd (CommandChain_poll now c)"
| "chain_step c (ChainResponse i) = snd (CommandChain_received_response i c)"
| "chain_step c (ChainPush m p) = CommandChain_push_back m p c"

text \<open>The commands a step hands to the caller for submission, and those it takes in.\<close>

fun chain_issued :: "command_chain \<Rightarrow> chain_input \<Rightarrow> (method_id \<times> json) list" where
  "chain_issued c (ChainPoll now) =
     (case fst (CommandChain_poll now c) of Ready (Some (Inr cmd)) \<Rightarrow> [cmd] | _ \<Rightarrow> [])"
| "chain_issued c _ = []"

fun chain_pushed :: "command_chain \<Rightarrow> chain_input \<Rightarrow> (method_id \<times> json) list" where
  "chain_pushed c (ChainPush m p) = [(m, p)]"
| "chain_pushed c _ = []"

interpretation chain: fifo_machine chain_step "\<lambda>_. True" cc_cmds chain_issued chain_pushed
proof unfold_locales
  fix c e
  show "chain_issued c e @ cc_cmds (chain_step c e) = cc_cmds c @ chain_pushed c e"
    by (cases e) (auto simp: chain_defs split: option.splits list.splits)
qed simp

lemma chain_waiting_step:
  assumes "cc_waiting c = Some (m, d)" and "e \<noteq> ChainResponse m"
  shows "cc_waiting (chain_step c e) = Some (m, d)" and "chain_issued c e = []"
  using assms by (cases e; auto simp: chain_defs)+

text \<open>A chain that is answered: each poll is followed by the response to what it issued.\<close>

fun answered :: "instant \<Rightarrow> (method_id \<times> json) list \<Rightarrow> chain_input list" where
  "answered now [] = []"
| "answered now ((m, p) # cmds) = ChainPoll now # ChainResponse m # answered now cmds"

lemma answered_run:
  "cc_waiting c = None \<Longrightarrow>
     run chain_step c (answered now (cc_cmds c)) = c\<lparr>cc_cmds := [], cc_waiting := None\<rparr>"
proof (induction "cc_cmds c" arbitrary: c)
  case Nil
  then show ?case by simp
next
  case (Cons cmd cmds)
  obtain m p where cmd: "cmd = (m, p)" by (cases cmd)
  let ?c = "c\<lparr>cc_cmds := cmds, cc_waiting := None\<rparr>"
  have "run chain_step ?c (answered now (cc_cmds ?c)) = ?c\<lparr>cc_cmds := [], cc_waiting := None\<rparr>"
    by (rule Cons.hyps(1)) simp_all
  then show ?case
    using Cons.hyps(2) [symmetric] Cons.prems cmd by (simp add: chain_defs)
qed

section \<open>Properties\<close>

lemma chain_waiting_run:
  "cc_waiting c = Some (m, d) \<Longrightarrow> ChainResponse m \<notin> set es \<Longrightarrow>
    cc_waiting (run chain_step c es) = Some (m, d) \<and> collect chain_step chain_issued c es = []"
proof (induction es arbitrary: c)
  case (Cons e es)
  then have "e \<noteq> ChainResponse m" by auto
  with Cons show ?case by (simp add: chain_waiting_step)
qed simp

text \<open>A chain issues its commands in order. Over any run of a chain, the commands handed out by
  \<open>poll\<close>, followed by those still queued, are the commands it was built with followed by those
  pushed later: none is skipped, repeated or reordered.\<close>

theorem chain_commands_in_order:
  "collect chain_step chain_issued (CommandChain_new cmds t) es @ cc_cmds (run chain_step (CommandChain_new cmds t) es)
     = cmds @ collect chain_step chain_pushed (CommandChain_new cmds t) es"
  using chain.run_conserve [of "CommandChain_new cmds t" es] by (simp add: CommandChain_new_def)

text \<open>One command in flight. Once a chain has issued a command, it issues no other until the
  response with that command's method arrives, whatever else happens; a poll meanwhile is pending
  up to the deadline and reports \<open>DeadlineExceeded\<close> after it, and only after it.\<close>

theorem chain_one_in_flight:
  assumes "chain_issued c (ChainPoll t) = [(m, p)]" and "ChainResponse m \<notin> set es"
  shows "collect chain_step chain_issued (chain_step c (ChainPoll t)) es = [] \<and>
    fst (CommandChain_poll now (run chain_step (chain_step c (ChainPoll t)) es)) =
      (if t + cc_timeout c < now then Ready (Some (Inl (DeadlineExceeded_new now (t + cc_timeout c)))) else Pending)"
proof -
  have "cc_waiting (chain_step c (ChainPoll t)) = Some (m, t + cc_timeout c)"
    using assms(1) by (auto simp: CommandChain_poll_def split: option.splits list.splits if_splits)
  from chain_waiting_run [OF this assms(2)] show ?thesis by (simp add: CommandChain_poll_def)
qed

lemma chain_one_in_flight_witness:
  "fst (CommandChain_poll 40 (run chain_step (chain_step (CommandChain_new [(''a'', JNull), (''b'', JNull)] 30) (ChainPoll 5))
     [ChainResponse ''b'', ChainPoll 6])) = Ready (Some (Inl (DeadlineExceeded_new 40 35)))"
proof -
  have "chain_issued (CommandChain_new [(''a'', JNull), (''b'', JNull)] 30) (ChainPoll 5) = [(''a'', JNull)]"
    by (simp add: chain_defs)
  from chain_one_in_flight [OF this, of "[ChainResponse ''b'', ChainPoll 6]" 40] show ?thesis
    by (simp add: CommandChain_new_def)
qed

text \<open>An answered chain completes. If each command is answered before the next poll, the chain
  issues all its commands and the poll after the last answer reports completion.\<close>

theorem answered_chain_completes:
  "map fst (collect chain_step chain_issued (CommandChain_new cmds t) (answered now cmds)) = map fst cmds \<and>
   fst (CommandChain_poll later (run chain_step (CommandChain_new cmds t) (answered now cmds))) = Ready None"
proof -
  have run: "run chain_step (CommandChain_new cmds t) (answered now cmds) = CommandChain_new [] t"
    using answered_run [of "CommandChain_new cmds t" now] by (simp add: CommandChain_new_def)
  have "collect chain_step chain_pushed c (answered now cs) = []" for c cs
    by (induction cs arbitrary: c) auto
  with chain.run_conserve [of "CommandChain_new cmds t" "answered now cmds"] run
  have "collect chain_step chain_issued (CommandChain_new cmds t) (answered now cmds) = cmds"
    by (simp add: CommandChain_new_def)
  with run show ?thesis by (simp add: chain_defs)
qed

end
