(* ===== verification/Http.thy ===== *)
theory Http
  imports Cdp
begin

text \<open>
  \<open>src/handler/http.rs\<close>: the record of one network request. Its redirect chain holds records
  of the same type, so the other fields form \<open>http_fields\<close> and the type is recursive in the
  chain only. Of the protocol's \<open>Response\<close> the fields the handler reads are kept: the url, the
  status, the headers and the encoded length (an \<open>f64\<close>; JSON has finite numbers only).
\<close>

record net_response =
  nr_url :: string
  nr_status :: int
  nr_headers :: json
  nr_encoded_data_length :: rat

record http_fields =
  hr_request_id :: request_id
  hr_from_memory_cache :: bool
  hr_failure_text :: "string option"
  hr_interception_id :: "interception_id option"
  hr_response :: "net_response option"
  hr_headers :: "(string, string) hash_map"
  hr_frame :: "frame_id option"
  hr_is_navigation_request :: bool
  hr_allow_interception :: bool
  hr_interception_handled :: bool
  hr_method :: "string option"
  hr_url :: "string option"
  hr_resource_type :: "string option"
  hr_post_data :: "string option"
  hr_created_at :: instant

datatype http_request = HttpRequest (hr_fields: http_fields) (hr_redirect_chain: "http_request list")

text \<open>\<open>HttpRequest::new\<close>; the last argument is what \<open>Instant::now()\<close> reads.\<close>

definition HttpRequest_new ::
  "request_id \<Rightarrow> frame_id option \<Rightarrow> interception_id option \<Rightarrow> bool \<Rightarrow> http_request list \<Rightarrow> instant \<Rightarrow> http_request" where
  "HttpRequest_new rid frame iid allow chain now = HttpRequest
     \<lparr>hr_request_id = rid, hr_from_memory_cache = False, hr_failure_text = None,
      hr_interception_id = iid, hr_response = None, hr_headers = [], hr_frame = frame,
      hr_is_navigation_request = False, hr_allow_interception = allow,
      hr_interception_handled = False, hr_method = None, hr_url = None,
      hr_resource_type = None, hr_post_data = None, hr_created_at = now\<rparr> chain"

definition HttpRequest_default :: "instant \<Rightarrow> http_request" where
  "HttpRequest_default now = HttpRequest_new [] None None False [] now"

text \<open>Writing fields of a request in place.\<close>

definition hr_map :: "(http_fields \<Rightarrow> http_fields) \<Rightarrow> http_request \<Rightarrow> http_request" where
  "hr_map f r = HttpRequest (f (hr_fields r)) (hr_redirect_chain r)"

definition HttpRequest_set_response :: "net_response \<Rightarrow> http_request \<Rightarrow> http_request" where
  "HttpRequest_set_response resp = hr_map (\<lambda>f. f\<lparr>hr_response := Some resp\<rparr>)"

text \<open>Shorthands for reading a request.\<close>

abbreviation request_interception_id :: "http_request \<Rightarrow> interception_id option" where
  "request_interception_id r \<equiv> hr_interception_id (hr_fields r)"

abbreviation request_created_at :: "http_request \<Rightarrow> instant" where
  "request_created_at r \<equiv> hr_created_at (hr_fields r)"

lemma hr_map_simps [simp]:
  "hr_fields (hr_map f r) = f (hr_fields r)"
  "hr_redirect_chain (hr_map f r) = hr_redirect_chain r"
  by (simp_all add: hr_map_def)

lemma HttpRequest_new_simps [simp]:
  "hr_redirect_chain (HttpRequest_new rid fr iid al ch now) = ch"
  "request_interception_id (HttpRequest_new rid fr iid al ch now) = iid"
  "request_created_at (HttpRequest_new rid fr iid al ch now) = now"
  "hr_request_id (hr_fields (HttpRequest_new rid fr iid al ch now)) = rid"
  "hr_frame (hr_fields (HttpRequest_new rid fr iid al ch now)) = fr"
  "hr_failure_text (hr_fields (HttpRequest_new rid fr iid al ch now)) = None"
  by (simp_all add: HttpRequest_new_def)

lemma HttpRequest_set_response_simps [simp]:
  "hr_redirect_chain (HttpRequest_set_response resp r) = hr_redirect_chain r"
  "request_interception_id (HttpRequest_set_response resp r) = request_interception_id r"
  "request_created_at (HttpRequest_set_response resp r) = request_created_at r"
  "hr_frame (hr_fields (HttpRequest_set_response resp r)) = hr_frame (hr_fields r)"
  "hr_response (hr_fields (HttpRequest_set_response resp r)) = Some resp"
  by (simp_all add: HttpRequest_set_response_def)

text \<open>\<open>is_redirect_status\<close> of \<open>src/handler/network.rs\<close>.\<close>

definition is_redirect_status :: "int \<Rightarrow> bool" where
  "is_redirect_status status = (status \<in> {301, 302, 303, 307, 308})"

text \<open>The \<open>f64\<close> to \<open>u64\<close> cast \<open>x as u64\<close>: truncation towards zero, saturating at both ends.\<close>

definition f64_as_u64 :: "rat \<Rightarrow> u64" where
  "f64_as_u64 x = (if x < 0 then 0 else if x \<ge> 2 ^ 64 then - 1 else of_int \<lfloor>x\<rfloor>)"

end
