(* ===== verification/Text.thy ===== *)
theory Text
  imports Prelude
begin

text \<open>
  The operations on strings the code takes from Rust's standard library and from the \<open>memchr\<close>
  crate: positions of bytes, prefixes and suffixes, ASCII case, splitting and replacing. A
  string is the list of its bytes; the code cuts strings only next to ASCII bytes.
\<close>

section \<open>ASCII case\<close>

definition is_ascii_digit :: "char \<Rightarrow> bool" where
  "is_ascii_digit c = (48 \<le> (of_char c :: nat) \<and> (of_char c :: nat) \<le> 57)"

definition is_ascii_upper :: "char \<Rightarrow> bool" where
  "is_ascii_upper c = (65 \<le> (of_char c :: nat) \<and> (of_char c :: nat) \<le> 90)"

definition is_ascii_lower :: "char \<Rightarrow> bool" where
  "is_ascii_lower c = (97 \<le> (of_char c :: nat) \<and> (of_char c :: nat) \<le> 122)"

definition to_ascii_lowercase :: "char \<Rightarrow> char" where
  "to_ascii_lowercase c = (if is_ascii_upper c then char_of ((of_char c :: nat) + 32) else c)"

definition ascii_lower :: "string \<Rightarrow> string" where
  "ascii_lower s = map to_ascii_lowercase s"

definition eq_ignore_ascii_case :: "string \<Rightarrow> string \<Rightarrow> bool" where
  "eq_ignore_ascii_case a b = (ascii_lower a = ascii_lower b)"

lemma length_ascii_lower [simp]: "length (ascii_lower s) = length s"
  by (simp add: ascii_lower_def)

lemma ascii_lower_append [simp]: "ascii_lower (s @ t) = ascii_lower s @ ascii_lower t"
  by (simp add: ascii_lower_def)

lemma ascii_lower_simps [simp]: "ascii_lower [] = []" "ascii_lower (c # s) = to_ascii_lowercase c # ascii_lower s"
  by (simp_all add: ascii_lower_def)

lemma ascii_lower_Nil [simp]: "ascii_lower s = [] \<longleftrightarrow> s = []"
  by (simp add: ascii_lower_def)

lemma ascii_lower_drop: "ascii_lower (drop n s) = drop n (ascii_lower s)"
  by (simp add: ascii_lower_def drop_map)

lemma eq_ignore_ascii_case_refl [simp]: "eq_ignore_ascii_case s s"
  by (simp add: eq_ignore_ascii_case_def)

lemma lower_dot: "to_ascii_lowercase c = CHR ''.'' \<longleftrightarrow> c = CHR ''.''"
proof
  assume l: "to_ascii_lowercase c = CHR ''.''"
  show "c = CHR ''.''"
  proof (cases "is_ascii_upper c")
    case True
    then have "of_char c + 32 < (256 :: nat)" "97 \<le> of_char c + (32 :: nat)" by (auto simp: is_ascii_upper_def)
    moreover from True l have "(of_char (char_of (of_char c + 32 :: nat)) :: nat) = of_char (CHR ''.'')"
      by (simp add: to_ascii_lowercase_def)
    ultimately show ?thesis by simp
  next
    case False
    with l show ?thesis by (simp add: to_ascii_lowercase_def)
  qed
qed (simp add: to_ascii_lowercase_def is_ascii_upper_def)

section \<open>Positions\<close>

text \<open>\<open>memchr\<close>, \<open>memchr2\<close>, \<open>memchr3\<close> (the first byte satisfying a test) and \<open>memrchr\<close> (the last).\<close>

definition find_first :: "(char \<Rightarrow> bool) \<Rightarrow> string \<Rightarrow> nat option" where
  "find_first P s = (let n = length (takeWhile (\<lambda>c. \<not> P c) s) in if n < length s then Some n else None)"

definition memchr :: "char \<Rightarrow> string \<Rightarrow> nat option" where
  "memchr c s = find_first (\<lambda>d. d = c) s"

definition memrchr :: "char \<Rightarrow> string \<Rightarrow> nat option" where
  "memrchr c s = map_option (\<lambda>n. length s - Suc n) (memchr c (rev s))"

lemma find_first_Some:
  "find_first P s = Some n \<longleftrightarrow> n < length s \<and> P (s ! n) \<and> (\<forall>i < n. \<not> P (s ! i))"
proof
  assume f: "find_first P s = Some n"
  then have n: "n = length (takeWhile (\<lambda>c. \<not> P c) s)" "n < length s"
    by (auto simp: find_first_def Let_def split: if_splits)
  have "\<not> P (s ! i)" if "i < n" for i
  proof -
    have "takeWhile (\<lambda>c. \<not> P c) s ! i \<in> set (takeWhile (\<lambda>c. \<not> P c) s)" using that n by simp
    with that n show ?thesis by (auto simp: takeWhile_nth dest: set_takeWhileD)
  qed
  with n show "n < length s \<and> P (s ! n) \<and> (\<forall>i < n. \<not> P (s ! i))"
    using nth_length_takeWhile [of "\<lambda>c. \<not> P c" s] by auto
next
  assume n: "n < length s \<and> P (s ! n) \<and> (\<forall>i < n. \<not> P (s ! i))"
  then have "takeWhile (\<lambda>c. \<not> P c) s = take n s" by (intro takeWhile_eq_take_P_nth) auto
  with n have "length (takeWhile (\<lambda>c. \<not> P c) s) = n" by simp
  with n show "find_first P s = Some n" by (simp add: find_first_def Let_def)
qed

lemma find_first_None: "find_first P s = None \<longleftrightarrow> (\<forall>c \<in> set s. \<not> P c)"
proof -
  have "length (takeWhile (\<lambda>c. \<not> P c) s) < length s \<longleftrightarrow> (\<exists>c \<in> set s. P c)"
    by (induction s) auto
  then show ?thesis by (auto simp: find_first_def Let_def)
qed

lemma memchr_Some: "memchr c s = Some n \<longleftrightarrow> n < length s \<and> s ! n = c \<and> c \<notin> set (take n s)"
  unfolding memchr_def find_first_Some by (auto simp: in_set_conv_nth)

lemma memchr_None: "memchr c s = None \<longleftrightarrow> c \<notin> set s"
  unfolding memchr_def find_first_None by auto

lemma memrchr_None: "memrchr c s = None \<longleftrightarrow> c \<notin> set s"
  by (simp add: memrchr_def memchr_None)

text \<open>The last occurrence splits the string at a byte that does not occur behind it.\<close>

lemma memrchr_Some: "memrchr c s = Some n \<longleftrightarrow> n < length s \<and> s ! n = c \<and> c \<notin> set (drop (Suc n) s)"
proof
  assume "memrchr c s = Some n"
  then obtain k where k: "memchr c (rev s) = Some k" and n: "n = length s - Suc k"
    by (auto simp: memrchr_def)
  from k have "k < length s" "rev s ! k = c" "c \<notin> set (take k (rev s))" by (auto simp: memchr_Some)
  moreover have "take k (rev s) = rev (drop (Suc n) s)"
    using \<open>k < length s\<close> n by (simp add: take_rev Suc_diff_Suc)
  ultimately show "n < length s \<and> s ! n = c \<and> c \<notin> set (drop (Suc n) s)"
    using n by (simp add: rev_nth)
next
  assume n: "n < length s \<and> s ! n = c \<and> c \<notin> set (drop (Suc n) s)"
  have "take (length s - Suc n) (rev s) = rev (drop (Suc n) s)"
    using n by (simp add: take_rev)
  then have "memchr c (rev s) = Some (length s - Suc n)"
    using n by (auto simp: memchr_Some rev_nth Suc_diff_Suc)
  with n show "memrchr c s = Some n" by (simp add: memrchr_def)
qed

section \<open>Prefixes, suffixes, replacement\<close>

definition starts_with :: "string \<Rightarrow> string \<Rightarrow> bool" where
  "starts_with p s = (take (length p) s = p)"

definition ends_with :: "string \<Rightarrow> string \<Rightarrow> bool" where
  "ends_with p s = (length p \<le> length s \<and> drop (length s - length p) s = p)"

definition strip_prefix :: "string \<Rightarrow> string \<Rightarrow> string option" where
  "strip_prefix p s = (if starts_with p s then Some (drop (length p) s) else None)"

definition trim_end_matches :: "char \<Rightarrow> string \<Rightarrow> string" where
  "trim_end_matches c s = rev (dropWhile (\<lambda>d. d = c) (rev s))"

definition trim_start_matches :: "char \<Rightarrow> string \<Rightarrow> string" where
  "trim_start_matches c s = dropWhile (\<lambda>d. d = c) s"

text \<open>\<open>str::trim\<close> (ASCII white space) and \<open>parse::<u64>\<close>: digits after an optional plus sign.\<close>

definition is_space :: "char \<Rightarrow> bool" where
  "is_space c = (let n = (of_char c :: nat) in n = 32 \<or> 9 \<le> n \<and> n \<le> 13)"

definition trim_space :: "string \<Rightarrow> string" where
  "trim_space s = rev (dropWhile is_space (rev (dropWhile is_space s)))"

definition digits_value :: "string \<Rightarrow> nat" where
  "digits_value s = foldl (\<lambda>n c. 10 * n + (of_char c - 48)) 0 s"

definition parse_u64 :: "string \<Rightarrow> u64 option" where
  "parse_u64 s =
     (let s = (case s of c # t \<Rightarrow> if c = CHR ''+'' then t else s | [] \<Rightarrow> s) in
      if s = [] \<or> \<not> list_all is_ascii_digit s then None
      else if digits_value s < 2 ^ 64 then Some (of_nat (digits_value s)) else None)"

text \<open>\<open>str::find\<close> with a string, \<open>str::contains\<close>, and \<open>replacen(p, r, 1)\<close>.\<close>

fun find_str :: "string \<Rightarrow> string \<Rightarrow> nat option" where
  "find_str p [] = (if p = [] then Some 0 else None)"
| "find_str p (c # s) = (if starts_with p (c # s) then Some 0 else map_option Suc (find_str p s))"

definition str_contains :: "string \<Rightarrow> string \<Rightarrow> bool" where
  "str_contains p s = (find_str p s \<noteq> None)"

definition replace_first :: "string \<Rightarrow> string \<Rightarrow> string \<Rightarrow> string" where
  "replace_first p r s = (case find_str p s of None \<Rightarrow> s | Some n \<Rightarrow> take n s @ r @ drop (n + length p) s)"

lemma starts_with_append [simp]: "starts_with p (p @ s)"
  by (simp add: starts_with_def)

lemma starts_with_iff: "starts_with p s \<longleftrightarrow> (\<exists>t. s = p @ t)"
  by (metis append_eq_conv_conj append_take_drop_id starts_with_def)

lemma find_str_append: "find_str p (p @ s) = Some 0"
proof (cases "p @ s")
  case (Cons c t)
  then have "starts_with p (c # t)" by (metis starts_with_append)
  with Cons show ?thesis by simp
qed simp

lemma replace_first_prefix [simp]: "replace_first p r (p @ s) = r @ s"
  by (simp add: replace_first_def find_str_append)

lemma trim_end_last: "trim_end_matches c s = [] \<or> last (trim_end_matches c s) \<noteq> c"
proof -
  have "dropWhile (\<lambda>d. d = c) (rev s) = [] \<or> hd (dropWhile (\<lambda>d. d = c) (rev s)) \<noteq> c"
    using hd_dropWhile [of "\<lambda>d. d = c" "rev s"] by blast
  then show ?thesis by (auto simp: trim_end_matches_def last_rev)
qed

lemma trim_end_id: "s = [] \<or> last s \<noteq> c \<Longrightarrow> trim_end_matches c s = s"
  by (cases s rule: rev_cases) (auto simp: trim_end_matches_def)

lemma trim_end_idem [simp]: "trim_end_matches c (trim_end_matches c s) = trim_end_matches c s"
  by (rule trim_end_id) (rule trim_end_last)

text \<open>A number in decimal, and reading it back.\<close>

fun digits :: "nat \<Rightarrow> string" where
  "digits n = (if n < 10 then [char_of (48 + n)] else digits (n div 10) @ [char_of (48 + n mod 10)])"

declare digits.simps [simp del]

lemma digits_facts: "list_all is_ascii_digit (digits n) \<and> digits n \<noteq> [] \<and> digits_value (digits n) = n"
proof (induction n rule: digits.induct)
  case (1 n)
  have digit: "(of_char (char_of (48 + k) :: char) :: nat) = 48 + k" if "k < 10" for k :: nat
    using that by simp
  have snoc: "digits_value (s @ [c]) = 10 * digits_value s + (of_char c - 48)" for s c
    by (simp add: digits_value_def)
  show ?case
  proof (cases "n < 10")
    case True
    then show ?thesis using digit [OF True] by (simp add: digits.simps [of n] is_ascii_digit_def digits_value_def)
  next
    case False
    have "n mod 10 < 10" by simp
    then show ?thesis using 1 [OF False] False digit [of "n mod 10"] snoc
      by (simp add: digits.simps [of n] is_ascii_digit_def)
  qed
qed

lemma parse_digits: "parse_u64 (digits (unat v)) = Some (v :: u64)"
proof -
  have "hd (digits (unat v)) \<noteq> CHR ''+''" "digits (unat v) \<noteq> []"
    using digits_facts [of "unat v"] by (auto simp: is_ascii_digit_def list_all_iff dest!: hd_in_set)
  moreover have "unat v < 2 ^ 64" using unsigned_less [of v, where ?'a = nat] by simp
  ultimately show ?thesis using digits_facts [of "unat v"]
    by (cases "digits (unat v)") (simp_all add: parse_u64_def)
qed

end
