(* ===== verification/Frames.thy ===== *)
theory Frames
  imports Cmd Http Text
begin

text \<open>
  \<open>src/handler/domworld.rs\<close> and \<open>src/handler/frame.rs\<close>: execution worlds and the
  data of the frame manager: worlds, frames, lifecycle events, navigation requests, watchers
  and results. The manager itself is the theory \<open>Frame_Manager\<close>.
\<close>

section \<open>Execution worlds\<close>

datatype dom_world_kind = MainWorld | SecondaryWorld

record dom_world =
  execution_ctx :: "int option"
  execution_ctx_unique_id :: "string option"
  dw_detached :: bool

definition main_world :: dom_world where
  "main_world = \<lparr>execution_ctx = None, execution_ctx_unique_id = None, dw_detached = False\<rparr>"

definition secondary_world :: dom_world where
  "secondary_world = \<lparr>execution_ctx = None, execution_ctx_unique_id = None, dw_detached = False\<rparr>"

definition set_context :: "int \<Rightarrow> string \<Rightarrow> dom_world \<Rightarrow> dom_world" where
  "set_context ctx u w = w\<lparr>execution_ctx := Some ctx, execution_ctx_unique_id := Some u\<rparr>"

definition take_context :: "dom_world \<Rightarrow> (int option \<times> string option) \<times> dom_world" where
  "take_context w = ((execution_ctx w, execution_ctx_unique_id w),
     w\<lparr>execution_ctx := None, execution_ctx_unique_id := None\<rparr>)"

section \<open>Names of isolated worlds\<close>

text \<open>\<open>char::from_digit(d, 36)\<close>.\<close>

definition from_digit36 :: "nat \<Rightarrow> char option" where
  "from_digit36 d = (if d < 10 then Some (char_of (48 + d))
     else if d < 36 then Some (char_of (87 + d)) else None)"

text \<open>
  \<open>random_world_name\<close>: the draws of the random generator are arguments, the digit of the first
  letter and the digits of the tail (6 to 12 of them).
\<close>

definition random_world_name :: "nat \<Rightarrow> nat list \<Rightarrow> string \<Rightarrow> string" where
  "random_world_name first_draw tail_draws ident =
     (let id_part = map (\<lambda>c. let c = to_ascii_lowercase c in
            if is_ascii_lower c then c else char_of (97 + ((of_char c :: nat) - 48) mod 26))
          (take 5 (filter (\<lambda>c. is_ascii_digit c \<or> is_ascii_upper c \<or> is_ascii_lower c) ident));
        rand_part = List.map_filter from_digit36 tail_draws;
        first = (case from_digit36 first_draw of None \<Rightarrow> CHR ''a'' | Some c \<Rightarrow> c)
      in first # id_part @ rand_part)"

section \<open>Frames\<close>

record frame =
  fr_parent_frame :: "frame_id option"
  fr_id :: frame_id
  fr_main_world :: dom_world
  fr_secondary_world :: dom_world
  fr_loader_id :: "loader_id option"
  fr_url :: "string option"
  fr_http_request :: "http_request option"
  fr_child_frames :: "frame_id hash_set"
  fr_name :: "string option"
  fr_lifecycle_events :: "method_id set"
  fr_isolated_world_name :: string

text \<open>\<open>Frame::new\<close>; \<open>wn\<close> stands for \<open>random_world_name\<close> with its draws.\<close>

definition Frame_new :: "(frame_id \<Rightarrow> string) \<Rightarrow> frame_id \<Rightarrow> frame" where
  "Frame_new wn i = \<lparr>fr_parent_frame = None, fr_id = i, fr_main_world = main_world,
     fr_secondary_world = main_world, fr_loader_id = None, fr_url = None, fr_http_request = None,
     fr_child_frames = [], fr_name = None, fr_lifecycle_events = {}, fr_isolated_world_name = wn i\<rparr>"

text \<open>\<open>Frame::with_parent\<close>: the new frame, and the parent with the child recorded.\<close>

definition Frame_with_parent :: "frame_id \<Rightarrow> frame \<Rightarrow> frame \<times> frame" where
  "Frame_with_parent i parent =
     (\<lparr>fr_parent_frame = Some (fr_id parent), fr_id = i, fr_main_world = main_world,
       fr_secondary_world = main_world, fr_loader_id = None, fr_url = None, fr_http_request = None,
       fr_child_frames = [], fr_name = None, fr_lifecycle_events = {},
       fr_isolated_world_name = fr_isolated_world_name parent\<rparr>,
      parent\<lparr>fr_child_frames := hs_insert i (fr_child_frames parent)\<rparr>)"

text \<open>The fields of the protocol's \<open>Frame\<close> and \<open>FrameTree\<close> that are read.\<close>

record cdp_frame =
  cf_id :: frame_id
  cf_parent_id :: "frame_id option"
  cf_name :: "string option"
  cf_url :: string
  cf_url_fragment :: "string option"

datatype frame_tree = FrameTree (ft_frame: cdp_frame) (ft_child_frames: "frame_tree list option")

definition Frame_navigated :: "cdp_frame \<Rightarrow> frame \<Rightarrow> frame" where
  "Frame_navigated cf f = f\<lparr>fr_name := cf_name cf,
     fr_url := Some (case cf_url_fragment cf of Some fragment \<Rightarrow> cf_url cf @ fragment | None \<Rightarrow> cf_url cf)\<rparr>"

definition Frame_navigated_within_url :: "string \<Rightarrow> frame \<Rightarrow> frame" where
  "Frame_navigated_within_url u f = f\<lparr>fr_url := Some u\<rparr>"

definition on_loading_stopped :: "frame \<Rightarrow> frame" where
  "on_loading_stopped f = f\<lparr>fr_lifecycle_events :=
     insert ''load'' (insert ''DOMContentLoaded'' (fr_lifecycle_events f))\<rparr>"

definition on_loading_started :: "frame \<Rightarrow> frame" where
  "on_loading_started f = f\<lparr>fr_lifecycle_events := {}, fr_http_request := None\<rparr>"

definition is_loaded :: "frame \<Rightarrow> bool" where
  "is_loaded f = (''load'' \<in> fr_lifecycle_events f)"

definition is_dom_content_loaded :: "frame \<Rightarrow> bool" where
  "is_dom_content_loaded f = (''DOMContentLoaded'' \<in> fr_lifecycle_events f)"

definition is_network_idle :: "frame \<Rightarrow> bool" where
  "is_network_idle f = (''networkIdle'' \<in> fr_lifecycle_events f)"

definition is_network_almost_idle :: "frame \<Rightarrow> bool" where
  "is_network_almost_idle f = (''networkAlmostIdle'' \<in> fr_lifecycle_events f)"

definition clear_contexts :: "frame \<Rightarrow> frame" where
  "clear_contexts f = f\<lparr>fr_main_world := snd (take_context (fr_main_world f)),
     fr_secondary_world := snd (take_context (fr_secondary_world f))\<rparr>"

definition destroy_context :: "string \<Rightarrow> frame \<Rightarrow> frame" where
  "destroy_context u f =
     (if execution_ctx_unique_id (fr_main_world f) = Some u
      then f\<lparr>fr_main_world := snd (take_context (fr_main_world f))\<rparr>
      else if execution_ctx_unique_id (fr_secondary_world f) = Some u
      then f\<lparr>fr_secondary_world := snd (take_context (fr_secondary_world f))\<rparr>
      else f)"

definition set_request :: "http_request \<Rightarrow> frame \<Rightarrow> frame" where
  "set_request r f = f\<lparr>fr_http_request := Some r\<rparr>"

section \<open>Navigations\<close>

datatype lifecycle_event = Load | DomcontentLoaded | NetworkIdle | NetworkAlmostIdle

fun to_method_id :: "lifecycle_event \<Rightarrow> method_id" where
  "to_method_id Load = ''load''"
| "to_method_id DomcontentLoaded = ''DOMContentLoaded''"
| "to_method_id NetworkIdle = ''networkIdle''"
| "to_method_id NetworkAlmostIdle = ''networkAlmostIdle''"

type_synonym navigation_id = u64

record navigation_watcher =
  nw_id :: navigation_id
  nw_expected_lifecycle :: "method_id set"
  nw_frame_id :: frame_id
  nw_loader_id :: "loader_id option"
  nw_same_document_navigation :: bool

definition until_lifecycle ::
  "navigation_id \<Rightarrow> frame_id \<Rightarrow> loader_id option \<Rightarrow> lifecycle_event list \<Rightarrow> navigation_watcher" where
  "until_lifecycle i f l events = \<lparr>nw_id = i, nw_expected_lifecycle = set (map to_method_id events),
     nw_frame_id = f, nw_loader_id = l, nw_same_document_navigation = False\<rparr>"

definition until_load :: "navigation_id \<Rightarrow> frame_id \<Rightarrow> loader_id option \<Rightarrow> navigation_watcher" where
  "until_load i f l = until_lifecycle i f l [Load]"

definition until_domcontent_loaded :: "navigation_id \<Rightarrow> frame_id \<Rightarrow> loader_id option \<Rightarrow> navigation_watcher" where
  "until_domcontent_loaded i f l = until_lifecycle i f l [DomcontentLoaded]"

definition until_network_idle :: "navigation_id \<Rightarrow> frame_id \<Rightarrow> loader_id option \<Rightarrow> navigation_watcher" where
  "until_network_idle i f l = until_lifecycle i f l [NetworkIdle]"

definition until_network_almost_idle :: "navigation_id \<Rightarrow> frame_id \<Rightarrow> loader_id option \<Rightarrow> navigation_watcher" where
  "until_network_almost_idle i f l = until_lifecycle i f l [NetworkAlmostIdle]"

definition until_domcontent_and_network_idle :: "navigation_id \<Rightarrow> frame_id \<Rightarrow> loader_id option \<Rightarrow> navigation_watcher" where
  "until_domcontent_and_network_idle i f l = until_lifecycle i f l [DomcontentLoaded, NetworkIdle]"

record frame_requested_navigation =
  fn_id :: navigation_id
  fn_req :: cdp_request
  fn_timeout :: duration

definition FrameRequestedNavigation_new ::
  "navigation_id \<Rightarrow> cdp_request \<Rightarrow> duration \<Rightarrow> frame_requested_navigation" where
  "FrameRequestedNavigation_new i req t = \<lparr>fn_id = i, fn_req = req, fn_timeout = t\<rparr>"

text \<open>\<open>set_frame_id\<close>: only when the parameters are an object that has no \<open>frameId\<close> yet.\<close>

definition set_frame_id :: "frame_id \<Rightarrow> frame_requested_navigation \<Rightarrow> frame_requested_navigation" where
  "set_frame_id f r =
     (case as_object (rq_params (fn_req r)) of
        None \<Rightarrow> r
      | Some params \<Rightarrow> (case map_of params ''frameId'' of
            Some _ \<Rightarrow> r
          | None \<Rightarrow> r\<lparr>fn_req := (fn_req r)\<lparr>rq_params :=
              JObject (params @ [(''frameId'', JString f)])\<rparr>\<rparr>))"

datatype navigation_error =
    NavTimeout navigation_id deadline_exceeded
  | NavFrameNotFound navigation_id frame_id
  | NavTooManyNavigations navigation_id u32

datatype navigation_ok = SameDocumentNavigation navigation_id | NewDocumentNavigation navigation_id

fun NavigationError_navigation_id :: "navigation_error \<Rightarrow> navigation_id" where
  "NavigationError_navigation_id (NavTimeout i _) = i"
| "NavigationError_navigation_id (NavFrameNotFound i _) = i"
| "NavigationError_navigation_id (NavTooManyNavigations i _) = i"

fun NavigationOk_navigation_id :: "navigation_ok \<Rightarrow> navigation_id" where
  "NavigationOk_navigation_id (SameDocumentNavigation i) = i"
| "NavigationOk_navigation_id (NewDocumentNavigation i) = i"

text \<open>\<open>From<NavigationError> for CdpError\<close> of \<open>src/error.rs\<close>.\<close>

fun CdpError_from_navigation :: "navigation_error \<Rightarrow> cdp_error" where
  "CdpError_from_navigation (NavTimeout _ _) = Timeout"
| "CdpError_from_navigation (NavFrameNotFound _ f) = FrameNotFound f"
| "CdpError_from_navigation (NavTooManyNavigations _ n) = TooManyNavigations n"

datatype frame_event =
    NavigationResult "navigation_error + navigation_ok"
  | NavigationRequest navigation_id cdp_request

end
