(* ===== verification/Frame_Manager.thy ===== *)
theory Frame_Manager
  imports Frames
begin

text \<open>
  The frame manager of \<open>src/handler/frame.rs\<close>: its state and every operation. The operations
  follow the protocol events: attached, detached, navigated and loading frames, lifecycle
  events, execution contexts; and the calls of the target: \<open>goto\<close>, \<open>poll\<close>,
  \<open>ensure_isolated_world\<close>.
\<close>

record frame_manager =
  fm_main_frame :: "frame_id option"
  fm_frames :: "(frame_id, frame) hash_map"
  fm_context_ids :: "(string, frame_id) hash_map"
  fm_isolated_worlds :: "string set"
  fm_request_timeout :: duration
  fm_pending_navigations :: "(frame_requested_navigation \<times> navigation_watcher) list"
  fm_navigation :: "(navigation_watcher \<times> instant) option"
  fm_max_main_frame_navigations :: "u32 option"
  fm_main_frame_nav_count :: u32

definition FrameManager_new :: "duration \<Rightarrow> frame_manager" where
  "FrameManager_new t = \<lparr>fm_main_frame = None, fm_frames = [], fm_context_ids = [],
     fm_isolated_worlds = {}, fm_request_timeout = t, fm_pending_navigations = [],
     fm_navigation = None, fm_max_main_frame_navigations = None, fm_main_frame_nav_count = 0\<rparr>"

definition set_max_main_frame_navigations :: "u32 option \<Rightarrow> frame_manager \<Rightarrow> frame_manager" where
  "set_max_main_frame_navigations cap m = m\<lparr>fm_max_main_frame_navigations := cap\<rparr>"

definition FrameManager_init_commands :: "duration \<Rightarrow> command_chain" where
  "FrameManager_init_commands t = CommandChain_new
     [command_pair PageEnable, command_pair PageGetFrameTree,
      command_pair (PageSetLifecycleEventsEnabled True)] t"

definition FrameManager_main_frame :: "frame_manager \<Rightarrow> frame option" where
  "FrameManager_main_frame m = Option.bind (fm_main_frame m) (hm_get (fm_frames m))"

definition FrameManager_frame :: "frame_id \<Rightarrow> frame_manager \<Rightarrow> frame option" where
  "FrameManager_frame i m = hm_get (fm_frames m) i"

definition FrameManager_frames :: "frame_manager \<Rightarrow> frame list" where
  "FrameManager_frames m = hm_values (fm_frames m)"

definition get_isolated_world_name :: "frame_manager \<Rightarrow> string option" where
  "get_isolated_world_name m = map_option fr_isolated_world_name (FrameManager_main_frame m)"

section \<open>Navigation\<close>

definition check_lifecycle :: "navigation_watcher \<Rightarrow> frame \<Rightarrow> bool" where
  "check_lifecycle w f = (\<forall>ev \<in> nw_expected_lifecycle w. ev \<in> fr_lifecycle_events f
     \<or> (fr_url f = None \<and> ''DOMContentLoaded'' \<in> fr_lifecycle_events f))"

definition check_lifecycle_complete :: "navigation_watcher \<Rightarrow> frame \<Rightarrow> navigation_ok option" where
  "check_lifecycle_complete w f =
     (if \<not> check_lifecycle w f then None
      else if fr_loader_id f = nw_loader_id w \<and> \<not> nw_same_document_navigation w then None
      else if nw_same_document_navigation w then Some (SameDocumentNavigation (nw_id w))
      else if fr_loader_id f \<noteq> nw_loader_id w then Some (NewDocumentNavigation (nw_id w))
      else None)"

definition on_http_request_finished :: "http_request \<Rightarrow> frame_manager \<Rightarrow> frame_manager" where
  "on_http_request_finished r m =
     (case hr_frame (hr_fields r) of
        None \<Rightarrow> m
      | Some i \<Rightarrow> m\<lparr>fm_frames := hm_modify i (set_request r) (fm_frames m)\<rparr>)"

text \<open>\<open>poll\<close>: \<open>now\<close> is the caller's time, \<open>clock\<close> what \<open>Instant::now()\<close> reads when a queued
  navigation is started.\<close>

definition FrameManager_poll ::
  "instant \<Rightarrow> instant \<Rightarrow> frame_manager \<Rightarrow> frame_event option \<times> frame_manager" where
  "FrameManager_poll now clock m =
     (case fm_navigation m of
        Some (w, deadline) \<Rightarrow>
          let m = m\<lparr>fm_navigation := None\<rparr>; count = fm_main_frame_nav_count m in
          if (case fm_max_main_frame_navigations m of None \<Rightarrow> False | Some cap \<Rightarrow> count > cap)
          then (Some (NavigationResult (Inl (NavTooManyNavigations (nw_id w) count))), m)
          else if now > deadline
          then (Some (NavigationResult (Inl (NavTimeout (nw_id w) (DeadlineExceeded_new now deadline)))), m)
          else (case hm_get (fm_frames m) (nw_frame_id w) of
              Some f \<Rightarrow> (case check_lifecycle_complete w f of
                  Some nav \<Rightarrow> (Some (NavigationResult (Inr nav)), m)
                | None \<Rightarrow> (None, m\<lparr>fm_navigation := Some (w, deadline)\<rparr>))
            | None \<Rightarrow> (Some (NavigationResult (Inl (NavFrameNotFound (nw_id w) (nw_frame_id w)))), m))
      | None \<Rightarrow> (case fm_pending_navigations m of
            (req, w) # rest \<Rightarrow>
              (Some (NavigationRequest (fn_id req) (fn_req req)),
               m\<lparr>fm_pending_navigations := rest, fm_navigation := Some (w, clock + fn_timeout req)\<rparr>)
          | [] \<Rightarrow> (None, m)))"

definition navigate_frame :: "frame_id \<Rightarrow> frame_requested_navigation \<Rightarrow> frame_manager \<Rightarrow> frame_manager" where
  "navigate_frame i req m =
     (let loader = Option.bind (hm_get (fm_frames m) i) fr_loader_id;
          w = until_load (fn_id req) i loader
      in m\<lparr>fm_main_frame_nav_count := 0,
           fm_pending_navigations := fm_pending_navigations m @ [(set_frame_id i req, w)]\<rparr>)"

definition FrameManager_goto :: "frame_requested_navigation \<Rightarrow> frame_manager \<Rightarrow> frame_manager" where
  "FrameManager_goto req m =
     (case fm_main_frame m of None \<Rightarrow> m | Some i \<Rightarrow> navigate_frame i req m)"

section \<open>The frame tree\<close>

text \<open>
  \<open>remove_frames_recursively\<close> on the map of frames: take the frame out, remove its children,
  then forget it in its parent. The recursion is on a map that has lost an entry, also when
  the child records are cyclic, so it ends.
\<close>

function remove_frame :: "(frame_id, frame) hash_map \<Rightarrow> frame_id \<Rightarrow> (frame_id, frame) hash_map"
  and remove_children :: "(frame_id, frame) hash_map \<Rightarrow> frame_id list \<Rightarrow> (frame_id, frame) hash_map" where
  "remove_frame fs i = (case hm_get fs i of
      None \<Rightarrow> fs
    | Some f \<Rightarrow>
        let fs1 = remove_children (hm_remove i fs) (fr_child_frames f) in
        (case fr_parent_frame f of
           None \<Rightarrow> fs1
         | Some p \<Rightarrow> hm_modify p (\<lambda>pf. pf\<lparr>fr_child_frames := hs_remove (fr_id f) (fr_child_frames pf)\<rparr>) fs1))"
| "remove_children fs [] = fs"
| "remove_children fs (c # cs) = remove_children (remove_frame fs c) cs"
  by pat_completeness auto

text \<open>The recursion is nested, so termination needs to know that removal adds no frame.\<close>

lemma remove_keys_dom:
  "remove_frame_remove_children_dom (Inl (fs, i)) \<Longrightarrow> set (hm_keys (remove_frame fs i)) \<subseteq> set (hm_keys fs)"
  "remove_frame_remove_children_dom (Inr (fs, cs)) \<Longrightarrow> set (hm_keys (remove_children fs cs)) \<subseteq> set (hm_keys fs)"
proof (induction rule: remove_frame_remove_children.pinduct)
  case (1 fs i)
  then show ?case
    by (auto simp: remove_frame.psimps hm.keys_modify hm.keys_remove Let_def split: option.splits)
next
  case (2 fs)
  then show ?case by (simp add: remove_children.psimps)
next
  case (3 fs c cs)
  then show ?case by (auto simp: remove_children.psimps)
qed

termination remove_frame
proof (relation "measures [\<lambda>x. (case x of Inl (fs, i) \<Rightarrow> length (hm_keys fs) | Inr (fs, cs) \<Rightarrow> length (hm_keys fs)),
    \<lambda>x. (case x of Inl (fs, i) \<Rightarrow> 0 | Inr (fs, cs) \<Rightarrow> Suc (length cs))]")
  fix fs :: "(frame_id, frame) hash_map" and c cs
  assume "remove_frame_remove_children_dom (Inl (fs, c))"
  then have "length (hm_keys (remove_frame fs c)) \<le> length (hm_keys fs)"
    by (intro hm.length_keys_mono remove_keys_dom)
  then show "(Inr (remove_frame fs c, cs), Inr (fs, c # cs)) \<in> measures
     [\<lambda>x. (case x of Inl (fs, i) \<Rightarrow> length (hm_keys fs) | Inr (fs, cs) \<Rightarrow> length (hm_keys fs)),
      \<lambda>x. (case x of Inl (fs, i) \<Rightarrow> 0 | Inr (fs, cs) \<Rightarrow> Suc (length cs))]"
    by auto
qed (auto intro: hm.length_keys_remove)

declare remove_frame.simps [simp del]

text \<open>The method, with the removed frame as its result.\<close>

definition remove_frames_recursively ::
  "frame_id \<Rightarrow> frame_manager \<Rightarrow> frame option \<times> frame_manager" where
  "remove_frames_recursively i m =
     (map_option (\<lambda>f. f\<lparr>fr_parent_frame := None\<rparr>) (hm_get (fm_frames m) i),
      m\<lparr>fm_frames := remove_frame (fm_frames m) i\<rparr>)"

definition on_frame_attached :: "frame_id \<Rightarrow> frame_id option \<Rightarrow> frame_manager \<Rightarrow> frame_manager" where
  "on_frame_attached i parent m =
     (if hm_get (fm_frames m) i \<noteq> None then m
      else (case parent of
          None \<Rightarrow> m
        | Some p \<Rightarrow> (case hm_get (fm_frames m) p of
              None \<Rightarrow> m
            | Some pf \<Rightarrow> (let (f, pf') = Frame_with_parent i pf
                in m\<lparr>fm_frames := hm_insert i f (hm_insert p pf' (fm_frames m))\<rparr>))))"

definition on_frame_detached :: "frame_id \<Rightarrow> frame_manager \<Rightarrow> frame_manager" where
  "on_frame_detached i m = snd (remove_frames_recursively i m)"

text \<open>\<open>on_frame_navigated\<close>, first the case of a child frame, then that of the main frame.\<close>

definition child_frame_navigated :: "cdp_frame \<Rightarrow> frame_manager \<Rightarrow> frame_manager" where
  "child_frame_navigated cf m =
     (case hm_get (fm_frames m) (cf_id cf) of
        None \<Rightarrow> m
      | Some f \<Rightarrow>
          let fs = remove_children (hm_remove (cf_id cf) (fm_frames m)) (fr_child_frames f);
              f = Frame_navigated cf (f\<lparr>fr_child_frames := []\<rparr>)
          in m\<lparr>fm_frames := hm_insert (cf_id cf) f fs\<rparr>)"

definition main_frame_navigated :: "(frame_id \<Rightarrow> string) \<Rightarrow> cdp_frame \<Rightarrow> frame_manager \<Rightarrow> frame_manager" where
  "main_frame_navigated wn cf m =
     (let m = m\<lparr>fm_main_frame_nav_count := saturating_inc32 (fm_main_frame_nav_count m)\<rparr>;
          old_main = fm_main_frame m;
          (f, fs) = (case old_main of
              None \<Rightarrow> (Frame_new wn (cf_id cf), fm_frames m)
            | Some main \<Rightarrow> (case hm_get (fm_frames m) main of
                  None \<Rightarrow> (Frame_new wn (cf_id cf), fm_frames m)
                | Some mf \<Rightarrow>
                    (mf\<lparr>fr_child_frames := [], fr_id := cf_id cf\<rparr>,
                     remove_children (hm_remove main (fm_frames m)) (fr_child_frames mf))));
          f = Frame_navigated cf f;
          new_id = fr_id f;
          m = m\<lparr>fm_main_frame := Some new_id, fm_frames := hm_insert new_id f fs\<rparr>
      in if old_main \<noteq> Some new_id
         then (case fm_navigation m of
                 Some (w, d) \<Rightarrow> (if old_main = Some (nw_frame_id w)
                   then m\<lparr>fm_navigation := Some (w\<lparr>nw_frame_id := new_id\<rparr>, d)\<rparr> else m)
               | None \<Rightarrow> m)
         else m)"

definition on_frame_navigated :: "(frame_id \<Rightarrow> string) \<Rightarrow> cdp_frame \<Rightarrow> frame_manager \<Rightarrow> frame_manager" where
  "on_frame_navigated wn cf m =
     (if cf_parent_id cf \<noteq> None then child_frame_navigated cf m else main_frame_navigated wn cf m)"

fun on_frame_tree :: "(frame_id \<Rightarrow> string) \<Rightarrow> frame_tree \<Rightarrow> frame_manager \<Rightarrow> frame_manager" where
  "on_frame_tree wn (FrameTree cf children) m =
     (let m = on_frame_attached (cf_id cf) (cf_parent_id cf) m;
          m = on_frame_navigated wn cf m
      in (case children of None \<Rightarrow> m | Some ts \<Rightarrow> fold (on_frame_tree wn) ts m))"

section \<open>Frame events\<close>

definition on_frame_navigated_within_document :: "frame_id \<Rightarrow> string \<Rightarrow> frame_manager \<Rightarrow> frame_manager" where
  "on_frame_navigated_within_document i u m =
     (let m = m\<lparr>fm_frames := hm_modify i (Frame_navigated_within_url u) (fm_frames m)\<rparr>
      in m\<lparr>fm_navigation := map_option (\<lambda>(w, d).
            (if nw_frame_id w = i then w\<lparr>nw_same_document_navigation := True\<rparr> else w, d)) (fm_navigation m)\<rparr>)"

definition on_frame_stopped_loading :: "frame_id \<Rightarrow> frame_manager \<Rightarrow> frame_manager" where
  "on_frame_stopped_loading i m = m\<lparr>fm_frames := hm_modify i on_loading_stopped (fm_frames m)\<rparr>"

definition on_frame_started_loading :: "frame_id \<Rightarrow> frame_manager \<Rightarrow> frame_manager" where
  "on_frame_started_loading i m = m\<lparr>fm_frames := hm_modify i on_loading_started (fm_frames m)\<rparr>"

definition on_page_lifecycle_event :: "frame_id \<Rightarrow> loader_id \<Rightarrow> string \<Rightarrow> frame_manager \<Rightarrow> frame_manager" where
  "on_page_lifecycle_event i loader name m = m\<lparr>fm_frames := hm_modify i (\<lambda>f.
     let f = (if name = ''init'' then f\<lparr>fr_loader_id := Some loader, fr_lifecycle_events := {}\<rparr> else f)
     in f\<lparr>fr_lifecycle_events := insert name (fr_lifecycle_events f)\<rparr>) (fm_frames m)\<rparr>"

section \<open>Execution contexts\<close>

text \<open>The fields of the protocol's \<open>ExecutionContextDescription\<close> that are read.\<close>

record execution_context =
  ec_id :: int
  ec_name :: string
  ec_unique_id :: string
  ec_aux_data :: "json option"

definition aux_frame_id :: "execution_context \<Rightarrow> frame_id option" where
  "aux_frame_id ctx = Option.bind (ec_aux_data ctx) (\<lambda>v. as_str (json_index v ''frameId''))"

definition aux_is_default :: "execution_context \<Rightarrow> bool" where
  "aux_is_default ctx =
     (case Option.bind (ec_aux_data ctx) (\<lambda>v. as_bool (json_index v ''isDefault'')) of None \<Rightarrow> False | Some b \<Rightarrow> b)"

definition aux_is_isolated :: "execution_context \<Rightarrow> bool" where
  "aux_is_isolated ctx = (case ec_aux_data ctx of None \<Rightarrow> False
     | Some v \<Rightarrow> as_str (json_index v ''type'') = Some ''isolated'')"

definition frame_context_created :: "execution_context \<Rightarrow> frame \<Rightarrow> frame" where
  "frame_context_created ctx f =
     (if aux_is_default ctx
      then f\<lparr>fr_main_world := set_context (ec_id ctx) (ec_unique_id ctx) (fr_main_world f)\<rparr>
      else if ec_name ctx = fr_isolated_world_name f \<and> execution_ctx (fr_secondary_world f) = None
      then f\<lparr>fr_secondary_world := set_context (ec_id ctx) (ec_unique_id ctx) (fr_secondary_world f)\<rparr>
      else f)"

definition on_frame_execution_context_created :: "execution_context \<Rightarrow> frame_manager \<Rightarrow> frame_manager" where
  "on_frame_execution_context_created ctx m =
     (let m = (case aux_frame_id ctx of
          None \<Rightarrow> m
        | Some i \<Rightarrow> (case hm_get (fm_frames m) i of
              None \<Rightarrow> m
            | Some f \<Rightarrow> (let f = frame_context_created ctx f
                in m\<lparr>fm_frames := hm_insert i f (fm_frames m),
                     fm_context_ids := hm_insert (ec_unique_id ctx) (fr_id f) (fm_context_ids m)\<rparr>)))
      in if aux_is_isolated ctx
         then m\<lparr>fm_isolated_worlds := insert (ec_name ctx) (fm_isolated_worlds m)\<rparr> else m)"

definition on_frame_execution_context_destroyed :: "string \<Rightarrow> frame_manager \<Rightarrow> frame_manager" where
  "on_frame_execution_context_destroyed u m =
     (case hm_get (fm_context_ids m) u of
        None \<Rightarrow> m
      | Some i \<Rightarrow> m\<lparr>fm_context_ids := hm_remove u (fm_context_ids m),
          fm_frames := hm_modify i (destroy_context u) (fm_frames m)\<rparr>)"

definition on_execution_contexts_cleared :: "frame_manager \<Rightarrow> frame_manager" where
  "on_execution_contexts_cleared m =
     m\<lparr>fm_frames := fold (\<lambda>i. hm_modify i clear_contexts) (hm_values (fm_context_ids m)) (fm_frames m),
       fm_context_ids := [], fm_isolated_worlds := {}\<rparr>"

definition evict_stale_context_ids :: "frame_manager \<Rightarrow> frame_manager" where
  "evict_stale_context_ids m =
     (if fm_context_ids m = [] then m
      else m\<lparr>fm_context_ids := hm_retain (\<lambda>_ i. hm_get (fm_frames m) i \<noteq> None) (fm_context_ids m)\<rparr>)"

text \<open>\<open>script_url\<close> is the process-wide \<open>EVALUATION_SCRIPT_URL\<close>.\<close>

definition ensure_isolated_world ::
  "string \<Rightarrow> string \<Rightarrow> frame_manager \<Rightarrow> command_chain option \<times> frame_manager" where
  "ensure_isolated_world script_url world_name m =
     (if world_name \<in> fm_isolated_worlds m then (None, m)
      else (Some (CommandChain_new
              (command_pair (PageAddScriptToEvaluateOnNewDocument (''//# sourceURL='' @ script_url) world_name)
               # map (\<lambda>i. command_pair (PageCreateIsolatedWorld i world_name True)) (hm_keys (fm_frames m)))
              (fm_request_timeout m)),
            m\<lparr>fm_isolated_worlds := insert world_name (fm_isolated_worlds m)\<rparr>))"

end
