(* ===== verification/Frame_Tree.thy ===== *)
theory Frame_Tree
  imports Frame_Manager
begin

text \<open>
  The shape of the frame map: the frames form one tree under the main frame, recorded
  consistently from both sides (a frame's parent and its parent's children), and every
  operation of the frame manager keeps it so. While a subtree is being removed the two sides
  disagree for a moment; the invariant therefore carries two sets, the frames whose parent is
  already gone and the children already gone but still recorded.
\<close>

section \<open>The invariant, with its exceptions\<close>

text \<open>Frames are stored under their own id.\<close>

definition ids_ok :: "(frame_id, frame) hash_map \<Rightarrow> bool" where
  "ids_ok fs \<longleftrightarrow> (\<forall>i f. hm_get fs i = Some f \<longrightarrow> fr_id f = i)"

text \<open>A recorded child that exists names the recording frame as its parent.\<close>

definition children_ok :: "(frame_id, frame) hash_map \<Rightarrow> bool" where
  "children_ok fs \<longleftrightarrow> (\<forall>p pf c cf. hm_get fs p = Some pf \<longrightarrow> c \<in> set (fr_child_frames pf) \<longrightarrow>
     hm_get fs c = Some cf \<longrightarrow> fr_parent_frame cf = Some p)"

text \<open>A parent that exists records the child.\<close>

definition listed_ok :: "(frame_id, frame) hash_map \<Rightarrow> bool" where
  "listed_ok fs \<longleftrightarrow> (\<forall>i f p pf. hm_get fs i = Some f \<longrightarrow> fr_parent_frame f = Some p \<longrightarrow>
     hm_get fs p = Some pf \<longrightarrow> i \<in> set (fr_child_frames pf))"

text \<open>Parents exist, but for the orphans; recorded children exist, but for the departed.\<close>

definition parents_ok :: "frame_id set \<Rightarrow> (frame_id, frame) hash_map \<Rightarrow> bool" where
  "parents_ok orphans fs \<longleftrightarrow> (\<forall>i f p. hm_get fs i = Some f \<longrightarrow> fr_parent_frame f = Some p \<longrightarrow>
     hm_get fs p \<noteq> None \<or> i \<in> orphans)"

definition alive_ok :: "frame_id set \<Rightarrow> (frame_id, frame) hash_map \<Rightarrow> bool" where
  "alive_ok departed fs \<longleftrightarrow> (\<forall>p pf c. hm_get fs p = Some pf \<longrightarrow> c \<in> set (fr_child_frames pf) \<longrightarrow>
     hm_get fs c \<noteq> None \<or> c \<in> departed)"

text \<open>Following parents strictly lowers a rank, so there are no cycles.\<close>

definition ranked :: "(frame_id \<Rightarrow> nat) \<Rightarrow> (frame_id, frame) hash_map \<Rightarrow> bool" where
  "ranked r fs \<longleftrightarrow> (\<forall>i f p. hm_get fs i = Some f \<longrightarrow> fr_parent_frame f = Some p \<longrightarrow> r p < r i)"

definition forest ::
  "frame_id set \<Rightarrow> frame_id set \<Rightarrow> (frame_id \<Rightarrow> nat) \<Rightarrow> (frame_id, frame) hash_map \<Rightarrow> bool" where
  "forest orphans departed r fs \<longleftrightarrow> ids_ok fs \<and> children_ok fs \<and> listed_ok fs \<and>
     parents_ok orphans fs \<and> alive_ok departed fs \<and> ranked r fs"

lemmas forest_defs = forest_def ids_ok_def children_ok_def listed_ok_def parents_ok_def
  alive_ok_def ranked_def

text \<open>The only frame without parent is the main frame, and it has none.\<close>

definition frame_tree_inv :: "frame_manager \<Rightarrow> bool" where
  "frame_tree_inv m \<longleftrightarrow> (\<exists>r. forest {} {} r (fm_frames m)) \<and>
     (\<forall>i f. hm_get (fm_frames m) i = Some f \<longrightarrow> (fr_parent_frame f = None \<longleftrightarrow> fm_main_frame m = Some i))"

section \<open>Removal\<close>

text \<open>What removal leaves: a part of the frames, changed in their recorded children only.\<close>

definition subframes :: "(frame_id, frame) hash_map \<Rightarrow> (frame_id, frame) hash_map \<Rightarrow> bool" where
  "subframes fs' fs \<longleftrightarrow> (\<forall>k f'. hm_get fs' k = Some f' \<longrightarrow> (\<exists>f. hm_get fs k = Some f \<and>
     f' = f\<lparr>fr_child_frames := fr_child_frames f'\<rparr> \<and> set (fr_child_frames f') \<subseteq> set (fr_child_frames f)))"

lemma subframes_refl [simp]: "subframes fs fs"
  by (simp add: subframes_def)

lemma subframes_trans [trans]: "subframes a b \<Longrightarrow> subframes b c \<Longrightarrow> subframes a c"
  unfolding subframes_def by (smt (verit, ccfv_SIG) frame.surjective frame.update_convs(8) subset_trans)

lemma subframes_remove [simp]: "subframes (hm_remove i fs) fs"
  by (auto simp: subframes_def split: if_splits)

lemma subframes_D:
  assumes "subframes fs' fs" and "hm_get fs' k = Some f'"
  obtains f where "hm_get fs k = Some f" and "fr_parent_frame f = fr_parent_frame f'"
    and "fr_id f = fr_id f'" and "set (fr_child_frames f') \<subseteq> set (fr_child_frames f)"
  using assms unfolding subframes_def by (metis frame.select_convs(1,2) frame.surjective frame.update_convs(8))

lemma subframes_modify:
  assumes "\<And>f. \<exists>cs. g f = f\<lparr>fr_child_frames := cs\<rparr> \<and> set cs \<subseteq> set (fr_child_frames f)"
  shows "subframes (hm_modify k g fs) fs"
proof -
  have "\<exists>f. hm_get fs k' = Some f \<and> f' = f\<lparr>fr_child_frames := fr_child_frames f'\<rparr> \<and>
      set (fr_child_frames f') \<subseteq> set (fr_child_frames f)" if "hm_get (hm_modify k g fs) k' = Some f'" for k' f'
  proof (cases "k' = k")
    case True
    with that obtain f where f: "hm_get fs k = Some f" "f' = g f" by auto
    with assms [of f] True show ?thesis by auto
  next
    case False
    with that show ?thesis by simp
  qed
  then show ?thesis by (simp add: subframes_def)
qed

lemma subframes_forget: "subframes (hm_modify p (\<lambda>pf. pf\<lparr>fr_child_frames := hs_remove c (fr_child_frames pf)\<rparr>) fs) fs"
proof (rule subframes_modify)
  fix f :: frame
  show "\<exists>cs. f\<lparr>fr_child_frames := hs_remove c (fr_child_frames f)\<rparr> = f\<lparr>fr_child_frames := cs\<rparr> \<and>
      set cs \<subseteq> set (fr_child_frames f)"
    by (rule exI [of _ "hs_remove c (fr_child_frames f)"]) auto
qed

text \<open>Unfolding one removal, by the cases of the code.\<close>

lemma remove_frame_None: "hm_get fs i = None \<Longrightarrow> remove_frame fs i = fs"
  by (simp add: remove_frame.simps [of fs i])

lemma remove_frame_root: "hm_get fs i = Some f \<Longrightarrow> fr_parent_frame f = None \<Longrightarrow>
    remove_frame fs i = remove_children (hm_remove i fs) (fr_child_frames f)"
  by (simp add: remove_frame.simps [of fs i])

lemma remove_frame_child: "hm_get fs i = Some f \<Longrightarrow> fr_parent_frame f = Some p \<Longrightarrow>
    remove_frame fs i = hm_modify p (\<lambda>pf. pf\<lparr>fr_child_frames := hs_remove (fr_id f) (fr_child_frames pf)\<rparr>)
      (remove_children (hm_remove i fs) (fr_child_frames f))"
  by (simp add: remove_frame.simps [of fs i])

lemma remove_subframes:
  "subframes (remove_frame fs i) fs"
  "subframes (remove_children fs cs) fs"
proof (induction fs i and fs cs rule: remove_frame_remove_children.induct)
  case (1 fs i)
  show ?case
  proof (cases "hm_get fs i")
    case None
    then show ?thesis by (simp add: remove_frame_None)
  next
    case (Some f)
    with "1.IH" have sub: "subframes (remove_children (hm_remove i fs) (fr_child_frames f)) fs"
      by (meson subframes_remove subframes_trans)
    show ?thesis
    proof (cases "fr_parent_frame f")
      case None
      with Some sub show ?thesis by (simp add: remove_frame_root)
    next
      case (Some p)
      show ?thesis
        unfolding remove_frame_child [OF \<open>hm_get fs i = Some f\<close> Some]
        by (rule subframes_trans [OF subframes_forget sub])
    qed
  qed
next
  case (2 fs)
  then show ?case by simp
next
  case (3 fs c cs)
  then show ?case by simp (meson subframes_trans)
qed

lemma subframes_get_None: "subframes fs' fs \<Longrightarrow> hm_get fs k = None \<Longrightarrow> hm_get fs' k = None"
  by (metis not_Some_eq subframes_def)

lemma remove_frame_gone: "hm_get (remove_frame fs i) i = None"
proof (cases "hm_get fs i")
  case None
  then show ?thesis by (simp add: remove_frame_None)
next
  case (Some f)
  have "hm_get (remove_children (hm_remove i fs) (fr_child_frames f)) i = None"
    by (rule subframes_get_None [OF remove_subframes(2)]) simp
  with Some show ?thesis
    by (cases "fr_parent_frame f") (auto simp: remove_frame_root remove_frame_child)
qed

section \<open>Removal keeps the invariant\<close>

lemma subframes_ids_ok: "subframes fs' fs \<Longrightarrow> ids_ok fs \<Longrightarrow> ids_ok fs'"
  unfolding ids_ok_def by (intro allI impI, elim subframes_D) auto

lemma subframes_children_ok: "subframes fs' fs \<Longrightarrow> children_ok fs \<Longrightarrow> children_ok fs'"
  unfolding children_ok_def
proof (intro allI impI)
  fix p pf c cf
  assume sub: "subframes fs' fs" and get: "hm_get fs' p = Some pf" "hm_get fs' c = Some cf"
    and c: "c \<in> set (fr_child_frames pf)"
    and ok: "\<forall>p pf c cf. hm_get fs p = Some pf \<longrightarrow> c \<in> set (fr_child_frames pf) \<longrightarrow>
      hm_get fs c = Some cf \<longrightarrow> fr_parent_frame cf = Some p"
  from sub get(1) obtain pf' where "hm_get fs p = Some pf'" "set (fr_child_frames pf) \<subseteq> set (fr_child_frames pf')"
    by (rule subframes_D)
  moreover from sub get(2) obtain cf' where "hm_get fs c = Some cf'" "fr_parent_frame cf' = fr_parent_frame cf"
    by (rule subframes_D)
  ultimately show "fr_parent_frame cf = Some p" using ok c by (metis subsetD)
qed

lemma subframes_ranked: "subframes fs' fs \<Longrightarrow> ranked r fs \<Longrightarrow> ranked r fs'"
  unfolding ranked_def by (intro allI impI, elim subframes_D) auto

lemma subframes_parents_ok:
  assumes "subframes fs' fs" and "\<And>k. hm_get fs k \<noteq> None \<Longrightarrow> hm_get fs' k \<noteq> None" and ok: "parents_ok orphans fs"
  shows "parents_ok orphans fs'"
  unfolding parents_ok_def
proof (intro allI impI)
  fix i f p
  assume f: "hm_get fs' i = Some f" and p: "fr_parent_frame f = Some p"
  from assms(1) f obtain f0 where "hm_get fs i = Some f0" "fr_parent_frame f0 = fr_parent_frame f"
    by (rule subframes_D)
  with ok p show "hm_get fs' p \<noteq> None \<or> i \<in> orphans"
    using assms(2) unfolding parents_ok_def by metis
qed

text \<open>Taking the frame out: its children lose their parent, it is recorded but gone.\<close>

lemma forest_take_out:
  assumes "forest orphans departed r fs" and "hm_get fs i = Some f"
  shows "forest (orphans \<union> set (fr_child_frames f)) (insert i departed) r (hm_remove i fs)"
proof -
  have "parents_ok (orphans \<union> set (fr_child_frames f)) (hm_remove i fs)"
    using assms unfolding forest_def parents_ok_def listed_ok_def
    by (auto split: if_splits) (metis not_Some_eq)+
  moreover have "alive_ok (insert i departed) (hm_remove i fs)"
    using assms by (auto simp: forest_def alive_ok_def)
  moreover have "listed_ok (hm_remove i fs)"
    using assms by (auto simp: forest_def listed_ok_def)
  ultimately show ?thesis
    using assms(1) subframes_remove [of i fs]
    unfolding forest_def by (blast intro: subframes_ids_ok subframes_children_ok subframes_ranked)
qed

text \<open>Forgetting the frame in its parent: afterwards nobody records it.\<close>

lemma forest_forget:
  assumes inv: "forest orphans (insert i departed) r fs" and gone: "hm_get fs i = None"
    and only: "\<And>q qf. hm_get fs q = Some qf \<Longrightarrow> i \<in> set (fr_child_frames qf) \<Longrightarrow> q = p"
  shows "forest orphans departed r
    (hm_modify p (\<lambda>pf. pf\<lparr>fr_child_frames := hs_remove i (fr_child_frames pf)\<rparr>) fs)" (is "forest _ _ _ ?fs")
proof -
  have sub: "subframes ?fs fs" by (rule subframes_forget)
  have same: "hm_get ?fs c = None \<longleftrightarrow> hm_get fs c = None" for c by simp
  have alive: "alive_ok (insert i departed) fs" using inv by (simp add: forest_def)
  have "alive_ok departed ?fs"
    unfolding alive_ok_def
  proof (intro allI impI)
    fix q qf c
    assume q: "hm_get ?fs q = Some qf" and c: "c \<in> set (fr_child_frames qf)"
    from sub q obtain qf' where qf': "hm_get fs q = Some qf'" "set (fr_child_frames qf) \<subseteq> set (fr_child_frames qf')"
      by (rule subframes_D)
    have "c \<noteq> i"
    proof (cases "q = p")
      case True
      with q qf' have "qf = qf'\<lparr>fr_child_frames := hs_remove i (fr_child_frames qf')\<rparr>" by simp
      with c show ?thesis by auto
    next
      case False
      with only qf' c show ?thesis by blast
    qed
    with alive qf' c have "hm_get fs c \<noteq> None \<or> c \<in> departed" unfolding alive_ok_def by blast
    with same show "hm_get ?fs c \<noteq> None \<or> c \<in> departed" by simp
  qed
  moreover have "parents_ok orphans ?fs"
    using inv by (intro subframes_parents_ok [OF sub]) (auto simp: forest_def)
  moreover have "listed_ok ?fs"
    using inv gone unfolding forest_def listed_ok_def by (auto split: if_splits)
  ultimately show ?thesis
    using inv sub unfolding forest_def
    by (blast intro: subframes_ids_ok subframes_children_ok subframes_ranked)
qed

lemma forest_departed_mono: "forest orphans departed r fs \<Longrightarrow> orphans \<subseteq> orphans' \<Longrightarrow> departed \<subseteq> departed' \<Longrightarrow>
    forest orphans' departed' r fs"
  unfolding forest_def parents_ok_def alive_ok_def by blast

text \<open>An orphan that is gone, or a departed child nobody records, is no exception any more.\<close>

lemma forest_drop_orphan: "forest orphans departed r fs \<Longrightarrow> hm_get fs i = None \<Longrightarrow> forest (orphans - {i}) departed r fs"
  unfolding forest_def parents_ok_def by (metis Diff_iff option.distinct(1) singletonD)

lemma forest_drop_departed:
  assumes "forest orphans (insert i departed) r fs"
    and "\<And>q qf. hm_get fs q = Some qf \<Longrightarrow> i \<notin> set (fr_child_frames qf)"
  shows "forest orphans departed r fs"
  using assms unfolding forest_def alive_ok_def by blast

lemma remove_forest:
  "forest orphans departed r fs \<Longrightarrow> forest (orphans - {i}) departed r (remove_frame fs i)"
  "forest orphans departed r fs \<Longrightarrow> forest (orphans - set cs) departed r (remove_children fs cs)"
proof (induction fs i and fs cs arbitrary: orphans departed and orphans departed
    rule: remove_frame_remove_children.induct)
  case (1 fs i)
  show ?case
  proof (cases "hm_get fs i")
    case None
    with "1.prems" show ?thesis by (simp add: remove_frame_None forest_drop_orphan)
  next
    case (Some f)
    let ?fs1 = "remove_children (hm_remove i fs) (fr_child_frames f)"
    have idf: "fr_id f = i" and ok: "children_ok fs"
      using "1.prems" Some by (auto simp: forest_def ids_ok_def)
    have "forest (orphans \<union> set (fr_child_frames f) - set (fr_child_frames f)) (insert i departed) r ?fs1"
      using "1.IH" [OF Some forest_take_out [OF "1.prems" Some]] by simp
    then have inner: "forest orphans (insert i departed) r ?fs1"
      by (rule forest_departed_mono) auto
    have sub: "subframes ?fs1 (hm_remove i fs)" by (rule remove_subframes)
    have gone: "hm_get ?fs1 i = None" by (rule subframes_get_None [OF sub]) simp
    have lists: "fr_parent_frame f = Some q"
      if "hm_get ?fs1 q = Some qf" "i \<in> set (fr_child_frames qf)" for q qf
    proof -
      from sub that(1) obtain qf' where "hm_get (hm_remove i fs) q = Some qf'"
        "set (fr_child_frames qf) \<subseteq> set (fr_child_frames qf')" by (rule subframes_D)
      with that(2) have "hm_get (hm_remove i fs) q = Some qf'" "i \<in> set (fr_child_frames qf')" by auto
      with ok Some show ?thesis by (auto simp: children_ok_def split: if_splits)
    qed
    show ?thesis
    proof (cases "fr_parent_frame f")
      case None
      with lists have "forest orphans departed r ?fs1"
        by (intro forest_drop_departed [OF inner]) auto
      with None Some gone show ?thesis by (simp add: remove_frame_root forest_drop_orphan)
    next
      case (Some p)
      have "forest orphans departed r (remove_frame fs i)"
        unfolding remove_frame_child [OF \<open>hm_get fs i = Some f\<close> Some] idf
        using lists Some by (intro forest_forget [OF inner gone]) auto
      then show ?thesis by (rule forest_drop_orphan) (rule remove_frame_gone)
    qed
  qed
next
  case (2 fs)
  then show ?case by simp
next
  case (3 fs c cs)
  from "3.IH"(1) [OF "3.prems"] have "forest (orphans - {c} - set cs) departed r (remove_children (remove_frame fs c) cs)"
    by (rule "3.IH"(2))
  moreover have "orphans - {c} - set cs = orphans - set (c # cs)" by auto
  ultimately show ?case by simp
qed

end
