(* ===== verification/Frame_Forest.thy ===== *)
theory Frame_Forest
  imports Frame_Tree
begin

text \<open>
  What removal removes (exactly the frame and its descendants), and the proof that every
  operation of the frame manager keeps the frame tree. The last section turns the operations
  into inputs of one machine, so the invariant holds after any run of them.
\<close>

section \<open>Exactly the descendants are removed\<close>

inductive descends :: "(frame_id, frame) hash_map \<Rightarrow> frame_id \<Rightarrow> frame_id \<Rightarrow> bool" for fs where
  descends_refl: "descends fs i i"
| descends_child: "descends fs i p \<Longrightarrow> hm_get fs p = Some pf \<Longrightarrow> c \<in> set (fr_child_frames pf) \<Longrightarrow> descends fs i c"

inductive_simps descends_root: "descends fs i i"

lemma descends_trans: "descends fs i j \<Longrightarrow> descends fs j k \<Longrightarrow> descends fs i k"
  by (rotate_tac, induction rule: descends.induct) (auto intro: descends.intros)

lemma descends_mono: "descends fs' i k \<Longrightarrow> subframes fs' fs \<Longrightarrow> descends fs i k"
proof (induction rule: descends.induct)
  case (descends_refl i)
  then show ?case by (simp add: descends.descends_refl)
next
  case (descends_child i p pf c)
  from descends_child.prems descends_child.hyps(2)
  obtain pf' where "hm_get fs p = Some pf'" "set (fr_child_frames pf) \<subseteq> set (fr_child_frames pf')"
    by (rule subframes_D)
  with descends_child show ?case by (blast intro: descends.descends_child)
qed

text \<open>Nothing but descendants is removed, whatever the map.\<close>

lemma remove_only_descendants:
  "hm_get fs k \<noteq> None \<Longrightarrow> hm_get (remove_frame fs i) k = None \<Longrightarrow> descends fs i k"
  "hm_get fs k \<noteq> None \<Longrightarrow> hm_get (remove_children fs cs) k = None \<Longrightarrow> \<exists>c\<in>set cs. descends fs c k"
proof (induction fs i and fs cs rule: remove_frame_remove_children.induct)
  case (1 fs i)
  then show ?case
  proof (cases "hm_get fs i")
    case None
    with 1 show ?thesis by (simp add: remove_frame_None)
  next
    case (Some f)
    show ?thesis
    proof (cases "k = i")
      case True
      then show ?thesis by (simp add: descends_refl)
    next
      case False
      have "hm_get (remove_children (hm_remove i fs) (fr_child_frames f)) k = None"
        using "1.prems" Some by (cases "fr_parent_frame f") (auto simp: remove_frame_root remove_frame_child split: if_splits)
      with "1.IH" [OF Some] "1.prems" False obtain c where c: "c \<in> set (fr_child_frames f)" "descends (hm_remove i fs) c k"
        by auto
      then have "descends fs c k" by (auto intro: descends_mono)
      moreover have "descends fs i c" using c Some by (auto intro: descends.intros)
      ultimately show ?thesis by (blast intro: descends_trans)
    qed
  qed
next
  case (2 fs)
  then show ?case by simp
next
  case (3 fs c cs)
  show ?case
  proof (cases "hm_get (remove_frame fs c) k")
    case None
    with "3.IH"(1) "3.prems" show ?thesis by auto
  next
    case (Some f)
    with "3.IH"(2) "3.prems" obtain c' where "c' \<in> set cs" "descends (remove_frame fs c) c' k" by auto
    then show ?thesis by (auto intro: descends_mono remove_subframes)
  qed
qed

text \<open>In a forest, what remains has its parent there, so no descendant of a removed frame remains.\<close>

lemma gone_descendants:
  assumes "forest orphans departed r fs" and "forest {} departed' r fs'" and sub: "subframes fs' fs"
    and "descends fs i k" and "hm_get fs' i = None"
  shows "hm_get fs' k = None"
  using assms(4,5)
proof (induction rule: descends.induct)
  case (descends_refl i)
  then show ?case .
next
  case (descends_child i p pf c)
  show ?case
  proof (rule ccontr)
    assume "hm_get fs' c \<noteq> None"
    then obtain cf' where cf': "hm_get fs' c = Some cf'" by auto
    with sub obtain cf where "hm_get fs c = Some cf" "fr_parent_frame cf = fr_parent_frame cf'"
      by (rule subframes_D)
    moreover have "children_ok fs" using assms(1) by (simp add: forest_def)
    ultimately have "fr_parent_frame cf' = Some p"
      using descends_child.hyps unfolding children_ok_def by metis
    moreover have "parents_ok {} fs'" using assms(2) by (simp add: forest_def)
    ultimately have "hm_get fs' p \<noteq> None" using cf' unfolding parents_ok_def by blast
    with descends_child show False by simp
  qed
qed

lemma remove_frame_exact:
  assumes "forest {} {} r fs"
  shows "hm_get (remove_frame fs i) k \<noteq> None \<longleftrightarrow> hm_get fs k \<noteq> None \<and> \<not> descends fs i k"
proof -
  have kept: "forest {} {} r (remove_frame fs i)" using remove_forest(1) [OF assms, of i] by simp
  have "hm_get (remove_frame fs i) k = None" if "descends fs i k"
    by (rule gone_descendants [OF assms kept remove_subframes(1) that remove_frame_gone])
  then show ?thesis
    using remove_only_descendants(1) [of fs k i] subframes_get_None [OF remove_subframes(1) [of fs i], of k]
    by argo
qed

text \<open>Ranks grow along descent, so a frame's ancestors are never removed with it.\<close>

lemma descends_rank:
  assumes "forest orphans departed r fs"
  shows "descends fs i k \<Longrightarrow> hm_get fs k \<noteq> None \<Longrightarrow> r i \<le> r k"
proof (induction rule: descends.induct)
  case (descends_refl i)
  then show ?case by simp
next
  case (descends_child i p pf c)
  then obtain cf where "hm_get fs c = Some cf" by auto
  with assms descends_child.hyps have "r p < r c"
    unfolding forest_def children_ok_def ranked_def by blast
  with descends_child show ?case by auto
qed

text \<open>A frame that is not in the map keeps its place in the lists of those that remain.\<close>

lemma remove_keeps_listed:
  "ids_ok fs \<Longrightarrow> hm_get fs k = None \<Longrightarrow> hm_get (remove_frame fs i) q = Some qf' \<Longrightarrow> hm_get fs q = Some qf \<Longrightarrow>
     k \<in> set (fr_child_frames qf) \<Longrightarrow> k \<in> set (fr_child_frames qf')"
  "ids_ok fs \<Longrightarrow> hm_get fs k = None \<Longrightarrow> hm_get (remove_children fs cs) q = Some qf' \<Longrightarrow> hm_get fs q = Some qf \<Longrightarrow>
     k \<in> set (fr_child_frames qf) \<Longrightarrow> k \<in> set (fr_child_frames qf')"
proof (induction fs i and fs cs arbitrary: q qf qf' and q qf qf' rule: remove_frame_remove_children.induct)
  case (1 fs i)
  show ?case
  proof (cases "hm_get fs i")
    case None
    with 1 show ?thesis by (simp add: remove_frame_None)
  next
    case (Some f)
    have idf: "fr_id f = i" and "i \<noteq> k" using "1.prems" Some by (auto simp: ids_ok_def)
    let ?fs1 = "remove_children (hm_remove i fs) (fr_child_frames f)"
    have ids: "ids_ok (hm_remove i fs)" using "1.prems" by (auto simp: ids_ok_def)
    have gone: "hm_get ?fs1 i = None" by (rule subframes_get_None [OF remove_subframes(2)]) simp
    obtain qf1 where qf1: "hm_get ?fs1 q = Some qf1"
      and same: "k \<in> set (fr_child_frames qf1) \<Longrightarrow> k \<in> set (fr_child_frames qf')"
      using "1.prems"(3) Some \<open>i \<noteq> k\<close> idf
      by (cases "fr_parent_frame f") (auto simp: remove_frame_root remove_frame_child split: if_splits)
    from gone qf1 have "q \<noteq> i" by auto
    with "1.IH" [OF Some ids _ qf1] "1.prems" same show ?thesis by auto
  qed
next
  case (2 fs)
  then show ?case by simp
next
  case (3 fs c cs)
  from subframes_D [OF remove_subframes(2) "3.prems"(3) [unfolded remove_children.simps]]
  obtain qf1 where qf1: "hm_get (remove_frame fs c) q = Some qf1" by metis
  have "k \<in> set (fr_child_frames qf1)" by (rule "3.IH"(1) [OF "3.prems"(1,2) qf1 "3.prems"(4,5)])
  moreover have "ids_ok (remove_frame fs c)" "hm_get (remove_frame fs c) k = None"
    using subframes_ids_ok [OF remove_subframes(1) "3.prems"(1)]
      subframes_get_None [OF remove_subframes(1) "3.prems"(2)] by auto
  ultimately show ?case using "3.IH"(2) [OF _ _ _ qf1] "3.prems"(3) by simp
qed

section \<open>Operations that leave the tree alone\<close>

text \<open>The part of a frame the tree is made of.\<close>

definition same_links :: "(frame_id, frame) hash_map \<Rightarrow> (frame_id, frame) hash_map \<Rightarrow> bool" where
  "same_links fs' fs \<longleftrightarrow> (\<forall>k. map_option (\<lambda>f. (fr_id f, fr_parent_frame f, set (fr_child_frames f))) (hm_get fs' k)
     = map_option (\<lambda>f. (fr_id f, fr_parent_frame f, set (fr_child_frames f))) (hm_get fs k))"

lemma same_links_refl [simp]: "same_links fs fs"
  by (simp add: same_links_def)

lemma same_links_trans [trans]: "same_links a b \<Longrightarrow> same_links b c \<Longrightarrow> same_links a c"
  unfolding same_links_def by (rule allI, drule spec, erule trans, drule spec, assumption)

lemma same_links_D:
  assumes "same_links fs' fs" and "hm_get fs' k = Some f'"
  obtains f where "hm_get fs k = Some f" and "fr_id f = fr_id f'"
    and "fr_parent_frame f = fr_parent_frame f'" and "set (fr_child_frames f) = set (fr_child_frames f')"
proof -
  from assms have "map_option (\<lambda>f. (fr_id f, fr_parent_frame f, set (fr_child_frames f))) (hm_get fs k)
      = Some (fr_id f', fr_parent_frame f', set (fr_child_frames f'))"
    by (metis (no_types, lifting) option.simps(9) same_links_def)
  with that show ?thesis by auto
qed

lemma same_links_get: "same_links fs' fs \<Longrightarrow> hm_get fs' k = None \<longleftrightarrow> hm_get fs k = None"
  unfolding same_links_def by (drule spec [of _ k]) (cases "hm_get fs' k"; cases "hm_get fs k"; simp)

lemma same_links_modify:
  assumes "\<And>f. fr_id (g f) = fr_id f \<and> fr_parent_frame (g f) = fr_parent_frame f \<and> fr_child_frames (g f) = fr_child_frames f"
  shows "same_links (hm_modify i g fs) fs"
  unfolding same_links_def
proof
  fix k
  from assms have "(\<lambda>f. (fr_id f, fr_parent_frame f, set (fr_child_frames f))) \<circ> g =
      (\<lambda>f. (fr_id f, fr_parent_frame f, set (fr_child_frames f)))" by (auto simp: fun_eq_iff)
  then show "map_option (\<lambda>f. (fr_id f, fr_parent_frame f, set (fr_child_frames f))) (hm_get (hm_modify i g fs) k)
      = map_option (\<lambda>f. (fr_id f, fr_parent_frame f, set (fr_child_frames f))) (hm_get fs k)"
    by (simp add: option.map_comp)
qed

lemma same_links_fold: "(\<And>x fs. same_links (g x fs) fs) \<Longrightarrow> same_links (fold g xs fs) fs"
proof (induction xs arbitrary: fs)
  case (Cons x xs)
  then have "same_links (fold g xs (g x fs)) (g x fs)" by blast
  also have "same_links (g x fs) fs" by (rule Cons.prems)
  finally show ?case by simp
qed simp

lemma same_links_forest:
  assumes sl: "same_links fs' fs" and fs: "forest orphans departed r fs"
  shows "forest orphans departed r fs'"
proof -
  note get = same_links_get [OF sl] and D = same_links_D [OF sl]
  have "ids_ok fs'" unfolding ids_ok_def using fs [unfolded forest_def ids_ok_def] D by metis
  moreover have "children_ok fs'"
    unfolding children_ok_def using fs [unfolded forest_def children_ok_def] D by metis
  moreover have "listed_ok fs'"
    unfolding listed_ok_def using fs [unfolded forest_def listed_ok_def] D by metis
  moreover have "parents_ok orphans fs'"
    unfolding parents_ok_def using fs [unfolded forest_def parents_ok_def] D get by metis
  moreover have "alive_ok departed fs'"
    unfolding alive_ok_def using fs [unfolded forest_def alive_ok_def] D get by metis
  moreover have "ranked r fs'" unfolding ranked_def using fs [unfolded forest_def ranked_def] D by metis
  ultimately show ?thesis by (simp add: forest_def)
qed

lemma frame_tree_inv_same_links:
  assumes "frame_tree_inv m" and "same_links (fm_frames m') (fm_frames m)" and "fm_main_frame m' = fm_main_frame m"
  shows "frame_tree_inv m'"
proof -
  from assms(1) obtain r where "forest {} {} r (fm_frames m)" by (auto simp: frame_tree_inv_def)
  then have "forest {} {} r (fm_frames m')" by (rule same_links_forest [OF assms(2)])
  moreover have "fr_parent_frame f = None \<longleftrightarrow> fm_main_frame m' = Some i" if f: "hm_get (fm_frames m') i = Some f" for i f
  proof -
    from assms(2) f obtain f0 where "hm_get (fm_frames m) i = Some f0" "fr_parent_frame f0 = fr_parent_frame f"
      by (rule same_links_D)
    with assms(1,3) show ?thesis unfolding frame_tree_inv_def by metis
  qed
  ultimately show ?thesis by (auto simp: frame_tree_inv_def)
qed

end
