(* ===== verification/Frame_Inv.thy ===== *)
theory Frame_Inv
  imports Frame_Forest
begin

text \<open>
  Every operation of the frame manager keeps the frame tree: a new leaf for an attached frame,
  the removal of a subtree for a detached one, the removal of a frame's subframes for a
  navigated one, and operations that do not touch the links. Then the machine of all inputs,
  and the properties of the frame tree.
\<close>

section \<open>Attaching and navigating\<close>

text \<open>Without a root there is no frame at all.\<close>

lemma no_root_empty:
  assumes "forest {} departed r fs" and "\<And>i f. hm_get fs i = Some f \<Longrightarrow> fr_parent_frame f \<noteq> None"
  shows "hm_get fs k = None"
proof (induction "r k" arbitrary: k rule: less_induct)
  case less
  show ?case
  proof (rule ccontr)
    assume "hm_get fs k \<noteq> None"
    then obtain f p where f: "hm_get fs k = Some f" "fr_parent_frame f = Some p" using assms(2) by blast
    with assms(1) have "hm_get fs p \<noteq> None" "r p < r k"
      unfolding forest_def parents_ok_def ranked_def by (blast, metis)
    with less show False by simp
  qed
qed

lemma main_frame_exists:
  assumes "frame_tree_inv m" and "hm_get (fm_frames m) i \<noteq> None"
  obtains main mf where "fm_main_frame m = Some main" and "hm_get (fm_frames m) main = Some mf"
  using assms no_root_empty [of "{}" _ "fm_frames m" i] unfolding frame_tree_inv_def by metis

lemma forest_attach:
  assumes fs: "forest {} {} r fs" and new: "hm_get fs i = None" and p: "hm_get fs p = Some pf"
    and f: "fr_id f = i" "fr_parent_frame f = Some p" "fr_child_frames f = []"
  shows "forest {} {} (r(i := Suc (r p)))
     (hm_insert i f (hm_insert p (pf\<lparr>fr_child_frames := hs_insert i (fr_child_frames pf)\<rparr>) fs))" (is "forest _ _ _ ?fs")
proof -
  have ip: "i \<noteq> p" using new p by auto
  have no_i: "fr_parent_frame g \<noteq> Some i" if "hm_get fs j = Some g" for j g
    using fs new that unfolding forest_def parents_ok_def by blast
  have unlisted: "i \<notin> set (fr_child_frames g)" if "hm_get fs j = Some g" for j g
    using fs new that unfolding forest_def alive_ok_def by blast
  have get: "hm_get ?fs k = (if k = i then Some f else if k = p
      then Some (pf\<lparr>fr_child_frames := hs_insert i (fr_child_frames pf)\<rparr>) else hm_get fs k)" for k by simp
  have "ids_ok ?fs" unfolding ids_ok_def get using fs f p by (auto simp: forest_def ids_ok_def)
  moreover have "children_ok ?fs"
    unfolding children_ok_def get using fs f p ip unlisted by (auto simp: forest_def children_ok_def)
  moreover have "listed_ok ?fs"
    unfolding listed_ok_def get using fs f p ip no_i by (auto simp: forest_def listed_ok_def)
  moreover have "parents_ok {} ?fs"
    unfolding parents_ok_def get using fs [unfolded forest_def parents_ok_def] f p by (auto split: if_splits)
  moreover have "alive_ok {} ?fs"
    unfolding alive_ok_def get using fs [unfolded forest_def alive_ok_def] f p by (auto split: if_splits)
  moreover have "ranked (r(i := Suc (r p))) ?fs"
    unfolding ranked_def get using fs [unfolded forest_def ranked_def] f p ip no_i by (auto split: if_splits)
  ultimately show ?thesis by (simp add: forest_def)
qed

text \<open>Taking a frame out together with its subframes.\<close>

lemma take_subtree:
  assumes fs: "forest {} {} r fs" and i: "hm_get fs i = Some f"
  defines "fs1 \<equiv> remove_children (hm_remove i fs) (fr_child_frames f)"
  shows "forest {} {i} r fs1" and "hm_get fs1 i = None" and "subframes fs1 fs"
    and "hm_get fs k \<noteq> None \<Longrightarrow> hm_get fs1 k = None \<Longrightarrow> descends fs i k"
proof -
  show "forest {} {i} r fs1"
    using remove_forest(2) [OF forest_take_out [OF fs i], of "fr_child_frames f"] by (simp add: fs1_def)
  have sub: "subframes fs1 (hm_remove i fs)" unfolding fs1_def by (rule remove_subframes)
  then show "hm_get fs1 i = None" by (rule subframes_get_None) simp
  from sub show "subframes fs1 fs" by (rule subframes_trans) simp
  show "descends fs i k" if k: "hm_get fs k \<noteq> None" and gone: "hm_get fs1 k = None"
  proof (cases "k = i")
    case True
    then show ?thesis by (simp add: descends_refl)
  next
    case False
    with k gone obtain c where c: "c \<in> set (fr_child_frames f)" "descends (hm_remove i fs) c k"
      using remove_only_descendants(2) [of "hm_remove i fs" k "fr_child_frames f"] by (auto simp: fs1_def)
    moreover have "descends fs i c" using c(1) i by (auto intro: descends.intros)
    ultimately show ?thesis by (blast intro: descends_trans descends_mono subframes_remove)
  qed
qed

lemma forest_navigated:
  assumes fs: "forest {} {} r fs" and i: "hm_get fs i = Some f"
    and g: "fr_id g = i" "fr_parent_frame g = fr_parent_frame f" "fr_child_frames g = []"
  shows "forest {} {} r (hm_insert i g (remove_children (hm_remove i fs) (fr_child_frames f)))"
proof -
  let ?fs1 = "remove_children (hm_remove i fs) (fr_child_frames f)"
  note fs1 = take_subtree [OF fs i]
  have sub: "subframes ?fs1 (hm_remove i fs)" by (rule remove_subframes)
  have parent: "fr_parent_frame f = Some q" if q: "hm_get ?fs1 q = Some qf" "i \<in> set (fr_child_frames qf)" for q qf
  proof -
    from fs1(3) q(1) obtain qf' where "hm_get fs q = Some qf'" "set (fr_child_frames qf) \<subseteq> set (fr_child_frames qf')"
      by (rule subframes_D)
    with fs i q(2) show ?thesis unfolding forest_def children_ok_def by blast
  qed
  have no_child: "fr_parent_frame h \<noteq> Some i" if "hm_get ?fs1 j = Some h" for j h
    using fs1(1,2) that unfolding forest_def parents_ok_def by blast
  have listed: "i \<in> set (fr_child_frames pf)" if p: "fr_parent_frame f = Some p" "hm_get ?fs1 p = Some pf" for p pf
  proof -
    from sub p(2) obtain pf' where pf': "hm_get (hm_remove i fs) p = Some pf'" by (rule subframes_D)
    then have "i \<in> set (fr_child_frames pf')"
      using fs i p(1) unfolding forest_def listed_ok_def by (auto split: if_splits)
    moreover have "ids_ok (hm_remove i fs)" using fs by (auto simp: forest_def ids_ok_def)
    ultimately show ?thesis using remove_keeps_listed(2) [OF _ _ p(2) pf'] by auto
  qed
  have above: "hm_get ?fs1 p \<noteq> None" if p: "fr_parent_frame f = Some p" for p
  proof -
    have "hm_get fs p \<noteq> None" "r p < r i"
      using fs i p unfolding forest_def parents_ok_def ranked_def by (blast, metis)
    with descends_rank [OF fs, of i p] fs1(4) show ?thesis by fastforce
  qed
  have not_self: "fr_parent_frame f \<noteq> Some i"
    using fs i unfolding forest_def ranked_def by blast
  have "ids_ok (hm_insert i g ?fs1)" using fs1(1) g by (auto simp: forest_def ids_ok_def)
  moreover have "children_ok (hm_insert i g ?fs1)"
    unfolding children_ok_def using fs1(1) [unfolded forest_def children_ok_def] g parent by auto
  moreover have "listed_ok (hm_insert i g ?fs1)"
    unfolding listed_ok_def using fs1(1) [unfolded forest_def listed_ok_def] g no_child listed not_self
    by (auto split: if_splits)
  moreover have "parents_ok {} (hm_insert i g ?fs1)"
    unfolding parents_ok_def using fs1(1) [unfolded forest_def parents_ok_def] g above by (auto split: if_splits)
  moreover have "alive_ok {} (hm_insert i g ?fs1)"
    unfolding alive_ok_def using fs1(1) [unfolded forest_def alive_ok_def] g by (auto split: if_splits)
  moreover have "ranked r (hm_insert i g ?fs1)"
    unfolding ranked_def using fs1(1) [unfolded forest_def ranked_def] fs [unfolded forest_def ranked_def] g i
    by (auto split: if_splits)
  ultimately show ?thesis by (simp add: forest_def)
qed

text \<open>A root alone is a tree.\<close>

lemma forest_single:
  assumes "\<And>k. hm_get fs k = (if k = i then Some f else None)"
    and "fr_id f = i" and "fr_parent_frame f = None" and "fr_child_frames f = []"
  shows "forest {} {} r fs"
  using assms by (simp add: forest_defs)

end
