(* ===== verification/Frame_Machine.thy ===== *)
theory Frame_Machine
  imports Frame_Inv
begin

text \<open>
  The frame manager as one machine: its inputs are the calls of \<open>src/handler/target.rs\<close>
  (protocol events, \<open>goto\<close>, \<open>poll\<close>, \<open>ensure_isolated_world\<close>, eviction), and the frame tree is
  an invariant of its runs.
\<close>

section \<open>Inputs\<close>

datatype fm_input =
    FrameAttached frame_id "frame_id option"
  | FrameDetached frame_id
  | FrameNavigated cdp_frame
  | GotFrameTree frame_tree
  | NavigatedWithinDocument frame_id string
  | StoppedLoading frame_id
  | StartedLoading frame_id
  | LifecycleEvent frame_id loader_id string
  | ContextCreated execution_context
  | ContextDestroyed string
  | ContextsCleared
  | EvictStale
  | RequestFinished http_request
  | Goto frame_requested_navigation
  | PollFrames instant instant
  | EnsureIsolatedWorld string string
  | SetMaxNavigations "u32 option"

fun fm_step :: "(frame_id \<Rightarrow> string) \<Rightarrow> frame_manager \<Rightarrow> fm_input \<Rightarrow> frame_manager" where
  "fm_step wn m (FrameAttached i p) = on_frame_attached i p m"
| "fm_step wn m (FrameDetached i) = on_frame_detached i m"
| "fm_step wn m (FrameNavigated cf) = on_frame_navigated wn cf m"
| "fm_step wn m (GotFrameTree t) = on_frame_tree wn t m"
| "fm_step wn m (NavigatedWithinDocument i u) = on_frame_navigated_within_document i u m"
| "fm_step wn m (StoppedLoading i) = on_frame_stopped_loading i m"
| "fm_step wn m (StartedLoading i) = on_frame_started_loading i m"
| "fm_step wn m (LifecycleEvent i l n) = on_page_lifecycle_event i l n m"
| "fm_step wn m (ContextCreated ctx) = on_frame_execution_context_created ctx m"
| "fm_step wn m (ContextDestroyed u) = on_frame_execution_context_destroyed u m"
| "fm_step wn m ContextsCleared = on_execution_contexts_cleared m"
| "fm_step wn m EvictStale = evict_stale_context_ids m"
| "fm_step wn m (RequestFinished r) = on_http_request_finished r m"
| "fm_step wn m (Goto req) = FrameManager_goto req m"
| "fm_step wn m (PollFrames now clock) = snd (FrameManager_poll now clock m)"
| "fm_step wn m (EnsureIsolatedWorld s w) = snd (ensure_isolated_world s w m)"
| "fm_step wn m (SetMaxNavigations cap) = set_max_main_frame_navigations cap m"

section \<open>Operations that change the tree\<close>

lemma tree_inv_frames:
  "frame_tree_inv m \<Longrightarrow> fm_frames m' = fm_frames m \<Longrightarrow> fm_main_frame m' = fm_main_frame m \<Longrightarrow> frame_tree_inv m'"
  by (simp add: frame_tree_inv_def)

lemma tree_inv_forest: "frame_tree_inv m \<Longrightarrow> \<exists>r. forest {} {} r (fm_frames m)"
  by (simp add: frame_tree_inv_def)

lemma tree_inv_root: "frame_tree_inv m \<Longrightarrow> hm_get (fm_frames m) i = Some f \<Longrightarrow>
    fr_parent_frame f = None \<longleftrightarrow> fm_main_frame m = Some i"
  by (simp add: frame_tree_inv_def)

lemma attached_inv [inv_intros]: "frame_tree_inv m \<Longrightarrow> frame_tree_inv (on_frame_attached i parent m)"
proof (cases "hm_get (fm_frames m) i = None \<and> (\<exists>p pf. parent = Some p \<and> hm_get (fm_frames m) p = Some pf)")
  case False
  moreover assume "frame_tree_inv m"
  ultimately show ?thesis by (auto simp: on_frame_attached_def split: option.splits)
next
  case True
  assume inv: "frame_tree_inv m"
  then obtain r where fs: "forest {} {} r (fm_frames m)" by (auto dest: tree_inv_forest)
  from True obtain p pf where new: "hm_get (fm_frames m) i = None" and p: "parent = Some p"
    and pf: "hm_get (fm_frames m) p = Some pf" by auto
  obtain main mf where main: "fm_main_frame m = Some main" "hm_get (fm_frames m) main = Some mf"
    using main_frame_exists [OF inv] pf by (metis option.distinct(1))
  have id: "fr_id pf = p" using fs pf by (simp add: forest_def ids_ok_def)
  define f where "f = fst (Frame_with_parent i pf)"
  have f: "fr_id f = i" "fr_parent_frame f = Some p" "fr_child_frames f = []"
    by (simp_all add: f_def Frame_with_parent_def id)
  have step: "on_frame_attached i parent m = m\<lparr>fm_frames :=
      hm_insert i f (hm_insert p (pf\<lparr>fr_child_frames := hs_insert i (fr_child_frames pf)\<rparr>) (fm_frames m))\<rparr>"
    by (simp add: on_frame_attached_def new p pf Frame_with_parent_def f_def)
  have "i \<noteq> main" using new main by auto
  then show ?thesis
    using forest_attach [OF fs new pf f] tree_inv_root [OF inv] f main pf new
    unfolding step frame_tree_inv_def by (auto split: if_splits)
qed

lemma detached_inv [inv_intros]: "frame_tree_inv m \<Longrightarrow> frame_tree_inv (on_frame_detached i m)"
proof -
  assume inv: "frame_tree_inv m"
  then obtain r where "forest {} {} r (fm_frames m)" by (auto dest: tree_inv_forest)
  from remove_forest(1) [OF this, of i] have "forest {} {} r (remove_frame (fm_frames m) i)" by simp
  moreover have "fr_parent_frame f = None \<longleftrightarrow> fm_main_frame m = Some k"
    if k: "hm_get (remove_frame (fm_frames m) i) k = Some f" for k f
  proof -
    from remove_subframes(1) k obtain f0 where "hm_get (fm_frames m) k = Some f0" "fr_parent_frame f0 = fr_parent_frame f"
      by (rule subframes_D)
    with tree_inv_root [OF inv] show ?thesis by metis
  qed
  ultimately show ?thesis by (auto simp: frame_tree_inv_def on_frame_detached_def remove_frames_recursively_def)
qed

lemma child_navigated_inv: "frame_tree_inv m \<Longrightarrow> frame_tree_inv (child_frame_navigated cf m)"
proof (cases "hm_get (fm_frames m) (cf_id cf)")
  case None
  moreover assume "frame_tree_inv m"
  ultimately show ?thesis by (simp add: child_frame_navigated_def)
next
  case (Some f)
  assume inv: "frame_tree_inv m"
  then obtain r where fs: "forest {} {} r (fm_frames m)" by (auto dest: tree_inv_forest)
  define g where "g = Frame_navigated cf (f\<lparr>fr_child_frames := []\<rparr>)"
  define fs1 where "fs1 = remove_children (hm_remove (cf_id cf) (fm_frames m)) (fr_child_frames f)"
  have g: "fr_id g = cf_id cf" "fr_parent_frame g = fr_parent_frame f" "fr_child_frames g = []"
    using fs Some by (simp_all add: g_def Frame_navigated_def forest_def ids_ok_def)
  have step: "child_frame_navigated cf m = m\<lparr>fm_frames := hm_insert (cf_id cf) g fs1\<rparr>"
    by (simp add: child_frame_navigated_def Some g_def fs1_def)
  have "fr_parent_frame h = None \<longleftrightarrow> fm_main_frame m = Some k"
    if k: "hm_get (hm_insert (cf_id cf) g fs1) k = Some h" for k h
  proof (cases "k = cf_id cf")
    case True
    with k g tree_inv_root [OF inv Some] show ?thesis by auto
  next
    case False
    with k have "hm_get fs1 k = Some h" by simp
    with take_subtree(3) [OF fs Some] obtain h0 where "hm_get (fm_frames m) k = Some h0" "fr_parent_frame h0 = fr_parent_frame h"
      unfolding fs1_def by (rule subframes_D)
    with tree_inv_root [OF inv] show ?thesis by metis
  qed
  with forest_navigated [OF fs Some g] show ?thesis
    unfolding step frame_tree_inv_def fs1_def by auto
qed

text \<open>A navigated main frame is left alone in the map.\<close>

lemma main_navigated_frames:
  assumes inv: "frame_tree_inv m"
  obtains f fs where "fm_frames (main_frame_navigated wn cf m) = hm_insert (cf_id cf) f fs"
      and "fr_id f = cf_id cf" and "fr_parent_frame f = None" and "fr_child_frames f = []"
      and "\<forall>k. hm_get fs k = None" and "fm_main_frame (main_frame_navigated wn cf m) = Some (cf_id cf)"
proof -
  from inv obtain r where fs: "forest {} {} r (fm_frames m)" by (auto dest: tree_inv_forest)
  show ?thesis
  proof (cases "FrameManager_main_frame m")
    case None
    have "hm_get (fm_frames m) k = None" for k
    proof (rule ccontr)
      assume "hm_get (fm_frames m) k \<noteq> None"
      with inv obtain main mf where "fm_main_frame m = Some main" "hm_get (fm_frames m) main = Some mf"
        by (rule main_frame_exists)
      with None show False by (simp add: FrameManager_main_frame_def)
    qed
    moreover from None have "fm_frames (main_frame_navigated wn cf m)
        = hm_insert (cf_id cf) (Frame_navigated cf (Frame_new wn (cf_id cf))) (fm_frames m)"
      "fm_main_frame (main_frame_navigated wn cf m) = Some (cf_id cf)"
      by (auto simp: main_frame_navigated_def FrameManager_main_frame_def Let_def Frame_navigated_def Frame_new_def
          split: option.splits bind_splits)
    ultimately show ?thesis
      by (intro that [of "Frame_navigated cf (Frame_new wn (cf_id cf))" "fm_frames m"])
        (simp_all add: Frame_navigated_def Frame_new_def)
  next
    case (Some mf)
    then obtain main where main: "fm_main_frame m = Some main" and mf: "hm_get (fm_frames m) main = Some mf"
      by (auto simp: FrameManager_main_frame_def bind_eq_Some_conv)
    define fs1 where "fs1 = remove_children (hm_remove main (fm_frames m)) (fr_child_frames mf)"
    note t = take_subtree [OF fs mf, folded fs1_def]
    have root: "fr_parent_frame mf = None" using tree_inv_root [OF inv mf] main by simp
    have "fr_parent_frame h \<noteq> None" if k: "hm_get fs1 k = Some h" for k h
    proof -
      from t(3) k obtain h0 where "hm_get (fm_frames m) k = Some h0" "fr_parent_frame h0 = fr_parent_frame h"
        by (rule subframes_D)
      moreover have "k \<noteq> main" using t(2) k by auto
      ultimately show ?thesis using tree_inv_root [OF inv] main by (metis option.inject)
    qed
    then have "hm_get fs1 k = None" for k by (rule no_root_empty [OF t(1)])
    moreover have "fm_frames (main_frame_navigated wn cf m)
        = hm_insert (cf_id cf) (Frame_navigated cf (mf\<lparr>fr_child_frames := [], fr_id := cf_id cf\<rparr>)) fs1"
      "fm_main_frame (main_frame_navigated wn cf m) = Some (cf_id cf)"
      by (auto simp: main_frame_navigated_def Let_def main mf fs1_def Frame_navigated_def split: option.splits)
    ultimately show ?thesis using root
      by (intro that [of "Frame_navigated cf (mf\<lparr>fr_child_frames := [], fr_id := cf_id cf\<rparr>)" fs1])
        (simp_all add: Frame_navigated_def)
  qed
qed

lemma main_navigated_get:
  assumes "frame_tree_inv m"
  shows "\<exists>f. fr_id f = cf_id cf \<and> fr_parent_frame f = None \<and> fr_child_frames f = [] \<and>
    (\<forall>k. hm_get (fm_frames (main_frame_navigated wn cf m)) k = (if k = cf_id cf then Some f else None))"
    and "fm_main_frame (main_frame_navigated wn cf m) = Some (cf_id cf)"
proof -
  from main_navigated_frames [OF assms, of wn cf] obtain f fs where
    f: "fm_frames (main_frame_navigated wn cf m) = hm_insert (cf_id cf) f fs"
      "fr_id f = cf_id cf" "fr_parent_frame f = None" "fr_child_frames f = []" "\<forall>k. hm_get fs k = None"
    and main: "fm_main_frame (main_frame_navigated wn cf m) = Some (cf_id cf)" .
  from f show "\<exists>f. fr_id f = cf_id cf \<and> fr_parent_frame f = None \<and> fr_child_frames f = [] \<and>
    (\<forall>k. hm_get (fm_frames (main_frame_navigated wn cf m)) k = (if k = cf_id cf then Some f else None))"
    by auto
  from main show "fm_main_frame (main_frame_navigated wn cf m) = Some (cf_id cf)" .
qed

lemma main_navigated_inv: "frame_tree_inv m \<Longrightarrow> frame_tree_inv (main_frame_navigated wn cf m)"
proof -
  assume inv: "frame_tree_inv m"
  then obtain f where f: "fr_id f = cf_id cf" "fr_parent_frame f = None" "fr_child_frames f = []"
    and get: "\<And>k. hm_get (fm_frames (main_frame_navigated wn cf m)) k = (if k = cf_id cf then Some f else None)"
    using main_navigated_get(1) [of m cf wn] by auto
  from forest_single [OF get f] show ?thesis
    unfolding frame_tree_inv_def main_navigated_get(2) [OF inv] by (auto simp: get f split: if_splits)
qed

lemma navigated_inv [inv_intros]: "frame_tree_inv m \<Longrightarrow> frame_tree_inv (on_frame_navigated wn cf m)"
  by (simp add: on_frame_navigated_def child_navigated_inv main_navigated_inv)

lemma fold_inv: "(\<And>x m. x \<in> set xs \<Longrightarrow> P m \<Longrightarrow> P (f x m)) \<Longrightarrow> P m \<Longrightarrow> P (fold f xs m)"
  by (induction xs arbitrary: m) auto

lemma frame_tree_event_inv [inv_intros]: "frame_tree_inv m \<Longrightarrow> frame_tree_inv (on_frame_tree wn t m)"
proof (induction wn t m rule: on_frame_tree.induct)
  case (1 wn cf children m)
  then show ?case
    by (auto simp: Let_def intro!: attached_inv navigated_inv fold_inv [of _ frame_tree_inv] split: option.split)
qed

section \<open>Operations that leave the links alone\<close>

lemmas links_unchanged = Frame_navigated_within_url_def on_loading_stopped_def on_loading_started_def
  clear_contexts_def destroy_context_def set_request_def frame_context_created_def

lemma context_created_frames:
  "\<exists>g. fm_frames (on_frame_execution_context_created ctx m) = g \<and> same_links g (fm_frames m)"
proof -
  have "same_links (hm_insert i (frame_context_created ctx f) fs) fs" if "hm_get fs i = Some f" for i f and fs :: "(frame_id, frame) hash_map"
    using that same_links_modify [of "frame_context_created ctx" i fs]
    by (simp add: hm_modify_def frame_context_created_def)
  then show ?thesis
    by (auto simp: on_frame_execution_context_created_def Let_def split: option.splits)
qed

lemma cleared_frames: "same_links (fm_frames (on_execution_contexts_cleared m)) (fm_frames m)"
  by (auto simp: on_execution_contexts_cleared_def clear_contexts_def intro!: same_links_fold same_links_modify)

lemma other_inputs_inv [inv_intros]:
  assumes "frame_tree_inv m"
  shows "frame_tree_inv (on_frame_navigated_within_document i u m)"
    and "frame_tree_inv (on_frame_stopped_loading i m)"
    and "frame_tree_inv (on_frame_started_loading i m)"
    and "frame_tree_inv (on_page_lifecycle_event i l n m)"
    and "frame_tree_inv (on_frame_execution_context_created ctx m)"
    and "frame_tree_inv (on_frame_execution_context_destroyed v m)"
    and "frame_tree_inv (on_execution_contexts_cleared m)"
    and "frame_tree_inv (evict_stale_context_ids m)"
    and "frame_tree_inv (on_http_request_finished rq m)"
    and "frame_tree_inv (FrameManager_goto req m)"
    and "frame_tree_inv (snd (FrameManager_poll now clock m))"
    and "frame_tree_inv (snd (ensure_isolated_world s w m))"
    and "frame_tree_inv (set_max_main_frame_navigations cap m)"
proof -
  show "frame_tree_inv (on_frame_navigated_within_document i u m)"
    by (rule frame_tree_inv_same_links [OF assms]) (auto simp: on_frame_navigated_within_document_def Let_def links_unchanged intro!: same_links_modify)
  show "frame_tree_inv (on_frame_stopped_loading i m)"
    by (rule frame_tree_inv_same_links [OF assms]) (auto simp: on_frame_stopped_loading_def links_unchanged intro!: same_links_modify)
  show "frame_tree_inv (on_frame_started_loading i m)"
    by (rule frame_tree_inv_same_links [OF assms]) (auto simp: on_frame_started_loading_def links_unchanged intro!: same_links_modify)
  show "frame_tree_inv (on_page_lifecycle_event i l n m)"
    by (rule frame_tree_inv_same_links [OF assms]) (auto simp: on_page_lifecycle_event_def Let_def intro!: same_links_modify)
  show "frame_tree_inv (on_frame_execution_context_created ctx m)"
    by (rule frame_tree_inv_same_links [OF assms])
      (use context_created_frames [of ctx m] in \<open>auto simp: on_frame_execution_context_created_def Let_def split: option.splits\<close>)
  show "frame_tree_inv (on_frame_execution_context_destroyed v m)"
    by (rule frame_tree_inv_same_links [OF assms])
      (auto simp: on_frame_execution_context_destroyed_def links_unchanged split: option.split intro!: same_links_modify)
  show "frame_tree_inv (on_execution_contexts_cleared m)"
    by (rule frame_tree_inv_same_links [OF assms cleared_frames]) (simp add: on_execution_contexts_cleared_def)
  show "frame_tree_inv (evict_stale_context_ids m)"
    by (rule tree_inv_frames [OF assms]) (auto simp: evict_stale_context_ids_def)
  show "frame_tree_inv (on_http_request_finished rq m)"
    by (rule frame_tree_inv_same_links [OF assms])
      (auto simp: on_http_request_finished_def links_unchanged split: option.split intro!: same_links_modify)
  show "frame_tree_inv (FrameManager_goto req m)"
    by (rule tree_inv_frames [OF assms]) (auto simp: FrameManager_goto_def navigate_frame_def Let_def split: option.split)
  show "frame_tree_inv (snd (FrameManager_poll now clock m))"
    by (rule tree_inv_frames [OF assms]) (auto simp: FrameManager_poll_def Let_def split: option.splits list.splits)
  show "frame_tree_inv (snd (ensure_isolated_world s w m))"
    by (rule tree_inv_frames [OF assms]) (auto simp: ensure_isolated_world_def)
  show "frame_tree_inv (set_max_main_frame_navigations cap m)"
    by (rule tree_inv_frames [OF assms]) (auto simp: set_max_main_frame_navigations_def)
qed

lemma fm_step_inv: "frame_tree_inv m \<Longrightarrow> frame_tree_inv (fm_step wn m e)"
  by (cases e) (simp_all add: inv_intros)

interpretation frames: event_machine "fm_step wn" frame_tree_inv for wn
  by unfold_locales (rule fm_step_inv)

lemma new_inv: "frame_tree_inv (FrameManager_new t)"
  by (simp add: frame_tree_inv_def FrameManager_new_def forest_defs)

section \<open>Properties\<close>

lemma run_tree_inv: "frame_tree_inv (run (fm_step wn) (FrameManager_new t) es)"
  by (rule frames.run_inv [OF new_inv])

text \<open>C8 (the frame tree). After any sequence of events and calls the frames form a tree: each is
  stored under its own id, a frame's parent exists and records it as a child, a recorded child
  exists and names its parent, there is no cycle, and the only frame without a parent is the
  main frame.\<close>

theorem frame_tree_always: "frame_tree_inv (run (fm_step wn) (FrameManager_new t) es)"
  by (rule run_tree_inv)

text \<open>C17 (detaching). In any reachable state, a detached frame takes exactly its subtree along:
  what remains afterwards are the frames that do not descend from it.\<close>

theorem detach_removes_subtree:
  fixes wn t es
  defines "m \<equiv> run (fm_step wn) (FrameManager_new t) es"
  shows "hm_get (fm_frames (on_frame_detached i m)) k \<noteq> None \<longleftrightarrow>
    hm_get (fm_frames m) k \<noteq> None \<and> \<not> descends (fm_frames m) i k"
proof -
  obtain r where "forest {} {} r (fm_frames m)"
    using tree_inv_forest run_tree_inv unfolding m_def by blast
  then show ?thesis
    using remove_frame_exact [of r "fm_frames m" i k] by (simp add: on_frame_detached_def remove_frames_recursively_def)
qed

text \<open>Navigating a subframe. When a frame with a parent navigates, in any reachable state, it
  loses its subframes and nothing else changes: the frames left are the frame itself and those
  that do not descend from it.\<close>

theorem child_navigation_drops_subframes:
  fixes wn t es
  defines "m \<equiv> run (fm_step wn) (FrameManager_new t) es"
  assumes "cf_parent_id cf = Some p" and "hm_get (fm_frames m) (cf_id cf) = Some f"
  shows "hm_get (fm_frames (on_frame_navigated wn cf m)) k \<noteq> None \<longleftrightarrow>
    k = cf_id cf \<or> (hm_get (fm_frames m) k \<noteq> None \<and> \<not> descends (fm_frames m) (cf_id cf) k)"
proof -
  define fs1 where "fs1 = remove_children (hm_remove (cf_id cf) (fm_frames m)) (fr_child_frames f)"
  obtain r where fs: "forest {} {} r (fm_frames m)"
    using tree_inv_forest run_tree_inv unfolding m_def by blast
  note t = take_subtree [OF fs assms(3), folded fs1_def]
  have "hm_get fs1 k = None" if "descends (fm_frames m) (cf_id cf) k"
    by (rule gone_descendants [OF fs t(1) t(3) that t(2)])
  moreover have "hm_get (fm_frames m) k \<noteq> None" if "hm_get fs1 k \<noteq> None"
    by (rule contrapos_nn [OF that]) (rule subframes_get_None [OF t(3)])
  ultimately have "hm_get fs1 k \<noteq> None \<longleftrightarrow> hm_get (fm_frames m) k \<noteq> None \<and> \<not> descends (fm_frames m) (cf_id cf) k"
    using t(4) [of k] by argo
  moreover have "fm_frames (on_frame_navigated wn cf m)
      = hm_insert (cf_id cf) (Frame_navigated cf (f\<lparr>fr_child_frames := []\<rparr>)) fs1"
    using assms(2,3) by (simp add: on_frame_navigated_def child_frame_navigated_def fs1_def)
  ultimately show ?thesis by (cases "k = cf_id cf") (simp_all only: hm.get_insert if_True if_False simp_thms option.simps)
qed

definition demo_page :: "fm_input list" where
  "demo_page = [FrameNavigated \<lparr>cf_id = ''M'', cf_parent_id = None, cf_name = None, cf_url = ''u'', cf_url_fragment = None\<rparr>,
     FrameAttached ''A'' (Some ''M''), FrameAttached ''B'' (Some ''A'')]"

definition demo_child :: cdp_frame where
  "demo_child = \<lparr>cf_id = ''A'', cf_parent_id = Some ''M'', cf_name = None, cf_url = ''v'', cf_url_fragment = None\<rparr>"

lemmas demo_page_run = demo_page_def demo_child_def FrameManager_new_def on_frame_navigated_def main_frame_navigated_def
  on_frame_attached_def Frame_new_def Frame_navigated_def Frame_with_parent_def hs_insert_def Let_def

lemma child_navigation_drops_subframes_witness:
  "hm_get (fm_frames (on_frame_navigated (\<lambda>_. ''w'') demo_child
     (run (fm_step (\<lambda>_. ''w'')) (FrameManager_new 5) demo_page))) ''M'' \<noteq> None"
proof -
  let ?m = "run (fm_step (\<lambda>_. ''w'')) (FrameManager_new 5) demo_page"
  obtain f where f: "hm_get (fm_frames ?m) (cf_id demo_child) = Some f" by (simp add: demo_page_run)
  have "k \<noteq> ''M''" if "descends (fm_frames ?m) i k" "i \<noteq> ''M''" for i k
    using that by (induction rule: descends.induct) (auto simp: demo_page_run split: if_splits)
  then have "\<not> descends (fm_frames ?m) (cf_id demo_child) ''M''" by (auto simp: demo_child_def)
  moreover have "hm_get (fm_frames ?m) ''M'' \<noteq> None" by (simp add: demo_page_run)
  moreover have "cf_parent_id demo_child = Some ''M''" by (simp add: demo_child_def)
  ultimately show ?thesis using child_navigation_drops_subframes [OF _ f, of "''M''" "''M''"] by blast
qed

text \<open>Navigating the page. When the main frame navigates, in any reachable state, it becomes the
  main frame under its (possibly new) id and is the only frame left.\<close>

theorem main_navigation_resets_tree:
  assumes "cf_parent_id cf = None"
  shows "fm_main_frame (on_frame_navigated wn cf (run (fm_step wn) (FrameManager_new t) es)) = Some (cf_id cf)
    \<and> (hm_get (fm_frames (on_frame_navigated wn cf (run (fm_step wn) (FrameManager_new t) es))) k \<noteq> None
        \<longleftrightarrow> k = cf_id cf)"
proof -
  note m = main_navigated_get [OF run_tree_inv [of wn t es], where cf = cf and wn = wn]
  from m(1) have "hm_get (fm_frames (main_frame_navigated wn cf (run (fm_step wn) (FrameManager_new t) es))) k \<noteq> None
      \<longleftrightarrow> k = cf_id cf" by (auto split: if_splits)
  with m(2) assms show ?thesis by (simp add: on_frame_navigated_def)
qed

definition demo_swap :: cdp_frame where
  "demo_swap = \<lparr>cf_id = ''N'', cf_parent_id = None, cf_name = None, cf_url = ''v'', cf_url_fragment = None\<rparr>"

lemma main_navigation_resets_tree_witness:
  "hm_get (fm_frames (on_frame_navigated (\<lambda>_. ''w'') demo_swap
     (run (fm_step (\<lambda>_. ''w'')) (FrameManager_new 5) demo_page))) ''A'' = None"
proof -
  have "cf_parent_id demo_swap = None" by (simp add: demo_swap_def)
  from main_navigation_resets_tree [OF this, of "\<lambda>_. ''w''" 5 demo_page "''A''"]
  show ?thesis by (simp add: demo_swap_def)
qed

end
