(* ===== verification/Navigation.thy ===== *)
theory Navigation
  imports Frame_Machine
begin

text \<open>
  Navigations of the main frame: every accepted \<open>goto\<close> waits in a queue, is sent out once the
  navigation before it has an answer, and is answered exactly once, in order, at the latest by
  the first poll after its deadline. And what a positive answer, a timeout and a
  \<open>TooManyNavigations\<close> say about the frame.
\<close>

section \<open>The queue of navigations\<close>

text \<open>The navigations that still owe an answer: the one under way, then the queued ones.\<close>

definition outstanding :: "frame_manager \<Rightarrow> navigation_id list" where
  "outstanding m = (case fm_navigation m of None \<Rightarrow> [] | Some (w, _) \<Rightarrow> [nw_id w])
     @ map (\<lambda>(req, _). fn_id req) (fm_pending_navigations m)"

definition nav_inv :: "frame_manager \<Rightarrow> bool" where
  "nav_inv m \<longleftrightarrow> (\<forall>(req, w) \<in> set (fm_pending_navigations m). nw_id w = fn_id req)"

text \<open>The identifiers a step answers, sends out, and accepts.\<close>

definition event_answers :: "frame_event option \<Rightarrow> navigation_id list" where
  "event_answers ev = (case ev of
      Some (NavigationResult (Inl e)) \<Rightarrow> [NavigationError_navigation_id e]
    | Some (NavigationResult (Inr ok)) \<Rightarrow> [NavigationOk_navigation_id ok]
    | _ \<Rightarrow> [])"

definition event_requests :: "frame_event option \<Rightarrow> (navigation_id \<times> cdp_request) list" where
  "event_requests ev = (case ev of Some (NavigationRequest i req) \<Rightarrow> [(i, req)] | _ \<Rightarrow> [])"

fun nav_answered :: "frame_manager \<Rightarrow> fm_input \<Rightarrow> navigation_id list" where
  "nav_answered m (PollFrames now clock) = event_answers (fst (FrameManager_poll now clock m))"
| "nav_answered m _ = []"

fun nav_sent :: "frame_manager \<Rightarrow> fm_input \<Rightarrow> (navigation_id \<times> cdp_request) list" where
  "nav_sent m (PollFrames now clock) = event_requests (fst (FrameManager_poll now clock m))"
| "nav_sent m _ = []"

fun nav_accepted :: "frame_manager \<Rightarrow> fm_input \<Rightarrow> frame_requested_navigation list" where
  "nav_accepted m (Goto req) = (case fm_main_frame m of None \<Rightarrow> [] | Some i \<Rightarrow> [set_frame_id i req])"
| "nav_accepted m _ = []"

lemma set_frame_id_id [simp]: "fn_id (set_frame_id f r) = fn_id r"
  by (simp add: set_frame_id_def split: option.split)

lemma set_frame_id_timeout [simp]: "fn_timeout (set_frame_id f r) = fn_timeout r"
  by (simp add: set_frame_id_def split: option.split)

lemma watcher_id [simp]: "nw_id (until_load i f l) = i"
  by (simp add: until_load_def until_lifecycle_def)

text \<open>Only \<open>goto\<close> and \<open>poll\<close> touch the queue; a renamed main frame keeps the navigation's id.\<close>

definition same_navigations :: "frame_manager \<Rightarrow> frame_manager \<Rightarrow> bool" where
  "same_navigations m' m \<longleftrightarrow> fm_pending_navigations m' = fm_pending_navigations m \<and>
     map_option (\<lambda>(w, d). (nw_id w, d)) (fm_navigation m') = map_option (\<lambda>(w, d). (nw_id w, d)) (fm_navigation m)"

lemma same_navigations_refl [simp]: "same_navigations m m"
  by (simp add: same_navigations_def)

lemma same_navigations_trans [trans]: "same_navigations a b \<Longrightarrow> same_navigations b c \<Longrightarrow> same_navigations a c"
  by (auto simp: same_navigations_def)

lemma same_navigations_outstanding: "same_navigations m' m \<Longrightarrow> outstanding m' = outstanding m"
  by (cases "fm_navigation m'"; cases "fm_navigation m") (auto simp: same_navigations_def outstanding_def)

lemma same_navigations_inv: "same_navigations m' m \<Longrightarrow> nav_inv m \<Longrightarrow> nav_inv m'"
  by (simp add: same_navigations_def nav_inv_def)

lemma navigated_navigations: "same_navigations (on_frame_navigated wn cf m) m"
  by (auto simp: same_navigations_def on_frame_navigated_def child_frame_navigated_def
      main_frame_navigated_def Let_def split: option.splits)

lemma attached_navigations: "same_navigations (on_frame_attached i p m) m"
  by (auto simp: same_navigations_def on_frame_attached_def split: option.splits prod.splits)

lemma tree_navigations: "same_navigations (on_frame_tree wn t m) m"
proof (induction wn t m rule: on_frame_tree.induct)
  case (1 wn cf children m)
  let ?m = "on_frame_navigated wn cf (on_frame_attached (cf_id cf) (cf_parent_id cf) m)"
  have start: "same_navigations ?m m"
    by (rule same_navigations_trans [OF navigated_navigations attached_navigations])
  show ?case
  proof (cases children)
    case None
    with start show ?thesis by (simp add: Let_def)
  next
    case (Some ts)
    have "same_navigations (fold (on_frame_tree wn) ts ?m) m"
    proof (rule fold_inv)
      fix t m' assume "t \<in> set ts" and m': "same_navigations m' m"
      with 1 Some have "same_navigations (on_frame_tree wn t m') m'" by blast
      with m' show "same_navigations (on_frame_tree wn t m') m" by (rule same_navigations_trans [rotated])
    qed (rule start)
    with Some show ?thesis by (simp add: Let_def)
  qed
qed

lemma other_navigations:
  "\<lbrakk>\<forall>r. e \<noteq> Goto r; \<forall>now clock. e \<noteq> PollFrames now clock\<rbrakk> \<Longrightarrow> same_navigations (fm_step wn m e) m"
proof (cases e)
  case (FrameDetached i)
  then show ?thesis
    by (simp add: same_navigations_def on_frame_detached_def remove_frames_recursively_def)
next
  case (NavigatedWithinDocument i u)
  then show ?thesis
    by (auto simp: same_navigations_def on_frame_navigated_within_document_def Let_def
        option.map_comp comp_def intro!: option.map_cong)
next
  case (ContextCreated ctx)
  then show ?thesis
    by (auto simp: same_navigations_def on_frame_execution_context_created_def Let_def split: option.split)
next
  case (FrameAttached i p)
  then show ?thesis by (simp add: attached_navigations)
next
  case (FrameNavigated cf)
  then show ?thesis by (simp add: navigated_navigations)
next
  case (GotFrameTree t)
  then show ?thesis by (simp add: tree_navigations)
qed (auto simp: same_navigations_def
    on_frame_stopped_loading_def on_frame_started_loading_def on_page_lifecycle_event_def
    on_frame_execution_context_destroyed_def on_execution_contexts_cleared_def evict_stale_context_ids_def
    on_http_request_finished_def ensure_isolated_world_def set_max_main_frame_navigations_def split: option.split)

text \<open>One step answers from the front of the queue and accepts at its end.\<close>

lemma poll_queue:
  assumes "nav_inv m"
  shows "event_answers (fst (FrameManager_poll now clock m)) @ outstanding (snd (FrameManager_poll now clock m))
      = outstanding m"
    and "nav_inv (snd (FrameManager_poll now clock m))"
proof -
  have ok: "NavigationOk_navigation_id n = nw_id w" if "check_lifecycle_complete w f = Some n" for w f n
    using that by (auto simp: check_lifecycle_complete_def split: if_splits)
  show "event_answers (fst (FrameManager_poll now clock m)) @ outstanding (snd (FrameManager_poll now clock m))
      = outstanding m"
    using assms
    by (auto simp: FrameManager_poll_def Let_def outstanding_def event_answers_def nav_inv_def ok
        split: option.splits list.splits prod.splits if_splits)
  show "nav_inv (snd (FrameManager_poll now clock m))"
    using assms by (auto simp: FrameManager_poll_def Let_def nav_inv_def
        split: option.splits list.splits prod.splits if_splits)
qed

lemma goto_queue:
  "outstanding (FrameManager_goto req m) = outstanding m @ map fn_id (nav_accepted m (Goto req))"
  "nav_inv m \<Longrightarrow> nav_inv (FrameManager_goto req m)"
  by (auto simp: FrameManager_goto_def navigate_frame_def Let_def outstanding_def nav_inv_def split: option.split)

lemma navigation_step:
  assumes "nav_inv m"
  shows "nav_inv (fm_step wn m e)"
    and "nav_answered m e @ outstanding (fm_step wn m e) = outstanding m @ map fn_id (nav_accepted m e)"
proof -
  have "nav_inv (fm_step wn m e) \<and>
      nav_answered m e @ outstanding (fm_step wn m e) = outstanding m @ map fn_id (nav_accepted m e)"
  proof (cases "(\<exists>r. e = Goto r) \<or> (\<exists>now clock. e = PollFrames now clock)")
    case True
    with assms show ?thesis by (auto simp: poll_queue goto_queue simp del: nav_accepted.simps(1))
  next
    case False
    then have "same_navigations (fm_step wn m e) m" by (intro other_navigations) auto
    moreover from False have "nav_answered m e = []" "nav_accepted m e = []" by (cases e; auto)+
    ultimately show ?thesis using assms by (simp add: same_navigations_inv same_navigations_outstanding)
  qed
  then show "nav_inv (fm_step wn m e)"
    "nav_answered m e @ outstanding (fm_step wn m e) = outstanding m @ map fn_id (nav_accepted m e)" by auto
qed

interpretation answers: fifo_machine "fm_step wn" nav_inv outstanding nav_answered
    "\<lambda>m e. map fn_id (nav_accepted m e)" for wn
  by unfold_locales (rule navigation_step; assumption)+

text \<open>The same for what is sent out: requests leave in the order of the \<open>goto\<close> calls.\<close>

definition unsent :: "frame_manager \<Rightarrow> (navigation_id \<times> cdp_request) list" where
  "unsent m = map (\<lambda>(req, _). (fn_id req, fn_req req)) (fm_pending_navigations m)"

lemma unsent_step: "nav_sent m e @ unsent (fm_step wn m e) = unsent m @ map (\<lambda>req. (fn_id req, fn_req req)) (nav_accepted m e)"
proof (cases "(\<exists>r. e = Goto r) \<or> (\<exists>now clock. e = PollFrames now clock)")
  case True
  then show ?thesis
    by (auto simp: FrameManager_poll_def FrameManager_goto_def navigate_frame_def Let_def unsent_def event_requests_def
        split: option.split list.split prod.split)
next
  case False
  then have "same_navigations (fm_step wn m e) m" by (intro other_navigations) auto
  moreover from False have "nav_sent m e = []" "nav_accepted m e = []" by (cases e; auto)+
  ultimately show ?thesis by (simp add: same_navigations_def unsent_def)
qed

interpretation requests: fifo_machine "fm_step wn" "\<lambda>_. True" unsent nav_sent
    "\<lambda>m e. map (\<lambda>req. (fn_id req, fn_req req)) (nav_accepted m e)" for wn
  by unfold_locales (auto simp: unsent_step)

section \<open>No navigation waits for ever\<close>

text \<open>How many polls the outstanding navigations may still need.\<close>

definition nav_work :: "frame_manager \<Rightarrow> nat" where
  "nav_work m = 2 * length (fm_pending_navigations m) + (if fm_navigation m = None then 0 else 1)"

text \<open>Polls that are more than the longest timeout apart, the first after the time \<open>d\<close>.\<close>

fun spaced :: "duration \<Rightarrow> instant \<Rightarrow> instant list \<Rightarrow> bool" where
  "spaced D d [] = True"
| "spaced D d (t # ts) = (d < t \<and> spaced D (t + D) ts)"

definition due_by :: "duration \<Rightarrow> instant \<Rightarrow> frame_manager \<Rightarrow> bool" where
  "due_by D d m \<longleftrightarrow> (\<forall>w e. fm_navigation m = Some (w, e) \<longrightarrow> e \<le> d) \<and>
     (\<forall>(req, w) \<in> set (fm_pending_navigations m). fn_timeout req \<le> D)"

lemma late_poll:
  assumes "due_by D d m" and "d < t"
  shows "due_by D (t + D) (snd (FrameManager_poll t t m))"
    and "nav_work (snd (FrameManager_poll t t m)) = nav_work m - 1"
  using assms by (auto simp: FrameManager_poll_def Let_def due_by_def nav_work_def
      split: option.split list.split prod.split)

lemma nav_work_0: "nav_work m = 0 \<longleftrightarrow> outstanding m = []"
  by (auto simp: nav_work_def outstanding_def split: option.split)

lemma late_polls:
  "due_by D d m \<Longrightarrow> spaced D d ts \<Longrightarrow> nav_work m \<le> length ts \<Longrightarrow>
    outstanding (run (fm_step wn) m (map (\<lambda>t. PollFrames t t) ts)) = []"
proof (induction ts arbitrary: d m)
  case Nil
  then show ?case by (simp flip: nav_work_0)
next
  case (Cons t ts)
  then have "d < t" by simp
  with late_poll [OF Cons.prems(1) this] Cons.IH [of "t + D" "snd (FrameManager_poll t t m)"] Cons.prems
  show ?case by simp
qed

section \<open>Counting the navigations of the main frame\<close>

fun tree_roots :: "frame_tree \<Rightarrow> nat" where
  "tree_roots (FrameTree cf children) = (if cf_parent_id cf = None then 1 else 0) +
     (case children of None \<Rightarrow> 0 | Some ts \<Rightarrow> sum_list (map tree_roots ts))"

text \<open>The main-frame navigations since the last accepted \<open>goto\<close>.\<close>

fun count_navigations :: "nat \<Rightarrow> frame_manager \<Rightarrow> fm_input \<Rightarrow> nat" where
  "count_navigations n m (FrameNavigated cf) = n + (if cf_parent_id cf = None then 1 else 0)"
| "count_navigations n m (GotFrameTree t) = n + tree_roots t"
| "count_navigations n m (Goto req) = (if fm_main_frame m = None then n else 0)"
| "count_navigations n m _ = n"

fun navigations_since_goto :: "(frame_id \<Rightarrow> string) \<Rightarrow> nat \<Rightarrow> frame_manager \<Rightarrow> fm_input list \<Rightarrow> nat" where
  "navigations_since_goto wn n m [] = n"
| "navigations_since_goto wn n m (e # es) = navigations_since_goto wn (count_navigations n m e) (fm_step wn m e) es"

definition nav_count :: "frame_manager \<Rightarrow> nat" where
  "nav_count m = unat (fm_main_frame_nav_count m)"

lemma nav_count_update [simp]:
  "nav_count (m\<lparr>fm_frames := x1\<rparr>) = nav_count m"
  "nav_count (m\<lparr>fm_context_ids := x2\<rparr>) = nav_count m"
  "nav_count (m\<lparr>fm_isolated_worlds := x3\<rparr>) = nav_count m"
  "nav_count (m\<lparr>fm_pending_navigations := x4\<rparr>) = nav_count m"
  "nav_count (m\<lparr>fm_navigation := x5\<rparr>) = nav_count m"
  "nav_count (m\<lparr>fm_max_main_frame_navigations := x6\<rparr>) = nav_count m"
  "nav_count (m\<lparr>fm_main_frame_nav_count := x7\<rparr>) = unat x7"
  by (simp_all add: nav_count_def)

lemma nav_count_navigated:
  "nav_count (on_frame_navigated wn cf m) =
    (if cf_parent_id cf = None then min (nav_count m + 1) (2 ^ 32 - 1) else nav_count m)"
  by (auto simp: nav_count_def on_frame_navigated_def child_frame_navigated_def main_frame_navigated_def Let_def
      unat_saturating_inc32 split: option.split)

lemma nav_count_attached [simp]: "nav_count (on_frame_attached i p m) = nav_count m"
  by (auto simp: nav_count_def on_frame_attached_def split: option.split prod.split)

lemma nav_count_bound [simp]: "nav_count m \<le> 2 ^ 32 - 1"
proof -
  have "unat (fm_main_frame_nav_count m) < 2 ^ 32" using unsigned_less [of "fm_main_frame_nav_count m"] by simp
  then show ?thesis by (simp add: nav_count_def)
qed

lemma nav_count_tree: "nav_count (on_frame_tree wn t m) = min (nav_count m + tree_roots t) (2 ^ 32 - 1)"
proof (induction wn t m rule: on_frame_tree.induct)
  case (1 wn cf children m)
  let ?m = "on_frame_navigated wn cf (on_frame_attached (cf_id cf) (cf_parent_id cf) m)"
  have fold: "nav_count (fold (on_frame_tree wn) ts m') = min (nav_count m' + sum_list (map tree_roots ts)) (2 ^ 32 - 1)"
    if "children = Some ts0" "set ts \<subseteq> set ts0" for ts0 ts m'
    using that
  proof (induction ts arbitrary: m')
    case Nil
    then show ?case using nav_count_bound [of m'] by simp
  next
    case (Cons t ts)
    with "1.IH" have "nav_count (on_frame_tree wn t m') = min (nav_count m' + tree_roots t) (2 ^ 32 - 1)" by auto
    with Cons show ?case by simp
  qed
  have start: "nav_count ?m = min (nav_count m + (if cf_parent_id cf = None then 1 else 0)) (2 ^ 32 - 1)"
    using nav_count_bound [of m] by (simp add: nav_count_navigated)
  show ?case
  proof (cases children)
    case None
    with start show ?thesis by (simp add: Let_def)
  next
    case (Some ts)
    with fold [OF Some order_refl, of ?m] start show ?thesis by (simp add: Let_def)
  qed
qed

lemma nav_count_step:
  assumes "nav_count m = min n (2 ^ 32 - 1)"
  shows "nav_count (fm_step wn m e) = min (count_navigations n m e) (2 ^ 32 - 1)"
proof (cases e)
  case (PollFrames now clock)
  with assms show ?thesis by (auto simp: FrameManager_poll_def Let_def split: option.split list.split prod.split)
qed (use assms in \<open>auto simp: nav_count_navigated nav_count_tree on_frame_detached_def
    remove_frames_recursively_def on_frame_execution_context_created_def FrameManager_goto_def navigate_frame_def
    on_frame_navigated_within_document_def on_frame_stopped_loading_def on_frame_started_loading_def
    on_page_lifecycle_event_def on_frame_execution_context_destroyed_def on_execution_contexts_cleared_def
    evict_stale_context_ids_def on_http_request_finished_def ensure_isolated_world_def
    set_max_main_frame_navigations_def Let_def split: option.split\<close>)

lemma nav_count_run:
  "nav_count m = min n (2 ^ 32 - 1) \<Longrightarrow>
    nav_count (run (fm_step wn) m es) = min (navigations_since_goto wn n m es) (2 ^ 32 - 1)"
proof (induction es arbitrary: n m)
  case (Cons e es)
  from Cons.IH [OF nav_count_step [OF Cons.prems]] show ?case by simp
qed simp

lemma new_nav_count: "nav_count (FrameManager_new t) = 0"
  by (simp add: nav_count_def FrameManager_new_def)

lemma new_outstanding: "outstanding (FrameManager_new t) = []" "unsent (FrameManager_new t) = []"
  "nav_inv (FrameManager_new t)"
  by (simp_all add: FrameManager_new_def outstanding_def unsent_def nav_inv_def)

lemma navigations_conserved:
  "collect (fm_step wn) nav_answered (FrameManager_new t) es @ outstanding (run (fm_step wn) (FrameManager_new t) es)
     = map fn_id (collect (fm_step wn) nav_accepted (FrameManager_new t) es)"
  using answers.run_conserve [OF new_outstanding(3)] by (simp add: new_outstanding collect_map)

section \<open>Properties\<close>

text \<open>C1 (every navigation is answered exactly once, in order). Over any run of a fresh frame
  manager, the identifiers answered by \<open>poll\<close>, followed by those still outstanding, are the
  identifiers of the accepted \<open>goto\<close> calls in the order of the calls: no navigation is lost,
  answered twice or overtaken.\<close>

theorem navigations_answered_in_order:
  "collect (fm_step wn) nav_answered (FrameManager_new t) es @ outstanding (run (fm_step wn) (FrameManager_new t) es)
     = map fn_id (collect (fm_step wn) nav_accepted (FrameManager_new t) es)"
  by (rule navigations_conserved)

text \<open>Requests go out in order. Over any run of a fresh frame manager, the navigation requests
  handed out by \<open>poll\<close> are, in order, a prefix of the accepted \<open>goto\<close> requests, each with the
  frame id filled in, and what is missing is what is still queued.\<close>

theorem navigation_requests_in_order:
  "collect (fm_step wn) nav_sent (FrameManager_new t) es @ unsent (run (fm_step wn) (FrameManager_new t) es)
     = map (\<lambda>req. (fn_id req, fn_req req)) (collect (fm_step wn) nav_accepted (FrameManager_new t) es)"
  using requests.run_conserve [of wn "FrameManager_new t" es] by (simp add: new_outstanding collect_map)

text \<open>C10 (no navigation waits for ever). Whatever happened before, polls that are further apart than
  the longest timeout, twice as many as there are outstanding navigations, leave none of them
  unanswered: all accepted navigations have their answer.\<close>

theorem navigations_eventually_answered:
  assumes "due_by D d (run (fm_step wn) (FrameManager_new t) es)" and "spaced D d ts"
    and "nav_work (run (fm_step wn) (FrameManager_new t) es) \<le> length ts"
  shows "collect (fm_step wn) nav_answered (FrameManager_new t) (es @ map (\<lambda>t. PollFrames t t) ts)
     = map fn_id (collect (fm_step wn) nav_accepted (FrameManager_new t) (es @ map (\<lambda>t. PollFrames t t) ts))"
  using navigations_conserved [of wn t "es @ map (\<lambda>t. PollFrames t t) ts"] late_polls [OF assms]
  by (simp add: run_append)

definition demo_frame :: cdp_frame where
  "demo_frame = \<lparr>cf_id = ''F'', cf_parent_id = None, cf_name = None, cf_url = ''u'', cf_url_fragment = None\<rparr>"

definition demo_goto :: frame_requested_navigation where
  "demo_goto = FrameRequestedNavigation_new 7 (Request_new ''Page.navigate'' (JObject [])) 10"

lemma navigations_eventually_answered_witness:
  "collect (fm_step (\<lambda>_. ''w'')) nav_answered (FrameManager_new 5)
      ([FrameNavigated demo_frame, Goto demo_goto, Goto demo_goto] @ map (\<lambda>t. PollFrames t t) [1, 20, 40, 60])
     = map fn_id (collect (fm_step (\<lambda>_. ''w'')) nav_accepted (FrameManager_new 5)
      ([FrameNavigated demo_frame, Goto demo_goto, Goto demo_goto] @ map (\<lambda>t. PollFrames t t) [1, 20, 40, 60]))"
proof (rule navigations_eventually_answered)
  show "due_by 10 0 (run (fm_step (\<lambda>_. ''w'')) (FrameManager_new 5) [FrameNavigated demo_frame, Goto demo_goto, Goto demo_goto])"
    by (simp add: due_by_def demo_frame_def demo_goto_def FrameManager_new_def on_frame_navigated_def
        main_frame_navigated_def Let_def FrameManager_goto_def navigate_frame_def Frame_new_def Frame_navigated_def
        FrameRequestedNavigation_new_def)
  show "spaced 10 0 [1, 20, 40, 60]" by simp
  show "nav_work (run (fm_step (\<lambda>_. ''w'')) (FrameManager_new 5) [FrameNavigated demo_frame, Goto demo_goto, Goto demo_goto])
      \<le> length [1 :: instant, 20, 40, 60]"
    by (simp add: nav_work_def demo_frame_def FrameManager_new_def on_frame_navigated_def
        main_frame_navigated_def Let_def FrameManager_goto_def navigate_frame_def Frame_new_def Frame_navigated_def)
qed

text \<open>The navigation cap. With a cap configured, the next poll fails the navigation under way
  with \<open>TooManyNavigations\<close> exactly when the main frame navigated more often than the cap since the
  last accepted \<open>goto\<close>; the count saturates at the largest \<open>u32\<close> instead of wrapping to zero.\<close>

theorem too_many_navigations_iff:
  fixes es wn t
  defines "m \<equiv> run (fm_step wn) (FrameManager_new t) es"
  assumes "fm_navigation m = Some (w, d)" and "fm_max_main_frame_navigations m = Some cap"
  shows "fst (FrameManager_poll now clock m) = Some (NavigationResult (Inl (NavTooManyNavigations (nw_id w) n))) \<longleftrightarrow>
    unat cap < min (navigations_since_goto wn 0 (FrameManager_new t) es) (2 ^ 32 - 1) \<and>
    unat n = min (navigations_since_goto wn 0 (FrameManager_new t) es) (2 ^ 32 - 1)"
proof -
  have "unat (fm_main_frame_nav_count m) = min (navigations_since_goto wn 0 (FrameManager_new t) es) (2 ^ 32 - 1)"
    using nav_count_run [of "FrameManager_new t" 0 wn es] by (simp add: nav_count_def m_def FrameManager_new_def)
  moreover have "fst (FrameManager_poll now clock m) = Some (NavigationResult (Inl (NavTooManyNavigations (nw_id w) n)))
      \<longleftrightarrow> cap < fm_main_frame_nav_count m \<and> n = fm_main_frame_nav_count m"
    using assms(2,3) by (auto simp: FrameManager_poll_def Let_def split: option.split)
  ultimately show ?thesis by (simp only: word_less_nat_alt word_unat_eq_iff [of n])
qed

definition demo_capped :: "fm_input list" where
  "demo_capped = [SetMaxNavigations (Some 1), FrameNavigated demo_frame, Goto demo_goto, PollFrames 1 1,
     FrameNavigated demo_frame, FrameNavigated demo_frame]"

lemma too_many_navigations_iff_witness:
  "fst (FrameManager_poll 2 2 (run (fm_step (\<lambda>_. ''w'')) (FrameManager_new 5) demo_capped))
     = Some (NavigationResult (Inl (NavTooManyNavigations 7 2)))"
proof -
  let ?m = "run (fm_step (\<lambda>_. ''w'')) (FrameManager_new 5) demo_capped"
  have w: "fm_navigation ?m = Some (until_load 7 ''F'' None, 11)" "fm_max_main_frame_navigations ?m = Some 1"
    by (simp_all add: demo_capped_def demo_frame_def demo_goto_def FrameManager_new_def on_frame_navigated_def
        main_frame_navigated_def Let_def FrameManager_goto_def navigate_frame_def Frame_new_def Frame_navigated_def
        FrameRequestedNavigation_new_def set_max_main_frame_navigations_def FrameManager_poll_def)
  have "navigations_since_goto (\<lambda>_. ''w'') 0 (FrameManager_new 5) demo_capped = 2"
    by (simp add: demo_capped_def demo_frame_def FrameManager_new_def on_frame_navigated_def
        main_frame_navigated_def Let_def set_max_main_frame_navigations_def Frame_new_def Frame_navigated_def)
  then show ?thesis using too_many_navigations_iff [OF w, of 2 2 2] by simp
qed

text \<open>What a positive answer means. The navigation under way is answered as a new document
  exactly when it is within its cap and its deadline, its frame is there with every expected
  lifecycle event observed (or the frame never had a URL and its DOM is loaded), the frame's loader differs from the one it had when the navigation was
  requested, and no same-document navigation was seen.\<close>

theorem new_document_iff:
  assumes "fm_navigation m = Some (w, d)"
  shows "fst (FrameManager_poll now clock m) = Some (NavigationResult (Inr (NewDocumentNavigation (nw_id w)))) \<longleftrightarrow>
    (\<forall>cap. fm_max_main_frame_navigations m = Some cap \<longrightarrow> fm_main_frame_nav_count m \<le> cap) \<and> now \<le> d \<and>
    (\<exists>f. hm_get (fm_frames m) (nw_frame_id w) = Some f \<and>
      (nw_expected_lifecycle w \<subseteq> fr_lifecycle_events f \<or>
       fr_url f = None \<and> ''DOMContentLoaded'' \<in> fr_lifecycle_events f) \<and>
      fr_loader_id f \<noteq> nw_loader_id w \<and> \<not> nw_same_document_navigation w)"
  using assms by (auto simp: FrameManager_poll_def Let_def check_lifecycle_complete_def check_lifecycle_def
      not_less not_le split: option.splits)

definition demo_loaded :: "fm_input list" where
  "demo_loaded = [FrameNavigated demo_frame, Goto demo_goto, PollFrames 1 1,
     LifecycleEvent ''F'' ''L'' ''init'', LifecycleEvent ''F'' ''L'' ''load'']"

lemma new_document_iff_witness:
  "fst (FrameManager_poll 2 2 (run (fm_step (\<lambda>_. ''w'')) (FrameManager_new 5) demo_loaded))
     = Some (NavigationResult (Inr (NewDocumentNavigation 7)))"
proof -
  let ?m = "run (fm_step (\<lambda>_. ''w'')) (FrameManager_new 5) demo_loaded"
  note run = demo_loaded_def demo_frame_def demo_goto_def FrameManager_new_def on_frame_navigated_def
    main_frame_navigated_def FrameManager_goto_def navigate_frame_def Frame_new_def Frame_navigated_def
    FrameRequestedNavigation_new_def FrameManager_poll_def on_page_lifecycle_event_def
  have w: "fm_navigation ?m = Some (until_load 7 ''F'' None, 11)"
    by (simp add: run Let_def)
  have m: "fm_max_main_frame_navigations ?m = None"
    "\<exists>f. hm_get (fm_frames ?m) ''F'' = Some f \<and> fr_lifecycle_events f = {''init'', ''load''} \<and> fr_loader_id f = Some ''L''"
    by (auto simp: run Let_def)
  show ?thesis
    using m new_document_iff [OF w, of 2 2] by (auto simp: until_load_def until_lifecycle_def)
qed

end
