(* ===== verification/Worlds.thy ===== *)
theory Worlds
  imports Frame_Machine
begin

text \<open>
  Isolated worlds and execution contexts: which worlds the frame manager considers created, what
  \<open>ensure_isolated_world\<close> submits, and which contexts a frame keeps when contexts are destroyed or
  cleared.
\<close>

section \<open>The worlds that exist\<close>

text \<open>The worlds created or asked for since the contexts were last cleared.\<close>

fun worlds_after :: "string set \<Rightarrow> fm_input \<Rightarrow> string set" where
  "worlds_after ws ContextsCleared = {}"
| "worlds_after ws (EnsureIsolatedWorld s w) = insert w ws"
| "worlds_after ws (ContextCreated ctx) = (if aux_is_isolated ctx then insert (ec_name ctx) ws else ws)"
| "worlds_after ws _ = ws"

lemma worlds_step: "fm_isolated_worlds (fm_step wn m e) = worlds_after (fm_isolated_worlds m) e"
proof (cases e)
  case (GotFrameTree t)
  have nav: "fm_isolated_worlds (on_frame_navigated wn cf m) = fm_isolated_worlds m" for wn cf m
    by (auto simp: on_frame_navigated_def child_frame_navigated_def main_frame_navigated_def Let_def
        split: option.split)
  have att: "fm_isolated_worlds (on_frame_attached i p m) = fm_isolated_worlds m" for i p m
    by (auto simp: on_frame_attached_def split: option.split prod.split)
  have fold: "fm_isolated_worlds (fold f ts m) = fm_isolated_worlds m"
    if "\<And>t m. t \<in> set ts \<Longrightarrow> fm_isolated_worlds (f t m) = fm_isolated_worlds m" for f :: "frame_tree \<Rightarrow> _" and ts m
    by (rule fold_inv [of ts "\<lambda>m'. fm_isolated_worlds m' = fm_isolated_worlds m"]) (auto simp: that)
  have "fm_isolated_worlds (on_frame_tree wn t m) = fm_isolated_worlds m"
  proof (induction wn t m rule: on_frame_tree.induct)
    case (1 wn cf children m)
    then show ?case by (cases children) (simp_all add: Let_def nav att fold)
  qed
  with GotFrameTree show ?thesis by simp
qed (auto simp: on_frame_attached_def on_frame_detached_def remove_frames_recursively_def on_frame_navigated_def
    child_frame_navigated_def main_frame_navigated_def on_frame_navigated_within_document_def
    on_frame_stopped_loading_def on_frame_started_loading_def on_page_lifecycle_event_def
    on_frame_execution_context_created_def on_frame_execution_context_destroyed_def
    on_execution_contexts_cleared_def evict_stale_context_ids_def on_http_request_finished_def FrameManager_goto_def
    navigate_frame_def FrameManager_poll_def ensure_isolated_world_def set_max_main_frame_navigations_def Let_def
    split: option.split prod.split list.split)

lemma worlds_run: "fm_isolated_worlds (run (fm_step wn) m es) = fold (\<lambda>e ws. worlds_after ws e) es (fm_isolated_worlds m)"
  by (induction es arbitrary: m) (simp_all add: worlds_step)

section \<open>Contexts\<close>

definition world_ids :: "frame \<Rightarrow> string option \<times> string option" where
  "world_ids f = (execution_ctx_unique_id (fr_main_world f), execution_ctx_unique_id (fr_secondary_world f))"

definition frame_contexts :: "frame \<Rightarrow> string set" where
  "frame_contexts f = set_option (fst (world_ids f)) \<union> set_option (snd (world_ids f))"

text \<open>Every context a frame holds is registered for the key the frame is stored under, and the two
  worlds of a frame never share one.\<close>

definition registered :: "frame_manager \<Rightarrow> bool" where
  "registered m \<longleftrightarrow> (\<forall>i f. hm_get (fm_frames m) i = Some f \<longrightarrow>
     (\<forall>u \<in> frame_contexts f. hm_get (fm_context_ids m) u = Some i) \<and>
     (\<forall>u. world_ids f \<noteq> (Some u, Some u)))"

text \<open>
  What the browser is assumed to do: a created context has an id no frame holds, and a main frame
  that changes its id holds no context at that moment. (The second is needed: the manager does not
  re-register contexts under the new id.)
\<close>

fun no_roots :: "frame_tree \<Rightarrow> bool" where
  "no_roots (FrameTree cf children) \<longleftrightarrow> cf_parent_id cf \<noteq> None \<and>
     (case children of None \<Rightarrow> True | Some ts \<Rightarrow> list_all no_roots ts)"

definition swap_ok :: "cdp_frame \<Rightarrow> frame_manager \<Rightarrow> bool" where
  "swap_ok cf m \<longleftrightarrow> cf_parent_id cf = None \<longrightarrow> fm_main_frame m = Some (cf_id cf) \<or>
     (case FrameManager_main_frame m of None \<Rightarrow> True | Some f \<Rightarrow> world_ids f = (None, None))"

fun context_events_ok :: "frame_manager \<Rightarrow> fm_input \<Rightarrow> bool" where
  "context_events_ok m (ContextCreated ctx) \<longleftrightarrow>
     list_all (\<lambda>f. ec_unique_id ctx \<notin> frame_contexts f) (hm_values (fm_frames m))"
| "context_events_ok m (FrameNavigated cf) \<longleftrightarrow> swap_ok cf m"
| "context_events_ok m (GotFrameTree t) \<longleftrightarrow>
     swap_ok (ft_frame t) (on_frame_attached (cf_id (ft_frame t)) (cf_parent_id (ft_frame t)) m) \<and>
     (case ft_child_frames t of None \<Rightarrow> True | Some ts \<Rightarrow> list_all no_roots ts)"
| "context_events_ok m _ \<longleftrightarrow> True"

fun always :: "('s \<Rightarrow> 'e \<Rightarrow> 's) \<Rightarrow> ('s \<Rightarrow> 'e \<Rightarrow> bool) \<Rightarrow> 's \<Rightarrow> 'e list \<Rightarrow> bool" where
  "always step P s [] \<longleftrightarrow> True"
| "always step P s (e # es) \<longleftrightarrow> P s e \<and> always step P (step s e) es"

text \<open>A step that leaves each frame its contexts, or no contexts.\<close>

definition contexts_kept :: "(frame_id, frame) hash_map \<Rightarrow> (frame_id, frame) hash_map \<Rightarrow> bool" where
  "contexts_kept fs' fs \<longleftrightarrow> (\<forall>k f'. hm_get fs' k = Some f' \<longrightarrow> world_ids f' = (None, None) \<or>
     (\<exists>f. hm_get fs k = Some f \<and> world_ids f = world_ids f'))"

lemma contexts_kept_refl [simp]: "contexts_kept fs fs"
  by (simp add: contexts_kept_def)

lemma contexts_kept_registered:
  assumes "registered m" and "contexts_kept (fm_frames m') (fm_frames m)"
    and "\<And>u i. hm_get (fm_context_ids m) u = Some i \<Longrightarrow> hm_get (fm_frames m') i \<noteq> None \<Longrightarrow>
      hm_get (fm_context_ids m') u = Some i"
  shows "registered m'"
  unfolding registered_def
proof (intro allI impI)
  fix i f assume f: "hm_get (fm_frames m') i = Some f"
  from assms(2) f consider "world_ids f = (None, None)"
    | f0 where "hm_get (fm_frames m) i = Some f0" "world_ids f0 = world_ids f"
    unfolding contexts_kept_def by blast
  then show "(\<forall>u \<in> frame_contexts f. hm_get (fm_context_ids m') u = Some i) \<and> (\<forall>u. world_ids f \<noteq> (Some u, Some u))"
  proof cases
    case 1
    then show ?thesis by (simp add: frame_contexts_def)
  next
    case (2 f0)
    with assms(1) have "\<forall>u \<in> frame_contexts f0. hm_get (fm_context_ids m) u = Some i"
      "\<forall>u. world_ids f0 \<noteq> (Some u, Some u)" unfolding registered_def by blast+
    with 2 assms(3) f show ?thesis by (simp add: frame_contexts_def)
  qed
qed

lemma world_ids_update [simp]:
  "world_ids (f\<lparr>fr_child_frames := a\<rparr>) = world_ids f"
  "world_ids (f\<lparr>fr_id := b\<rparr>) = world_ids f"
  "world_ids (Frame_navigated cf f) = world_ids f"
  "world_ids (Frame_navigated_within_url u f) = world_ids f"
  "world_ids (on_loading_stopped f) = world_ids f"
  "world_ids (on_loading_started f) = world_ids f"
  "world_ids (set_request r f) = world_ids f"
  "world_ids (f\<lparr>fr_lifecycle_events := c\<rparr>) = world_ids f"
  "world_ids (f\<lparr>fr_loader_id := d\<rparr>) = world_ids f"
  "world_ids (Frame_new wn i) = (None, None)"
  "world_ids (fst (Frame_with_parent i f)) = (None, None)"
  "world_ids (clear_contexts f) = (None, None)"
  by (simp_all add: world_ids_def Frame_navigated_def Frame_navigated_within_url_def on_loading_stopped_def
      on_loading_started_def set_request_def Frame_new_def Frame_with_parent_def main_world_def clear_contexts_def
      take_context_def)

lemma subframes_contexts: "subframes fs' fs \<Longrightarrow> contexts_kept fs' fs"
  unfolding contexts_kept_def subframes_def by (metis world_ids_update(1))

lemma modify_contexts: "(\<And>f. world_ids (g f) = world_ids f) \<Longrightarrow> contexts_kept (hm_modify i g fs) fs"
  by (auto simp: contexts_kept_def split: if_splits)

lemma attached_registered:
  assumes "registered m"
  shows "registered (on_frame_attached i p m)"
  by (rule contexts_kept_registered [OF assms])
    (auto simp: contexts_kept_def on_frame_attached_def Frame_with_parent_def world_ids_def main_world_def
      split: option.splits if_splits)

lemma child_navigated_registered:
  assumes "registered m"
  shows "registered (child_frame_navigated cf m)"
proof (cases "hm_get (fm_frames m) (cf_id cf)")
  case (Some f)
  have "contexts_kept (remove_children (hm_remove (cf_id cf) (fm_frames m)) (fr_child_frames f)) (fm_frames m)"
    by (rule subframes_contexts) (meson remove_subframes(2) subframes_remove subframes_trans)
  with Some show ?thesis
    by (intro contexts_kept_registered [OF assms]) (auto simp: child_frame_navigated_def contexts_kept_def)
qed (use assms in \<open>simp add: child_frame_navigated_def\<close>)

lemma main_navigated_registered:
  assumes reg: "registered m" and swap: "swap_ok cf m" and root: "cf_parent_id cf = None"
  shows "registered (main_frame_navigated wn cf m)"
proof (rule contexts_kept_registered [OF reg])
  show "contexts_kept (fm_frames (main_frame_navigated wn cf m)) (fm_frames m)"
  proof (cases "FrameManager_main_frame m")
    case None
    then have "fm_frames (main_frame_navigated wn cf m)
        = hm_insert (cf_id cf) (Frame_navigated cf (Frame_new wn (cf_id cf))) (fm_frames m)"
      by (auto simp: main_frame_navigated_def FrameManager_main_frame_def Let_def Frame_navigated_def Frame_new_def
          split: option.splits bind_splits)
    then show ?thesis by (auto simp: contexts_kept_def split: if_splits)
  next
    case (Some mf)
    then obtain main where main: "fm_main_frame m = Some main" and mf: "hm_get (fm_frames m) main = Some mf"
      by (auto simp: FrameManager_main_frame_def bind_eq_Some_conv)
    let ?fs = "remove_children (hm_remove main (fm_frames m)) (fr_child_frames mf)"
    let ?f = "Frame_navigated cf (mf\<lparr>fr_child_frames := [], fr_id := cf_id cf\<rparr>)"
    have frames: "fm_frames (main_frame_navigated wn cf m) = hm_insert (cf_id cf) ?f ?fs"
      by (auto simp: main_frame_navigated_def Let_def main mf Frame_navigated_def split: option.splits)
    have "contexts_kept ?fs (fm_frames m)"
      by (rule subframes_contexts) (meson remove_subframes(2) subframes_remove subframes_trans)
    moreover have "world_ids ?f = (None, None) \<or> (main = cf_id cf \<and> world_ids ?f = world_ids mf)"
      using swap root Some main by (auto simp: swap_ok_def)
    ultimately show ?thesis unfolding frames contexts_kept_def using mf by auto
  qed
  show "hm_get (fm_context_ids (main_frame_navigated wn cf m)) u = Some i"
    if "hm_get (fm_context_ids m) u = Some i" for u i
    using that by (auto simp: main_frame_navigated_def Let_def split: option.split)
qed

lemma navigated_registered: "registered m \<Longrightarrow> swap_ok cf m \<Longrightarrow> registered (on_frame_navigated wn cf m)"
  by (simp add: on_frame_navigated_def main_navigated_registered child_navigated_registered)

lemma no_roots_registered: "registered m \<Longrightarrow> no_roots t \<Longrightarrow> registered (on_frame_tree wn t m)"
proof (induction wn t m rule: on_frame_tree.induct)
  case (1 wn cf children m)
  let ?m = "on_frame_navigated wn cf (on_frame_attached (cf_id cf) (cf_parent_id cf) m)"
  from 1 have start: "registered ?m"
    by (simp add: on_frame_navigated_def child_navigated_registered attached_registered)
  show ?case
  proof (cases children)
    case None
    with start show ?thesis by (simp add: Let_def)
  next
    case (Some ts)
    have "registered (fold (on_frame_tree wn) ts ?m)"
      using 1 Some by (intro fold_inv [of _ registered] start) (auto simp: list_all_iff)
    with Some show ?thesis by (simp add: Let_def)
  qed
qed

lemma tree_registered:
  assumes "registered m" and "context_events_ok m (GotFrameTree t)"
  shows "registered (on_frame_tree wn t m)"
proof (cases t)
  case (FrameTree cf children)
  with assms have start: "registered (on_frame_navigated wn cf (on_frame_attached (cf_id cf) (cf_parent_id cf) m))"
    by (simp add: navigated_registered attached_registered)
  show ?thesis
  proof (cases children)
    case None
    with start FrameTree show ?thesis by (simp add: Let_def)
  next
    case (Some ts)
    have "registered (fold (on_frame_tree wn) ts (on_frame_navigated wn cf (on_frame_attached (cf_id cf) (cf_parent_id cf) m)))"
      using assms(2) FrameTree Some by (intro fold_inv [of _ registered] start) (auto simp: list_all_iff no_roots_registered)
    with Some FrameTree show ?thesis by (simp add: Let_def)
  qed
qed

lemma created_world_ids:
  "world_ids (frame_context_created ctx f) \<in>
     {world_ids f, (Some (ec_unique_id ctx), snd (world_ids f)), (fst (world_ids f), Some (ec_unique_id ctx))}"
  by (simp add: frame_context_created_def world_ids_def set_context_def)

lemma created_contexts: "frame_contexts (frame_context_created ctx f) \<subseteq> insert (ec_unique_id ctx) (frame_contexts f)"
  using created_world_ids [of ctx f] by (auto simp: frame_contexts_def)

lemma created_distinct: "ec_unique_id ctx \<notin> frame_contexts f \<Longrightarrow> \<forall>u. world_ids f \<noteq> (Some u, Some u) \<Longrightarrow>
    world_ids (frame_context_created ctx f) \<noteq> (Some u, Some u)"
  using created_world_ids [of ctx f] by (cases "world_ids f") (auto simp: frame_contexts_def)

lemma insert_created_registered:
  assumes reg: "registered m" and i: "hm_get (fm_frames m) i = Some f"
    and fresh: "\<And>k h. hm_get (fm_frames m) k = Some h \<Longrightarrow> ec_unique_id ctx \<notin> frame_contexts h"
  shows "registered (m\<lparr>fm_frames := hm_insert i (frame_context_created ctx f) (fm_frames m),
      fm_context_ids := hm_insert (ec_unique_id ctx) i (fm_context_ids m)\<rparr>)" (is "registered ?m")
  unfolding registered_def
proof (intro allI impI)
  fix k h assume h: "hm_get (fm_frames ?m) k = Some h"
  note old = reg [unfolded registered_def, rule_format]
  show "(\<forall>u \<in> frame_contexts h. hm_get (fm_context_ids ?m) u = Some k) \<and> (\<forall>u. world_ids h \<noteq> (Some u, Some u))"
  proof (cases "k = i")
    case True
    with h have h: "h = frame_context_created ctx f" by simp
    have "hm_get (fm_context_ids ?m) u = Some i" if "u \<in> frame_contexts h" for u
      using that created_contexts [of ctx f] old [OF i] unfolding h by auto
    moreover have "world_ids h \<noteq> (Some u, Some u)" for u
      unfolding h using created_distinct [OF fresh [OF i]] old [OF i] by blast
    ultimately show ?thesis using True by simp
  next
    case False
    with h have h: "hm_get (fm_frames m) k = Some h" by simp
    from old [OF h] fresh [OF h] show ?thesis by auto
  qed
qed

lemma registered_worlds [simp]: "registered (m\<lparr>fm_isolated_worlds := X\<rparr>) = registered m"
  by (simp add: registered_def)

lemma created_registered:
  assumes inv: "frame_tree_inv m" and reg: "registered m" and ok: "context_events_ok m (ContextCreated ctx)"
  shows "registered (on_frame_execution_context_created ctx m)"
proof -
  have fresh: "ec_unique_id ctx \<notin> frame_contexts f" if "hm_get (fm_frames m) i = Some f" for i f
    using ok that by (auto simp: list_all_iff hm_values_iff)
  have id: "fr_id (frame_context_created ctx f) = i" if "hm_get (fm_frames m) i = Some f" for i f
    using inv that by (auto simp: frame_tree_inv_def forest_def ids_ok_def frame_context_created_def)
  show ?thesis
  proof (cases "Option.bind (aux_frame_id ctx) (\<lambda>i. map_option (Pair i) (hm_get (fm_frames m) i))")
    case None
    with reg show ?thesis
      by (auto simp: on_frame_execution_context_created_def Let_def split: option.split bind_splits)
  next
    case (Some x)
    then obtain i f where "aux_frame_id ctx = Some i" "hm_get (fm_frames m) i = Some f"
      by (auto simp: bind_eq_Some_conv)
    with insert_created_registered [OF reg _ fresh] id show ?thesis
      by (simp add: on_frame_execution_context_created_def Let_def)
  qed
qed

lemma destroyed_world_ids:
  "world_ids f \<noteq> (Some u, Some u) \<Longrightarrow> frame_contexts (destroy_context u f) = frame_contexts f - {u}"
  "\<forall>v. world_ids f \<noteq> (Some v, Some v) \<Longrightarrow> world_ids (destroy_context u f) \<noteq> (Some v, Some v)"
  by (auto simp: frame_contexts_def destroy_context_def world_ids_def take_context_def)

lemma destroyed_registered:
  assumes reg: "registered m"
  shows "registered (on_frame_execution_context_destroyed u m)"
proof (cases "hm_get (fm_context_ids m) u")
  case None
  with reg show ?thesis by (simp add: on_frame_execution_context_destroyed_def)
next
  case (Some i)
  note old = reg [unfolded registered_def, rule_format]
  have step: "on_frame_execution_context_destroyed u m = m\<lparr>fm_context_ids := hm_remove u (fm_context_ids m),
      fm_frames := hm_modify i (destroy_context u) (fm_frames m)\<rparr>" (is "_ = ?m")
    by (simp add: on_frame_execution_context_destroyed_def Some)
  show ?thesis
    unfolding step registered_def
  proof (intro allI impI)
    fix k h assume h: "hm_get (fm_frames ?m) k = Some h"
    show "(\<forall>v \<in> frame_contexts h. hm_get (fm_context_ids ?m) v = Some k) \<and> (\<forall>v. world_ids h \<noteq> (Some v, Some v))"
    proof (cases "k = i")
      case True
      with h obtain f where f: "hm_get (fm_frames m) i = Some f" "h = destroy_context u f" by auto
      with old [OF f(1)] destroyed_world_ids [of f u] True show ?thesis by auto
    next
      case False
      with h have h: "hm_get (fm_frames m) k = Some h" by simp
      with old [OF h] False Some show ?thesis by auto
    qed
  qed
qed

lemma get_cleared: "hm_get (fold (\<lambda>i. hm_modify i clear_contexts) is fs) k =
    (if k \<in> set is then map_option clear_contexts (hm_get fs k) else hm_get fs k)"
proof -
  have idem: "clear_contexts (clear_contexts f) = clear_contexts f" for f
    by (simp add: clear_contexts_def take_context_def)
  show ?thesis by (induction "is" arbitrary: fs) (auto simp: option.map_comp comp_def idem)
qed

text \<open>Clearing reaches every frame that holds a context, because it is registered.\<close>

lemma cleared_contexts:
  assumes "registered m" and "hm_get (fm_frames (on_execution_contexts_cleared m)) k = Some f"
  shows "world_ids f = (None, None)"
proof -
  from assms(2) obtain f0 where f0: "hm_get (fm_frames m) k = Some f0"
    and f: "f = (if k \<in> set (hm_values (fm_context_ids m)) then clear_contexts f0 else f0)"
    by (auto simp: on_execution_contexts_cleared_def get_cleared split: if_splits)
  show ?thesis
  proof (cases "k \<in> set (hm_values (fm_context_ids m))")
    case True
    with f show ?thesis by simp
  next
    case False
    with assms(1) f0 have "frame_contexts f0 = {}" unfolding registered_def hm_values_iff by blast
    with f False show ?thesis by (cases "world_ids f0") (auto simp: frame_contexts_def)
  qed
qed

text \<open>Any step of a well-behaved browser keeps the contexts registered.\<close>

lemma registered_step:
  assumes inv: "frame_tree_inv m" and reg: "registered m" and ok: "context_events_ok m e"
  shows "registered (fm_step wn m e)"
proof (cases e)
  case (FrameAttached i p)
  with reg show ?thesis by (simp add: attached_registered)
next
  case (FrameDetached i)
  then show ?thesis
    by (intro contexts_kept_registered [OF reg])
      (auto simp: on_frame_detached_def remove_frames_recursively_def subframes_contexts remove_subframes)
next
  case (FrameNavigated cf)
  with reg ok show ?thesis by (simp add: navigated_registered)
next
  case (GotFrameTree t)
  with reg ok show ?thesis by (simp del: context_events_ok.simps add: tree_registered)
next
  case (ContextCreated ctx)
  with inv reg ok show ?thesis by (simp del: context_events_ok.simps add: created_registered)
next
  case (ContextDestroyed u)
  with reg show ?thesis by (simp add: destroyed_registered)
next
  case ContextsCleared
  with cleared_contexts [OF reg] show ?thesis by (auto simp: registered_def frame_contexts_def)
next
  case (PollFrames now clock)
  then show ?thesis
    by (intro contexts_kept_registered [OF reg])
      (auto simp: FrameManager_poll_def Let_def split: option.split list.split prod.split)
next
  case (Goto req)
  then show ?thesis
    by (intro contexts_kept_registered [OF reg])
      (auto simp: FrameManager_goto_def navigate_frame_def Let_def split: option.split)
next
  case (RequestFinished r)
  then show ?thesis
    by (intro contexts_kept_registered [OF reg])
      (auto simp: on_http_request_finished_def modify_contexts split: option.split)
next
  case EvictStale
  then show ?thesis
    by (intro contexts_kept_registered [OF reg]) (auto simp: evict_stale_context_ids_def split: if_splits)
qed (auto intro!: contexts_kept_registered [OF reg] modify_contexts simp: on_frame_navigated_within_document_def
    on_frame_stopped_loading_def on_frame_started_loading_def on_page_lifecycle_event_def ensure_isolated_world_def
    set_max_main_frame_navigations_def Let_def)

lemma registered_run:
  "frame_tree_inv m \<Longrightarrow> registered m \<Longrightarrow> always (fm_step wn) context_events_ok m es \<Longrightarrow>
    registered (run (fm_step wn) m es)"
proof (induction es arbitrary: m)
  case (Cons e es)
  then have "registered (fm_step wn m e)" by (simp add: registered_step)
  with Cons show ?case by (simp add: fm_step_inv)
qed simp

lemma new_registered: "registered (FrameManager_new t)"
  by (simp add: registered_def FrameManager_new_def)

section \<open>Properties\<close>

text \<open>C33 (no stale execution context). Provided created contexts have ids no frame holds and a main
  frame changes its id only while it holds no context, then in any reachable state: after
  \<open>executionContextsCleared\<close> no frame holds a context, and after \<open>executionContextDestroyed\<close> no
  frame holds the destroyed one.\<close>

theorem no_stale_contexts:
  fixes wn t es
  defines "m \<equiv> run (fm_step wn) (FrameManager_new t) es"
  assumes "always (fm_step wn) context_events_ok (FrameManager_new t) es"
  shows "(\<forall>k f. hm_get (fm_frames (on_execution_contexts_cleared m)) k = Some f \<longrightarrow> frame_contexts f = {}) \<and>
    (\<forall>k f. hm_get (fm_frames (on_frame_execution_context_destroyed u m)) k = Some f \<longrightarrow> u \<notin> frame_contexts f)"
proof -
  have reg: "registered m" unfolding m_def by (rule registered_run [OF new_inv new_registered assms(2)])
  have "registered (on_frame_execution_context_destroyed u m)" by (rule destroyed_registered [OF reg])
  moreover have "hm_get (fm_context_ids (on_frame_execution_context_destroyed u m)) u = None"
    by (simp add: on_frame_execution_context_destroyed_def split: option.split)
  ultimately have "\<forall>k f. hm_get (fm_frames (on_frame_execution_context_destroyed u m)) k = Some f \<longrightarrow> u \<notin> frame_contexts f"
    unfolding registered_def by fastforce
  with cleared_contexts [OF reg] show ?thesis by (simp add: frame_contexts_def)
qed

definition demo_context :: execution_context where
  "demo_context = \<lparr>ec_id = 1, ec_name = '''', ec_unique_id = ''c'',
     ec_aux_data = Some (JObject [(''isDefault'', JBool True), (''frameId'', JString ''M'')])\<rparr>"

lemmas demo_context_run = demo_page_run demo_swap_def demo_context_def aux_frame_id_def aux_is_default_def aux_is_isolated_def
  json_index_def json_get_def on_frame_execution_context_created_def frame_context_created_def set_context_def world_ids_def
  frame_contexts_def main_world_def hm_values_def swap_ok_def FrameManager_main_frame_def
  on_execution_contexts_cleared_def clear_contexts_def take_context_def

lemma no_stale_contexts_witness:
  "\<exists>f. hm_get (fm_frames (on_execution_contexts_cleared
     (run (fm_step (\<lambda>_. ''w'')) (FrameManager_new 5) (demo_page @ [ContextCreated demo_context])))) ''M'' = Some f
     \<and> frame_contexts f = {}"
proof -
  have "always (fm_step (\<lambda>_. ''w'')) context_events_ok (FrameManager_new 5) (demo_page @ [ContextCreated demo_context])"
    by (simp add: demo_context_run list_all_iff hm_get_def hm_insert_def)
  note cleared = no_stale_contexts [OF this, of "''c''"]
  have "hm_get (fm_frames (on_execution_contexts_cleared
     (run (fm_step (\<lambda>_. ''w'')) (FrameManager_new 5) (demo_page @ [ContextCreated demo_context])))) ''M'' \<noteq> None"
    by (simp add: demo_context_run hm_defs)
  with cleared show ?thesis by blast
qed

text \<open>Without the assumption on renamed main frames a context survives being cleared.\<close>

lemma renamed_main_frame_keeps_context:
  "\<exists>f. hm_get (fm_frames (on_execution_contexts_cleared (run (fm_step (\<lambda>_. ''w'')) (FrameManager_new 5)
     [hd demo_page, ContextCreated demo_context, FrameNavigated demo_swap]))) ''N'' = Some f \<and> ''c'' \<in> frame_contexts f"
  by (simp add: demo_context_run hm_defs)

text \<open>Isolated worlds are created once. In any reachable state \<open>ensure_isolated_world\<close> submits
  nothing exactly when the world was already ensured or announced by the browser since the contexts
  were last cleared; otherwise it submits the script for new documents, then one
  \<open>Page.createIsolatedWorld\<close> for each frame.\<close>

theorem isolated_worlds_created_once:
  fixes wn t es
  defines "m \<equiv> run (fm_step wn) (FrameManager_new t) es"
  shows "(case fst (ensure_isolated_world url w m) of
      None \<Rightarrow> w \<in> fold (\<lambda>e ws. worlds_after ws e) es {}
    | Some chain \<Rightarrow> w \<notin> fold (\<lambda>e ws. worlds_after ws e) es {} \<and>
        (\<exists>ids. cc_cmds chain = command_pair (PageAddScriptToEvaluateOnNewDocument (''//# sourceURL='' @ url) w)
            # map (\<lambda>i. command_pair (PageCreateIsolatedWorld i w True)) ids \<and>
          distinct ids \<and> set ids = {i. hm_get (fm_frames m) i \<noteq> None}))"
proof -
  have "fm_isolated_worlds m = fold (\<lambda>e ws. worlds_after ws e) es {}"
    using worlds_run [of wn "FrameManager_new t" es] by (simp add: m_def FrameManager_new_def)
  then show ?thesis
    using hm.distinct_keys [of "fm_frames m"] hm.set_keys [of "fm_frames m"]
    by (auto simp: ensure_isolated_world_def CommandChain_new_def)
qed

end
