(* ===== verification/Url.thy ===== *)
theory Url
  imports Text
begin

text \<open>
  \<open>src/handler/network_utils.rs\<close>: taking the host out of a URL, base domains, and the test for
  subdomains that the network manager's first-party rule rests on.
\<close>

section \<open>Hosts\<close>

definition strip_special_schemes :: "string \<Rightarrow> string" where
  "strip_special_schemes url =
     (let url = (case strip_prefix ''blob:'' url of None \<Rightarrow> url | Some u \<Rightarrow> u)
      in (case strip_prefix ''filesystem:'' url of None \<Rightarrow> url | Some u \<Rightarrow> u))"

text \<open>Where the authority starts.\<close>

definition host_start :: "string \<Rightarrow> nat option" where
  "host_start url =
     (case memchr (CHR '':'') url of
        Some pos \<Rightarrow>
          if take 2 (drop (Suc pos) url) = ''//'' then Some (pos + 3)
          else if starts_with ''//'' url then Some 2
          else None
      | None \<Rightarrow> if starts_with ''//'' url then Some 2 else None)"

definition is_rest_start :: "char \<Rightarrow> bool" where
  "is_rest_start c = (c \<in> {CHR ''/'', CHR ''?'', CHR ''#''})"

definition host_and_rest :: "string \<Rightarrow> (string \<times> string) option" where
  "host_and_rest url0 =
     (let url = strip_special_schemes url0 in
      case host_start url of
        None \<Rightarrow> None
      | Some hs \<Rightarrow>
          let rest_start = (case find_first is_rest_start (drop hs url) of None \<Rightarrow> length url | Some i \<Rightarrow> hs + i);
              authority = drop hs (take rest_start url);
              rest = drop rest_start url
          in if authority = [] then None
             else
               let authority = (case memrchr (CHR ''@'') authority of
                     Some pos \<Rightarrow> drop (Suc pos) authority | None \<Rightarrow> authority)
               in if take 1 authority = ''[''
                  then (case memchr (CHR '']'') authority of
                      None \<Rightarrow> None
                    | Some close \<Rightarrow> Some (drop 1 (take close authority), rest))
                  else
                    let host_end = (case memchr (CHR '':'') authority of None \<Rightarrow> length authority | Some i \<Rightarrow> i);
                        host = take host_end authority
                    in if host = [] then None else Some (host, rest))"

definition ends_with_ignore_ascii_case :: "string \<Rightarrow> string \<Rightarrow> bool" where
  "ends_with_ignore_ascii_case hay suf =
     (if length suf > length hay then False
      else eq_ignore_ascii_case (drop (length hay - length suf) hay) suf)"

definition first_label :: "string \<Rightarrow> string" where
  "first_label host =
     (let h = trim_end_matches (CHR ''.'') host
      in case memchr (CHR ''.'') h of Some i \<Rightarrow> take i h | None \<Rightarrow> h)"

text \<open>\<open>host_contains_label_icase\<close>: the loop over the labels between dots.\<close>

definition skip_dots :: "string \<Rightarrow> string" where
  "skip_dots = dropWhile (\<lambda>c. c = CHR ''.'')"

function scan_labels :: "string \<Rightarrow> string \<Rightarrow> bool" where
  "scan_labels lb hb =
     (if hb = [] then False
      else let end_pos = (case memchr (CHR ''.'') hb of None \<Rightarrow> length hb | Some i \<Rightarrow> i)
      in if end_pos = length lb \<and> eq_ignore_ascii_case (take end_pos hb) lb then True
         else scan_labels lb (skip_dots (drop (Suc end_pos) hb)))"
  by pat_completeness auto

lemma length_skip_dots: "length (skip_dots s) \<le> length s"
  by (simp add: skip_dots_def length_dropWhile_le)

termination scan_labels
proof (relation "measure (\<lambda>(_, hb). length hb)")
  fix lb hb :: string and n
  assume "hb \<noteq> []"
  then show "((lb, skip_dots (drop (Suc n) hb)), (lb, hb)) \<in> measure (\<lambda>(_, hb). length hb)"
    using length_skip_dots [of "drop (Suc n) hb"] by (cases hb) auto
qed simp

declare scan_labels.simps [simp del]

definition host_contains_label_icase :: "string \<Rightarrow> string \<Rightarrow> bool" where
  "host_contains_label_icase host label =
     (let host = trim_end_matches (CHR ''.'') host;
          label = trim_start_matches (CHR ''.'') (trim_end_matches (CHR ''.'') label)
      in if host = [] \<or> label = [] then False
         else scan_labels label (skip_dots host))"

definition host_is_subdomain_of :: "string \<Rightarrow> string \<Rightarrow> bool" where
  "host_is_subdomain_of host base =
     (let host = trim_end_matches (CHR ''.'') host; base = trim_end_matches (CHR ''.'') base
      in if base = [] then False
         else if eq_ignore_ascii_case host base then True
         else if length host \<le> length base then False
         else host ! (length host - length base - 1) = CHR ''.'' \<and> ends_with_ignore_ascii_case host base)"

section \<open>Base domains\<close>

definition COMMON_SUBDOMAIN_LABELS :: "string list" where
  "COMMON_SUBDOMAIN_LABELS =
     [''www'', ''m'', ''amp'', ''api'', ''cdn'', ''static'', ''assets'', ''img'', ''images'', ''media'', ''files'',
      ''login'', ''auth'', ''sso'', ''id'', ''account'', ''accounts'',
      ''app'', ''apps'', ''dashboard'', ''admin'', ''portal'', ''console'',
      ''status'', ''support'', ''help'', ''docs'', ''blog'',
      ''dev'', ''staging'', ''stage'', ''test'', ''qa'', ''uat'', ''beta'', ''alpha'', ''preview'', ''demo'', ''sandbox'',
      ''uploads'', ''download'', ''storage'', ''origin'', ''edge'', ''cache'',
      ''mail'', ''email'', ''smtp'', ''mx'', ''webmail'',
      ''graphql'', ''rpc'', ''ws'']"

definition is_common_subdomain_label :: "string \<Rightarrow> bool" where
  "is_common_subdomain_label lbl =
     (if lbl = [] then False else ascii_lower lbl \<in> set COMMON_SUBDOMAIN_LABELS)"

definition is_common_cc_sld :: "string \<Rightarrow> bool" where
  "is_common_cc_sld sld =
     (if length sld = 2 then ascii_lower sld \<in> {''co'', ''ac'', ''go'', ''or'', ''ne'', ''ed'', ''gr'', ''lg'', ''ad''}
      else if length sld = 3 then
        ascii_lower sld \<in> {''com'', ''net'', ''org'', ''gov'', ''edu'', ''mil'', ''nic'', ''sch'', ''gob''}
      else if length sld = 4 then ascii_lower sld = ''gouv''
      else False)"

text \<open>The host without trailing dots and without a leading \<open>www.\<close>, then \<open>m.\<close>.\<close>

definition strip_www :: "string \<Rightarrow> string" where
  "strip_www host =
     (let h = trim_end_matches (CHR ''.'') host;
          h = (case strip_prefix ''www.'' h of Some x \<Rightarrow> x | None \<Rightarrow> h)
      in (case strip_prefix ''m.'' h of Some x \<Rightarrow> x | None \<Rightarrow> h))"

text \<open>The last two labels, or three when they look like a country-code registry.\<close>

definition registrable :: "string \<Rightarrow> nat \<Rightarrow> nat \<Rightarrow> string" where
  "registrable h prev_dot last_dot =
     (let tld = drop (Suc last_dot) h; sld = drop (Suc prev_dot) (take last_dot h)
      in if length tld = 2 \<and> is_common_cc_sld sld
         then (case memrchr (CHR ''.'') (take prev_dot h) of
             Some prev2_dot \<Rightarrow> drop (Suc prev2_dot) h
           | None \<Rightarrow> drop (Suc prev_dot) h)
         else drop (Suc prev_dot) h)"

definition base_domain_from_host :: "string \<Rightarrow> string" where
  "base_domain_from_host host =
     (let h = strip_www host in
      case memrchr (CHR ''.'') h of
        None \<Rightarrow> h
      | Some last_dot \<Rightarrow> (case memrchr (CHR ''.'') (take last_dot h) of
            None \<Rightarrow> h
          | Some prev_dot \<Rightarrow>
              let base = registrable h prev_dot last_dot in
              if length h > length base + 1
              then
                let boundary = length h - length base - 1 in
                if h ! boundary = CHR ''.''
                then
                  let left_part = take boundary h;
                      (lbl_start, lbl) = (case memrchr (CHR ''.'') left_part of
                          Some p \<Rightarrow> (Suc p, drop (Suc p) left_part)
                        | None \<Rightarrow> (0, left_part))
                  in if lbl \<noteq> [] \<and> \<not> is_common_subdomain_label lbl then drop lbl_start h else base
                else base
              else base))"

definition base_domain_from_any :: "string \<Rightarrow> string" where
  "base_domain_from_any s =
     (case host_and_rest s of Some (h, _) \<Rightarrow> base_domain_from_host h | None \<Rightarrow> base_domain_from_host s)"

definition base_domain_from_url :: "string \<Rightarrow> string option" where
  "base_domain_from_url main_url = map_option (\<lambda>(host, _). base_domain_from_host host) (host_and_rest main_url)"

definition rel_for_ignore_script :: "string \<Rightarrow> string \<Rightarrow> string" where
  "rel_for_ignore_script main_host_or_base url =
     (if starts_with ''/'' url then url
      else
        let base = trim_end_matches (CHR ''.'') (base_domain_from_host (trim_end_matches (CHR ''.'') main_host_or_base))
        in if base = [] then url
           else
             let brand = first_label base in
             (case host_and_rest url of
                Some (host, rest) \<Rightarrow>
                  if host_is_subdomain_of host base \<or> host_contains_label_icase host brand
                  then (if starts_with ''/'' rest then rest else ''/'')
                  else url
              | None \<Rightarrow> url))"

section \<open>Subdomains end at a dot\<close>

lemma ends_with_ignore_case_iff:
  "ends_with_ignore_ascii_case hay suf \<longleftrightarrow> (\<exists>p. ascii_lower hay = p @ ascii_lower suf)"
proof
  assume e: "ends_with_ignore_ascii_case hay suf"
  then have len: "length suf \<le> length hay" by (simp add: ends_with_ignore_ascii_case_def split: if_splits)
  from e have "drop (length hay - length suf) (ascii_lower hay) = ascii_lower suf"
    by (simp add: ends_with_ignore_ascii_case_def eq_ignore_ascii_case_def ascii_lower_drop split: if_splits)
  then have "ascii_lower hay = take (length hay - length suf) (ascii_lower hay) @ ascii_lower suf"
    by (metis append_take_drop_id)
  then show "\<exists>p. ascii_lower hay = p @ ascii_lower suf" ..
next
  assume "\<exists>p. ascii_lower hay = p @ ascii_lower suf"
  then obtain p where p: "ascii_lower hay = p @ ascii_lower suf" ..
  then have "length hay = length p + length suf" by (metis length_append length_ascii_lower)
  with p show "ends_with_ignore_ascii_case hay suf"
    by (simp add: ends_with_ignore_ascii_case_def eq_ignore_ascii_case_def ascii_lower_drop)
qed

text \<open>A suffix of a list of labels that starts at a label.\<close>

definition label_suffix :: "string \<Rightarrow> string \<Rightarrow> bool" where
  "label_suffix base host \<longleftrightarrow> host = base \<or> (\<exists>p. host = p @ ''.'' @ base)"

lemma label_suffix_refl [simp]: "label_suffix h h"
  by (simp add: label_suffix_def)

lemma label_suffix_trans: "label_suffix a b \<Longrightarrow> label_suffix b c \<Longrightarrow> label_suffix a c"
proof -
  assume "label_suffix a b" "label_suffix b c"
  then consider "a = b" | "b = c" | p q where "b = p @ ''.'' @ a" "c = q @ ''.'' @ b"
    unfolding label_suffix_def by blast
  then show "label_suffix a c"
  proof cases
    case (3 p q)
    then have "c = (q @ ''.'' @ p) @ ''.'' @ a" by simp
    then show ?thesis unfolding label_suffix_def by blast
  qed (use \<open>label_suffix a b\<close> \<open>label_suffix b c\<close> in auto)
qed

lemma label_suffix_drop: "n < length h \<Longrightarrow> h ! n = CHR ''.'' \<Longrightarrow> label_suffix (drop (Suc n) h) h"
  using id_take_nth_drop [of n h] by (auto simp: label_suffix_def)

lemma subdomain_iff:
  "host_is_subdomain_of host base \<longleftrightarrow> trim_end_matches (CHR ''.'') base \<noteq> [] \<and>
     label_suffix (ascii_lower (trim_end_matches (CHR ''.'') base)) (ascii_lower (trim_end_matches (CHR ''.'') host))"
proof -
  define h where "h = trim_end_matches (CHR ''.'') host"
  define b where "b = trim_end_matches (CHR ''.'') base"
  have "(length b < length h \<and> h ! (length h - length b - 1) = CHR ''.'' \<and> ends_with_ignore_ascii_case h b)
      \<longleftrightarrow> (\<exists>p. ascii_lower h = p @ ''.'' @ ascii_lower b)" (is "?l \<longleftrightarrow> ?r")
  proof
    assume l: ?l
    then obtain p where p: "ascii_lower h = p @ ascii_lower b" by (auto simp: ends_with_ignore_case_iff)
    then have len: "length h = length p + length b" by (metis length_append length_ascii_lower)
    with l have ne: "p \<noteq> []" by auto
    from ne have lt: "length p - 1 < length h" using len by (cases p) auto
    have "h ! (length p - 1) = CHR ''.''" using l len by simp
    with lt have "ascii_lower h ! (length p - 1) = CHR ''.''"
      by (simp add: ascii_lower_def to_ascii_lowercase_def is_ascii_upper_def)
    with p ne have "last p = CHR ''.''" by (simp add: last_conv_nth nth_append)
    with p ne have "ascii_lower h = butlast p @ ''.'' @ ascii_lower b"
      by (metis append_Cons append_Nil append_assoc append_butlast_last_id)
    then show ?r ..
  next
    assume ?r
    then obtain p where p: "ascii_lower h = p @ ''.'' @ ascii_lower b" ..
    then have "length (ascii_lower h) = length (p @ ''.'' @ ascii_lower b)" by (simp only:)
    then have len: "length h = length p + Suc (length b)" by simp
    have "ascii_lower h ! length p = CHR ''.''" by (simp add: p)
    then have "to_ascii_lowercase (h ! length p) = CHR ''.''" using len by (simp add: ascii_lower_def)
    then have "h ! length p = CHR ''.''" by (simp add: lower_dot)
    moreover have "ends_with_ignore_ascii_case h b"
      unfolding ends_with_ignore_case_iff using p by (intro exI [of _ "p @ ''.''"]) simp
    ultimately show ?l using len by simp
  qed
  then show ?thesis
    unfolding host_is_subdomain_of_def Let_def label_suffix_def h_def [symmetric] b_def [symmetric]
    by (auto simp: eq_ignore_ascii_case_def not_le)
qed

section \<open>A host lies under its base domain\<close>

lemma registrable_suffix:
  assumes "prev_dot < length h" and "h ! prev_dot = CHR ''.''"
  shows "label_suffix (registrable h prev_dot last_dot) h"
proof -
  have "label_suffix (drop (Suc p) h) h" if "memrchr (CHR ''.'') (take prev_dot h) = Some p" for p
    using that assms(1) by (intro label_suffix_drop) (auto simp: memrchr_Some)
  with label_suffix_drop [OF assms] show ?thesis
    by (auto simp: registrable_def Let_def split: option.split)
qed

lemma base_domain_suffix: "label_suffix (base_domain_from_host host) (strip_www host)"
proof -
  define h where "h = strip_www host"
  show ?thesis
  proof (cases "memrchr (CHR ''.'') h")
    case None
    then show ?thesis by (simp add: base_domain_from_host_def h_def)
  next
    case (Some last_dot)
    show ?thesis
    proof (cases "memrchr (CHR ''.'') (take last_dot h)")
      case None
      with Some show ?thesis by (simp add: base_domain_from_host_def h_def [symmetric])
    next
      case prev: (Some prev_dot)
      then have "prev_dot < length h" "h ! prev_dot = CHR ''.''" by (auto simp: memrchr_Some)
      then have base: "label_suffix (registrable h prev_dot last_dot) h" by (rule registrable_suffix)
      have "label_suffix (drop (Suc p) h) h" if "memrchr (CHR ''.'') (take b h) = Some p" for b p
        using that by (intro label_suffix_drop) (auto simp: memrchr_Some)
      with Some prev base show ?thesis
        by (auto simp: base_domain_from_host_def h_def [symmetric] Let_def split: option.split)
    qed
  qed
qed

lemma strip_label_suffix: "label_suffix (case strip_prefix (p @ ''.'') h of Some x \<Rightarrow> x | None \<Rightarrow> h) h"
  by (auto simp: strip_prefix_def starts_with_iff label_suffix_def)

lemma strip_www_suffix: "label_suffix (strip_www host) (trim_end_matches (CHR ''.'') host)"
proof -
  define h where "h = trim_end_matches (CHR ''.'') host"
  define h1 where "h1 = (case strip_prefix ''www.'' h of Some x \<Rightarrow> x | None \<Rightarrow> h)"
  have "label_suffix h1 h" using strip_label_suffix [where p = "''www''" and h = h] by (simp add: h1_def)
  moreover have "strip_www host = (case strip_prefix ''m.'' h1 of Some x \<Rightarrow> x | None \<Rightarrow> h1)"
    by (simp only: strip_www_def h1_def h_def Let_def)
  with strip_label_suffix [where p = "''m''" and h = h1] have "label_suffix (strip_www host) h1" by simp
  ultimately show ?thesis unfolding h_def by (rule label_suffix_trans [rotated])
qed

lemma suffix_no_trailing_dot:
  assumes "label_suffix b h" and "h = [] \<or> last h \<noteq> CHR ''.''" and "h \<noteq> []"
  shows "b \<noteq> [] \<and> last b \<noteq> CHR ''.''"
  using assms by (auto simp: label_suffix_def split: if_splits)

lemma ascii_lower_suffix: "label_suffix b h \<Longrightarrow> label_suffix (ascii_lower b) (ascii_lower h)"
  by (auto simp: label_suffix_def to_ascii_lowercase_def is_ascii_upper_def)

lemma base_subdomain:
  assumes "trim_end_matches (CHR ''.'') host \<noteq> []"
  shows "label_suffix (base_domain_from_host host) (trim_end_matches (CHR ''.'') host)"
    and "host_is_subdomain_of host (base_domain_from_host host)"
proof -
  show suffix: "label_suffix (base_domain_from_host host) (trim_end_matches (CHR ''.'') host)"
    by (rule label_suffix_trans [OF base_domain_suffix strip_www_suffix])
  with suffix_no_trailing_dot [OF suffix trim_end_last assms]
  have "trim_end_matches (CHR ''.'') (base_domain_from_host host) = base_domain_from_host host"
    by (intro trim_end_id) auto
  with suffix show "host_is_subdomain_of host (base_domain_from_host host)"
    using suffix_no_trailing_dot [OF suffix trim_end_last assms] by (simp add: subdomain_iff ascii_lower_suffix)
qed

section \<open>Parsing what a URL is made of\<close>

lemma find_first_append:
  "\<forall>c \<in> set a. \<not> P c \<Longrightarrow> b = [] \<or> P (hd b) \<Longrightarrow>
    (case find_first P (a @ b) of None \<Rightarrow> length (a @ b) | Some i \<Rightarrow> i) = length a"
proof (cases b)
  case Nil
  assume "\<forall>c \<in> set a. \<not> P c"
  with Nil have "find_first P (a @ b) = None" by (simp add: find_first_None)
  with Nil show ?thesis by simp
next
  case (Cons c t)
  assume "\<forall>c \<in> set a. \<not> P c" "b = [] \<or> P (hd b)"
  with Cons have "find_first P (a @ b) = Some (length a)" by (auto simp: find_first_Some nth_append)
  then show ?thesis by simp
qed

lemma memchr_append: "c \<notin> set a \<Longrightarrow> memchr c (a @ c # b) = Some (length a)"
  by (simp add: memchr_Some)

lemma memrchr_append: "c \<notin> set b \<Longrightarrow> memrchr c (a @ c # b) = Some (length a)"
  by (simp add: memrchr_Some)

lemma no_special_scheme:
  assumes "CHR '':'' \<notin> set scheme" and "scheme \<noteq> ''blob''" and "scheme \<noteq> ''filesystem''"
  shows "strip_special_schemes (scheme @ '':'' @ s) = scheme @ '':'' @ s"
proof -
  have same: "scheme = p" if "CHR '':'' \<notin> set p" "starts_with (p @ '':'') (scheme @ '':'' @ s)" for p
  proof -
    from that(2) obtain t where "scheme @ CHR '':'' # s = p @ CHR '':'' # t" by (auto simp: starts_with_iff)
    moreover have "takeWhile (\<lambda>c. c \<noteq> CHR '':'') (a @ CHR '':'' # b) = a" if "CHR '':'' \<notin> set a" for a b
      using that by (subst takeWhile_append2) auto
    ultimately show ?thesis using assms(1) that(1) by metis
  qed
  from same [of "''blob''"] same [of "''filesystem''"] assms(2,3)
  have "\<not> starts_with ''blob:'' (scheme @ '':'' @ s)" "\<not> starts_with ''filesystem:'' (scheme @ '':'' @ s)" by auto
  then show ?thesis by (simp add: strip_special_schemes_def strip_prefix_def)
qed

section \<open>Properties\<close>

text \<open>URLs are parsed back. For a URL put together from a scheme, optional user information, a
  host name, an optional port and a rest that starts a path, query or fragment, \<open>host_and_rest\<close>
  returns exactly the host and the rest.\<close>

theorem host_and_rest_parses:
  assumes scheme: "CHR '':'' \<notin> set scheme" "scheme \<noteq> ''blob''" "scheme \<noteq> ''filesystem''"
    and user: "user = [] \<or> (\<exists>u. user = u @ ''@'')" "\<forall>c \<in> set user. \<not> is_rest_start c"
    and host: "host \<noteq> []" "hd host \<noteq> CHR ''[''" "\<forall>c \<in> set host. \<not> is_rest_start c \<and> c \<noteq> CHR ''@'' \<and> c \<noteq> CHR '':''"
    and port: "port = [] \<or> (\<exists>p. port = CHR '':'' # p)" "\<forall>c \<in> set port. \<not> is_rest_start c \<and> c \<noteq> CHR ''@''"
    and rest: "rest = [] \<or> is_rest_start (hd rest)"
  shows "host_and_rest (scheme @ ''://'' @ user @ host @ port @ rest) = Some (host, rest)"
proof -
  define auth where "auth = user @ host @ port"
  define url where "url = scheme @ ''://'' @ auth @ rest"
  have url: "strip_special_schemes url = url"
    using no_special_scheme [OF scheme, of "''//'' @ auth @ rest"] by (simp add: url_def)
  have "memchr (CHR '':'') url = Some (length scheme)" using scheme by (simp add: url_def memchr_append)
  then have start: "host_start url = Some (length scheme + 3)" by (simp add: host_start_def url_def)
  have drop_start: "drop (length scheme + 3) url = auth @ rest" by (simp add: url_def)
  have "\<forall>c \<in> set auth. \<not> is_rest_start c" using user host port by (auto simp: auth_def)
  from find_first_append [OF this rest]
  have rs: "(case find_first is_rest_start (drop (length scheme + 3) url) of None \<Rightarrow> length url | Some i \<Rightarrow> length scheme + 3 + i)
      = length scheme + 3 + length auth" (is "?rs = _")
    unfolding drop_start by (auto simp: url_def split: option.splits)
  have auth: "drop (length scheme + 3) (take (length scheme + 3 + length auth) url) = auth"
    and rest': "drop (length scheme + 3 + length auth) url = rest"
    by (simp_all add: url_def numeral_3_eq_3)
  have ne: "auth \<noteq> []" using host by (simp add: auth_def)
  have strip: "(case memrchr (CHR ''@'') auth of Some pos \<Rightarrow> drop (Suc pos) auth | None \<Rightarrow> auth) = host @ port"
  proof (cases "user = []")
    case True
    with host port have "CHR ''@'' \<notin> set auth" by (auto simp: auth_def)
    then have "memrchr (CHR ''@'') auth = None" by (simp add: memrchr_None)
    with True show ?thesis by (simp add: auth_def)
  next
    case False
    with user(1) obtain u where u: "auth = u @ CHR ''@'' # host @ port" by (auto simp: auth_def)
    moreover have "CHR ''@'' \<notin> set (host @ port)" using host port by auto
    ultimately have "memrchr (CHR ''@'') auth = Some (length u)" by (simp add: memrchr_append)
    with u show ?thesis by simp
  qed
  have "CHR '':'' \<notin> set host" using host by auto
  then have "(case memchr (CHR '':'') (host @ port) of None \<Rightarrow> length (host @ port) | Some i \<Rightarrow> i) = length host"
    using port(1) memchr_None [of "CHR '':''" host] by (auto simp: memchr_append)
  moreover have "take 1 (host @ port) \<noteq> ''[''" using host by (cases host) auto
  moreover have "take (length host) (host @ port) = host" by simp
  ultimately have "host_and_rest url = Some (host, rest)"
    unfolding host_and_rest_def Let_def url start option.case rs auth rest' strip
    using host ne by (simp del: One_nat_def take_append)
  then show ?thesis by (simp add: url_def auth_def)
qed

lemma host_and_rest_parses_witness:
  "host_and_rest (''https'' @ ''://'' @ ''me:pw@'' @ ''example.com'' @ '':8080'' @ ''/a?b'') = Some (''example.com'', ''/a?b'')"
  by (rule host_and_rest_parses) (auto simp: is_rest_start_def intro: exI [of _ "''me:pw''"])

text \<open>Subdomains end at a dot. A host is accepted as a subdomain of a base exactly when, both
  without trailing dots and up to ASCII case, it is the base or ends with a dot followed by the base;
  so no other registered name that merely ends with the same letters passes.\<close>

theorem subdomain_at_dot:
  "host_is_subdomain_of host base \<longleftrightarrow>
    (let h = ascii_lower (trim_end_matches (CHR ''.'') host); b = ascii_lower (trim_end_matches (CHR ''.'') base)
     in b \<noteq> [] \<and> (h = b \<or> (\<exists>p. h = p @ ''.'' @ b)))"
  by (simp add: subdomain_iff label_suffix_def Let_def)

text \<open>A host lies under its base domain. The base domain computed for a host is a suffix of the
  host that starts at a label, and every host that is not only dots is a subdomain of it.\<close>

theorem host_under_base_domain:
  assumes "trim_end_matches (CHR ''.'') host \<noteq> []"
  shows "label_suffix (base_domain_from_host host) (trim_end_matches (CHR ''.'') host)
    \<and> host_is_subdomain_of host (base_domain_from_host host)"
  using base_subdomain [OF assms] by simp

lemma host_under_base_domain_witness:
  "host_is_subdomain_of ''www.shop.example.co.uk.'' (base_domain_from_host ''www.shop.example.co.uk.'')"
  using host_under_base_domain [of "''www.shop.example.co.uk.''"] by (simp add: trim_end_matches_def)

end
