(* ===== verification/Net_Types.thy ===== *)
theory Net_Types
  imports Http Cmd Url
begin

text \<open>
  The data of the network manager (\<open>src/handler/network.rs\<close>): resource types, the events it
  handles, its static tables, its state with the setters, and the code outside the repository it
  asks for verdicts (block lists, the pattern matcher, the ad engine, the cache), which is the
  record of parameters \<open>externals\<close>.
\<close>

section \<open>Resource types\<close>

datatype resource_type =
    Document | Stylesheet | Image | Media | Font | Script | TextTrack | Xhr | Fetch | Prefetch
  | EventSource | WebSocket | Manifest | SignedExchange | Ping | CspViolationReport | Preflight
  | FedCm | OtherResource

text \<open>\<open>AsRef<str>\<close> of the protocol's \<open>ResourceType\<close>.\<close>

fun resource_str :: "resource_type \<Rightarrow> string" where
  "resource_str Document = ''Document''"
| "resource_str Stylesheet = ''Stylesheet''"
| "resource_str Image = ''Image''"
| "resource_str Media = ''Media''"
| "resource_str Font = ''Font''"
| "resource_str Script = ''Script''"
| "resource_str TextTrack = ''TextTrack''"
| "resource_str Xhr = ''XHR''"
| "resource_str Fetch = ''Fetch''"
| "resource_str Prefetch = ''Prefetch''"
| "resource_str EventSource = ''EventSource''"
| "resource_str WebSocket = ''WebSocket''"
| "resource_str Manifest = ''Manifest''"
| "resource_str SignedExchange = ''SignedExchange''"
| "resource_str Ping = ''Ping''"
| "resource_str CspViolationReport = ''CSPViolationReport''"
| "resource_str Preflight = ''Preflight''"
| "resource_str FedCm = ''FedCM''"
| "resource_str OtherResource = ''Other''"

text \<open>\<open>is_data_resource\<close> of \<open>src/utils.rs\<close>.\<close>

definition is_data_resource :: "resource_type \<Rightarrow> bool" where
  "is_data_resource t = (t \<in> {Xhr, Fetch, WebSocket, EventSource, Prefetch, Preflight})"

definition IGNORE_VISUAL_RESOURCE_MAP :: "string list" where
  "IGNORE_VISUAL_RESOURCE_MAP = [''Image'', ''Media'', ''Font'']"

definition IGNORE_NETWORKING_RESOURCE_MAP :: "string list" where
  "IGNORE_NETWORKING_RESOURCE_MAP = [''CspViolationReport'', ''Ping'']"

definition JS_FRAMEWORK_ALLOW_3RD_PARTY :: "string list" where
  "JS_FRAMEWORK_ALLOW_3RD_PARTY =
     [''https://m.stripe.network/'', ''https://challenges.cloudflare.com/'', ''https://js.stripe.com/'',
      ''https://cdn.prod.website-files.com/'', ''https://cdnjs.cloudflare.com/'', ''https://code.jquery.com/jquery-'',
      ''https://ct.captcha-delivery.com/'', ''https://geo.captcha-delivery.com/'',
      ''https://img1.wsimg.com/parking-lander/static/js/main.d9ebbb8c.js'', ''https://cdn.auth0.com/client'',
      ''https://captcha.px-cloud.net/'', ''https://www.capy.me/puzzle/'', ''https://www.gstatic.com/recaptcha/'',
      ''https://google.com/recaptcha/'', ''https://www.google.com/recaptcha/'', ''https://www.recaptcha.net/recaptcha/'',
      ''https://js.hcaptcha.com/1/api.js'', ''https://hcaptcha.com/1/api.js'', ''https://js.datadome.co/tags.js'',
      ''https://api-js.datadome.co/'', ''https://client.perimeterx.net/'', ''https://captcha.px-cdn.net/'',
      ''https://newassets.hcaptcha.com/'', ''https://captcha.px-cloud.net/'', ''https://s.perimeterx.net/'',
      ''https://api.leminnow.com/captcha/'', ''https://client-api.arkoselabs.com/'', ''https://static.geetest.com/v4/gt4.js'',
      ''https://static.geetest.com/'', ''https://cdn.jsdelivr.net/npm/@friendlycaptcha/'',
      ''https://cdn.perfdrive.com/aperture/'', ''https://assets.queue-it.net/'', ''discourse-cdn.com/'',
      ''hcaptcha.com'', ''/cdn-cgi/challenge-platform/'', ''/_Incapsula_Resource'']"

text \<open>\<open>IGNORE_XHR_ASSETS\<close> of \<open>src/handler/blockers/xhr.rs\<close>.\<close>

definition XHR_ASSET_NAMES :: "string list" where
  "XHR_ASSET_NAMES = [''jpg'', ''jpeg'', ''png'', ''gif'', ''svg'', ''webp'', ''mp4'', ''avi'', ''mov'', ''wmv'', ''flv'',
     ''mp3'', ''wav'', ''ogg'', ''woff'', ''woff2'', ''ttf'', ''otf'', ''swf'', ''xap'', ''ico'', ''eot'']"

definition IGNORE_XHR_ASSETS :: "string list" where
  "IGNORE_XHR_ASSETS = XHR_ASSET_NAMES @ map (\<lambda>s. CHR ''.'' # s) XHR_ASSET_NAMES"

definition INIT_CHAIN :: "(method_id \<times> json) list" where
  "INIT_CHAIN = [command_pair NetworkEnable]"

definition INIT_CHAIN_IGNORE_HTTP_ERRORS :: "(method_id \<times> json) list" where
  "INIT_CHAIN_IGNORE_HTTP_ERRORS = [command_pair NetworkEnable, command_pair (SecuritySetIgnoreCertificateErrors True)]"

definition STALE_BUFFER_SECS :: nat where
  "STALE_BUFFER_SECS = 30"

definition STALE_REQUEST_SECS :: nat where
  "STALE_REQUEST_SECS = 120"

section \<open>Events\<close>

text \<open>The fields of the protocol events that are read.\<close>

datatype initiator_type = InitParser | InitScript | InitPreload | InitSignedExchange | InitPreflight | InitFedCm | InitOther

record event_request_paused =
  rp_request_id :: interception_id
  rp_url :: string
  rp_method :: string
  rp_is_same_site :: "bool option"
  rp_resource_type :: resource_type
  rp_network_id :: "request_id option"
  rp_redirected_request_id :: "request_id option"

record event_request_will_be_sent =
  rw_request_id :: request_id
  rw_url :: string
  rw_method :: string
  rw_redirect_response :: "net_response option"
  rw_type :: "resource_type option"
  rw_frame_id :: "frame_id option"
  rw_initiator_type :: initiator_type

datatype network_event =
    SendCdpRequest method_id json
  | NetRequest request_id
  | NetResponse request_id
  | RequestFailed http_request
  | RequestDone http_request
  | BytesConsumed u64

section \<open>Code outside the repository\<close>

text \<open>
  \<open>BasicCachePolicy\<close> of \<open>src/cache/manager.rs\<close>, over the staleness test of the cached entry's
  own policy (a library type).
\<close>

datatype cache_policy = AllowStale | Period nat | Normal

record cached_item =
  ci_body :: string
  ci_headers :: "(string \<times> string) list"
  ci_status :: int
  ci_is_stale :: "nat \<Rightarrow> bool"

definition allows_cached :: "nat \<Rightarrow> cache_policy \<Rightarrow> cached_item \<Rightarrow> bool" where
  "allows_cached system_now p item =
     (case p of AllowStale \<Rightarrow> True | Period now \<Rightarrow> \<not> ci_is_stale item now | Normal \<Rightarrow> \<not> ci_is_stale item system_now)"

text \<open>
  The crates the manager asks: the tries of \<open>spider_network_blocker\<close>, its intercept manager (named
  by its debug text), the lists of \<open>spider_firewall\<close>, the ad engine, the matcher of
  \<open>aho_corasick\<close> (identified by its patterns), case-insensitive strings, the session cache with
  the base64 encoder, the system clock; and the three build features.
\<close>

record externals =
  feature_firewall :: bool
  feature_adblock :: bool
  feature_cache :: bool
  url_ignore_trie :: "string \<Rightarrow> bool"
  url_ignore_trie_paths :: "string \<Rightarrow> bool"
  script_base_paths :: "string \<Rightarrow> bool"
  script_styles_paths :: "string \<Rightarrow> bool"
  embedded_trie :: "string \<Rightarrow> bool"
  xhr_trie :: "string \<Rightarrow> bool"
  xhr_media_trie :: "string \<Rightarrow> bool"
  intercept_detection :: "string \<Rightarrow> string \<Rightarrow> bool \<Rightarrow> bool \<Rightarrow> bool"
  bad_website_url :: "string \<Rightarrow> bool"
  networking_website_url :: "string \<Rightarrow> bool"
  ad_website_url :: "string \<Rightarrow> bool"
  adblock_matched :: "nat option \<Rightarrow> string \<Rightarrow> string \<Rightarrow> string \<Rightarrow> string \<Rightarrow> bool \<Rightarrow> bool"
  ac_builds :: "string list \<Rightarrow> bool"
  ac_is_match :: "string list \<Rightarrow> string \<Rightarrow> bool"
  ci_eq :: "string \<Rightarrow> string \<Rightarrow> bool"
  ci_contains :: "string \<Rightarrow> string \<Rightarrow> bool"
  session_cache :: "string \<Rightarrow> string \<Rightarrow> cached_item option"
  base64_encode :: "string \<Rightarrow> string"
  system_now :: nat

text \<open>\<open>src/handler/blockers\<close>: the firewall lists count only with their feature.\<close>

definition block_website :: "externals \<Rightarrow> string \<Rightarrow> bool" where
  "block_website x u = (if feature_firewall x then bad_website_url x u else False)"

definition block_xhr :: "externals \<Rightarrow> string \<Rightarrow> bool" where
  "block_xhr x u = (if feature_firewall x then networking_website_url x u else False)"

definition block_ads :: "externals \<Rightarrow> string \<Rightarrow> bool" where
  "block_ads x u = (if feature_firewall x then ad_website_url x u else False)"

definition ignore_script_embedded :: "externals \<Rightarrow> string \<Rightarrow> bool" where
  "ignore_script_embedded x u = embedded_trie x u"

definition ignore_script_xhr :: "externals \<Rightarrow> string \<Rightarrow> bool" where
  "ignore_script_xhr x u = xhr_trie x u"

definition ignore_script_xhr_media :: "externals \<Rightarrow> string \<Rightarrow> bool" where
  "ignore_script_xhr_media x u = xhr_media_trie x u"

section \<open>The state\<close>

record credentials =
  cr_username :: string
  cr_password :: string

record network_manager =
  nm_queued_events :: "network_event list"
  nm_ignore_httpserrors :: bool
  nm_requests :: "(request_id, http_request) hash_map"
  nm_requests_will_be_sent :: "(request_id, event_request_will_be_sent \<times> instant) hash_map"
  nm_extra_headers :: "(string, string) hash_map"
  nm_interception_ids :: "(request_id, interception_id \<times> instant) hash_map"
  nm_user_cache_disabled :: bool
  nm_attempted_authentications :: "interception_id set"
  nm_credentials :: "credentials option"
  nm_user_interception :: bool
  nm_block_all :: bool
  nm_protocol_interception :: bool
  nm_offline :: bool
  nm_request_timeout :: duration
  nm_ignore_visuals :: bool
  nm_block_stylesheets :: bool
  nm_block_javascript :: bool
  nm_allow_first_party_stylesheets :: bool
  nm_allow_first_party_javascript :: bool
  nm_allow_first_party_visuals :: bool
  nm_block_analytics :: bool
  nm_block_prefetch :: bool
  nm_only_html :: bool
  nm_xml_document :: bool
  nm_intercept_manager :: string
  nm_document_reload_tracker :: u8
  nm_document_target_url :: string
  nm_document_target_domain :: string
  nm_max_bytes_allowed :: "u64 option"
  nm_max_redirects :: "nat option"
  nm_cache_site_key :: "string option"
  nm_cache_policy :: "cache_policy option"
  nm_whitelist_patterns :: "string list"
  nm_whitelist_matcher :: "string list option"
  nm_blacklist_patterns :: "string list"
  nm_blacklist_matcher :: "string list option"
  nm_blacklist_strict :: bool
  nm_remote_local_policy :: bool
  nm_adblock_engine :: "nat option"

definition NetworkManager_new :: "bool \<Rightarrow> duration \<Rightarrow> network_manager" where
  "NetworkManager_new ignore_errors t = \<lparr>nm_queued_events = [], nm_ignore_httpserrors = ignore_errors,
     nm_requests = [], nm_requests_will_be_sent = [], nm_extra_headers = [], nm_interception_ids = [],
     nm_user_cache_disabled = False, nm_attempted_authentications = {}, nm_credentials = None,
     nm_user_interception = False, nm_block_all = False, nm_protocol_interception = False,
     nm_offline = False, nm_request_timeout = t, nm_ignore_visuals = False, nm_block_stylesheets = False,
     nm_block_javascript = False, nm_allow_first_party_stylesheets = True, nm_allow_first_party_javascript = True,
     nm_allow_first_party_visuals = True, nm_block_analytics = True, nm_block_prefetch = True,
     nm_only_html = False, nm_xml_document = False, nm_intercept_manager = ''Unknown'',
     nm_document_reload_tracker = 0, nm_document_target_url = [], nm_document_target_domain = [],
     nm_max_bytes_allowed = None, nm_max_redirects = None, nm_cache_site_key = None, nm_cache_policy = None,
     nm_whitelist_patterns = [], nm_whitelist_matcher = None, nm_blacklist_patterns = [],
     nm_blacklist_matcher = None, nm_blacklist_strict = True, nm_remote_local_policy = False,
     nm_adblock_engine = None\<rparr>"

section \<open>Patterns\<close>

definition build_matcher :: "externals \<Rightarrow> string list \<Rightarrow> string list option" where
  "build_matcher x ps = (if ps = [] then None else if ac_builds x ps then Some ps else None)"

definition rebuild_blacklist_matcher :: "externals \<Rightarrow> network_manager \<Rightarrow> network_manager" where
  "rebuild_blacklist_matcher x m = m\<lparr>nm_blacklist_matcher := build_matcher x (nm_blacklist_patterns m)\<rparr>"

definition rebuild_whitelist_matcher :: "externals \<Rightarrow> network_manager \<Rightarrow> network_manager" where
  "rebuild_whitelist_matcher x m = m\<lparr>nm_whitelist_matcher := build_matcher x (nm_whitelist_patterns m)\<rparr>"

definition set_whitelist_patterns :: "externals \<Rightarrow> string list \<Rightarrow> network_manager \<Rightarrow> network_manager" where
  "set_whitelist_patterns x ps m = rebuild_whitelist_matcher x (m\<lparr>nm_whitelist_patterns := ps\<rparr>)"

definition set_blacklist_patterns :: "externals \<Rightarrow> string list \<Rightarrow> network_manager \<Rightarrow> network_manager" where
  "set_blacklist_patterns x ps m = rebuild_blacklist_matcher x (m\<lparr>nm_blacklist_patterns := ps\<rparr>)"

definition add_blacklist_pattern :: "externals \<Rightarrow> string \<Rightarrow> network_manager \<Rightarrow> network_manager" where
  "add_blacklist_pattern x p m = rebuild_blacklist_matcher x (m\<lparr>nm_blacklist_patterns := nm_blacklist_patterns m @ [p]\<rparr>)"

definition add_blacklist_patterns :: "externals \<Rightarrow> string list \<Rightarrow> network_manager \<Rightarrow> network_manager" where
  "add_blacklist_patterns x ps m = rebuild_blacklist_matcher x (m\<lparr>nm_blacklist_patterns := nm_blacklist_patterns m @ ps\<rparr>)"

definition add_whitelist_pattern :: "externals \<Rightarrow> string \<Rightarrow> network_manager \<Rightarrow> network_manager" where
  "add_whitelist_pattern x p m = rebuild_whitelist_matcher x (m\<lparr>nm_whitelist_patterns := nm_whitelist_patterns m @ [p]\<rparr>)"

definition add_whitelist_patterns :: "externals \<Rightarrow> string list \<Rightarrow> network_manager \<Rightarrow> network_manager" where
  "add_whitelist_patterns x ps m = rebuild_whitelist_matcher x (m\<lparr>nm_whitelist_patterns := nm_whitelist_patterns m @ ps\<rparr>)"

definition clear_blacklist :: "network_manager \<Rightarrow> network_manager" where
  "clear_blacklist m = m\<lparr>nm_blacklist_patterns := [], nm_blacklist_matcher := None\<rparr>"

definition set_blacklist_strict :: "bool \<Rightarrow> network_manager \<Rightarrow> network_manager" where
  "set_blacklist_strict b m = m\<lparr>nm_blacklist_strict := b\<rparr>"

definition set_adblock_engine :: "nat \<Rightarrow> network_manager \<Rightarrow> network_manager" where
  "set_adblock_engine e m = m\<lparr>nm_adblock_engine := Some e\<rparr>"

definition is_blacklisted :: "externals \<Rightarrow> network_manager \<Rightarrow> string \<Rightarrow> bool" where
  "is_blacklisted x m url = (case nm_blacklist_matcher m of None \<Rightarrow> False | Some ps \<Rightarrow> ac_is_match x ps url)"

definition is_whitelisted :: "externals \<Rightarrow> network_manager \<Rightarrow> string \<Rightarrow> bool" where
  "is_whitelisted x m url = (case nm_whitelist_matcher m of None \<Rightarrow> False | Some ps \<Rightarrow> ac_is_match x ps url)"

end
