(* ===== verification/Network.thy ===== *)
theory Network
  imports Net_Types
begin

text \<open>
  The operations of the network manager of \<open>src/handler/network.rs\<close>: the setters that queue
  commands, the interception decision for a paused request, authentication, the table of
  requests and its events, and the eviction of stale entries. An operation that reads
  \<open>Instant::now()\<close> has the reading as its argument \<open>now\<close>.
\<close>

section \<open>The queue of events\<close>

definition queue_event :: "network_event \<Rightarrow> network_manager \<Rightarrow> network_manager" where
  "queue_event ev m = m\<lparr>nm_queued_events := nm_queued_events m @ [ev]\<rparr>"

definition push_cdp_request :: "cdp_command \<Rightarrow> network_manager \<Rightarrow> network_manager" where
  "push_cdp_request c m = queue_event (SendCdpRequest (method_identifier c) (to_value c)) m"

definition NetworkManager_poll :: "network_manager \<Rightarrow> network_event option \<times> network_manager" where
  "NetworkManager_poll m = (case nm_queued_events m of
      [] \<Rightarrow> (None, m)
    | ev # evs \<Rightarrow> (Some ev, m\<lparr>nm_queued_events := evs\<rparr>))"

definition NetworkManager_init_commands :: "network_manager \<Rightarrow> command_chain" where
  "NetworkManager_init_commands m = CommandChain_new
     (if nm_ignore_httpserrors m then INIT_CHAIN_IGNORE_HTTP_ERRORS else INIT_CHAIN) (nm_request_timeout m)"

section \<open>Eviction\<close>

text \<open>The ids of interceptions of live requests.\<close>

definition live_interceptions :: "network_manager \<Rightarrow> interception_id set" where
  "live_interceptions m = set (List.map_filter request_interception_id (hm_values (nm_requests m)))"

definition evict_stale_entries :: "instant \<Rightarrow> network_manager \<Rightarrow> network_manager" where
  "evict_stale_entries now m =
     (let m = m\<lparr>nm_requests_will_be_sent :=
              hm_retain (\<lambda>_ (_, ts). now < ts + from_secs STALE_BUFFER_SECS) (nm_requests_will_be_sent m),
            nm_interception_ids :=
              hm_retain (\<lambda>_ (_, ts). now < ts + from_secs STALE_BUFFER_SECS) (nm_interception_ids m),
            nm_requests :=
              hm_retain (\<lambda>_ r. now < request_created_at r + from_secs STALE_REQUEST_SECS) (nm_requests m)\<rparr>
      in m\<lparr>nm_attempted_authentications := nm_attempted_authentications m \<inter> live_interceptions m\<rparr>)"

section \<open>Setters that queue commands\<close>

definition set_extra_headers :: "(string, string) hash_map \<Rightarrow> network_manager \<Rightarrow> network_manager" where
  "set_extra_headers headers m =
     (let hs = hm_remove ''Proxy-Authorization'' (hm_remove ''proxy-authorization'' headers);
          m = m\<lparr>nm_extra_headers := hs\<rparr>
      in if hm_keys hs = [] then m
         else push_cdp_request (NetworkSetExtraHttpHeaders (JObject (map (\<lambda>(k, v). (k, JString v)) (AList.clearjunk hs)))) m)"

definition set_service_worker_enabled :: "bool \<Rightarrow> network_manager \<Rightarrow> network_manager" where
  "set_service_worker_enabled bypass m = push_cdp_request (NetworkSetBypassServiceWorker bypass) m"

definition set_block_all :: "bool \<Rightarrow> network_manager \<Rightarrow> network_manager" where
  "set_block_all b m = m\<lparr>nm_block_all := b\<rparr>"

definition set_remote_local_policy :: "bool \<Rightarrow> network_manager \<Rightarrow> network_manager" where
  "set_remote_local_policy b m = m\<lparr>nm_remote_local_policy := b\<rparr>"

definition block_ads_enabled :: "externals \<Rightarrow> bool" where
  "block_ads_enabled x = feature_firewall x"

definition request_policy_params :: "externals \<Rightarrow> network_manager \<Rightarrow> json" where
  "request_policy_params x m = JObject
     [(''version'', JNumber 1),
      (''enabled'', JBool True),
      (''flags'', JObject
        [(''blockAll'', JBool (nm_block_all m)),
         (''blockVisuals'', JBool (nm_ignore_visuals m)),
         (''blockStylesheets'', JBool (nm_block_stylesheets m)),
         (''blockJavascript'', JBool (nm_block_javascript m)),
         (''blockAnalytics'', JBool (nm_block_analytics m)),
         (''blockAds'', JBool (block_ads_enabled x)),
         (''blockPrefetch'', JBool (nm_block_prefetch m)),
         (''onlyHtml'', JBool (nm_only_html m)),
         (''blacklistStrict'', JBool (nm_blacklist_strict m)),
         (''allowFirstPartyStylesheets'', JBool (nm_allow_first_party_stylesheets m)),
         (''allowFirstPartyJavascript'', JBool (nm_allow_first_party_javascript m)),
         (''allowFirstPartyVisuals'', JBool (nm_allow_first_party_visuals m))]),
      (''blacklist'', JArray (map JString (nm_blacklist_patterns m))),
      (''whitelist'', JArray (map JString (nm_whitelist_patterns m))),
      (''interceptManager'', JString (nm_intercept_manager m)),
      (''pageUrl'', JString (nm_document_target_url m))]"

definition emit_request_policy :: "externals \<Rightarrow> network_manager \<Rightarrow> network_manager" where
  "emit_request_policy x m =
     (if \<not> nm_remote_local_policy m \<or> \<not> nm_protocol_interception m then m
      else queue_event (SendCdpRequest ''Interception.setPolicy'' (request_policy_params x m)) m)"

definition update_protocol_request_interception :: "network_manager \<Rightarrow> network_manager" where
  "update_protocol_request_interception m =
     (let enabled = nm_user_interception m \<or> nm_credentials m \<noteq> None in
      if enabled = nm_protocol_interception m then m
      else if enabled then push_cdp_request FetchEnable m
      else push_cdp_request FetchDisable m)"

definition set_request_interception :: "bool \<Rightarrow> network_manager \<Rightarrow> network_manager" where
  "set_request_interception enabled m =
     update_protocol_request_interception (m\<lparr>nm_user_interception := enabled\<rparr>)"

definition update_protocol_cache_disabled :: "network_manager \<Rightarrow> network_manager" where
  "update_protocol_cache_disabled m = push_cdp_request (NetworkSetCacheDisabled (nm_user_cache_disabled m)) m"

definition set_cache_enabled :: "bool \<Rightarrow> network_manager \<Rightarrow> network_manager" where
  "set_cache_enabled enabled m =
     (let changed = nm_user_cache_disabled m = enabled;
          m = m\<lparr>nm_user_cache_disabled := \<not> enabled\<rparr>
      in if changed then update_protocol_cache_disabled m else m)"

definition enable_request_intercept :: "network_manager \<Rightarrow> network_manager" where
  "enable_request_intercept m = m\<lparr>nm_protocol_interception := True\<rparr>"

definition disable_request_intercept :: "network_manager \<Rightarrow> network_manager" where
  "disable_request_intercept m = m\<lparr>nm_protocol_interception := False\<rparr>"

definition set_cache_site_key :: "string option \<Rightarrow> network_manager \<Rightarrow> network_manager" where
  "set_cache_site_key k m = m\<lparr>nm_cache_site_key := k\<rparr>"

definition set_cache_policy :: "cache_policy option \<Rightarrow> network_manager \<Rightarrow> network_manager" where
  "set_cache_policy p m = m\<lparr>nm_cache_policy := p\<rparr>"

definition authenticate :: "credentials \<Rightarrow> network_manager \<Rightarrow> network_manager" where
  "authenticate c m =
     (let m = update_protocol_request_interception (m\<lparr>nm_credentials := Some c\<rparr>)
      in m\<lparr>nm_protocol_interception := True\<rparr>)"

definition set_offline_mode :: "bool \<Rightarrow> network_manager \<Rightarrow> network_manager" where
  "set_offline_mode value m =
     (if nm_offline m = value then m
      else push_cdp_request (NetworkEmulateConditionsByRule value) (m\<lparr>nm_offline := value\<rparr>))"

section \<open>The page's address\<close>

definition has_target_domain :: "network_manager \<Rightarrow> bool" where
  "has_target_domain m = (nm_document_target_url m \<noteq> [])"

definition is_first_party_url :: "network_manager \<Rightarrow> string \<Rightarrow> bool" where
  "is_first_party_url m url =
     (if nm_document_target_domain m = [] then False
      else (case host_and_rest url of
          Some (host, _) \<Rightarrow> base_domain_from_host host = nm_document_target_domain m
        | None \<Rightarrow> False))"

definition url_base :: "string \<Rightarrow> string" where
  "url_base url = (case host_and_rest url of Some (h, _) \<Rightarrow> base_domain_from_host h | None \<Rightarrow> [])"

definition set_page_url :: "externals \<Rightarrow> string \<Rightarrow> network_manager \<Rightarrow> network_manager" where
  "set_page_url x u m = emit_request_policy x
     (m\<lparr>nm_document_target_domain := url_base u, nm_document_target_url := u\<rparr>)"

definition clear_target_domain :: "network_manager \<Rightarrow> network_manager" where
  "clear_target_domain m =
     m\<lparr>nm_document_reload_tracker := 0, nm_document_target_url := [], nm_document_target_domain := []\<rparr>"

section \<open>Verdicts on a URL\<close>

definition url_path_with_leading_slash :: "string \<Rightarrow> string option" where
  "url_path_with_leading_slash url =
     (case find_str ''//'' url of
        None \<Rightarrow> None
      | Some idx \<Rightarrow> (case memchr (CHR ''/'') (drop (idx + 2) url) of
            None \<Rightarrow> None
          | Some slash_rel \<Rightarrow> Some (drop (idx + 2 + slash_rel) url)))"

definition strip_query_fragment :: "string \<Rightarrow> string" where
  "strip_query_fragment s = (case find_first (\<lambda>c. c = CHR ''?'' \<or> c = CHR ''#'') s of Some i \<Rightarrow> take i s | None \<Rightarrow> s)"

text \<open>The part after the last \<open>/\<close>, \<open>rsplit('/').next()\<close>.\<close>

definition base_name :: "string \<Rightarrow> string" where
  "base_name s = (case memrchr (CHR ''/'') s of Some i \<Rightarrow> drop (Suc i) s | None \<Rightarrow> s)"

definition should_block_script_blocklist_only :: "externals \<Rightarrow> network_manager \<Rightarrow> string \<Rightarrow> bool" where
  "should_block_script_blocklist_only x m url =
     (let block_analytics = nm_block_analytics m in
      if block_analytics \<and> url_ignore_trie x url then True
      else if block_website x url then True
      else (case url_path_with_leading_slash url of
          None \<Rightarrow> False
        | Some path_with_slash \<Rightarrow>
            let p_slash = strip_query_fragment path_with_slash;
                p_noslash = (case strip_prefix ''/'' p_slash of Some p \<Rightarrow> p | None \<Rightarrow> p_slash);
                base = base_name p_slash
            in if block_analytics \<and> url_ignore_trie_paths x p_slash then True
               else if block_analytics \<and> url_ignore_trie_paths x p_noslash then True
               else if block_analytics \<and> url_ignore_trie_paths x base then True
               else if script_base_paths x p_noslash then True
               else if nm_ignore_visuals m \<and> script_styles_paths x p_noslash then True
               else False))"

text \<open>The asset test of \<open>skip_xhr\<close>, on the text behind the last dot.\<close>

definition blocked_asset :: "externals \<Rightarrow> network_manager \<Rightarrow> string \<Rightarrow> bool" where
  "blocked_asset x m url =
     (case memrchr (CHR ''.'') url of
        None \<Rightarrow> False
      | Some position \<Rightarrow>
          if length url - position \<ge> 3
          then
            let ext = drop (Suc position) url in
            if nm_ignore_visuals m \<and> list_ex (ci_eq x ext) IGNORE_XHR_ASSETS then True
            else if nm_block_stylesheets m then ci_contains x ext ''css''
            else False
          else False)"

definition skip_xhr :: "externals \<Rightarrow> network_manager \<Rightarrow> bool \<Rightarrow> string \<Rightarrow> bool \<Rightarrow> bool" where
  "skip_xhr x m skip_networking url network_event =
     (if \<not> skip_networking \<and> network_event
      then
        let skip_analytics = nm_block_analytics m \<and> (ignore_script_xhr x url \<or> block_xhr x url) in
        if skip_analytics then True
        else if nm_block_stylesheets m \<or> nm_ignore_visuals m
        then
          let block_request = blocked_asset x m url in
          if \<not> block_request then ignore_script_xhr_media x url else block_request
        else skip_networking
      else skip_networking)"

definition should_skip_for_visuals_and_basic :: "network_manager \<Rightarrow> resource_type \<Rightarrow> bool" where
  "should_skip_for_visuals_and_basic m t =
     (nm_ignore_visuals m \<and> resource_str t \<in> set IGNORE_VISUAL_RESOURCE_MAP
      \<or> nm_block_stylesheets m \<and> t = Stylesheet)"

text \<open>\<open>detect_ad\<close>, in the build with the ad engine.\<close>

definition request_hostname :: "string \<Rightarrow> string \<Rightarrow> string" where
  "request_hostname source_domain u =
     (case (case strip_prefix ''https://'' u of Some rest \<Rightarrow> Some rest | None \<Rightarrow> strip_prefix ''http://'' u) of
        None \<Rightarrow> source_domain
      | Some rest \<Rightarrow>
          let authority = takeWhile (\<lambda>c. c \<noteq> CHR ''/'') rest;
              authority = (case memrchr (CHR ''@'') authority of Some i \<Rightarrow> drop (Suc i) authority | None \<Rightarrow> authority)
          in takeWhile (\<lambda>c. c \<noteq> CHR '':'') authority)"

definition adblock_type :: "resource_type \<Rightarrow> string" where
  "adblock_type t = (case t of Script \<Rightarrow> ''script'' | Image \<Rightarrow> ''image'' | Media \<Rightarrow> ''media''
     | Stylesheet \<Rightarrow> ''stylesheet'' | Document \<Rightarrow> ''document'' | Fetch \<Rightarrow> ''fetch'' | Xhr \<Rightarrow> ''xhr'' | _ \<Rightarrow> ''other'')"

definition detect_ad :: "externals \<Rightarrow> network_manager \<Rightarrow> event_request_paused \<Rightarrow> bool" where
  "detect_ad x m ev =
     (let t = rp_resource_type ev;
          blockable = (t \<in> {Script, Image, Media, Stylesheet, Document, Fetch, Xhr}) in
      if \<not> blockable then False
      else
        let u = rp_url ev;
            source_domain = (if nm_document_target_domain m = [] then ''example.com'' else nm_document_target_domain m);
            hostname = request_hostname source_domain u;
            same_site = (case rp_is_same_site ev of None \<Rightarrow> False | Some b \<Rightarrow> b)
        in adblock_matched x (nm_adblock_engine m) u hostname source_domain (adblock_type t) (\<not> same_site))"

definition detect_ad_if_enabled :: "externals \<Rightarrow> network_manager \<Rightarrow> event_request_paused \<Rightarrow> bool \<Rightarrow> bool" where
  "detect_ad_if_enabled x m ev skip_networking =
     (if skip_networking then True
      else block_ads x (rp_url ev) \<or> (feature_adblock x \<and> detect_ad x m ev))"

section \<open>Answers to a paused request\<close>

definition fail_request_blocked :: "interception_id \<Rightarrow> network_manager \<Rightarrow> network_manager" where
  "fail_request_blocked i m = push_cdp_request (FetchFailRequest i) m"

definition fulfill_request_empty_200 :: "interception_id \<Rightarrow> network_manager \<Rightarrow> network_manager" where
  "fulfill_request_empty_200 i m = push_cdp_request (FetchFulfillRequest i 200 None None) m"

definition fulfill_request_from_cache :: "externals \<Rightarrow> interception_id \<Rightarrow> cached_item \<Rightarrow> network_manager \<Rightarrow> network_manager" where
  "fulfill_request_from_cache x i item m = push_cdp_request
     (FetchFulfillRequest i (ci_status item) (Some (ci_headers item)) (Some (base64_encode x (ci_body item)))) m"

definition continue_request_with_url :: "interception_id \<Rightarrow> string option \<Rightarrow> bool \<Rightarrow> network_manager \<Rightarrow> network_manager" where
  "continue_request_with_url i url intercept_response m = push_cdp_request
     (case url of Some u \<Rightarrow> FetchContinueRequest i (Some u) (Some intercept_response)
       | None \<Rightarrow> FetchContinueRequest i None None) m"

section \<open>The table of requests\<close>

text \<open>\<open>str::replace(p, "")\<close>.\<close>

function remove_all_str :: "string \<Rightarrow> string \<Rightarrow> string" where
  "remove_all_str p s = (if p = [] \<or> s = [] then s
     else if starts_with p s then remove_all_str p (drop (length p) s)
     else hd s # remove_all_str p (tl s))"
  by pat_completeness auto

termination remove_all_str
  by (relation "measure (\<lambda>(p, s). length s)") (auto simp: neq_Nil_conv)

declare remove_all_str.simps [simp del]

text \<open>Writing through the index panics unless the headers are an object (or null); the browser
  sends objects.\<close>

definition set_location :: "string \<Rightarrow> net_response \<Rightarrow> net_response" where
  "set_location l r = (case json_set (nr_headers r) ''Location'' (JString l) of
     Some h \<Rightarrow> r\<lparr>nr_headers := h\<rparr> | None \<Rightarrow> r)"

text \<open>The relative location of a redirect, when the response is one that names another place.\<close>

definition redirect_location :: "net_response \<Rightarrow> string option" where
  "redirect_location resp =
     (if is_redirect_status (nr_status resp)
      then (case as_str (json_index (nr_headers resp) ''Location'') of
          Some location \<Rightarrow>
            if nr_url resp \<noteq> location then Some (remove_all_str (nr_url resp) location) else None
        | None \<Rightarrow> None)
      else None)"

definition handle_request_redirect ::
  "net_response \<Rightarrow> http_request \<Rightarrow> network_manager \<Rightarrow> http_request \<times> network_manager" where
  "handle_request_redirect resp request m =
     (HttpRequest_set_response resp request,
      case request_interception_id request of
        Some i \<Rightarrow> m\<lparr>nm_attempted_authentications := nm_attempted_authentications m - {i}\<rparr>
      | None \<Rightarrow> m)"

text \<open>The first part of \<open>on_request\<close>: a redirect closes the request under the same id, which
  becomes the last element of the chain of the new one.\<close>

definition close_redirected ::
  "event_request_will_be_sent \<Rightarrow> network_manager \<Rightarrow> http_request list \<times> network_manager" where
  "close_redirected ev m =
     (case rw_redirect_response ev of
        None \<Rightarrow> ([], m)
      | Some resp \<Rightarrow> (case hm_get (nm_requests m) (rw_request_id ev) of
            None \<Rightarrow> ([], m)
          | Some request \<Rightarrow>
              let m = m\<lparr>nm_requests := hm_remove (rw_request_id ev) (nm_requests m)\<rparr>;
                  location = redirect_location resp;
                  request = (case location of
                      Some l \<Rightarrow> if l \<noteq> [] then hr_map (\<lambda>f. f\<lparr>hr_response := map_option (set_location l) (hr_response f)\<rparr>) request
                                else request
                    | None \<Rightarrow> request);
                  resp = (case location of Some l \<Rightarrow> if l \<noteq> [] then set_location l resp else resp | None \<Rightarrow> resp);
                  (request, m) = handle_request_redirect resp request m
              in (hr_redirect_chain request @ [HttpRequest (hr_fields request) []], m)))"

definition on_request ::
  "event_request_will_be_sent \<Rightarrow> interception_id option \<Rightarrow> instant \<Rightarrow> network_manager \<Rightarrow> network_manager" where
  "on_request ev iid now m0 =
     (let (redirect_chain, m) = close_redirected ev m0 in
      if (case nm_max_redirects m of None \<Rightarrow> False
          | Some cap \<Rightarrow> rw_type ev = Some Document \<and> length redirect_chain > cap)
      then
        let failed = hr_map (\<lambda>f. f\<lparr>hr_url := Some (rw_url ev), hr_method := Some (rw_method ev),
              hr_failure_text := Some ''net::ERR_TOO_MANY_REDIRECTS''\<rparr>)
            (HttpRequest_new (rw_request_id ev) (rw_frame_id ev) iid (nm_user_interception m) redirect_chain now)
        in queue_event (RequestFailed failed) (push_cdp_request PageStopLoading m)
      else
        let request = HttpRequest_new (rw_request_id ev) (rw_frame_id ev) iid (nm_user_interception m) redirect_chain now;
            m = queue_event (NetRequest (rw_request_id ev)) m
        in m\<lparr>nm_requests := hm_insert (rw_request_id ev) request (nm_requests m)\<rparr>)"

definition on_request_will_be_sent :: "event_request_will_be_sent \<Rightarrow> instant \<Rightarrow> network_manager \<Rightarrow> network_manager" where
  "on_request_will_be_sent ev now m =
     (if nm_protocol_interception m \<and> \<not> starts_with ''data:'' (rw_url ev)
      then (case hm_get (nm_interception_ids m) (rw_request_id ev) of
          Some (iid, _) \<Rightarrow> on_request ev (Some iid) now
            (m\<lparr>nm_interception_ids := hm_remove (rw_request_id ev) (nm_interception_ids m)\<rparr>)
        | None \<Rightarrow> m\<lparr>nm_requests_will_be_sent :=
              hm_insert (rw_request_id ev) (ev, now) (nm_requests_will_be_sent m)\<rparr>)
      else on_request ev None now m)"

definition on_request_served_from_cache :: "request_id \<Rightarrow> network_manager \<Rightarrow> network_manager" where
  "on_request_served_from_cache i m =
     m\<lparr>nm_requests := hm_modify i (hr_map (\<lambda>f. f\<lparr>hr_from_memory_cache := True\<rparr>)) (nm_requests m)\<rparr>"

definition content_length :: "net_response \<Rightarrow> u64 option" where
  "content_length resp = Option.bind (json_get (nr_headers resp) ''content-length'')
     (\<lambda>v. Option.bind (as_str v) (\<lambda>s. parse_u64 (trim_space s)))"

text \<open>The byte budget after a response.\<close>

definition deduct_budget :: "net_response \<Rightarrow> u64 \<Rightarrow> u64" where
  "deduct_budget resp before =
     (let b = saturating_sub64 before (f64_as_u64 (nr_encoded_data_length resp)) in
      case content_length resp of Some cl \<Rightarrow> if cl > b then 0 else b | None \<Rightarrow> b)"

text \<open>Charging a response: the bytes go off the budget, and an empty budget blocks everything.\<close>

definition charge_response :: "net_response \<Rightarrow> network_manager \<Rightarrow> bool \<times> network_manager" where
  "charge_response resp m =
     (case nm_max_bytes_allowed m of
        None \<Rightarrow> (False, m)
      | Some before \<Rightarrow>
          let left = deduct_budget resp before;
              deducted = saturating_sub64 before left;
              request_failed = (left = 0);
              m = m\<lparr>nm_max_bytes_allowed := Some left\<rparr>;
              m = (if deducted > 0 then queue_event (BytesConsumed deducted) m else m)
          in (request_failed, if request_failed then set_block_all True m else m))"

definition on_response_received :: "request_id \<Rightarrow> net_response \<Rightarrow> network_manager \<Rightarrow> network_manager" where
  "on_response_received i resp m =
     (let (request_failed, m) = charge_response resp m
      in (case hm_get (nm_requests m) i of
          None \<Rightarrow> m
        | Some request \<Rightarrow>
            let request = HttpRequest_set_response resp request;
                m = m\<lparr>nm_requests := hm_remove i (nm_requests m)\<rparr>
            in queue_event (if request_failed then RequestFailed request else RequestDone request) m))"

definition forget_authentication :: "http_request \<Rightarrow> network_manager \<Rightarrow> network_manager" where
  "forget_authentication r m = (case request_interception_id r of
     Some i \<Rightarrow> m\<lparr>nm_attempted_authentications := nm_attempted_authentications m - {i}\<rparr> | None \<Rightarrow> m)"

definition on_network_loading_finished :: "request_id \<Rightarrow> network_manager \<Rightarrow> network_manager" where
  "on_network_loading_finished i m =
     (case hm_get (nm_requests m) i of
        None \<Rightarrow> m
      | Some r \<Rightarrow> queue_event (RequestDone r)
          (forget_authentication r (m\<lparr>nm_requests := hm_remove i (nm_requests m)\<rparr>)))"

definition on_network_loading_failed :: "request_id \<Rightarrow> string \<Rightarrow> network_manager \<Rightarrow> network_manager" where
  "on_network_loading_failed i text m =
     (case hm_get (nm_requests m) i of
        None \<Rightarrow> m
      | Some r \<Rightarrow>
          let r = hr_map (\<lambda>f. f\<lparr>hr_failure_text := Some text\<rparr>) r
          in queue_event (RequestFailed r)
            (forget_authentication r (m\<lparr>nm_requests := hm_remove i (nm_requests m)\<rparr>)))"

definition on_fetch_auth_required :: "interception_id \<Rightarrow> network_manager \<Rightarrow> network_manager" where
  "on_fetch_auth_required i m =
     (let (response, m) =
        (if i \<in> nm_attempted_authentications m then (CancelAuth, m)
         else if nm_credentials m \<noteq> None
         then (ProvideCredentials, m\<lparr>nm_attempted_authentications := insert i (nm_attempted_authentications m)\<rparr>)
         else (AuthDefault, m))
      in push_cdp_request (FetchContinueWithAuth i response
        (map_option cr_username (nm_credentials m)) (map_option cr_password (nm_credentials m))) m)"

section \<open>The interception decision\<close>

text \<open>\<open>handle_document_replacement_and_tracking\<close>: the masked url a redirect loop produces, with
  what it is replaced by.\<close>

definition redirect_replacement :: "string \<Rightarrow> string \<Rightarrow> string option" where
  "redirect_replacement target current_url =
     (let (http_document_replacement, https_document_replacement) =
        (if starts_with ''http://'' target
         then (replace_first ''http://'' ''http//'' target, replace_first ''http://'' ''https://'' target)
         else (replace_first ''https://'' ''https//'' target, replace_first ''https://'' ''http://'' target));
          trailing = ends_with ''/'' https_document_replacement;
          https1 = (if trailing then butlast https_document_replacement else https_document_replacement);
          https2 = (if ends_with ''/'' https1 then butlast https1 else https1)
      in if current_url = https2 @ http_document_replacement
         then Some (if trailing then https2 @ ''/'' else https2) else None)"

definition handle_document_replacement_and_tracking ::
  "event_request_paused \<Rightarrow> bool \<Rightarrow> network_manager \<Rightarrow> string \<times> bool \<times> network_manager" where
  "handle_document_replacement_and_tracking ev document_resource m =
     (let current_url = rp_url ev;
          replacer = (if document_resource \<and> nm_document_target_url m \<noteq> current_url \<and>
                nm_document_target_url m \<noteq> [] \<and> rp_redirected_request_id ev \<noteq> None
              then redirect_replacement (nm_document_target_url m) current_url else None);
          m' = (if document_resource
              then m\<lparr>nm_document_reload_tracker := (if nm_document_target_url m = current_url
                       then nm_document_reload_tracker m + 1 else nm_document_reload_tracker m),
                     nm_xml_document := (if nm_document_target_url m = [] \<and> ends_with ''.xml'' current_url
                       then True else nm_xml_document m),
                     nm_document_target_url := current_url,
                     nm_document_target_domain := url_base current_url\<rparr>
              else m)
      in (case replacer of Some r \<Rightarrow> r | None \<Rightarrow> current_url, replacer \<noteq> None, m'))"

text \<open>Joining the paused request with the buffered \<open>requestWillBeSent\<close>, or buffering its own id.\<close>

definition match_paused :: "event_request_paused \<Rightarrow> instant \<Rightarrow> network_manager \<Rightarrow> network_manager" where
  "match_paused ev now m =
     (case rp_network_id ev of
        None \<Rightarrow> m
      | Some nid \<Rightarrow> (case hm_get (nm_requests_will_be_sent m) nid of
            Some (sent, _) \<Rightarrow> on_request sent (Some (rp_request_id ev)) now
              (m\<lparr>nm_requests_will_be_sent := hm_remove nid (nm_requests_will_be_sent m)\<rparr>)
          | None \<Rightarrow> m\<lparr>nm_interception_ids := hm_insert nid (rp_request_id ev, now) (nm_interception_ids m)\<rparr>))"

text \<open>The checks before the url is known.\<close>

definition initial_skip :: "network_manager \<Rightarrow> event_request_paused \<Rightarrow> bool" where
  "initial_skip m ev =
     (let skip_networking = nm_block_all m \<or> resource_str (rp_resource_type ev) \<in> set IGNORE_NETWORKING_RESOURCE_MAP;
          skip_networking = (if rp_resource_type ev = Prefetch \<and> \<not> nm_block_prefetch m then True else skip_networking)
      in if \<not> skip_networking then nm_document_reload_tracker m \<ge> 3 else skip_networking)"

text \<open>The checks by which a request is blocked, in the order of the code.\<close>

definition block_decision ::
  "externals \<Rightarrow> network_manager \<Rightarrow> event_request_paused \<Rightarrow> string \<Rightarrow> bool \<Rightarrow> bool \<Rightarrow> bool" where
  "block_decision x m ev current_url had_replacer skip0 =
     (let t = rp_resource_type ev;
          javascript_resource = (t = Script);
          document_resource = (t = Document);
          network_resource = (\<not> document_resource \<and> is_data_resource t);
          skip1 = (if \<not> nm_blacklist_strict m \<and> is_blacklisted x m current_url then True else skip0);
          skip2 = (if \<not> skip1
             then (if nm_xml_document m \<and> ends_with ''.xsl'' current_url then False
                   else should_skip_for_visuals_and_basic m t)
             else skip1);
          is_main_document_request = (document_resource \<and>
             (rp_redirected_request_id ev \<noteq> None \<or> had_replacer \<or> nm_document_target_url m = [] \<or>
              rp_url ev = nm_document_target_url m));
          skip3 = (if \<not> is_main_document_request then detect_ad_if_enabled x m ev skip2 else skip2);
          skip4 = (if \<not> skip3 \<and> nm_block_javascript m \<and> (nm_only_html m \<or> nm_ignore_visuals m) \<and>
                (javascript_resource \<or> document_resource \<or> t = Stylesheet \<or> t = Image)
             then ignore_script_embedded x current_url else skip3);
          skip5 = (if \<not> skip4 \<and> javascript_resource
             then should_block_script_blocklist_only x m current_url else skip4);
          skip6 = skip_xhr x m skip5 (rp_url ev) network_resource;
          skip7 = (if \<not> skip6 \<and> (javascript_resource \<or> network_resource \<or> document_resource)
             then intercept_detection x (nm_intercept_manager m) current_url (nm_ignore_visuals m) network_resource
             else skip6)
      in if \<not> skip7 \<and> (javascript_resource \<or> network_resource) then block_website x current_url else skip7)"

text \<open>The exceptions that let a blocked request through after all.\<close>

definition first_party_allowed :: "network_manager \<Rightarrow> resource_type \<Rightarrow> bool" where
  "first_party_allowed m t =
     (if t = Stylesheet then nm_allow_first_party_stylesheets m
      else if t = Script then nm_allow_first_party_javascript m
      else if resource_str t \<in> set IGNORE_VISUAL_RESOURCE_MAP then nm_allow_first_party_visuals m
      else False)"

definition allow_decision ::
  "externals \<Rightarrow> network_manager \<Rightarrow> event_request_paused \<Rightarrow> string \<Rightarrow> initiator_type option \<Rightarrow> bool \<Rightarrow> bool" where
  "allow_decision x m ev current_url initiator skip0 =
     (let t = rp_resource_type ev;
          skip1 = (if skip0 \<and> t = Script \<and> ac_is_match x JS_FRAMEWORK_ALLOW_3RD_PARTY current_url then False else skip0);
          skip2 = (if skip1 \<and> is_whitelisted x m current_url then False else skip1);
          skip3 = (if skip2 \<and> nm_document_target_domain m \<noteq> []
             then (if first_party_allowed m t \<and> is_first_party_url m current_url then False else skip2)
             else skip2)
      in if skip3 \<and> nm_allow_first_party_stylesheets m \<and> nm_block_stylesheets m \<and> t = Stylesheet \<and>
            initiator \<noteq> Some InitScript
         then False else skip3)"

definition skip_decision ::
  "externals \<Rightarrow> network_manager \<Rightarrow> event_request_paused \<Rightarrow> string \<Rightarrow> bool \<Rightarrow> initiator_type option \<Rightarrow> bool \<Rightarrow> bool" where
  "skip_decision x m ev current_url had_replacer initiator skip0 =
     (let skip = allow_decision x m ev current_url initiator
            (block_decision x m ev current_url had_replacer skip0)
      in if nm_blacklist_strict m \<and> is_blacklisted x m current_url then True else skip)"

text \<open>A request that may pass: from the session cache, or on to the network.\<close>

definition cached_answer :: "externals \<Rightarrow> network_manager \<Rightarrow> event_request_paused \<Rightarrow> string \<Rightarrow> cached_item option" where
  "cached_answer x m ev current_url =
     (if \<not> feature_cache x then None
      else (case (nm_cache_policy m, nm_cache_site_key m) of
          (Some policy, Some key) \<Rightarrow> (case session_cache x key (rp_method ev @ '':'' @ current_url) of
              Some item \<Rightarrow> if allows_cached (system_now x) policy item then Some item else None
            | None \<Rightarrow> None)
        | _ \<Rightarrow> None))"

definition allow_request ::
  "externals \<Rightarrow> event_request_paused \<Rightarrow> string \<Rightarrow> bool \<Rightarrow> network_manager \<Rightarrow> network_manager" where
  "allow_request x ev current_url had_replacer m =
     (case cached_answer x m ev current_url of
        Some item \<Rightarrow> fulfill_request_from_cache x (rp_request_id ev) item m
      | None \<Rightarrow> continue_request_with_url (rp_request_id ev)
          (if had_replacer then Some current_url else None) (\<not> had_replacer) m)"

definition on_fetch_request_paused ::
  "externals \<Rightarrow> event_request_paused \<Rightarrow> instant \<Rightarrow> network_manager \<Rightarrow> network_manager" where
  "on_fetch_request_paused x ev now m =
     (if nm_user_interception m \<and> nm_protocol_interception m then m
      else if nm_block_all m then fail_request_blocked (rp_request_id ev) m
      else
        let initiator = Option.bind (rp_network_id ev)
              (\<lambda>nid. map_option (\<lambda>(sent, _). rw_initiator_type sent) (hm_get (nm_requests_will_be_sent m) nid));
            m = match_paused ev now m;
            skip0 = initial_skip m ev;
            (current_url, had_replacer, m) =
              handle_document_replacement_and_tracking ev (rp_resource_type ev = Document) m
        in if skip_decision x m ev current_url had_replacer initiator skip0
           then fulfill_request_empty_200 (rp_request_id ev) m
           else allow_request x ev current_url had_replacer m)"

end
