(* ===== verification/Net_Machine.thy ===== *)
theory Net_Machine
  imports Network
begin

text \<open>
  The network manager as a machine. Every operation only appends to the queue of events, so what
  the target sees is exactly what was emitted, in order; on that rest the accounts of requests
  (announced and concluded) and of bytes (consumed and left).
\<close>

section \<open>Inputs\<close>

datatype nm_input =
    RequestPaused event_request_paused instant
  | AuthRequired interception_id
  | RequestWillBeSent event_request_will_be_sent instant
  | ServedFromCache request_id
  | ResponseReceived request_id net_response
  | LoadingFinished request_id
  | LoadingFailed request_id string
  | EvictEntries instant
  | SetInterception bool
  | Authenticate credentials
  | SetExtraHeaders "(string, string) hash_map"
  | SetCacheEnabled bool
  | SetOffline bool
  | SetBypassServiceWorker bool
  | SetPageUrl string
  | ClearTargetDomain
  | SetBlockAll bool
  | EnableIntercept
  | DisableIntercept
  | SetWhitelist "string list"
  | SetBlacklist "string list"
  | ClearBlacklist
  | SetBlacklistStrict bool
  | PollNetwork

fun nm_step :: "externals \<Rightarrow> network_manager \<Rightarrow> nm_input \<Rightarrow> network_manager" where
  "nm_step x m (RequestPaused ev now) = on_fetch_request_paused x ev now m"
| "nm_step x m (AuthRequired i) = on_fetch_auth_required i m"
| "nm_step x m (RequestWillBeSent ev now) = on_request_will_be_sent ev now m"
| "nm_step x m (ServedFromCache i) = on_request_served_from_cache i m"
| "nm_step x m (ResponseReceived i resp) = on_response_received i resp m"
| "nm_step x m (LoadingFinished i) = on_network_loading_finished i m"
| "nm_step x m (LoadingFailed i t) = on_network_loading_failed i t m"
| "nm_step x m (EvictEntries now) = evict_stale_entries now m"
| "nm_step x m (SetInterception b) = set_request_interception b m"
| "nm_step x m (Authenticate c) = authenticate c m"
| "nm_step x m (SetExtraHeaders hs) = set_extra_headers hs m"
| "nm_step x m (SetCacheEnabled b) = set_cache_enabled b m"
| "nm_step x m (SetOffline b) = set_offline_mode b m"
| "nm_step x m (SetBypassServiceWorker b) = set_service_worker_enabled b m"
| "nm_step x m (SetPageUrl u) = set_page_url x u m"
| "nm_step x m ClearTargetDomain = clear_target_domain m"
| "nm_step x m (SetBlockAll b) = set_block_all b m"
| "nm_step x m EnableIntercept = enable_request_intercept m"
| "nm_step x m DisableIntercept = disable_request_intercept m"
| "nm_step x m (SetWhitelist ps) = set_whitelist_patterns x ps m"
| "nm_step x m (SetBlacklist ps) = set_blacklist_patterns x ps m"
| "nm_step x m ClearBlacklist = clear_blacklist m"
| "nm_step x m (SetBlacklistStrict b) = set_blacklist_strict b m"
| "nm_step x m PollNetwork = snd (NetworkManager_poll m)"

fun nm_polled :: "network_manager \<Rightarrow> nm_input \<Rightarrow> network_event list" where
  "nm_polled m PollNetwork = (case fst (NetworkManager_poll m) of None \<Rightarrow> [] | Some ev \<Rightarrow> [ev])"
| "nm_polled m _ = []"

text \<open>What a step adds at the end of the queue.\<close>

definition nm_emitted :: "externals \<Rightarrow> network_manager \<Rightarrow> nm_input \<Rightarrow> network_event list" where
  "nm_emitted x m e = drop (length (nm_queued_events m)) (nm_queued_events (nm_step x m e))"

section \<open>The setters, seen through the state they change\<close>

text \<open>A step whose effect on the queue is to append.\<close>

definition appends :: "network_manager \<Rightarrow> network_manager \<Rightarrow> network_event list \<Rightarrow> bool" where
  "appends m m' evs \<longleftrightarrow> nm_queued_events m' = nm_queued_events m @ evs"

lemma queue_event_queue [simp]: "nm_queued_events (queue_event ev m) = nm_queued_events m @ [ev]"
  by (simp add: queue_event_def)

lemma push_queue [simp]: "nm_queued_events (push_cdp_request c m) =
    nm_queued_events m @ [SendCdpRequest (method_identifier c) (to_value c)]"
  by (simp add: push_cdp_request_def)

text \<open>Queueing changes nothing but the queue.\<close>

lemma queue_event_fields [simp]:
  "nm_requests (queue_event ev m) = nm_requests m"
  "nm_requests_will_be_sent (queue_event ev m) = nm_requests_will_be_sent m"
  "nm_interception_ids (queue_event ev m) = nm_interception_ids m"
  "nm_attempted_authentications (queue_event ev m) = nm_attempted_authentications m"
  "nm_credentials (queue_event ev m) = nm_credentials m"
  "nm_max_bytes_allowed (queue_event ev m) = nm_max_bytes_allowed m"
  "nm_block_all (queue_event ev m) = nm_block_all m"
  "nm_max_redirects (queue_event ev m) = nm_max_redirects m"
  "nm_user_interception (queue_event ev m) = nm_user_interception m"
  "nm_protocol_interception (queue_event ev m) = nm_protocol_interception m"
  "nm_blacklist_patterns (queue_event ev m) = nm_blacklist_patterns m"
  "nm_blacklist_matcher (queue_event ev m) = nm_blacklist_matcher m"
  "nm_blacklist_strict (queue_event ev m) = nm_blacklist_strict m"
  by (simp_all add: queue_event_def)

lemma push_fields [simp]:
  "nm_requests (push_cdp_request c m) = nm_requests m"
  "nm_requests_will_be_sent (push_cdp_request c m) = nm_requests_will_be_sent m"
  "nm_interception_ids (push_cdp_request c m) = nm_interception_ids m"
  "nm_attempted_authentications (push_cdp_request c m) = nm_attempted_authentications m"
  "nm_credentials (push_cdp_request c m) = nm_credentials m"
  "nm_max_bytes_allowed (push_cdp_request c m) = nm_max_bytes_allowed m"
  "nm_block_all (push_cdp_request c m) = nm_block_all m"
  "nm_max_redirects (push_cdp_request c m) = nm_max_redirects m"
  "nm_user_interception (push_cdp_request c m) = nm_user_interception m"
  "nm_protocol_interception (push_cdp_request c m) = nm_protocol_interception m"
  "nm_blacklist_patterns (push_cdp_request c m) = nm_blacklist_patterns m"
  "nm_blacklist_matcher (push_cdp_request c m) = nm_blacklist_matcher m"
  "nm_blacklist_strict (push_cdp_request c m) = nm_blacklist_strict m"
  by (simp_all add: push_cdp_request_def)

lemmas setter_defs = set_request_interception_def update_protocol_request_interception_def authenticate_def
  set_extra_headers_def set_cache_enabled_def update_protocol_cache_disabled_def set_offline_mode_def
  set_service_worker_enabled_def set_page_url_def emit_request_policy_def clear_target_domain_def
  set_block_all_def enable_request_intercept_def disable_request_intercept_def set_whitelist_patterns_def
  set_blacklist_patterns_def rebuild_whitelist_matcher_def rebuild_blacklist_matcher_def clear_blacklist_def
  set_blacklist_strict_def

text \<open>The answers to a paused request change nothing but the queue, and queue one command.\<close>

lemmas answer_defs = fail_request_blocked_def fulfill_request_empty_200_def fulfill_request_from_cache_def
  continue_request_with_url_def

lemma tracking_fields [simp]:
  assumes "handle_document_replacement_and_tracking ev d m = (u, r, m')"
  shows "nm_requests m' = nm_requests m"
    and "nm_requests_will_be_sent m' = nm_requests_will_be_sent m"
    and "nm_interception_ids m' = nm_interception_ids m"
    and "nm_attempted_authentications m' = nm_attempted_authentications m"
    and "nm_credentials m' = nm_credentials m"
    and "nm_queued_events m' = nm_queued_events m"
    and "nm_max_bytes_allowed m' = nm_max_bytes_allowed m"
    and "nm_block_all m' = nm_block_all m"
    and "nm_max_redirects m' = nm_max_redirects m"
    and "nm_blacklist_patterns m' = nm_blacklist_patterns m"
    and "nm_blacklist_matcher m' = nm_blacklist_matcher m"
    and "nm_blacklist_strict m' = nm_blacklist_strict m"
  using assms by (auto simp: handle_document_replacement_and_tracking_def Let_def split: if_splits)

text \<open>The one answer a paused request gets.\<close>

definition paused_answer :: "network_event \<Rightarrow> interception_id option" where
  "paused_answer ev = (case ev of
      SendCdpRequest meth params \<Rightarrow>
        if meth \<in> {''Fetch.failRequest'', ''Fetch.fulfillRequest'', ''Fetch.continueRequest''}
        then as_str (json_index params ''requestId'') else None
    | _ \<Rightarrow> None)"

lemma answer_one:
  "paused_answer (SendCdpRequest (method_identifier (FetchFailRequest i)) (to_value (FetchFailRequest i))) = Some i"
  "paused_answer (SendCdpRequest (method_identifier (FetchFulfillRequest i c hs b)) (to_value (FetchFulfillRequest i c hs b))) = Some i"
  "paused_answer (SendCdpRequest (method_identifier (FetchContinueRequest i u r)) (to_value (FetchContinueRequest i u r))) = Some i"
  by (simp_all add: paused_answer_def json_index_def json_get_def)

lemma allow_request_queue:
  "\<exists>ev. allow_request x p u r m = queue_event ev m \<and> paused_answer ev = Some (rp_request_id p)"
  by (auto simp: allow_request_def answer_defs push_cdp_request_def answer_one simp del: method_identifier.simps to_value.simps
      split: option.split)

section \<open>The books: requests and bytes\<close>

fun event_request :: "network_event \<Rightarrow> request_id option" where
  "event_request (RequestFailed r) = Some (hr_request_id (hr_fields r))"
| "event_request (RequestDone r) = Some (hr_request_id (hr_fields r))"
| "event_request _ = None"

definition announced :: "request_id \<Rightarrow> network_event list \<Rightarrow> nat" where
  "announced i evs = length (filter (\<lambda>e. e = NetRequest i) evs)"

definition concluded :: "request_id \<Rightarrow> network_event list \<Rightarrow> nat" where
  "concluded i evs = length (filter (\<lambda>e. event_request e = Some i) evs)"

fun event_bytes :: "network_event \<Rightarrow> nat" where
  "event_bytes (BytesConsumed n) = unat n"
| "event_bytes _ = 0"

definition consumed :: "network_event list \<Rightarrow> nat" where
  "consumed evs = sum_list (map event_bytes evs)"

definition in_flight :: "request_id \<Rightarrow> network_manager \<Rightarrow> nat" where
  "in_flight i m = (if hm_get (nm_requests m) i = None then 0 else 1)"

text \<open>Requests are stored under their own id.\<close>

definition keyed :: "network_manager \<Rightarrow> bool" where
  "keyed m \<longleftrightarrow> (\<forall>i r. hm_get (nm_requests m) i = Some r \<longrightarrow> hr_request_id (hr_fields r) = i)"

text \<open>What a step may do to the books, when it adds \<open>evs\<close> to the queue.\<close>

definition balanced :: "network_manager \<Rightarrow> network_manager \<Rightarrow> network_event list \<Rightarrow> bool" where
  "balanced m m' evs \<longleftrightarrow> nm_queued_events m' = nm_queued_events m @ evs \<and> keyed m' \<and>
     (\<forall>i. concluded i evs + in_flight i m' \<le> in_flight i m + announced i evs) \<and>
     (case nm_max_bytes_allowed m of
        None \<Rightarrow> nm_max_bytes_allowed m' = None \<and> consumed evs = 0
      | Some b \<Rightarrow> (\<exists>b'. nm_max_bytes_allowed m' = Some b' \<and> unat b' + consumed evs = unat b))"

lemma books_simps [simp]:
  "announced i [] = 0" "concluded i [] = 0" "consumed [] = 0"
  "announced i (e # evs) = (if e = NetRequest i then 1 else 0) + announced i evs"
  "concluded i (e # evs) = (if event_request e = Some i then 1 else 0) + concluded i evs"
  "consumed (e # evs) = event_bytes e + consumed evs"
  "announced i (evs @ evs') = announced i evs + announced i evs'"
  "concluded i (evs @ evs') = concluded i evs + concluded i evs'"
  "consumed (evs @ evs') = consumed evs + consumed evs'"
  by (simp_all add: announced_def concluded_def consumed_def)

lemma balanced_trans:
  assumes "balanced m1 m2 e1" and "balanced m2 m3 e2"
  shows "balanced m1 m3 (e1 @ e2)"
proof -
  have "concluded i (e1 @ e2) + in_flight i m3 \<le> in_flight i m1 + announced i (e1 @ e2)" for i
  proof -
    from assms have "concluded i e1 + in_flight i m2 \<le> in_flight i m1 + announced i e1"
      "concluded i e2 + in_flight i m3 \<le> in_flight i m2 + announced i e2" by (auto simp: balanced_def)
    then show ?thesis by simp
  qed
  moreover have "case nm_max_bytes_allowed m1 of
        None \<Rightarrow> nm_max_bytes_allowed m3 = None \<and> consumed (e1 @ e2) = 0
      | Some b \<Rightarrow> (\<exists>b'. nm_max_bytes_allowed m3 = Some b' \<and> unat b' + consumed (e1 @ e2) = unat b)"
    using assms unfolding balanced_def by (cases "nm_max_bytes_allowed m1") auto
  ultimately show ?thesis using assms unfolding balanced_def by auto
qed

text \<open>Steps that leave the table of requests and the budget alone and announce nothing.\<close>

lemma balanced_quiet:
  assumes "keyed m" and "nm_queued_events m' = nm_queued_events m @ evs"
    and "nm_requests m' = nm_requests m" and "nm_max_bytes_allowed m' = nm_max_bytes_allowed m"
    and "\<forall>e \<in> set evs. \<exists>k p. e = SendCdpRequest k p"
  shows "balanced m m' evs"
proof -
  have "consumed evs = 0 \<and> (\<forall>i. announced i evs = 0 \<and> concluded i evs = 0)"
    using assms(5) by (induction evs) auto
  then show ?thesis
    using assms by (auto simp: balanced_def keyed_def in_flight_def split: option.split)
qed

lemma balanced_same: "keyed m \<Longrightarrow> nm_queued_events m' = nm_queued_events m \<Longrightarrow> nm_requests m' = nm_requests m \<Longrightarrow>
    nm_max_bytes_allowed m' = nm_max_bytes_allowed m \<Longrightarrow> balanced m m' []"
  by (rule balanced_quiet) auto

text \<open>A request leaves the table with its concluding event.\<close>

lemma balanced_conclude:
  assumes "keyed m" and "hm_get (nm_requests m) i = Some r" and "event_request e = Some i" and "event_bytes e = 0"
    and "nm_queued_events m' = nm_queued_events m @ [e]"
    and "nm_requests m' = hm_remove i (nm_requests m)" and "nm_max_bytes_allowed m' = nm_max_bytes_allowed m"
  shows "balanced m m' [e]"
proof -
  have "\<forall>j. e \<noteq> NetRequest j" using assms(3) by auto
  then show ?thesis
    using assms by (auto simp: balanced_def keyed_def in_flight_def split: option.split)
qed

section \<open>Redirects and new requests\<close>

lemma close_redirected_facts:
  assumes "close_redirected ev m = (chain, m1)"
  shows "nm_queued_events m1 = nm_queued_events m" and "nm_max_bytes_allowed m1 = nm_max_bytes_allowed m"
    and "nm_max_redirects m1 = nm_max_redirects m" and "nm_user_interception m1 = nm_user_interception m"
    and "nm_attempted_authentications m1 \<subseteq> nm_attempted_authentications m"
    and "chain = [] \<Longrightarrow> m1 = m"
    and "chain \<noteq> [] \<Longrightarrow> hm_get (nm_requests m) (rw_request_id ev) \<noteq> None \<and>
      nm_requests m1 = hm_remove (rw_request_id ev) (nm_requests m)"
  using assms by (auto simp: close_redirected_def handle_request_redirect_def Let_def
      split: option.splits prod.splits if_splits)

lemma on_request_balanced:
  assumes "keyed m"
  shows "\<exists>evs. balanced m (on_request ev iid now m) evs"
proof -
  obtain chain m1 where c: "close_redirected ev m = (chain, m1)" by (cases "close_redirected ev m")
  note f = close_redirected_facts [OF c]
  show ?thesis
  proof (cases "case nm_max_redirects m1 of None \<Rightarrow> False | Some cap \<Rightarrow> rw_type ev = Some Document \<and> length chain > cap")
    case True
    then have ne: "chain \<noteq> []" by (auto split: option.splits)
    let ?failed = "hr_map (\<lambda>f. f\<lparr>hr_url := Some (rw_url ev), hr_method := Some (rw_method ev),
              hr_failure_text := Some ''net::ERR_TOO_MANY_REDIRECTS''\<rparr>)
            (HttpRequest_new (rw_request_id ev) (rw_frame_id ev) iid (nm_user_interception m1) chain now)"
    have "on_request ev iid now m = queue_event (RequestFailed ?failed) (push_cdp_request PageStopLoading m1)"
      using True c by (simp add: on_request_def)
    then show ?thesis
      using assms f(1,2) f(7) [OF ne]
      by (intro exI [of _ "[SendCdpRequest (method_identifier PageStopLoading) (to_value PageStopLoading), RequestFailed ?failed]"])
        (auto simp: balanced_def keyed_def in_flight_def split: option.split)
  next
    case False
    let ?r = "HttpRequest_new (rw_request_id ev) (rw_frame_id ev) iid (nm_user_interception m1) chain now"
    have step: "on_request ev iid now m = (queue_event (NetRequest (rw_request_id ev)) m1)\<lparr>nm_requests :=
        hm_insert (rw_request_id ev) ?r (nm_requests m1)\<rparr>"
      using False c by (simp add: on_request_def Let_def)
    have "hm_get (nm_requests m1) k = Some r \<Longrightarrow> hm_get (nm_requests m) k = Some r"
      and "hm_get (nm_requests m) k = None \<Longrightarrow> hm_get (nm_requests m1) k = None" for k r
      using f(6,7) by (cases "chain = []"; auto split: if_splits)+
    then have "balanced m (on_request ev iid now m) [NetRequest (rw_request_id ev)]"
      using assms f(1,2) unfolding step balanced_def keyed_def in_flight_def
      by (auto simp: f split: option.splits if_splits) 
    then show ?thesis ..
  qed
qed

lemma will_be_sent_balanced:
  assumes "keyed m"
  shows "\<exists>evs. balanced m (on_request_will_be_sent ev now m) evs"
proof (cases "nm_protocol_interception m \<and> \<not> starts_with ''data:'' (rw_url ev)")
  case False
  with on_request_balanced [OF assms] show ?thesis by (auto simp: on_request_will_be_sent_def)
next
  case True
  show ?thesis
  proof (cases "hm_get (nm_interception_ids m) (rw_request_id ev)")
    case None
    then have "balanced m (on_request_will_be_sent ev now m) []"
      using True by (intro balanced_same [OF assms]) (auto simp: on_request_will_be_sent_def)
    then show ?thesis ..
  next
    case (Some p)
    let ?m = "m\<lparr>nm_interception_ids := hm_remove (rw_request_id ev) (nm_interception_ids m)\<rparr>"
    have "keyed ?m" using assms by (simp add: keyed_def)
    then obtain evs where "balanced ?m (on_request ev (Some (fst p)) now ?m) evs"
      using on_request_balanced by blast
    moreover have "balanced m ?m []" by (rule balanced_same [OF assms]) auto
    ultimately show ?thesis
      using True Some balanced_trans by (fastforce simp: on_request_will_be_sent_def split: prod.splits)
  qed
qed

lemma match_paused_balanced:
  assumes "keyed m"
  shows "\<exists>evs. balanced m (match_paused ev now m) evs"
proof (cases "Option.bind (rp_network_id ev) (hm_get (nm_requests_will_be_sent m))")
  case None
  then have "balanced m (match_paused ev now m) []"
    by (intro balanced_same [OF assms]) (auto simp: match_paused_def split: option.splits)
  then show ?thesis ..
next
  case (Some p)
  then obtain nid where nid: "rp_network_id ev = Some nid" "hm_get (nm_requests_will_be_sent m) nid = Some p"
    by (auto simp: bind_eq_Some_conv)
  let ?m = "m\<lparr>nm_requests_will_be_sent := hm_remove nid (nm_requests_will_be_sent m)\<rparr>"
  have "keyed ?m" using assms by (simp add: keyed_def)
  then obtain evs where "balanced ?m (on_request (fst p) (Some (rp_request_id ev)) now ?m) evs"
    using on_request_balanced by blast
  moreover have "balanced m ?m []" by (rule balanced_same [OF assms]) auto
  ultimately show ?thesis using nid balanced_trans by (fastforce simp: match_paused_def split: prod.splits)
qed

section \<open>Every step keeps the books\<close>

lemma paused_balanced:
  assumes "keyed m"
  shows "\<exists>evs. balanced m (on_fetch_request_paused x p now m) evs"
proof (cases "(nm_user_interception m \<and> nm_protocol_interception m) \<or> nm_block_all m")
  case True
  then have "balanced m (on_fetch_request_paused x p now m)
      (if nm_user_interception m \<and> nm_protocol_interception m then []
       else [SendCdpRequest (method_identifier (FetchFailRequest (rp_request_id p))) (to_value (FetchFailRequest (rp_request_id p)))])"
    by (intro balanced_quiet [OF assms]) (auto simp: on_fetch_request_paused_def answer_defs)
  then show ?thesis ..
next
  case False
  let ?m1 = "match_paused p now m"
  obtain u r m2 where t: "handle_document_replacement_and_tracking p (rp_resource_type p = Document) ?m1 = (u, r, m2)"
    by (metis prod_cases3)
  obtain evs where e: "balanced m ?m1 evs" using match_paused_balanced [OF assms] by blast
  then have "keyed ?m1" by (simp add: balanced_def)
  moreover have "balanced ?m1 m2 []"
    by (rule balanced_same [OF \<open>keyed ?m1\<close>]) (rule tracking_fields [OF t])+
  moreover have "\<exists>ev k q. on_fetch_request_paused x p now m = queue_event ev m2 \<and> ev = SendCdpRequest k q"
    using False t
    by (auto simp: on_fetch_request_paused_def Let_def allow_request_def answer_defs push_cdp_request_def split: option.split)
  then obtain k q where "on_fetch_request_paused x p now m = queue_event (SendCdpRequest k q) m2" by blast
  moreover have "keyed m2" using calculation(2) by (simp add: balanced_def)
  then have "balanced m2 (queue_event (SendCdpRequest k q) m2) [SendCdpRequest k q]"
    by (intro balanced_quiet) auto
  ultimately show ?thesis using e balanced_trans by metis
qed

lemma deduct_budget_le: "unat (deduct_budget resp before) \<le> unat before"
  by (auto simp: deduct_budget_def Let_def unat_saturating_sub64 split: option.split)

lemma charge_balanced:
  assumes "keyed m"
  shows "\<exists>evs. balanced m (snd (charge_response resp m)) evs"
proof (cases "nm_max_bytes_allowed m")
  case None
  with balanced_same [OF assms, of m] show ?thesis by (auto simp: charge_response_def)
next
  case (Some b)
  define d where "d = saturating_sub64 b (deduct_budget resp b)"
  define evs where "evs = (if d > 0 then [BytesConsumed d] else [])"
  have "unat d + unat (deduct_budget resp b) = unat b"
    using deduct_budget_le [of resp b] by (simp add: d_def unat_saturating_sub64)
  moreover have "d > 0 \<longleftrightarrow> unat d > 0" by (simp add: word_less_nat_alt)
  ultimately have bytes: "unat (deduct_budget resp b) + consumed evs = unat b" by (simp add: evs_def)
  have quiet: "concluded i evs = 0 \<and> announced i evs = 0" for i by (simp add: evs_def)
  let ?m = "snd (charge_response resp m)"
  have "nm_queued_events ?m = nm_queued_events m @ evs" "nm_requests ?m = nm_requests m"
    "nm_max_bytes_allowed ?m = Some (deduct_budget resp b)"
    by (simp_all add: charge_response_def Some Let_def set_block_all_def evs_def d_def)
  with assms Some bytes quiet have "balanced m ?m evs" by (simp add: balanced_def keyed_def in_flight_def)
  then show ?thesis ..
qed

lemma response_balanced:
  assumes "keyed m"
  shows "\<exists>evs. balanced m (on_response_received i resp m) evs"
proof -
  obtain f m1 where c: "charge_response resp m = (f, m1)" by (cases "charge_response resp m")
  with charge_balanced [OF assms, of resp] obtain evs where b1: "balanced m m1 evs" by auto
  then have keyed: "keyed m1" by (simp add: balanced_def)
  show ?thesis
  proof (cases "hm_get (nm_requests m1) i")
    case None
    with b1 c show ?thesis by (auto simp: on_response_received_def)
  next
    case (Some r)
    then have id: "hr_request_id (hr_fields r) = i" using keyed by (simp add: keyed_def)
    have "balanced m1 (on_response_received i resp m)
        [if f then RequestFailed (HttpRequest_set_response resp r) else RequestDone (HttpRequest_set_response resp r)]"
      using Some id c by (intro balanced_conclude [OF keyed Some])
        (auto simp: on_response_received_def HttpRequest_set_response_def Let_def)
    with b1 show ?thesis using balanced_trans by blast
  qed
qed

lemma loading_balanced:
  assumes "keyed m"
  shows "\<exists>evs. balanced m (on_network_loading_finished i m) evs"
    and "\<exists>evs. balanced m (on_network_loading_failed i text m) evs"
proof -
  show "\<exists>evs. balanced m (on_network_loading_finished i m) evs"
  proof (cases "hm_get (nm_requests m) i")
    case None
    with balanced_same [OF assms, of m] show ?thesis by (auto simp: on_network_loading_finished_def)
  next
    case (Some r)
    then have "balanced m (on_network_loading_finished i m) [RequestDone r]"
      using assms by (intro balanced_conclude [OF assms Some])
        (auto simp: on_network_loading_finished_def forget_authentication_def keyed_def split: option.split)
    then show ?thesis ..
  qed
  show "\<exists>evs. balanced m (on_network_loading_failed i text m) evs"
  proof (cases "hm_get (nm_requests m) i")
    case None
    with balanced_same [OF assms, of m] show ?thesis by (auto simp: on_network_loading_failed_def)
  next
    case (Some r)
    then have "balanced m (on_network_loading_failed i text m) [RequestFailed (hr_map (\<lambda>f. f\<lparr>hr_failure_text := Some text\<rparr>) r)]"
      using assms by (intro balanced_conclude [OF assms Some])
        (auto simp: on_network_loading_failed_def forget_authentication_def keyed_def Let_def split: option.split)
    then show ?thesis ..
  qed
qed

lemma evict_balanced:
  assumes "keyed m"
  shows "balanced m (evict_stale_entries now m) []"
  using assms by (auto simp: balanced_def keyed_def in_flight_def evict_stale_entries_def Let_def split: option.splits if_splits)

lemma served_balanced:
  assumes "keyed m"
  shows "balanced m (on_request_served_from_cache i m) []"
  using assms by (auto simp: balanced_def keyed_def in_flight_def on_request_served_from_cache_def split: option.splits if_splits)

lemma setter_balanced:
  assumes "keyed m"
  shows "\<exists>evs. balanced m (on_fetch_auth_required i m) evs"
    and "\<exists>evs. balanced m (set_request_interception b m) evs"
    and "\<exists>evs. balanced m (authenticate c m) evs"
    and "\<exists>evs. balanced m (set_extra_headers hs m) evs"
    and "\<exists>evs. balanced m (set_cache_enabled b m) evs"
    and "\<exists>evs. balanced m (set_offline_mode b m) evs"
    and "\<exists>evs. balanced m (set_service_worker_enabled b m) evs"
    and "\<exists>evs. balanced m (set_page_url x u m) evs"
proof -
  have quiet: "\<exists>evs. balanced m m' evs"
    if "nm_requests m' = nm_requests m" "nm_max_bytes_allowed m' = nm_max_bytes_allowed m"
      "\<exists>evs. nm_queued_events m' = nm_queued_events m @ evs \<and> (\<forall>e \<in> set evs. \<exists>k p. e = SendCdpRequest k p)" for m'
    using that balanced_quiet [OF assms] by blast
  show "\<exists>evs. balanced m (on_fetch_auth_required i m) evs"
    by (rule quiet) (auto simp: on_fetch_auth_required_def Let_def)
  show "\<exists>evs. balanced m (set_request_interception b m) evs"
    by (rule quiet) (auto simp: setter_defs Let_def)
  show "\<exists>evs. balanced m (authenticate c m) evs"
    by (rule quiet) (auto simp: setter_defs Let_def)
  show "\<exists>evs. balanced m (set_extra_headers hs m) evs"
    by (rule quiet) (auto simp: setter_defs Let_def)
  show "\<exists>evs. balanced m (set_cache_enabled b m) evs"
    by (rule quiet) (auto simp: setter_defs Let_def)
  show "\<exists>evs. balanced m (set_offline_mode b m) evs"
    by (rule quiet) (auto simp: setter_defs Let_def)
  show "\<exists>evs. balanced m (set_service_worker_enabled b m) evs"
    by (rule quiet) (auto simp: setter_defs Let_def)
  show "\<exists>evs. balanced m (set_page_url x u m) evs"
    by (rule quiet) (auto simp: setter_defs Let_def)
qed

lemma step_balanced:
  assumes "keyed m" and "e \<noteq> PollNetwork"
  shows "balanced m (nm_step x m e) (nm_emitted x m e)"
proof -
  have "\<exists>evs. balanced m (nm_step x m e) evs"
  proof (cases e)
    case ClearTargetDomain
    then show ?thesis by (intro exI [of _ "[]"] balanced_same [OF assms(1)]) (auto simp: setter_defs)
  next
    case (SetBlockAll b)
    then show ?thesis by (intro exI [of _ "[]"] balanced_same [OF assms(1)]) (auto simp: setter_defs)
  next
    case EnableIntercept
    then show ?thesis by (intro exI [of _ "[]"] balanced_same [OF assms(1)]) (auto simp: setter_defs)
  next
    case DisableIntercept
    then show ?thesis by (intro exI [of _ "[]"] balanced_same [OF assms(1)]) (auto simp: setter_defs)
  next
    case (SetWhitelist ps)
    then show ?thesis by (intro exI [of _ "[]"] balanced_same [OF assms(1)]) (auto simp: setter_defs)
  next
    case (SetBlacklist ps)
    then show ?thesis by (intro exI [of _ "[]"] balanced_same [OF assms(1)]) (auto simp: setter_defs)
  next
    case ClearBlacklist
    then show ?thesis by (intro exI [of _ "[]"] balanced_same [OF assms(1)]) (auto simp: setter_defs)
  next
    case (SetBlacklistStrict b)
    then show ?thesis by (intro exI [of _ "[]"] balanced_same [OF assms(1)]) (auto simp: setter_defs)
  qed (use assms in \<open>auto simp: paused_balanced response_balanced loading_balanced setter_balanced
      will_be_sent_balanced intro: evict_balanced served_balanced\<close>)
  then obtain evs where b: "balanced m (nm_step x m e) evs" ..
  then have "nm_emitted x m e = evs" by (simp add: balanced_def nm_emitted_def)
  with b show ?thesis by simp
qed

lemma poll_queue_split: "nm_polled m PollNetwork @ nm_queued_events (nm_step x m PollNetwork) = nm_queued_events m"
  by (auto simp: NetworkManager_poll_def split: list.split)

lemma poll_fields [simp]:
  "nm_requests (snd (NetworkManager_poll m)) = nm_requests m"
  "nm_max_bytes_allowed (snd (NetworkManager_poll m)) = nm_max_bytes_allowed m"
  "nm_blacklist_patterns (snd (NetworkManager_poll m)) = nm_blacklist_patterns m"
  "nm_blacklist_matcher (snd (NetworkManager_poll m)) = nm_blacklist_matcher m"
  "nm_attempted_authentications (snd (NetworkManager_poll m)) = nm_attempted_authentications m"
  "nm_credentials (snd (NetworkManager_poll m)) = nm_credentials m"
  by (auto simp: NetworkManager_poll_def split: list.split)

lemma nm_step_keyed: "keyed m \<Longrightarrow> keyed (nm_step x m e)"
  using step_balanced [of m e x] by (cases "e = PollNetwork") (auto simp: balanced_def keyed_def)

interpretation net: fifo_machine "nm_step x" keyed nm_queued_events nm_polled "nm_emitted x" for x
proof unfold_locales
  fix m e
  assume k: "keyed m"
  show "keyed (nm_step x m e)" using k by (rule nm_step_keyed)
  show "nm_polled m e @ nm_queued_events (nm_step x m e) = nm_queued_events m @ nm_emitted x m e"
  proof (cases "e = PollNetwork")
    case True
    then show ?thesis using poll_queue_split [of m x]
      by (auto simp: nm_emitted_def NetworkManager_poll_def split: list.split)
  next
    case False
    then have "nm_polled m e = []" by (cases e) auto
    with step_balanced [OF k False, of x] show ?thesis by (simp add: balanced_def)
  qed
qed

text \<open>Adding up the books over a run.\<close>

lemma run_balanced:
  assumes "keyed m"
  shows "concluded i (collect (nm_step x) (nm_emitted x) m es) + in_flight i (run (nm_step x) m es)
      \<le> in_flight i m + announced i (collect (nm_step x) (nm_emitted x) m es)"
    and "case nm_max_bytes_allowed m of
        None \<Rightarrow> nm_max_bytes_allowed (run (nm_step x) m es) = None
      | Some b \<Rightarrow> (\<exists>b'. nm_max_bytes_allowed (run (nm_step x) m es) = Some b' \<and>
          unat b' + consumed (collect (nm_step x) (nm_emitted x) m es) = unat b)"
  using assms
proof (induction es arbitrary: m)
  case Nil
  {
    case 1
    then show ?case by simp
  next
    case 2
    then show ?case by (simp split: option.split)
  }
next
  case (Cons e es)
  have k: "keyed (nm_step x m e)" if "keyed m" for m using that by (rule nm_step_keyed)
  have b: "concluded i (nm_emitted x m e) + in_flight i (nm_step x m e) \<le> in_flight i m + announced i (nm_emitted x m e) \<and>
     (case nm_max_bytes_allowed m of
        None \<Rightarrow> nm_max_bytes_allowed (nm_step x m e) = None
      | Some b \<Rightarrow> (\<exists>b'. nm_max_bytes_allowed (nm_step x m e) = Some b' \<and> unat b' + consumed (nm_emitted x m e) = unat b))"
    if "keyed m" for m
  proof (cases "e = PollNetwork")
    case True
    then show ?thesis
      by (auto simp: nm_emitted_def in_flight_def NetworkManager_poll_def split: list.split option.split)
  next
    case False
    from step_balanced [OF that False, of x] show ?thesis by (auto simp: balanced_def split: option.splits)
  qed
  {
    case 1
    from Cons.IH(1) [OF k [OF 1]] b [OF 1] show ?case by simp
  next
    case 2
    from Cons.IH(2) [OF k [OF 2]] b [OF 2] show ?case by (auto split: option.splits)
  }
qed

lemma new_keyed: "keyed (NetworkManager_new b t)"
  by (simp add: keyed_def NetworkManager_new_def)

section \<open>External code for the examples\<close>

text \<open>Matchers that never match, apart from patterns, which are looked for literally.\<close>

definition demo_externals :: externals where
  "demo_externals = \<lparr>feature_firewall = False, feature_adblock = False, feature_cache = False,
     url_ignore_trie = (\<lambda>_. False), url_ignore_trie_paths = (\<lambda>_. False), script_base_paths = (\<lambda>_. False),
     script_styles_paths = (\<lambda>_. False), embedded_trie = (\<lambda>_. False), xhr_trie = (\<lambda>_. False),
     xhr_media_trie = (\<lambda>_. False), intercept_detection = (\<lambda>_ _ _ _. False), bad_website_url = (\<lambda>_. False),
     networking_website_url = (\<lambda>_. False), ad_website_url = (\<lambda>_. False), adblock_matched = (\<lambda>_ _ _ _ _ _. False),
     ac_builds = (\<lambda>_. True), ac_is_match = (\<lambda>ps s. list_ex (\<lambda>p. str_contains p s) ps),
     ci_eq = eq_ignore_ascii_case, ci_contains = (\<lambda>s p. str_contains (ascii_lower p) (ascii_lower s)),
     session_cache = (\<lambda>_ _. None), base64_encode = (\<lambda>s. s), system_now = 0\<rparr>"

end
