(* ===== verification/Net_Props.thy ===== *)
theory Net_Props
  imports Net_Machine
begin

text \<open>
  Properties of the network manager: the accounts of requests and bytes over any run, the single
  answer to a paused request, the strict blacklist, authentication without retry loops, the
  redirect cap, and the eviction that bounds the tables.
\<close>

section \<open>Requests and bytes\<close>

text \<open>C9 (requests are concluded at most once). Over any run of a fresh network manager, counting the
  events delivered by \<open>poll\<close> and those still queued: a request id is reported finished or failed at
  most as often as it was announced, and a request still in the table is an announcement not yet
  concluded.\<close>

theorem requests_accounted:
  fixes x b t es
  defines "m \<equiv> run (nm_step x) (NetworkManager_new b t) es"
  defines "events \<equiv> collect (nm_step x) nm_polled (NetworkManager_new b t) es @ nm_queued_events m"
  shows "concluded i events + (if hm_get (nm_requests m) i = None then 0 else 1) \<le> announced i events"
proof -
  have "events = collect (nm_step x) (nm_emitted x) (NetworkManager_new b t) es"
    using net.run_conserve [OF new_keyed, of x b t es] by (simp add: events_def m_def NetworkManager_new_def)
  moreover have "in_flight i (NetworkManager_new b t) = 0" by (simp add: in_flight_def NetworkManager_new_def)
  ultimately show ?thesis
    using run_balanced(1) [OF new_keyed, of i x b t es] by (simp add: m_def in_flight_def)
qed

text \<open>C12 (the byte budget). With a budget configured, over any run the bytes reported as consumed and
  the bytes left add up to the budget: nothing is charged twice or lost, whatever lengths the
  responses claim.\<close>

theorem byte_budget_conserved:
  fixes x b t es budget
  defines "m0 \<equiv> (NetworkManager_new b t)\<lparr>nm_max_bytes_allowed := Some budget\<rparr>"
  defines "events \<equiv> collect (nm_step x) nm_polled m0 es @ nm_queued_events (run (nm_step x) m0 es)"
  shows "\<exists>left. nm_max_bytes_allowed (run (nm_step x) m0 es) = Some left \<and> unat left + consumed events = unat budget"
proof -
  have k: "keyed m0" using new_keyed [of b t] by (simp add: keyed_def m0_def)
  then have "events = collect (nm_step x) (nm_emitted x) m0 es"
    using net.run_conserve [OF k, of x es] by (simp add: events_def m0_def NetworkManager_new_def)
  with run_balanced(2) [OF k, of x es] show ?thesis by (simp add: m0_def)
qed

text \<open>An exhausted budget blocks. A response that leaves no budget is reported as a failure if its
  request is known, and from then on, until the switch is reset, every paused request is failed,
  unless the user handles the interception.\<close>

theorem exhausted_budget_blocks:
  assumes "nm_max_bytes_allowed m = Some before" and "deduct_budget resp before = 0"
    and "\<not> (nm_user_interception m \<and> nm_protocol_interception m)"
  shows "nm_block_all (on_response_received i resp m) \<and>
    (\<forall>r. hm_get (nm_requests m) i = Some r \<longrightarrow>
       last (nm_queued_events (on_response_received i resp m)) = RequestFailed (HttpRequest_set_response resp r)) \<and>
    nm_queued_events (on_fetch_request_paused x p now (on_response_received i resp m)) =
      nm_queued_events (on_response_received i resp m)
        @ [SendCdpRequest ''Fetch.failRequest'' (to_value (FetchFailRequest (rp_request_id p)))]"
  using assms
  by (auto simp: on_response_received_def charge_response_def Let_def set_block_all_def on_fetch_request_paused_def
      answer_defs queue_event_def push_cdp_request_def split: option.splits)

definition demo_response :: net_response where
  "demo_response = \<lparr>nr_url = ''u'', nr_status = 200, nr_headers = JObject [(''content-length'', JString ''70'')],
     nr_encoded_data_length = 60\<rparr>"

definition demo_paused :: "resource_type \<Rightarrow> string \<Rightarrow> event_request_paused" where
  "demo_paused t u = \<lparr>rp_request_id = ''P'', rp_url = u, rp_method = ''GET'', rp_is_same_site = None,
     rp_resource_type = t, rp_network_id = None, rp_redirected_request_id = None\<rparr>"

lemma exhausted_budget_blocks_witness:
  "nm_block_all (on_response_received ''r'' demo_response ((NetworkManager_new True 5)\<lparr>nm_max_bytes_allowed := Some 100\<rparr>))"
proof -
  have "f64_as_u64 60 = 60" by (simp add: f64_as_u64_def)
  then have "deduct_budget demo_response 100 = 0"
    by (simp add: deduct_budget_def demo_response_def content_length_def json_get_def parse_u64_def trim_space_def is_space_def
        is_ascii_digit_def digits_value_def saturating_sub64_def)
  then show ?thesis
    using exhausted_budget_blocks [of "(NetworkManager_new True 5)\<lparr>nm_max_bytes_allowed := Some 100\<rparr>" 100 demo_response
        "''r''" demo_externals "demo_paused Script ''u''" 0]
    by (simp add: NetworkManager_new_def)
qed

section \<open>The answer to a paused request\<close>

lemma on_request_no_answer:
  "\<exists>evs. nm_queued_events (on_request ev iid now m) = nm_queued_events m @ evs \<and> List.map_filter paused_answer evs = []"
proof -
  obtain chain m1 where c: "close_redirected ev m = (chain, m1)" by (cases "close_redirected ev m")
  have q: "nm_queued_events m1 = nm_queued_events m" by (rule close_redirected_facts [OF c])
  show ?thesis
    by (auto simp: on_request_def c q Let_def paused_answer_def List.map_filter_def)
qed

lemma match_paused_no_answer:
  "\<exists>evs. nm_queued_events (match_paused p now m) = nm_queued_events m @ evs \<and> List.map_filter paused_answer evs = []"
proof (cases "Option.bind (rp_network_id p) (hm_get (nm_requests_will_be_sent m))")
  case None
  then have "nm_queued_events (match_paused p now m) = nm_queued_events m"
    by (auto simp: match_paused_def split: option.splits)
  then show ?thesis by (simp add: List.map_filter_def)
next
  case (Some s)
  then obtain nid where "rp_network_id p = Some nid" "hm_get (nm_requests_will_be_sent m) nid = Some s"
    by (auto simp: bind_eq_Some_conv)
  with on_request_no_answer [of "fst s" "Some (rp_request_id p)" now
      "m\<lparr>nm_requests_will_be_sent := hm_remove nid (nm_requests_will_be_sent m)\<rparr>"]
  show ?thesis by (cases s) (simp add: match_paused_def)
qed

text \<open>The last command of a handled paused request is its answer.\<close>

lemma paused_queue:
  assumes "\<not> (nm_user_interception m \<and> nm_protocol_interception m)"
  shows "\<exists>evs a. nm_queued_events (on_fetch_request_paused x p now m) = nm_queued_events m @ evs @ [a] \<and>
    List.map_filter paused_answer evs = [] \<and> paused_answer a = Some (rp_request_id p)"
proof (cases "nm_block_all m")
  case True
  with assms have "nm_queued_events (on_fetch_request_paused x p now m) = nm_queued_events m @ [] @
      [SendCdpRequest (method_identifier (FetchFailRequest (rp_request_id p))) (to_value (FetchFailRequest (rp_request_id p)))]"
    by (auto simp: on_fetch_request_paused_def answer_defs)
  moreover have "List.map_filter paused_answer [] = []" by (simp add: List.map_filter_def)
  ultimately show ?thesis using answer_one(1) by blast
next
  case False
  let ?m1 = "match_paused p now m"
  obtain u r m2 where t: "handle_document_replacement_and_tracking p (rp_resource_type p = Document) ?m1 = (u, r, m2)"
    by (metis prod_cases3)
  obtain evs where evs: "nm_queued_events ?m1 = nm_queued_events m @ evs" "List.map_filter paused_answer evs = []"
    using match_paused_no_answer by blast
  have "\<exists>a. on_fetch_request_paused x p now m = queue_event a m2 \<and> paused_answer a = Some (rp_request_id p)"
  proof (cases "skip_decision x m2 p u r (Option.bind (rp_network_id p)
        (\<lambda>nid. map_option (\<lambda>(sent, _). rw_initiator_type sent) (hm_get (nm_requests_will_be_sent m) nid))) (initial_skip ?m1 p)")
    case True
    then have "on_fetch_request_paused x p now m = fulfill_request_empty_200 (rp_request_id p) m2"
      using assms False t by (auto simp: on_fetch_request_paused_def Let_def)
    then show ?thesis using answer_one(2) by (metis fulfill_request_empty_200_def push_cdp_request_def)
  next
    case no: False
    then have "on_fetch_request_paused x p now m = allow_request x p u r m2"
      using assms False t by (auto simp: on_fetch_request_paused_def Let_def)
    then show ?thesis using allow_request_queue by metis
  qed
  then obtain a where "on_fetch_request_paused x p now m = queue_event a m2" "paused_answer a = Some (rp_request_id p)" by blast
  moreover have "nm_queued_events m2 = nm_queued_events ?m1" by (rule tracking_fields [OF t])
  ultimately show ?thesis using evs by auto
qed

text \<open>C7 (a paused request is answered exactly once). Unless the user handles interception, handling
  \<open>Fetch.requestPaused\<close> queues exactly one command that fails, fulfils or continues a request, and it
  names the paused one; so no request is left hanging and none is answered twice. If the user handles
  interception nothing changes.\<close>

theorem paused_request_answered_once:
  "if nm_user_interception m \<and> nm_protocol_interception m then on_fetch_request_paused x p now m = m
   else \<exists>evs. nm_queued_events (on_fetch_request_paused x p now m) = nm_queued_events m @ evs \<and>
     List.map_filter paused_answer evs = [rp_request_id p]"
proof (cases "nm_user_interception m \<and> nm_protocol_interception m")
  case True
  then show ?thesis by (simp add: on_fetch_request_paused_def)
next
  case False
  from paused_queue [OF this, of x p now] obtain evs a where
    q: "nm_queued_events (on_fetch_request_paused x p now m) = nm_queued_events m @ evs @ [a]"
    and "List.map_filter paused_answer evs = []" "paused_answer a = Some (rp_request_id p)" by blast
  then have "List.map_filter paused_answer (evs @ [a]) = [rp_request_id p]" by (simp add: List.map_filter_def)
  with q False show ?thesis by auto
qed

section \<open>The blacklist\<close>

text \<open>What the documentation of the matcher promises: building succeeds, and a text matches when it
  contains one of the patterns.\<close>

definition ac_faithful :: "externals \<Rightarrow> bool" where
  "ac_faithful x \<longleftrightarrow> (\<forall>ps. ac_builds x ps) \<and> (\<forall>ps s. ac_is_match x ps s \<longleftrightarrow> (\<exists>p \<in> set ps. str_contains p s))"

definition matcher_ok :: "externals \<Rightarrow> network_manager \<Rightarrow> bool" where
  "matcher_ok x m \<longleftrightarrow> nm_blacklist_matcher m = build_matcher x (nm_blacklist_patterns m)"

definition same_blacklist :: "network_manager \<Rightarrow> network_manager \<Rightarrow> bool" where
  "same_blacklist m' m \<longleftrightarrow> nm_blacklist_patterns m' = nm_blacklist_patterns m \<and>
     nm_blacklist_matcher m' = nm_blacklist_matcher m \<and> nm_blacklist_strict m' = nm_blacklist_strict m"

lemma same_blacklist_refl [simp]: "same_blacklist m m"
  by (simp add: same_blacklist_def)

lemma on_request_blacklist: "same_blacklist (on_request ev iid now m) m"
proof -
  obtain chain m1 where c: "close_redirected ev m = (chain, m1)" by (cases "close_redirected ev m")
  then have "same_blacklist m1 m"
    by (auto simp: same_blacklist_def close_redirected_def handle_request_redirect_def Let_def
        split: option.splits if_splits)
  then show ?thesis by (auto simp: on_request_def c Let_def same_blacklist_def)
qed

lemma match_paused_blacklist: "same_blacklist (match_paused p now m) m"
proof (cases "Option.bind (rp_network_id p) (hm_get (nm_requests_will_be_sent m))")
  case None
  then show ?thesis by (auto simp: match_paused_def same_blacklist_def split: option.splits)
next
  case (Some s)
  then obtain nid where "rp_network_id p = Some nid" "hm_get (nm_requests_will_be_sent m) nid = Some s"
    by (auto simp: bind_eq_Some_conv)
  with on_request_blacklist [of "fst s" "Some (rp_request_id p)" now
      "m\<lparr>nm_requests_will_be_sent := hm_remove nid (nm_requests_will_be_sent m)\<rparr>"]
  show ?thesis by (cases s) (simp add: match_paused_def same_blacklist_def)
qed

lemma paused_blacklist: "same_blacklist (on_fetch_request_paused x p now m) m"
proof -
  obtain u r m2 where t: "handle_document_replacement_and_tracking p (rp_resource_type p = Document) (match_paused p now m) = (u, r, m2)"
    by (metis prod_cases3)
  have "same_blacklist m2 m"
    using match_paused_blacklist [of p now m] tracking_fields(10-12) [OF t] by (simp add: same_blacklist_def)
  with t show ?thesis
    by (auto simp: on_fetch_request_paused_def Let_def same_blacklist_def allow_request_def answer_defs split: option.split)
qed

lemma will_be_sent_blacklist: "same_blacklist (on_request_will_be_sent ev now m) m"
proof (cases "hm_get (nm_interception_ids m) (rw_request_id ev)")
  case None
  then show ?thesis
    using on_request_blacklist [of ev None now m] by (auto simp: on_request_will_be_sent_def same_blacklist_def)
next
  case (Some q)
  with on_request_blacklist [of ev "Some (fst q)" now "m\<lparr>nm_interception_ids := hm_remove (rw_request_id ev) (nm_interception_ids m)\<rparr>"]
    on_request_blacklist [of ev None now m]
  show ?thesis by (cases q) (auto simp: on_request_will_be_sent_def same_blacklist_def)
qed

lemma matcher_ok_step: "matcher_ok x m \<Longrightarrow> matcher_ok x (nm_step x m e)"
proof (cases e)
  case (RequestPaused p now)
  assume "matcher_ok x m"
  with paused_blacklist [of x p now m] RequestPaused show ?thesis by (simp add: matcher_ok_def same_blacklist_def)
next
  case (RequestWillBeSent ev now)
  assume "matcher_ok x m"
  with will_be_sent_blacklist [of ev now m] RequestWillBeSent show ?thesis by (simp add: matcher_ok_def same_blacklist_def)
qed (auto simp: matcher_ok_def on_fetch_auth_required_def on_request_served_from_cache_def on_response_received_def
    charge_response_def on_network_loading_finished_def on_network_loading_failed_def forget_authentication_def
    evict_stale_entries_def setter_defs build_matcher_def Let_def split: option.split prod.split)

interpretation blacklist: event_machine "nm_step x" "matcher_ok x" for x
  by unfold_locales (rule matcher_ok_step)

lemma new_matcher_ok: "matcher_ok x (NetworkManager_new b t)"
  by (simp add: matcher_ok_def NetworkManager_new_def build_matcher_def)

lemma tracked_url: "rp_redirected_request_id p = None \<Longrightarrow>
    fst (handle_document_replacement_and_tracking p d m) = rp_url p"
  by (simp add: handle_document_replacement_and_tracking_def Let_def)



section \<open>Authentication\<close>

text \<open>The inputs that do not conclude or redirect a request.\<close>

fun keeps_attempts :: "nm_input \<Rightarrow> bool" where
  "keeps_attempts (RequestWillBeSent ev now) \<longleftrightarrow> rw_redirect_response ev = None"
| "keeps_attempts (RequestPaused p now) \<longleftrightarrow> rp_network_id p = None"
| "keeps_attempts (LoadingFinished i) \<longleftrightarrow> False"
| "keeps_attempts (LoadingFailed i t) \<longleftrightarrow> False"
| "keeps_attempts (EvictEntries now) \<longleftrightarrow> False"
| "keeps_attempts _ \<longleftrightarrow> True"

lemma on_request_attempts:
  "rw_redirect_response ev = None \<Longrightarrow>
    nm_attempted_authentications (on_request ev iid now m) = nm_attempted_authentications m"
  by (auto simp: on_request_def close_redirected_def Let_def split: option.split)

lemma attempts_step:
  assumes "keeps_attempts e"
  shows "nm_attempted_authentications m \<subseteq> nm_attempted_authentications (nm_step x m e)"
proof (cases e)
  case (RequestPaused p now)
  then have "match_paused p now m = m" using assms by (simp add: match_paused_def)
  then show ?thesis
    using RequestPaused tracking_fields(4) [of p _ m]
    by (auto simp: on_fetch_request_paused_def Let_def allow_request_def answer_defs split: option.split prod.split)
next
  case (RequestWillBeSent ev now)
  with assms show ?thesis
    by (auto simp: on_request_will_be_sent_def on_request_attempts split: option.split)
qed (use assms in \<open>auto simp: on_fetch_auth_required_def on_request_served_from_cache_def on_response_received_def
    charge_response_def setter_defs Let_def split: option.split prod.split\<close>)

lemma attempts_run: "list_all keeps_attempts es \<Longrightarrow>
    nm_attempted_authentications m \<subseteq> nm_attempted_authentications (run (nm_step x) m es)"
proof (induction es arbitrary: m)
  case (Cons e es)
  then show ?case using attempts_step [of e m x] by fastforce
qed simp

text \<open>No authentication loop. Once credentials were offered for a request, the next challenge for
  it is cancelled, whatever else happens in between, as long as no request is concluded, redirected
  or evicted: wrong credentials are sent once.\<close>

theorem credentials_offered_once:
  assumes "nm_credentials m \<noteq> None" and "list_all keeps_attempts es"
  shows "\<exists>user pw. last (nm_queued_events (on_fetch_auth_required i (run (nm_step x) (on_fetch_auth_required i m) es)))
    = SendCdpRequest ''Fetch.continueWithAuth'' (to_value (FetchContinueWithAuth i CancelAuth user pw))"
proof -
  have "i \<in> nm_attempted_authentications (on_fetch_auth_required i m)"
    using assms(1) by (auto simp: on_fetch_auth_required_def)
  with attempts_run [OF assms(2)]
  have "i \<in> nm_attempted_authentications (run (nm_step x) (on_fetch_auth_required i m) es)" by blast
  then show ?thesis by (auto simp: on_fetch_auth_required_def Let_def)
qed

lemma credentials_offered_once_witness:
  "\<exists>user pw. last (nm_queued_events (on_fetch_auth_required ''i'' (run (nm_step demo_externals) (on_fetch_auth_required ''i''
      (authenticate \<lparr>cr_username = ''u'', cr_password = ''p''\<rparr> (NetworkManager_new True 5))) [SetOffline True, PollNetwork])))
    = SendCdpRequest ''Fetch.continueWithAuth'' (to_value (FetchContinueWithAuth ''i'' CancelAuth user pw))"
  by (rule credentials_offered_once) (simp_all add: authenticate_def update_protocol_request_interception_def Let_def)

section \<open>Redirects\<close>

definition chain_length :: "request_id \<Rightarrow> network_manager \<Rightarrow> nat option" where
  "chain_length i m = map_option (\<lambda>r. length (hr_redirect_chain r)) (hm_get (nm_requests m) i)"

text \<open>A redirect hop of a page: the next \<open>requestWillBeSent\<close> under the same id.\<close>

definition document_hop :: "request_id \<Rightarrow> event_request_will_be_sent \<Rightarrow> bool" where
  "document_hop i ev \<longleftrightarrow> rw_request_id ev = i \<and> rw_redirect_response ev \<noteq> None \<and> rw_type ev = Some Document"

lemma hop_closes:
  assumes "document_hop i ev" and "chain_length i m = Some k"
  shows "\<exists>chain m1. close_redirected ev m = (chain, m1) \<and> length chain = Suc k \<and>
    hm_get (nm_requests m1) i = None \<and> nm_max_redirects m1 = nm_max_redirects m \<and>
    nm_protocol_interception m1 = nm_protocol_interception m"
  using assms by (auto simp: document_hop_def chain_length_def close_redirected_def handle_request_redirect_def Let_def
      split: option.splits)

lemma hop_step:
  assumes hop: "document_hop i ev" and k: "chain_length i m = Some k" and cap: "nm_max_redirects m = Some cap"
    and off: "\<not> nm_protocol_interception m"
  shows "if Suc k \<le> cap
    then chain_length i (on_request_will_be_sent ev now m) = Some (Suc k) \<and>
      nm_max_redirects (on_request_will_be_sent ev now m) = Some cap \<and>
      \<not> nm_protocol_interception (on_request_will_be_sent ev now m)
    else chain_length i (on_request_will_be_sent ev now m) = None \<and>
      (\<exists>f. nm_queued_events (on_request_will_be_sent ev now m) = nm_queued_events m
          @ [SendCdpRequest ''Page.stopLoading'' (JObject []), RequestFailed f] \<and>
        hr_failure_text (hr_fields f) = Some ''net::ERR_TOO_MANY_REDIRECTS'' \<and> length (hr_redirect_chain f) = Suc k)"
proof -
  from hop_closes [OF hop k] obtain chain m1 where c: "close_redirected ev m = (chain, m1)"
    and m1: "length chain = Suc k" "hm_get (nm_requests m1) i = None" "nm_max_redirects m1 = Some cap"
      "\<not> nm_protocol_interception m1" using cap off by auto
  have q: "nm_queued_events m1 = nm_queued_events m" by (rule close_redirected_facts [OF c])
  have i: "rw_request_id ev = i" "rw_type ev = Some Document" using hop by (auto simp: document_hop_def)
  show ?thesis
  proof (cases "Suc k \<le> cap")
    case True
    then show ?thesis
      using m1 i off by (simp add: on_request_will_be_sent_def on_request_def c chain_length_def Let_def)
  next
    case False
    then show ?thesis
      using m1 i off q by (simp add: on_request_will_be_sent_def on_request_def c chain_length_def Let_def)
  qed
qed

lemma hops_run:
  assumes "list_all (\<lambda>(ev, now). document_hop i ev) hops" and "chain_length i m = Some k"
    and "nm_max_redirects m = Some cap" and "\<not> nm_protocol_interception m" and "k + length hops \<le> cap"
  shows "chain_length i (run (nm_step x) m (map (\<lambda>(ev, now). RequestWillBeSent ev now) hops)) = Some (k + length hops) \<and>
    nm_max_redirects (run (nm_step x) m (map (\<lambda>(ev, now). RequestWillBeSent ev now) hops)) = Some cap \<and>
    \<not> nm_protocol_interception (run (nm_step x) m (map (\<lambda>(ev, now). RequestWillBeSent ev now) hops))"
  using assms
proof (induction hops arbitrary: m k)
  case (Cons h hops)
  obtain ev now where h: "h = (ev, now)" by (cases h)
  with Cons.prems hop_step [of i ev m k cap now]
  have "chain_length i (on_request_will_be_sent ev now m) = Some (Suc k)"
    "nm_max_redirects (on_request_will_be_sent ev now m) = Some cap"
    "\<not> nm_protocol_interception (on_request_will_be_sent ev now m)" by auto
  with Cons.IH [of "on_request_will_be_sent ev now m" "Suc k"] Cons.prems h show ?case by simp
qed simp

text \<open>C13 (the redirect cap). With a cap configured and interception off, a page that was requested
  without redirects survives as many redirect hops as the cap allows, its chain recording each; the
  next hop takes the request out of the table, reports it failed with
  \<open>net::ERR_TOO_MANY_REDIRECTS\<close> and the whole chain, and stops the page from loading.\<close>

theorem redirect_cap_enforced:
  fixes x m i
  defines "after \<equiv> \<lambda>hops. run (nm_step x) m (map (\<lambda>(ev, now). RequestWillBeSent ev now) hops)"
  assumes "chain_length i m = Some 0" and "nm_max_redirects m = Some cap" and "\<not> nm_protocol_interception m"
    and "list_all (\<lambda>(ev, now). document_hop i ev) hops" and "length hops = cap" and "document_hop i ev"
  shows "chain_length i (after hops) = Some cap \<and> chain_length i (after (hops @ [(ev, now)])) = None \<and>
    (\<exists>f. nm_queued_events (after (hops @ [(ev, now)])) = nm_queued_events (after hops)
        @ [SendCdpRequest ''Page.stopLoading'' (JObject []), RequestFailed f] \<and>
      hr_failure_text (hr_fields f) = Some ''net::ERR_TOO_MANY_REDIRECTS'' \<and> length (hr_redirect_chain f) = Suc cap)"
proof -
  have "chain_length i (after hops) = Some cap" "nm_max_redirects (after hops) = Some cap"
    "\<not> nm_protocol_interception (after hops)"
    using hops_run [OF assms(5,2,3,4), of x] assms(6) by (simp_all add: after_def)
  with hop_step [OF assms(7) this] show ?thesis by (simp add: after_def run_append)
qed

definition demo_hop :: event_request_will_be_sent where
  "demo_hop = \<lparr>rw_request_id = ''r'', rw_url = ''https://a.com/'', rw_method = ''GET'', rw_redirect_response = Some demo_response,
     rw_type = Some Document, rw_frame_id = None, rw_initiator_type = InitParser\<rparr>"

lemma redirect_cap_enforced_witness:
  "chain_length ''r'' (run (nm_step demo_externals) ((NetworkManager_new True 5)\<lparr>nm_max_redirects := Some 1\<rparr>)
     [RequestWillBeSent (demo_hop\<lparr>rw_redirect_response := None\<rparr>) 0, RequestWillBeSent demo_hop 1, RequestWillBeSent demo_hop 2]) = None"
proof -
  let ?m = "run (nm_step demo_externals) ((NetworkManager_new True 5)\<lparr>nm_max_redirects := Some 1\<rparr>)
     [RequestWillBeSent (demo_hop\<lparr>rw_redirect_response := None\<rparr>) 0]"
  have m: "chain_length ''r'' ?m = Some 0" "nm_max_redirects ?m = Some 1" "\<not> nm_protocol_interception ?m"
    by (simp_all add: chain_length_def demo_hop_def NetworkManager_new_def on_request_will_be_sent_def on_request_def
        close_redirected_def queue_event_def Let_def)
  have h: "list_all (\<lambda>(ev, now). document_hop ''r'' ev) [(demo_hop, 1 :: nat)]" "length [(demo_hop, 1 :: nat)] = 1"
    "document_hop ''r'' demo_hop" by (simp_all add: document_hop_def demo_hop_def)
  from redirect_cap_enforced [OF m h, of demo_externals 2] show ?thesis by (simp del: nm_step.simps add: nm_step.simps(3))
qed

section \<open>First party, documents and static tables\<close>

text \<open>First party means under the page's domain. A URL that the first-party exemption lets through
  has a host, and that host is the page's base domain or a subdomain of it.\<close>

theorem first_party_sound:
  assumes "is_first_party_url m url"
  shows "\<exists>host rest. host_and_rest url = Some (host, rest) \<and> host_is_subdomain_of host (nm_document_target_domain m)"
proof -
  from assms obtain host rest where h: "host_and_rest url = Some (host, rest)"
    and b: "base_domain_from_host host = nm_document_target_domain m" "nm_document_target_domain m \<noteq> []"
    by (auto simp: is_first_party_url_def split: if_splits option.splits)
  have "trim_end_matches (CHR ''.'') host \<noteq> []"
  proof
    assume "trim_end_matches (CHR ''.'') host = []"
    then have "base_domain_from_host host = []"
      by (simp add: base_domain_from_host_def strip_www_def strip_prefix_def starts_with_def memrchr_def memchr_def find_first_def)
    with b show False by simp
  qed
  with h b base_subdomain show ?thesis by metis
qed

lemma first_party_sound_witness:
  "\<exists>host rest. host_and_rest ''https://cdn.a.com/x.js'' = Some (host, rest) \<and>
    host_is_subdomain_of host (nm_document_target_domain (set_page_url demo_externals ''https://a.com/'' (NetworkManager_new True 5)))"
proof (rule first_party_sound)
  have "host_and_rest ''https://cdn.a.com/x.js'' = Some (''cdn.a.com'', ''/x.js'')" by code_simp
  moreover have "base_domain_from_host ''cdn.a.com'' = ''a.com''" by code_simp
  moreover have "url_base ''https://a.com/'' = ''a.com''" by code_simp
  ultimately show "is_first_party_url (set_page_url demo_externals ''https://a.com/'' (NetworkManager_new True 5)) ''https://cdn.a.com/x.js''"
    by (simp add: is_first_party_url_def set_page_url_def emit_request_policy_def NetworkManager_new_def)
qed

lemma tracked_target: "nm_document_target_url (snd (snd (handle_document_replacement_and_tracking p True m))) = rp_url p"
  by (simp add: handle_document_replacement_and_tracking_def Let_def)

text \<open>Documents are never ad-blocked. The answer to a paused document request does not depend on
  the ad lists or the ad engine: the page address was just set to the request's own URL, so every
  document, an iframe's too, counts as the main document.\<close>

theorem documents_ignore_ad_lists:
  assumes "rp_resource_type p = Document"
  shows "on_fetch_request_paused (x\<lparr>ad_website_url := f, adblock_matched := g\<rparr>) p now m = on_fetch_request_paused x p now m"
proof -
  obtain u r m2 where t: "handle_document_replacement_and_tracking p True (match_paused p now m) = (u, r, m2)"
    by (metis prod_cases3)
  have url: "rp_url p = nm_document_target_url m2" using tracked_target [of p "match_paused p now m"] t by simp
  let ?x = "x\<lparr>ad_website_url := f, adblock_matched := g\<rparr>"
  have lists: "is_blacklisted ?x m2 u = is_blacklisted x m2 u" "is_whitelisted ?x m2 u = is_whitelisted x m2 u"
    by (simp_all add: is_blacklisted_def is_whitelisted_def split: option.split)
  have "block_decision ?x m2 p u r s = block_decision x m2 p u r s" for s
    using assms url
    by (simp add: block_decision_def Let_def lists ignore_script_embedded_def
        skip_xhr_def is_data_resource_def cong: if_cong split del: if_split)
  moreover have "allow_decision ?x m2 p u i s = allow_decision x m2 p u i s" for i s
    by (simp add: allow_decision_def lists)
  ultimately have "skip_decision ?x m2 p u r i s = skip_decision x m2 p u r i s" for i s
    by (simp add: skip_decision_def lists)
  moreover have "allow_request ?x p u r m2 = allow_request x p u r m2"
    by (simp add: allow_request_def cached_answer_def fulfill_request_from_cache_def split: option.split)
  ultimately show ?thesis
    using assms t by (simp add: on_fetch_request_paused_def)
qed

lemma documents_ignore_ad_lists_witness:
  "on_fetch_request_paused (demo_externals\<lparr>ad_website_url := (\<lambda>_. True), adblock_matched := (\<lambda>_ _ _ _ _ _. True)\<rparr>)
      (demo_paused Document ''https://ads.com/'') 0 (NetworkManager_new True 5)
    = on_fetch_request_paused demo_externals (demo_paused Document ''https://ads.com/'') 0 (NetworkManager_new True 5)"
  by (rule documents_ignore_ad_lists) (simp add: demo_paused_def)

text \<open>The name in the table of ignored resources is not the protocol's: such reports are not skipped.\<close>

lemma csp_reports_not_skipped:
  "nm_document_reload_tracker m < 3 \<Longrightarrow> \<not> nm_block_all m \<Longrightarrow> rp_resource_type p = CspViolationReport \<Longrightarrow> \<not> initial_skip m p"
  by (simp add: initial_skip_def IGNORE_NETWORKING_RESOURCE_MAP_def not_le)

text \<open>With \<open>block_prefetch\<close> set, a prefetch is not skipped; without it, it is.\<close>

lemma prefetch_skipped_unless_blocked:
  "\<not> nm_block_all m \<Longrightarrow> nm_document_reload_tracker m < 3 \<Longrightarrow> rp_resource_type p = Prefetch \<Longrightarrow>
    initial_skip m p \<longleftrightarrow> \<not> nm_block_prefetch m"
  by (auto simp: initial_skip_def IGNORE_NETWORKING_RESOURCE_MAP_def not_le)

text \<open>Switching the interception on and off again leaves it enabled in the browser.\<close>

lemma interception_never_disabled:
  "nm_queued_events (set_request_interception False (set_request_interception True (NetworkManager_new b t)))
    = [SendCdpRequest ''Fetch.enable'' (to_value FetchEnable)]"
  by (simp add: set_request_interception_def update_protocol_request_interception_def NetworkManager_new_def Let_def)

end
