(* ===== verification/Emulation.thy ===== *)
theory Emulation
  imports Cmd
begin

text \<open>
  The small parts a target is made of: the viewport (\<open>src/handler/viewport.rs\<close>), the emulation
  manager (\<open>src/handler/emulation.rs\<close>), sessions (\<open>src/handler/session.rs\<close>) and browser contexts
  (\<open>src/handler/browser.rs\<close>). A device scale factor is an \<open>f64\<close> that JSON can hold, a rational.
\<close>

record viewport =
  vp_width :: u32
  vp_height :: u32
  vp_device_scale_factor :: "rat option"
  vp_emulating_mobile :: bool
  vp_is_landscape :: bool
  vp_has_touch :: bool

definition Viewport_default :: viewport where
  "Viewport_default = \<lparr>vp_width = 800, vp_height = 600, vp_device_scale_factor = None,
     vp_emulating_mobile = False, vp_is_landscape = False, vp_has_touch = False\<rparr>"

record emulation_manager =
  em_emulating_mobile :: bool
  em_has_touch :: bool
  em_needs_reload :: bool
  em_request_timeout :: duration

definition EmulationManager_new :: "duration \<Rightarrow> emulation_manager" where
  "EmulationManager_new t = \<lparr>em_emulating_mobile = False, em_has_touch = False,
     em_needs_reload = False, em_request_timeout = t\<rparr>"

definition EmulationManager_init_commands ::
  "viewport \<Rightarrow> emulation_manager \<Rightarrow> command_chain \<times> emulation_manager" where
  "EmulationManager_init_commands v em =
     (let (orientation, angle) = (if vp_is_landscape v then (''landscapePrimary'', 90) else (''portraitPrimary'', 0));
          scale = (case vp_device_scale_factor v of None \<Rightarrow> 1 | Some s \<Rightarrow> s)
      in (CommandChain_new
            [command_pair (EmulationSetDeviceMetricsOverride (uint (vp_width v)) (uint (vp_height v)) scale
               (vp_emulating_mobile v) orientation angle),
             command_pair (EmulationSetTouchEmulationEnabled (vp_emulating_mobile v))]
            (em_request_timeout em),
          em\<lparr>em_needs_reload := (em_emulating_mobile em \<noteq> vp_emulating_mobile v
            \<or> em_has_touch em \<noteq> vp_has_touch v)\<rparr>))"

text \<open>What the code does with \<open>has_touch\<close>: nothing reaches the browser, and the flags of the
  manager keep their initial values, so \<open>needs_reload\<close> compares with those.\<close>

lemma touch_flag_ignored:
  "fst (EmulationManager_init_commands (v\<lparr>vp_has_touch := b\<rparr>) em) = fst (EmulationManager_init_commands v em)"
  by (simp add: EmulationManager_init_commands_def Let_def split: prod.split)

lemma emulation_flags_kept:
  "em_emulating_mobile (snd (EmulationManager_init_commands v em)) = em_emulating_mobile em"
  "em_has_touch (snd (EmulationManager_init_commands v em)) = em_has_touch em"
  by (simp_all add: EmulationManager_init_commands_def Let_def split: prod.split)

section \<open>Sessions and browser contexts\<close>

record session =
  se_id :: session_id
  se_target_id :: target_id

definition Session_new :: "session_id \<Rightarrow> target_id \<Rightarrow> session" where
  "Session_new i t = \<lparr>se_id = i, se_target_id = t\<rparr>"

record browser_context =
  bc_id :: "string option"

definition BrowserContext_default :: browser_context where
  "BrowserContext_default = \<lparr>bc_id = None\<rparr>"

definition BrowserContext_from :: "string \<Rightarrow> browser_context" where
  "BrowserContext_from i = \<lparr>bc_id = Some i\<rparr>"

definition is_incognito :: "browser_context \<Rightarrow> bool" where
  "is_incognito c = (bc_id c \<noteq> None)"

definition BrowserContext_take :: "browser_context \<Rightarrow> string option \<times> browser_context" where
  "BrowserContext_take c = (bc_id c, c\<lparr>bc_id := None\<rparr>)"

end
