(* ===== verification/Listeners.thy ===== *)
theory Listeners
  imports Cdp
begin

text \<open>
  \<open>src/listeners.rs\<close>: the event listeners registered for the methods of the protocol, and the
  stream a subscriber reads. A listener has a queue of its own and the sending half of an
  unbounded channel (a channel number; what is sent on it is an output). The global counter
  \<open>NEXT_LISTENER_ID\<close> is an argument of \<open>add_listener\<close>. A flush happens inside one operation of
  the handler, so which receivers are still alive is an argument of it.
\<close>

type_synonym listener_id = u64
type_synonym channel = nat

text \<open>\<open>EventKind\<close>: typed events, and custom ones with their conversion from JSON (\<open>None\<close> for the
  error of \<open>serde_json\<close>).\<close>

datatype 'e event_kind = BuiltIn | Custom "json \<Rightarrow> 'e option"

fun is_custom :: "'e event_kind \<Rightarrow> bool" where
  "is_custom BuiltIn = False"
| "is_custom (Custom _) = True"

record 'e event_listener =
  el_id :: listener_id
  el_listener :: channel
  el_queued :: "'e list"
  el_kind :: "'e event_kind"

type_synonym 'e event_listeners = "(method_id, 'e event_listener list) hash_map"

record event_listener_handle =
  eh_method :: method_id
  eh_id :: listener_id

record 'e listener_request =
  lr_listener :: channel
  lr_method :: method_id
  lr_kind :: "'e event_kind"

section \<open>Registration\<close>

definition add_listener ::
  "listener_id \<Rightarrow> 'e listener_request \<Rightarrow> 'e event_listeners \<Rightarrow> event_listener_handle \<times> 'e event_listeners" where
  "add_listener next_id req ls =
     (let subs = (case hm_get ls (lr_method req) of None \<Rightarrow> [] | Some s \<Rightarrow> s);
          l = \<lparr>el_id = next_id, el_listener = lr_listener req, el_queued = [], el_kind = lr_kind req\<rparr>
      in (\<lparr>eh_method = lr_method req, eh_id = next_id\<rparr>, hm_insert (lr_method req) (subs @ [l]) ls))"

definition remove_listener ::
  "event_listener_handle \<Rightarrow> 'e event_listeners \<Rightarrow> bool \<times> 'e event_listeners" where
  "remove_listener h ls =
     (case hm_get ls (eh_method h) of
        None \<Rightarrow> (False, ls)
      | Some subs \<Rightarrow>
          let kept = filter (\<lambda>s. el_id s \<noteq> eh_id h) subs;
              removed = (length kept \<noteq> length subs);
              ls = hm_insert (eh_method h) kept ls
          in (removed, if kept = [] then hm_remove (eh_method h) ls else ls))"

definition remove_all_for_method :: "method_id \<Rightarrow> 'e event_listeners \<Rightarrow> nat \<times> 'e event_listeners" where
  "remove_all_for_method m ls =
     (case hm_get ls m of None \<Rightarrow> 0 | Some v \<Rightarrow> length v, hm_remove m ls)"

section \<open>Queueing events\<close>

definition EventListener_start_send :: "'e \<Rightarrow> 'e event_listener \<Rightarrow> 'e event_listener" where
  "EventListener_start_send e l = l\<lparr>el_queued := el_queued l @ [e]\<rparr>"

definition start_send :: "method_id \<Rightarrow> 'e \<Rightarrow> 'e event_listeners \<Rightarrow> 'e event_listeners" where
  "start_send m e ls = hm_modify m (map (EventListener_start_send e)) ls"

definition custom_conversion :: "'e event_listener list \<Rightarrow> (json \<Rightarrow> 'e option) option" where
  "custom_conversion subs =
     (case List.map_filter (\<lambda>s. case el_kind s of Custom conv \<Rightarrow> Some conv | BuiltIn \<Rightarrow> None) subs of
        [] \<Rightarrow> None | conv # _ \<Rightarrow> Some conv)"

text \<open>\<open>try_send_custom\<close>: whether the conversion went well, and the listeners.\<close>

definition try_send_custom :: "method_id \<Rightarrow> json \<Rightarrow> 'e event_listeners \<Rightarrow> bool \<times> 'e event_listeners" where
  "try_send_custom m val ls =
     (case hm_get ls m of
        None \<Rightarrow> (True, ls)
      | Some subs \<Rightarrow> (case custom_conversion subs of
            None \<Rightarrow> (True, ls)
          | Some conv \<Rightarrow> (case conv val of
                None \<Rightarrow> (False, ls)
              | Some e \<Rightarrow> (True, hm_insert m
                  (map (\<lambda>s. if is_custom (el_kind s) then EventListener_start_send e s else s) subs) ls))))"

section \<open>Flushing\<close>

text \<open>\<open>flush\<close> of one listener: what reached the channel, whether sending failed, the listener.
  A send on a channel whose receiver is gone fails and loses the event taken from the queue.\<close>

fun flush_queue :: "bool \<Rightarrow> 'e list \<Rightarrow> 'e list \<times> bool \<times> 'e list" where
  "flush_queue alive [] = ([], True, [])"
| "flush_queue alive (e # es) =
     (if alive then (let (sent, ok, rest) = flush_queue alive es in (e # sent, ok, rest))
      else ([], False, es))"

definition EventListener_flush ::
  "(channel \<Rightarrow> bool) \<Rightarrow> 'e event_listener \<Rightarrow> (channel \<times> 'e) list \<times> bool \<times> 'e event_listener" where
  "EventListener_flush alive l =
     (let (sent, ok, rest) = flush_queue (alive (el_listener l)) (el_queued l)
      in (map (Pair (el_listener l)) sent, ok, l\<lparr>el_queued := rest\<rparr>))"

definition flush_subscriptions ::
  "(channel \<Rightarrow> bool) \<Rightarrow> 'e event_listener list \<Rightarrow> (channel \<times> 'e) list \<times> bool \<times> 'e event_listener list" where
  "flush_subscriptions alive subs =
     (concat (map (\<lambda>l. fst (EventListener_flush alive l)) subs),
      list_all (\<lambda>l. fst (snd (EventListener_flush alive l))) subs,
      map (\<lambda>l. snd (snd (EventListener_flush alive l)))
        (filter (\<lambda>l. fst (snd (EventListener_flush alive l))) subs))"

text \<open>\<open>EventListeners::flush\<close> and \<open>poll\<close>, which is the same code.\<close>

definition EventListeners_flush ::
  "(channel \<Rightarrow> bool) \<Rightarrow> 'e event_listeners \<Rightarrow> (channel \<times> 'e) list \<times> 'e event_listeners" where
  "EventListeners_flush alive ls =
     (let sent = concat (map (\<lambda>subs. fst (flush_subscriptions alive subs)) (hm_values ls));
          any_disconnected = (\<not> list_all (\<lambda>subs. fst (snd (flush_subscriptions alive subs))) (hm_values ls));
          ls = map (\<lambda>(k, subs). (k, snd (snd (flush_subscriptions alive subs)))) (AList.clearjunk ls)
      in (sent, if any_disconnected then hm_retain (\<lambda>_ v. v \<noteq> []) ls else ls))"

definition EventListeners_poll ::
  "(channel \<Rightarrow> bool) \<Rightarrow> 'e event_listeners \<Rightarrow> (channel \<times> 'e) list \<times> 'e event_listeners" where
  "EventListeners_poll alive ls =
     (let sent = concat (map (\<lambda>subs. fst (flush_subscriptions alive subs)) (hm_values ls));
          any_disconnected = (\<not> list_all (\<lambda>subs. fst (snd (flush_subscriptions alive subs))) (hm_values ls));
          ls = map (\<lambda>(k, subs). (k, snd (snd (flush_subscriptions alive subs)))) (AList.clearjunk ls)
      in (sent, if any_disconnected then hm_retain (\<lambda>_ v. v \<noteq> []) ls else ls))"

section \<open>The stream of a subscriber\<close>

definition MAX_WRONG_TYPE_PER_POLL :: nat where
  "MAX_WRONG_TYPE_PER_POLL = 32"

datatype 'a stream_poll = StreamItem 'a | StreamEnd | StreamPending bool

text \<open>\<open>poll_next\<close>: \<open>downcast\<close> recognises events of the subscriber's type, \<open>ended\<close> says that every
  sender is gone; the flag of \<open>StreamPending\<close> says that the task woke itself.\<close>

fun stream_loop :: "nat \<Rightarrow> ('e \<Rightarrow> 'a option) \<Rightarrow> bool \<Rightarrow> 'e list \<Rightarrow> 'a stream_poll \<times> 'e list" where
  "stream_loop 0 downcast ended rx = (StreamPending True, rx)"
| "stream_loop (Suc n) downcast ended [] = (if ended then StreamEnd else StreamPending False, [])"
| "stream_loop (Suc n) downcast ended (e # rx) =
     (case downcast e of Some a \<Rightarrow> (StreamItem a, rx) | None \<Rightarrow> stream_loop n downcast ended rx)"

definition EventStream_poll_next :: "('e \<Rightarrow> 'a option) \<Rightarrow> bool \<Rightarrow> 'e list \<Rightarrow> 'a stream_poll \<times> 'e list" where
  "EventStream_poll_next = stream_loop MAX_WRONG_TYPE_PER_POLL"

end
