(* ===== verification/Target_Types.thy ===== *)
theory Target_Types
  imports Frame_Manager Network Emulation Listeners
begin

text \<open>
  The data of \<open>src/handler/target.rs\<close>: the configuration and kind of a target, its initialisation
  states, the protocol events it reacts to, the messages of its page and the replies to them,
  the page handle (\<open>src/handler/page.rs\<close>), and the target itself.
\<close>

section \<open>Protocol events\<close>

text \<open>The fields of \<open>TargetInfo\<close> that are read.\<close>

record target_info =
  ti_target_id :: target_id
  ti_type :: string
  ti_browser_context_id :: "string option"
  ti_opener_id :: "target_id option"

text \<open>
  \<open>CdpEvent\<close>: the events some component handles, with the fields it reads; every other typed
  event (\<open>EvBuiltIn\<close>) and the events without a type (\<open>EvCustom\<close>) only reach the listeners.
\<close>

datatype cdp_event =
    EvPageFrameAttached frame_id frame_id
  | EvPageFrameDetached frame_id
  | EvPageFrameNavigated cdp_frame
  | EvPageNavigatedWithinDocument frame_id string
  | EvPageLifecycleEvent frame_id loader_id string
  | EvPageFrameStartedLoading frame_id
  | EvPageFrameStoppedLoading frame_id
  | EvExecutionContextCreated execution_context
  | EvExecutionContextDestroyed string
  | EvExecutionContextsCleared
  | EvBindingCalled json
  | EvFetchRequestPaused event_request_paused
  | EvFetchAuthRequired interception_id
  | EvNetworkRequestWillBeSent event_request_will_be_sent
  | EvNetworkServedFromCache request_id
  | EvNetworkResponseReceived request_id net_response
  | EvNetworkLoadingFinished request_id
  | EvNetworkLoadingFailed request_id string
  | EvTargetCreated target_info
  | EvAttachedToTarget session_id target_info bool
  | EvTargetDestroyed target_id
  | EvTargetCrashed target_id string int
  | EvDetachedFromTarget session_id
  | EvBuiltIn json
  | EvCustom json

record cdp_event_message =
  ev_method :: method_id
  ev_session_id :: "session_id option"
  ev_params :: cdp_event

section \<open>Kind and configuration\<close>

datatype target_type =
    TypePage | BackgroundPage | ServiceWorker | SharedWorker | TypeOther | TypeBrowser | Webview
  | TypeUnknown string

definition TargetType_new :: "string \<Rightarrow> target_type" where
  "TargetType_new ty =
     (if ty = ''page'' then TypePage
      else if ty = ''background_page'' then BackgroundPage
      else if ty = ''service_worker'' then ServiceWorker
      else if ty = ''shared_worker'' then SharedWorker
      else if ty = ''other'' then TypeOther
      else if ty = ''browser'' then TypeBrowser
      else if ty = ''webview'' then Webview
      else TypeUnknown ty)"

definition type_is_page :: "target_type \<Rightarrow> bool" where
  "type_is_page ty = (ty = TypePage)"

record target_config =
  tc_ignore_https_errors :: bool
  tc_request_timeout :: duration
  tc_viewport :: "viewport option"
  tc_request_intercept :: bool
  tc_cache_enabled :: bool
  tc_ignore_visuals :: bool
  tc_ignore_javascript :: bool
  tc_ignore_analytics :: bool
  tc_ignore_prefetch :: bool
  tc_ignore_stylesheets :: bool
  tc_allow_first_party_stylesheets :: bool
  tc_allow_first_party_javascript :: bool
  tc_allow_first_party_visuals :: bool
  tc_only_html :: bool
  tc_service_worker_enabled :: bool
  tc_extra_headers :: "(string, string) hash_map option"
  tc_intercept_manager :: string
  tc_remote_local_policy :: bool
  tc_max_bytes_allowed :: "u64 option"
  tc_max_redirects :: "nat option"
  tc_max_main_frame_navigations :: "u32 option"
  tc_whitelist_patterns :: "string list option"
  tc_blacklist_patterns :: "string list option"
  tc_adblock_filter_rules :: "string list option"
  tc_page_channel_capacity :: nat

definition DEFAULT_PAGE_CHANNEL_CAPACITY :: nat where
  "DEFAULT_PAGE_CHANNEL_CAPACITY = 2048"

definition TargetConfig_default :: target_config where
  "TargetConfig_default = \<lparr>tc_ignore_https_errors = True, tc_request_timeout = from_millis REQUEST_TIMEOUT,
     tc_viewport = None, tc_request_intercept = False, tc_cache_enabled = True, tc_ignore_visuals = False,
     tc_ignore_javascript = False, tc_ignore_analytics = True, tc_ignore_prefetch = True,
     tc_ignore_stylesheets = False, tc_allow_first_party_stylesheets = True,
     tc_allow_first_party_javascript = True, tc_allow_first_party_visuals = True, tc_only_html = False,
     tc_service_worker_enabled = True, tc_extra_headers = None, tc_intercept_manager = ''Unknown'',
     tc_remote_local_policy = False, tc_max_bytes_allowed = None, tc_max_redirects = None,
     tc_max_main_frame_navigations = None, tc_whitelist_patterns = None, tc_blacklist_patterns = None,
     tc_adblock_filter_rules = None, tc_page_channel_capacity = DEFAULT_PAGE_CHANNEL_CAPACITY\<rparr>"

section \<open>States and events of a target\<close>

datatype target_init =
    InitializingFrame command_chain
  | InitializingNetwork command_chain
  | InitializingPage command_chain
  | InitializingEmulation command_chain
  | AttachToTarget
  | Initialized
  | Closing

datatype target_event =
    TargetRequest cdp_request
  | TargetNavigationRequest navigation_id cdp_request
  | TargetNavigationResult "navigation_error + navigation_ok"
  | TargetCommand command_message
  | TargetBytesConsumed u64

text \<open>\<open>commands_mut\<close>: a write through the reference it returns.\<close>

fun map_commands :: "(command_chain \<Rightarrow> command_chain) \<Rightarrow> target_init \<Rightarrow> target_init" where
  "map_commands f (InitializingFrame c) = InitializingFrame (f c)"
| "map_commands f (InitializingNetwork c) = InitializingNetwork (f c)"
| "map_commands f (InitializingPage c) = InitializingPage (f c)"
| "map_commands f (InitializingEmulation c) = InitializingEmulation (f c)"
| "map_commands f AttachToTarget = AttachToTarget"
| "map_commands f Initialized = Initialized"
| "map_commands f Closing = Closing"

section \<open>Messages of a page\<close>

datatype target_message =
    MsgCommand command_message
  | MsgMainFrame sender
  | MsgAllFrames sender
  | MsgCacheKey "string option" "cache_policy option"
  | MsgUrl "frame_id option" sender
  | MsgName "frame_id option" sender
  | MsgParent frame_id sender
  | MsgWaitForNavigation sender
  | MsgWaitForDomContentLoaded sender
  | MsgWaitForLoad sender
  | MsgWaitForNetworkIdle sender
  | MsgWaitForNetworkAlmostIdle sender
  | MsgAddEventListener "cdp_event listener_request"
  | MsgGetExecutionContext dom_world_kind "frame_id option" sender
  | MsgAuthenticate credentials
  | MsgBlockNetwork bool
  | MsgEnableInterception bool

text \<open>The page of a target, as the caller of \<open>create_page\<close> receives it: its inner state without
  the mouse. The receiving half of its channel is the list of messages in it.\<close>

record page_inner =
  pg_target_id :: target_id
  pg_session_id :: session_id
  pg_opener_id :: "target_id option"
  pg_request_timeout :: duration
  pg_channel_capacity :: nat

record page_handle =
  ph_page :: page_inner
  ph_rx :: "target_message list"

definition PageHandle_with_capacity ::
  "target_id \<Rightarrow> session_id \<Rightarrow> target_id option \<Rightarrow> duration \<Rightarrow> nat \<Rightarrow> page_handle" where
  "PageHandle_with_capacity t s opener timeout capacity =
     \<lparr>ph_page = \<lparr>pg_target_id = t, pg_session_id = s, pg_opener_id = opener,
        pg_request_timeout = timeout, pg_channel_capacity = max capacity 1\<rparr>, ph_rx = []\<rparr>"

text \<open>What is sent on the oneshot channels of the messages.\<close>

datatype reply =
    ReplyFrame "frame_id option"
  | ReplyFrames "frame_id list"
  | ReplyText "string option"
  | ReplyRequest "http_request option"
  | ReplyContext "int option"
  | ReplyPage "cdp_error + page_inner"

section \<open>The target\<close>

text \<open>\<open>tg_sent\<close> and \<open>tg_woken\<close> are outputs: what was sent on oneshot channels, in order, and
  whether the task woke itself.\<close>

record target =
  tg_info :: target_info
  tg_type :: target_type
  tg_config :: target_config
  tg_browser_context :: browser_context
  tg_frames :: frame_manager
  tg_network :: network_manager
  tg_emulation :: emulation_manager
  tg_session_id :: "session_id option"
  tg_page :: "page_handle option"
  tg_init :: target_init
  tg_queued :: "target_event list"
  tg_listeners :: "cdp_event event_listeners"
  tg_wait_navigation :: "sender list"
  tg_wait_dom_content :: "sender list"
  tg_wait_load :: "sender list"
  tg_wait_idle :: "sender list"
  tg_wait_almost_idle :: "sender list"
  tg_initiator :: "sender option"
  tg_sent :: "(sender \<times> reply) list"
  tg_woken :: bool

text \<open>What a target takes from outside: the crates behind the network manager, the drawn world
  names, the script url, the metrics feature, the ad engine built from rules, and the generated
  decoders of the responses it reads.\<close>

record target_env =
  te_externals :: externals
  te_world_name :: "frame_id \<Rightarrow> string"
  te_script_url :: string
  te_collect_metrics :: bool
  te_adblock_engine :: "string list \<Rightarrow> nat"
  te_frame_tree :: "json \<Rightarrow> frame_tree option"
  te_attach_session :: "json \<Rightarrow> session_id option"

end
