(* ===== verification/Target.thy ===== *)
theory Target
  imports Target_Types
begin

text \<open>
  The target of \<open>src/handler/target.rs\<close>: construction, its initialisation state machine, the
  protocol events it hands to its managers, the messages of its page, and the two loops that
  drive it, \<open>poll\<close> (used by the \<open>Stream\<close> of the handler) and \<open>advance\<close> (used by \<open>run\<close>).
\<close>

section \<open>Construction\<close>

definition INIT_COMMANDS_PARAMS :: "bool \<Rightarrow> (method_id \<times> json) list" where
  "INIT_COMMANDS_PARAMS collect_metrics =
     [command_pair TargetSetAutoAttach, command_pair LogDisable]
     @ (if collect_metrics then [command_pair PerformanceEnable] else [])"

definition ATTACH_TARGET :: "method_id \<times> json" where
  "ATTACH_TARGET = command_pair RuntimeRunIfWaitingForDebugger"

definition page_init_commands :: "bool \<Rightarrow> duration \<Rightarrow> command_chain" where
  "page_init_commands collect_metrics t = CommandChain_new (INIT_COMMANDS_PARAMS collect_metrics) t"

text \<open>The network manager as \<open>Target::new\<close> configures it, in the order of the code.\<close>

definition configured_network :: "target_env \<Rightarrow> target_config \<Rightarrow> network_manager" where
  "configured_network env c =
     (let x = te_externals env;
          m = NetworkManager_new (tc_ignore_https_errors c) (tc_request_timeout c);
          m = (if \<not> tc_cache_enabled c then set_cache_enabled False m else m);
          m = (if \<not> tc_service_worker_enabled c then set_service_worker_enabled True m else m);
          m = set_request_interception (tc_request_intercept c) m;
          m = m\<lparr>nm_max_bytes_allowed := tc_max_bytes_allowed c, nm_max_redirects := tc_max_redirects c\<rparr>;
          m = (case tc_extra_headers c of None \<Rightarrow> m | Some hs \<Rightarrow> set_extra_headers hs m);
          m = (case tc_whitelist_patterns c of None \<Rightarrow> m | Some ps \<Rightarrow> set_whitelist_patterns x ps m);
          m = (case tc_blacklist_patterns c of None \<Rightarrow> m | Some ps \<Rightarrow> set_blacklist_patterns x ps m);
          m = m\<lparr>nm_ignore_visuals := tc_ignore_visuals c, nm_block_javascript := tc_ignore_javascript c,
                nm_block_analytics := tc_ignore_analytics c, nm_block_prefetch := tc_ignore_prefetch c,
                nm_block_stylesheets := tc_ignore_stylesheets c,
                nm_allow_first_party_stylesheets := tc_allow_first_party_stylesheets c,
                nm_allow_first_party_javascript := tc_allow_first_party_javascript c,
                nm_allow_first_party_visuals := tc_allow_first_party_visuals c,
                nm_only_html := tc_only_html c, nm_intercept_manager := tc_intercept_manager c\<rparr>;
          m = set_remote_local_policy (tc_remote_local_policy c) m;
          m = emit_request_policy x m
      in if feature_adblock x
         then (case tc_adblock_filter_rules c of None \<Rightarrow> m | Some rules \<Rightarrow> set_adblock_engine (te_adblock_engine env rules) m)
         else m)"

definition Target_new :: "target_env \<Rightarrow> target_info \<Rightarrow> target_config \<Rightarrow> browser_context \<Rightarrow> target" where
  "Target_new env info c ctx = \<lparr>tg_info = info, tg_type = TargetType_new (ti_type info), tg_config = c,
     tg_browser_context = ctx,
     tg_frames = set_max_main_frame_navigations (tc_max_main_frame_navigations c) (FrameManager_new (tc_request_timeout c)),
     tg_network = configured_network env c,
     tg_emulation = EmulationManager_new (tc_request_timeout c), tg_session_id = None, tg_page = None,
     tg_init = AttachToTarget, tg_queued = [], tg_listeners = [], tg_wait_navigation = [],
     tg_wait_dom_content = [], tg_wait_load = [], tg_wait_idle = [], tg_wait_almost_idle = [],
     tg_initiator = None, tg_sent = [], tg_woken = False\<rparr>"

section \<open>Small operations\<close>

definition tg_send :: "sender \<Rightarrow> reply \<Rightarrow> target \<Rightarrow> target" where
  "tg_send tx r t = t\<lparr>tg_sent := tg_sent t @ [(tx, r)]\<rparr>"

definition tg_queue :: "target_event \<Rightarrow> target \<Rightarrow> target" where
  "tg_queue ev t = t\<lparr>tg_queued := tg_queued t @ [ev]\<rparr>"

definition map_network :: "(network_manager \<Rightarrow> network_manager) \<Rightarrow> target \<Rightarrow> target" where
  "map_network f t = t\<lparr>tg_network := f (tg_network t)\<rparr>"

definition map_frames :: "(frame_manager \<Rightarrow> frame_manager) \<Rightarrow> target \<Rightarrow> target" where
  "map_frames f t = t\<lparr>tg_frames := f (tg_frames t)\<rparr>"

definition set_session_id :: "session_id \<Rightarrow> target \<Rightarrow> target" where
  "set_session_id s t = t\<lparr>tg_session_id := Some s\<rparr>"

definition target_id :: "target \<Rightarrow> target_id" where
  "target_id t = ti_target_id (tg_info t)"

definition is_page :: "target \<Rightarrow> bool" where
  "is_page t = type_is_page (tg_type t)"

definition is_initialized :: "target \<Rightarrow> bool" where
  "is_initialized t = (tg_init t = Initialized)"

definition set_initiator :: "sender \<Rightarrow> target \<Rightarrow> target" where
  "set_initiator tx t = t\<lparr>tg_initiator := Some tx\<rparr>"

text \<open>A request of the target itself, in its session.\<close>

definition session_request :: "method_id \<times> json \<Rightarrow> target \<Rightarrow> cdp_request" where
  "session_request c t = \<lparr>rq_method = fst c, rq_session_id = tg_session_id t, rq_params = snd c\<rparr>"

definition request_url :: "cdp_request \<Rightarrow> string option" where
  "request_url req = Option.bind (Option.bind (as_object (rq_params req)) (\<lambda>o1. map_of o1 ''url'')) as_str"

definition Target_goto :: "target_env \<Rightarrow> frame_requested_navigation \<Rightarrow> target \<Rightarrow> target" where
  "Target_goto env req t =
     (let t = (if has_target_domain (tg_network t)
               then (let t = map_network clear_target_domain t
                     in case request_url (fn_req req) of
                          None \<Rightarrow> t
                        | Some url \<Rightarrow> map_network (set_page_url (te_externals env) url) t)
               else t)
      in map_frames (FrameManager_goto req) t)"

definition Target_create_page :: "target \<Rightarrow> target" where
  "Target_create_page t =
     (case tg_page t of
        Some _ \<Rightarrow> t
      | None \<Rightarrow> (case tg_session_id t of
            None \<Rightarrow> t
          | Some session \<Rightarrow> t\<lparr>tg_page := Some (PageHandle_with_capacity (target_id t) session
              (ti_opener_id (tg_info t)) (tc_request_timeout (tg_config t))
              (tc_page_channel_capacity (tg_config t)))\<rparr>))"

definition get_or_create_page :: "target \<Rightarrow> page_inner option \<times> target" where
  "get_or_create_page t = (let t = Target_create_page t in (map_option ph_page (tg_page t), t))"

definition Target_on_response :: "target_env \<Rightarrow> cdp_response \<Rightarrow> string \<Rightarrow> target \<Rightarrow> target" where
  "Target_on_response env resp meth t =
     (let t = t\<lparr>tg_init := map_commands (\<lambda>c. snd (CommandChain_received_response meth c)) (tg_init t)\<rparr>
      in if meth = method_identifier PageGetFrameTree
         then (case Option.bind (rs_result resp) (te_frame_tree env) of
                 None \<Rightarrow> t
               | Some tree \<Rightarrow> map_frames (on_frame_tree (te_world_name env) tree) t)
         else t)"

section \<open>Protocol events\<close>

fun session_scoped :: "cdp_event \<Rightarrow> bool" where
  "session_scoped (EvFetchRequestPaused _) = True"
| "session_scoped (EvFetchAuthRequired _) = True"
| "session_scoped (EvNetworkRequestWillBeSent _) = True"
| "session_scoped (EvNetworkResponseReceived _ _) = True"
| "session_scoped (EvNetworkLoadingFinished _) = True"
| "session_scoped (EvNetworkLoadingFailed _ _) = True"
| "session_scoped (EvPageFrameAttached _ _) = True"
| "session_scoped (EvPageFrameDetached _) = True"
| "session_scoped (EvPageFrameNavigated _) = True"
| "session_scoped (EvPageNavigatedWithinDocument _ _) = True"
| "session_scoped (EvPageLifecycleEvent _ _ _) = True"
| "session_scoped (EvPageFrameStartedLoading _) = True"
| "session_scoped (EvPageFrameStoppedLoading _) = True"
| "session_scoped (EvExecutionContextCreated _) = True"
| "session_scoped (EvExecutionContextDestroyed _) = True"
| "session_scoped EvExecutionContextsCleared = True"
| "session_scoped (EvBindingCalled _) = True"
| "session_scoped _ = False"

definition on_attached_child :: "session_id \<Rightarrow> target_info \<Rightarrow> bool \<Rightarrow> target \<Rightarrow> target" where
  "on_attached_child sid info waiting t =
     (let t = (if waiting
               then tg_queue (TargetRequest \<lparr>rq_method = fst ATTACH_TARGET, rq_session_id = Some sid,
                      rq_params = snd ATTACH_TARGET\<rparr>) t
               else t)
      in if ti_type info = ''service_worker''
         then tg_queue (TargetRequest (session_request (command_pair (TargetDetachFromTarget sid)) t)) t
         else t)"

text \<open>The dispatch of an event; \<open>clock\<close> is what the managers read from \<open>Instant::now()\<close>.\<close>

fun dispatch_event :: "target_env \<Rightarrow> instant \<Rightarrow> cdp_event \<Rightarrow> target \<Rightarrow> target" where
  "dispatch_event env clock (EvPageFrameAttached i p) t = map_frames (on_frame_attached i (Some p)) t"
| "dispatch_event env clock (EvPageFrameDetached i) t = map_frames (on_frame_detached i) t"
| "dispatch_event env clock (EvPageFrameNavigated cf) t = map_frames (on_frame_navigated (te_world_name env) cf) t"
| "dispatch_event env clock (EvPageNavigatedWithinDocument i u) t =
     map_frames (on_frame_navigated_within_document i u) t"
| "dispatch_event env clock (EvExecutionContextCreated ctx) t = map_frames (on_frame_execution_context_created ctx) t"
| "dispatch_event env clock (EvExecutionContextDestroyed u) t = map_frames (on_frame_execution_context_destroyed u) t"
| "dispatch_event env clock EvExecutionContextsCleared t = map_frames on_execution_contexts_cleared t"
| "dispatch_event env clock (EvPageLifecycleEvent i l n) t = map_frames (on_page_lifecycle_event i l n) t"
| "dispatch_event env clock (EvPageFrameStartedLoading i) t = map_frames (on_frame_started_loading i) t"
| "dispatch_event env clock (EvPageFrameStoppedLoading i) t = map_frames (on_frame_stopped_loading i) t"
| "dispatch_event env clock (EvAttachedToTarget sid info waiting) t = on_attached_child sid info waiting t"
| "dispatch_event env clock (EvFetchRequestPaused ev) t =
     map_network (on_fetch_request_paused (te_externals env) ev clock) t"
| "dispatch_event env clock (EvFetchAuthRequired i) t = map_network (on_fetch_auth_required i) t"
| "dispatch_event env clock (EvNetworkRequestWillBeSent ev) t = map_network (on_request_will_be_sent ev clock) t"
| "dispatch_event env clock (EvNetworkServedFromCache i) t = map_network (on_request_served_from_cache i) t"
| "dispatch_event env clock (EvNetworkResponseReceived i resp) t = map_network (on_response_received i resp) t"
| "dispatch_event env clock (EvNetworkLoadingFinished i) t = map_network (on_network_loading_finished i) t"
| "dispatch_event env clock (EvNetworkLoadingFailed i txt) t = map_network (on_network_loading_failed i txt) t"
| "dispatch_event env clock _ t = t"

text \<open>\<open>consume_event!\<close>: typed events go to \<open>start_send\<close>, the others to \<open>try_send_custom\<close>.\<close>

fun consume_event :: "method_id \<Rightarrow> cdp_event \<Rightarrow> cdp_event event_listeners \<Rightarrow> cdp_event event_listeners" where
  "consume_event meth (EvCustom json) ls = snd (try_send_custom meth json ls)"
| "consume_event meth ev ls = start_send meth ev ls"

definition Target_on_event :: "target_env \<Rightarrow> instant \<Rightarrow> cdp_event_message \<Rightarrow> target \<Rightarrow> target" where
  "Target_on_event env clock ev t =
     (if session_scoped (ev_params ev)
         \<and> (case ev_session_id ev of None \<Rightarrow> True | Some s \<Rightarrow> tg_session_id t \<noteq> Some s) then t
      else (let t = dispatch_event env clock (ev_params ev) t
            in t\<lparr>tg_listeners := consume_event (ev_method ev) (ev_params ev) (tg_listeners t)\<rparr>))"

section \<open>Messages of the page\<close>

text \<open>\<open>Network.setBlockedURLs\<close>: \<open>!*\<close> ends the scan and unblocks everything, else a pattern with a
  star blocks everything.\<close>

fun scan_blocked_urls :: "string list \<Rightarrow> bool \<Rightarrow> bool \<times> bool" where
  "scan_blocked_urls [] block_all = (False, block_all)"
| "scan_blocked_urls (s # ss) block_all =
     (if s = ''!*'' then (True, block_all) else scan_blocked_urls ss (CHR ''*'' \<in> set s \<or> block_all))"

definition apply_blocked_urls :: "json \<Rightarrow> network_manager \<Rightarrow> network_manager" where
  "apply_blocked_urls params m =
     (case Option.bind (json_get params ''urls'') as_array of
        None \<Rightarrow> m
      | Some arr \<Rightarrow>
          let (unblock_all, block_all) = scan_blocked_urls (List.map_filter as_str arr) False
          in if unblock_all then set_block_all False m
             else if block_all then set_block_all True m else m)"

definition pick_frame :: "frame_id option \<Rightarrow> target \<Rightarrow> frame option" where
  "pick_frame i t = (case i of Some i \<Rightarrow> FrameManager_frame i (tg_frames t) | None \<Rightarrow> FrameManager_main_frame (tg_frames t))"

text \<open>Whether a wait can be answered at once: the request of the main frame if it has reached the
  event.\<close>

definition reached :: "(frame \<Rightarrow> bool) \<Rightarrow> target \<Rightarrow> http_request option option" where
  "reached P t = (case FrameManager_main_frame (tg_frames t) of
      None \<Rightarrow> None | Some f \<Rightarrow> if P f then Some (fr_http_request f) else None)"

definition world_context :: "dom_world_kind \<Rightarrow> frame \<Rightarrow> int option" where
  "world_context k f = (case k of MainWorld \<Rightarrow> execution_ctx (fr_main_world f)
     | SecondaryWorld \<Rightarrow> execution_ctx (fr_secondary_world f))"

text \<open>One message; \<open>lid\<close> is the next listener id.\<close>

fun handle_message :: "listener_id \<Rightarrow> target_message \<Rightarrow> target \<Rightarrow> target" where
  "handle_message lid (MsgCommand cmd) t =
     tg_queue (TargetCommand cmd)
       (if cm_method cmd = ''Network.setBlockedURLs'' then map_network (apply_blocked_urls (cm_params cmd)) t else t)"
| "handle_message lid (MsgMainFrame tx) t =
     tg_send tx (ReplyFrame (map_option fr_id (FrameManager_main_frame (tg_frames t)))) t"
| "handle_message lid (MsgAllFrames tx) t =
     tg_send tx (ReplyFrames (map fr_id (FrameManager_frames (tg_frames t)))) t"
| "handle_message lid (MsgCacheKey k p) t = map_network (set_cache_policy p \<circ> set_cache_site_key k) t"
| "handle_message lid (MsgUrl i tx) t = tg_send tx (ReplyText (Option.bind (pick_frame i t) fr_url)) t"
| "handle_message lid (MsgName i tx) t = tg_send tx (ReplyText (Option.bind (pick_frame i t) fr_name)) t"
| "handle_message lid (MsgParent i tx) t =
     tg_send tx (ReplyFrame (Option.bind (FrameManager_frame i (tg_frames t)) fr_parent_frame)) t"
| "handle_message lid (MsgWaitForNavigation tx) t = (case reached is_dom_content_loaded t of
      Some req \<Rightarrow> tg_send tx (ReplyRequest req) t
    | None \<Rightarrow> t\<lparr>tg_wait_navigation := tg_wait_navigation t @ [tx]\<rparr>)"
| "handle_message lid (MsgWaitForDomContentLoaded tx) t = (case reached is_dom_content_loaded t of
      Some req \<Rightarrow> tg_send tx (ReplyRequest req) t
    | None \<Rightarrow> t\<lparr>tg_wait_dom_content := tg_wait_dom_content t @ [tx]\<rparr>)"
| "handle_message lid (MsgWaitForLoad tx) t = (case reached is_loaded t of
      Some req \<Rightarrow> tg_send tx (ReplyRequest req) t
    | None \<Rightarrow> t\<lparr>tg_wait_load := tg_wait_load t @ [tx]\<rparr>)"
| "handle_message lid (MsgWaitForNetworkIdle tx) t = (case reached is_network_idle t of
      Some req \<Rightarrow> tg_send tx (ReplyRequest req) t
    | None \<Rightarrow> t\<lparr>tg_wait_idle := tg_wait_idle t @ [tx]\<rparr>)"
| "handle_message lid (MsgWaitForNetworkAlmostIdle tx) t = (case reached is_network_almost_idle t of
      Some req \<Rightarrow> tg_send tx (ReplyRequest req) t
    | None \<Rightarrow> t\<lparr>tg_wait_almost_idle := tg_wait_almost_idle t @ [tx]\<rparr>)"
| "handle_message lid (MsgAddEventListener req) t =
     (let t = (if lr_method req = ''Fetch.requestPaused'' then map_network enable_request_intercept t else t)
      in t\<lparr>tg_listeners := snd (add_listener lid req (tg_listeners t))\<rparr>)"
| "handle_message lid (MsgGetExecutionContext k i tx) t =
     tg_send tx (ReplyContext (Option.bind (pick_frame i t) (world_context k))) t"
| "handle_message lid (MsgAuthenticate c) t = map_network (authenticate c) t"
| "handle_message lid (MsgBlockNetwork b) t = map_network (set_block_all b) t"
| "handle_message lid (MsgEnableInterception enabled) t = map_network (\<lambda>m. m\<lparr>nm_user_interception := \<not> enabled\<rparr>) t"

definition on_page_message :: "listener_id \<Rightarrow> target_message \<Rightarrow> target \<Rightarrow> target" where
  "on_page_message lid msg t = (if tg_init t = Closing then t else handle_message lid msg t)"

section \<open>The initialisation state machine\<close>

definition on_initialization_failed :: "target \<Rightarrow> target_event \<times> target" where
  "on_initialization_failed t =
     (let t = (case tg_initiator t of
                 None \<Rightarrow> t
               | Some tx \<Rightarrow> tg_send tx (ReplyPage (Inl Timeout)) (t\<lparr>tg_initiator := None\<rparr>));
          t = t\<lparr>tg_init := Closing\<rparr>
      in (TargetRequest (session_request (command_pair (TargetCloseTarget (target_id t))) t), t))"

text \<open>One pass through the \<open>match\<close> on the state: return from the function with an event or with
  nothing, start over, or go on to the rest of the function.\<close>

datatype init_outcome = Return "target_event option" | Restart | Proceed

text \<open>The macro \<open>advance_state!\<close>: poll the commands of the state \<open>mk\<close>; \<open>next\<close> is what happens when
  they are all answered.\<close>

definition advance_state ::
  "instant \<Rightarrow> (command_chain \<Rightarrow> target_init) \<Rightarrow> command_chain \<Rightarrow> (target \<Rightarrow> target) \<Rightarrow> target \<Rightarrow> init_outcome \<times> target" where
  "advance_state now mk cmds next t =
     (let (poll, cmds) = CommandChain_poll now cmds; t = t\<lparr>tg_init := mk cmds\<rparr> in
      case poll of
        Ready None \<Rightarrow> (Restart, next t)
      | Ready (Some (Inr c)) \<Rightarrow> (Return (Some (TargetRequest (session_request c t))), t)
      | Ready (Some (Inl _)) \<Rightarrow> (let (ev, t) = on_initialization_failed t in (Return (Some ev), t))
      | Pending \<Rightarrow> (Return None, t))"

definition enter_network :: "target \<Rightarrow> target" where
  "enter_network t = t\<lparr>tg_init := InitializingNetwork (NetworkManager_init_commands (tg_network t))\<rparr>"

definition after_frame_commands :: "target_env \<Rightarrow> target \<Rightarrow> target" where
  "after_frame_commands env t =
     (case get_isolated_world_name (tg_frames t) of
        None \<Rightarrow> enter_network t
      | Some world_name \<Rightarrow>
          let (cmds, fm) = ensure_isolated_world (te_script_url env) world_name (tg_frames t);
              t = t\<lparr>tg_frames := fm\<rparr>
          in (case cmds of Some c \<Rightarrow> t\<lparr>tg_init := InitializingFrame c\<rparr> | None \<Rightarrow> enter_network t))"

definition enter_page :: "target_env \<Rightarrow> target \<Rightarrow> target" where
  "enter_page env t = t\<lparr>tg_init := InitializingPage (page_init_commands (te_collect_metrics env) (tc_request_timeout (tg_config t)))\<rparr>"

definition enter_emulation :: "target \<Rightarrow> target" where
  "enter_emulation t =
     (case tc_viewport (tg_config t) of
        None \<Rightarrow> t\<lparr>tg_init := Initialized\<rparr>
      | Some v \<Rightarrow> (let (cmds, em) = EmulationManager_init_commands v (tg_emulation t)
                  in t\<lparr>tg_emulation := em, tg_init := InitializingEmulation cmds\<rparr>))"

text \<open>Handing the page to whoever asked for it, once the main frame has loaded.\<close>

definition deliver_page :: "target \<Rightarrow> target" where
  "deliver_page t =
     (case tg_initiator t of
        None \<Rightarrow> t
      | Some tx \<Rightarrow>
          if (case FrameManager_main_frame (tg_frames t) of None \<Rightarrow> False | Some f \<Rightarrow> is_loaded f)
          then (let (page, t) = get_or_create_page t in
                case page of Some p \<Rightarrow> tg_send tx (ReplyPage (Inr p)) (t\<lparr>tg_initiator := None\<rparr>) | None \<Rightarrow> t)
          else t)"

definition target_init_step :: "target_env \<Rightarrow> instant \<Rightarrow> target \<Rightarrow> init_outcome \<times> target" where
  "target_init_step env now t =
     (case tg_init t of
        AttachToTarget \<Rightarrow>
          (let c = command_pair (TargetAttachToTarget (target_id t))
           in (Return (Some (TargetRequest (Request_new (fst c) (snd c)))),
               t\<lparr>tg_init := InitializingFrame (FrameManager_init_commands (tc_request_timeout (tg_config t)))\<rparr>))
      | InitializingFrame cmds \<Rightarrow>
          if tg_session_id t = None then (Return None, t)
          else advance_state now InitializingFrame cmds (after_frame_commands env) t
      | InitializingNetwork cmds \<Rightarrow> advance_state now InitializingNetwork cmds (enter_page env) t
      | InitializingPage cmds \<Rightarrow> advance_state now InitializingPage cmds enter_emulation t
      | InitializingEmulation cmds \<Rightarrow>
          advance_state now InitializingEmulation cmds (\<lambda>t. t\<lparr>tg_init := Initialized\<rparr>) t
      | Initialized \<Rightarrow> (Proceed, deliver_page t)
      | Closing \<Rightarrow> (Return None, t))"

text \<open>Each restart moves the state machine forward, at most once more through a fresh chain of
  isolated-world commands, which is never empty.\<close>

fun init_rank :: "target_init \<Rightarrow> nat" where
  "init_rank AttachToTarget = 6"
| "init_rank (InitializingFrame c) = (if cc_cmds c = [] \<and> cc_waiting c = None then 5 else 4)"
| "init_rank (InitializingNetwork _) = 3"
| "init_rank (InitializingPage _) = 2"
| "init_rank (InitializingEmulation _) = 1"
| "init_rank Initialized = 0"
| "init_rank Closing = 0"

lemma advance_state_restart:
  "advance_state now mk cmds next t = (Restart, t') \<Longrightarrow>
    CommandChain_poll now cmds = (Ready None, cmds) \<and> cc_cmds cmds = [] \<and> cc_waiting cmds = None
    \<and> t' = next (t\<lparr>tg_init := mk cmds\<rparr>)"
  by (auto simp: advance_state_def CommandChain_poll_def Let_def on_initialization_failed_def
      split: option.splits list.splits if_splits prod.splits)

lemma after_frame_rank:
  "init_rank (tg_init (after_frame_commands env t)) < 5"
  by (auto simp: after_frame_commands_def enter_network_def ensure_isolated_world_def CommandChain_new_def
      split: option.split)

lemma restart_rank:
  "target_init_step env now t = (Restart, t') \<Longrightarrow> init_rank (tg_init t') < init_rank (tg_init t)"
proof -
  assume step: "target_init_step env now t = (Restart, t')"
  show ?thesis
  proof (cases "tg_init t")
    case (InitializingFrame c)
    with step have "advance_state now InitializingFrame c (after_frame_commands env) t = (Restart, t')"
      by (simp add: target_init_step_def split: if_splits)
    from advance_state_restart [OF this] InitializingFrame after_frame_rank [of env] show ?thesis
      by auto
  next
    case (InitializingNetwork c)
    with step have "advance_state now InitializingNetwork c (enter_page env) t = (Restart, t')"
      by (simp add: target_init_step_def)
    from advance_state_restart [OF this] InitializingNetwork show ?thesis by (auto simp: enter_page_def)
  next
    case (InitializingPage c)
    with step have "advance_state now InitializingPage c enter_emulation t = (Restart, t')"
      by (simp add: target_init_step_def)
    from advance_state_restart [OF this] InitializingPage show ?thesis
      by (auto simp: enter_emulation_def split: option.split prod.split)
  next
    case (InitializingEmulation c)
    with step have "advance_state now InitializingEmulation c (\<lambda>t. t\<lparr>tg_init := Initialized\<rparr>) t = (Restart, t')"
      by (simp add: target_init_step_def)
    from advance_state_restart [OF this] InitializingEmulation show ?thesis by auto
  qed (use step in \<open>auto simp: target_init_step_def Let_def\<close>)
qed

text \<open>The \<open>match\<close> with its restarts: \<open>Some r\<close> if the function returns \<open>r\<close> from inside it.\<close>

function run_init :: "target_env \<Rightarrow> instant \<Rightarrow> target \<Rightarrow> target_event option option \<times> target" where
  "run_init env now t =
     (case target_init_step env now t of
        (Return r, t) \<Rightarrow> (Some r, t)
      | (Restart, t) \<Rightarrow> run_init env now t
      | (Proceed, t) \<Rightarrow> (None, t))"
  by pat_completeness auto

termination run_init
  by (relation "measure (\<lambda>(_, _, t). init_rank (tg_init t))") (auto intro: restart_rank dest: sym)

declare run_init.simps [simp del]

section \<open>Waiters\<close>

definition WAITER_DRAIN_BUDGET :: nat where
  "WAITER_DRAIN_BUDGET = 64"

text \<open>\<open>is_gone\<close> says which receivers have been dropped.\<close>

definition prune_waiters :: "(sender \<Rightarrow> bool) \<Rightarrow> target \<Rightarrow> target" where
  "prune_waiters is_gone t = t\<lparr>
     tg_wait_navigation := filter (\<lambda>tx. \<not> is_gone tx) (tg_wait_navigation t),
     tg_wait_dom_content := filter (\<lambda>tx. \<not> is_gone tx) (tg_wait_dom_content t),
     tg_wait_load := filter (\<lambda>tx. \<not> is_gone tx) (tg_wait_load t),
     tg_wait_idle := filter (\<lambda>tx. \<not> is_gone tx) (tg_wait_idle t),
     tg_wait_almost_idle := filter (\<lambda>tx. \<not> is_gone tx) (tg_wait_almost_idle t)\<rparr>"

text \<open>\<open>pop\<close> takes the last sender; the replies, what is left, and whether something is left.\<close>

definition drain_waiters_bounded ::
  "sender list \<Rightarrow> http_request option \<Rightarrow> nat \<Rightarrow> (sender \<times> reply) list \<times> sender list \<times> bool" where
  "drain_waiters_bounded queue req budget =
     (let to_fire = min (length queue) budget;
          fired = take to_fire (rev queue);
          queue = take (length queue - to_fire) queue
      in (map (\<lambda>tx. (tx, ReplyRequest req)) fired, queue, queue \<noteq> []))"

text \<open>The five queues in the order of the code, with the event each waits for: \<open>drain\<close> empties a queue
  whose event the frame has reached, as far as it goes.\<close>

definition fire_queue :: "(sender list \<Rightarrow> (sender \<times> reply) list \<times> sender list \<times> bool) \<Rightarrow> bool \<Rightarrow> (target \<Rightarrow> sender list)
    \<Rightarrow> ((sender list \<Rightarrow> sender list) \<Rightarrow> target \<Rightarrow> target) \<Rightarrow> target \<Rightarrow> target" where
  "fire_queue drain has_reached queue update t =
     (if has_reached
      then (let (sent, rest, remaining) = drain (queue t)
            in update (\<lambda>_. rest) (t\<lparr>tg_sent := tg_sent t @ sent, tg_woken := tg_woken t \<or> remaining\<rparr>))
      else t)"

definition fire_queues :: "(sender list \<Rightarrow> (sender \<times> reply) list \<times> sender list \<times> bool) \<Rightarrow> frame \<Rightarrow> target \<Rightarrow> target" where
  "fire_queues drain f t =
     (let t = fire_queue drain (is_dom_content_loaded f) tg_wait_dom_content tg_wait_dom_content_update t;
          t = fire_queue drain (is_dom_content_loaded f) tg_wait_navigation tg_wait_navigation_update t;
          t = fire_queue drain (is_loaded f) tg_wait_load tg_wait_load_update t;
          t = fire_queue drain (is_network_idle f) tg_wait_idle tg_wait_idle_update t
      in fire_queue drain (is_network_almost_idle f) tg_wait_almost_idle tg_wait_almost_idle_update t)"

definition fire_waiters_bounded :: "nat \<Rightarrow> frame \<Rightarrow> target \<Rightarrow> target" where
  "fire_waiters_bounded budget f = fire_queues (\<lambda>q. drain_waiters_bounded q (fr_http_request f) budget) f"

text \<open>\<open>while let Some(tx) = queue.pop()\<close>.\<close>

fun pop_all :: "reply \<Rightarrow> sender list \<Rightarrow> (sender \<times> reply) list" where
  "pop_all r [] = []"
| "pop_all r (tx # txs) = pop_all r txs @ [(tx, r)]"

definition fire_waiters :: "frame \<Rightarrow> target \<Rightarrow> target" where
  "fire_waiters f = fire_queues (\<lambda>q. (pop_all (ReplyRequest (fr_http_request f)) q, [], False)) f"

section \<open>Draining the managers\<close>

fun on_network_event :: "network_event \<Rightarrow> target \<Rightarrow> target" where
  "on_network_event (SendCdpRequest meth params) t = tg_queue (TargetRequest (session_request (meth, params) t)) t"
| "on_network_event (NetRequest _) t = t"
| "on_network_event (NetResponse _) t = t"
| "on_network_event (RequestFailed r) t = map_frames (on_http_request_finished r) t"
| "on_network_event (RequestDone r) t = map_frames (on_http_request_finished r) t"
| "on_network_event (BytesConsumed n) t = tg_queue (TargetBytesConsumed n) t"

lemma on_network_event_network [simp]: "tg_network (on_network_event ev t) = tg_network t"
  by (cases ev) (simp_all add: tg_queue_def map_frames_def)

function drain_network :: "target \<Rightarrow> target" where
  "drain_network t =
     (case NetworkManager_poll (tg_network t) of
        (None, m) \<Rightarrow> t\<lparr>tg_network := m\<rparr>
      | (Some ev, m) \<Rightarrow>
          let t = t\<lparr>tg_network := m\<rparr>
          in if tg_init t = Closing then t else drain_network (on_network_event ev t))"
  by pat_completeness auto

termination drain_network
  by (relation "measure (\<lambda>t. length (nm_queued_events (tg_network t)))")
    (auto simp: NetworkManager_poll_def split: list.splits)

declare drain_network.simps [simp del]

fun on_frame_event :: "frame_event \<Rightarrow> target \<Rightarrow> target" where
  "on_frame_event (NavigationResult res) t = tg_queue (TargetNavigationResult res) t"
| "on_frame_event (NavigationRequest i req) t = tg_queue (TargetNavigationRequest i req) t"

lemma on_frame_event_frames [simp]: "tg_frames (on_frame_event ev t) = tg_frames t"
  by (cases ev) (simp_all add: tg_queue_def)

text \<open>A poll that reports something settles a navigation or starts a queued one.\<close>

definition navigation_work :: "frame_manager \<Rightarrow> nat" where
  "navigation_work m = 2 * length (fm_pending_navigations m) + (if fm_navigation m = None then 0 else 1)"

lemma poll_navigation_work:
  "FrameManager_poll now clock m = (Some ev, m') \<Longrightarrow> navigation_work m' < navigation_work m"
  by (auto simp: FrameManager_poll_def navigation_work_def Let_def
      split: option.splits prod.splits if_splits list.splits)

text \<open>\<open>clock n\<close> is what the n-th reading of \<open>Instant::now()\<close> gives.\<close>

function drain_frames :: "instant \<Rightarrow> (nat \<Rightarrow> instant) \<Rightarrow> target \<Rightarrow> target" where
  "drain_frames now clock t =
     (case FrameManager_poll now (clock 0) (tg_frames t) of
        (None, m) \<Rightarrow> t\<lparr>tg_frames := m\<rparr>
      | (Some ev, m) \<Rightarrow>
          let t = t\<lparr>tg_frames := m\<rparr>
          in if tg_init t = Closing then t else drain_frames now (\<lambda>n. clock (Suc n)) (on_frame_event ev t))"
  by pat_completeness auto

termination drain_frames
  by (relation "measure (\<lambda>(_, _, t). navigation_work (tg_frames t))") (auto intro: poll_navigation_work dest: sym)

declare drain_frames.simps [simp del]

section \<open>The loops\<close>

text \<open>The messages the page has sent so far, handled in order; \<open>lid n\<close> is the id the n-th message
  would register a listener under.\<close>

fun handle_messages :: "(nat \<Rightarrow> listener_id) \<Rightarrow> target_message list \<Rightarrow> target \<Rightarrow> target" where
  "handle_messages lid [] t = t"
| "handle_messages lid (msg # msgs) t =
     (if tg_init t = Closing then t
      else handle_messages (\<lambda>n. lid (Suc n)) msgs (handle_message (lid 0) msg t))"

definition receive_messages :: "(nat \<Rightarrow> listener_id) \<Rightarrow> target \<Rightarrow> target" where
  "receive_messages lid t =
     (case tg_page t of
        None \<Rightarrow> t
      | Some p \<Rightarrow> handle_messages lid (ph_rx p) (t\<lparr>tg_page := Some (p\<lparr>ph_rx := []\<rparr>)\<rparr>))"

definition fire_main :: "(frame \<Rightarrow> target \<Rightarrow> target) \<Rightarrow> target \<Rightarrow> target" where
  "fire_main fire t = (case FrameManager_main_frame (tg_frames t) of None \<Rightarrow> t | Some f \<Rightarrow> fire f t)"

text \<open>Firing a queue touches that queue, the answers and the wake-up only.\<close>

lemma fire_queue_keeps:
  assumes "\<And>h t. get (update h t) = get t"
    and "\<And>v t. get (t\<lparr>tg_sent := v\<rparr>) = get t" "\<And>v t. get (t\<lparr>tg_woken := v\<rparr>) = get t"
  shows "get (fire_queue drain b queue update t) = get t"
proof -
  have "get (t\<lparr>tg_sent := v, tg_woken := w\<rparr>) = get t" for v w
    by (simp only: assms(2,3))
  then show ?thesis by (simp add: fire_queue_def assms(1) case_prod_beta)
qed

lemma fire_queues_keep:
  assumes "\<And>h t. get (tg_wait_dom_content_update h t) = get t" "\<And>h t. get (tg_wait_navigation_update h t) = get t"
    "\<And>h t. get (tg_wait_load_update h t) = get t" "\<And>h t. get (tg_wait_idle_update h t) = get t"
    "\<And>h t. get (tg_wait_almost_idle_update h t) = get t"
    and "\<And>v t. get (t\<lparr>tg_sent := v\<rparr>) = get t" "\<And>v t. get (t\<lparr>tg_woken := v\<rparr>) = get t"
  shows "get (fire_queues drain f t) = get t"
  unfolding fire_queues_def Let_def by (simp add: fire_queue_keeps assms)

lemma fire_main_keeps:
  assumes "fire \<in> {fire_waiters, fire_waiters_bounded n}"
  shows "tg_info (fire_main fire t) = tg_info t" "tg_type (fire_main fire t) = tg_type t"
    "tg_config (fire_main fire t) = tg_config t" "tg_session_id (fire_main fire t) = tg_session_id t"
    "tg_init (fire_main fire t) = tg_init t" "tg_initiator (fire_main fire t) = tg_initiator t"
    "tg_page (fire_main fire t) = tg_page t" "tg_frames (fire_main fire t) = tg_frames t"
    "tg_network (fire_main fire t) = tg_network t" "tg_queued (fire_main fire t) = tg_queued t"
  using assms unfolding fire_main_def
  by (auto simp: fire_waiters_def fire_waiters_bounded_def fire_queues_keep split: option.split)

lemmas fire_main_fields [simp] =
  fire_main_keeps [where fire = fire_waiters, simplified] fire_main_keeps [where fire = "fire_waiters_bounded n" and n = n for n, simplified]

text \<open>
  The loop at the end of \<open>poll\<close>: answer waiters, return a queued event if there is one, else read
  the channel and drain the managers. It is entered again only with an event in the queue, which
  the second pass returns.
\<close>

function poll_loop :: "(nat \<Rightarrow> listener_id) \<Rightarrow> instant \<Rightarrow> (nat \<Rightarrow> instant) \<Rightarrow> target \<Rightarrow> target_event option \<times> target" where
  "poll_loop lid now clock t =
     (if tg_init t = Closing then (None, t)
      else (let t = fire_main (fire_waiters_bounded WAITER_DRAIN_BUDGET) t in
        case tg_queued t of
          ev # evs \<Rightarrow> (Some ev, t\<lparr>tg_queued := evs\<rparr>)
        | [] \<Rightarrow>
            let t = drain_frames now clock (drain_network (receive_messages lid t))
            in if tg_queued t = [] then (None, t) else poll_loop lid now clock t))"
  by pat_completeness auto

termination poll_loop
  by (relation "measure (\<lambda>(lid, now, clock, t). if tg_queued t = [] then 1 else 0)") auto

declare poll_loop.simps [simp del]

definition Target_poll :: "target_env \<Rightarrow> (sender \<Rightarrow> bool) \<Rightarrow> (nat \<Rightarrow> listener_id) \<Rightarrow> instant \<Rightarrow> (nat \<Rightarrow> instant)
    \<Rightarrow> target \<Rightarrow> target_event option \<times> target" where
  "Target_poll env is_gone lid now clock t =
     (if \<not> is_page t then (None, t)
      else (case run_init env now t of
          (Some r, t) \<Rightarrow> (r, t)
        | (None, t) \<Rightarrow> poll_loop lid now clock (prune_waiters is_gone t)))"

text \<open>\<open>advance\<close>: the same without the channel and without the budget.\<close>

function advance_loop :: "instant \<Rightarrow> (nat \<Rightarrow> instant) \<Rightarrow> target \<Rightarrow> target_event option \<times> target" where
  "advance_loop now clock t =
     (if tg_init t = Closing then (None, t)
      else (let t = fire_main fire_waiters t in
        case tg_queued t of
          ev # evs \<Rightarrow> (Some ev, t\<lparr>tg_queued := evs\<rparr>)
        | [] \<Rightarrow>
            let t = drain_frames now clock (drain_network t)
            in if tg_queued t = [] then (None, t) else advance_loop now clock t))"
  by pat_completeness auto

termination advance_loop
  by (relation "measure (\<lambda>(now, clock, t). if tg_queued t = [] then 1 else 0)") auto

declare advance_loop.simps [simp del]

definition Target_advance :: "target_env \<Rightarrow> (sender \<Rightarrow> bool) \<Rightarrow> instant \<Rightarrow> (nat \<Rightarrow> instant)
    \<Rightarrow> target \<Rightarrow> target_event option \<times> target" where
  "Target_advance env is_gone now clock t =
     (if \<not> is_page t then (None, t)
      else (case run_init env now t of
          (Some r, t) \<Rightarrow> (r, t)
        | (None, t) \<Rightarrow> advance_loop now clock (prune_waiters is_gone t)))"

end
