(* ===== verification/Target_Machine.thy ===== *)
theory Target_Machine
  imports Target
begin

text \<open>
  The target as a machine: its inputs are the calls the handler makes (\<open>src/handler/mod.rs\<close>) and
  the messages its page sends. Lemmas on what the parts of \<open>poll\<close> and \<open>advance\<close> leave alone.
\<close>

section \<open>Inputs\<close>

datatype tg_input =
    TgEvent cdp_event_message instant
  | TgResponse cdp_response string
  | TgGoto frame_requested_navigation
  | TgMessage target_message listener_id
  | TgPageSends target_message
  | TgPoll "sender \<Rightarrow> bool" "nat \<Rightarrow> listener_id" instant "nat \<Rightarrow> instant"
  | TgAdvance "sender \<Rightarrow> bool" instant "nat \<Rightarrow> instant"
  | TgSetSession session_id
  | TgDropSession
  | TgSetInitiator sender
  | TgCreatePage
  | TgBlockAll bool
  | TgEvict instant

definition page_sends :: "target_message \<Rightarrow> target \<Rightarrow> target" where
  "page_sends msg t = t\<lparr>tg_page := map_option (\<lambda>p. p\<lparr>ph_rx := ph_rx p @ [msg]\<rparr>) (tg_page t)\<rparr>"

fun tg_step :: "target_env \<Rightarrow> target \<Rightarrow> tg_input \<Rightarrow> target" where
  "tg_step env t (TgEvent ev clock) = Target_on_event env clock ev t"
| "tg_step env t (TgResponse resp meth) = Target_on_response env resp meth t"
| "tg_step env t (TgGoto req) = Target_goto env req t"
| "tg_step env t (TgMessage msg lid) = on_page_message lid msg t"
| "tg_step env t (TgPageSends msg) = page_sends msg t"
| "tg_step env t (TgPoll gone lid now clock) = snd (Target_poll env gone lid now clock t)"
| "tg_step env t (TgAdvance gone now clock) = snd (Target_advance env gone now clock t)"
| "tg_step env t (TgSetSession s) = set_session_id s t"
| "tg_step env t TgDropSession = t\<lparr>tg_session_id := None\<rparr>"
| "tg_step env t (TgSetInitiator tx) = set_initiator tx t"
| "tg_step env t TgCreatePage = snd (get_or_create_page t)"
| "tg_step env t (TgBlockAll b) = map_network (set_block_all b) t"
| "tg_step env t (TgEvict now) = map_frames evict_stale_context_ids (map_network (evict_stale_entries now) t)"

section \<open>What the operations leave alone\<close>

lemma tg_send_fields [simp]:
  "tg_info (tg_send tx r t) = tg_info t" "tg_type (tg_send tx r t) = tg_type t" "tg_config (tg_send tx r t) = tg_config t"
  "tg_session_id (tg_send tx r t) = tg_session_id t" "tg_init (tg_send tx r t) = tg_init t"
  "tg_initiator (tg_send tx r t) = tg_initiator t" "tg_page (tg_send tx r t) = tg_page t"
  "tg_frames (tg_send tx r t) = tg_frames t" "tg_network (tg_send tx r t) = tg_network t"
  "tg_queued (tg_send tx r t) = tg_queued t" "tg_sent (tg_send tx r t) = tg_sent t @ [(tx, r)]"
  "tg_wait_navigation (tg_send tx r t) = tg_wait_navigation t"
  "tg_wait_dom_content (tg_send tx r t) = tg_wait_dom_content t"
  "tg_wait_load (tg_send tx r t) = tg_wait_load t" "tg_wait_idle (tg_send tx r t) = tg_wait_idle t"
  "tg_wait_almost_idle (tg_send tx r t) = tg_wait_almost_idle t"
  by (simp_all add: tg_send_def)

lemma tg_queue_fields [simp]:
  "tg_info (tg_queue ev t) = tg_info t" "tg_type (tg_queue ev t) = tg_type t" "tg_config (tg_queue ev t) = tg_config t"
  "tg_session_id (tg_queue ev t) = tg_session_id t" "tg_init (tg_queue ev t) = tg_init t"
  "tg_initiator (tg_queue ev t) = tg_initiator t" "tg_page (tg_queue ev t) = tg_page t"
  "tg_frames (tg_queue ev t) = tg_frames t" "tg_network (tg_queue ev t) = tg_network t"
  "tg_queued (tg_queue ev t) = tg_queued t @ [ev]" "tg_sent (tg_queue ev t) = tg_sent t"
  "tg_wait_navigation (tg_queue ev t) = tg_wait_navigation t"
  "tg_wait_dom_content (tg_queue ev t) = tg_wait_dom_content t"
  "tg_wait_load (tg_queue ev t) = tg_wait_load t" "tg_wait_idle (tg_queue ev t) = tg_wait_idle t"
  "tg_wait_almost_idle (tg_queue ev t) = tg_wait_almost_idle t"
  by (simp_all add: tg_queue_def)

lemma map_network_fields [simp]:
  "tg_info (map_network f t) = tg_info t" "tg_type (map_network f t) = tg_type t" "tg_config (map_network f t) = tg_config t"
  "tg_session_id (map_network f t) = tg_session_id t" "tg_init (map_network f t) = tg_init t"
  "tg_initiator (map_network f t) = tg_initiator t" "tg_page (map_network f t) = tg_page t"
  "tg_frames (map_network f t) = tg_frames t" "tg_network (map_network f t) = f (tg_network t)"
  "tg_queued (map_network f t) = tg_queued t" "tg_sent (map_network f t) = tg_sent t"
  "tg_wait_navigation (map_network f t) = tg_wait_navigation t"
  "tg_wait_dom_content (map_network f t) = tg_wait_dom_content t"
  "tg_wait_load (map_network f t) = tg_wait_load t" "tg_wait_idle (map_network f t) = tg_wait_idle t"
  "tg_wait_almost_idle (map_network f t) = tg_wait_almost_idle t"
  by (simp_all add: map_network_def)

lemma map_frames_fields [simp]:
  "tg_info (map_frames f t) = tg_info t" "tg_type (map_frames f t) = tg_type t" "tg_config (map_frames f t) = tg_config t"
  "tg_session_id (map_frames f t) = tg_session_id t" "tg_init (map_frames f t) = tg_init t"
  "tg_initiator (map_frames f t) = tg_initiator t" "tg_page (map_frames f t) = tg_page t"
  "tg_frames (map_frames f t) = f (tg_frames t)" "tg_network (map_frames f t) = tg_network t"
  "tg_queued (map_frames f t) = tg_queued t" "tg_sent (map_frames f t) = tg_sent t"
  "tg_wait_navigation (map_frames f t) = tg_wait_navigation t"
  "tg_wait_dom_content (map_frames f t) = tg_wait_dom_content t"
  "tg_wait_load (map_frames f t) = tg_wait_load t" "tg_wait_idle (map_frames f t) = tg_wait_idle t"
  "tg_wait_almost_idle (map_frames f t) = tg_wait_almost_idle t"
  by (simp_all add: map_frames_def)

lemma goto_fields [simp]:
  "tg_info (Target_goto env req t) = tg_info t" "tg_type (Target_goto env req t) = tg_type t"
  "tg_config (Target_goto env req t) = tg_config t" "tg_session_id (Target_goto env req t) = tg_session_id t"
  "tg_init (Target_goto env req t) = tg_init t" "tg_initiator (Target_goto env req t) = tg_initiator t"
  "tg_page (Target_goto env req t) = tg_page t" "tg_sent (Target_goto env req t) = tg_sent t"
  "tg_wait_navigation (Target_goto env req t) = tg_wait_navigation t"
  "tg_wait_dom_content (Target_goto env req t) = tg_wait_dom_content t"
  "tg_wait_load (Target_goto env req t) = tg_wait_load t" "tg_wait_idle (Target_goto env req t) = tg_wait_idle t"
  "tg_wait_almost_idle (Target_goto env req t) = tg_wait_almost_idle t"
  by (simp_all add: Target_goto_def Let_def split: option.split)

text \<open>What the front of the target is: identity, state machine, page, waiters, replies. Events of the
  browser and the managers only work behind it.\<close>

definition same_front :: "target \<Rightarrow> target \<Rightarrow> bool" where
  "same_front t t' \<longleftrightarrow> tg_info t' = tg_info t \<and> tg_type t' = tg_type t \<and> tg_config t' = tg_config t \<and>
     tg_session_id t' = tg_session_id t \<and> tg_init t' = tg_init t \<and> tg_initiator t' = tg_initiator t \<and>
     tg_page t' = tg_page t \<and> tg_sent t' = tg_sent t \<and> tg_wait_navigation t' = tg_wait_navigation t \<and>
     tg_wait_dom_content t' = tg_wait_dom_content t \<and> tg_wait_load t' = tg_wait_load t \<and>
     tg_wait_idle t' = tg_wait_idle t \<and> tg_wait_almost_idle t' = tg_wait_almost_idle t"

lemma same_front_refl [simp]: "same_front t t"
  by (simp add: same_front_def)

lemma same_front_trans: "same_front t t' \<Longrightarrow> same_front t' t'' \<Longrightarrow> same_front t t''"
  by (simp add: same_front_def)

lemma network_event_front: "same_front t (on_network_event ev t)"
  by (cases ev) (simp_all add: same_front_def)

lemma frame_event_front: "same_front t (on_frame_event ev t)"
  by (cases ev) (simp_all add: same_front_def)

text \<open>A transitive relation that the single steps of a drain respect holds across the drain.\<close>

lemma drain_network_rule:
  assumes trans: "\<And>a b c. R a b \<Longrightarrow> R b c \<Longrightarrow> R a c"
    and set: "\<And>t r m. NetworkManager_poll (tg_network t) = (r, m) \<Longrightarrow> R t (t\<lparr>tg_network := m\<rparr>)"
    and ev: "\<And>ev t. R t (on_network_event ev t)"
  shows "R t (drain_network t)"
proof (induction t rule: drain_network.induct)
  case (1 t)
  obtain r m where poll: "NetworkManager_poll (tg_network t) = (r, m)" by fastforce
  show ?case
  proof (cases r)
    case None
    then show ?thesis using set [OF poll] by (subst drain_network.simps) (simp add: poll)
  next
    case (Some ev1)
    have "R (on_network_event ev1 (t\<lparr>tg_network := m\<rparr>)) (drain_network (on_network_event ev1 (t\<lparr>tg_network := m\<rparr>)))"
      if "tg_init t \<noteq> Closing"
      using that Some by (intro 1 [OF poll [symmetric] Some refl]) simp
    then have "R (t\<lparr>tg_network := m\<rparr>) (drain_network (on_network_event ev1 (t\<lparr>tg_network := m\<rparr>)))"
      if "tg_init t \<noteq> Closing" using that by (blast intro: trans [OF ev])
    then show ?thesis using set [OF poll] by (subst drain_network.simps) (auto simp: poll Some Let_def intro: trans)
  qed
qed

lemma drain_frames_rule:
  assumes trans: "\<And>a b c. R a b \<Longrightarrow> R b c \<Longrightarrow> R a c"
    and set: "\<And>t c r m. FrameManager_poll now c (tg_frames t) = (r, m) \<Longrightarrow> R t (t\<lparr>tg_frames := m\<rparr>)"
    and ev: "\<And>ev t. R t (on_frame_event ev t)"
  shows "R t (drain_frames now clock t)"
  using set
proof (induction now clock t rule: drain_frames.induct)
  case (1 now clock t)
  note set = 1(2)
  obtain r m where poll: "FrameManager_poll now (clock 0) (tg_frames t) = (r, m)" by fastforce
  show ?case
  proof (cases r)
    case None
    then show ?thesis using set [OF poll] by (subst drain_frames.simps) (simp add: poll)
  next
    case (Some ev1)
    let ?t = "t\<lparr>tg_frames := m\<rparr>"
    have "R (on_frame_event ev1 ?t) (drain_frames now (\<lambda>n. clock (Suc n)) (on_frame_event ev1 ?t))"
      if "tg_init t \<noteq> Closing"
      using that Some by (intro 1(1) [OF poll [symmetric] Some refl] set) simp_all
    then have "R ?t (drain_frames now (\<lambda>n. clock (Suc n)) (on_frame_event ev1 ?t))"
      if "tg_init t \<noteq> Closing" using that by (blast intro: trans [OF ev])
    then show ?thesis using set [OF poll] by (subst drain_frames.simps) (auto simp: poll Some Let_def intro: trans)
  qed
qed

lemma drain_network_front: "same_front t (drain_network t)"
proof (rule drain_network_rule)
  show "same_front t (t\<lparr>tg_network := m\<rparr>)" for t m by (simp add: same_front_def)
qed (auto intro: same_front_trans network_event_front)

lemma drain_frames_front: "same_front t (drain_frames now clock t)"
proof (rule drain_frames_rule)
  show "same_front t (t\<lparr>tg_frames := m\<rparr>)" for t m by (simp add: same_front_def)
qed (auto intro: same_front_trans frame_event_front)

lemma dispatch_front: "same_front t (dispatch_event env clock ev t)"
  by (cases ev) (simp_all add: same_front_def on_attached_child_def Let_def)

lemma listeners_front: "same_front t (t\<lparr>tg_listeners := ls\<rparr>)" "same_front t (t\<lparr>tg_woken := w\<rparr>)"
  by (simp_all add: same_front_def)

lemma on_event_front: "same_front t (Target_on_event env clock ev t)"
proof -
  have "same_front t (dispatch_event env clock (ev_params ev) t)" by (rule dispatch_front)
  then show ?thesis unfolding Target_on_event_def Let_def
    by (simp add: same_front_trans [OF _ listeners_front(1)])
qed

section \<open>The two loops\<close>

text \<open>Both loops are the two passes written out: what the first pass returns, or what it queued.\<close>

definition drained :: "instant \<Rightarrow> (nat \<Rightarrow> instant) \<Rightarrow> target \<Rightarrow> target" where
  "drained now clock t = drain_frames now clock (drain_network t)"

lemma drained_front: "same_front t (drained now clock t)"
  unfolding drained_def by (rule same_front_trans [OF drain_network_front drain_frames_front])

definition two_passes :: "(target \<Rightarrow> target) \<Rightarrow> (target \<Rightarrow> target) \<Rightarrow> target \<Rightarrow> target_event option \<times> target" where
  "two_passes fire work t =
     (if tg_init t = Closing then (None, t)
      else case tg_queued t of
          ev # evs \<Rightarrow> (Some ev, (fire t)\<lparr>tg_queued := evs\<rparr>)
        | [] \<Rightarrow> (let t' = work (fire t) in case tg_queued t' of
              [] \<Rightarrow> (None, t')
            | ev # evs \<Rightarrow> (Some ev, (fire t')\<lparr>tg_queued := evs\<rparr>)))"

lemma handle_message_core:
  "tg_info (handle_message lid msg t) = tg_info t" "tg_type (handle_message lid msg t) = tg_type t"
  "tg_config (handle_message lid msg t) = tg_config t" "tg_session_id (handle_message lid msg t) = tg_session_id t"
  "tg_init (handle_message lid msg t) = tg_init t" "tg_initiator (handle_message lid msg t) = tg_initiator t"
  "tg_page (handle_message lid msg t) = tg_page t" "tg_frames (handle_message lid msg t) = tg_frames t"
  by (cases msg; simp add: Let_def split: option.split)+

lemma handle_messages_core:
  "tg_info (handle_messages lid msgs t) = tg_info t \<and> tg_type (handle_messages lid msgs t) = tg_type t \<and>
   tg_config (handle_messages lid msgs t) = tg_config t \<and> tg_session_id (handle_messages lid msgs t) = tg_session_id t \<and>
   tg_init (handle_messages lid msgs t) = tg_init t \<and> tg_initiator (handle_messages lid msgs t) = tg_initiator t \<and>
   tg_page (handle_messages lid msgs t) = tg_page t \<and> tg_frames (handle_messages lid msgs t) = tg_frames t"
  by (induction lid msgs t rule: handle_messages.induct) (simp_all add: handle_message_core)

lemma receive_messages_core [simp]:
  "tg_info (receive_messages lid t) = tg_info t" "tg_type (receive_messages lid t) = tg_type t"
  "tg_config (receive_messages lid t) = tg_config t" "tg_session_id (receive_messages lid t) = tg_session_id t"
  "tg_init (receive_messages lid t) = tg_init t" "tg_initiator (receive_messages lid t) = tg_initiator t"
  "tg_frames (receive_messages lid t) = tg_frames t"
  by (auto simp: receive_messages_def handle_messages_core split: option.split)

lemma drained_init [simp]: "tg_init (drained now clock t) = tg_init t"
  using drained_front by (simp add: same_front_def)

lemma poll_loop_queued:
  "tg_queued t = ev # evs \<Longrightarrow> tg_init t \<noteq> Closing \<Longrightarrow> poll_loop lid now clock t =
    (Some ev, (fire_main (fire_waiters_bounded WAITER_DRAIN_BUDGET) t)\<lparr>tg_queued := evs\<rparr>)"
  by (subst poll_loop.simps) (simp add: Let_def)

lemma advance_loop_queued:
  "tg_queued t = ev # evs \<Longrightarrow> tg_init t \<noteq> Closing \<Longrightarrow> advance_loop now clock t =
    (Some ev, (fire_main fire_waiters t)\<lparr>tg_queued := evs\<rparr>)"
  by (subst advance_loop.simps) (simp add: Let_def)

lemma poll_loop_passes: "poll_loop lid now clock t =
    two_passes (fire_main (fire_waiters_bounded WAITER_DRAIN_BUDGET)) (\<lambda>t. drained now clock (receive_messages lid t)) t"
  by (subst poll_loop.simps)
    (auto simp: two_passes_def drained_def [symmetric] Let_def poll_loop_queued split: list.split)

lemma advance_loop_passes: "advance_loop now clock t =
    two_passes (fire_main fire_waiters) (drained now clock) t"
  by (subst advance_loop.simps)
    (auto simp: two_passes_def drained_def [symmetric] Let_def advance_loop_queued split: list.split)

end
