(* ===== verification/Target_Phases.thy ===== *)
theory Target_Phases
  imports Target_Machine Net_Machine
begin

text \<open>
  The initialisation of a target as a state machine: its phases, the edges between them, and that
  no operation leaves the edges; what a target does when a command is not answered in time; and
  that initialisation ends when every command is answered.
\<close>

section \<open>Phases\<close>

datatype phase = PAttach | PFrame | PNetwork | PPage | PEmulation | PReady | PClosing

fun phase_of :: "target_init \<Rightarrow> phase" where
  "phase_of AttachToTarget = PAttach"
| "phase_of (InitializingFrame _) = PFrame"
| "phase_of (InitializingNetwork _) = PNetwork"
| "phase_of (InitializingPage _) = PPage"
| "phase_of (InitializingEmulation _) = PEmulation"
| "phase_of Initialized = PReady"
| "phase_of Closing = PClosing"

inductive phase_edge :: "phase \<Rightarrow> phase \<Rightarrow> bool" where
  attach: "phase_edge PAttach PFrame"
| frame: "phase_edge PFrame PNetwork"
| network: "phase_edge PNetwork PPage"
| page: "phase_edge PPage PEmulation"
| no_viewport: "phase_edge PPage PReady"
| emulation: "phase_edge PEmulation PReady"
| failed: "p \<in> {PFrame, PNetwork, PPage, PEmulation} \<Longrightarrow> phase_edge p PClosing"

code_pred phase_edge .

inductive_cases phase_edge_fromE: "phase_edge PReady p" "phase_edge PClosing p"
inductive_simps phase_edge_attach [simp]: "phase_edge PAttach p"

abbreviation phase :: "target \<Rightarrow> phase" where
  "phase t \<equiv> phase_of (tg_init t)"

definition moves :: "target \<Rightarrow> target \<Rightarrow> bool" where
  "moves t t' \<longleftrightarrow> phase_edge\<^sup>*\<^sup>* (phase t) (phase t')"

lemma moves_refl [simp]: "moves t t"
  by (simp add: moves_def)

lemma moves_trans: "moves t t' \<Longrightarrow> moves t' t'' \<Longrightarrow> moves t t''"
  unfolding moves_def by (rule rtranclp_trans)

lemma moves_same [intro]: "tg_init t' = tg_init t \<Longrightarrow> moves t t'"
  by (simp add: moves_def)

lemma moves_edge: "phase_edge (phase t) (phase t') \<Longrightarrow> moves t t'"
  by (auto simp: moves_def)

text \<open>The two final phases.\<close>

lemma moves_final: "moves t t' \<Longrightarrow> phase t \<in> {PReady, PClosing} \<Longrightarrow> phase t' = phase t"
  unfolding moves_def by (erule converse_rtranclpE) (auto elim: phase_edge_fromE)

section \<open>The \<open>match\<close> moves along the edges\<close>

lemma init_failed_moves:
  "phase t \<in> {PFrame, PNetwork, PPage, PEmulation} \<Longrightarrow> moves t (snd (on_initialization_failed t))"
  by (rule moves_edge) (auto simp: on_initialization_failed_def Let_def intro: phase_edge.intros split: option.split)

lemma map_commands_phase [simp]: "phase_of (map_commands f i) = phase_of i"
  by (cases i) simp_all

lemma advance_state_moves:
  assumes "tg_init t = mk cmds" and mk: "\<And>c. phase_of (mk c) = p" and p: "p \<in> {PFrame, PNetwork, PPage, PEmulation}"
    and next_moves: "\<And>t. phase t = p \<Longrightarrow> moves t (next t)"
  shows "moves t (snd (advance_state now mk cmds next t))"
proof -
  have t: "phase t = p" using assms(1) mk by simp
  have stay: "moves t (t\<lparr>tg_init := mk c\<rparr>)" for c using t mk by (simp add: moves_def)
  have "moves t (next (t\<lparr>tg_init := mk c\<rparr>))" for c
    by (rule moves_trans [OF stay next_moves]) (simp add: mk)
  moreover have "moves t (snd (on_initialization_failed (t\<lparr>tg_init := mk c\<rparr>)))" for c
    by (rule moves_trans [OF stay init_failed_moves]) (use mk p in simp)
  ultimately show ?thesis
    by (auto simp: advance_state_def Let_def stay split: prod.split poll.split option.split sum.split)
       (metis snd_conv)
qed

lemma enter_network_moves: "phase t = PFrame \<Longrightarrow> moves t (enter_network t)"
  by (rule moves_edge) (simp add: enter_network_def phase_edge.intros)

lemma after_frame_moves: "phase t = PFrame \<Longrightarrow> moves t (after_frame_commands env t)"
  using enter_network_moves
  by (auto simp: after_frame_commands_def moves_def enter_network_def Let_def split: option.split prod.split)

lemma deliver_page_init [simp]: "tg_init (deliver_page t) = tg_init t"
  by (auto simp: deliver_page_def get_or_create_page_def Target_create_page_def Let_def split: option.split prod.split)

lemma init_step_moves: "moves t (snd (target_init_step env now t))"
proof (cases "tg_init t")
  case (InitializingFrame c)
  then have "moves t (snd (advance_state now InitializingFrame c (after_frame_commands env) t))"
    by (intro advance_state_moves [where p = PFrame] after_frame_moves) auto
  with InitializingFrame show ?thesis by (simp add: target_init_step_def)
next
  case (InitializingNetwork c)
  then have "moves t (snd (advance_state now InitializingNetwork c (enter_page env) t))"
    by (intro advance_state_moves [where p = PNetwork] moves_edge) (auto simp: enter_page_def intro: phase_edge.intros)
  with InitializingNetwork show ?thesis by (simp add: target_init_step_def)
next
  case (InitializingPage c)
  then have "moves t (snd (advance_state now InitializingPage c enter_emulation t))"
    by (intro advance_state_moves [where p = PPage] moves_edge)
      (auto simp: enter_emulation_def intro: phase_edge.intros split: option.split prod.split)
  with InitializingPage show ?thesis by (simp add: target_init_step_def)
next
  case (InitializingEmulation c)
  then have "moves t (snd (advance_state now InitializingEmulation c (\<lambda>t. t\<lparr>tg_init := Initialized\<rparr>) t))"
    by (intro advance_state_moves [where p = PEmulation] moves_edge) (auto intro: phase_edge.intros)
  with InitializingEmulation show ?thesis by (simp add: target_init_step_def)
next
  case AttachToTarget
  then show ?thesis by (intro moves_edge) (simp add: target_init_step_def Let_def)
qed (auto simp: target_init_step_def)

lemma run_init_moves: "moves t (snd (run_init env now t))"
proof (induction env now t rule: run_init.induct)
  case (1 env now t)
  have step: "moves t (snd (target_init_step env now t))" by (rule init_step_moves)
  show ?case
  proof (cases "target_init_step env now t")
    case (Pair o1 t1)
    then show ?thesis using step 1 by (subst run_init.simps) (auto intro: moves_trans split: init_outcome.split)
  qed
qed

section \<open>Every operation moves along the edges\<close>

lemma two_passes_init:
  assumes "\<And>t. tg_init (fire t) = tg_init t" "\<And>t. tg_init (work t) = tg_init t"
  shows "tg_init (snd (two_passes fire work t)) = tg_init t"
  by (simp add: two_passes_def assms Let_def split: list.split)

lemma poll_loop_init [simp]: "tg_init (snd (poll_loop lid now clock t)) = tg_init t"
  unfolding poll_loop_passes by (rule two_passes_init) simp_all

lemma advance_loop_init [simp]: "tg_init (snd (advance_loop now clock t)) = tg_init t"
  unfolding advance_loop_passes by (rule two_passes_init) simp_all

lemma prune_init [simp]: "tg_init (prune_waiters gone t) = tg_init t"
  by (simp add: prune_waiters_def)

lemma poll_moves: "moves t (snd (Target_poll env gone lid now clock t))"
  using run_init_moves [of t env now] by (auto simp: Target_poll_def moves_def split: prod.split option.split)

lemma advance_moves: "moves t (snd (Target_advance env gone now clock t))"
  using run_init_moves [of t env now] by (auto simp: Target_advance_def moves_def split: prod.split option.split)

lemma step_moves: "moves t (tg_step env t i)"
proof (cases i)
  case (TgEvent ev clock)
  then show ?thesis using on_event_front [of t env clock ev] by (auto simp: same_front_def)
next
  case (TgResponse resp meth)
  then show ?thesis by (auto simp: moves_def Target_on_response_def Let_def split: option.split)
next
  case (TgMessage msg lid)
  then show ?thesis by (auto simp: on_page_message_def handle_message_core)
qed (auto simp: poll_moves advance_moves page_sends_def set_session_id_def set_initiator_def get_or_create_page_def
    Target_create_page_def Let_def split: option.split)

lemma run_moves: "moves t (run (tg_step env) t es)"
  by (induction es arbitrary: t) (auto intro: moves_trans step_moves)

section \<open>Commands that are not answered in time\<close>

fun chain_of :: "target_init \<Rightarrow> command_chain option" where
  "chain_of (InitializingFrame c) = Some c"
| "chain_of (InitializingNetwork c) = Some c"
| "chain_of (InitializingPage c) = Some c"
| "chain_of (InitializingEmulation c) = Some c"
| "chain_of _ = None"

text \<open>The command a target waits for, with its deadline. A target without a session does not look
  at its first chain.\<close>

definition awaiting :: "target \<Rightarrow> (method_id \<times> instant) option" where
  "awaiting t = (if phase t = PFrame \<and> tg_session_id t = None then None
     else Option.bind (chain_of (tg_init t)) cc_waiting)"

definition overdue :: "instant \<Rightarrow> target \<Rightarrow> bool" where
  "overdue now t = (case awaiting t of None \<Rightarrow> False | Some (m, deadline) \<Rightarrow> now > deadline)"

text \<open>The macro, by what the chain is doing.\<close>

lemma advance_state_eq:
  assumes "tg_init t = mk c"
  shows "advance_state now mk c next t = (case cc_waiting c of
      Some (m, d) \<Rightarrow> if now > d
        then (let (ev, t) = on_initialization_failed t in (Return (Some ev), t))
        else (Return None, t)
    | None \<Rightarrow> (case cc_cmds c of
          [] \<Rightarrow> (Restart, next t)
        | cmd # rest \<Rightarrow> (Return (Some (TargetRequest (session_request cmd t))),
            t\<lparr>tg_init := mk (c\<lparr>cc_cmds := rest, cc_waiting := Some (fst cmd, now + cc_timeout c)\<rparr>)\<rparr>)))"
proof -
  have "t\<lparr>tg_init := mk c\<rparr> = t" by (simp flip: assms)
  then show ?thesis
    by (auto simp: advance_state_def CommandChain_poll_def session_request_def Let_def split: option.split list.split prod.split)
qed

lemma overdue_step:
  assumes "overdue now t"
  shows "target_init_step env now t = (let (ev, t') = on_initialization_failed t in (Return (Some ev), t'))"
  using assms by (cases "tg_init t") (auto simp: overdue_def awaiting_def target_init_step_def advance_state_eq
      split: if_splits option.splits)

lemma init_failed_phase [simp]: "phase (snd (on_initialization_failed t)) = PClosing"
  by (simp add: on_initialization_failed_def Let_def)

text \<open>Without an overdue command a pass through the \<open>match\<close> closes nothing, and what a restart
  finds is not overdue either: its chain is fresh.\<close>

lemma in_time_step:
  assumes "\<not> overdue now t" "phase t \<noteq> PClosing"
  shows "phase (snd (target_init_step env now t)) \<noteq> PClosing"
    and "target_init_step env now t = (Restart, t') \<Longrightarrow> \<not> overdue now t'"
proof -
  have fresh: "cc_waiting (fst (EmulationManager_init_commands v em)) = None" for v em
    by (simp add: EmulationManager_init_commands_def CommandChain_new_def Let_def case_prod_beta)
  show "phase (snd (target_init_step env now t)) \<noteq> PClosing"
    using assms by (cases "tg_init t") (auto simp: overdue_def awaiting_def target_init_step_def advance_state_eq
        after_frame_commands_def enter_network_def enter_page_def enter_emulation_def Let_def
        split: if_splits option.splits list.splits prod.splits)
  show "target_init_step env now t = (Restart, t') \<Longrightarrow> \<not> overdue now t'"
    using assms fresh by (cases "tg_init t") (auto simp: overdue_def awaiting_def target_init_step_def advance_state_eq
        after_frame_commands_def enter_network_def enter_page_def enter_emulation_def page_init_commands_def
        NetworkManager_init_commands_def ensure_isolated_world_def CommandChain_new_def Let_def case_prod_beta
        split: if_splits option.splits list.splits prod.splits)
qed

lemma in_time_run: "\<not> overdue now t \<Longrightarrow> phase t \<noteq> PClosing \<Longrightarrow> phase (snd (run_init env now t)) \<noteq> PClosing"
proof (induction env now t rule: run_init.induct)
  case (1 env now t)
  obtain o1 t1 where step: "target_init_step env now t = (o1, t1)" by fastforce
  with in_time_step [OF 1(2,3), of env] have "phase t1 \<noteq> PClosing" "o1 = Restart \<Longrightarrow> \<not> overdue now t1" by auto
  with 1(1) [OF step [symmetric]] show ?case
    by (subst run_init.simps) (auto simp: step split: init_outcome.split)
qed

lemma overdue_run: "overdue now t \<Longrightarrow> run_init env now t =
    (let (ev, t') = on_initialization_failed t in (Some (Some ev), t'))"
  by (subst run_init.simps) (simp add: overdue_step Let_def case_prod_beta)

section \<open>Initialisation ends when every command is answered\<close>

text \<open>A round: the target advances, and if it then waits for a command, the browser answers it.\<close>

definition init_round :: "target_env \<Rightarrow> (sender \<Rightarrow> bool) \<Rightarrow> (method_id \<Rightarrow> cdp_response) \<Rightarrow> instant \<Rightarrow> target \<Rightarrow> target" where
  "init_round env gone resp now t =
     (let t = snd (Target_advance env gone now (\<lambda>_. now) t) in
      case awaiting t of None \<Rightarrow> t | Some (m, _) \<Rightarrow> Target_on_response env (resp m) m t)"

fun init_rounds :: "target_env \<Rightarrow> (sender \<Rightarrow> bool) \<Rightarrow> (method_id \<Rightarrow> cdp_response) \<Rightarrow> (nat \<Rightarrow> instant) \<Rightarrow> nat \<Rightarrow> target \<Rightarrow> target" where
  "init_rounds env gone resp now 0 t = t"
| "init_rounds env gone resp now (Suc n) t =
     init_rounds env gone resp (\<lambda>k. now (Suc k)) n (init_round env gone resp (now 0) t)"

text \<open>The work left: phases to go, frame trees still asked for (an answer may rename the main frame
  and so its world), whether the world has to be ensured, commands to send.\<close>

fun stage :: "phase \<Rightarrow> nat" where
  "stage PAttach = 5"
| "stage PFrame = 4"
| "stage PNetwork = 3"
| "stage PPage = 2"
| "stage PEmulation = 1"
| "stage PReady = 0"
| "stage PClosing = 0"

definition tree_requests :: "command_chain \<Rightarrow> nat" where
  "tree_requests c = length (filter (\<lambda>cmd. fst cmd = method_identifier PageGetFrameTree) (cc_cmds c))"

definition unensured :: "target \<Rightarrow> nat" where
  "unensured t = (case get_isolated_world_name (tg_frames t) of
      None \<Rightarrow> 0 | Some w \<Rightarrow> if w \<in> fm_isolated_worlds (tg_frames t) then 0 else 1)"

definition init_work :: "target \<Rightarrow> nat \<times> nat \<times> nat \<times> nat" where
  "init_work t = (stage (phase t),
     case chain_of (tg_init t) of
       None \<Rightarrow> (0, 0, 0)
     | Some c \<Rightarrow> (tree_requests c, unensured t, length (cc_cmds c)))"

definition work_order :: "((nat \<times> nat \<times> nat \<times> nat) \<times> (nat \<times> nat \<times> nat \<times> nat)) set" where
  "work_order = less_than <*lex*> less_than <*lex*> less_than <*lex*> less_than"

lemma wf_work_order: "wf work_order"
  by (simp add: work_order_def wf_lex_prod)

lemma stage_drops: "stage (phase t') < stage (phase t) \<Longrightarrow> (init_work t', init_work t) \<in> work_order"
  by (simp add: init_work_def work_order_def)

text \<open>A target at rest: a page with a session that waits for nothing.\<close>

definition at_rest :: "target \<Rightarrow> bool" where
  "at_rest t \<longleftrightarrow> is_page t \<and> tg_session_id t \<noteq> None \<and> phase t \<noteq> PClosing
     \<and> (case chain_of (tg_init t) of None \<Rightarrow> True | Some c \<Rightarrow> cc_waiting c = None)"

definition answered :: "target_env \<Rightarrow> (method_id \<Rightarrow> cdp_response) \<Rightarrow> target \<Rightarrow> target" where
  "answered env resp t = (case awaiting t of None \<Rightarrow> t | Some (m, _) \<Rightarrow> Target_on_response env (resp m) m t)"

text \<open>A command sent and answered leaves less work and the target at rest.\<close>

lemma answered_less:
  assumes "at_rest t" "tg_init t = mk c" "cc_cmds c = cmd # rest"
    and mk: "mk \<in> {InitializingFrame, InitializingNetwork, InitializingPage, InitializingEmulation}"
    and t': "t' = t\<lparr>tg_init := mk (c\<lparr>cc_cmds := rest, cc_waiting := Some (fst cmd, d)\<rparr>)\<rparr>"
  shows "at_rest (answered env resp t') \<and> (init_work (answered env resp t'), init_work t) \<in> work_order"
proof -
  have w: "awaiting t' = Some (fst cmd, d)"
    using assms by (auto simp: awaiting_def at_rest_def)
  define t'' where "t'' = answered env resp t'"
  have init: "tg_init t'' = mk (c\<lparr>cc_cmds := rest, cc_waiting := None\<rparr>)"
    using mk w by (auto simp: t''_def t' answered_def Target_on_response_def Let_def
        CommandChain_received_response_def split: option.splits)
  have core: "is_page t''" "tg_session_id t'' \<noteq> None"
    using assms(1) w by (auto simp: t''_def answered_def t' at_rest_def is_page_def Target_on_response_def Let_def split: option.splits)
  have "phase t'' = phase t" using mk init assms(2) by auto
  then have rest: "at_rest t''" using core assms(1) init mk by (auto simp: at_rest_def)
  have frames: "unensured t'' = unensured t" if "fst cmd \<noteq> method_identifier PageGetFrameTree"
  proof -
    have "tg_frames t'' = tg_frames t" using that w by (auto simp: t''_def answered_def t' Target_on_response_def Let_def)
    then show ?thesis by (simp only: unensured_def)
  qed
  have "(init_work t'', init_work t) \<in> work_order"
    using frames assms(2,3) mk init
    by (cases "fst cmd = method_identifier PageGetFrameTree")
      (auto simp: init_work_def work_order_def tree_requests_def)
  with rest show ?thesis by (simp add: t''_def)
qed

text \<open>The next state has its own, fresh chain.\<close>

lemma at_rest_next:
  assumes "at_rest t" "tg_init t = InitializingFrame c" "cc_cmds c = []"
  shows "at_rest (after_frame_commands env t) \<and> (init_work (after_frame_commands env t), init_work t) \<in> work_order"
proof (cases "get_isolated_world_name (tg_frames t)")
  case None
  then have "after_frame_commands env t = enter_network t" by (simp add: after_frame_commands_def)
  with assms show ?thesis
    by (auto intro!: stage_drops simp: enter_network_def at_rest_def is_page_def NetworkManager_init_commands_def CommandChain_new_def)
next
  case (Some w)
  show ?thesis
  proof (cases "w \<in> fm_isolated_worlds (tg_frames t)")
    case True
    with Some have "after_frame_commands env t = enter_network t"
      by (simp add: after_frame_commands_def ensure_isolated_world_def Let_def)
    with assms show ?thesis
      by (auto intro!: stage_drops simp: enter_network_def at_rest_def is_page_def NetworkManager_init_commands_def CommandChain_new_def)
  next
    case False
    with Some assms show ?thesis
      by (auto simp: after_frame_commands_def ensure_isolated_world_def Let_def at_rest_def is_page_def CommandChain_new_def
          init_work_def work_order_def tree_requests_def unensured_def get_isolated_world_name_def FrameManager_main_frame_def
          command_pair_def split: option.splits)
  qed
qed

lemma restart_at_rest:
  assumes "at_rest t" "target_init_step env now t = (Restart, t')"
  shows "at_rest t' \<and> (init_work t', init_work t) \<in> work_order"
proof (cases "tg_init t")
  case (InitializingFrame c)
  with assms have "cc_cmds c = []" "t' = after_frame_commands env t"
    by (auto simp: target_init_step_def advance_state_eq at_rest_def split: if_splits option.splits list.splits)
  with at_rest_next [OF assms(1) InitializingFrame] show ?thesis by simp
next
  case (InitializingNetwork c)
  with assms show ?thesis
    by (auto intro!: stage_drops simp: target_init_step_def advance_state_eq at_rest_def is_page_def enter_page_def
        page_init_commands_def CommandChain_new_def split: option.splits list.splits)
next
  case (InitializingPage c)
  with assms show ?thesis
    by (auto intro!: stage_drops simp: target_init_step_def advance_state_eq at_rest_def is_page_def enter_emulation_def
        EmulationManager_init_commands_def CommandChain_new_def Let_def case_prod_beta split: option.splits list.splits)
next
  case (InitializingEmulation c)
  with assms show ?thesis
    by (auto intro!: stage_drops simp: target_init_step_def advance_state_eq at_rest_def is_page_def split: option.splits list.splits)
qed (use assms in \<open>simp_all add: target_init_step_def Let_def\<close>)

text \<open>Unless it restarts or is ready, a target at rest sends its next command.\<close>

lemma chain_returns:
  assumes rest: "at_rest t" and init: "tg_init t = mk c"
    and mk: "mk \<in> {InitializingFrame, InitializingNetwork, InitializingPage, InitializingEmulation}"
    and step: "advance_state now mk c next t = (Return r, t')"
  shows "at_rest (answered env resp t') \<and> (init_work (answered env resp t'), init_work t) \<in> work_order"
proof -
  have "cc_waiting c = None" using rest init mk by (auto simp: at_rest_def)
  with step obtain cmd rest' where c: "cc_cmds c = cmd # rest'"
    "t' = t\<lparr>tg_init := mk (c\<lparr>cc_cmds := rest', cc_waiting := Some (fst cmd, now + cc_timeout c)\<rparr>)\<rparr>"
    by (auto simp: advance_state_eq [of t mk, OF init] split: list.splits)
  show ?thesis by (rule answered_less [OF rest init c(1) mk c(2)])
qed

lemma return_at_rest:
  assumes "at_rest t" "target_init_step env now t = (Return r, t')"
  shows "at_rest (answered env resp t') \<and> (init_work (answered env resp t'), init_work t) \<in> work_order"
proof (cases "tg_init t")
  case AttachToTarget
  with assms show ?thesis
    by (auto intro!: stage_drops simp: target_init_step_def at_rest_def is_page_def answered_def awaiting_def Let_def
        FrameManager_init_commands_def CommandChain_new_def)
next
  case (InitializingFrame c)
  with assms have "advance_state now InitializingFrame c (after_frame_commands env) t = (Return r, t')"
    by (auto simp: target_init_step_def at_rest_def)
  then show ?thesis by (intro chain_returns [where mk = InitializingFrame, OF assms(1) InitializingFrame]) simp_all
next
  case (InitializingNetwork c)
  with assms show ?thesis by (intro chain_returns [where mk = InitializingNetwork, OF assms(1) InitializingNetwork]) (simp_all add: target_init_step_def)
next
  case (InitializingPage c)
  with assms show ?thesis by (intro chain_returns [where mk = InitializingPage, OF assms(1) InitializingPage]) (simp_all add: target_init_step_def)
next
  case (InitializingEmulation c)
  with assms show ?thesis by (intro chain_returns [where mk = InitializingEmulation, OF assms(1) InitializingEmulation]) (simp_all add: target_init_step_def)
qed (use assms in \<open>simp_all add: target_init_step_def at_rest_def\<close>)

lemma run_init_at_rest:
  assumes "at_rest t"
  shows "(case run_init env now t of
      (Some _, t') \<Rightarrow> at_rest (answered env resp t') \<and> (init_work (answered env resp t'), init_work t) \<in> work_order
    | (None, t') \<Rightarrow> phase t' = PReady)"
  using assms
proof (induction env now t rule: run_init.induct)
  case (1 env now t)
  obtain o1 t1 where step: "target_init_step env now t = (o1, t1)" by fastforce
  show ?case
  proof (cases o1)
    case (Return r)
    with return_at_rest [OF 1(2)] step show ?thesis by (subst run_init.simps) simp
  next
    case Restart
    with restart_at_rest [OF 1(2)] step have r: "at_rest t1" "(init_work t1, init_work t) \<in> work_order" by auto
    have "trans work_order" by (simp add: work_order_def)
    with 1(1) [OF step [symmetric] Restart r(1)] r(2) show ?thesis
      by (subst run_init.simps) (auto simp: step Restart split: prod.splits option.splits elim: transE)
  next
    case Proceed
    with step have "tg_init t = Initialized \<and> t1 = deliver_page t"
      by (cases "tg_init t") (auto simp: target_init_step_def Let_def advance_state_eq split: if_splits option.splits list.splits prod.splits)
    then show ?thesis using step Proceed by (subst run_init.simps) simp
  qed
qed

lemma init_round_answered: "init_round env gone resp now t =
    answered env resp (snd (Target_advance env gone now (\<lambda>_. now) t))"
  by (simp add: init_round_def answered_def Let_def)

lemma init_round_less:
  assumes "at_rest t" "phase (init_round env gone resp now t) \<noteq> PReady"
  shows "at_rest (init_round env gone resp now t) \<and> (init_work (init_round env gone resp now t), init_work t) \<in> work_order"
proof -
  obtain r t1 where run: "run_init env now t = (r, t1)" by fastforce
  show ?thesis
  proof (cases r)
    case (Some ev)
    then have "init_round env gone resp now t = answered env resp t1"
      using assms(1) run by (simp add: init_round_answered Target_advance_def at_rest_def)
    with run_init_at_rest [OF assms(1), of env resp now] run Some show ?thesis by simp
  next
    case None
    with run_init_at_rest [OF assms(1), of env resp now] run have "phase t1 = PReady" by simp
    moreover have "phase (answered env resp t2) = phase t2" for t2
      by (auto simp: answered_def Target_on_response_def Let_def split: option.split)
    ultimately have "phase (init_round env gone resp now t) = PReady"
      using assms(1) run None by (simp add: init_round_answered Target_advance_def at_rest_def)
    with assms(2) show ?thesis by simp
  qed
qed

section \<open>Properties\<close>

text \<open>Initialisation moves forward. In every run a target's state follows the edges attach,
  frame, network, page, emulation, ready, with a failure edge to closing from the four states that
  run commands; once it is ready or closing it stays so.\<close>

theorem initialisation_moves_forward:
  fixes env t es es'
  defines "s \<equiv> run (tg_step env) t es"
  shows "phase_edge\<^sup>*\<^sup>* (phase s) (phase (run (tg_step env) t (es @ es'))) \<and>
    (if phase s \<in> {PReady, PClosing} then phase (run (tg_step env) t (es @ es')) = phase s else True)"
  using run_moves [of s env es'] moves_final [of s "run (tg_step env) s es'"]
  by (simp add: s_def run_append moves_def)

text \<open>Late answers close the target. A page target that is not closing already closes in
  \<open>advance\<close> exactly when the command it waits for is overdue; then it asks the browser to close the
  target, and whoever asked for the page gets a timeout.\<close>

theorem late_answer_closes_target:
  assumes "is_page t" "phase t \<noteq> PClosing"
  shows "(phase (snd (Target_advance env gone now clock t)) = PClosing \<longleftrightarrow> overdue now t) \<and>
    (overdue now t \<longrightarrow>
       fst (Target_advance env gone now clock t) = Some (TargetRequest
         (session_request (command_pair (TargetCloseTarget (target_id t))) t)) \<and>
       tg_initiator (snd (Target_advance env gone now clock t)) = None \<and>
       tg_sent (snd (Target_advance env gone now clock t)) = tg_sent t @
         (case tg_initiator t of None \<Rightarrow> [] | Some tx \<Rightarrow> [(tx, ReplyPage (Inl Timeout))]))"
proof (cases "overdue now t")
  case True
  then have "Target_advance env gone now clock t = (Some (fst (on_initialization_failed t)), snd (on_initialization_failed t))"
    using assms by (simp add: Target_advance_def overdue_run Let_def case_prod_beta)
  with True show ?thesis
    by (simp add: on_initialization_failed_def session_request_def target_id_def Let_def split: option.split)
next
  case False
  with in_time_run [OF this assms(2), of env] assms(1) show ?thesis
    by (auto simp: Target_advance_def split: prod.split option.split)
qed

text \<open>C38 (a page becomes ready). A page target that has its session and waits for nothing, in
  particular a new one, is initialised after finitely many rounds in which the browser answers the
  command just sent, whatever the answers and the times of the rounds.\<close>

theorem page_becomes_ready:
  assumes "at_rest t"
  shows "\<exists>n. phase (init_rounds env gone resp now n t) = PReady"
  using assms
proof (induction t arbitrary: now rule: wf_induct [OF wf_inv_image [OF wf_work_order, of init_work]])
  case (1 t)
  let ?t = "init_round env gone resp (now 0) t"
  show ?case
  proof (cases "phase ?t = PReady")
    case True
    then have "phase (init_rounds env gone resp now (Suc 0) t) = PReady" by simp
    then show ?thesis ..
  next
    case False
    with init_round_less [OF 1(2)] have "at_rest ?t" "(?t, t) \<in> inv_image work_order init_work" by simp_all
    with 1(1) obtain n where "phase (init_rounds env gone resp (\<lambda>k. now (Suc k)) n ?t) = PReady" by blast
    then have "phase (init_rounds env gone resp now (Suc n) t) = PReady" by simp
    then show ?thesis ..
  qed
qed

definition demo_env :: target_env where
  "demo_env = \<lparr>te_externals = demo_externals, te_world_name = (\<lambda>_. ''w''), te_script_url = ''s'',
     te_collect_metrics = False, te_adblock_engine = (\<lambda>_. 0), te_frame_tree = (\<lambda>_. None),
     te_attach_session = (\<lambda>_. None)\<rparr>"

definition demo_info :: target_info where
  "demo_info = \<lparr>ti_target_id = ''T'', ti_type = ''page'', ti_browser_context_id = None, ti_opener_id = None\<rparr>"

definition demo_target :: target where
  "demo_target = set_session_id ''S'' (Target_new demo_env demo_info TargetConfig_default BrowserContext_default)"

lemmas demo_target_defs = demo_target_def Target_new_def demo_info_def set_session_id_def is_page_def type_is_page_def
  TargetType_new_def

lemma late_answer_closes_target_witness:
  "fst (Target_advance demo_env (\<lambda>_. False) 6 (\<lambda>_. 6) (demo_target\<lparr>tg_init :=
      InitializingNetwork \<lparr>cc_cmds = [], cc_waiting = Some (''Network.enable'', 5), cc_timeout = 5\<rparr>\<rparr>))
    = Some (TargetRequest \<lparr>rq_method = ''Target.closeTarget'', rq_session_id = Some ''S'',
        rq_params = JObject [(''targetId'', JString ''T'')]\<rparr>)"
proof -
  let ?t = "demo_target\<lparr>tg_init :=
      InitializingNetwork \<lparr>cc_cmds = [], cc_waiting = Some (''Network.enable'', 5), cc_timeout = 5\<rparr>\<rparr>"
  have "is_page ?t" "phase ?t \<noteq> PClosing" "overdue 6 ?t"
    by (simp_all add: demo_target_defs overdue_def awaiting_def)
  with late_answer_closes_target [of ?t demo_env "\<lambda>_. False" 6 "\<lambda>_. 6"] show ?thesis
    by (simp add: session_request_def command_pair_def demo_target_defs target_id_def)
qed

lemma page_becomes_ready_witness:
  "\<exists>n. phase (init_rounds demo_env (\<lambda>_. False) (\<lambda>_. \<lparr>rs_id = 1, rs_result = None, rs_error = None\<rparr>) id n demo_target) = PReady"
proof -
  have "at_rest demo_target" by (simp add: at_rest_def demo_target_defs)
  then show ?thesis by (rule page_becomes_ready)
qed

end
