(* ===== verification/Target_Waiters.thy ===== *)
theory Target_Waiters
  imports Target_Phases
begin

text \<open>
  The callers a target keeps waiting: every sender handed to it is answered once or still waits,
  answers come only when the main frame has reached the event, \<open>poll\<close> answers at most its budget per
  queue and wakes itself for the rest, and \<open>poll\<close> and \<open>advance\<close> agree when nothing exceeds the budget.
\<close>

section \<open>Accounts\<close>

definition holds :: "target \<Rightarrow> sender \<Rightarrow> nat" where
  "holds t tx = count_list (tg_wait_navigation t) tx + count_list (tg_wait_dom_content t) tx
     + count_list (tg_wait_load t) tx + count_list (tg_wait_idle t) tx + count_list (tg_wait_almost_idle t) tx"

definition replies :: "target \<Rightarrow> sender \<Rightarrow> nat" where
  "replies t tx = count_list (map fst (filter (\<lambda>(_, r). case r of ReplyPage _ \<Rightarrow> False | _ \<Rightarrow> True) (tg_sent t))) tx"

text \<open>The sender of a message that wants an answer.\<close>

fun message_sender :: "target_message \<Rightarrow> sender option" where
  "message_sender (MsgMainFrame tx) = Some tx"
| "message_sender (MsgAllFrames tx) = Some tx"
| "message_sender (MsgUrl _ tx) = Some tx"
| "message_sender (MsgName _ tx) = Some tx"
| "message_sender (MsgParent _ tx) = Some tx"
| "message_sender (MsgWaitForNavigation tx) = Some tx"
| "message_sender (MsgWaitForDomContentLoaded tx) = Some tx"
| "message_sender (MsgWaitForLoad tx) = Some tx"
| "message_sender (MsgWaitForNetworkIdle tx) = Some tx"
| "message_sender (MsgWaitForNetworkAlmostIdle tx) = Some tx"
| "message_sender (MsgGetExecutionContext _ _ tx) = Some tx"
| "message_sender _ = None"

definition asks :: "target_message \<Rightarrow> sender \<Rightarrow> nat" where
  "asks msg tx = (if message_sender msg = Some tx then 1 else 0)"

definition unread :: "target \<Rightarrow> sender \<Rightarrow> nat" where
  "unread t tx = (case tg_page t of None \<Rightarrow> 0 | Some p \<Rightarrow> sum_list (map (\<lambda>msg. asks msg tx) (ph_rx p)))"

text \<open>Everything the target owes or has given to \<open>tx\<close>.\<close>

definition account :: "target \<Rightarrow> sender \<Rightarrow> nat" where
  "account t tx = replies t tx + holds t tx + unread t tx"

lemma replies_send [simp]: "replies (tg_send tx r t) tx' =
    replies t tx' + (case r of ReplyPage _ \<Rightarrow> 0 | _ \<Rightarrow> if tx = tx' then 1 else 0)"
  by (cases r) (auto simp: replies_def)

lemma account_front: "same_front t t' \<Longrightarrow> account t' tx = account t tx"
  by (simp add: same_front_def account_def replies_def holds_def unread_def)

lemma handle_message_account:
  "replies (handle_message lid msg t) tx + holds (handle_message lid msg t) tx =
     replies t tx + holds t tx + asks msg tx"
  by (cases msg) (auto simp: holds_def asks_def replies_def Let_def split: option.split)

lemma handle_messages_account:
  "tg_init t \<noteq> Closing \<Longrightarrow> replies (handle_messages lid msgs t) tx + holds (handle_messages lid msgs t) tx =
     replies t tx + holds t tx + sum_list (map (\<lambda>msg. asks msg tx) msgs)"
  by (induction lid msgs t rule: handle_messages.induct)
    (simp_all add: handle_message_account handle_message_core add.assoc)

lemma receive_account: "tg_init t \<noteq> Closing \<Longrightarrow> account (receive_messages lid t) tx = account t tx"
proof (cases "tg_page t")
  case (Some p)
  assume "tg_init t \<noteq> Closing"
  moreover have "replies (t\<lparr>tg_page := q\<rparr>) tx = replies t tx" "holds (t\<lparr>tg_page := q\<rparr>) tx = holds t tx" for q
    by (simp_all add: replies_def holds_def)
  ultimately show ?thesis using Some handle_messages_account [of "t\<lparr>tg_page := Some (p\<lparr>ph_rx := []\<rparr>)\<rparr>" lid "ph_rx p" tx]
    by (simp add: receive_messages_def account_def unread_def handle_messages_core)
qed (simp add: receive_messages_def)

text \<open>Firing a queue moves senders from waiting to answered.\<close>

lemma pop_all_fst: "map fst (pop_all r q) = rev q"
  by (induction q) simp_all

lemma pop_all_reply: "p \<in> set (pop_all r q) \<Longrightarrow> snd p = r"
  by (induction q) auto

lemma drained_senders:
  "drain_waiters_bounded q req n = (s, q', b) \<Longrightarrow> map fst s @ rev q' = rev q \<and> (\<forall>p \<in> set s. snd p = ReplyRequest req)"
  by (auto simp: drain_waiters_bounded_def Let_def comp_def rev_take)

definition to_requests :: "(sender \<times> reply) list \<Rightarrow> bool" where
  "to_requests s \<longleftrightarrow> (\<forall>p \<in> set s. \<exists>req. snd p = ReplyRequest req)"

definition fired :: "(sender \<times> reply) list \<Rightarrow> sender list \<Rightarrow> sender list \<Rightarrow> bool" where
  "fired s q' q \<longleftrightarrow> to_requests s \<and> (\<forall>tx. count_list (map fst s) tx + count_list q' tx = count_list q tx)"

lemma fired_rev: "map fst s @ rev q' = rev q \<Longrightarrow> to_requests s \<Longrightarrow> fired s q' q"
  unfolding fired_def by (metis count_list_append count_list_rev)

lemma fired_bounded: "fired (fst (drain_waiters_bounded q req n)) (fst (snd (drain_waiters_bounded q req n))) q"
  using drained_senders [of q req n] by (intro fired_rev) (auto simp: to_requests_def prod_eq_iff)

lemma fired_pop: "fired (pop_all (ReplyRequest req) q) [] q"
  using pop_all_reply by (intro fired_rev) (auto simp: pop_all_fst to_requests_def)

lemma fired_none: "fired [] q q"
  by (simp add: fired_def to_requests_def)

lemma replies_requests: "to_requests s \<Longrightarrow>
    count_list (map fst (filter (\<lambda>(_, r). case r of ReplyPage _ \<Rightarrow> False | _ \<Rightarrow> True) s)) tx = count_list (map fst s) tx"
  by (induction s) (auto simp: to_requests_def)

text \<open>So does firing all of them.\<close>

lemma fire_queue_account:
  assumes "\<And>q. fired (fst (drain q)) (fst (snd (drain q))) q"
    and "(queue, update) \<in> {(tg_wait_dom_content, tg_wait_dom_content_update), (tg_wait_navigation, tg_wait_navigation_update),
      (tg_wait_load, tg_wait_load_update), (tg_wait_idle, tg_wait_idle_update), (tg_wait_almost_idle, tg_wait_almost_idle_update)}"
  shows "account (fire_queue drain b queue update t) tx = account t tx"
proof (cases b)
  case True
  define s where "s = fst (drain (queue t))"
  define q where "q = fst (snd (drain (queue t)))"
  have "to_requests s" "count_list (map fst s) tx + count_list q tx = count_list (queue t) tx"
    using assms(1) by (simp_all add: fired_def s_def q_def)
  moreover have "fire_queue drain b queue update t = update (\<lambda>_. q)
      (t\<lparr>tg_sent := tg_sent t @ s, tg_woken := tg_woken t \<or> snd (snd (drain (queue t)))\<rparr>)"
    using True by (simp add: fire_queue_def s_def q_def case_prod_beta)
  ultimately show ?thesis using assms(2)
    by (auto simp: account_def holds_def unread_def replies_def replies_requests)
qed (simp add: fire_queue_def)

lemma fire_queues_account:
  assumes "\<And>q. fired (fst (drain q)) (fst (snd (drain q))) q"
  shows "account (fire_queues drain f t) tx = account t tx"
  by (simp add: fire_queues_def fire_queue_account [OF assms])

lemma fire_bounded_account: "account (fire_waiters_bounded n f t) tx = account t tx"
  unfolding fire_waiters_bounded_def by (rule fire_queues_account) (rule fired_bounded)

lemma fire_all_account: "account (fire_waiters f t) tx = account t tx"
  unfolding fire_waiters_def by (rule fire_queues_account) (simp add: fired_pop)

lemma fire_main_account:
  "account (fire_main fire_waiters t) tx = account t tx"
  "account (fire_main (fire_waiters_bounded n) t) tx = account t tx"
  by (simp_all add: fire_main_def fire_all_account fire_bounded_account split: option.split)

lemma account_queued [simp]: "account (t\<lparr>tg_queued := evs\<rparr>) tx = account t tx"
  by (simp add: account_def replies_def holds_def unread_def)

lemma two_passes_account:
  assumes "\<And>t. account (fire t) tx = account t tx" "\<And>t. tg_init (fire t) = tg_init t"
    and "\<And>t. tg_init t \<noteq> Closing \<Longrightarrow> account (work t) tx = account t tx"
  shows "account (snd (two_passes fire work t)) tx = account t tx"
  by (simp add: two_passes_def assms Let_def split: list.split)

lemma drained_account: "account (drained now clock t) tx = account t tx"
  by (rule account_front [OF drained_front])

lemma loops_account:
  "account (snd (poll_loop lid now clock t)) tx = account t tx"
  "account (snd (advance_loop now clock t)) tx = account t tx"
  unfolding poll_loop_passes advance_loop_passes
  by (rule two_passes_account; simp add: fire_main_account drained_account receive_account)+

lemma count_filter_alive: "\<not> gone tx \<Longrightarrow> count_list (filter (\<lambda>tx. \<not> gone tx) xs) tx = count_list xs tx"
  by (induction xs) auto

lemma prune_account: "\<not> gone tx \<Longrightarrow> account (prune_waiters gone t) tx = account t tx"
  by (simp add: prune_waiters_def account_def replies_def holds_def unread_def count_filter_alive)

lemma failed_account: "account (snd (on_initialization_failed t)) tx = account t tx"
  by (simp add: on_initialization_failed_def account_def replies_def holds_def unread_def Let_def tg_send_def split: option.split)

lemma deliver_account: "account (deliver_page t) tx = account t tx"
  by (simp add: deliver_page_def get_or_create_page_def Target_create_page_def PageHandle_with_capacity_def account_def
      replies_def holds_def unread_def Let_def tg_send_def split: option.split)

lemma account_frames_init [simp]:
  "account (t\<lparr>tg_init := i\<rparr>) tx = account t tx"
  "account (t\<lparr>tg_frames := fm, tg_init := i\<rparr>) tx = account t tx"
  "account (t\<lparr>tg_frames := fm\<rparr>) tx = account t tx"
  "account (t\<lparr>tg_emulation := em\<rparr>) tx = account t tx"
  by (simp_all add: account_def replies_def holds_def unread_def)

lemma advance_state_account:
  assumes "\<And>t. account (next t) tx = account t tx"
  shows "account (snd (advance_state now mk c next t)) tx = account t tx"
  by (simp add: advance_state_def assms failed_account Let_def case_prod_beta split: poll.split option.split sum.split)

lemma init_step_account: "account (snd (target_init_step env now t)) tx = account t tx"
proof -
  have "account (after_frame_commands env t) tx = account t tx" for t
    by (simp add: after_frame_commands_def enter_network_def Let_def case_prod_beta split: option.split)
  moreover have "account (enter_emulation t) tx = account t tx" for t
    by (simp add: enter_emulation_def case_prod_beta split: option.split)
  ultimately show ?thesis
    by (simp add: target_init_step_def advance_state_account deliver_account enter_page_def Let_def split: target_init.split)
qed

text \<open>What one pass through the \<open>match\<close> keeps, its restarts keep.\<close>

lemma run_init_keeps:
  assumes "\<And>t. get (snd (target_init_step env now t)) = get t"
  shows "get (snd (run_init env now t)) = get t"
  using assms
proof (induction env now t rule: run_init.induct)
  case (1 env now t)
  obtain o1 t1 where step: "target_init_step env now t = (o1, t1)" by fastforce
  then have "get t1 = get t" using 1(2) [of t] by simp
  with 1(1) [OF step [symmetric]] 1(2) show ?case
    by (subst run_init.simps) (simp add: step split: init_outcome.split)
qed

lemma run_init_account: "account (snd (run_init env now t)) tx = account t tx"
  by (rule run_init_keeps [where get = "\<lambda>t. account t tx"]) (rule init_step_account)

section \<open>The accounts of a run\<close>

text \<open>How often an input hands in the sender \<open>tx\<close>: a message to a closing target is dropped, and a
  target without a page has no channel.\<close>

fun handed :: "target \<Rightarrow> tg_input \<Rightarrow> sender \<Rightarrow> nat" where
  "handed t (TgMessage msg _) tx = (if tg_init t = Closing then 0 else asks msg tx)"
| "handed t (TgPageSends msg) tx = (if tg_page t = None then 0 else asks msg tx)"
| "handed t _ tx = 0"

fun handed_in :: "target_env \<Rightarrow> target \<Rightarrow> tg_input list \<Rightarrow> sender \<Rightarrow> nat" where
  "handed_in env t [] tx = 0"
| "handed_in env t (i # is) tx = handed t i tx + handed_in env (tg_step env t i) is tx"

text \<open>The receiver behind \<open>tx\<close> is still there whenever the target looks.\<close>

fun listening :: "sender \<Rightarrow> tg_input \<Rightarrow> bool" where
  "listening tx (TgPoll gone _ _ _) = (\<not> gone tx)"
| "listening tx (TgAdvance gone _ _) = (\<not> gone tx)"
| "listening tx _ = True"

lemma step_account:
  assumes "listening tx i"
  shows "account (tg_step env t i) tx = account t tx + handed t i tx"
proof (cases i)
  case (TgEvent ev clock)
  then show ?thesis by (simp add: account_front [OF on_event_front])
next
  case (TgResponse resp meth)
  then show ?thesis
    by (simp add: Target_on_response_def account_def replies_def holds_def unread_def Let_def split: option.split)
next
  case (TgMessage msg lid)
  then show ?thesis using handle_message_account [of lid msg t tx]
    by (simp add: on_page_message_def account_def unread_def handle_message_core)
next
  case (TgPoll gone lid now clock)
  with assms run_init_account [of env now t tx] show ?thesis
    by (simp add: Target_poll_def loops_account prune_account case_prod_beta split: option.split)
next
  case (TgAdvance gone now clock)
  with assms run_init_account [of env now t tx] show ?thesis
    by (simp add: Target_advance_def loops_account prune_account case_prod_beta split: option.split)
qed (simp_all add: account_def replies_def holds_def unread_def page_sends_def set_session_id_def set_initiator_def
    get_or_create_page_def Target_create_page_def PageHandle_with_capacity_def Let_def split: option.split)

lemma run_account: "list_all (listening tx) es \<Longrightarrow>
    account (run (tg_step env) t es) tx = account t tx + handed_in env t es tx"
  by (induction es arbitrary: t) (simp_all add: step_account)

section \<open>Properties\<close>

text \<open>C39 (callers are answered once). In every run of a new target, the answers sent to a caller that
  keeps listening, the places it still waits in and its unread messages add up to the number of times
  it handed its sender in: nobody is answered twice, and nobody is forgotten.\<close>

theorem callers_answered_once:
  assumes "list_all (listening tx) es"
  shows "let t = run (tg_step env) (Target_new env info config ctx) es
    in replies t tx + holds t tx + unread t tx = handed_in env (Target_new env info config ctx) es tx"
  using run_account [OF assms, of env "Target_new env info config ctx"]
  by (simp add: account_def Let_def) (simp add: Target_new_def replies_def holds_def unread_def)

definition demo_callers :: "tg_input list" where
  "demo_callers = [TgMessage (MsgMainFrame 1) 0, TgMessage (MsgWaitForLoad 2) 0, TgAdvance (\<lambda>_. False) 0 (\<lambda>_. 0)]"

lemma callers_answered_once_witness:
  "(let t = run (tg_step demo_env) (Target_new demo_env demo_info TargetConfig_default BrowserContext_default) demo_callers
    in replies t 1 + holds t 1 + unread t 1) = 1"
proof -
  have "list_all (listening 1) demo_callers" by (simp add: demo_callers_def)
  from callers_answered_once [OF this, of demo_env demo_info TargetConfig_default BrowserContext_default]
  show ?thesis by (simp add: demo_callers_def Let_def Target_new_def asks_def)
qed

text \<open>Waiting queues within the budget.\<close>

definition within_budget :: "target \<Rightarrow> bool" where
  "within_budget t \<longleftrightarrow> list_all (\<lambda>q. length q \<le> WAITER_DRAIN_BUDGET)
     [tg_wait_navigation t, tg_wait_dom_content t, tg_wait_load t, tg_wait_idle t, tg_wait_almost_idle t]"

definition channel_empty :: "target \<Rightarrow> bool" where
  "channel_empty t \<longleftrightarrow> (case tg_page t of None \<Rightarrow> True | Some p \<Rightarrow> ph_rx p = [])"

lemma pop_all_map: "pop_all r q = map (\<lambda>tx. (tx, r)) (rev q)"
  by (induction q) simp_all

lemma drain_within: "length q \<le> n \<Longrightarrow> drain_waiters_bounded q req n = (pop_all (ReplyRequest req) q, [], False)"
  by (simp add: drain_waiters_bounded_def pop_all_map)

lemma fire_queues_agree:
  assumes agree: "\<And>q. length q \<le> WAITER_DRAIN_BUDGET \<Longrightarrow> drain q = drain' q" and "within_budget t"
  shows "fire_queues drain f t = fire_queues drain' f t"
proof -
  have q: "drain (tg_wait_dom_content t) = drain' (tg_wait_dom_content t)"
    "drain (tg_wait_navigation t) = drain' (tg_wait_navigation t)" "drain (tg_wait_load t) = drain' (tg_wait_load t)"
    "drain (tg_wait_idle t) = drain' (tg_wait_idle t)" "drain (tg_wait_almost_idle t) = drain' (tg_wait_almost_idle t)"
    using assms by (simp_all add: within_budget_def)
  have swap: "fire_queue drain b queue update t' = fire_queue drain' b queue update t'"
    if "drain (queue t') = drain' (queue t')" for b queue update t'
    using that by (simp add: fire_queue_def)
  show ?thesis unfolding fire_queues_def Let_def by (simp add: swap fire_queue_keeps q)
qed

lemma fire_within: "within_budget t \<Longrightarrow> fire_waiters_bounded WAITER_DRAIN_BUDGET f t = fire_waiters f t"
  unfolding fire_waiters_bounded_def fire_waiters_def by (rule fire_queues_agree [OF drain_within])

lemma fire_main_within: "within_budget t \<Longrightarrow>
    fire_main (fire_waiters_bounded WAITER_DRAIN_BUDGET) t = fire_main fire_waiters t"
  by (simp add: fire_main_def fire_within split: option.split)

lemma within_budget_front: "same_front t t' \<Longrightarrow> within_budget t' = within_budget t"
  by (simp add: same_front_def within_budget_def)

lemma fire_queue_own:
  assumes "\<And>h t. queue (update h t) = h (queue t)"
    and "\<And>v t. queue (t\<lparr>tg_sent := v\<rparr>) = queue t" "\<And>v t. queue (t\<lparr>tg_woken := v\<rparr>) = queue t"
  shows "queue (fire_queue drain b queue update t) = (if b then fst (snd (drain (queue t))) else queue t)"
  by (simp add: fire_queue_def assms case_prod_beta)

lemma fire_waiters_queues [simp]:
  "tg_wait_dom_content (fire_waiters f t) = (if is_dom_content_loaded f then [] else tg_wait_dom_content t)"
  "tg_wait_navigation (fire_waiters f t) = (if is_dom_content_loaded f then [] else tg_wait_navigation t)"
  "tg_wait_load (fire_waiters f t) = (if is_loaded f then [] else tg_wait_load t)"
  "tg_wait_idle (fire_waiters f t) = (if is_network_idle f then [] else tg_wait_idle t)"
  "tg_wait_almost_idle (fire_waiters f t) = (if is_network_almost_idle f then [] else tg_wait_almost_idle t)"
  by (simp_all add: fire_waiters_def fire_queues_def fire_queue_keeps fire_queue_own)

lemma within_budget_fire: "within_budget t \<Longrightarrow> within_budget (fire_main fire_waiters t)"
  by (simp add: within_budget_def fire_main_def split: option.split)

lemma receive_nothing: "channel_empty t \<Longrightarrow> receive_messages lid t = t"
  by (auto simp: channel_empty_def receive_messages_def split: option.splits)

lemma loops_agree:
  assumes "within_budget t" "channel_empty t"
  shows "poll_loop lid now clock t = advance_loop now clock t"
proof -
  let ?t1 = "fire_main fire_waiters t"
  have rx: "receive_messages lid ?t1 = ?t1" using assms(2) by (intro receive_nothing) (simp add: channel_empty_def)
  have wb: "within_budget (drained now clock ?t1)"
    using within_budget_front [OF drained_front] within_budget_fire [OF assms(1)] by simp
  show ?thesis unfolding poll_loop_passes advance_loop_passes
    by (simp add: two_passes_def fire_main_within assms(1) rx fire_main_within [OF wb] Let_def split: list.split)
qed

lemma within_budget_prune: "within_budget t \<Longrightarrow> within_budget (prune_waiters gone t)"
  unfolding within_budget_def prune_waiters_def by (auto intro: order_trans [OF length_filter_le])

lemma deliver_front:
  "within_budget (deliver_page t) = within_budget t \<and> (channel_empty t \<longrightarrow> channel_empty (deliver_page t))"
  by (auto simp: deliver_page_def get_or_create_page_def Target_create_page_def PageHandle_with_capacity_def
      within_budget_def channel_empty_def Let_def split: option.split prod.split)

text \<open>Only the ready state goes on to the loops.\<close>

lemma advance_state_not_proceed: "fst (advance_state now mk c next t) \<noteq> Proceed"
  by (auto simp: advance_state_def Let_def split: prod.split poll.split option.split sum.split)

lemma step_proceeds: "target_init_step env now t = (Proceed, t') \<Longrightarrow> tg_init t = Initialized \<and> t' = deliver_page t"
proof -
  assume step: "target_init_step env now t = (Proceed, t')"
  show ?thesis
  proof (cases "tg_init t")
    case (InitializingFrame c)
    with step advance_state_not_proceed [of now InitializingFrame c "after_frame_commands env" t] show ?thesis
      by (simp add: target_init_step_def split: if_splits)
  next
    case (InitializingNetwork c)
    with step advance_state_not_proceed [of now InitializingNetwork c "enter_page env" t] show ?thesis
      by (simp add: target_init_step_def)
  next
    case (InitializingPage c)
    with step advance_state_not_proceed [of now InitializingPage c enter_emulation t] show ?thesis
      by (simp add: target_init_step_def)
  next
    case (InitializingEmulation c)
    with step advance_state_not_proceed [of now InitializingEmulation c "\<lambda>t. t\<lparr>tg_init := Initialized\<rparr>" t] show ?thesis
      by (simp add: target_init_step_def)
  qed (use step in \<open>simp_all add: target_init_step_def Let_def\<close>)
qed

definition waiting_queues :: "target \<Rightarrow> sender list list" where
  "waiting_queues t = [tg_wait_navigation t, tg_wait_dom_content t, tg_wait_load t, tg_wait_idle t, tg_wait_almost_idle t]"

lemma advance_state_keeps:
  assumes "\<And>t. get (next t) = get t" "\<And>i t. get (t\<lparr>tg_init := i\<rparr>) = get t" "\<And>t. get (snd (on_initialization_failed t)) = get t"
  shows "get (snd (advance_state now mk c next t)) = get t"
  by (simp add: advance_state_def assms Let_def case_prod_beta split: poll.split option.split sum.split)

lemma init_step_callers:
  "waiting_queues (snd (target_init_step env now t)) = waiting_queues t"
  "channel_empty (snd (target_init_step env now t)) = channel_empty t"
proof -
  have failed: "waiting_queues (snd (on_initialization_failed t)) = waiting_queues t"
    "channel_empty (snd (on_initialization_failed t)) = channel_empty t" for t
    by (simp_all add: on_initialization_failed_def waiting_queues_def channel_empty_def Let_def split: option.split)
  have init: "waiting_queues (t\<lparr>tg_init := i\<rparr>) = waiting_queues t" "channel_empty (t\<lparr>tg_init := i\<rparr>) = channel_empty t" for t i
    by (simp_all add: waiting_queues_def channel_empty_def)
  have after: "waiting_queues (after_frame_commands env t) = waiting_queues t"
    "channel_empty (after_frame_commands env t) = channel_empty t" for t
    by (simp_all add: after_frame_commands_def enter_network_def waiting_queues_def channel_empty_def Let_def case_prod_beta
        split: option.split)
  have emulation: "waiting_queues (enter_emulation t) = waiting_queues t" "channel_empty (enter_emulation t) = channel_empty t" for t
    by (simp_all add: enter_emulation_def waiting_queues_def channel_empty_def case_prod_beta split: option.split)
  have page: "waiting_queues (enter_page env t) = waiting_queues t" "channel_empty (enter_page env t) = channel_empty t" for t
    by (simp_all add: enter_page_def waiting_queues_def channel_empty_def)
  have deliver: "waiting_queues (deliver_page t) = waiting_queues t" "channel_empty (deliver_page t) = channel_empty t" for t
    by (simp_all add: deliver_page_def get_or_create_page_def Target_create_page_def PageHandle_with_capacity_def
        waiting_queues_def channel_empty_def Let_def split: option.split)
  note keep = advance_state_keeps [where get = waiting_queues, OF _ init(1) failed(1)]
    advance_state_keeps [where get = channel_empty, OF _ init(2) failed(2)]
  show "waiting_queues (snd (target_init_step env now t)) = waiting_queues t"
    "channel_empty (snd (target_init_step env now t)) = channel_empty t"
    by (simp_all add: target_init_step_def keep after emulation page deliver init Let_def split: target_init.split)
qed

lemma run_init_callers:
  "waiting_queues (snd (run_init env now t)) = waiting_queues t"
  "channel_empty (snd (run_init env now t)) = channel_empty t"
  by (rule run_init_keeps, rule init_step_callers)+

text \<open>C40 (the two drivers agree). When no page message is pending and no queue of waiting callers
  exceeds the budget, \<open>poll\<close> (for the handler as a stream) and \<open>advance\<close> (for \<open>run\<close>) do the same.\<close>

theorem poll_agrees_with_advance:
  assumes "within_budget t" "channel_empty t"
  shows "Target_poll env gone lid now clock t = Target_advance env gone now clock t"
proof -
  have "within_budget (snd (run_init env now t))" "channel_empty (snd (run_init env now t))"
    using assms run_init_callers [of env now t] by (simp_all add: within_budget_def waiting_queues_def)
  then have "within_budget (prune_waiters gone (snd (run_init env now t)))" "channel_empty (prune_waiters gone (snd (run_init env now t)))"
    by (simp_all add: within_budget_prune) (simp add: channel_empty_def prune_waiters_def)
  from loops_agree [OF this] show ?thesis
    by (simp add: Target_poll_def Target_advance_def case_prod_beta split: option.split)
qed

lemma poll_agrees_with_advance_witness:
  "Target_poll demo_env (\<lambda>_. False) (\<lambda>_. 0) 0 (\<lambda>_. 0) (demo_target\<lparr>tg_init := Initialized, tg_wait_load := [1, 2]\<rparr>)
    = Target_advance demo_env (\<lambda>_. False) 0 (\<lambda>_. 0) (demo_target\<lparr>tg_init := Initialized, tg_wait_load := [1, 2]\<rparr>)"
  by (rule poll_agrees_with_advance)
    (simp_all add: within_budget_def channel_empty_def demo_target_defs WAITER_DRAIN_BUDGET_def)

section \<open>Progress under the budget\<close>

definition main_loaded :: "target \<Rightarrow> bool" where
  "main_loaded t \<longleftrightarrow> (case FrameManager_main_frame (tg_frames t) of None \<Rightarrow> False | Some f \<Rightarrow> is_loaded f)"

lemma main_loaded_frames: "tg_frames t' = tg_frames t \<Longrightarrow> main_loaded t' = main_loaded t"
  by (simp add: main_loaded_def)

lemma finished_loaded: "main_loaded t \<Longrightarrow> main_loaded (map_frames (on_http_request_finished r) t)"
  by (cases "fm_main_frame (tg_frames t)")
    (auto simp: main_loaded_def on_http_request_finished_def FrameManager_main_frame_def set_request_def is_loaded_def
      split: option.splits)

lemma main_loaded_fire [simp]: "main_loaded (fire_main (fire_waiters_bounded n) t) = main_loaded t"
  by (rule main_loaded_frames) simp

lemma main_loaded_receive [simp]: "main_loaded (receive_messages lid t) = main_loaded t"
  by (rule main_loaded_frames) simp

lemma main_loaded_message: "main_loaded (handle_message lid msg t) = main_loaded t"
  by (rule main_loaded_frames) (rule handle_message_core)

lemma network_event_loaded: "main_loaded t \<Longrightarrow> main_loaded (on_network_event ev t)"
  by (cases ev) (simp_all add: finished_loaded, simp_all add: main_loaded_def)

lemma frame_poll_loaded: "FrameManager_poll now c m = (r, m') \<Longrightarrow>
    FrameManager_main_frame m' = FrameManager_main_frame m"
  by (auto simp: FrameManager_poll_def FrameManager_main_frame_def Let_def split: option.splits prod.splits if_splits list.splits)

lemma drained_loaded: "main_loaded t \<Longrightarrow> main_loaded (drained now clock t)"
proof -
  have "main_loaded t \<longrightarrow> main_loaded (drain_network t)" for t
  proof (rule drain_network_rule [where R = "\<lambda>t t'. main_loaded t \<longrightarrow> main_loaded t'"])
    show "main_loaded t \<longrightarrow> main_loaded (t\<lparr>tg_network := m\<rparr>)" for t m by (simp add: main_loaded_def)
  qed (auto intro: network_event_loaded)
  moreover have "main_loaded t \<longrightarrow> main_loaded (drain_frames now clock t)" for t
  proof (rule drain_frames_rule [where R = "\<lambda>t t'. main_loaded t \<longrightarrow> main_loaded t'"])
    show "main_loaded t \<longrightarrow> main_loaded (t\<lparr>tg_frames := m\<rparr>)"
      if "FrameManager_poll now c (tg_frames t) = (r, m)" for t c r m
      using frame_poll_loaded [OF that] by (simp add: main_loaded_def)
    show "main_loaded t \<longrightarrow> main_loaded (on_frame_event ev t)" for ev t
      by (cases ev) (simp_all add: main_loaded_def)
  qed auto
  moreover assume "main_loaded t"
  ultimately show ?thesis by (simp add: drained_def)
qed

text \<open>On a loaded page nobody queues up for \<open>load\<close>.\<close>

lemma handle_message_load: "main_loaded t \<Longrightarrow> tg_wait_load (handle_message lid msg t) = tg_wait_load t"
  by (cases msg) (auto simp: main_loaded_def reached_def Let_def split: option.splits)

lemma handle_messages_load: "main_loaded t \<Longrightarrow> tg_wait_load (handle_messages lid msgs t) = tg_wait_load t"
  by (induction lid msgs t rule: handle_messages.induct)
    (auto simp: handle_message_load main_loaded_message)

lemma receive_load: "main_loaded t \<Longrightarrow> tg_wait_load (receive_messages lid t) = tg_wait_load t"
  by (auto simp: receive_messages_def handle_messages_load main_loaded_def split: option.splits)

lemma fire_load: "main_loaded t \<Longrightarrow> length (tg_wait_load (fire_main (fire_waiters_bounded n) t)) = length (tg_wait_load t) - n"
proof -
  assume "main_loaded t"
  then obtain f where f: "FrameManager_main_frame (tg_frames t) = Some f" "is_loaded f"
    by (auto simp: main_loaded_def split: option.splits)
  have "length (fst (snd (drain_waiters_bounded q req n))) = length q - n" for q req
    by (simp add: drain_waiters_bounded_def Let_def)
  then show ?thesis
    by (simp add: fire_main_def f fire_waiters_bounded_def fire_queues_def fire_queue_keeps fire_queue_own)
qed

lemma poll_loop_load:
  assumes "main_loaded t" "tg_init t \<noteq> Closing"
  shows "length (tg_wait_load (snd (poll_loop lid now clock t))) \<le> length (tg_wait_load t) - WAITER_DRAIN_BUDGET
    \<and> main_loaded (snd (poll_loop lid now clock t))"
proof -
  let ?fire = "fire_main (fire_waiters_bounded WAITER_DRAIN_BUDGET)"
  let ?t2 = "drained now clock (receive_messages lid (?fire t))"
  have l1: "main_loaded (?fire t)" using assms(1) by simp
  then have l2: "main_loaded ?t2" by (intro drained_loaded) simp
  have w1: "length (tg_wait_load (?fire t)) = length (tg_wait_load t) - WAITER_DRAIN_BUDGET" by (rule fire_load [OF assms(1)])
  have w2: "tg_wait_load ?t2 = tg_wait_load (?fire t)"
    using drained_front [of "receive_messages lid (?fire t)" now clock] receive_load [OF l1] by (simp add: same_front_def)
  have w3: "length (tg_wait_load (?fire ?t2)) \<le> length (tg_wait_load ?t2)" by (simp add: fire_load [OF l2])
  have queued: "main_loaded (t\<lparr>tg_queued := evs\<rparr>) = main_loaded t" for t evs by (simp add: main_loaded_def)
  have l3: "main_loaded (?fire ?t2)" using l2 by simp
  show ?thesis unfolding poll_loop_passes
    using assms l2 w1 w2 w3 by (simp add: two_passes_def queued Let_def split: list.split)
qed

lemma ready_poll: "is_page t \<Longrightarrow> tg_init t = Initialized \<Longrightarrow>
    Target_poll env gone lid now clock t = poll_loop lid now clock (prune_waiters gone (deliver_page t))"
  by (simp add: Target_poll_def run_init.simps target_init_step_def)

lemma deliver_core: "tg_wait_load (deliver_page t) = tg_wait_load t" "tg_frames (deliver_page t) = tg_frames t"
    "is_page (deliver_page t) = is_page t"
  by (simp_all add: deliver_page_def get_or_create_page_def Target_create_page_def is_page_def Let_def split: option.split)

lemma ready_poll_load:
  assumes "is_page t" "tg_init t = Initialized" "main_loaded t"
  shows "length (tg_wait_load (snd (Target_poll env gone lid now clock t))) \<le> length (tg_wait_load t) - WAITER_DRAIN_BUDGET
    \<and> main_loaded (snd (Target_poll env gone lid now clock t))"
proof -
  let ?t = "prune_waiters gone (deliver_page t)"
  have "main_loaded ?t" using assms(3) by (simp add: main_loaded_def prune_waiters_def deliver_core)
  moreover have "tg_init ?t \<noteq> Closing" using assms(2) by simp
  moreover have "length (tg_wait_load ?t) \<le> length (tg_wait_load t)" by (simp add: prune_waiters_def deliver_core)
  ultimately show ?thesis using poll_loop_load [of ?t lid now clock] ready_poll [OF assms(1,2)]
    by (auto intro: order_trans [OF _ diff_le_mono])
qed

lemma ready_stays: "tg_init t = Initialized \<Longrightarrow> tg_init (snd (Target_poll env gone lid now clock t)) = Initialized"
  by (simp add: Target_poll_def run_init.simps target_init_step_def)

lemma run_init_info:
  "tg_type (snd (run_init env now t)) = tg_type t"
proof (rule run_init_keeps [where get = tg_type])
  show "tg_type (snd (target_init_step env now t)) = tg_type t" for t
    by (simp add: target_init_step_def advance_state_def on_initialization_failed_def after_frame_commands_def enter_network_def
        enter_page_def enter_emulation_def deliver_page_def get_or_create_page_def Target_create_page_def Let_def case_prod_beta
        split: target_init.split poll.split option.split sum.split)
qed

lemma poll_loop_type [simp]: "tg_type (snd (poll_loop lid now clock t)) = tg_type t"
  using drained_front [of "receive_messages lid (fire_main (fire_waiters_bounded WAITER_DRAIN_BUDGET) t)" now clock]
  unfolding poll_loop_passes by (simp add: two_passes_def same_front_def Let_def split: list.split)

lemma poll_is_page [simp]: "is_page (snd (Target_poll env gone lid now clock t)) = is_page t"
  using run_init_info [of env now t]
  by (auto simp: Target_poll_def is_page_def prune_waiters_def case_prod_beta split: option.split)

text \<open>No caller waits behind the budget. On an initialised page whose main frame has loaded, each
  \<open>poll\<close> answers up to 64 of the callers waiting for \<open>load\<close>, so after \<open>k\<close> polls at most
  \<open>n - 64 * k\<close> of \<open>n\<close> are left, whatever messages wait in the page's channel.\<close>

theorem polls_drain_waiters:
  assumes "is_page t" "tg_init t = Initialized" "main_loaded t"
    and "es = map (\<lambda>(gone, lid, now, clock). TgPoll gone lid now clock) polls"
  shows "length (tg_wait_load (run (tg_step env) t es)) \<le> length (tg_wait_load t) - WAITER_DRAIN_BUDGET * length polls"
  using assms
proof (induction polls arbitrary: t es)
  case (Cons p polls)
  obtain gone lid now clock where p: "p = (gone, lid, now, clock)" by (cases p)
  let ?t = "snd (Target_poll env gone lid now clock t)"
  have load: "length (tg_wait_load ?t) \<le> length (tg_wait_load t) - WAITER_DRAIN_BUDGET" "main_loaded ?t"
    using ready_poll_load [OF Cons.prems(1-3)] by simp_all
  have "length (tg_wait_load (run (tg_step env) ?t (map (\<lambda>(gone, lid, now, clock). TgPoll gone lid now clock) polls)))
      \<le> length (tg_wait_load ?t) - WAITER_DRAIN_BUDGET * length polls"
    using Cons.prems(1,2) load(2) by (intro Cons.IH [OF _ _ _ refl]) (simp_all add: ready_stays)
  with load(1) show ?case using Cons.prems(4) by (simp add: p)
qed simp

definition demo_loaded :: target where
  "demo_loaded = demo_target\<lparr>tg_init := Initialized, tg_wait_load := [1, 2],
     tg_frames := (FrameManager_new 5)\<lparr>fm_main_frame := Some ''M'',
       fm_frames := [(''M'', (Frame_new (\<lambda>_. ''w'') ''M'')\<lparr>fr_lifecycle_events := {''load''}\<rparr>)]\<rparr>\<rparr>"

lemma polls_drain_waiters_witness:
  "tg_wait_load (run (tg_step demo_env) demo_loaded [TgPoll (\<lambda>_. False) (\<lambda>_. 0) 0 (\<lambda>_. 0)]) = []"
proof -
  have "is_page demo_loaded" "tg_init demo_loaded = Initialized" "main_loaded demo_loaded"
    by (simp_all add: demo_loaded_def demo_target_defs main_loaded_def FrameManager_main_frame_def hm_get_def is_loaded_def)
  from polls_drain_waiters [OF this, of _ "[(\<lambda>_. False, \<lambda>_. 0, 0, \<lambda>_. 0)]" demo_env] show ?thesis
    by (simp add: demo_loaded_def WAITER_DRAIN_BUDGET_def)
qed

end
