(* ===== verification/Conn.thy ===== *)
theory Conn
  imports Cmd
begin

text \<open>
  The connection of \<open>src/conn.rs\<close>: connecting with retries, queueing and sending commands, reading
  frames by polling, and the reader and writer tasks it is split into. The socket is given by the
  frames it delivers and by what its sink answers; the decoder of a frame is a parameter.
\<close>

section \<open>Connecting\<close>

definition DEFAULT_CONNECTION_RETRIES :: u32 where
  "DEFAULT_CONNECTION_RETRIES = 4"

definition INITIAL_BACKOFF_MS :: u64 where
  "INITIAL_BACKOFF_MS = 50"

definition MAX_BACKOFF_MS :: u64 where
  "MAX_BACKOFF_MS = 2000"

fun should_retry :: "cdp_error \<Rightarrow> bool" where
  "should_retry (ErrIo ConnectionRefused) = False"
| "should_retry (ErrWs (WsHttp _)) = False"
| "should_retry (ErrWs (WsHttpFormat _)) = False"
| "should_retry _ = True"

definition saturating_pow64 :: "u64 \<Rightarrow> nat \<Rightarrow> u64" where
  "saturating_pow64 b n = of_nat (min (unat b ^ n) (2 ^ 64 - 1))"

text \<open>The product wraps, as in a build without overflow checks.\<close>

definition backoff_ms :: "nat \<Rightarrow> u64" where
  "backoff_ms attempt = min (INITIAL_BACKOFF_MS * saturating_pow64 3 attempt) MAX_BACKOFF_MS"

text \<open>The attempts from \<open>attempt\<close> on, \<open>left\<close> more after it: the socket or the last error, and the
  times slept. \<open>connect n\<close> is what the n-th attempt gives.\<close>

fun connect_loop :: "(nat \<Rightarrow> cdp_error + 's) \<Rightarrow> nat \<Rightarrow> nat \<Rightarrow> (cdp_error + 's) \<times> u64 list" where
  "connect_loop connect attempt left =
     (case connect attempt of
        Inr ws \<Rightarrow> (Inr ws, [])
      | Inl e \<Rightarrow>
          if \<not> should_retry e then (Inl e, [])
          else (case left of
              0 \<Rightarrow> (Inl e, [])
            | Suc n \<Rightarrow>
                let (r, slept) = connect_loop connect (Suc attempt) n
                in (r, backoff_ms attempt # slept)))"

declare connect_loop.simps [simp del]

section \<open>The connection\<close>

datatype ws_frame = TextFrame "u8 list" | BinaryFrame "u8 list" | CloseFrame | PingFrame | PongFrame | RawFrame

text \<open>\<open>cn_incoming\<close> are the frames and errors that have arrived and are not read, \<open>cn_ended\<close> says
  that nothing comes after them, \<open>cn_written\<close> is what the sink has taken, in order.\<close>

record connection =
  cn_pending :: "method_call list"
  cn_next_id :: u64
  cn_needs_flush :: bool
  cn_written :: "method_call list"
  cn_incoming :: "(ws_error + ws_frame) list"
  cn_ended :: bool

definition fresh_connection :: "(ws_error + ws_frame) list \<Rightarrow> bool \<Rightarrow> connection" where
  "fresh_connection incoming ended = \<lparr>cn_pending = [], cn_next_id = 0, cn_needs_flush = False, cn_written = [],
     cn_incoming = incoming, cn_ended = ended\<rparr>"

definition connect_with_retries :: "(nat \<Rightarrow> cdp_error + (ws_error + ws_frame) list \<times> bool) \<Rightarrow> u32
    \<Rightarrow> (cdp_error + connection) \<times> u64 list" where
  "connect_with_retries connect retries =
     (let (r, slept) = connect_loop connect 0 (unat retries)
      in (map_sum id (\<lambda>(incoming, ended). fresh_connection incoming ended) r, slept))"

definition next_call_id :: "connection \<Rightarrow> call_id \<times> connection" where
  "next_call_id c = (cn_next_id c, c\<lparr>cn_next_id := cn_next_id c + 1\<rparr>)"

definition submit_command :: "method_id \<Rightarrow> session_id option \<Rightarrow> json \<Rightarrow> connection \<Rightarrow> call_id \<times> connection" where
  "submit_command m s p c =
     (let (id1, c) = next_call_id c;
          call = \<lparr>mc_id = id1, mc_method = m, mc_session_id = s, mc_params = p\<rparr>
      in (id1, c\<lparr>cn_pending := cn_pending c @ [call]\<rparr>))"

section \<open>Sending\<close>

text \<open>What the sink answers during one poll: to the flush left over, to the n-th \<open>poll_ready\<close> and
  \<open>start_send\<close>, and to the flush of the batch.\<close>

datatype sink_answer = SinkReady | SinkPending | SinkFailed ws_error

record sink_reading =
  sk_flush :: sink_answer
  sk_ready :: "nat \<Rightarrow> sink_answer"
  sk_send :: "nat \<Rightarrow> ws_error option"
  sk_flush_batch :: sink_answer

text \<open>The error, what the sink took, what is still queued. A command whose sending fails is in neither.\<close>

fun buffer_commands :: "(nat \<Rightarrow> sink_answer) \<Rightarrow> (nat \<Rightarrow> ws_error option) \<Rightarrow> method_call list
    \<Rightarrow> ws_error option \<times> method_call list \<times> method_call list" where
  "buffer_commands ready send [] = (None, [], [])"
| "buffer_commands ready send (cmd # cmds) =
     (if ready 0 = SinkReady
      then (case send 0 of
          Some e \<Rightarrow> (Some e, [], cmds)
        | None \<Rightarrow>
            let (err, taken, rest) = buffer_commands (\<lambda>n. ready (Suc n)) (\<lambda>n. send (Suc n)) cmds
            in (err, cmd # taken, rest))
      else (None, [], cmd # cmds))"

definition send_batch :: "sink_reading \<Rightarrow> connection \<Rightarrow> cdp_error option \<times> connection" where
  "send_batch sk c =
     (let (err, taken, rest) = buffer_commands (sk_ready sk) (sk_send sk) (cn_pending c);
          c = c\<lparr>cn_pending := rest, cn_written := cn_written c @ taken\<rparr>
      in case err of
           Some e \<Rightarrow> (Some (ErrWs e), c)
         | None \<Rightarrow>
             if taken = [] then (None, c)
             else (case sk_flush_batch sk of
                 SinkReady \<Rightarrow> (None, c)
               | SinkFailed e \<Rightarrow> (Some (ErrWs e), c)
               | SinkPending \<Rightarrow> (None, c\<lparr>cn_needs_flush := True\<rparr>)))"

definition start_send_next :: "sink_reading \<Rightarrow> connection \<Rightarrow> cdp_error option \<times> connection" where
  "start_send_next sk c =
     (if cn_needs_flush c
      then (case sk_flush sk of
          SinkReady \<Rightarrow> send_batch sk (c\<lparr>cn_needs_flush := False\<rparr>)
        | SinkFailed e \<Rightarrow> (Some (ErrWs e), c)
        | SinkPending \<Rightarrow> (None, c))
      else send_batch sk c)"

section \<open>Decoding a frame\<close>

text \<open>Slicing a string inside a character panics. Bytes of the form \<open>10xxxxxx\<close> continue a character.\<close>

definition is_char_boundary :: "u8 list \<Rightarrow> nat \<Rightarrow> bool" where
  "is_char_boundary txt n \<longleftrightarrow> n = 0 \<or> n = length txt \<or> (n < length txt \<and> drop_bit 6 (txt ! n) \<noteq> 2)"

datatype 'm decoded = Decoded 'm | Malformed | DecodePanic

definition decode_message :: "(u8 list \<Rightarrow> 'm option) \<Rightarrow> u8 list \<Rightarrow> u8 list option \<Rightarrow> 'm decoded" where
  "decode_message decode bytes raw =
     (case decode bytes of
        Some m \<Rightarrow> Decoded m
      | None \<Rightarrow> (case raw of
            Some txt \<Rightarrow> if is_char_boundary txt (min (length txt) 512) then Malformed else DecodePanic
          | None \<Rightarrow> Malformed))"

section \<open>Polling the connection\<close>

definition MAX_SKIPS_PER_POLL :: nat where
  "MAX_SKIPS_PER_POLL = 16"

text \<open>\<open>ConnPanic\<close>: the task panics. The flag of \<open>ConnPending\<close> says that the task woke itself.\<close>

datatype 'm conn_poll = ConnItem "cdp_error + 'm" | ConnEnd | ConnPending bool | ConnPanic

fun next_item :: "(u8 list \<Rightarrow> 'm option) \<Rightarrow> bool \<Rightarrow> nat \<Rightarrow> (ws_error + ws_frame) list
    \<Rightarrow> 'm conn_poll \<times> (ws_error + ws_frame) list" where
  "next_item decode ended 0 fs = (ConnPending True, fs)"
| "next_item decode ended (Suc n) [] = (if ended then ConnEnd else ConnPending False, [])"
| "next_item decode ended (Suc n) (f # fs) =
     (case f of
        Inl e \<Rightarrow> (ConnItem (Inl (ErrWs e)), fs)
      | Inr (TextFrame bs) \<Rightarrow> (case decode_message decode bs (Some bs) of
            Decoded m \<Rightarrow> (ConnItem (Inr m), fs)
          | Malformed \<Rightarrow> next_item decode ended n fs
          | DecodePanic \<Rightarrow> (ConnPanic, fs))
      | Inr (BinaryFrame bs) \<Rightarrow> (case decode_message decode bs None of
            Decoded m \<Rightarrow> (ConnItem (Inr m), fs)
          | Malformed \<Rightarrow> next_item decode ended n fs
          | DecodePanic \<Rightarrow> (ConnPanic, fs))
      | Inr CloseFrame \<Rightarrow> (ConnEnd, fs)
      | Inr PingFrame \<Rightarrow> next_item decode ended n fs
      | Inr PongFrame \<Rightarrow> next_item decode ended n fs
      | Inr RawFrame \<Rightarrow> next_item decode ended n fs)"

definition Connection_poll_next :: "(u8 list \<Rightarrow> 'm option) \<Rightarrow> sink_reading \<Rightarrow> connection \<Rightarrow> 'm conn_poll \<times> connection" where
  "Connection_poll_next decode sk c =
     (case start_send_next sk c of
        (Some e, c) \<Rightarrow> (ConnItem (Inl e), c)
      | (None, c) \<Rightarrow>
          let (r, fs) = next_item decode (cn_ended c) MAX_SKIPS_PER_POLL (cn_incoming c)
          in (r, c\<lparr>cn_incoming := fs\<rparr>))"

section \<open>Splitting the connection\<close>

definition WS_CMD_CHANNEL_CAPACITY :: nat where
  "WS_CMD_CHANNEL_CAPACITY = 2048"

definition MAX_IN_FLIGHT_DECODES :: nat where
  "MAX_IN_FLIGHT_DECODES = 32"

definition LARGE_FRAME_THRESHOLD :: nat where
  "LARGE_FRAME_THRESHOLD = 256 * 1024"

text \<open>The sending half of the bounded channel to the writer task, with the counter of the call ids:
  what was put into the channel, the free places left and whether the writer has gone.\<close>

record ws_writer =
  wt_next_id :: u64
  wt_sent :: "method_call list"
  wt_free :: nat
  wt_closed :: bool

definition try_send :: "method_call \<Rightarrow> ws_writer \<Rightarrow> cdp_error option \<times> ws_writer" where
  "try_send call w =
     (if wt_closed w then (Some (CdpError_msg ''WS writer closed''), w)
      else if wt_free w = 0 then (Some (CdpError_msg ''WS command channel full''), w)
      else (None, w\<lparr>wt_sent := wt_sent w @ [call], wt_free := wt_free w - 1\<rparr>))"

text \<open>The commands queued before the split are replayed into the channel.\<close>

definition into_async :: "connection \<Rightarrow> ws_writer" where
  "into_async c = fold (\<lambda>call w. snd (try_send call w)) (cn_pending c)
     \<lparr>wt_next_id = cn_next_id c, wt_sent = [], wt_free = WS_CMD_CHANNEL_CAPACITY, wt_closed = False\<rparr>"

section \<open>The writer task\<close>

text \<open>\<open>feed n\<close> is what the sink says to the n-th command, \<open>flush n\<close> to the n-th flush. A batch is what is
  in the channel when the writer wakes; the result, the commands fed and the flushes made.\<close>

fun feed_batch :: "(nat \<Rightarrow> ws_error option) \<Rightarrow> method_call list \<Rightarrow> ws_error option \<times> method_call list" where
  "feed_batch feed [] = (None, [])"
| "feed_batch feed (call # calls) =
     (case feed 0 of
        Some e \<Rightarrow> (Some e, [])
      | None \<Rightarrow> let (err, fed) = feed_batch (\<lambda>n. feed (Suc n)) calls in (err, call # fed))"

fun ws_write_loop :: "(nat \<Rightarrow> nat \<Rightarrow> ws_error option) \<Rightarrow> (nat \<Rightarrow> ws_error option) \<Rightarrow> method_call list list
    \<Rightarrow> (cdp_error + unit) \<times> method_call list" where
  "ws_write_loop feed flush [] = (Inr (), [])"
| "ws_write_loop feed flush (batch # batches) =
     (case feed_batch (feed 0) batch of
        (Some e, fed) \<Rightarrow> (Inl (ErrWs e), fed)
      | (None, fed) \<Rightarrow>
          (case flush 0 of
             Some e \<Rightarrow> (Inl (ErrWs e), fed)
           | None \<Rightarrow>
               let (r, later) = ws_write_loop (\<lambda>n. feed (Suc n)) (\<lambda>n. flush (Suc n)) batches
               in (r, fed @ later)))"

section \<open>The reader task\<close>

text \<open>A decode in the pipeline: made inline, or running on the blocking pool; what it gives is
  \<open>None\<close> for a malformed frame.\<close>

datatype 'm in_flight = InlineDecode "'m option" | BlockingDecode "'m option"

datatype task_status = Running | Returned | Panicked

text \<open>\<open>rd_stream\<close> are the frames the socket will deliver before it ends, \<open>rd_tx\<close> what was sent to
  the handler, \<open>rd_open\<close> whether the handler still holds the receiver.\<close>

record 'm reader =
  rd_stream :: "(ws_error + ws_frame) list"
  rd_in_flight :: "'m in_flight list"
  rd_terminated :: bool
  rd_pending_err :: "cdp_error option"
  rd_tx :: "(cdp_error + 'm) list"
  rd_open :: bool
  rd_status :: task_status

definition start_reader :: "(ws_error + ws_frame) list \<Rightarrow> 'm reader" where
  "start_reader frames = \<lparr>rd_stream = frames, rd_in_flight = [], rd_terminated = False, rd_pending_err = None,
     rd_tx = [], rd_open = True, rd_status = Running\<rparr>"

text \<open>\<open>emit_decoded\<close>: whether the task goes on, and what was sent.\<close>

definition emit_decoded :: "'m option \<Rightarrow> 'm reader \<Rightarrow> bool \<times> 'm reader" where
  "emit_decoded res r =
     (case res of
        Some m \<Rightarrow> if rd_open r then (True, r\<lparr>rd_tx := rd_tx r @ [Inr m]\<rparr>) else (False, r)
      | None \<Rightarrow> (True, r))"

definition emit_head :: "'m option \<Rightarrow> 'm in_flight list \<Rightarrow> 'm reader \<Rightarrow> 'm reader" where
  "emit_head res rest r =
     (let (go_on, r) = emit_decoded res (r\<lparr>rd_in_flight := rest\<rparr>)
      in if go_on then r else r\<lparr>rd_status := Returned\<rparr>)"

definition enqueue_inline :: "'m decoded \<Rightarrow> 'm reader \<Rightarrow> 'm reader" where
  "enqueue_inline d r = (case d of
      Decoded m \<Rightarrow> r\<lparr>rd_in_flight := rd_in_flight r @ [InlineDecode (Some m)]\<rparr>
    | Malformed \<Rightarrow> r\<lparr>rd_in_flight := rd_in_flight r @ [InlineDecode None]\<rparr>
    | DecodePanic \<Rightarrow> r\<lparr>rd_status := Panicked\<rparr>)"

text \<open>The decode runs on another thread.\<close>

definition enqueue_blocking :: "'m decoded \<Rightarrow> 'm reader \<Rightarrow> 'm reader" where
  "enqueue_blocking d r = r\<lparr>rd_in_flight := rd_in_flight r @
     [BlockingDecode (case d of Decoded m \<Rightarrow> Some m | _ \<Rightarrow> None)]\<rparr>"

text \<open>What the loop does with what \<open>stream.next()\<close> gives.\<close>

fun read_frame :: "(u8 list \<Rightarrow> 'm option) \<Rightarrow> (ws_error + ws_frame) option \<Rightarrow> 'm reader \<Rightarrow> 'm reader" where
  "read_frame decode (Some (Inr (TextFrame bs))) r =
     (if LARGE_FRAME_THRESHOLD \<le> length bs then enqueue_blocking (decode_message decode bs None) r
      else enqueue_inline (decode_message decode bs (Some bs)) r)"
| "read_frame decode (Some (Inr (BinaryFrame bs))) r =
     (if LARGE_FRAME_THRESHOLD \<le> length bs then enqueue_blocking (decode_message decode bs None) r
      else enqueue_inline (decode_message decode bs None) r)"
| "read_frame decode (Some (Inr CloseFrame)) r = r\<lparr>rd_terminated := True\<rparr>"
| "read_frame decode (Some (Inr PingFrame)) r = r"
| "read_frame decode (Some (Inr PongFrame)) r = r"
| "read_frame decode (Some (Inr RawFrame)) r = r"
| "read_frame decode (Some (Inl e)) r = r\<lparr>rd_terminated := True, rd_pending_err := Some (ErrWs e)\<rparr>"
| "read_frame decode None r = r\<lparr>rd_terminated := True\<rparr>"

definition read_next :: "(u8 list \<Rightarrow> 'm option) \<Rightarrow> 'm reader \<Rightarrow> 'm reader" where
  "read_next decode r = (case rd_stream r of
      [] \<Rightarrow> read_frame decode None r
    | f # fs \<Rightarrow> read_frame decode (Some f) (r\<lparr>rd_stream := fs\<rparr>))"

definition finish_reader :: "'m reader \<Rightarrow> 'm reader" where
  "finish_reader r = (case rd_pending_err r of
      Some e \<Rightarrow> if rd_open r then r\<lparr>rd_tx := rd_tx r @ [Inl e], rd_status := Returned\<rparr> else r\<lparr>rd_status := Returned\<rparr>
    | None \<Rightarrow> r\<lparr>rd_status := Returned\<rparr>)"

fun inline_head :: "'m in_flight list \<Rightarrow> bool" where
  "inline_head (InlineDecode _ # _) = True"
| "inline_head _ = False"

text \<open>
  \<open>ws_read_loop\<close>: one turn of its \<open>select!\<close>, biased towards a head that is ready. A decode on the
  pool is ready at any time. The receiver may be dropped at any time.
\<close>

inductive read_step :: "(u8 list \<Rightarrow> 'm option) \<Rightarrow> 'm reader \<Rightarrow> 'm reader \<Rightarrow> bool" for decode where
  emit_inline: "rd_status r = Running \<Longrightarrow> rd_in_flight r = InlineDecode res # rest \<Longrightarrow>
      read_step decode r (emit_head res rest r)"
| emit_blocking: "rd_status r = Running \<Longrightarrow> rd_in_flight r = BlockingDecode res # rest \<Longrightarrow>
      read_step decode r (emit_head res rest r)"
| read_more: "rd_status r = Running \<Longrightarrow> \<not> rd_terminated r \<Longrightarrow> length (rd_in_flight r) < MAX_IN_FLIGHT_DECODES \<Longrightarrow>
      \<not> inline_head (rd_in_flight r) \<Longrightarrow> read_step decode r (read_next decode r)"
| finish: "rd_status r = Running \<Longrightarrow> rd_in_flight r = [] \<Longrightarrow> rd_terminated r \<Longrightarrow>
      read_step decode r (finish_reader r)"
| receiver_dropped: "rd_open r \<Longrightarrow> read_step decode r (r\<lparr>rd_open := False\<rparr>)"

code_pred read_step .

inductive_cases read_stepE: "read_step decode r r'"

end
