(* ===== verification/Conn_Props.thy ===== *)
theory Conn_Props
  imports Conn "HOL-Library.Sublist"
begin

text \<open>
  Properties of the connection: commands reach the socket in the order they were submitted, the
  pipelined reader delivers what a reader that decodes one frame at a time delivers, and connecting
  is tried a bounded number of times.
\<close>

section \<open>The pipelined reader against a serial one\<close>

text \<open>The serial reader: decode, forward, read on.\<close>

fun frame_message :: "(u8 list \<Rightarrow> 'm option) \<Rightarrow> ws_frame \<Rightarrow> 'm option" where
  "frame_message decode (TextFrame bs) = decode bs"
| "frame_message decode (BinaryFrame bs) = decode bs"
| "frame_message decode _ = None"

definition delivered :: "'m option \<Rightarrow> (cdp_error + 'm) list" where
  "delivered res = (case res of Some m \<Rightarrow> [Inr m] | None \<Rightarrow> [])"

fun serial_read :: "(u8 list \<Rightarrow> 'm option) \<Rightarrow> (ws_error + ws_frame) list \<Rightarrow> (cdp_error + 'm) list" where
  "serial_read decode [] = []"
| "serial_read decode (Inl e # fs) = [Inl (ErrWs e)]"
| "serial_read decode (Inr f # fs) =
     (if f = CloseFrame then [] else delivered (frame_message decode f) @ serial_read decode fs)"

text \<open>The frames whose logging preview, if they are malformed, does not end inside a character.\<close>

definition preview_ok :: "(u8 list \<Rightarrow> 'm option) \<Rightarrow> ws_error + ws_frame \<Rightarrow> bool" where
  "preview_ok decode f = (case f of
      Inr (TextFrame bs) \<Rightarrow> decode bs \<noteq> None \<or> LARGE_FRAME_THRESHOLD \<le> length bs
        \<or> is_char_boundary bs (min (length bs) 512)
    | _ \<Rightarrow> True)"

fun in_flight_result :: "'m in_flight \<Rightarrow> 'm option" where
  "in_flight_result (InlineDecode r) = r"
| "in_flight_result (BlockingDecode r) = r"

definition undelivered :: "(u8 list \<Rightarrow> 'm option) \<Rightarrow> 'm reader \<Rightarrow> (cdp_error + 'm) list" where
  "undelivered decode r = concat (map (delivered \<circ> in_flight_result) (rd_in_flight r)) @
     (if rd_terminated r then (case rd_pending_err r of Some e \<Rightarrow> [Inl e] | None \<Rightarrow> [])
      else serial_read decode (rd_stream r))"

definition reader_inv :: "(u8 list \<Rightarrow> 'm option) \<Rightarrow> (cdp_error + 'm) list \<Rightarrow> 'm reader \<Rightarrow> bool" where
  "reader_inv decode out r \<longleftrightarrow>
     list_all (preview_ok decode) (rd_stream r) \<and> length (rd_in_flight r) \<le> MAX_IN_FLIGHT_DECODES \<and>
     (\<not> rd_terminated r \<longrightarrow> rd_pending_err r = None) \<and>
     (case rd_status r of
        Running \<Rightarrow> out = rd_tx r @ undelivered decode r
      | Returned \<Rightarrow> (\<exists>lost. out = rd_tx r @ lost \<and> (rd_open r \<longrightarrow> lost = []))
      | Panicked \<Rightarrow> False)"

lemma emit_head_inv:
  assumes inv: "reader_inv decode out r" and run: "rd_status r = Running"
    and fl: "rd_in_flight r = d # rest" and d: "in_flight_result d = res"
  shows "reader_inv decode out (emit_head res rest r)"
proof -
  have "out = rd_tx r @ delivered res @ undelivered decode (r\<lparr>rd_in_flight := rest\<rparr>)"
    using inv run fl d by (simp add: reader_inv_def undelivered_def)
  then show ?thesis
    using inv run fl by (auto simp: reader_inv_def emit_head_def emit_decoded_def delivered_def undelivered_def
        split: option.splits)
qed

lemma enqueue_inv:
  assumes inv: "reader_inv decode out r" and run: "rd_status r = Running" and more: "\<not> rd_terminated r"
    and room: "length (rd_in_flight r) < MAX_IN_FLIGHT_DECODES"
    and out: "serial_read decode (rd_stream r) = delivered res @ serial_read decode fs"
    and ok: "list_all (preview_ok decode) fs" and d: "in_flight_result d = res"
  shows "reader_inv decode out (r\<lparr>rd_stream := fs, rd_in_flight := rd_in_flight r @ [d]\<rparr>)"
  using assms by (simp add: reader_inv_def undelivered_def)

lemma decode_cases:
  "decode_message decode bs raw = Decoded m \<longleftrightarrow> decode bs = Some m"
  "decode_message decode bs raw = Malformed \<Longrightarrow> decode bs = None"
  "decode_message decode bs None \<noteq> DecodePanic"
  by (auto simp: decode_message_def split: option.splits if_splits)

lemma read_text_inv:
  assumes inv: "reader_inv decode out r" and run: "rd_status r = Running" and more: "\<not> rd_terminated r"
    and room: "length (rd_in_flight r) < MAX_IN_FLIGHT_DECODES" and st: "rd_stream r = Inr f # fs"
    and f: "f = TextFrame bs \<or> f = BinaryFrame bs"
  shows "reader_inv decode out (read_next decode r)"
proof -
  have ok: "list_all (preview_ok decode) fs" "preview_ok decode (Inr f)"
    using inv st by (simp_all add: reader_inv_def)
  have out: "serial_read decode (rd_stream r) = delivered (decode bs) @ serial_read decode fs"
    using st f by auto
  note enq = enqueue_inv [OF inv run more room out ok(1)]
  have previewed: "decode_message decode bs (Some bs) \<noteq> DecodePanic"
    if "f = TextFrame bs" "\<not> LARGE_FRAME_THRESHOLD \<le> length bs"
    using ok(2) that by (auto simp: preview_ok_def decode_message_def split: option.split)
  have inline: "reader_inv decode out (enqueue_inline (decode_message decode bs raw) (r\<lparr>rd_stream := fs\<rparr>))"
    if "decode_message decode bs raw \<noteq> DecodePanic" for raw
    using that enq [of "InlineDecode (decode bs)"]
    by (auto simp: enqueue_inline_def decode_cases(1) dest: decode_cases(2) split: decoded.split)
  have blocking: "reader_inv decode out (enqueue_blocking (decode_message decode bs None) (r\<lparr>rd_stream := fs\<rparr>))"
    using enq [of "BlockingDecode (decode bs)"] decode_cases(3) [of decode bs]
    by (auto simp: enqueue_blocking_def decode_cases(1) dest: decode_cases(2) split: decoded.split)
  show ?thesis using f previewed inline blocking decode_cases(3) [of decode bs]
    by (auto simp: read_next_def st)
qed

lemma read_next_inv:
  assumes inv: "reader_inv decode out r" and run: "rd_status r = Running" and more: "\<not> rd_terminated r"
    and room: "length (rd_in_flight r) < MAX_IN_FLIGHT_DECODES"
  shows "reader_inv decode out (read_next decode r)"
proof (cases "rd_stream r")
  case Nil
  then show ?thesis using inv run more by (simp add: read_next_def reader_inv_def undelivered_def)
next
  case (Cons f fs)
  show ?thesis
  proof (cases f)
    case (Inl e)
    then show ?thesis using inv run more Cons by (simp add: read_next_def reader_inv_def undelivered_def)
  next
    case (Inr g)
    have st: "rd_stream r = Inr g # fs" using Cons Inr by simp
    have skip: "reader_inv decode out (r\<lparr>rd_stream := fs\<rparr>)"
      if "g \<noteq> CloseFrame" "frame_message decode g = None"
      using inv run more Cons Inr that by (simp add: reader_inv_def undelivered_def delivered_def)
    show ?thesis
    proof (cases g)
      case CloseFrame
      then show ?thesis using inv run more st by (simp add: read_next_def reader_inv_def undelivered_def)
    qed (use read_text_inv [OF inv run more room st] skip in \<open>auto simp: read_next_def st\<close>)
  qed
qed

lemma read_step_inv:
  assumes "read_step decode r r'" "reader_inv decode out r"
  shows "reader_inv decode out r'"
  using assms
proof (cases rule: read_step.cases)
  case (emit_inline res rest)
  then show ?thesis using emit_head_inv [OF assms(2)] by simp
next
  case (emit_blocking res rest)
  then show ?thesis using emit_head_inv [OF assms(2)] by simp
next
  case read_more
  then show ?thesis using read_next_inv [OF assms(2)] by simp
next
  case finish
  then show ?thesis using assms(2)
    by (auto simp: reader_inv_def undelivered_def finish_reader_def split: option.split)
next
  case receiver_dropped
  then show ?thesis using assms(2)
    by (auto simp: reader_inv_def undelivered_def split: task_status.splits)
qed

lemma reader_reachable_inv:
  assumes "(read_step decode)\<^sup>*\<^sup>* (start_reader frames) r" "list_all (preview_ok decode) frames"
  shows "reader_inv decode (serial_read decode frames) r"
  using assms(1)
proof (induction rule: rtranclp_induct)
  case base
  then show ?case using assms(2) by (simp add: reader_inv_def start_reader_def undelivered_def)
qed (rule read_step_inv)

text \<open>C18 (the pipelined reader is a serial reader). Whatever the frames, the timing of the decodes on the
  pool and the moment the handler goes away: what the reader task has sent to the handler is a
  prefix of what a reader that decodes one frame after the other sends, at most 32 decodes are in
  flight, and when it returns with the handler still there it has sent all of it, the transport
  error last. The frames are such that no logging preview of a malformed one ends inside a character.\<close>

theorem reader_matches_serial:
  assumes "(read_step decode)\<^sup>*\<^sup>* (start_reader frames) r"
    and "list_all (preview_ok decode) frames"
  shows "prefix (rd_tx r) (serial_read decode frames) \<and> length (rd_in_flight r) \<le> MAX_IN_FLIGHT_DECODES \<and>
    rd_status r \<noteq> Panicked \<and>
    (rd_status r = Returned \<and> rd_open r \<longrightarrow> rd_tx r = serial_read decode frames)"
  using reader_reachable_inv [OF assms]
  by (auto simp: reader_inv_def prefix_def split: task_status.splits)

definition demo_decode :: "u8 list \<Rightarrow> nat option" where
  "demo_decode bs = (if bs = [] then None else Some (length bs))"

lemma reader_matches_serial_witness:
  "\<exists>r. (read_step demo_decode)\<^sup>*\<^sup>* (start_reader [Inr (BinaryFrame [1, 2]), Inr PingFrame, Inl AlreadyClosed]) r \<and>
     rd_status r = Returned \<and> rd_open r \<and> rd_tx r = [Inr 2, Inl (ErrWs AlreadyClosed)] \<and>
     rd_tx r = serial_read demo_decode [Inr (BinaryFrame [1, 2]), Inr PingFrame, Inl AlreadyClosed]"
proof -
  let ?fs = "[Inr (BinaryFrame [1, 2]), Inr PingFrame, Inl AlreadyClosed]"
  let ?r = "start_reader ?fs :: nat reader"
  let ?r1 = "read_next demo_decode ?r"
  let ?r2 = "emit_head (Some 2) [] ?r1"
  let ?r3 = "read_next demo_decode ?r2"
  let ?r4 = "read_next demo_decode ?r3"
  let ?run = "finish_reader ?r4"
  note defs = start_reader_def read_next_def enqueue_inline_def decode_message_def demo_decode_def
    emit_head_def emit_decoded_def finish_reader_def LARGE_FRAME_THRESHOLD_def MAX_IN_FLIGHT_DECODES_def
  have steps: "read_step demo_decode ?r ?r1" "read_step demo_decode ?r1 ?r2" "read_step demo_decode ?r2 ?r3"
    "read_step demo_decode ?r3 ?r4" "read_step demo_decode ?r4 ?run"
    by (rule read_more emit_inline finish; simp add: defs)+
  have run: "(read_step demo_decode)\<^sup>*\<^sup>* ?r ?run"
    by (blast intro: converse_rtranclp_into_rtranclp rtranclp.rtrancl_refl steps)
  show ?thesis
    by (rule exI [of _ ?run], insert reader_matches_serial [OF run]) (use run in \<open>simp add: defs preview_ok_def\<close>)
qed

section \<open>The reader ends\<close>

definition reader_work :: "'m reader \<Rightarrow> nat" where
  "reader_work r = 2 * length (rd_stream r) + length (rd_in_flight r) + (if rd_terminated r then 0 else 1)
     + (if rd_status r = Running then 1 else 0) + (if rd_open r then 1 else 0)"

lemma read_frame_work: "reader_work (read_frame decode (Some f) r) \<le> reader_work r + 1"
  by (cases "(decode, Some f, r)" rule: read_frame.cases)
    (simp_all add: reader_work_def enqueue_blocking_def enqueue_inline_def split: decoded.split)

lemma read_next_work: "\<not> rd_terminated r \<Longrightarrow> reader_work (read_next decode r) < reader_work r"
proof (cases "rd_stream r")
  case (Cons f fs)
  have "reader_work (r\<lparr>rd_stream := fs\<rparr>) + 2 = reader_work r" using Cons by (simp add: reader_work_def)
  then show ?thesis using read_frame_work [of decode f "r\<lparr>rd_stream := fs\<rparr>"] Cons by (simp add: read_next_def)
qed (simp add: read_next_def reader_work_def)

lemma read_step_work: "read_step decode r r' \<Longrightarrow> reader_work r' < reader_work r"
proof (erule read_stepE)
  assume "r' = read_next decode r" "\<not> rd_terminated r"
  then show ?thesis by (simp add: read_next_work)
qed (auto simp: emit_head_def emit_decoded_def reader_work_def finish_reader_def split: option.split)

lemma running_steps: "rd_status r = Running \<Longrightarrow> \<exists>r'. read_step decode r r' \<and> rd_open r' = rd_open r"
proof -
  assume run: "rd_status r = Running"
  have emit_open: "rd_open (emit_head res rest r) = rd_open r" for res rest
    by (simp add: emit_head_def emit_decoded_def split: option.split)
  have frame_open: "rd_open (read_frame decode f r1) = rd_open r1" for f r1
    by (cases "(decode, f, r1)" rule: read_frame.cases)
      (simp_all add: enqueue_blocking_def enqueue_inline_def split: decoded.split)
  have next_open: "rd_open (read_next decode r) = rd_open r"
    by (simp add: read_next_def frame_open split: list.split)
  have finish_open: "rd_open (finish_reader r) = rd_open r"
    by (simp add: finish_reader_def split: option.split)
  show ?thesis
  proof (cases "rd_in_flight r")
    case Nil
    then show ?thesis using read_step.finish [OF run Nil] read_step.read_more [OF run] next_open finish_open
      by (cases "rd_terminated r") (auto simp: MAX_IN_FLIGHT_DECODES_def)
  next
    case (Cons d rest)
    then show ?thesis using read_step.emit_inline [OF run] read_step.emit_blocking [OF run] emit_open
      by (cases d) blast+
  qed
qed


section \<open>A preview that ends inside a character\<close>

lemma preview_panic_kills_reader:
  assumes "rd_status r = Running" "\<not> rd_terminated r" "length (rd_in_flight r) < MAX_IN_FLIGHT_DECODES"
    and "\<not> inline_head (rd_in_flight r)" "rd_stream r = Inr (TextFrame bs) # fs"
    and "decode bs = None" "512 < length bs" "length bs < LARGE_FRAME_THRESHOLD" "drop_bit 6 (bs ! 512) = 2"
  shows "read_step decode r (r\<lparr>rd_stream := fs, rd_status := Panicked\<rparr>)"
    and "(read_step decode)\<^sup>*\<^sup>* (r\<lparr>rd_stream := fs, rd_status := Panicked\<rparr>) r' \<Longrightarrow> rd_tx r' = rd_tx r"
proof -
  have "read_next decode r = r\<lparr>rd_stream := fs, rd_status := Panicked\<rparr>"
    using assms by (simp add: read_next_def decode_message_def is_char_boundary_def enqueue_inline_def min_def)
  then show "read_step decode r (r\<lparr>rd_stream := fs, rd_status := Panicked\<rparr>)"
    using read_step.read_more [OF assms(1-4), of decode] by simp
  assume "(read_step decode)\<^sup>*\<^sup>* (r\<lparr>rd_stream := fs, rd_status := Panicked\<rparr>) r'"
  then have "rd_status r' = Panicked \<and> rd_tx r' = rd_tx r"
    by (induction rule: rtranclp_induct) (auto elim!: read_stepE)
  then show "rd_tx r' = rd_tx r" by simp
qed

section \<open>Commands leave in the order they were submitted\<close>

datatype conn_input =
    ConnSubmit method_id "session_id option" json
  | ConnPoll sink_reading
  | ConnArrives "(ws_error + ws_frame) list"

fun conn_step :: "(u8 list \<Rightarrow> 'm option) \<Rightarrow> connection \<Rightarrow> conn_input \<Rightarrow> connection" where
  "conn_step decode c (ConnSubmit m s p) = snd (submit_command m s p c)"
| "conn_step decode c (ConnPoll sk) = snd (Connection_poll_next decode sk c)"
| "conn_step decode c (ConnArrives fs) = c\<lparr>cn_incoming := cn_incoming c @ fs\<rparr>"

text \<open>The commands submitted, numbered from \<open>n\<close>.\<close>

fun submitted :: "u64 \<Rightarrow> conn_input list \<Rightarrow> method_call list" where
  "submitted n [] = []"
| "submitted n (ConnSubmit m s p # xs) =
     \<lparr>mc_id = n, mc_method = m, mc_session_id = s, mc_params = p\<rparr> # submitted (n + 1) xs"
| "submitted n (x # xs) = submitted n xs"

definition sends_well :: "conn_input \<Rightarrow> bool" where
  "sends_well x = (case x of ConnPoll sk \<Rightarrow> (\<forall>n. sk_send sk n = None) | _ \<Rightarrow> True)"

definition outgoing :: "connection \<Rightarrow> method_call list" where
  "outgoing c = cn_written c @ cn_pending c"

lemma buffer_commands_order:
  "buffer_commands ready send cmds = (err, taken, rest) \<Longrightarrow>
    subseq (taken @ rest) cmds \<and> ((\<forall>n. send n = None) \<longrightarrow> taken @ rest = cmds)"
proof (induction ready send cmds arbitrary: err taken rest rule: buffer_commands.induct)
  case (2 ready send cmd cmds)
  obtain e tk rs where rec: "buffer_commands (\<lambda>n. ready (Suc n)) (\<lambda>n. send (Suc n)) cmds = (e, tk, rs)"
    using prod_cases3 by blast
  show ?case
  proof (cases "send 0")
    case None
    then show ?thesis using 2 rec by (auto split: if_splits)
  next
    case (Some e)
    then have "\<not> (\<forall>n. send n = None)" by (metis option.distinct(1))
    then show ?thesis using 2 rec Some by (auto split: if_splits)
  qed
qed simp

lemma send_batch_order:
  "subseq (outgoing (snd (send_batch sk c))) (outgoing c)"
  "(\<forall>n. sk_send sk n = None) \<Longrightarrow> outgoing (snd (send_batch sk c)) = outgoing c"
  "cn_next_id (snd (send_batch sk c)) = cn_next_id c"
proof -
  obtain e tk rs where buf: "buffer_commands (sk_ready sk) (sk_send sk) (cn_pending c) = (e, tk, rs)"
    using prod_cases3 by blast
  have out: "outgoing (snd (send_batch sk c)) = cn_written c @ tk @ rs"
    by (simp add: send_batch_def buf outgoing_def Let_def split: option.split sink_answer.split)
  show "subseq (outgoing (snd (send_batch sk c))) (outgoing c)"
    and "(\<forall>n. sk_send sk n = None) \<Longrightarrow> outgoing (snd (send_batch sk c)) = outgoing c"
    using buffer_commands_order [OF buf] unfolding out by (simp_all add: outgoing_def list_emb_append_mono)
  show "cn_next_id (snd (send_batch sk c)) = cn_next_id c"
    by (simp add: send_batch_def buf Let_def split: option.split sink_answer.split)
qed

lemma outgoing_flag [simp]: "outgoing (c\<lparr>cn_needs_flush := b\<rparr>) = outgoing c"
  by (simp add: outgoing_def)

lemma start_send_order:
  "subseq (outgoing (snd (start_send_next sk c))) (outgoing c)"
  "(\<forall>n. sk_send sk n = None) \<Longrightarrow> outgoing (snd (start_send_next sk c)) = outgoing c"
  "cn_next_id (snd (start_send_next sk c)) = cn_next_id c"
  using send_batch_order [of sk c] send_batch_order [of sk "c\<lparr>cn_needs_flush := False\<rparr>"]
  by (auto simp: start_send_next_def split: sink_answer.split)

lemma poll_next_sends:
  "outgoing (snd (Connection_poll_next decode sk c)) = outgoing (snd (start_send_next sk c))"
  "cn_next_id (snd (Connection_poll_next decode sk c)) = cn_next_id (snd (start_send_next sk c))"
  by (auto simp: Connection_poll_next_def outgoing_def case_prod_beta split: option.split prod.split)

lemma conn_step_order:
  "subseq (outgoing (conn_step decode c x)) (outgoing c @ submitted (cn_next_id c) [x])"
  "sends_well x \<Longrightarrow> outgoing (conn_step decode c x) = outgoing c @ submitted (cn_next_id c) [x]"
  "submitted (cn_next_id c) (x # xs) = submitted (cn_next_id c) [x] @ submitted (cn_next_id (conn_step decode c x)) xs"
  by (cases x; simp add: submit_command_def next_call_id_def poll_next_sends start_send_order sends_well_def; simp add: outgoing_def)+

lemma conn_run_order:
  "subseq (outgoing (run (conn_step decode) c xs)) (outgoing c @ submitted (cn_next_id c) xs) \<and>
   (list_all sends_well xs \<longrightarrow> outgoing (run (conn_step decode) c xs) = outgoing c @ submitted (cn_next_id c) xs)"
proof (induction xs arbitrary: c)
  case (Cons x xs)
  let ?c = "conn_step decode c x"
  have "subseq (outgoing (run (conn_step decode) ?c xs)) (outgoing ?c @ submitted (cn_next_id ?c) xs)"
    using Cons.IH by blast
  moreover have "subseq (outgoing ?c @ submitted (cn_next_id ?c) xs) (outgoing c @ submitted (cn_next_id c) (x # xs))"
    using conn_step_order(1) [of decode c x] by (simp add: conn_step_order(3) [of c x xs decode] flip: append_assoc)
  ultimately show ?case using Cons.IH [of ?c] conn_step_order(2) [of x decode c]
    by (auto simp: conn_step_order(3) [of c x xs decode] intro: subseq_order.order_trans)
qed simp

text \<open>C21 (commands are written in order). Over any interleaving of submissions, polls with whatever
  answers of the sink, and arrivals: what the sink has taken followed by what is still queued is, in
  order and each with the id its submission returned, a subsequence of the commands submitted; it is
  all of them unless the sink refuses a command after saying it was ready.\<close>

theorem commands_written_in_order:
  "subseq (outgoing (run (conn_step decode) (fresh_connection frames ended) xs)) (submitted 0 xs) \<and>
   (list_all sends_well xs \<longrightarrow>
     outgoing (run (conn_step decode) (fresh_connection frames ended) xs) = submitted 0 xs)"
  using conn_run_order [of decode "fresh_connection frames ended" xs]
  by (simp add: fresh_connection_def outgoing_def)

definition demo_sink :: sink_reading where
  "demo_sink = \<lparr>sk_flush = SinkReady, sk_ready = (\<lambda>n. if n = 0 then SinkReady else SinkPending),
     sk_send = (\<lambda>_. None), sk_flush_batch = SinkReady\<rparr>"

lemma commands_written_in_order_witness:
  "let c = run (conn_step demo_decode) (fresh_connection [] False)
       [ConnSubmit ''a'' None JNull, ConnSubmit ''b'' None JNull, ConnPoll demo_sink, ConnSubmit ''c'' None JNull]
   in map mc_method (cn_written c) = [''a''] \<and> map mc_method (cn_pending c) = [''b'', ''c''] \<and>
      outgoing c = submitted 0 [ConnSubmit ''a'' None JNull, ConnSubmit ''b'' None JNull, ConnPoll demo_sink,
        ConnSubmit ''c'' None JNull]"
  unfolding Let_def
  by (subst commands_written_in_order [THEN conjunct2, rule_format])
    (simp_all add: sends_well_def demo_sink_def submit_command_def next_call_id_def fresh_connection_def
       Connection_poll_next_def start_send_next_def send_batch_def MAX_SKIPS_PER_POLL_def numeral_eq_Suc)

section \<open>Connecting is tried a bounded number of times\<close>

lemma connect_loop_trace:
  "\<exists>k \<le> left. connect_loop connect attempt left = (connect (attempt + k), map backoff_ms [attempt..<attempt + k]) \<and>
     (\<forall>j < k. \<exists>e. connect (attempt + j) = Inl e \<and> should_retry e) \<and>
     (k = left \<or> (\<forall>e. connect (attempt + k) = Inl e \<longrightarrow> \<not> should_retry e))"
proof (induction connect attempt left rule: connect_loop.induct)
  case (1 connect attempt left)
  show ?case
  proof (cases "\<exists>e n. connect attempt = Inl e \<and> should_retry e \<and> left = Suc n")
    case False
    then show ?thesis
      by (intro exI [of _ 0]) (subst connect_loop.simps, auto split: sum.split nat.split)
  next
    case True
    then obtain e n where e: "connect attempt = Inl e" "should_retry e" "left = Suc n" by blast
    then obtain k where k: "k \<le> n" "connect_loop connect (Suc attempt) n =
          (connect (Suc attempt + k), map backoff_ms [Suc attempt..<Suc attempt + k])"
        "\<forall>j < k. \<exists>e. connect (Suc attempt + j) = Inl e \<and> should_retry e"
        "k = n \<or> (\<forall>e. connect (Suc attempt + k) = Inl e \<longrightarrow> \<not> should_retry e)"
      using 1 [of e n] by blast
    have "\<exists>e. connect (attempt + j) = Inl e \<and> should_retry e" if "j < Suc k" for j
      using that k(3) e by (cases j) auto
    moreover have "[attempt..<attempt + Suc k] = attempt # [Suc attempt..<Suc attempt + k]"
      by (simp add: upt_conv_Cons)
    ultimately show ?thesis using k e
      by (intro exI [of _ "Suc k"]) (subst connect_loop.simps, auto)
  qed
qed

lemma backoff_exact: "n < 37 \<Longrightarrow> unat (backoff_ms n) = min (50 * 3 ^ n) 2000"
proof -
  assume n: "n < 37"
  have le: "(3::nat) ^ n \<le> 3 ^ 36" using n by (intro power_increasing) auto
  then have "unat (of_nat (3 ^ n) :: u64) = 3 ^ n" by (simp add: unat_of_nat take_bit_nat_eq_self del: of_nat_power)
  moreover have "min ((3::nat) ^ n) (2 ^ 64 - 1) = 3 ^ n" using le by (simp add: min_def)
  ultimately have "unat (saturating_pow64 3 n) = 3 ^ n"
    by (simp add: saturating_pow64_def)
  moreover have "50 * (3::nat) ^ n < 2 ^ 64" using le by simp
  ultimately have "unat (INITIAL_BACKOFF_MS * saturating_pow64 3 n) = 50 * 3 ^ n"
    by (simp add: INITIAL_BACKOFF_MS_def unat_word_ariths)
  then show ?thesis by (simp add: backoff_ms_def MAX_BACKOFF_MS_def min_def word_le_nat_alt)
qed

lemma backoff_le: "backoff_ms n \<le> MAX_BACKOFF_MS"
  by (simp add: backoff_ms_def)

text \<open>Connecting is tried a bounded number of times: the outcome is that of one attempt, the k-th
  with k at most the number of retries: every attempt before it failed in a way that may be retried, and
  it succeeded, failed for good or was the last. Between the attempts the task slept k times, never
  longer than two seconds.\<close>

theorem connection_attempts_bounded:
  "\<exists>k \<le> unat retries.
     connect_loop connect 0 (unat retries) = (connect k, map backoff_ms [0..<k]) \<and>
     (\<forall>j. j < k \<longrightarrow> (\<exists>e. connect j = Inl e \<and> should_retry e)) \<and>
     (k = unat retries \<or> \<not> (\<exists>e. connect k = Inl e \<and> should_retry e)) \<and>
     list_all (\<lambda>ms. ms \<le> MAX_BACKOFF_MS) (map backoff_ms [0..<k])"
  using connect_loop_trace [of "unat retries" connect 0] by (auto simp: list_all_iff backoff_le)

lemma connection_attempts_bounded_witness:
  "connect_loop (\<lambda>n. if n < 2 then Inl (ErrIo (OtherIoError ''reset'')) else Inr n) 0 (unat (4 :: u32))
     = (Inr 2, [50, 150])"
proof -
  let ?c = "\<lambda>n::nat. if n < 2 then Inl (ErrIo (OtherIoError ''reset'')) else Inr n"
  obtain k where k: "connect_loop ?c 0 (unat (4 :: u32)) = (?c k, map backoff_ms [0..<k])"
    "\<forall>j. j < k \<longrightarrow> (\<exists>e. ?c j = Inl e \<and> should_retry e)"
    "k = unat (4 :: u32) \<or> \<not> (\<exists>e. ?c k = Inl e \<and> should_retry e)"
    using connection_attempts_bounded [of 4 ?c] by blast
  have "\<not> 2 < k" using k(2) by (auto dest: spec [of _ 2])
  moreover have "\<not> k < 2" using k(3) by auto
  ultimately have "k = 2" by simp
  then show ?thesis using k(1)
    by (simp add: upt_rec backoff_ms_def INITIAL_BACKOFF_MS_def MAX_BACKOFF_MS_def saturating_pow64_def)
qed

end
