(* ===== verification/Refine.thy ===== *)
theory Refine
  imports Prelude
begin

text \<open>
  Refinement of a machine by what one of its keys sees, and sums over the values of a hash map with
  the laws that accounts of callers need.
\<close>

section \<open>Projections of a machine\<close>

text \<open>
  The abstract machine of one key: \<open>proj\<close> is its state in the concrete one, \<open>restrict\<close> the abstract
  input an input amounts to, if it concerns the key at all. What a step shows holds for runs.
\<close>

locale projected_machine = event_machine step inv
  for step :: "'s \<Rightarrow> 'e \<Rightarrow> 's" and inv :: "'s \<Rightarrow> bool" +
  fixes out :: "'s \<Rightarrow> 'e \<Rightarrow> 'o list"
    and proj :: "'s \<Rightarrow> 'a"
    and astep :: "'a \<Rightarrow> 'b \<Rightarrow> 'a"
    and aout :: "'a \<Rightarrow> 'b \<Rightarrow> 'o list"
    and restrict :: "'e \<Rightarrow> 'b option"
  assumes hit: "inv s \<Longrightarrow> restrict e = Some b \<Longrightarrow> proj (step s e) = astep (proj s) b \<and> out s e = aout (proj s) b"
    and miss: "inv s \<Longrightarrow> restrict e = None \<Longrightarrow> proj (step s e) = proj s \<and> out s e = []"
begin

lemma run_refines:
  "inv s \<Longrightarrow> proj (run step s es) = run astep (proj s) (List.map_filter restrict es) \<and>
    collect step out s es = collect astep aout (proj s) (List.map_filter restrict es)"
proof (induction es arbitrary: s)
  case (Cons e es)
  then show ?case using hit [of s e] miss [of s e] step_inv [of s e]
    by (cases "restrict e") (auto simp: List.map_filter_simps)
qed (simp add: List.map_filter_simps)

end

section \<open>Sums over a hash map\<close>

definition hm_sum :: "('v \<Rightarrow> nat) \<Rightarrow> ('k, 'v) hash_map \<Rightarrow> nat" where
  "hm_sum f m = (\<Sum>k \<in> set (hm_keys m). case hm_get m k of None \<Rightarrow> 0 | Some v \<Rightarrow> f v)"

lemma hm_sum_Nil [simp]: "hm_sum f [] = 0"
  by (simp add: hm_sum_def hm_keys_def)

lemma hm_sum_cong: "(\<And>k. hm_get m k = hm_get m' k) \<Longrightarrow> hm_sum f m = hm_sum f m'"
  by (simp add: hm_sum_def hm.set_keys)

lemma hm_sum_take: "hm_get m k = Some v \<Longrightarrow> hm_sum f m = f v + hm_sum f (hm_remove k m)"
proof -
  assume k: "hm_get m k = Some v"
  let ?g = "\<lambda>m k. case hm_get m k of None \<Rightarrow> 0 | Some v \<Rightarrow> f v"
  have "hm_sum f m = f v + (\<Sum>x \<in> set (hm_keys m) - {k}. ?g m x)"
    unfolding hm_sum_def using k by (subst sum.remove [of _ k], simp, simp add: hm.set_keys, simp)
  also have "(\<Sum>x \<in> set (hm_keys m) - {k}. ?g m x) = hm_sum f (hm_remove k m)"
    unfolding hm_sum_def hm.keys_remove by (rule sum.cong) auto
  finally show ?thesis .
qed

lemma hm_sum_absent: "hm_get m k = None \<Longrightarrow> hm_sum f (hm_remove k m) = hm_sum f m"
  by (rule hm_sum_cong) auto

lemma hm_sum_remove_le: "hm_sum f (hm_remove k m) \<le> hm_sum f m"
  using hm_sum_take [of m k _ f] hm_sum_absent [of m k f] by (cases "hm_get m k") auto

lemma hm_sum_insert: "hm_sum f (hm_insert k v m) = f v + hm_sum f (hm_remove k m)"
proof -
  have "hm_sum f (hm_insert k v m) = f v + hm_sum f (hm_remove k (hm_insert k v m))"
    by (rule hm_sum_take) simp
  moreover have "hm_sum f (hm_remove k (hm_insert k v m)) = hm_sum f (hm_remove k m)"
    by (rule hm_sum_cong) simp
  ultimately show ?thesis by simp
qed

lemma hm_sum_insert_le: "hm_sum f (hm_insert k v m) \<le> f v + hm_sum f m"
  by (simp add: hm_sum_insert hm_sum_remove_le)

lemma hm_sum_modify_le:
  "(\<And>v. f (g v) \<le> f v) \<Longrightarrow> hm_sum f (hm_modify k g m) \<le> hm_sum f m"
  using hm_sum_take [of m k _ f]
  by (cases "hm_get m k") (auto simp: hm_modify_def hm_sum_insert)

lemma hm_sum_map:
  "hm_sum f (map (\<lambda>(k, v). (k, g v)) m) = hm_sum (\<lambda>v. f (g v)) m"
proof -
  have "hm_get (map (\<lambda>(k, v). (k, g v)) m) k = map_option g (hm_get m k)" for k
    by (induction m) (auto simp: hm_get_def)
  then show ?thesis unfolding hm_sum_def
    by (intro sum.cong) (auto simp: hm.set_keys split: option.split)
qed

lemma hm_sum_mono: "(\<And>v. f v \<le> g v) \<Longrightarrow> hm_sum f m \<le> hm_sum g m"
  unfolding hm_sum_def by (rule sum_mono) (simp split: option.split)

end
