(* ===== verification/Handler_Types.thy ===== *)
theory Handler_Types
  imports Target Conn
begin

text \<open>
  The data of \<open>src/handler/mod.rs\<close>: the configuration of the handler, the requests it waits for,
  navigations in progress, the messages of the browser handle, and the handler itself.
\<close>

section \<open>Messages and commands\<close>

text \<open>A decoded message of the socket.\<close>

datatype cdp_message = WsResponse cdp_response | WsEvent cdp_event_message

text \<open>The macro \<open>ws_submit!\<close> of \<open>run\<close>: the id is used up also when the channel refuses the command.\<close>

definition ws_submit :: "method_id \<Rightarrow> session_id option \<Rightarrow> json \<Rightarrow> ws_writer \<Rightarrow> (cdp_error + call_id) \<times> ws_writer" where
  "ws_submit m s p w =
     (let id1 = wt_next_id w; w = w\<lparr>wt_next_id := id1 + 1\<rparr>
      in case try_send \<lparr>mc_id = id1, mc_method = m, mc_session_id = s, mc_params = p\<rparr> w of
           (None, w) \<Rightarrow> (Inr id1, w)
         | (Some e, w) \<Rightarrow> (Inl e, w))"

section \<open>Configuration\<close>

record handler_config =
  hc_ignore_https_errors :: bool
  hc_viewport :: "viewport option"
  hc_context_ids :: "string list"
  hc_request_timeout :: duration
  hc_request_intercept :: bool
  hc_cache_enabled :: bool
  hc_service_worker_enabled :: bool
  hc_ignore_visuals :: bool
  hc_ignore_stylesheets :: bool
  hc_ignore_javascript :: bool
  hc_allow_first_party_stylesheets :: bool
  hc_allow_first_party_javascript :: bool
  hc_allow_first_party_visuals :: bool
  hc_ignore_analytics :: bool
  hc_ignore_prefetch :: bool
  hc_ignore_ads :: bool
  hc_extra_headers :: "(string, string) hash_map option"
  hc_only_html :: bool
  hc_created_first_target :: bool
  hc_intercept_manager :: string
  hc_max_bytes_allowed :: "u64 option"
  hc_max_redirects :: "nat option"
  hc_max_main_frame_navigations :: "u32 option"
  hc_whitelist_patterns :: "string list option"
  hc_blacklist_patterns :: "string list option"
  hc_remote_local_policy :: bool
  hc_adblock_filter_rules :: "string list option"
  hc_channel_capacity :: nat
  hc_page_channel_capacity :: nat
  hc_connection_retries :: u32

definition HandlerConfig_default :: handler_config where
  "HandlerConfig_default = \<lparr>hc_ignore_https_errors = True, hc_viewport = None, hc_context_ids = [],
     hc_request_timeout = from_millis REQUEST_TIMEOUT, hc_request_intercept = False, hc_cache_enabled = True,
     hc_service_worker_enabled = True, hc_ignore_visuals = False, hc_ignore_stylesheets = False,
     hc_ignore_javascript = False, hc_allow_first_party_stylesheets = True,
     hc_allow_first_party_javascript = True, hc_allow_first_party_visuals = True,
     hc_ignore_analytics = True, hc_ignore_prefetch = True, hc_ignore_ads = False, hc_extra_headers = None,
     hc_only_html = False, hc_created_first_target = False, hc_intercept_manager = ''Unknown'',
     hc_max_bytes_allowed = None, hc_max_redirects = None, hc_max_main_frame_navigations = None,
     hc_whitelist_patterns = None, hc_blacklist_patterns = None, hc_remote_local_policy = False,
     hc_adblock_filter_rules = None, hc_channel_capacity = 4096,
     hc_page_channel_capacity = DEFAULT_PAGE_CHANNEL_CAPACITY, hc_connection_retries = DEFAULT_CONNECTION_RETRIES\<rparr>"

text \<open>The configuration a new target gets.\<close>

definition target_config_of :: "handler_config \<Rightarrow> target_config" where
  "target_config_of c = \<lparr>tc_ignore_https_errors = hc_ignore_https_errors c, tc_request_timeout = hc_request_timeout c,
     tc_viewport = hc_viewport c, tc_request_intercept = hc_request_intercept c, tc_cache_enabled = hc_cache_enabled c,
     tc_ignore_visuals = hc_ignore_visuals c, tc_ignore_javascript = hc_ignore_javascript c,
     tc_ignore_analytics = hc_ignore_analytics c, tc_ignore_prefetch = hc_ignore_prefetch c,
     tc_ignore_stylesheets = hc_ignore_stylesheets c,
     tc_allow_first_party_stylesheets = hc_allow_first_party_stylesheets c,
     tc_allow_first_party_javascript = hc_allow_first_party_javascript c,
     tc_allow_first_party_visuals = hc_allow_first_party_visuals c,
     tc_only_html = (hc_only_html c \<and> hc_created_first_target c),
     tc_service_worker_enabled = hc_service_worker_enabled c, tc_extra_headers = hc_extra_headers c,
     tc_intercept_manager = hc_intercept_manager c, tc_remote_local_policy = hc_remote_local_policy c,
     tc_max_bytes_allowed = hc_max_bytes_allowed c, tc_max_redirects = hc_max_redirects c,
     tc_max_main_frame_navigations = hc_max_main_frame_navigations c,
     tc_whitelist_patterns = hc_whitelist_patterns c, tc_blacklist_patterns = hc_blacklist_patterns c,
     tc_adblock_filter_rules = hc_adblock_filter_rules c, tc_page_channel_capacity = hc_page_channel_capacity c\<rparr>"

section \<open>Requests and navigations\<close>

datatype pending_request =
    PendingCreateTarget sender
  | PendingGetTargets sender
  | PendingNavigate navigation_id
  | ExternalCommand sender "target_id option"
  | InternalCommand target_id
  | PendingCloseBrowser sender

record navigation_in_progress =
  np_navigated :: bool
  np_response :: "cdp_response option"
  np_tx :: sender

definition NavigationInProgress_new :: "sender \<Rightarrow> navigation_in_progress" where
  "NavigationInProgress_new tx = \<lparr>np_navigated = False, np_response = None, np_tx = tx\<rparr>"

definition set_response :: "cdp_response \<Rightarrow> navigation_in_progress \<Rightarrow> navigation_in_progress" where
  "set_response r n = n\<lparr>np_response := Some r\<rparr>"

definition set_navigated :: "navigation_in_progress \<Rightarrow> navigation_in_progress" where
  "set_navigated n = n\<lparr>np_navigated := True\<rparr>"

text \<open>\<open>NavigationRequest\<close> has this one variant.\<close>

datatype navigation_request = Navigate navigation_in_progress

section \<open>Messages of the browser handle\<close>

text \<open>\<open>CreateTargetParams\<close>: its url and context, and what it serialises to.\<close>

record create_target_params =
  ct_url :: string
  ct_browser_context_id :: "string option"
  ct_value :: json

datatype handler_message =
    CreatePage create_target_params sender
  | FetchTargets sender
  | InsertContext browser_context
  | DisposeContext browser_context
  | GetPages sender
  | HandlerCommand command_message
  | GetPage target_id sender
  | HandlerAddEventListener "cdp_event listener_request"
  | CloseBrowser sender

text \<open>What the handler sends on oneshot channels.\<close>

datatype handler_reply =
    AnswerResponse "cdp_error + cdp_response"
  | AnswerPage "cdp_error + page_inner"
  | AnswerTargets "cdp_error + target_info list"
  | AnswerClose "cdp_error + unit"
  | AnswerPages "page_inner list"
  | AnswerMaybePage "page_inner option"

section \<open>The handler\<close>

text \<open>\<open>hd_inbox\<close> is the receiver of the browser messages with what is in it. \<open>hd_sent\<close> and
  \<open>hd_delivered\<close> are outputs: the answers sent and the events handed to subscribers, in order. The
  eviction timer is an input of the operations that ask it.\<close>

record handler =
  hd_default_context :: browser_context
  hd_contexts :: "browser_context set"
  hd_pending :: "(call_id, pending_request \<times> method_id \<times> instant) hash_map"
  hd_target_ids :: "target_id list"
  hd_targets :: "(target_id, target) hash_map"
  hd_navigations :: "(navigation_id, navigation_request) hash_map"
  hd_sessions :: "(session_id, session) hash_map"
  hd_conn :: "connection option"
  hd_next_navigation_id :: u64
  hd_config :: handler_config
  hd_listeners :: "cdp_event event_listeners"
  hd_closing :: bool
  hd_remaining_bytes :: "u64 option"
  hd_budget_exhausted :: bool
  hd_attached_targets :: "target_id set"
  hd_inbox :: "handler_message list"
  hd_sent :: "(sender \<times> handler_reply) list"
  hd_delivered :: "(channel \<times> cdp_event) list"

text \<open>What the handler takes from outside: that of its targets, the decoder of a frame, the
  generated decoders of the responses it reads, and the text \<open>format!\<close> makes of a crash.\<close>

record handler_env =
  he_target :: target_env
  he_decode :: "u8 list \<Rightarrow> cdp_message option"
  he_created_target :: "json \<Rightarrow> target_id option"
  he_target_infos :: "json \<Rightarrow> target_info list option"
  he_crash_text :: "target_id \<Rightarrow> string \<Rightarrow> int \<Rightarrow> string"

end
