(* ===== verification/Handler.thy ===== *)
theory Handler
  imports Handler_Types
begin

text \<open>
  The operations of the handler of \<open>src/handler/mod.rs\<close>: answers and navigations, the requests it
  submits, the events of targets and sessions, crashes and timeouts.
\<close>

section \<open>Construction\<close>

definition DISCOVER_ID :: "method_id \<times> json" where
  "DISCOVER_ID = command_pair (TargetSetDiscoverTargets True)"

definition TARGET_PARAMS_ID :: "method_id \<times> json" where
  "TARGET_PARAMS_ID = command_pair TargetGetTargets"

definition CLOSE_PARAMS_ID :: "method_id \<times> json" where
  "CLOSE_PARAMS_ID = command_pair BrowserClose"

definition Handler_new :: "connection \<Rightarrow> handler_config \<Rightarrow> handler" where
  "Handler_new conn config = \<lparr>hd_default_context = BrowserContext_default,
     hd_contexts = set (map BrowserContext_from (hc_context_ids config)), hd_pending = [], hd_target_ids = [],
     hd_targets = [], hd_navigations = [], hd_sessions = [],
     hd_conn = Some (snd (submit_command (fst DISCOVER_ID) None (snd DISCOVER_ID) conn)),
     hd_next_navigation_id = 0, hd_config = config, hd_listeners = [], hd_closing = False,
     hd_remaining_bytes = None, hd_budget_exhausted = False, hd_attached_targets = {}, hd_inbox = [], hd_sent = [], hd_delivered = []\<rparr>"

definition hd_send :: "sender \<Rightarrow> handler_reply \<Rightarrow> handler \<Rightarrow> handler" where
  "hd_send tx r h = h\<lparr>hd_sent := hd_sent h @ [(tx, r)]\<rparr>"

definition get_target :: "target_id \<Rightarrow> handler \<Rightarrow> target option" where
  "get_target i h = hm_get (hd_targets h) i"

text \<open>A write through \<open>self.targets.get_mut(id)\<close>.\<close>

definition modify_target :: "target_id \<Rightarrow> (target \<Rightarrow> target) \<Rightarrow> handler \<Rightarrow> handler" where
  "modify_target i f h = h\<lparr>hd_targets := hm_modify i f (hd_targets h)\<rparr>"

section \<open>Navigations\<close>

definition on_navigation_response :: "navigation_id \<Rightarrow> cdp_response \<Rightarrow> handler \<Rightarrow> handler" where
  "on_navigation_response i resp h =
     (case hm_get (hd_navigations h) i of
        None \<Rightarrow> h
      | Some (Navigate nav) \<Rightarrow>
          let h = h\<lparr>hd_navigations := hm_remove i (hd_navigations h)\<rparr>
          in if np_navigated nav then hd_send (np_tx nav) (AnswerResponse (Inr resp)) h
             else h\<lparr>hd_navigations := hm_insert i (Navigate (set_response resp nav)) (hd_navigations h)\<rparr>)"

definition on_navigation_lifecycle_completed :: "navigation_error + navigation_ok \<Rightarrow> handler \<Rightarrow> handler" where
  "on_navigation_lifecycle_completed res h =
     (case res of
        Inr ok \<Rightarrow>
          let i = NavigationOk_navigation_id ok in
          (case hm_get (hd_navigations h) i of
             None \<Rightarrow> h
           | Some (Navigate nav) \<Rightarrow>
               let h = h\<lparr>hd_navigations := hm_remove i (hd_navigations h)\<rparr> in
               (case np_response nav of
                  Some resp \<Rightarrow> hd_send (np_tx nav) (AnswerResponse (Inr resp)) h
                | None \<Rightarrow> h\<lparr>hd_navigations := hm_insert i (Navigate (set_navigated nav)) (hd_navigations h)\<rparr>))
      | Inl err \<Rightarrow>
          let i = NavigationError_navigation_id err in
          (case hm_get (hd_navigations h) i of
             None \<Rightarrow> h
           | Some (Navigate nav) \<Rightarrow>
               hd_send (np_tx nav) (AnswerResponse (Inl (CdpError_from_navigation err)))
                 (h\<lparr>hd_navigations := hm_remove i (hd_navigations h)\<rparr>)))"

definition start_navigation :: "navigation_id \<Rightarrow> sender \<Rightarrow> handler \<Rightarrow> handler" where
  "start_navigation i tx h =
     h\<lparr>hd_navigations := hm_insert i (Navigate (NavigationInProgress_new tx)) (hd_navigations h)\<rparr>"

definition next_navigation_id :: "handler \<Rightarrow> navigation_id \<times> handler" where
  "next_navigation_id h = (hd_next_navigation_id h, h\<lparr>hd_next_navigation_id := hd_next_navigation_id h + 1\<rparr>)"

section \<open>Targets and sessions\<close>

definition on_target_created :: "handler_env \<Rightarrow> target_info \<Rightarrow> handler \<Rightarrow> handler" where
  "on_target_created env info h =
     (if hd_contexts h \<noteq> {}
         \<and> (case ti_browser_context_id info of None \<Rightarrow> False
            | Some c \<Rightarrow> \<lparr>bc_id = Some c\<rparr> \<notin> hd_contexts h) then h
      else
        let ctx = (case ti_browser_context_id info of None \<Rightarrow> hd_default_context h | Some c \<Rightarrow> BrowserContext_from c);
            t = Target_new (he_target env) info (target_config_of (hd_config h)) ctx;
            tid = target_id t
        in h\<lparr>hd_target_ids := hd_target_ids h @ [tid], hd_targets := hm_insert tid t (hd_targets h)\<rparr>)"

definition on_attached_to_target :: "session_id \<Rightarrow> target_info \<Rightarrow> handler \<Rightarrow> handler" where
  "on_attached_to_target sid info h =
     (let s = Session_new sid (ti_target_id info);
          h = modify_target (se_target_id s) (set_session_id (se_id s)) h
      in h\<lparr>hd_sessions := hm_insert sid s (hd_sessions h)\<rparr>)"

definition on_detached_from_target :: "session_id \<Rightarrow> handler \<Rightarrow> handler" where
  "on_detached_from_target sid h =
     (case hm_get (hd_sessions h) sid of
        None \<Rightarrow> h
      | Some s \<Rightarrow> modify_target (se_target_id s) (\<lambda>t. t\<lparr>tg_session_id := None\<rparr>)
          (h\<lparr>hd_sessions := hm_remove sid (hd_sessions h)\<rparr>))"

text \<open>The end both of \<open>on_target_destroyed\<close> and of \<open>on_target_crashed\<close>.\<close>

definition forget_target :: "target_id \<Rightarrow> handler \<Rightarrow> handler" where
  "forget_target i h =
     (let h = h\<lparr>hd_attached_targets := hd_attached_targets h - {i}\<rparr> in
      case hm_get (hd_targets h) i of
        None \<Rightarrow> h
      | Some t \<Rightarrow>
          let h = h\<lparr>hd_targets := hm_remove i (hd_targets h)\<rparr> in
          (case tg_session_id t of
             None \<Rightarrow> h
           | Some s \<Rightarrow> h\<lparr>hd_sessions := hm_remove s (hd_sessions h)\<rparr>))"

definition on_target_destroyed :: "target_id \<Rightarrow> handler \<Rightarrow> handler" where
  "on_target_destroyed i h = forget_target i h"

text \<open>Which pending requests a crash cancels.\<close>

fun bound_to :: "target_id \<Rightarrow> pending_request \<Rightarrow> bool" where
  "bound_to i (ExternalCommand _ (Some t)) = (t = i)"
| "bound_to i (InternalCommand t) = (t = i)"
| "bound_to i _ = False"

definition cancel_call :: "string \<Rightarrow> call_id \<Rightarrow> handler \<Rightarrow> handler" where
  "cancel_call text c h =
     (case hm_get (hd_pending h) c of
        None \<Rightarrow> h
      | Some (req, _, _) \<Rightarrow>
          let h = h\<lparr>hd_pending := hm_remove c (hd_pending h)\<rparr> in
          (case req of ExternalCommand tx _ \<Rightarrow> hd_send tx (AnswerResponse (Inl (CdpError_msg text))) h | _ \<Rightarrow> h))"

definition crash_calls :: "target_id \<Rightarrow> handler \<Rightarrow> call_id list" where
  "crash_calls i h = filter (\<lambda>c. case hm_get (hd_pending h) c of
      Some (req, _, _) \<Rightarrow> bound_to i req | None \<Rightarrow> False) (hm_keys (hd_pending h))"

definition on_target_crashed :: "handler_env \<Rightarrow> target_id \<Rightarrow> string \<Rightarrow> int \<Rightarrow> handler \<Rightarrow> handler" where
  "on_target_crashed env i status code h =
     forget_target i (fold (cancel_call (he_crash_text env i status code)) (crash_calls i h) h)"

section \<open>Timeouts\<close>

definition time_out_call :: "call_id \<Rightarrow> handler \<Rightarrow> handler" where
  "time_out_call c h =
     (case hm_get (hd_pending h) c of
        None \<Rightarrow> h
      | Some (req, _, _) \<Rightarrow>
          let h = h\<lparr>hd_pending := hm_remove c (hd_pending h)\<rparr> in
          (case req of
             PendingCreateTarget tx \<Rightarrow> hd_send tx (AnswerPage (Inl Timeout)) h
           | PendingGetTargets tx \<Rightarrow> hd_send tx (AnswerTargets (Inl Timeout)) h
           | PendingNavigate i \<Rightarrow>
               (case hm_get (hd_navigations h) i of
                  None \<Rightarrow> h
                | Some (Navigate nav) \<Rightarrow> hd_send (np_tx nav) (AnswerResponse (Inl Timeout))
                    (h\<lparr>hd_navigations := hm_remove i (hd_navigations h)\<rparr>))
           | ExternalCommand tx _ \<Rightarrow> hd_send tx (AnswerResponse (Inl Timeout)) h
           | InternalCommand _ \<Rightarrow> h
           | PendingCloseBrowser tx \<Rightarrow> hd_send tx (AnswerClose (Inl Timeout)) h))"

definition timed_out_calls :: "instant \<Rightarrow> handler \<Rightarrow> call_id list" where
  "timed_out_calls deadline h = filter (\<lambda>c. case hm_get (hd_pending h) c of
      Some (_, _, timestamp) \<Rightarrow> timestamp < deadline | None \<Rightarrow> False) (hm_keys (hd_pending h))"

definition evict_timed_out_commands :: "instant \<Rightarrow> handler \<Rightarrow> handler" where
  "evict_timed_out_commands now h =
     (case checked_sub now (hc_request_timeout (hd_config h)) of
        None \<Rightarrow> h
      | Some deadline \<Rightarrow> fold time_out_call (timed_out_calls deadline h) h)"

section \<open>Responses\<close>

definition maybe_store_attach_session_id :: "handler_env \<Rightarrow> method_id \<Rightarrow> cdp_response \<Rightarrow> target \<Rightarrow> target" where
  "maybe_store_attach_session_id env m resp t =
     (if m \<noteq> ''Target.attachToTarget'' then t
      else (case to_command_response (te_attach_session (he_target env)) resp m of
              Inl _ \<Rightarrow> t
            | Inr r \<Rightarrow> set_session_id (cr_result r) t))"

definition on_response :: "handler_env \<Rightarrow> cdp_response \<Rightarrow> handler \<Rightarrow> handler" where
  "on_response env resp h =
     (case hm_get (hd_pending h) (rs_id resp) of
        None \<Rightarrow> h
      | Some (req, m, _) \<Rightarrow>
          let h = h\<lparr>hd_pending := hm_remove (rs_id resp) (hd_pending h)\<rparr> in
          (case req of
             PendingCreateTarget tx \<Rightarrow>
               (case to_command_response (he_created_target env) resp m of
                  Inr r \<Rightarrow> if get_target (cr_result r) h \<noteq> None
                            then modify_target (cr_result r) (set_initiator tx) h
                            else hd_send tx (AnswerPage (Inl NotFound)) h
                | Inl err \<Rightarrow> hd_send tx (AnswerPage (Inl err)) h)
           | PendingGetTargets tx \<Rightarrow>
               (case to_command_response (he_target_infos env) resp m of
                  Inr r \<Rightarrow> hd_send tx (AnswerTargets (Inr (cr_result r))) (fold (on_target_created env) (cr_result r) h)
                | Inl err \<Rightarrow> hd_send tx (AnswerTargets (Inl err)) h)
           | PendingNavigate i \<Rightarrow>
               (let h = on_navigation_response i resp h; c = hd_config h
                in if hc_only_html c \<and> \<not> hc_created_first_target c
                   then h\<lparr>hd_config := c\<lparr>hc_created_first_target := True\<rparr>\<rparr> else h)
           | ExternalCommand tx _ \<Rightarrow> hd_send tx (AnswerResponse (Inr resp)) h
           | InternalCommand i \<Rightarrow>
               modify_target i (\<lambda>t. Target_on_response (he_target env) resp m (maybe_store_attach_session_id env m resp t)) h
           | PendingCloseBrowser tx \<Rightarrow>
               hd_send tx (AnswerClose (Inr ())) (h\<lparr>hd_closing := True\<rparr>)))"

section \<open>Submitting over the connection\<close>

definition await :: "call_id \<Rightarrow> pending_request \<Rightarrow> method_id \<Rightarrow> instant \<Rightarrow> handler \<Rightarrow> handler" where
  "await c req m now h = h\<lparr>hd_pending := hm_insert c (req, m, now) (hd_pending h)\<rparr>"

text \<open>Submit and wait; \<open>False\<close> when \<open>run\<close> has taken the connection.\<close>

definition submit_and_await :: "pending_request \<Rightarrow> method_id \<Rightarrow> session_id option \<Rightarrow> json \<Rightarrow> instant \<Rightarrow> handler \<Rightarrow> bool \<times> handler" where
  "submit_and_await req m s p now h =
     (case hd_conn h of
        None \<Rightarrow> (False, h)
      | Some conn \<Rightarrow>
          let (c, conn) = submit_command m s p conn
          in (True, await c req m now (h\<lparr>hd_conn := Some conn\<rparr>)))"

text \<open>The target behind a session.\<close>

definition session_target :: "session_id option \<Rightarrow> handler \<Rightarrow> target_id option" where
  "session_target s h = map_option se_target_id (Option.bind s (hm_get (hd_sessions h)))"

definition connection_consumed :: cdp_error where
  "connection_consumed = CdpError_msg ''connection consumed by Handler::run()''"

definition submit_external_command :: "command_message \<Rightarrow> instant \<Rightarrow> handler \<Rightarrow> (cdp_error + unit) \<times> handler" where
  "submit_external_command msg now h =
     (let (ok, h') = submit_and_await (ExternalCommand (cm_sender msg) (session_target (cm_session_id msg) h))
            (cm_method msg) (cm_session_id msg) (cm_params msg) now h
      in (if ok then Inr () else Inl connection_consumed, h'))"

definition submit_internal_command :: "target_id \<Rightarrow> cdp_request \<Rightarrow> instant \<Rightarrow> handler \<Rightarrow> (cdp_error + unit) \<times> handler" where
  "submit_internal_command i req now h =
     (let (ok, h') = submit_and_await (InternalCommand i) (rq_method req) (rq_session_id req) (rq_params req) now h
      in (if ok then Inr () else Inl connection_consumed, h'))"

definition submit_fetch_targets :: "sender \<Rightarrow> instant \<Rightarrow> handler \<Rightarrow> handler" where
  "submit_fetch_targets tx now h =
     snd (submit_and_await (PendingGetTargets tx) (fst TARGET_PARAMS_ID) None (snd TARGET_PARAMS_ID) now h)"

definition submit_navigation :: "navigation_id \<Rightarrow> cdp_request \<Rightarrow> instant \<Rightarrow> handler \<Rightarrow> handler" where
  "submit_navigation i req now h =
     snd (submit_and_await (PendingNavigate i) (rq_method req) (rq_session_id req) (rq_params req) now h)"

definition submit_close :: "sender \<Rightarrow> instant \<Rightarrow> handler \<Rightarrow> handler" where
  "submit_close tx now h =
     snd (submit_and_await (PendingCloseBrowser tx) (fst CLOSE_PARAMS_ID) None (snd CLOSE_PARAMS_ID) now h)"

definition on_target_message :: "handler_env \<Rightarrow> command_message \<Rightarrow> instant \<Rightarrow> target \<Rightarrow> handler \<Rightarrow> target \<times> handler" where
  "on_target_message env msg now t h =
     (if is_navigation msg
      then (let (req, tx) = CommandMessage_split msg;
                (i, h) = next_navigation_id h;
                t = Target_goto (he_target env)
                      (FrameRequestedNavigation_new i req (hc_request_timeout (hd_config h))) t
            in (t, start_navigation i tx h))
      else (t, snd (submit_external_command msg now h)))"

text \<open>The urls a page may be created with.\<close>

definition creatable_url :: "string \<Rightarrow> bool" where
  "creatable_url url =
     (let about_blank = (url = ''about:blank'');
          http_check = (\<not> about_blank \<and> starts_with ''http'' url \<or> starts_with ''file://'' url)
      in about_blank \<or> http_check)"

text \<open>\<open>create_page\<close>: \<open>clock\<close> is what \<open>Instant::now()\<close> reads.\<close>

definition Handler_create_page :: "create_target_params \<Rightarrow> sender \<Rightarrow> instant \<Rightarrow> handler \<Rightarrow> handler" where
  "Handler_create_page params tx clock h =
     (if creatable_url (ct_url params)
      then (let (ok, h) = submit_and_await (PendingCreateTarget tx) ''Target.createTarget'' None (ct_value params) clock h
            in if ok then h else hd_send tx (AnswerPage (Inl (CdpError_msg ''connection consumed''))) h)
      else hd_send tx (AnswerPage (Inl NotFound)) h)"

section \<open>Events\<close>

text \<open>The handler's own events.\<close>

fun handler_event :: "handler_env \<Rightarrow> cdp_event \<Rightarrow> handler \<Rightarrow> handler" where
  "handler_event env (EvTargetCreated info) h = on_target_created env info h"
| "handler_event env (EvAttachedToTarget s info _) h = on_attached_to_target s info h"
| "handler_event env (EvTargetDestroyed i) h = on_target_destroyed i h"
| "handler_event env (EvTargetCrashed i status code) h = on_target_crashed env i status code h"
| "handler_event env (EvDetachedFromTarget s) h = on_detached_from_target s h"
| "handler_event env _ h = h"

text \<open>The target an event with a session belongs to.\<close>

definition event_target :: "cdp_event_message \<Rightarrow> handler \<Rightarrow> target_id option" where
  "event_target ev h = Option.bind (session_target (ev_session_id ev) h)
     (\<lambda>i. if get_target i h = None then None else Some i)"

definition on_event :: "handler_env \<Rightarrow> instant \<Rightarrow> cdp_event_message \<Rightarrow> handler \<Rightarrow> handler" where
  "on_event env clock ev h =
     (case event_target ev h of
        Some i \<Rightarrow> modify_target i (Target_on_event (he_target env) clock ev) h
      | None \<Rightarrow>
          let h = handler_event env (ev_params ev) h
          in h\<lparr>hd_listeners := consume_event (ev_method ev) (ev_params ev) (hd_listeners h)\<rparr>)"

end
