(* ===== verification/Handler_Loops.thy ===== *)
theory Handler_Loops
  imports Handler Target_Machine
begin

text \<open>
  The \<open>Stream\<close> of the handler in \<open>src/handler/mod.rs\<close>: \<open>poll_next\<close>, with what one turn of its loop
  does to the messages of the browser handle, the targets, the socket and the timer.
\<close>

section \<open>Messages of the browser handle\<close>

text \<open>A write to every target through \<open>values_mut\<close>.\<close>

definition map_targets :: "(target \<Rightarrow> target) \<Rightarrow> handler \<Rightarrow> handler" where
  "map_targets f h = h\<lparr>hd_targets := map (\<lambda>(k, t). (k, f t)) (hd_targets h)\<rparr>"

definition get_pages :: "handler \<Rightarrow> page_inner list \<times> handler" where
  "get_pages h = (List.map_filter (\<lambda>t. if is_page t then fst (get_or_create_page t) else None) (hm_values (hd_targets h)),
     map_targets (\<lambda>t. if is_page t then snd (get_or_create_page t) else t) h)"

definition get_page :: "target_id \<Rightarrow> handler \<Rightarrow> page_inner option \<times> handler" where
  "get_page i h = (Option.bind (get_target i h) (\<lambda>t. fst (get_or_create_page t)),
     modify_target i (\<lambda>t. snd (get_or_create_page t)) h)"

definition insert_context :: "browser_context \<Rightarrow> handler \<Rightarrow> handler" where
  "insert_context ctx h =
     (let h = (if bc_id (hd_default_context h) = None then h\<lparr>hd_default_context := ctx\<rparr> else h)
      in h\<lparr>hd_contexts := insert ctx (hd_contexts h)\<rparr>)"

definition dispose_context :: "browser_context \<Rightarrow> handler \<Rightarrow> handler" where
  "dispose_context ctx h = h\<lparr>hd_contexts := hd_contexts h - {ctx},
     hd_attached_targets := Set.filter (\<lambda>i.
        case Option.bind (get_target i h) (\<lambda>t. ti_browser_context_id (tg_info t)) of
          None \<Rightarrow> True | Some c \<Rightarrow> Some c \<noteq> bc_id ctx) (hd_attached_targets h),
     hd_closing := True\<rparr>"

definition note_context :: "create_target_params \<Rightarrow> handler \<Rightarrow> handler" where
  "note_context params h = (case ct_browser_context_id params of
      None \<Rightarrow> h | Some c \<Rightarrow> h\<lparr>hd_contexts := insert (BrowserContext_from c) (hd_contexts h)\<rparr>)"

text \<open>One message: an error to return, whether to dispose of the handler, the handler. \<open>clock\<close> is
  what \<open>Instant::now()\<close> reads, \<open>lid\<close> the next listener id.\<close>

fun browser_message :: "instant \<Rightarrow> instant \<Rightarrow> listener_id \<Rightarrow> handler_message \<Rightarrow> handler \<Rightarrow> cdp_error option \<times> bool \<times> handler" where
  "browser_message now clock lid (HandlerCommand cmd) h =
     (case submit_external_command cmd now h of (Inl e, h) \<Rightarrow> (Some e, False, h) | (Inr _, h) \<Rightarrow> (None, False, h))"
| "browser_message now clock lid (FetchTargets tx) h = (None, False, submit_fetch_targets tx now h)"
| "browser_message now clock lid (CloseBrowser tx) h = (None, False, submit_close tx now h)"
| "browser_message now clock lid (CreatePage params tx) h =
     (None, False, Handler_create_page params tx clock (note_context params h))"
| "browser_message now clock lid (GetPages tx) h =
     (let (pages, h) = get_pages h in (None, False, hd_send tx (AnswerPages pages) h))"
| "browser_message now clock lid (InsertContext ctx) h = (None, False, insert_context ctx h)"
| "browser_message now clock lid (DisposeContext ctx) h = (None, True, dispose_context ctx h)"
| "browser_message now clock lid (GetPage i tx) h =
     (let (page, h) = get_page i h in (None, False, hd_send tx (AnswerMaybePage page) h))"
| "browser_message now clock lid (HandlerAddEventListener req) h =
     (None, False, h\<lparr>hd_listeners := snd (add_listener lid req (hd_listeners h))\<rparr>)"

section \<open>Targets, polled in turn\<close>

definition BROWSER_MSG_BUDGET :: nat where
  "BROWSER_MSG_BUDGET = 128"

definition PER_TARGET_DRAIN_BUDGET :: nat where
  "PER_TARGET_DRAIN_BUDGET = 128"

definition WS_MSG_BUDGET :: nat where
  "WS_MSG_BUDGET = 512"

definition consume_bytes :: "u64 \<Rightarrow> handler \<Rightarrow> handler" where
  "consume_bytes n h = (case hd_remaining_bytes h of
      None \<Rightarrow> h
    | Some rem \<Rightarrow>
        let rem = saturating_sub64 rem n
        in h\<lparr>hd_remaining_bytes := Some rem, hd_budget_exhausted := hd_budget_exhausted h \<or> rem = 0\<rparr>)"

text \<open>What the stream does with an event of a target, which is out of the map meanwhile.\<close>

fun stream_event :: "handler_env \<Rightarrow> instant \<Rightarrow> target_event \<Rightarrow> target \<Rightarrow> handler \<Rightarrow> target \<times> handler" where
  "stream_event env now (TargetRequest req) t h = (t, snd (submit_internal_command (target_id t) req now h))"
| "stream_event env now (TargetCommand msg) t h = on_target_message env msg now t h"
| "stream_event env now (TargetNavigationRequest i req) t h = (t, submit_navigation i req now h)"
| "stream_event env now (TargetNavigationResult res) t h = (t, on_navigation_lifecycle_completed res h)"
| "stream_event env now (TargetBytesConsumed n) t h = (t, consume_bytes n h)"

text \<open>What the world looks like to one poll of a target: the messages its page has sent since, the
  receivers dropped, the clock, the listener ids.\<close>

record reading =
  rd_arrived :: "target_message list"
  rd_gone :: "sender \<Rightarrow> bool"
  rd_clock :: "nat \<Rightarrow> instant"
  rd_lid :: "nat \<Rightarrow> listener_id"

text \<open>Poll a target until it has no event or the budget is used up; the flag says the latter.\<close>

fun poll_target :: "handler_env \<Rightarrow> instant \<Rightarrow> (nat \<Rightarrow> reading) \<Rightarrow> nat \<Rightarrow> target \<Rightarrow> handler \<Rightarrow> bool \<times> target \<times> handler" where
  "poll_target env now rd 0 t h = (True, t, h)"
| "poll_target env now rd (Suc n) t h =
     (case Target_poll (he_target env) (rd_gone (rd 0)) (rd_lid (rd 0)) now (rd_clock (rd 0))
            (fold page_sends (rd_arrived (rd 0)) t) of
        (None, t) \<Rightarrow> (False, t, h)
      | (Some ev, t) \<Rightarrow>
          let (t, h) = stream_event env now ev t h
          in poll_target env now (\<lambda>k. rd (Suc k)) n t h)"

text \<open>\<open>Vec::swap_remove\<close>, for an index in range.\<close>

definition swap_remove :: "nat \<Rightarrow> 'a list \<Rightarrow> 'a \<times> 'a list" where
  "swap_remove n xs = (xs ! n, if Suc n = length xs then butlast xs else butlast (xs[n := last xs]))"

text \<open>The pass over all targets: \<open>drive\<close> is what is done with one target.\<close>

fun for_targets :: "(target_id \<Rightarrow> target \<Rightarrow> handler \<Rightarrow> bool \<times> target \<times> handler) \<Rightarrow> nat \<Rightarrow> handler \<Rightarrow> bool \<times> handler" where
  "for_targets drive 0 h = (False, h)"
| "for_targets drive (Suc n) h =
     (let (i, ids) = swap_remove n (hd_target_ids h);
          h = h\<lparr>hd_target_ids := ids\<rparr>
      in case hm_get (hd_targets h) i of
           None \<Rightarrow> for_targets drive n h
         | Some t \<Rightarrow>
             let (hit, t, h) = drive i t (h\<lparr>hd_targets := hm_remove i (hd_targets h)\<rparr>);
                 h = h\<lparr>hd_targets := hm_insert i t (hd_targets h), hd_target_ids := hd_target_ids h @ [i]\<rparr>;
                 (hit', h) = for_targets drive n h
             in (hit \<or> hit', h))"

text \<open>\<open>flush_listeners\<close>: the queued events of a target's subscribers go out.\<close>

definition flush_target :: "(channel \<Rightarrow> bool) \<Rightarrow> target \<Rightarrow> handler \<Rightarrow> target \<times> handler" where
  "flush_target alive t h =
     (let (sent, ls) = EventListeners_flush alive (tg_listeners t)
      in (t\<lparr>tg_listeners := ls\<rparr>, h\<lparr>hd_delivered := hd_delivered h @ sent\<rparr>))"

definition poll_target_listeners :: "(channel \<Rightarrow> bool) \<Rightarrow> target \<Rightarrow> handler \<Rightarrow> target \<times> handler" where
  "poll_target_listeners alive t h =
     (let (sent, ls) = EventListeners_poll alive (tg_listeners t)
      in (t\<lparr>tg_listeners := ls\<rparr>, h\<lparr>hd_delivered := hd_delivered h @ sent\<rparr>))"

definition stream_drive :: "handler_env \<Rightarrow> instant \<Rightarrow> (target_id \<Rightarrow> nat \<Rightarrow> reading) \<Rightarrow> (channel \<Rightarrow> bool)
    \<Rightarrow> target_id \<Rightarrow> target \<Rightarrow> handler \<Rightarrow> bool \<times> target \<times> handler" where
  "stream_drive env now rd alive i t h =
     (let (hit, t, h) = poll_target env now (rd i) PER_TARGET_DRAIN_BUDGET t h;
          (t, h) = poll_target_listeners alive t h
      in (hit, t, h))"

section \<open>One turn\<close>

text \<open>What one turn of the loop finds: browser messages and frames that have arrived, the clock read
  by the n-th browser or socket message, the listener ids drawn, the readings of the targets, the
  subscribers still there, the answers of the sink, whether the timer has elapsed.\<close>

record turn =
  tn_inbox :: "handler_message list"
  tn_clock :: "nat \<Rightarrow> instant"
  tn_lid :: "nat \<Rightarrow> listener_id"
  tn_reading :: "target_id \<Rightarrow> nat \<Rightarrow> reading"
  tn_alive :: "channel \<Rightarrow> bool"
  tn_frames :: "(ws_error + ws_frame) list"
  tn_ended :: bool
  tn_sink :: "nat \<Rightarrow> sink_reading"
  tn_evict :: bool

text \<open>What \<open>poll_next\<close> returns; the flag of \<open>HandlerPending\<close> says that the task woke itself.\<close>

datatype handler_poll = HandlerPending bool | HandlerEnd | HandlerFailed cdp_error | HandlerPanic

text \<open>The messages of the browser handle: the error to return, whether to dispose, whether the budget is
  used up.\<close>

fun drain_inbox :: "instant \<Rightarrow> (nat \<Rightarrow> instant) \<Rightarrow> (nat \<Rightarrow> listener_id) \<Rightarrow> nat \<Rightarrow> handler
    \<Rightarrow> cdp_error option \<times> bool \<times> bool \<times> handler" where
  "drain_inbox now clock lid 0 h = (None, False, True, h)"
| "drain_inbox now clock lid (Suc n) h =
     (case hd_inbox h of
        [] \<Rightarrow> (None, False, False, h)
      | msg # msgs \<Rightarrow>
          (case browser_message now (clock 0) (lid 0) msg (h\<lparr>hd_inbox := msgs\<rparr>) of
             (Some e, dispose, h) \<Rightarrow> (Some e, dispose, False, h)
           | (None, dispose, h) \<Rightarrow>
               let (e, dispose', hit, h) = drain_inbox now (\<lambda>k. clock (Suc k)) (\<lambda>k. lid (Suc k)) n h
               in (e, dispose \<or> dispose', hit, h)))"

definition poll_listeners :: "(channel \<Rightarrow> bool) \<Rightarrow> handler \<Rightarrow> handler" where
  "poll_listeners alive h =
     (let (sent, ls) = EventListeners_poll alive (hd_listeners h)
      in h\<lparr>hd_listeners := ls, hd_delivered := hd_delivered h @ sent\<rparr>)"

datatype socket_end = SocketIdle | SocketBudget | SocketError cdp_error | SocketPanic

fun read_socket :: "(u8 list \<Rightarrow> cdp_message option) \<Rightarrow> (nat \<Rightarrow> sink_reading) \<Rightarrow> nat \<Rightarrow> connection
    \<Rightarrow> cdp_message list \<times> socket_end \<times> connection" where
  "read_socket decode sk 0 c = ([], SocketBudget, c)"
| "read_socket decode sk (Suc n) c =
     (case Connection_poll_next decode (sk 0) c of
        (ConnItem (Inr m), c) \<Rightarrow>
          let (ms, why, c) = read_socket decode (\<lambda>k. sk (Suc k)) n c in (m # ms, why, c)
      | (ConnItem (Inl e), c) \<Rightarrow> ([], SocketError e, c)
      | (ConnPanic, c) \<Rightarrow> ([], SocketPanic, c)
      | (_, c) \<Rightarrow> ([], SocketIdle, c))"

text \<open>The messages read, in order; true when a response has closed the handler, which returns at once.\<close>

fun handle_socket :: "handler_env \<Rightarrow> (nat \<Rightarrow> instant) \<Rightarrow> cdp_message list \<Rightarrow> handler \<Rightarrow> bool \<times> handler" where
  "handle_socket env clock [] h = (False, h)"
| "handle_socket env clock (WsResponse r # ms) h =
     (let h = on_response env r h
      in if hd_closing h then (True, h) else handle_socket env (\<lambda>n. clock (Suc n)) ms h)"
| "handle_socket env clock (WsEvent ev # ms) h =
     handle_socket env (\<lambda>n. clock (Suc n)) ms (on_event env (clock 0) ev h)"

text \<open>The errors that mean that the browser has gone.\<close>

definition is_disconnect :: "cdp_error \<Rightarrow> bool" where
  "is_disconnect e \<longleftrightarrow> e = ErrWs AlreadyClosed \<or> e = ErrWs ResetWithoutClosingHandshake"

definition evict_stale :: "instant \<Rightarrow> handler \<Rightarrow> handler" where
  "evict_stale now h = map_targets
     (\<lambda>t. map_frames evict_stale_context_ids (map_network (evict_stale_entries now) t)) (evict_timed_out_commands now h)"

definition block_exhausted :: "handler \<Rightarrow> handler" where
  "block_exhausted h = (if hd_budget_exhausted h then map_targets (map_network (set_block_all True)) h else h)"

text \<open>The end of a turn: errors of the socket, the timer, the byte budget, and what to return, if
  anything. \<open>idle\<close>: nothing was read.\<close>

definition end_turn :: "instant \<Rightarrow> bool \<Rightarrow> bool \<Rightarrow> bool \<Rightarrow> bool \<Rightarrow> handler \<Rightarrow> handler_poll option \<times> handler" where
  "end_turn now evict dispose hit idle h =
     (let h = block_exhausted (if evict then evict_stale now h else h)
      in (if dispose then Some HandlerEnd else if hit then Some (HandlerPending True)
          else if idle then Some (HandlerPending False) else None, h))"

definition socket_turn :: "handler_env \<Rightarrow> instant \<Rightarrow> turn \<Rightarrow> bool \<Rightarrow> bool \<Rightarrow> handler \<Rightarrow> handler_poll option \<times> handler" where
  "socket_turn env now tn dispose hit h =
     (case hd_conn h of
        None \<Rightarrow> (Some (HandlerFailed connection_consumed), h)
      | Some c \<Rightarrow>
          let (ms, why, c) = read_socket (he_decode env) (tn_sink tn) WS_MSG_BUDGET
                (c\<lparr>cn_incoming := cn_incoming c @ tn_frames tn, cn_ended := tn_ended tn\<rparr>);
              h = h\<lparr>hd_conn := Some c\<rparr>
          in if why = SocketPanic then (Some HandlerPanic, h)
             else let (closing, h) = handle_socket env (\<lambda>n. tn_clock tn (BROWSER_MSG_BUDGET + n)) ms h in
               if closing then (Some HandlerEnd, h)
               else (case why of
                   SocketError e \<Rightarrow>
                     if is_disconnect e then end_turn now (tn_evict tn) True hit (ms = []) (h\<lparr>hd_closing := True\<rparr>)
                     else (Some (HandlerFailed e), h)
                 | _ \<Rightarrow> end_turn now (tn_evict tn) dispose (hit \<or> why = SocketBudget) (ms = []) h))"

definition stream_turn :: "handler_env \<Rightarrow> instant \<Rightarrow> turn \<Rightarrow> handler \<Rightarrow> handler_poll option \<times> handler" where
  "stream_turn env now tn h =
     (case drain_inbox now (tn_clock tn) (tn_lid tn) BROWSER_MSG_BUDGET (h\<lparr>hd_inbox := hd_inbox h @ tn_inbox tn\<rparr>) of
        (Some e, _, _, h) \<Rightarrow> (Some (HandlerFailed e), h)
      | (None, dispose, hit, h) \<Rightarrow>
          let (hit', h) = for_targets (stream_drive env now (tn_reading tn) (tn_alive tn)) (length (hd_target_ids h)) h
          in socket_turn env now tn dispose (hit \<or> hit') (poll_listeners (tn_alive tn) h))"

text \<open>The loop goes round as long as it reads messages: \<open>None\<close> says that it is still looping after the
  turns given.\<close>

fun Handler_poll_next :: "handler_env \<Rightarrow> instant \<Rightarrow> turn list \<Rightarrow> handler \<Rightarrow> handler_poll option \<times> handler" where
  "Handler_poll_next env now [] h = (None, h)"
| "Handler_poll_next env now (tn # tns) h =
     (case stream_turn env now tn h of
        (Some r, h) \<Rightarrow> (Some r, h)
      | (None, h) \<Rightarrow> Handler_poll_next env now tns h)"

end
