(* ===== verification/Handler_Run.thy ===== *)
theory Handler_Run
  imports Handler_Loops
begin

text \<open>
  \<open>Handler::run\<close> of \<open>src/handler/mod.rs\<close>: the loop of the handler as a task of its own, which
  submits through the channel of the writer task and advances its targets until they have nothing
  to report. The handler and the writer channel are passed along together.
\<close>

section \<open>Submitting\<close>

text \<open>\<open>ws_submit!\<close> and waiting for the answer if the command got into the channel. A refused command
  drops the sender of whoever asked.\<close>

definition submit_async :: "pending_request \<Rightarrow> method_id \<Rightarrow> session_id option \<Rightarrow> json \<Rightarrow> instant
    \<Rightarrow> handler \<times> ws_writer \<Rightarrow> handler \<times> ws_writer" where
  "submit_async req m s p now st =
     (case ws_submit m s p (snd st) of
        (Inr c, w) \<Rightarrow> (await c req m now (fst st), w)
      | (Inl _, w) \<Rightarrow> (fst st, w))"

text \<open>A command of a page in \<open>run\<close>: a navigation is registered with its target and also submitted at
  once.\<close>

definition run_command :: "handler_env \<Rightarrow> instant \<Rightarrow> command_message \<Rightarrow> target \<Rightarrow> handler \<times> ws_writer
    \<Rightarrow> target \<times> handler \<times> ws_writer" where
  "run_command env now msg t st =
     (if is_navigation msg
      then (let (req, tx) = CommandMessage_split msg;
                (i, h) = next_navigation_id (fst st);
                t = Target_goto (he_target env)
                      (FrameRequestedNavigation_new i req (hc_request_timeout (hd_config h))) t;
                (h, w) = submit_async (PendingNavigate i) (rq_method req) (rq_session_id req) (rq_params req) now (h, snd st)
            in (t, start_navigation i tx h, w))
      else (t, submit_async (ExternalCommand (cm_sender msg) (Some (target_id t))) (cm_method msg) (cm_session_id msg)
            (cm_params msg) now st))"

fun run_event :: "handler_env \<Rightarrow> instant \<Rightarrow> target_event \<Rightarrow> target \<Rightarrow> handler \<times> ws_writer
    \<Rightarrow> target \<times> handler \<times> ws_writer" where
  "run_event env now (TargetRequest req) t st =
     (t, submit_async (InternalCommand (target_id t)) (rq_method req) (rq_session_id req) (rq_params req) now st)"
| "run_event env now (TargetCommand msg) t st = run_command env now msg t st"
| "run_event env now (TargetNavigationRequest i req) t st =
     (t, submit_async (PendingNavigate i) (rq_method req) (rq_session_id req) (rq_params req) now st)"
| "run_event env now (TargetNavigationResult res) t st = (t, on_navigation_lifecycle_completed res (fst st), snd st)"
| "run_event env now (TargetBytesConsumed n) t st = (t, consume_bytes n (fst st), snd st)"

section \<open>Advancing a target until it rests\<close>

text \<open>
  The loop over \<open>advance\<close> has no budget. It ends because the initialisation moves forward and every
  event comes out of work there was: a command of the page may start a navigation, which is at most
  one event for the network queue and one pending navigation.
\<close>

fun chain_left :: "target_init \<Rightarrow> nat" where
  "chain_left (InitializingFrame c) = length (cc_cmds c)"
| "chain_left (InitializingNetwork c) = length (cc_cmds c)"
| "chain_left (InitializingPage c) = length (cc_cmds c)"
| "chain_left (InitializingEmulation c) = length (cc_cmds c)"
| "chain_left _ = 0"

fun event_weight :: "target_event \<Rightarrow> nat" where
  "event_weight (TargetCommand _) = 7"
| "event_weight _ = 1"

definition target_work :: "target \<Rightarrow> nat" where
  "target_work t = sum_list (map event_weight (tg_queued t)) + 2 * length (nm_queued_events (tg_network t))
     + 2 * navigation_work (tg_frames t)"

lemma target_work_fields [simp]:
  "target_work (t\<lparr>tg_init := i\<rparr>) = target_work t" "target_work (t\<lparr>tg_initiator := tx0\<rparr>) = target_work t"
  "target_work (t\<lparr>tg_sent := s\<rparr>) = target_work t" "target_work (t\<lparr>tg_page := p\<rparr>) = target_work t"
  "target_work (tg_send tx r t) = target_work t" "target_work (prune_waiters gone t) = target_work t"
  by (simp_all add: target_work_def prune_waiters_def)

lemma target_work_queue: "target_work (tg_queue ev t) = target_work t + event_weight ev"
  by (simp add: target_work_def)

lemma finished_work: "navigation_work (on_http_request_finished r m) = navigation_work m"
  by (simp add: on_http_request_finished_def navigation_work_def split: option.split)

lemma network_event_work: "target_work (on_network_event ev t) \<le> target_work t + 1"
  by (cases ev) (simp_all add: target_work_def finished_work)

lemma frame_event_work: "target_work (on_frame_event ev t) = target_work t + 1"
  by (cases ev) (simp_all add: target_work_queue)

lemma network_poll_work:
  "NetworkManager_poll (tg_network t) = (r, m) \<Longrightarrow>
    target_work (t\<lparr>tg_network := m\<rparr>) + (if r = None then 0 else 2) \<le> target_work t"
  by (auto simp: NetworkManager_poll_def target_work_def split: list.splits)

lemma frame_poll_work:
  "FrameManager_poll now clock (tg_frames t) = (r, m) \<Longrightarrow>
    target_work (t\<lparr>tg_frames := m\<rparr>) + (if r = None then 0 else 2) \<le> target_work t"
proof (cases r)
  case None
  assume "FrameManager_poll now clock (tg_frames t) = (r, m)"
  with None show ?thesis
    by (auto simp: FrameManager_poll_def target_work_def navigation_work_def Let_def
        split: option.splits prod.splits if_splits list.splits)
next
  case (Some ev)
  assume "FrameManager_poll now clock (tg_frames t) = (r, m)"
  with poll_navigation_work [of now clock "tg_frames t" ev m] Some show ?thesis by (simp add: target_work_def)
qed

lemma drain_network_work: "target_work (drain_network t) \<le> target_work t"
proof (induction t rule: drain_network.induct)
  case (1 t)
  obtain r m where poll: "NetworkManager_poll (tg_network t) = (r, m)" by fastforce
  show ?case
  proof (cases r)
    case None
    then show ?thesis using network_poll_work [OF poll] by (subst drain_network.simps) (simp add: poll)
  next
    case (Some ev)
    then show ?thesis using network_poll_work [OF poll] network_event_work [of ev "t\<lparr>tg_network := m\<rparr>"]
        1 [OF poll [symmetric] Some refl]
      by (subst drain_network.simps) (auto simp: poll Let_def)
  qed
qed

lemma drain_frames_work: "target_work (drain_frames now clock t) \<le> target_work t"
proof (induction now clock t rule: drain_frames.induct)
  case (1 now clock t)
  obtain r m where poll: "FrameManager_poll now (clock 0) (tg_frames t) = (r, m)" by fastforce
  show ?case
  proof (cases r)
    case None
    then show ?thesis using frame_poll_work [OF poll] by (subst drain_frames.simps) (simp add: poll)
  next
    case (Some ev)
    then show ?thesis using frame_poll_work [OF poll] frame_event_work [of ev "t\<lparr>tg_frames := m\<rparr>"]
        1 [OF poll [symmetric] Some refl]
      by (subst drain_frames.simps) (auto simp: poll Let_def)
  qed
qed

lemma drained_work: "target_work (drained now clock t) \<le> target_work t"
  unfolding drained_def by (meson drain_frames_work drain_network_work order.trans)

lemma fire_main_work [simp]: "target_work (fire_main fire_waiters t) = target_work t"
  by (simp add: target_work_def)

lemma work_popped:
  "tg_queued t = ev # evs \<Longrightarrow> target_work (t\<lparr>tg_queued := evs\<rparr>) + event_weight ev = target_work t"
  by (simp add: target_work_def)

lemma advance_loop_work:
  assumes "advance_loop now clock t = (Some ev, t')"
  shows "tg_init t' = tg_init t \<and> target_work t' + event_weight ev \<le> target_work t"
proof (cases "tg_queued t")
  case Nil
  let ?u = "drained now clock (fire_main fire_waiters t)"
  obtain evs where u: "tg_queued ?u = ev # evs" "t' = (fire_main fire_waiters ?u)\<lparr>tg_queued := evs\<rparr>"
    using assms Nil by (auto simp: advance_loop_passes two_passes_def Let_def split: if_splits list.splits)
  then show ?thesis using work_popped [of "fire_main fire_waiters ?u" ev evs] drained_work [of now clock "fire_main fire_waiters t"]
    by simp
next
  case (Cons e evs)
  then show ?thesis using assms work_popped [of "fire_main fire_waiters t" e evs]
    by (auto simp: advance_loop_passes two_passes_def split: if_splits)
qed

definition init_measure :: "target_init \<Rightarrow> nat \<times> nat" where
  "init_measure i = (init_rank i, chain_left i)"

definition init_drops :: "target \<Rightarrow> target \<Rightarrow> bool" where
  "init_drops t t' \<longleftrightarrow> (init_measure (tg_init t'), init_measure (tg_init t)) \<in> less_than <*lex*> less_than"

lemma init_drops_iff: "init_drops t t' \<longleftrightarrow> init_rank (tg_init t') < init_rank (tg_init t) \<or>
    init_rank (tg_init t') = init_rank (tg_init t) \<and> chain_left (tg_init t') < chain_left (tg_init t)"
  by (auto simp: init_drops_def init_measure_def)

lemma init_drops_trans: "init_drops t t' \<Longrightarrow> init_drops t' t'' \<Longrightarrow> init_drops t t''"
  by (auto simp: init_drops_iff)

lemma init_drops_keep: "init_drops t t' \<Longrightarrow> tg_init t'' = tg_init t' \<Longrightarrow> init_drops t t''"
  by (simp add: init_drops_iff)

lemma chain_poll_left:
  "CommandChain_poll now c = (Ready (Some r), c') \<Longrightarrow>
    (\<exists>e. r = Inl e) \<or> length (cc_cmds c') < length (cc_cmds c) \<and> cc_waiting c' \<noteq> None \<and> cc_cmds c \<noteq> []"
  by (auto simp: CommandChain_poll_def split: option.splits list.splits if_splits)

lemma advance_state_drops:
  assumes "advance_state now mk c next t = (Return (Some ev), t')" "tg_init t = mk c"
    and "mk \<in> {InitializingFrame, InitializingNetwork, InitializingPage, InitializingEmulation}"
  shows "init_drops t t'"
proof -
  obtain r c' where poll: "CommandChain_poll now c = (r, c')" by fastforce
  obtain x where r: "r = Ready (Some x)"
    using assms(1) by (auto simp: advance_state_def poll Let_def split: poll.splits option.splits)
  show ?thesis
  proof (cases x)
    case (Inl e)
    have "tg_init t' = Closing"
      using assms(1) by (auto simp: advance_state_def poll r Inl on_initialization_failed_def Let_def)
    then show ?thesis using assms(2,3) by (auto simp: init_drops_iff split: if_splits)
  next
    case (Inr cmd)
    have "tg_init t' = mk c'" using assms(1) by (auto simp: advance_state_def poll r Inr Let_def)
    then show ?thesis using assms(2,3) chain_poll_left [of now c x c'] poll r Inr by (auto simp: init_drops_iff)
  qed
qed

lemma init_step_drops:
  assumes "target_init_step env now t = (Return (Some ev), t')"
  shows "init_drops t t'"
proof (cases "tg_init t")
  case AttachToTarget
  have "init_rank (InitializingFrame c) < 6" for c by simp
  then show ?thesis using assms AttachToTarget by (auto simp: target_init_step_def init_drops_iff Let_def)
next
  case (InitializingFrame c)
  then show ?thesis using assms
    by (intro advance_state_drops [where mk = InitializingFrame and c = c]) (auto simp: target_init_step_def split: if_splits)
next
  case (InitializingNetwork c)
  then show ?thesis using assms
    by (intro advance_state_drops [where mk = InitializingNetwork and c = c]) (auto simp: target_init_step_def)
next
  case (InitializingPage c)
  then show ?thesis using assms
    by (intro advance_state_drops [where mk = InitializingPage and c = c]) (auto simp: target_init_step_def)
next
  case (InitializingEmulation c)
  then show ?thesis using assms
    by (intro advance_state_drops [where mk = InitializingEmulation and c = c]) (auto simp: target_init_step_def)
qed (use assms in \<open>auto simp: target_init_step_def\<close>)

lemma deliver_page_work: "target_work (deliver_page t) = target_work t" "tg_init (deliver_page t) = tg_init t"
  by (auto simp: deliver_page_def get_or_create_page_def Target_create_page_def Let_def target_work_def
      split: option.split)

lemma init_step_proceeds:
  "target_init_step env now t = (Proceed, t') \<Longrightarrow> tg_init t' = tg_init t \<and> target_work t' = target_work t"
  by (auto simp: target_init_step_def deliver_page_work advance_state_def Let_def
      split: target_init.splits if_splits prod.splits poll.splits option.splits sum.splits)

lemma run_init_drops:
  "case run_init env now t of
     (Some (Some ev), t') \<Rightarrow> init_drops t t'
   | (Some None, t') \<Rightarrow> True
   | (None, t') \<Rightarrow> init_drops t t' \<or> tg_init t' = tg_init t \<and> target_work t' = target_work t"
proof (induction env now t rule: run_init.induct)
  case (1 env now t)
  obtain out t1 where step: "target_init_step env now t = (out, t1)" by fastforce
  show ?case
  proof (cases out)
    case (Return r)
    then show ?thesis using init_step_drops [of env now t _ t1] step
      by (subst run_init.simps) (auto split: option.split)
  next
    case Restart
    have drop: "init_drops t t1" using restart_rank [of env now t t1] step Restart by (simp add: init_drops_iff)
    then show ?thesis using 1 [OF step [symmetric] Restart]
      by (subst run_init.simps)
        (auto simp: step Restart split: prod.splits option.splits intro: init_drops_trans [OF drop] init_drops_keep [OF drop])
  next
    case Proceed
    then show ?thesis using init_step_proceeds [of env now t t1] step by (subst run_init.simps) simp
  qed
qed

lemma pruned_init: "tg_init (prune_waiters gone t) = tg_init t"
  by (simp add: prune_waiters_def)

lemma advance_progress:
  assumes "Target_advance env gone now clock t = (Some ev, t')"
  shows "init_drops t t' \<or> tg_init t' = tg_init t \<and> target_work t' + event_weight ev \<le> target_work t"
proof -
  obtain r t1 where run: "run_init env now t = (r, t1)" by fastforce
  show ?thesis
  proof (cases r)
    case None
    then have "advance_loop now clock (prune_waiters gone t1) = (Some ev, t')"
      using assms run by (auto simp: Target_advance_def split: if_splits)
    from advance_loop_work [OF this] have "tg_init t' = tg_init t1 \<and> target_work t' + event_weight ev \<le> target_work t1"
      by (simp add: pruned_init)
    then show ?thesis using run_init_drops [of t env now] run None by (auto simp: init_drops_iff)
  next
    case (Some r')
    then have "r' = Some ev" "t' = t1"
      using assms run by (auto simp: Target_advance_def split: if_splits)
    then show ?thesis using run_init_drops [of t env now] run Some by simp
  qed
qed

lemma page_url_work: "length (nm_queued_events (set_page_url x u m)) \<le> length (nm_queued_events m) + 1"
  by (simp add: set_page_url_def emit_request_policy_def queue_event_def)

lemma goto_work: "target_work (Target_goto env req t) \<le> 6 + target_work t"
proof -
  have nav: "navigation_work (FrameManager_goto req m) \<le> navigation_work m + 2" for m
    by (auto simp: FrameManager_goto_def navigate_frame_def navigation_work_def Let_def split: option.split)
  have frames: "target_work (map_frames (FrameManager_goto req) u) \<le> target_work u + 4" for u
    using nav [of "tg_frames u"] by (simp add: target_work_def)
  have "target_work (map_network (set_page_url x u) v) \<le> target_work v + 2" for x u v
    using page_url_work [of x u "tg_network v"] by (simp add: target_work_def)
  moreover have cleared: "target_work (map_network clear_target_domain v) = target_work v" for v
    by (simp add: target_work_def clear_target_domain_def)
  ultimately have network: "target_work (map_network (set_page_url x u) (map_network clear_target_domain v)) \<le> target_work v + 2" for x u v
    by metis
  let ?t = "if has_target_domain (tg_network t)
     then case request_url (fn_req req) of None \<Rightarrow> map_network clear_target_domain t
       | Some url \<Rightarrow> map_network (set_page_url (te_externals env) url) (map_network clear_target_domain t)
     else t"
  have "target_work ?t \<le> target_work t + 2"
    using network [of "te_externals env" _ t] cleared [of t] by (simp split: option.split)
  moreover have "Target_goto env req t = map_frames (FrameManager_goto req) ?t"
    by (simp add: Target_goto_def Let_def split: option.split)
  ultimately show ?thesis using frames [of ?t] by simp
qed

lemma run_command_target: "fst (run_command env now msg t st) = (if is_navigation msg
    then Target_goto (he_target env) (FrameRequestedNavigation_new (hd_next_navigation_id (fst st))
      (fst (CommandMessage_split msg)) (hc_request_timeout (hd_config (fst st)))) t else t)"
  by (simp add: run_command_def Let_def next_navigation_id_def split: prod.split)

lemma run_event_work: "target_work (fst (run_event env now ev t st)) + 1 \<le> target_work t + event_weight ev"
  by (cases ev) (simp_all add: run_command_target goto_work)

lemma run_event_init: "tg_init (fst (run_event env now ev t st)) = tg_init t"
  by (cases ev) (simp_all add: run_command_target)

text \<open>\<open>rd n\<close> is the reading of the n-th call of \<open>advance\<close>.\<close>

function advance_target :: "handler_env \<Rightarrow> instant \<Rightarrow> (nat \<Rightarrow> reading) \<Rightarrow> target \<Rightarrow> handler \<times> ws_writer
    \<Rightarrow> target \<times> handler \<times> ws_writer" where
  "advance_target env now rd t st =
     (case Target_advance (he_target env) (rd_gone (rd 0)) now (rd_clock (rd 0)) t of
        (None, t) \<Rightarrow> (t, st)
      | (Some ev, t) \<Rightarrow>
          let (t, st) = run_event env now ev t st
          in advance_target env now (\<lambda>n. rd (Suc n)) t st)"
  by pat_completeness auto

lemma advance_target_decreases:
  assumes "Target_advance (he_target env) gone now clock t = (Some ev, t')" "run_event env now ev t' st = (t'', st')"
  shows "init_rank (tg_init t'') < init_rank (tg_init t) \<or> init_rank (tg_init t'') = init_rank (tg_init t) \<and>
    (chain_left (tg_init t'') < chain_left (tg_init t) \<or> chain_left (tg_init t'') = chain_left (tg_init t) \<and>
      target_work t'' < target_work t)"
  using advance_progress [OF assms(1)] run_event_work [of env now ev t' st] run_event_init [of env now ev t' st] assms(2)
  by (auto simp: init_drops_iff)

termination advance_target
proof (relation "inv_image (less_than <*lex*> less_than <*lex*> less_than)
    (\<lambda>(env, now, rd, t, st). (init_rank (tg_init t), chain_left (tg_init t), target_work t))", goal_cases)
  case 1
  show ?case by (intro wf_inv_image wf_lex_prod wf_less_than)
qed (auto dest!: sym [of "(_, _)" "Target_advance _ _ _ _ _"] sym [of "(_, _)" "run_event _ _ _ _ _"] dest: advance_target_decreases)

declare advance_target.simps [simp del]

section \<open>The messages of a page\<close>

fun page_messages :: "(nat \<Rightarrow> listener_id) \<Rightarrow> target_message list \<Rightarrow> target \<Rightarrow> target" where
  "page_messages lid [] t = t"
| "page_messages lid (msg # msgs) t = page_messages (\<lambda>n. lid (Suc n)) msgs (on_page_message (lid 0) msg t)"

text \<open>At most the budget is taken from the channel at once, then handled in order.\<close>

definition receive_page :: "(nat \<Rightarrow> listener_id) \<Rightarrow> target \<Rightarrow> target" where
  "receive_page lid t =
     (case tg_page t of
        None \<Rightarrow> t
      | Some p \<Rightarrow> page_messages lid (take PER_TARGET_DRAIN_BUDGET (ph_rx p))
          (t\<lparr>tg_page := Some (p\<lparr>ph_rx := drop PER_TARGET_DRAIN_BUDGET (ph_rx p)\<rparr>)\<rparr>))"

section \<open>The browser messages in \<open>run\<close>\<close>

definition create_page_async :: "create_target_params \<Rightarrow> sender \<Rightarrow> instant \<Rightarrow> handler \<times> ws_writer \<Rightarrow> handler \<times> ws_writer" where
  "create_page_async params tx now st =
     (if creatable_url (ct_url params)
      then (case ws_submit ''Target.createTarget'' None (ct_value params) (snd st) of
          (Inr c, w) \<Rightarrow> (await c (PendingCreateTarget tx) ''Target.createTarget'' now (fst st), w)
        | (Inl _, w) \<Rightarrow>
            (hd_send tx (AnswerPage (Inl (CdpError_msg ''WS command channel full or closed''))) (fst st), w))
      else (hd_send tx (AnswerPage (Inl NotFound)) (fst st), snd st))"

text \<open>The other messages are handled as in the stream.\<close>

fun run_message :: "instant \<Rightarrow> listener_id \<Rightarrow> handler_message \<Rightarrow> handler \<times> ws_writer \<Rightarrow> handler \<times> ws_writer" where
  "run_message now lid (HandlerCommand cmd) st =
     submit_async (ExternalCommand (cm_sender cmd) (session_target (cm_session_id cmd) (fst st)))
       (cm_method cmd) (cm_session_id cmd) (cm_params cmd) now st"
| "run_message now lid (FetchTargets tx) st =
     submit_async (PendingGetTargets tx) (fst TARGET_PARAMS_ID) None (snd TARGET_PARAMS_ID) now st"
| "run_message now lid (CloseBrowser tx) st =
     submit_async (PendingCloseBrowser tx) (fst CLOSE_PARAMS_ID) None (snd CLOSE_PARAMS_ID) now st"
| "run_message now lid (CreatePage params tx) st =
     create_page_async params tx now (note_context params (fst st), snd st)"
| "run_message now lid msg st = (snd (snd (browser_message now now lid msg (fst st))), snd st)"

section \<open>The loop\<close>

text \<open>The branch of \<open>select!\<close> that is taken.\<close>

datatype select_input =
    FromBrowser "handler_message option"
  | FromSocket "(cdp_error + cdp_message) option"
  | PageWake
  | EvictTick
  | WriterDone "cdp_error + unit"
  | WriterPanicked string

text \<open>What one turn finds: the time, the messages that have arrived from the pages, the readings of the
  targets, the subscribers still there, the branch taken with the clock and the listener id it draws.\<close>

record run_turn =
  rt_now :: instant
  rt_arrived :: "target_id \<Rightarrow> target_message list"
  rt_lid :: "target_id \<Rightarrow> nat \<Rightarrow> listener_id"
  rt_reading :: "target_id \<Rightarrow> nat \<Rightarrow> reading"
  rt_alive :: "channel \<Rightarrow> bool"
  rt_select :: select_input
  rt_clock :: instant
  rt_listener :: listener_id

definition run_drive :: "handler_env \<Rightarrow> run_turn \<Rightarrow> target_id \<Rightarrow> target \<Rightarrow> handler \<times> ws_writer
    \<Rightarrow> target \<times> handler \<times> ws_writer" where
  "run_drive env rt i t st =
     (let t = receive_page (rt_lid rt i) (fold page_sends (rt_arrived rt i) t);
          (t, h, w) = advance_target env (rt_now rt) (rt_reading rt i) t st;
          (t, h) = flush_target (rt_alive rt) t h
      in (t, h, w))"

fun run_targets :: "(target_id \<Rightarrow> target \<Rightarrow> handler \<times> ws_writer \<Rightarrow> target \<times> handler \<times> ws_writer) \<Rightarrow> nat
    \<Rightarrow> handler \<times> ws_writer \<Rightarrow> handler \<times> ws_writer" where
  "run_targets drive 0 st = st"
| "run_targets drive (Suc n) st =
     (let (i, ids) = swap_remove n (hd_target_ids (fst st));
          h = (fst st)\<lparr>hd_target_ids := ids\<rparr>
      in case hm_get (hd_targets h) i of
           None \<Rightarrow> run_targets drive n (h, snd st)
         | Some t \<Rightarrow>
             let (t, h, w) = drive i t (h\<lparr>hd_targets := hm_remove i (hd_targets h)\<rparr>, snd st)
             in run_targets drive n
                  (h\<lparr>hd_targets := hm_insert i t (hd_targets h), hd_target_ids := hd_target_ids h @ [i]\<rparr>, w))"

definition flush_listeners :: "(channel \<Rightarrow> bool) \<Rightarrow> handler \<Rightarrow> handler" where
  "flush_listeners alive h =
     (let (sent, ls) = EventListeners_flush alive (hd_listeners h)
      in h\<lparr>hd_listeners := ls, hd_delivered := hd_delivered h @ sent\<rparr>)"

fun run_select :: "handler_env \<Rightarrow> run_turn \<Rightarrow> select_input \<Rightarrow> handler \<times> ws_writer
    \<Rightarrow> (cdp_error + unit) option \<times> handler \<times> ws_writer" where
  "run_select env rt (FromBrowser (Some msg)) st = (None, run_message (rt_now rt) (rt_listener rt) msg st)"
| "run_select env rt (FromBrowser None) st = (Some (Inr ()), st)"
| "run_select env rt (FromSocket (Some (Inr (WsResponse r)))) st = (None, on_response env r (fst st), snd st)"
| "run_select env rt (FromSocket (Some (Inr (WsEvent ev)))) st = (None, on_event env (rt_clock rt) ev (fst st), snd st)"
| "run_select env rt (FromSocket (Some (Inl e))) st =
     (Some (if is_disconnect e then Inr () else Inl e), st)"
| "run_select env rt (FromSocket None) st = (Some (Inr ()), st)"
| "run_select env rt PageWake st = (None, st)"
| "run_select env rt EvictTick st = (None, evict_stale (rt_now rt) (fst st), snd st)"
| "run_select env rt (WriterDone r) st = (Some r, st)"
| "run_select env rt (WriterPanicked e) st = (Some (Inl (CdpError_msg (''WS writer panicked: '' @ e))), st)"

definition run_once :: "handler_env \<Rightarrow> run_turn \<Rightarrow> handler \<times> ws_writer \<Rightarrow> (cdp_error + unit) option \<times> handler \<times> ws_writer" where
  "run_once env rt st =
     (let (h, w) = run_targets (run_drive env rt) (length (hd_target_ids (fst st))) st;
          h = block_exhausted (flush_listeners (rt_alive rt) h)
      in if hd_closing h then (Some (Inr ()), h, w) else run_select env rt (rt_select rt) (h, w))"

text \<open>\<open>None\<close>: still running after the turns given.\<close>

fun run_loop :: "handler_env \<Rightarrow> run_turn list \<Rightarrow> handler \<times> ws_writer \<Rightarrow> (cdp_error + unit) option \<times> handler \<times> ws_writer" where
  "run_loop env [] st = (None, st)"
| "run_loop env (rt # rts) st =
     (case run_once env rt st of
        (Some r, st) \<Rightarrow> (Some r, st)
      | (None, st) \<Rightarrow> run_loop env rts st)"

definition Handler_run :: "handler_env \<Rightarrow> run_turn list \<Rightarrow> handler \<Rightarrow> (cdp_error + unit) option \<times> handler \<times> ws_writer option" where
  "Handler_run env rts h =
     (case hd_conn h of
        None \<Rightarrow> (Some (Inl (CdpError_msg ''Handler::run() called with no connection'')), h, None)
      | Some c \<Rightarrow>
          let (r, h, w) = run_loop env rts (h\<lparr>hd_conn := None\<rparr>, into_async c)
          in (r, h, Some w))"

end
