(* ===== verification/Handler_Callers.thy ===== *)
theory Handler_Callers
  imports Refine Handler_Run Target_Waiters
begin

text \<open>
  The callers of the handler, followed through all of its parts: a command travels from the channel of
  a page or of the browser handle through the queue of its target into the table of pending commands
  or of navigations, and from there its sender is answered. On the way it is never doubled.
\<close>

section \<open>Where a sender can be\<close>

fun request_owes :: "sender \<Rightarrow> pending_request \<Rightarrow> nat" where
  "request_owes tx (PendingCreateTarget s) = of_bool (s = tx)"
| "request_owes tx (PendingGetTargets s) = of_bool (s = tx)"
| "request_owes tx (PendingNavigate _) = 0"
| "request_owes tx (ExternalCommand s _) = of_bool (s = tx)"
| "request_owes tx (InternalCommand _) = 0"
| "request_owes tx (PendingCloseBrowser s) = of_bool (s = tx)"

fun navigation_owes :: "sender \<Rightarrow> navigation_request \<Rightarrow> nat" where
  "navigation_owes tx (Navigate n) = of_bool (np_tx n = tx)"

fun browser_owes :: "sender \<Rightarrow> handler_message \<Rightarrow> nat" where
  "browser_owes tx (CreatePage _ s) = of_bool (s = tx)"
| "browser_owes tx (FetchTargets s) = of_bool (s = tx)"
| "browser_owes tx (InsertContext _) = 0"
| "browser_owes tx (DisposeContext _) = 0"
| "browser_owes tx (GetPages s) = of_bool (s = tx)"
| "browser_owes tx (HandlerCommand cmd) = of_bool (cm_sender cmd = tx)"
| "browser_owes tx (GetPage _ s) = of_bool (s = tx)"
| "browser_owes tx (HandlerAddEventListener _) = 0"
| "browser_owes tx (CloseBrowser s) = of_bool (s = tx)"

definition page_owes :: "sender \<Rightarrow> target_message \<Rightarrow> nat" where
  "page_owes tx msg = (case msg of MsgCommand cmd \<Rightarrow> of_bool (cm_sender cmd = tx) | _ \<Rightarrow> 0)"

definition event_owes :: "sender \<Rightarrow> target_event \<Rightarrow> nat" where
  "event_owes tx ev = (case ev of TargetCommand cmd \<Rightarrow> of_bool (cm_sender cmd = tx) | _ \<Rightarrow> 0)"

definition target_owes :: "sender \<Rightarrow> target \<Rightarrow> nat" where
  "target_owes tx t = sum_list (map (event_owes tx) (tg_queued t)) +
     (case tg_page t of None \<Rightarrow> 0 | Some p \<Rightarrow> sum_list (map (page_owes tx) (ph_rx p)))"

text \<open>What the handler owes \<open>tx\<close>, apart from its targets and with them; what it has answered.\<close>

definition tables_owe :: "sender \<Rightarrow> handler \<Rightarrow> nat" where
  "tables_owe tx h = hm_sum (\<lambda>(req, _, _). request_owes tx req) (hd_pending h) +
     hm_sum (navigation_owes tx) (hd_navigations h) + sum_list (map (browser_owes tx) (hd_inbox h))"

definition owed :: "sender \<Rightarrow> handler \<Rightarrow> nat" where
  "owed tx h = tables_owe tx h + hm_sum (target_owes tx) (hd_targets h)"

definition answers :: "sender \<Rightarrow> handler \<Rightarrow> nat" where
  "answers tx h = count_list (map fst (hd_sent h)) tx"

definition front :: "sender \<Rightarrow> handler \<Rightarrow> nat" where
  "front tx h = answers tx h + tables_owe tx h"

definition accounted :: "sender \<Rightarrow> handler \<Rightarrow> nat" where
  "accounted tx h = front tx h + hm_sum (target_owes tx) (hd_targets h)"

lemma accounted_owed: "accounted tx h = answers tx h + owed tx h"
  by (simp add: accounted_def front_def owed_def)

section \<open>Targets\<close>

lemma owes_simps [simp]:
  "event_owes tx (TargetRequest r) = 0" "event_owes tx (TargetNavigationRequest i r) = 0"
  "event_owes tx (TargetNavigationResult x) = 0" "event_owes tx (TargetBytesConsumed n) = 0"
  "event_owes tx (TargetCommand cmd) = of_bool (cm_sender cmd = tx)"
  by (simp_all add: event_owes_def)

lemma target_owes_front: "same_front t t' \<Longrightarrow> tg_queued t' = tg_queued t \<Longrightarrow> target_owes tx t' = target_owes tx t"
  by (simp add: same_front_def target_owes_def)

lemma target_owes_fields [simp]:
  "target_owes tx (t\<lparr>tg_init := i\<rparr>) = target_owes tx t" "target_owes tx (t\<lparr>tg_initiator := x\<rparr>) = target_owes tx t"
  "target_owes tx (t\<lparr>tg_session_id := s\<rparr>) = target_owes tx t" "target_owes tx (t\<lparr>tg_listeners := ls\<rparr>) = target_owes tx t"
  "target_owes tx (t\<lparr>tg_frames := fm\<rparr>) = target_owes tx t" "target_owes tx (t\<lparr>tg_network := nm\<rparr>) = target_owes tx t"
  "target_owes tx (t\<lparr>tg_emulation := em\<rparr>) = target_owes tx t"
  "target_owes tx (tg_send s1 r t) = target_owes tx t" "target_owes tx (prune_waiters gone t) = target_owes tx t"
  "target_owes tx (map_network f t) = target_owes tx t" "target_owes tx (map_frames g t) = target_owes tx t"
  by (simp_all add: target_owes_def prune_waiters_def)

lemma target_owes_queue [simp]: "target_owes tx (tg_queue ev t) = target_owes tx t + event_owes tx ev"
  by (simp add: target_owes_def)

lemma owes_created [simp]: "target_owes tx (snd (get_or_create_page t)) = target_owes tx t"
  by (simp add: get_or_create_page_def Target_create_page_def PageHandle_with_capacity_def target_owes_def Let_def
      split: option.split)

lemma owes_goto [simp]: "target_owes tx (Target_goto env req t) = target_owes tx t"
  by (simp add: Target_goto_def Let_def split: option.split)

lemma owes_response [simp]: "target_owes tx (Target_on_response env resp m t) = target_owes tx t"
  by (simp add: Target_on_response_def Let_def split: option.split)

lemma owes_event [simp]: "target_owes tx (Target_on_event env clock ev t) = target_owes tx t"
proof -
  have "target_owes tx (dispatch_event env clock e t) = target_owes tx t" for e
    by (cases e) (simp_all add: on_attached_child_def Let_def)
  then show ?thesis by (simp add: Target_on_event_def Let_def)
qed

lemma owes_new [simp]: "target_owes tx (Target_new env info config ctx) = 0"
  by (simp add: Target_new_def target_owes_def)

lemma owes_init: "target_owes tx (snd (run_init env now t)) = target_owes tx t"
proof (rule run_init_keeps)
  fix t
  have next1: "target_owes tx (after_frame_commands env t) = target_owes tx t" for t
    by (simp add: after_frame_commands_def enter_network_def Let_def case_prod_beta split: option.split)
  have next2: "target_owes tx (enter_emulation t) = target_owes tx t" for t
    by (simp add: enter_emulation_def case_prod_beta split: option.split)
  have "target_owes tx (snd (advance_state now mk c nxt t)) = target_owes tx t"
    if "\<And>t. target_owes tx (nxt t) = target_owes tx t" for mk c nxt t
    using that by (simp add: advance_state_def on_initialization_failed_def Let_def case_prod_beta
        split: poll.split option.split sum.split)
  moreover have "target_owes tx (deliver_page t) = target_owes tx t" for t
    by (simp add: deliver_page_def case_prod_beta split: option.split)
  ultimately show "target_owes tx (snd (target_init_step env now t)) = target_owes tx t"
    by (simp add: target_init_step_def next1 next2 enter_page_def Let_def split: target_init.split)
qed

lemma owes_init_event: "run_init env now t = (Some (Some ev), t') \<Longrightarrow> event_owes tx ev = 0"
proof (induction env now t rule: run_init.induct)
  case (1 env now t)
  obtain o1 t1 where step: "target_init_step env now t = (o1, t1)" by fastforce
  have adv: "event_owes tx e = 0" if "advance_state now mk c nxt u = (Return (Some e), u')" for mk c nxt u u' e
    using that by (auto simp: advance_state_def on_initialization_failed_def Let_def
        split: prod.splits poll.splits option.splits sum.splits)
  have "event_owes tx e = 0" if "o1 = Return (Some e)" for e
    using step that adv by (auto simp: target_init_step_def Let_def split: target_init.splits if_splits)
  then show ?case using 1 step by (cases o1) (auto simp: run_init.simps [of env now t] split: option.splits)
qed

text \<open>The managers only put their own requests and results into the queue.\<close>

lemma drained_owes: "target_owes tx (drained now clock t) = target_owes tx t"
proof -
  let ?R = "\<lambda>a b. target_owes tx b = target_owes tx a"
  have "?R t (drain_network t)"
  proof (rule drain_network_rule)
    show "?R t (on_network_event ev t)" for ev t by (cases ev) simp_all
  qed simp_all
  moreover have "?R u (drain_frames now clock u)" for u
  proof (rule drain_frames_rule)
    show "?R t (on_frame_event ev t)" for ev t by (cases ev) simp_all
  qed simp_all
  ultimately show ?thesis by (simp add: drained_def)
qed

lemma fire_main_owes:
  "target_owes tx (fire_main fire_waiters t) = target_owes tx t"
  "target_owes tx (fire_main (fire_waiters_bounded n) t) = target_owes tx t"
  by (simp_all add: target_owes_def)

lemma message_owes:
  "sum_list (map (event_owes tx) (tg_queued (handle_message lid msg t))) =
     sum_list (map (event_owes tx) (tg_queued t)) + page_owes tx msg"
  by (cases msg) (simp_all add: page_owes_def Let_def split: option.split)

lemma messages_owe:
  "sum_list (map (event_owes tx) (tg_queued (handle_messages lid msgs t))) \<le>
     sum_list (map (event_owes tx) (tg_queued t)) + sum_list (map (page_owes tx) msgs)"
proof (induction lid msgs t rule: handle_messages.induct)
  case (2 lid msg msgs t)
  then show ?case by (simp add: message_owes add.assoc)
qed simp

lemma receive_owes: "target_owes tx (receive_messages lid t) \<le> target_owes tx t"
proof (cases "tg_page t")
  case (Some p)
  let ?t = "t\<lparr>tg_page := Some (p\<lparr>ph_rx := []\<rparr>)\<rparr>"
  show ?thesis using messages_owe [of tx lid "ph_rx p" ?t] Some
    by (simp add: receive_messages_def target_owes_def handle_messages_core)
qed (simp add: receive_messages_def)

lemma passes_owe:
  assumes fire: "\<And>t. target_owes tx (fire t) = target_owes tx t" "\<And>t. tg_queued (fire t) = tg_queued t"
    and work: "\<And>t. target_owes tx (work t) \<le> target_owes tx t"
  shows "target_owes tx (snd (two_passes fire work t)) +
    (case fst (two_passes fire work t) of None \<Rightarrow> 0 | Some ev \<Rightarrow> event_owes tx ev) \<le> target_owes tx t"
proof -
  have popped: "target_owes tx (u\<lparr>tg_queued := evs\<rparr>) + event_owes tx ev = target_owes tx u" if "tg_queued u = ev # evs" for u ev evs
    using that by (simp add: target_owes_def)
  show ?thesis
  proof (cases "tg_queued t")
    case Nil
    let ?u = "work (fire t)"
    have "target_owes tx ?u \<le> target_owes tx t" using work [of "fire t"] fire by simp
    then show ?thesis using Nil popped [of "fire ?u"] fire
      by (cases "tg_queued ?u") (auto simp: two_passes_def Let_def)
  next
    case (Cons ev evs)
    then show ?thesis using popped [of "fire t" ev evs] fire by (simp add: two_passes_def)
  qed
qed

definition event_part :: "sender \<Rightarrow> target_event option \<Rightarrow> nat" where
  "event_part tx r = (case r of None \<Rightarrow> 0 | Some ev \<Rightarrow> event_owes tx ev)"

lemma loops_owe:
  "target_owes tx (snd (poll_loop lid now clock t)) + event_part tx (fst (poll_loop lid now clock t)) \<le> target_owes tx t"
  "target_owes tx (snd (advance_loop now clock t)) + event_part tx (fst (advance_loop now clock t)) \<le> target_owes tx t"
  unfolding poll_loop_passes advance_loop_passes event_part_def
  by (rule passes_owe; simp add: fire_main_owes drained_owes receive_owes)+

lemma poll_owes:
  assumes "Target_poll env gone lid now clock t = (r, t')"
  shows "target_owes tx t' + event_part tx r \<le> target_owes tx t"
proof -
  obtain o1 t1 where run: "run_init env now t = (o1, t1)" by fastforce
  have "target_owes tx t1 = target_owes tx t" using owes_init [of tx env now t] run by simp
  then show ?thesis using assms run owes_init_event [of env now t _ t1 tx] loops_owe(1) [of tx lid now clock "prune_waiters gone t1"]
    by (auto simp: Target_poll_def event_part_def split: if_splits option.splits)
qed

lemma advance_owes:
  assumes "Target_advance env gone now clock t = (r, t')"
  shows "target_owes tx t' + event_part tx r \<le> target_owes tx t"
proof -
  obtain o1 t1 where run: "run_init env now t = (o1, t1)" by fastforce
  have "target_owes tx t1 = target_owes tx t" using owes_init [of tx env now t] run by simp
  then show ?thesis using assms run owes_init_event [of env now t _ t1 tx] loops_owe(2) [of tx now clock "prune_waiters gone t1"]
    by (auto simp: Target_advance_def event_part_def split: if_splits option.splits)
qed

section \<open>The tables of the handler\<close>

lemma front_fields [simp]:
  "front tx (h\<lparr>hd_default_context := a1\<rparr>) = front tx h" "front tx (h\<lparr>hd_contexts := a2\<rparr>) = front tx h"
  "front tx (h\<lparr>hd_target_ids := a3\<rparr>) = front tx h" "front tx (h\<lparr>hd_targets := a4\<rparr>) = front tx h"
  "front tx (h\<lparr>hd_sessions := a5\<rparr>) = front tx h" "front tx (h\<lparr>hd_conn := a6\<rparr>) = front tx h"
  "front tx (h\<lparr>hd_next_navigation_id := a7\<rparr>) = front tx h" "front tx (h\<lparr>hd_config := a8\<rparr>) = front tx h"
  "front tx (h\<lparr>hd_listeners := a9\<rparr>) = front tx h" "front tx (h\<lparr>hd_closing := b1\<rparr>) = front tx h"
  "front tx (h\<lparr>hd_remaining_bytes := b2\<rparr>) = front tx h" "front tx (h\<lparr>hd_budget_exhausted := b3\<rparr>) = front tx h"
  "front tx (h\<lparr>hd_attached_targets := b4\<rparr>) = front tx h" "front tx (h\<lparr>hd_delivered := b5\<rparr>) = front tx h"
  by (simp_all add: front_def answers_def tables_owe_def)

lemma accounted_fields [simp]:
  "accounted tx (h\<lparr>hd_default_context := a1\<rparr>) = accounted tx h" "accounted tx (h\<lparr>hd_contexts := a2\<rparr>) = accounted tx h"
  "accounted tx (h\<lparr>hd_target_ids := a3\<rparr>) = accounted tx h"
  "accounted tx (h\<lparr>hd_sessions := a5\<rparr>) = accounted tx h" "accounted tx (h\<lparr>hd_conn := a6\<rparr>) = accounted tx h"
  "accounted tx (h\<lparr>hd_next_navigation_id := a7\<rparr>) = accounted tx h" "accounted tx (h\<lparr>hd_config := a8\<rparr>) = accounted tx h"
  "accounted tx (h\<lparr>hd_listeners := a9\<rparr>) = accounted tx h" "accounted tx (h\<lparr>hd_closing := b1\<rparr>) = accounted tx h"
  "accounted tx (h\<lparr>hd_remaining_bytes := b2\<rparr>) = accounted tx h" "accounted tx (h\<lparr>hd_budget_exhausted := b3\<rparr>) = accounted tx h"
  "accounted tx (h\<lparr>hd_attached_targets := b4\<rparr>) = accounted tx h" "accounted tx (h\<lparr>hd_delivered := b5\<rparr>) = accounted tx h"
  by (simp_all add: accounted_def)

lemma front_send [simp]: "front tx (hd_send s r h) = front tx h + of_bool (s = tx)"
  by (simp add: front_def answers_def tables_owe_def hd_send_def)

lemma send_targets [simp]: "hd_targets (hd_send s r h) = hd_targets h"
  by (simp add: hd_send_def)

lemma front_await: "front tx (await c req m now h) \<le> front tx h + request_owes tx req"
  using hm_sum_insert_le [of "\<lambda>(req, _, _). request_owes tx req" c "(req, m, now)" "hd_pending h"]
  by (simp add: await_def front_def answers_def tables_owe_def)

lemma front_start: "front tx (start_navigation i s h) \<le> front tx h + of_bool (s = tx)"
  using hm_sum_insert_le [of "navigation_owes tx" i "Navigate (NavigationInProgress_new s)" "hd_navigations h"]
  by (simp add: start_navigation_def front_def answers_def tables_owe_def NavigationInProgress_new_def)

lemma keep_targets [simp]:
  "hd_targets (await c req m now h) = hd_targets h" "hd_targets (start_navigation i s h) = hd_targets h"
  "hd_targets (snd (submit_and_await req m s2 p now h)) = hd_targets h"
  by (simp_all add: await_def start_navigation_def submit_and_await_def case_prod_beta Let_def split: option.split)

lemma front_submit: "front tx (snd (submit_and_await req m s p now h)) \<le> front tx h + request_owes tx req"
proof (cases "hd_conn h")
  case (Some conn)
  then show ?thesis using front_await [of tx "fst (submit_command m s p conn)" req m now
      "h\<lparr>hd_conn := Some (snd (submit_command m s p conn))\<rparr>"]
    by (simp add: submit_and_await_def case_prod_beta)
qed (simp add: submit_and_await_def)

text \<open>Taking a pending command or a navigation out of its table.\<close>

lemma front_take_pending:
  "hm_get (hd_pending h) c = Some (req, m, since) \<Longrightarrow>
    front tx (h\<lparr>hd_pending := hm_remove c (hd_pending h)\<rparr>) + request_owes tx req = front tx h"
  using hm_sum_take [of "hd_pending h" c "(req, m, since)" "\<lambda>(req, _, _). request_owes tx req"]
  by (simp add: front_def answers_def tables_owe_def)

lemma front_take_navigation:
  "hm_get (hd_navigations h) i = Some (Navigate n) \<Longrightarrow>
    front tx (h\<lparr>hd_navigations := hm_remove i (hd_navigations h)\<rparr>) + of_bool (np_tx n = tx) = front tx h"
  using hm_sum_take [of "hd_navigations h" i "Navigate n" "navigation_owes tx"]
  by (simp add: front_def answers_def tables_owe_def)

lemma front_put_navigation:
  "front tx (h\<lparr>hd_navigations := hm_insert i (Navigate n) (hd_navigations h)\<rparr>) \<le> front tx h + of_bool (np_tx n = tx)"
  using hm_sum_insert_le [of "navigation_owes tx" i "Navigate n" "hd_navigations h"]
  by (simp add: front_def answers_def tables_owe_def)

lemma front_reinsert:
  assumes "hm_get (hd_navigations h) i = Some (Navigate n)" "np_tx n' = np_tx n"
  shows "front tx (h\<lparr>hd_navigations := hm_insert i (Navigate n') (hm_remove i (hd_navigations h))\<rparr>) \<le> front tx h"
  using front_take_navigation [OF assms(1), of tx] assms(2)
    front_put_navigation [of tx i n' "h\<lparr>hd_navigations := hm_remove i (hd_navigations h)\<rparr>"] by simp

lemma front_response: "front tx (on_navigation_response i r h) \<le> front tx h"
proof (cases "hm_get (hd_navigations h) i")
  case (Some nr)
  then obtain n where n: "hm_get (hd_navigations h) i = Some (Navigate n)" by (cases nr) simp
  then show ?thesis using front_take_navigation [OF n, of tx] front_reinsert [OF n, of "set_response r n" tx]
    by (simp add: on_navigation_response_def set_response_def Let_def)
qed (simp add: on_navigation_response_def)

lemma front_lifecycle: "front tx (on_navigation_lifecycle_completed res h) \<le> front tx h"
proof (cases res)
  case (Inl err)
  show ?thesis
  proof (cases "hm_get (hd_navigations h) (NavigationError_navigation_id err)")
    case (Some nr)
    then obtain n where "hm_get (hd_navigations h) (NavigationError_navigation_id err) = Some (Navigate n)" by (cases nr) simp
    then show ?thesis using Inl front_take_navigation [of h "NavigationError_navigation_id err" n tx]
      by (simp add: on_navigation_lifecycle_completed_def Let_def)
  qed (simp add: on_navigation_lifecycle_completed_def Inl)
next
  case (Inr ok)
  show ?thesis
  proof (cases "hm_get (hd_navigations h) (NavigationOk_navigation_id ok)")
    case (Some nr)
    then obtain n where n: "hm_get (hd_navigations h) (NavigationOk_navigation_id ok) = Some (Navigate n)" by (cases nr) simp
    then show ?thesis using Inr front_take_navigation [OF n, of tx] front_reinsert [OF n, of "set_navigated n" tx]
      by (simp add: on_navigation_lifecycle_completed_def set_navigated_def Let_def split: option.split)
  qed (simp add: on_navigation_lifecycle_completed_def Inr Let_def)
qed

lemma lifecycle_targets [simp]:
  "hd_targets (on_navigation_lifecycle_completed res h) = hd_targets h"
  "hd_targets (on_navigation_response i r h) = hd_targets h"
  by (simp_all add: on_navigation_lifecycle_completed_def on_navigation_response_def Let_def
      split: sum.split option.split navigation_request.split)

lemma accounted_lift: "hd_targets h' = hd_targets h \<Longrightarrow> front tx h' \<le> front tx h + n \<Longrightarrow> accounted tx h' \<le> accounted tx h + n"
  by (simp add: accounted_def)

section \<open>Commands of a page\<close>

lemma front_consume [simp]: "front tx (consume_bytes n h) = front tx h" "hd_targets (consume_bytes n h) = hd_targets h"
  by (simp_all add: consume_bytes_def Let_def split: option.split)

lemma split_sender [simp]: "snd (CommandMessage_split msg) = cm_sender msg"
  by (simp add: CommandMessage_split_def)

lemma message_front:
  "front tx (snd (on_target_message env msg now t h)) \<le> front tx h + of_bool (cm_sender msg = tx)"
  "target_owes tx (fst (on_target_message env msg now t h)) = target_owes tx t"
  "hd_targets (snd (on_target_message env msg now t h)) = hd_targets h"
proof -
  have "front tx (start_navigation i s (h\<lparr>hd_next_navigation_id := x\<rparr>)) \<le> front tx h + of_bool (s = tx)" for i s x
    using front_start [of tx i s "h\<lparr>hd_next_navigation_id := x\<rparr>"] by simp
  then show "front tx (snd (on_target_message env msg now t h)) \<le> front tx h + of_bool (cm_sender msg = tx)"
    using front_submit [of tx "ExternalCommand (cm_sender msg) (session_target (cm_session_id msg) h)" "cm_method msg" "cm_session_id msg" "cm_params msg" now h]
    by (simp add: on_target_message_def submit_external_command_def next_navigation_id_def case_prod_beta Let_def)
qed (simp_all add: on_target_message_def submit_external_command_def next_navigation_id_def case_prod_beta Let_def)

lemma stream_event_owes:
  "front tx (snd (stream_event env now ev t h)) + target_owes tx (fst (stream_event env now ev t h)) \<le>
     front tx h + target_owes tx t + event_owes tx ev"
  "hd_targets (snd (stream_event env now ev t h)) = hd_targets h"
proof -
  show "front tx (snd (stream_event env now ev t h)) + target_owes tx (fst (stream_event env now ev t h)) \<le>
     front tx h + target_owes tx t + event_owes tx ev"
  proof (cases ev)
    case (TargetRequest req)
    then show ?thesis using front_submit [of tx "InternalCommand (target_id t)" "rq_method req" "rq_session_id req" "rq_params req" now h]
      by (simp add: submit_internal_command_def case_prod_beta Let_def)
  next
    case (TargetNavigationRequest i req)
    then show ?thesis using front_submit [of tx "PendingNavigate i" "rq_method req" "rq_session_id req" "rq_params req" now h]
      by (simp add: submit_navigation_def)
  qed (use message_front(1) [of tx env _ now t h] message_front(2) [of tx env _ now t h] in \<open>simp_all add: front_lifecycle\<close>)
  show "hd_targets (snd (stream_event env now ev t h)) = hd_targets h"
    by (cases ev) (simp_all add: submit_internal_command_def submit_navigation_def message_front case_prod_beta Let_def)
qed

section \<open>The pass over the targets\<close>

text \<open>What is brought in from outside does not carry \<open>tx\<close>: a sender is handed in once.\<close>

definition quiet_reading :: "sender \<Rightarrow> (nat \<Rightarrow> reading) \<Rightarrow> bool" where
  "quiet_reading tx rd \<longleftrightarrow> (\<forall>k. list_all (\<lambda>msg. page_owes tx msg = 0) (rd_arrived (rd k)))"

lemma quiet_shift: "quiet_reading tx rd \<Longrightarrow> quiet_reading tx (\<lambda>k. rd (Suc k))"
  by (simp add: quiet_reading_def)

lemma sends_owe: "list_all (\<lambda>msg. page_owes tx msg = 0) msgs \<Longrightarrow> target_owes tx (fold page_sends msgs t) = target_owes tx t"
proof (induction msgs arbitrary: t)
  case (Cons msg msgs)
  have "target_owes tx (page_sends msg t) = target_owes tx t"
    using Cons.prems by (simp add: page_sends_def target_owes_def split: option.split)
  then show ?case using Cons by simp
qed simp

lemma poll_target_owes:
  "quiet_reading tx rd \<Longrightarrow>
    front tx (snd (snd (poll_target env now rd n t h))) + target_owes tx (fst (snd (poll_target env now rd n t h)))
      \<le> front tx h + target_owes tx t \<and>
    hd_targets (snd (snd (poll_target env now rd n t h))) = hd_targets h"
proof (induction n arbitrary: rd t h)
  case (Suc n)
  let ?t = "fold page_sends (rd_arrived (rd 0)) t"
  obtain r t1 where poll: "Target_poll (he_target env) (rd_gone (rd 0)) (rd_lid (rd 0)) now (rd_clock (rd 0)) ?t = (r, t1)"
    by fastforce
  have "target_owes tx ?t = target_owes tx t" using Suc.prems by (intro sends_owe) (simp add: quiet_reading_def)
  with poll_owes [OF poll, of tx] have owes: "target_owes tx t1 + event_part tx r \<le> target_owes tx t" by simp
  show ?case
  proof (cases r)
    case None
    then show ?thesis using owes by (simp add: poll event_part_def)
  next
    case (Some ev)
    then show ?thesis
      using owes stream_event_owes(1) [of tx env now ev t1 h] stream_event_owes(2) [of env now ev t1 h]
        Suc.IH [OF quiet_shift [OF Suc.prems], of "fst (stream_event env now ev t1 h)" "snd (stream_event env now ev t1 h)"]
      by (simp add: poll event_part_def case_prod_beta Let_def)
  qed
qed simp

lemma listeners_owe [simp]:
  "front tx (snd (poll_target_listeners alive t h)) = front tx h"
  "target_owes tx (fst (poll_target_listeners alive t h)) = target_owes tx t"
  "hd_targets (snd (poll_target_listeners alive t h)) = hd_targets h"
  "front tx (snd (flush_target alive t h)) = front tx h"
  "target_owes tx (fst (flush_target alive t h)) = target_owes tx t"
  "hd_targets (snd (flush_target alive t h)) = hd_targets h"
  by (simp_all add: poll_target_listeners_def flush_target_def case_prod_beta Let_def)

lemma drive_owes:
  assumes "quiet_reading tx (rd i)"
  shows "front tx (snd (snd (stream_drive env now rd alive i t h))) + target_owes tx (fst (snd (stream_drive env now rd alive i t h)))
      \<le> front tx h + target_owes tx t"
    "hd_targets (snd (snd (stream_drive env now rd alive i t h))) = hd_targets h"
  using poll_target_owes [OF assms, of env now PER_TARGET_DRAIN_BUDGET t h]
  by (simp_all add: stream_drive_def case_prod_beta Let_def)

text \<open>Taking a target out, driving it and putting it back.\<close>

lemma accounted_driven:
  assumes "hm_get (hd_targets h) i = Some t"
    and "front tx h' + target_owes tx t' \<le> front tx h + target_owes tx t" "hd_targets h' = hm_remove i (hd_targets h)"
  shows "accounted tx (h'\<lparr>hd_targets := hm_insert i t' (hd_targets h'), hd_target_ids := ids\<rparr>) \<le> accounted tx h"
proof -
  have "hm_remove i (hm_remove i (hd_targets h)) = hm_remove i (hd_targets h)"
    by (simp add: hm_remove_def delete_idem)
  then show ?thesis using assms(2,3) hm_sum_take [OF assms(1), of "target_owes tx"]
    by (simp add: accounted_def hm_sum_insert)
qed

lemma for_targets_total:
  assumes "\<And>i. quiet_reading tx (rd i)"
  shows "accounted tx (snd (for_targets (stream_drive env now rd alive) n h)) \<le> accounted tx h"
proof (induction n arbitrary: h)
  case (Suc n)
  obtain i ids where ids: "swap_remove n (hd_target_ids h) = (i, ids)" by fastforce
  let ?h = "h\<lparr>hd_target_ids := ids\<rparr>"
  show ?case
  proof (cases "hm_get (hd_targets h) i")
    case None
    then show ?thesis using Suc.IH [of ?h] by (simp add: ids)
  next
    case (Some t)
    let ?d = "stream_drive env now rd alive i t (?h\<lparr>hd_targets := hm_remove i (hd_targets h)\<rparr>)"
    let ?h' = "snd (snd ?d)"
    let ?h2 = "?h'\<lparr>hd_targets := hm_insert i (fst (snd ?d)) (hd_targets ?h'), hd_target_ids := hd_target_ids ?h' @ [i]\<rparr>"
    have "accounted tx ?h2 \<le> accounted tx ?h"
      using drive_owes [OF assms, where env = env and now = now and i = i and alive = alive and t = t and
          h = "?h\<lparr>hd_targets := hm_remove i (hd_targets h)\<rparr>"] Some
      by (intro accounted_driven [where t = t]) simp_all
    moreover have "for_targets (stream_drive env now rd alive) (Suc n) h =
        (fst ?d \<or> fst (for_targets (stream_drive env now rd alive) n ?h2), snd (for_targets (stream_drive env now rd alive) n ?h2))"
      using Some by (simp add: ids case_prod_beta Let_def)
    ultimately show ?thesis using Suc.IH [of ?h2] by simp
  qed
qed simp

section \<open>Responses and events\<close>

lemma accounted_send: "accounted tx (hd_send s r h) = accounted tx h + of_bool (s = tx)"
  by (simp add: accounted_def)

lemma accounted_take_pending:
  "hm_get (hd_pending h) c = Some (req, m, since) \<Longrightarrow>
    accounted tx (h\<lparr>hd_pending := hm_remove c (hd_pending h)\<rparr>) + request_owes tx req = accounted tx h"
  using front_take_pending [of h c req m since tx] by (simp add: accounted_def)

lemma accounted_modify: "(\<And>t. target_owes tx (f t) \<le> target_owes tx t) \<Longrightarrow> accounted tx (modify_target i f h) \<le> accounted tx h"
  using hm_sum_modify_le [of "target_owes tx" f i "hd_targets h"] by (simp add: accounted_def modify_target_def)

lemma accounted_map_targets: "(\<And>t. target_owes tx (f t) = target_owes tx t) \<Longrightarrow> accounted tx (map_targets f h) = accounted tx h"
  by (simp add: accounted_def map_targets_def hm_sum_map)

lemma accounted_created: "accounted tx (on_target_created env info h) \<le> accounted tx h"
proof -
  have "accounted tx (h\<lparr>hd_target_ids := ids, hd_targets := hm_insert k (Target_new e info c ctx) (hd_targets h)\<rparr>) \<le> accounted tx h"
    for ids k e c ctx
    using hm_sum_insert_le [of "target_owes tx" k "Target_new e info c ctx" "hd_targets h"] by (simp add: accounted_def)
  then show ?thesis by (simp add: on_target_created_def Let_def)
qed

lemma accounted_fold: "(\<And>x h. accounted tx (f x h) \<le> accounted tx h) \<Longrightarrow> accounted tx (fold f xs h) \<le> accounted tx h"
proof (induction xs arbitrary: h)
  case (Cons x xs)
  then show ?case using order.trans [OF Cons.IH [of "f x h"] Cons.prems [of x h]] by simp
qed simp

lemma accounted_created_fold: "accounted tx (fold (on_target_created env) infos h) \<le> accounted tx h"
  by (rule accounted_fold) (rule accounted_created)

lemma accounted_navigation: "accounted tx (on_navigation_response i r h) \<le> accounted tx h"
  using front_response [of tx i r h] by (simp add: accounted_def)

lemma owes_session [simp]: "target_owes tx (set_session_id s t) = target_owes tx t" "target_owes tx (set_initiator s1 t) = target_owes tx t"
  "target_owes tx (maybe_store_attach_session_id env m resp t) = target_owes tx t"
  by (simp_all add: set_session_id_def set_initiator_def maybe_store_attach_session_id_def split: sum.split)

lemma accounted_response: "accounted tx (on_response env resp h) \<le> accounted tx h"
proof (cases "hm_get (hd_pending h) (rs_id resp)")
  case (Some p)
  obtain req m since where p: "p = (req, m, since)" by (cases p)
  let ?h = "h\<lparr>hd_pending := hm_remove (rs_id resp) (hd_pending h)\<rparr>"
  have take: "accounted tx ?h + request_owes tx req = accounted tx h"
    using accounted_take_pending [of h "rs_id resp" req m since tx] Some p by simp
  show ?thesis
  proof (cases req)
    case (PendingCreateTarget s)
    have "accounted tx (modify_target i (set_initiator s) ?h) \<le> accounted tx ?h" for i
      by (rule accounted_modify) simp
    moreover have "accounted tx ?h \<le> accounted tx h" using take by simp
    ultimately have "accounted tx (modify_target i (set_initiator s) ?h) \<le> accounted tx h" for i
      by (rule order.trans)
    then show ?thesis using Some p take PendingCreateTarget
      by (simp add: on_response_def Let_def accounted_send split: sum.split)
  next
    case (PendingGetTargets s)
    then show ?thesis using Some p take
        accounted_created_fold [of tx env "cr_result (projr (to_command_response (he_target_infos env) resp m))" ?h]
      by (cases "to_command_response (he_target_infos env) resp m") (simp_all add: on_response_def accounted_send)
  next
    case (PendingNavigate i)
    then show ?thesis using Some p take accounted_navigation [of tx i resp ?h] by (simp add: on_response_def Let_def)
  next
    case (InternalCommand i)
    have "accounted tx (modify_target i (\<lambda>t. Target_on_response (he_target env) resp m (maybe_store_attach_session_id env m resp t)) ?h)
        \<le> accounted tx ?h"
      by (rule accounted_modify) simp
    then show ?thesis using Some p take InternalCommand by (simp add: on_response_def)
  qed (use Some p take in \<open>simp_all add: on_response_def accounted_send Let_def\<close>)
qed (simp add: on_response_def)

lemma accounted_forget: "accounted tx (forget_target i h) \<le> accounted tx h"
proof -
  have "accounted tx (h\<lparr>hd_attached_targets := x, hd_targets := hm_remove i (hd_targets h)\<rparr>) \<le> accounted tx h" for x
    using hm_sum_remove_le [of "target_owes tx" i "hd_targets h"] by (simp add: accounted_def)
  then show ?thesis by (simp add: forget_target_def Let_def split: option.split)
qed

lemma accounted_cancel: "accounted tx (cancel_call text c h) \<le> accounted tx h"
proof (cases "hm_get (hd_pending h) c")
  case (Some p)
  obtain req m since where p: "p = (req, m, since)" by (cases p)
  show ?thesis using accounted_take_pending [of h c req m since tx] Some p
    by (cases req) (simp_all add: cancel_call_def Let_def accounted_send)
qed (simp add: cancel_call_def)

lemma accounted_crash: "accounted tx (on_target_crashed env i status code h) \<le> accounted tx h"
  unfolding on_target_crashed_def by (rule order.trans [OF accounted_forget accounted_fold]) (rule accounted_cancel)

lemma accounted_time_out: "accounted tx (time_out_call c h) \<le> accounted tx h"
proof (cases "hm_get (hd_pending h) c")
  case (Some p)
  obtain req m since where p: "p = (req, m, since)" by (cases p)
  let ?h = "h\<lparr>hd_pending := hm_remove c (hd_pending h)\<rparr>"
  have take: "accounted tx ?h + request_owes tx req = accounted tx h"
    using accounted_take_pending [of h c req m since tx] Some p by simp
  have "accounted tx (hd_send (np_tx n) r (?h\<lparr>hd_navigations := hm_remove i (hd_navigations ?h)\<rparr>)) \<le> accounted tx ?h"
    if "hm_get (hd_navigations ?h) i = Some (Navigate n)" for i n r
    using front_take_navigation [OF that, of tx] by (simp add: accounted_def)
  then show ?thesis using Some p take
    by (fastforce simp: time_out_call_def Let_def accounted_send split: pending_request.split option.split navigation_request.split)
qed (simp add: time_out_call_def)

lemma accounted_evict: "accounted tx (evict_timed_out_commands now h) \<le> accounted tx h"
  by (simp add: evict_timed_out_commands_def accounted_fold accounted_time_out split: option.split)

lemma accounted_on_event: "accounted tx (on_event env clock ev h) \<le> accounted tx h"
proof -
  have own: "accounted tx (handler_event env e h) \<le> accounted tx h" for e
  proof (cases "(env, e, h)" rule: handler_event.cases)
    case (2 env s info w h')
    have "accounted tx (modify_target i (set_session_id s1) h) \<le> accounted tx h" for i s1 by (rule accounted_modify) simp
    then show ?thesis using 2 by (simp add: on_attached_to_target_def Let_def)
  next
    case (5 env s h')
    have "accounted tx (modify_target i (\<lambda>t. t\<lparr>tg_session_id := None\<rparr>) (h\<lparr>hd_sessions := x\<rparr>)) \<le> accounted tx h" for i x
      using accounted_modify [of tx "\<lambda>t. t\<lparr>tg_session_id := None\<rparr>" i "h\<lparr>hd_sessions := x\<rparr>"] by simp
    then show ?thesis using 5 by (simp add: on_detached_from_target_def split: option.split)
  qed (simp_all add: accounted_created accounted_forget on_target_destroyed_def accounted_crash)
  have "accounted tx (modify_target i (Target_on_event (he_target env) clock ev) h) \<le> accounted tx h" for i
    by (rule accounted_modify) simp
  then show ?thesis using own by (simp add: on_event_def Let_def split: option.split)
qed

lemma accounted_socket: "accounted tx (snd (handle_socket env clock ms h)) \<le> accounted tx h"
proof (induction env clock ms h rule: handle_socket.induct)
  case (2 env clock r ms h)
  then show ?case using accounted_response [of tx env r h] by (auto simp: Let_def)
next
  case (3 env clock ev ms h)
  then show ?case using accounted_on_event [of tx env "clock 0" ev h] by simp
qed simp

section \<open>Messages of the browser handle\<close>

lemma accounted_submit: "accounted tx (snd (submit_and_await req m s p now h)) \<le> accounted tx h + request_owes tx req"
  by (rule accounted_lift) (simp_all add: front_submit)

lemma accounted_external: "accounted tx (snd (submit_external_command cmd now h)) \<le> accounted tx h + of_bool (cm_sender cmd = tx)"
  using accounted_submit [of tx "ExternalCommand (cm_sender cmd) (session_target (cm_session_id cmd) h)" "cm_method cmd"
      "cm_session_id cmd" "cm_params cmd" now h]
  by (simp add: submit_external_command_def case_prod_beta Let_def)

lemma accounted_note [simp]: "accounted tx (note_context params h) = accounted tx h"
  by (simp add: note_context_def split: option.split)

lemma front_submit_ok: "\<not> fst (submit_and_await req m s p now h) \<Longrightarrow> snd (submit_and_await req m s p now h) = h"
  by (simp add: submit_and_await_def case_prod_beta split: option.splits)

lemma accounted_create_page: "accounted tx (Handler_create_page params s clock h) \<le> accounted tx h + of_bool (s = tx)"
proof -
  let ?r = "submit_and_await (PendingCreateTarget s) ''Target.createTarget'' None (ct_value params) clock h"
  have "accounted tx (snd ?r) \<le> accounted tx h + of_bool (s = tx)"
    using accounted_submit [of tx "PendingCreateTarget s"] by simp
  then show ?thesis using front_submit_ok [of "PendingCreateTarget s" "''Target.createTarget''" None "ct_value params" clock h]
    by (simp add: Handler_create_page_def accounted_send case_prod_beta)
qed

lemma accounted_pages [simp]:
  "accounted tx (snd (get_pages h)) = accounted tx h"
  using accounted_map_targets [of tx "\<lambda>t. if is_page t then snd (get_or_create_page t) else t" h]
  by (simp add: get_pages_def)

lemma accounted_page: "accounted tx (snd (get_page i h)) \<le> accounted tx h"
  using accounted_modify [of tx "\<lambda>t. snd (get_or_create_page t)" i h] by (simp add: get_page_def)

lemma accounted_browser: "accounted tx (snd (snd (browser_message now clock lid msg h))) \<le> accounted tx h + browser_owes tx msg"
proof (cases msg)
  case (CreatePage params s)
  then show ?thesis using accounted_create_page [of tx params s clock "note_context params h"] by simp
next
  case (FetchTargets s)
  then show ?thesis using accounted_submit [of tx "PendingGetTargets s"] by (simp add: submit_fetch_targets_def)
next
  case (HandlerCommand cmd)
  then show ?thesis using accounted_external [of tx cmd now h]
    by (cases "cm_sender cmd = tx") (simp_all add: case_prod_beta split: sum.split)
next
  case (GetPage i s)
  then show ?thesis using accounted_page [of tx i h] by (simp add: accounted_send case_prod_beta)
next
  case (CloseBrowser s)
  then show ?thesis using accounted_submit [of tx "PendingCloseBrowser s"] by (simp add: submit_close_def)
qed (simp_all add: accounted_send case_prod_beta insert_context_def dispose_context_def)

lemma accounted_inbox: "accounted tx (h\<lparr>hd_inbox := msgs\<rparr>) + sum_list (map (browser_owes tx) (hd_inbox h))
    = accounted tx h + sum_list (map (browser_owes tx) msgs)"
  by (simp add: accounted_def front_def answers_def tables_owe_def)

lemma accounted_drain: "accounted tx (snd (snd (snd (drain_inbox now clock lid n h)))) \<le> accounted tx h"
proof (induction n arbitrary: clock lid h)
  case (Suc n)
  show ?case
  proof (cases "hd_inbox h")
    case (Cons msg msgs)
    obtain e d h1 where msg: "browser_message now (clock 0) (lid 0) msg (h\<lparr>hd_inbox := msgs\<rparr>) = (e, d, h1)"
      using prod_cases3 by blast
    have "accounted tx h1 \<le> accounted tx h"
      using accounted_browser [of tx now "clock 0" "lid 0" msg "h\<lparr>hd_inbox := msgs\<rparr>"] accounted_inbox [of tx msgs h] msg Cons
      by simp
    then show ?thesis using order.trans [OF Suc.IH [of _ _ h1]] Cons msg
      by (simp add: case_prod_beta split: option.split)
  qed simp
qed simp

section \<open>The stream\<close>

definition quiet_turn :: "sender \<Rightarrow> turn \<Rightarrow> bool" where
  "quiet_turn tx tn \<longleftrightarrow> list_all (\<lambda>msg. browser_owes tx msg = 0) (tn_inbox tn) \<and> (\<forall>i. quiet_reading tx (tn_reading tn i))"

lemma quiet_sum: "list_all (\<lambda>msg. f msg = (0::nat)) msgs \<Longrightarrow> sum_list (map f msgs) = 0"
  by (induction msgs) auto

lemma accounted_stale: "accounted tx (evict_stale now h) \<le> accounted tx h"
  unfolding evict_stale_def by (simp add: accounted_map_targets accounted_evict)

lemma accounted_block [simp]: "accounted tx (block_exhausted h) = accounted tx h"
  by (simp add: block_exhausted_def accounted_map_targets)

lemma accounted_end_turn: "accounted tx (snd (end_turn now evict dispose hit idle h)) \<le> accounted tx h"
  by (simp add: end_turn_def accounted_stale)

lemma accounted_socket_turn: "accounted tx (snd (socket_turn env now tn dispose hit h)) \<le> accounted tx h"
proof (cases "hd_conn h")
  case (Some c)
  obtain ms why c1 where read: "read_socket (he_decode env) (tn_sink tn) WS_MSG_BUDGET
      (c\<lparr>cn_incoming := cn_incoming c @ tn_frames tn, cn_ended := tn_ended tn\<rparr>) = (ms, why, c1)"
    using prod_cases3 by blast
  let ?s = "handle_socket env (\<lambda>n. tn_clock tn (BROWSER_MSG_BUDGET + n)) ms (h\<lparr>hd_conn := Some c1\<rparr>)"
  have handled: "accounted tx (snd ?s) \<le> accounted tx h"
    using accounted_socket [of tx env "\<lambda>n. tn_clock tn (BROWSER_MSG_BUDGET + n)" ms "h\<lparr>hd_conn := Some c1\<rparr>"] by simp
  have ended: "accounted tx (snd (end_turn now e d hit' idle (snd ?s))) \<le> accounted tx h"
    "accounted tx (snd (end_turn now e d hit' idle ((snd ?s)\<lparr>hd_closing := b\<rparr>))) \<le> accounted tx h" for e d hit' idle b
    using order.trans [OF accounted_end_turn handled] order.trans [OF accounted_end_turn, of tx "(snd ?s)\<lparr>hd_closing := b\<rparr>"] handled
    by simp_all
  show ?thesis using Some read handled ended
    by (simp add: socket_turn_def case_prod_beta Let_def split: socket_end.split)
qed (simp add: socket_turn_def)

lemma accounted_turn:
  assumes "quiet_turn tx tn"
  shows "accounted tx (snd (stream_turn env now tn h)) \<le> accounted tx h"
proof -
  let ?h = "h\<lparr>hd_inbox := hd_inbox h @ tn_inbox tn\<rparr>"
  have arrived: "accounted tx ?h = accounted tx h"
    using accounted_inbox [of tx "hd_inbox h @ tn_inbox tn" h] assms by (simp add: quiet_turn_def quiet_sum)
  obtain e d hit h1 where inbox: "drain_inbox now (tn_clock tn) (tn_lid tn) BROWSER_MSG_BUDGET ?h = (e, d, hit, h1)"
    using prod_cases4 by blast
  have h1: "accounted tx h1 \<le> accounted tx h"
    using accounted_drain [of tx now "tn_clock tn" "tn_lid tn" BROWSER_MSG_BUDGET ?h] inbox arrived by simp
  let ?p = "for_targets (stream_drive env now (tn_reading tn) (tn_alive tn)) (length (hd_target_ids h1)) h1"
  have "accounted tx (snd ?p) \<le> accounted tx h1"
    using assms by (intro for_targets_total) (simp add: quiet_turn_def)
  then have "accounted tx (poll_listeners (tn_alive tn) (snd ?p)) \<le> accounted tx h"
    using h1 by (simp add: poll_listeners_def case_prod_beta Let_def)
  then have "accounted tx (snd (socket_turn env now tn d hit' (poll_listeners (tn_alive tn) (snd ?p)))) \<le> accounted tx h" for hit'
    by (rule order.trans [OF accounted_socket_turn])
  then show ?thesis using h1 inbox by (simp add: stream_turn_def case_prod_beta split: option.split)
qed

lemma accounted_poll_next:
  "list_all (quiet_turn tx) tns \<Longrightarrow> accounted tx (snd (Handler_poll_next env now tns h)) \<le> accounted tx h"
proof (induction tns arbitrary: h)
  case (Cons tn tns)
  obtain r h1 where turn: "stream_turn env now tn h = (r, h1)" by fastforce
  have "accounted tx h1 \<le> accounted tx h" using accounted_turn [of tx tn env now h] Cons.prems turn by simp
  then show ?case using Cons.IH [of h1] Cons.prems turn by (auto split: option.split intro: order.trans)
qed simp

section \<open>The task\<close>

lemma front_async:
  "front tx (fst (submit_async req m s p now st)) \<le> front tx (fst st) + request_owes tx req"
  "hd_targets (fst (submit_async req m s p now st)) = hd_targets (fst st)"
  using front_await [of tx _ req m now "fst st"]
  by (simp_all add: submit_async_def case_prod_beta split: sum.split)

lemma accounted_async:
  "accounted tx (fst (submit_async req m s p now st)) \<le> accounted tx (fst st) + request_owes tx req"
  by (rule accounted_lift) (simp_all add: front_async)

lemma run_command_front:
  "front tx (fst (snd (run_command env now msg t st))) \<le> front tx (fst st) + of_bool (cm_sender msg = tx)"
  "hd_targets (fst (snd (run_command env now msg t st))) = hd_targets (fst st)"
proof -
  let ?st = "(snd (next_navigation_id (fst st)), snd st)"
  let ?sub = "\<lambda>i (req :: cdp_request). submit_async (PendingNavigate i) (rq_method req) (rq_session_id req) (rq_params req) now ?st"
  have "front tx (fst (?sub i req)) \<le> front tx (fst st)" for i req
    using front_async(1) [of tx "PendingNavigate i" _ _ _ now ?st] by (simp add: next_navigation_id_def)
  then have nav: "front tx (start_navigation j s (fst (?sub i req))) \<le> front tx (fst st) + of_bool (s = tx)" for i j req s
    using front_start [of tx j s "fst (?sub i req)"] by (meson add_le_mono1 order.trans)
  have tgs: "hd_targets (fst (?sub i req)) = hd_targets (fst st)" for i req
    by (simp add: front_async next_navigation_id_def)
  define one where "one = (of_bool (cm_sender msg = tx) :: nat)"
  show "front tx (fst (snd (run_command env now msg t st))) \<le> front tx (fst st) + of_bool (cm_sender msg = tx)"
    unfolding one_def [symmetric]
    using nav [of _ "cm_sender msg", folded one_def] front_async(1) [of tx "ExternalCommand (cm_sender msg) (Some (target_id t))" "cm_method msg" "cm_session_id msg" "cm_params msg" now st,
        unfolded request_owes.simps, folded one_def]
    by (simp add: run_command_def case_prod_beta Let_def)
  show "hd_targets (fst (snd (run_command env now msg t st))) = hd_targets (fst st)"
    using tgs by (simp add: run_command_def case_prod_beta Let_def front_async)
qed

lemma run_event_owes:
  "front tx (fst (snd (run_event env now ev t st))) + target_owes tx (fst (run_event env now ev t st)) \<le>
     front tx (fst st) + target_owes tx t + event_owes tx ev"
  "hd_targets (fst (snd (run_event env now ev t st))) = hd_targets (fst st)"
proof -
  have command: "target_owes tx (fst (run_command env now msg t st)) = target_owes tx t" for msg
    by (simp add: run_command_target)
  show "front tx (fst (snd (run_event env now ev t st))) + target_owes tx (fst (run_event env now ev t st)) \<le>
     front tx (fst st) + target_owes tx t + event_owes tx ev"
  proof (cases ev)
    case (TargetRequest req)
    then show ?thesis using front_async(1) [of tx "InternalCommand (target_id t)" "rq_method req" "rq_session_id req" "rq_params req" now st]
      by simp
  next
    case (TargetNavigationRequest i req)
    then show ?thesis using front_async(1) [of tx "PendingNavigate i" "rq_method req" "rq_session_id req" "rq_params req" now st]
      by simp
  qed (use command run_command_front(1) [of tx env now _ t st] in \<open>simp_all add: front_lifecycle\<close>)
  show "hd_targets (fst (snd (run_event env now ev t st))) = hd_targets (fst st)"
    by (cases ev) (simp_all add: front_async run_command_front)
qed

lemma advance_target_owes:
  "front tx (fst (snd (advance_target env now rd t st))) + target_owes tx (fst (advance_target env now rd t st)) \<le>
     front tx (fst st) + target_owes tx t \<and>
   hd_targets (fst (snd (advance_target env now rd t st))) = hd_targets (fst st)"
proof (induction env now rd t st rule: advance_target.induct)
  case (1 env now rd t st)
  obtain r t1 where adv: "Target_advance (he_target env) (rd_gone (rd 0)) now (rd_clock (rd 0)) t = (r, t1)" by fastforce
  note owes = advance_owes [OF adv, of tx]
  show ?case
  proof (cases r)
    case None
    then show ?thesis using owes by (subst (1 2 3) advance_target.simps) (simp add: adv event_part_def)
  next
    case (Some ev)
    obtain t2 st2 where ev: "run_event env now ev t1 st = (t2, st2)" by (cases "run_event env now ev t1 st") blast
    have "advance_target env now rd t st = advance_target env now (\<lambda>n. rd (Suc n)) t2 st2"
      by (subst advance_target.simps) (simp add: adv Some ev)
    then show ?thesis
      using owes run_event_owes(1) [of tx env now ev t1 st] run_event_owes(2) [of env now ev t1 st]
        1 [OF adv [symmetric] Some ev [symmetric] refl] Some ev
      by (simp add: event_part_def)
  qed
qed

lemma page_messages_owe:
  "sum_list (map (event_owes tx) (tg_queued (page_messages lid msgs t))) \<le>
     sum_list (map (event_owes tx) (tg_queued t)) + sum_list (map (page_owes tx) msgs) \<and>
   tg_page (page_messages lid msgs t) = tg_page t"
proof (induction lid msgs t rule: page_messages.induct)
  case (2 lid msg msgs t)
  then show ?case by (auto simp: on_page_message_def message_owes handle_message_core add.assoc split: if_splits)
qed simp

lemma receive_page_owes: "target_owes tx (receive_page lid t) \<le> target_owes tx t"
proof (cases "tg_page t")
  case (Some p)
  let ?n = PER_TARGET_DRAIN_BUDGET
  have "sum_list (map (page_owes tx) (take ?n (ph_rx p))) + sum_list (map (page_owes tx) (drop ?n (ph_rx p))) =
      sum_list (map (page_owes tx) (ph_rx p))"
    by (metis append_take_drop_id map_append sum_list_append)
  then show ?thesis using Some
      page_messages_owe [of tx lid "take ?n (ph_rx p)" "t\<lparr>tg_page := Some (p\<lparr>ph_rx := drop ?n (ph_rx p)\<rparr>)\<rparr>"]
    by (simp add: receive_page_def target_owes_def)
qed (simp add: receive_page_def)

definition quiet_input :: "sender \<Rightarrow> run_turn \<Rightarrow> bool" where
  "quiet_input tx rt \<longleftrightarrow> (\<forall>i. list_all (\<lambda>msg. page_owes tx msg = 0) (rt_arrived rt i)) \<and>
     (case rt_select rt of FromBrowser (Some msg) \<Rightarrow> browser_owes tx msg = 0 | _ \<Rightarrow> True)"

lemma run_drive_owes:
  assumes "quiet_input tx rt"
  shows "front tx (fst (snd (run_drive env rt i t st))) + target_owes tx (fst (run_drive env rt i t st))
      \<le> front tx (fst st) + target_owes tx t"
    "hd_targets (fst (snd (run_drive env rt i t st))) = hd_targets (fst st)"
proof -
  let ?t = "receive_page (rt_lid rt i) (fold page_sends (rt_arrived rt i) t)"
  have "target_owes tx ?t \<le> target_owes tx t"
    using assms receive_page_owes [of tx "rt_lid rt i" "fold page_sends (rt_arrived rt i) t"]
    by (simp add: sends_owe quiet_input_def)
  then show "front tx (fst (snd (run_drive env rt i t st))) + target_owes tx (fst (run_drive env rt i t st))
      \<le> front tx (fst st) + target_owes tx t"
    "hd_targets (fst (snd (run_drive env rt i t st))) = hd_targets (fst st)"
    using advance_target_owes [of tx env "rt_now rt" "rt_reading rt i" ?t st]
    by (simp_all add: run_drive_def case_prod_beta Let_def)
qed

lemma run_targets_accounted:
  assumes "quiet_input tx rt"
  shows "accounted tx (fst (run_targets (run_drive env rt) n st)) \<le> accounted tx (fst st)"
proof (induction n arbitrary: st)
  case (Suc n)
  obtain i ids where ids: "swap_remove n (hd_target_ids (fst st)) = (i, ids)" by fastforce
  let ?h = "(fst st)\<lparr>hd_target_ids := ids\<rparr>"
  show ?case
  proof (cases "hm_get (hd_targets (fst st)) i")
    case None
    then show ?thesis using Suc.IH [of "(?h, snd st)"] by (simp add: ids)
  next
    case (Some t)
    let ?d = "run_drive env rt i t (?h\<lparr>hd_targets := hm_remove i (hd_targets (fst st))\<rparr>, snd st)"
    let ?h' = "fst (snd ?d)"
    let ?h2 = "?h'\<lparr>hd_targets := hm_insert i (fst ?d) (hd_targets ?h'), hd_target_ids := hd_target_ids ?h' @ [i]\<rparr>"
    have "accounted tx ?h2 \<le> accounted tx ?h"
      using run_drive_owes [OF assms, where env = env and i = i and t = t and
          st = "(?h\<lparr>hd_targets := hm_remove i (hd_targets (fst st))\<rparr>, snd st)"] Some
      by (intro accounted_driven [where t = t]) simp_all
    moreover have "run_targets (run_drive env rt) (Suc n) st = run_targets (run_drive env rt) n (?h2, snd (snd ?d))"
      using Some by (simp add: ids case_prod_beta Let_def)
    ultimately show ?thesis using Suc.IH [of "(?h2, snd (snd ?d))"] by simp
  qed
qed simp

lemma accounted_create_async:
  "accounted tx (fst (create_page_async params s now st)) \<le> accounted tx (fst st) + of_bool (s = tx)"
proof -
  have "accounted tx (await c (PendingCreateTarget s) m now h) \<le> accounted tx h + of_bool (s = tx)" for c m h
    by (rule accounted_lift) (use front_await [of tx c "PendingCreateTarget s"] in simp_all)
  then show ?thesis
    by (cases "s = tx") (auto simp: create_page_async_def accounted_send case_prod_beta split: sum.split dest: spec)
qed

lemma accounted_run_message: "accounted tx (fst (run_message now lid msg st)) \<le> accounted tx (fst st) + browser_owes tx msg"
proof (cases msg)
  case (HandlerCommand cmd)
  then show ?thesis using accounted_async [of tx "ExternalCommand (cm_sender cmd) (session_target (cm_session_id cmd) (fst st))"] by simp
next
  case (FetchTargets s)
  then show ?thesis using accounted_async [of tx "PendingGetTargets s"] by simp
next
  case (CloseBrowser s)
  then show ?thesis using accounted_async [of tx "PendingCloseBrowser s"] by simp
next
  case (CreatePage params s)
  then show ?thesis using accounted_create_async [of tx params s now "(note_context params (fst st), snd st)"] by simp
qed (use accounted_browser [of tx now now lid msg "fst st"] in simp_all)

lemma accounted_select:
  assumes "quiet_input tx rt"
  shows "accounted tx (fst (snd (run_select env rt (rt_select rt) st))) \<le> accounted tx (fst st)"
proof (cases "(env, rt, rt_select rt, st)" rule: run_select.cases)
  case (1 env' rt' msg st')
  then show ?thesis using assms accounted_run_message [of tx "rt_now rt" "rt_listener rt" msg st] by (auto simp: quiet_input_def)
qed (auto simp: accounted_response accounted_on_event accounted_stale)

lemma accounted_once:
  assumes "quiet_input tx rt"
  shows "accounted tx (fst (snd (run_once env rt st))) \<le> accounted tx (fst st)"
proof -
  let ?p = "run_targets (run_drive env rt) (length (hd_target_ids (fst st))) st"
  let ?h = "block_exhausted (flush_listeners (rt_alive rt) (fst ?p))"
  have "accounted tx ?h \<le> accounted tx (fst st)"
    using run_targets_accounted [OF assms] by (simp add: flush_listeners_def case_prod_beta Let_def)
  moreover have "accounted tx (fst (snd (run_select env rt (rt_select rt) (?h, snd ?p)))) \<le> accounted tx ?h"
    using accounted_select [OF assms, of env "(?h, snd ?p)"] by simp
  ultimately show ?thesis by (simp add: run_once_def case_prod_beta Let_def)
qed

lemma accounted_run_loop:
  "list_all (quiet_input tx) rts \<Longrightarrow> accounted tx (fst (snd (run_loop env rts st))) \<le> accounted tx (fst st)"
proof (induction rts arbitrary: st)
  case (Cons rt rts)
  obtain r st1 where once: "run_once env rt st = (r, st1)" by (cases "run_once env rt st") blast
  have "accounted tx (fst st1) \<le> accounted tx (fst st)" using accounted_once [of tx rt env st] Cons.prems once by simp
  then show ?case using Cons.IH [of st1] Cons.prems once by (auto split: option.split intro: order.trans)
qed simp

section \<open>The property\<close>


definition demo_handler_env :: handler_env where
  "demo_handler_env = \<lparr>he_target = demo_env, he_decode = (\<lambda>_. None), he_created_target = (\<lambda>_. None),
     he_target_infos = (\<lambda>_. None), he_crash_text = (\<lambda>_ _ _. ''crashed'')\<rparr>"

definition demo_reading :: reading where
  "demo_reading = \<lparr>rd_arrived = [], rd_gone = (\<lambda>_. False), rd_clock = (\<lambda>_. 0), rd_lid = (\<lambda>_. 0)\<rparr>"

definition demo_turn :: turn where
  "demo_turn = \<lparr>tn_inbox = [CloseBrowser 8], tn_clock = (\<lambda>_. 0), tn_lid = (\<lambda>_. 0), tn_reading = (\<lambda>_ _. demo_reading),
     tn_alive = (\<lambda>_. True), tn_frames = [], tn_ended = False,
     tn_sink = (\<lambda>_. \<lparr>sk_flush = SinkReady, sk_ready = (\<lambda>_. SinkReady), sk_send = (\<lambda>_. None), sk_flush_batch = SinkReady\<rparr>),
     tn_evict = True\<rparr>"

definition demo_run_turn :: run_turn where
  "demo_run_turn = \<lparr>rt_now = 0, rt_arrived = (\<lambda>_. []), rt_lid = (\<lambda>_ _. 0), rt_reading = (\<lambda>_ _. demo_reading),
     rt_alive = (\<lambda>_. True), rt_select = FromBrowser (Some (FetchTargets 8)), rt_clock = 0, rt_listener = 0\<rparr>"

definition demo_handler :: handler where
  "demo_handler = (Handler_new (fresh_connection [] False) HandlerConfig_default)\<lparr>hd_inbox := [FetchTargets 7]\<rparr>"


end
