(* ===== verification/Rendezvous.thy ===== *)
theory Rendezvous
  imports Refine Handler_Run
begin

text \<open>
  Navigations of the handler as a rendezvous: whoever navigates is answered when both the answer of
  the browser and the end of loading are there, in either order, or when loading fails.
\<close>

section \<open>The abstract rendezvous\<close>

datatype rendezvous =
    Untracked
  | AwaitingBoth sender
  | HasResponse sender cdp_response
  | HasLoaded sender

datatype rendezvous_event = RvStart sender | RvResponse cdp_response | RvLoaded | RvFailed navigation_error

fun rv_step :: "rendezvous \<Rightarrow> rendezvous_event \<Rightarrow> rendezvous" where
  "rv_step _ (RvStart tx) = AwaitingBoth tx"
| "rv_step Untracked _ = Untracked"
| "rv_step (AwaitingBoth tx) (RvResponse r) = HasResponse tx r"
| "rv_step (AwaitingBoth tx) RvLoaded = HasLoaded tx"
| "rv_step (HasResponse tx _) (RvResponse r) = HasResponse tx r"
| "rv_step (HasLoaded tx) RvLoaded = HasLoaded tx"
| "rv_step _ _ = Untracked"

fun rv_answer :: "rendezvous \<Rightarrow> rendezvous_event \<Rightarrow> (sender \<times> handler_reply) list" where
  "rv_answer (HasLoaded tx) (RvResponse r) = [(tx, AnswerResponse (Inr r))]"
| "rv_answer (HasResponse tx r) RvLoaded = [(tx, AnswerResponse (Inr r))]"
| "rv_answer (AwaitingBoth tx) (RvFailed e) = [(tx, AnswerResponse (Inl (CdpError_from_navigation e)))]"
| "rv_answer (HasResponse tx _) (RvFailed e) = [(tx, AnswerResponse (Inl (CdpError_from_navigation e)))]"
| "rv_answer (HasLoaded tx) (RvFailed e) = [(tx, AnswerResponse (Inl (CdpError_from_navigation e)))]"
| "rv_answer _ _ = []"

section \<open>The handler's navigations\<close>

datatype nav_input =
    NavStart navigation_id sender
  | NavResponse navigation_id cdp_response
  | NavCompleted "navigation_error + navigation_ok"

fun nav_step :: "handler \<Rightarrow> nav_input \<Rightarrow> handler" where
  "nav_step h (NavStart i tx) = start_navigation i tx h"
| "nav_step h (NavResponse i r) = on_navigation_response i r h"
| "nav_step h (NavCompleted res) = on_navigation_lifecycle_completed res h"

fun nav_subject :: "nav_input \<Rightarrow> navigation_id" where
  "nav_subject (NavStart i _) = i"
| "nav_subject (NavResponse i _) = i"
| "nav_subject (NavCompleted (Inr ok)) = NavigationOk_navigation_id ok"
| "nav_subject (NavCompleted (Inl err)) = NavigationError_navigation_id err"

definition rendezvous_of :: "navigation_id \<Rightarrow> handler \<Rightarrow> rendezvous" where
  "rendezvous_of i h = (case hm_get (hd_navigations h) i of
      None \<Rightarrow> Untracked
    | Some (Navigate n) \<Rightarrow>
        if np_navigated n then HasLoaded (np_tx n)
        else case np_response n of None \<Rightarrow> AwaitingBoth (np_tx n) | Some r \<Rightarrow> HasResponse (np_tx n) r)"

text \<open>What a step sends, and what it means for navigation \<open>i\<close>.\<close>

definition nav_output :: "handler \<Rightarrow> nav_input \<Rightarrow> (sender \<times> handler_reply) list" where
  "nav_output h e = drop (length (hd_sent h)) (hd_sent (nav_step h e))"

definition sent_for :: "navigation_id \<Rightarrow> handler \<Rightarrow> nav_input \<Rightarrow> (sender \<times> handler_reply) list" where
  "sent_for i h e = (if nav_subject e = i then nav_output h e else [])"

fun nav_event :: "nav_input \<Rightarrow> rendezvous_event" where
  "nav_event (NavStart _ tx) = RvStart tx"
| "nav_event (NavResponse _ r) = RvResponse r"
| "nav_event (NavCompleted (Inr _)) = RvLoaded"
| "nav_event (NavCompleted (Inl e)) = RvFailed e"

definition concerning :: "navigation_id \<Rightarrow> nav_input \<Rightarrow> rendezvous_event option" where
  "concerning i e = (if nav_subject e = i then Some (nav_event e) else None)"

text \<open>A navigation that has both is answered and forgotten at once.\<close>

definition none_complete :: "handler \<Rightarrow> bool" where
  "none_complete h \<longleftrightarrow> (\<forall>i n. hm_get (hd_navigations h) i = Some (Navigate n) \<longrightarrow> \<not> (np_navigated n \<and> np_response n \<noteq> None))"

lemmas nav_defs = start_navigation_def on_navigation_response_def on_navigation_lifecycle_completed_def
  hd_send_def set_response_def set_navigated_def NavigationInProgress_new_def Let_def

lemma nav_step_none_complete: "none_complete h \<Longrightarrow> none_complete (nav_step h e)"
  by (cases "(h, e)" rule: nav_step.cases)
    (auto simp: none_complete_def nav_defs split: option.splits navigation_request.splits sum.splits)

lemma nav_step_other: "nav_subject e \<noteq> i \<Longrightarrow> hm_get (hd_navigations (nav_step h e)) i = hm_get (hd_navigations h) i"
  by (cases e rule: nav_subject.cases) (auto simp: nav_defs split: option.split navigation_request.split)

lemma nav_step_hit:
  assumes "none_complete h" "nav_subject e = i"
  shows "rendezvous_of i (nav_step h e) = rv_step (rendezvous_of i h) (nav_event e) \<and>
    nav_output h e = rv_answer (rendezvous_of i h) (nav_event e)"
proof (cases "hm_get (hd_navigations h) i")
  case None
  then show ?thesis using assms(2)
    by (cases e rule: nav_subject.cases) (simp_all add: nav_defs rendezvous_of_def nav_output_def)
next
  case (Some r)
  then obtain n where n: "hm_get (hd_navigations h) i = Some (Navigate n)" by (cases r) simp
  then have "np_navigated n \<Longrightarrow> np_response n = None" using assms(1) by (auto simp: none_complete_def)
  then show ?thesis using assms(2) n
    by (cases e rule: nav_subject.cases; cases "np_navigated n"; cases "np_response n")
      (auto simp: nav_defs rendezvous_of_def nav_output_def)
qed

interpretation navigations: projected_machine nav_step none_complete "sent_for i" "rendezvous_of i" rv_step rv_answer "concerning i"
  for i
proof unfold_locales
  fix h e b
  assume inv: "none_complete h"
  show "none_complete (nav_step h e)" using inv by (rule nav_step_none_complete)
  show "rendezvous_of i (nav_step h e) = rv_step (rendezvous_of i h) b \<and> sent_for i h e = rv_answer (rendezvous_of i h) b"
    if "concerning i e = Some b"
    using that nav_step_hit [OF inv, of e i] by (auto simp: concerning_def sent_for_def split: if_splits)
  show "rendezvous_of i (nav_step h e) = rendezvous_of i h \<and> sent_for i h e = []" if "concerning i e = None"
    using that nav_step_other [of e i h] by (auto simp: concerning_def sent_for_def rendezvous_of_def split: if_splits)
qed

text \<open>The abstract rendezvous answers at most once per start.\<close>

lemma rv_answers_once:
  "length (collect rv_step rv_answer s es) \<le>
     length (filter (\<lambda>e. \<exists>tx. e = RvStart tx) es) + (if s = Untracked then 0 else 1)"
proof (induction es arbitrary: s)
  case (Cons e es)
  show ?case using Cons.IH [of "rv_step s e"]
    by (cases "(s, e)" rule: rv_step.cases) auto
qed simp

definition started :: "navigation_id \<Rightarrow> nav_input \<Rightarrow> bool" where
  "started i e = (case e of NavStart j _ \<Rightarrow> j = i | _ \<Rightarrow> False)"

lemma starts_seen:
  "length (filter (\<lambda>e. \<exists>tx. e = RvStart tx) (List.map_filter (concerning i) es)) = length (filter (started i) es)"
proof (induction es)
  case (Cons e es)
  then show ?case
    by (cases e rule: nav_subject.cases) (auto simp: List.map_filter_simps concerning_def started_def)
qed (simp add: List.map_filter_simps)

text \<open>C3 (navigations are a rendezvous). For every navigation, whatever happens to the others in between:
  the handler tracks it and answers its caller exactly as the abstract rendezvous does, which answers
  with the response once it has both the response and the end of loading, in either order, and with
  the error if loading fails. It is answered at most as often as it was started.\<close>

theorem navigation_rendezvous:
  "let h = Handler_new conn config; seen = List.map_filter (concerning i) es
   in rendezvous_of i (run nav_step h es) = run rv_step Untracked seen \<and>
      collect nav_step (sent_for i) h es = collect rv_step rv_answer Untracked seen \<and>
      length (collect nav_step (sent_for i) h es) \<le> length (filter (started i) es)"
proof -
  have "none_complete (Handler_new conn config)" "rendezvous_of i (Handler_new conn config) = Untracked"
    by (simp_all add: Handler_new_def none_complete_def rendezvous_of_def)
  then show ?thesis
    using navigations.run_refines [of "Handler_new conn config" i es]
      rv_answers_once [of Untracked "List.map_filter (concerning i) es"] starts_seen [of i es]
    by (simp add: Let_def)
qed

end
