(* ===== verification/Handler_Props.thy ===== *)
theory Handler_Props
  imports Handler_Run "HOL-Library.Multiset"
begin

text \<open>
  Properties of the handler: a crash cancels the commands bound to the target and nothing else, the
  eviction answers the overdue commands, a pass over the targets visits each of them once, and
  findings about navigations of targets that are gone.
\<close>

section \<open>Crashes\<close>

definition cancel_answer :: "string \<Rightarrow> handler \<Rightarrow> call_id \<Rightarrow> (sender \<times> handler_reply) option" where
  "cancel_answer text h c = (case hm_get (hd_pending h) c of
      Some (ExternalCommand tx _, _, _) \<Rightarrow> Some (tx, AnswerResponse (Inl (CdpError_msg text)))
    | _ \<Rightarrow> None)"

lemma cancel_one:
  "hm_get (hd_pending (cancel_call text c h)) c' = (if c' = c then None else hm_get (hd_pending h) c')"
  "hd_sent (cancel_call text c h) = hd_sent h @ (case cancel_answer text h c of None \<Rightarrow> [] | Some a \<Rightarrow> [a])"
  by (auto simp: cancel_call_def cancel_answer_def hd_send_def Let_def
      split: option.split prod.split pending_request.split)

lemma cancel_keeps [simp]:
  "hd_navigations (cancel_call text c h) = hd_navigations h" "hd_targets (cancel_call text c h) = hd_targets h"
  "hd_sessions (cancel_call text c h) = hd_sessions h"
  by (simp_all add: cancel_call_def hd_send_def Let_def split: option.split prod.split pending_request.split)

lemma cancel_fold_keeps [simp]:
  "hd_navigations (fold (cancel_call text) cs h) = hd_navigations h"
  "hd_targets (fold (cancel_call text) cs h) = hd_targets h"
  "hd_sessions (fold (cancel_call text) cs h) = hd_sessions h"
  by (induction cs arbitrary: h) simp_all

lemma cancel_fold:
  "distinct cs \<Longrightarrow> hm_get (hd_pending (fold (cancel_call text) cs h)) c' =
      (if c' \<in> set cs then None else hm_get (hd_pending h) c') \<and>
    hd_sent (fold (cancel_call text) cs h) = hd_sent h @ List.map_filter (cancel_answer text h) cs"
proof (induction cs arbitrary: h)
  case (Cons c cs)
  have "cancel_answer text (cancel_call text c h) x = cancel_answer text h x" if "x \<in> set cs" for x
    using that Cons.prems by (auto simp: cancel_answer_def cancel_one)
  then have "List.map_filter (cancel_answer text (cancel_call text c h)) cs = List.map_filter (cancel_answer text h) cs"
    by (simp add: List.map_filter_def cong: map_cong filter_cong)
  with Cons.IH [of "cancel_call text c h"] Cons.prems show ?case
    by (simp add: cancel_one List.map_filter_simps split: option.split)
qed (simp add: List.map_filter_simps)

lemma forget_target_fields [simp]:
  "hd_pending (forget_target i h) = hd_pending h" "hd_sent (forget_target i h) = hd_sent h"
  "hd_navigations (forget_target i h) = hd_navigations h"
  by (simp_all add: forget_target_def Let_def split: option.split)

lemma forget_target_tables:
  "hm_get (hd_targets (forget_target i h)) j = (if j = i then None else hm_get (hd_targets h) j)"
  "hm_get (hd_sessions (forget_target i h)) s =
     (if Option.bind (hm_get (hd_targets h) i) tg_session_id = Some s then None else hm_get (hd_sessions h) s)"
  by (auto simp: forget_target_def Let_def split: option.split)

text \<open>The callers whose commands were bound to target \<open>i\<close>, with their calls.\<close>

definition bound_callers :: "target_id \<Rightarrow> handler \<Rightarrow> (call_id \<times> sender) set" where
  "bound_callers i h = {(c, tx). \<exists>m since. hm_get (hd_pending h) c = Some (ExternalCommand tx (Some i), m, since)}"

lemma length_map_filter: "distinct xs \<Longrightarrow> length (List.map_filter f xs) = card {x \<in> set xs. f x \<noteq> None}"
  using distinct_card [of "filter (\<lambda>x. f x \<noteq> None) xs"] by (simp add: List.map_filter_def comp_def)

lemma crash_answers:
  "set (List.map_filter (cancel_answer text h) (crash_calls i h)) =
     (\<lambda>(_, tx). (tx, AnswerResponse (Inl (CdpError_msg text)))) ` bound_callers i h"
  "length (List.map_filter (cancel_answer text h) (crash_calls i h)) = card (bound_callers i h)"
proof -
  have calls: "c \<in> set (crash_calls i h) \<and> cancel_answer text h c = Some a \<longleftrightarrow>
      (\<exists>tx. (c, tx) \<in> bound_callers i h \<and> a = (tx, AnswerResponse (Inl (CdpError_msg text))))" for c a
    by (auto simp: crash_calls_def hm.set_keys cancel_answer_def bound_callers_def
        split: option.splits pending_request.splits elim: bound_to.elims)
  have "a \<in> set (List.map_filter (cancel_answer text h) (crash_calls i h)) \<longleftrightarrow>
      (\<exists>c. c \<in> set (crash_calls i h) \<and> cancel_answer text h c = Some a)" for a
    by (force simp: List.map_filter_def image_iff)
  then show "set (List.map_filter (cancel_answer text h) (crash_calls i h)) =
     (\<lambda>(_, tx). (tx, AnswerResponse (Inl (CdpError_msg text)))) ` bound_callers i h"
    by (intro set_eqI) (simp add: calls image_iff Bex_def)
  have "c \<in> {c \<in> set (crash_calls i h). cancel_answer text h c \<noteq> None} \<longleftrightarrow> (\<exists>tx. (c, tx) \<in> bound_callers i h)" for c
    using calls [of c] by (cases "cancel_answer text h c") auto
  then have "{c \<in> set (crash_calls i h). cancel_answer text h c \<noteq> None} = fst ` bound_callers i h"
    by (intro set_eqI) (simp add: image_iff Bex_def)
  moreover have "inj_on fst (bound_callers i h)" by (auto simp: inj_on_def bound_callers_def)
  moreover have "distinct (crash_calls i h)" by (simp add: crash_calls_def hm.distinct_keys)
  ultimately show "length (List.map_filter (cancel_answer text h) (crash_calls i h)) = card (bound_callers i h)"
    by (simp add: length_map_filter card_image)
qed

text \<open>C19 (a crash cancels what was bound to the target). After a target has crashed, a pending command is
  gone exactly if it was a command of one of its pages or of its own initialisation; exactly the callers
  of the former are told, with the text of the crash, once for each command, and nobody else is told
  anything; the target and its session are forgotten, all other targets, sessions and the
  navigations in progress are as before.\<close>

theorem crash_cancels_bound_commands:
  "let h' = on_target_crashed env i status code h; text = he_crash_text env i status code
   in hm_get (hd_pending h') c = (case hm_get (hd_pending h) c of
          Some (ExternalCommand tx (Some t), m, since) \<Rightarrow> if t = i then None else Some (ExternalCommand tx (Some t), m, since)
        | Some (InternalCommand t, m, since) \<Rightarrow> if t = i then None else Some (InternalCommand t, m, since)
        | other \<Rightarrow> other) \<and>
      (\<exists>told. hd_sent h' = hd_sent h @ told \<and> length told = card (bound_callers i h) \<and>
         set told = (\<lambda>(_, tx). (tx, AnswerResponse (Inl (CdpError_msg text)))) ` bound_callers i h) \<and>
      hm_get (hd_targets h') j = (if j = i then None else hm_get (hd_targets h) j) \<and>
      hm_get (hd_sessions h') s =
        (if Option.bind (hm_get (hd_targets h) i) tg_session_id = Some s then None else hm_get (hd_sessions h) s) \<and>
      hd_navigations h' = hd_navigations h"
proof -
  have d: "distinct (crash_calls i h)" by (simp add: crash_calls_def hm.distinct_keys)
  have c: "c \<in> set (crash_calls i h) \<longleftrightarrow> (\<exists>req x. hm_get (hd_pending h) c = Some (req, x) \<and> bound_to i req)"
    by (auto simp: crash_calls_def hm.set_keys split: option.splits)
  note swept = cancel_fold [OF d, of "he_crash_text env i status code" h c]
  have "hm_get (hd_pending (on_target_crashed env i status code h)) c =
      (if c \<in> set (crash_calls i h) then None else hm_get (hd_pending h) c)"
    using swept by (simp add: on_target_crashed_def)
  moreover have "\<dots> = (case hm_get (hd_pending h) c of
          Some (ExternalCommand tx (Some t), m, since) \<Rightarrow> if t = i then None else Some (ExternalCommand tx (Some t), m, since)
        | Some (InternalCommand t, m, since) \<Rightarrow> if t = i then None else Some (InternalCommand t, m, since)
        | other \<Rightarrow> other)"
    unfolding c by (auto split: option.split prod.split pending_request.split)
  moreover have "hd_sent (on_target_crashed env i status code h) =
      hd_sent h @ List.map_filter (cancel_answer (he_crash_text env i status code) h) (crash_calls i h)"
    using swept by (simp add: on_target_crashed_def)
  ultimately show ?thesis
    using crash_answers [of "he_crash_text env i status code" h i]
    by (simp add: on_target_crashed_def Let_def forget_target_tables)
qed

section \<open>Timeouts\<close>

text \<open>A navigation is watched by a pending command that may still time out.\<close>

definition watched :: "navigation_id \<Rightarrow> handler \<Rightarrow> bool" where
  "watched i h \<longleftrightarrow> (\<exists>c m since. hm_get (hd_pending h) c = Some (PendingNavigate i, m, since))"

lemma time_out_pending:
  "hm_get (hd_pending (time_out_call c h)) c' = (if c' = c then None else hm_get (hd_pending h) c')"
  by (simp add: time_out_call_def hd_send_def Let_def
      split: option.split prod.split pending_request.split navigation_request.split)

lemma time_out_navigations:
  "hm_get (hd_navigations (time_out_call c h)) i =
     (if \<exists>m since. hm_get (hd_pending h) c = Some (PendingNavigate i, m, since) then None else hm_get (hd_navigations h) i)"
  by (auto simp: time_out_call_def hd_send_def Let_def
      split: option.split prod.split pending_request.split navigation_request.split)

definition time_out_answer :: "handler \<Rightarrow> call_id \<Rightarrow> (sender \<times> handler_reply) list" where
  "time_out_answer h c = (case hm_get (hd_pending h) c of
      None \<Rightarrow> []
    | Some (PendingCreateTarget tx, _, _) \<Rightarrow> [(tx, AnswerPage (Inl Timeout))]
    | Some (PendingGetTargets tx, _, _) \<Rightarrow> [(tx, AnswerTargets (Inl Timeout))]
    | Some (PendingNavigate i, _, _) \<Rightarrow> (case hm_get (hd_navigations h) i of
          None \<Rightarrow> [] | Some (Navigate nav) \<Rightarrow> [(np_tx nav, AnswerResponse (Inl Timeout))])
    | Some (ExternalCommand tx _, _, _) \<Rightarrow> [(tx, AnswerResponse (Inl Timeout))]
    | Some (InternalCommand _, _, _) \<Rightarrow> []
    | Some (PendingCloseBrowser tx, _, _) \<Rightarrow> [(tx, AnswerClose (Inl Timeout))])"

lemma time_out_sent: "hd_sent (time_out_call c h) = hd_sent h @ time_out_answer h c"
  by (simp add: time_out_call_def time_out_answer_def hd_send_def Let_def
      split: option.split prod.split pending_request.split navigation_request.split)

lemma time_out_fold:
  "hm_get (hd_pending (fold time_out_call cs h)) c' = (if c' \<in> set cs then None else hm_get (hd_pending h) c')"
  "hm_get (hd_navigations (fold time_out_call cs h)) i =
     (if \<exists>c \<in> set cs. \<exists>m since. hm_get (hd_pending h) c = Some (PendingNavigate i, m, since) then None
      else hm_get (hd_navigations h) i)"
  "set (hd_sent (fold time_out_call cs h)) = set (hd_sent h) \<union> (\<Union>c \<in> set cs. set (time_out_answer h c))"
proof -
  show "hm_get (hd_pending (fold time_out_call cs h)) c' = (if c' \<in> set cs then None else hm_get (hd_pending h) c')"
    by (induction cs arbitrary: h) (auto simp: time_out_pending)
  show "hm_get (hd_navigations (fold time_out_call cs h)) i =
     (if \<exists>c \<in> set cs. \<exists>m since. hm_get (hd_pending h) c = Some (PendingNavigate i, m, since) then None
      else hm_get (hd_navigations h) i)"
    by (induction cs arbitrary: h) (auto simp: time_out_pending time_out_navigations)
  have same: "set (time_out_answer h c) \<union> set (time_out_answer (time_out_call c h) c'') =
      set (time_out_answer h c) \<union> set (time_out_answer h c'')" for c c'' and h :: handler
  proof (cases "c'' = c")
    case True
    then show ?thesis by (simp add: time_out_answer_def time_out_pending)
  next
    case False
    show ?thesis
    proof (cases "\<exists>i m since m' since'. hm_get (hd_pending h) c = Some (PendingNavigate i, m, since) \<and>
        hm_get (hd_pending h) c'' = Some (PendingNavigate i, m', since')")
      case True
      then have "time_out_answer h c'' = time_out_answer h c" "time_out_answer (time_out_call c h) c'' = []"
        using False by (auto simp: time_out_answer_def time_out_pending time_out_navigations)
      then show ?thesis by simp
    next
      case distinct: False
      have "time_out_answer (time_out_call c h) c'' = time_out_answer h c''"
      proof (cases "\<exists>i x. hm_get (hd_pending h) c'' = Some (PendingNavigate i, x)")
        case True
        then show ?thesis using False distinct
          by (auto simp: time_out_answer_def time_out_pending time_out_navigations)
      next
        case other: False
        then show ?thesis using False
          by (auto simp: time_out_answer_def time_out_pending split: option.split pending_request.split)
      qed
      then show ?thesis by simp
    qed
  qed
  show "set (hd_sent (fold time_out_call cs h)) = set (hd_sent h) \<union> (\<Union>c \<in> set cs. set (time_out_answer h c))"
  proof (induction cs arbitrary: h)
    case (Cons c cs)
    have "set (time_out_answer h c) \<union> (\<Union>x \<in> set cs. set (time_out_answer (time_out_call c h) x)) =
        set (time_out_answer h c) \<union> (\<Union>x \<in> set cs. set (time_out_answer h x))"
      using same [of h c] by blast
    with Cons.IH [of "time_out_call c h"] show ?case by (simp add: time_out_sent Un_assoc)
  qed simp
qed

definition overdue_call :: "instant \<Rightarrow> handler \<Rightarrow> call_id \<Rightarrow> bool" where
  "overdue_call now h c \<longleftrightarrow> (case hm_get (hd_pending h) c of
      None \<Rightarrow> False
    | Some (_, _, since) \<Rightarrow> since + hc_request_timeout (hd_config h) < now)"

lemma evict_facts:
  "let h' = evict_timed_out_commands now h
   in hm_get (hd_pending h') c = (if overdue_call now h c then None else hm_get (hd_pending h) c) \<and>
      hm_get (hd_navigations h') i =
        (if \<exists>c m since. hm_get (hd_pending h) c = Some (PendingNavigate i, m, since) \<and> overdue_call now h c
         then None else hm_get (hd_navigations h) i) \<and>
      set (hd_sent h') = set (hd_sent h) \<union> (\<Union>c \<in> {c. overdue_call now h c}. set (time_out_answer h c))"
proof (cases "checked_sub now (hc_request_timeout (hd_config h))")
  case None
  then have "\<not> overdue_call now h c" for c
    by (auto simp: overdue_call_def checked_sub_def split: option.splits if_splits)
  then show ?thesis using None by (simp add: evict_timed_out_commands_def)
next
  case (Some d)
  then have calls: "c \<in> set (timed_out_calls d h) \<longleftrightarrow> overdue_call now h c" for c
    by (auto simp: overdue_call_def timed_out_calls_def checked_sub_def hm.set_keys split: option.splits if_splits)
  then have "set (timed_out_calls d h) = {c. overdue_call now h c}" by blast
  moreover have "evict_timed_out_commands now h = fold time_out_call (timed_out_calls d h) h"
    using Some by (simp add: evict_timed_out_commands_def)
  ultimately show ?thesis using calls
    by (auto simp: time_out_fold Let_def)
qed

text \<open>Overdue commands time out. The eviction takes out exactly the pending commands that have waited
  for longer than the request timeout, and the navigations waiting on such a command; the answers it
  sends are exactly the timeouts for the callers of those.\<close>

theorem overdue_commands_time_out:
  "let h' = evict_timed_out_commands now h
   in hm_get (hd_pending h') c = (if overdue_call now h c then None else hm_get (hd_pending h) c) \<and>
      hm_get (hd_navigations h') i =
        (if \<exists>c m since. hm_get (hd_pending h) c = Some (PendingNavigate i, m, since) \<and> overdue_call now h c
         then None else hm_get (hd_navigations h) i) \<and>
      set (hd_sent h') = set (hd_sent h) \<union> (\<Union>c \<in> {c. overdue_call now h c}. set (time_out_answer h c))"
  by (rule evict_facts)

text \<open>A navigation that has its response is not watched any more: once its target has crashed, no
  eviction ever answers it.\<close>

lemma crashed_navigation_stranded:
  "\<not> watched i h \<Longrightarrow> hm_get (hd_navigations (evict_timed_out_commands now (on_target_crashed env t status code h))) i =
     hm_get (hd_navigations h) i"
proof -
  assume "\<not> watched i h"
  moreover have "hm_get (hd_pending (on_target_crashed env t status code h)) c =
      (case hm_get (hd_pending h) c of
          None \<Rightarrow> None
        | Some (req, m, since) \<Rightarrow> if bound_to t req then None else Some (req, m, since))"
    "hd_navigations (on_target_crashed env t status code h) = hd_navigations h" for c
    using cancel_fold [of "crash_calls t h" "he_crash_text env t status code" h c]
    by (auto simp: on_target_crashed_def crash_calls_def hm.distinct_keys hm.set_keys split: option.splits)
  ultimately have "\<not> watched i (on_target_crashed env t status code h)"
    by (auto simp: watched_def split: option.splits if_splits)
  then show ?thesis
    using evict_facts [of now "on_target_crashed env t status code h" undefined i]
    by (auto simp: watched_def Let_def on_target_crashed_def)
qed

section \<open>A pass over the targets\<close>

text \<open>The pass as it is meant: each target in turn is taken out, driven and put back.\<close>

fun visit :: "(target_id \<Rightarrow> target \<Rightarrow> handler \<Rightarrow> bool \<times> target \<times> handler) \<Rightarrow> target_id list \<Rightarrow> handler \<Rightarrow> bool \<times> handler" where
  "visit drive [] h = (False, h)"
| "visit drive (i # is) h =
     (case hm_get (hd_targets h) i of
        None \<Rightarrow> visit drive is h
      | Some t \<Rightarrow>
          let (hit, t, h) = drive i t (h\<lparr>hd_targets := hm_remove i (hd_targets h)\<rparr>);
              (hit', h) = visit drive is (h\<lparr>hd_targets := hm_insert i t (hd_targets h)\<rparr>)
          in (hit \<or> hit', h))"

definition with_ids :: "target_id list \<Rightarrow> handler \<Rightarrow> handler" where
  "with_ids ids h = h\<lparr>hd_target_ids := ids\<rparr>"

text \<open>What is done with one target neither reads nor writes the list of ids, nor the other targets.\<close>

definition minds_own_target :: "(target_id \<Rightarrow> target \<Rightarrow> handler \<Rightarrow> bool \<times> target \<times> handler) \<Rightarrow> bool" where
  "minds_own_target drive \<longleftrightarrow> (\<forall>i t h ids.
     drive i t (with_ids ids h) = (fst (drive i t h), fst (snd (drive i t h)), with_ids ids (snd (snd (drive i t h)))) \<and>
     hd_targets (snd (snd (drive i t h))) = hd_targets h)"

lemma with_ids_fields [simp]:
  "hd_target_ids (with_ids ids h) = ids" "hd_targets (with_ids ids h) = hd_targets h"
  "with_ids ids (with_ids ids' h) = with_ids ids h"
  "(with_ids ids h)\<lparr>hd_targets := ts\<rparr> = with_ids ids (h\<lparr>hd_targets := ts\<rparr>)"
  "(with_ids ids h)\<lparr>hd_target_ids := ids'\<rparr> = with_ids ids' h"
  by (simp_all add: with_ids_def)

lemma fold_ids: "h\<lparr>hd_target_ids := ids\<rparr> = with_ids ids h"
  by (simp add: with_ids_def)

lemma swap_remove_at: "swap_remove (length xs) (xs @ x # ys) =
    (x, xs @ (if ys = [] then [] else last ys # butlast ys))"
proof (cases ys rule: rev_cases)
  case (snoc zs z)
  then show ?thesis by (simp add: swap_remove_def butlast_append list_update_append)
qed (simp add: swap_remove_def)

lemma for_targets_visit:
  assumes own: "minds_own_target drive"
  shows "fst (for_targets drive (length ids) (with_ids (ids @ seen) h)) = fst (visit drive (rev ids) h) \<and>
    (\<exists>seen'. snd (for_targets drive (length ids) (with_ids (ids @ seen) h)) = with_ids seen' (snd (visit drive (rev ids) h)) \<and>
       mset seen' = mset seen + mset (filter (\<lambda>i. hm_get (hd_targets h) i \<noteq> None) ids))"
proof (induction ids arbitrary: seen h rule: rev_induct)
  case (snoc i ids)
  let ?rest = "if seen = [] then [] else last seen # butlast seen"
  have rot: "mset ?rest = mset seen"
    by (cases seen rule: rev_cases) simp_all
  show ?case
  proof (cases "hm_get (hd_targets h) i")
    case None
    have step: "for_targets drive (length (ids @ [i])) (with_ids ((ids @ [i]) @ seen) h)
        = for_targets drive (length ids) (with_ids (ids @ ?rest) h)"
      using None by (simp add: swap_remove_at fold_ids)
    have vis: "visit drive (rev (ids @ [i])) h = visit drive (rev ids) h" using None by simp
    show ?thesis unfolding step vis using snoc.IH [of ?rest h] rot None by simp
  next
    case (Some t)
    let ?h = "h\<lparr>hd_targets := hm_remove i (hd_targets h)\<rparr>"
    obtain hit t' h' where drive: "drive i t ?h = (hit, t', h')" using prod_cases3 by blast
    have "hd_targets (snd (snd (drive i t ?h))) = hd_targets ?h"
      using own unfolding minds_own_target_def by blast
    then have others: "hd_targets h' = hm_remove i (hd_targets h)" by (simp add: drive)
    let ?h' = "h'\<lparr>hd_targets := hm_insert i t' (hd_targets h')\<rparr>"
    have "drive i t (with_ids js ?h) = (fst (drive i t ?h), fst (snd (drive i t ?h)), with_ids js (snd (snd (drive i t ?h))))" for js
      using own unfolding minds_own_target_def by blast
    then have driven: "drive i t (with_ids js ?h) = (hit, t', with_ids js h')" for js by (simp add: drive)
    have step: "for_targets drive (length (ids @ [i])) (with_ids ((ids @ [i]) @ seen) h)
        = (hit \<or> fst (for_targets drive (length ids) (with_ids (ids @ ?rest @ [i]) ?h')),
           snd (for_targets drive (length ids) (with_ids (ids @ ?rest @ [i]) ?h')))"
      using Some driven by (simp add: swap_remove_at fold_ids case_prod_beta Let_def)
    have vis: "visit drive (rev (ids @ [i])) h = (hit \<or> fst (visit drive (rev ids) ?h'), snd (visit drive (rev ids) ?h'))"
      using Some drive by (simp add: case_prod_beta Let_def)
    have present: "hm_get (hd_targets ?h') j = None \<longleftrightarrow> hm_get (hd_targets h) j = None" for j
      using Some by (simp add: others)
    have ids: "filter (\<lambda>i. hm_get (hd_targets ?h') i \<noteq> None) ids = filter (\<lambda>i. hm_get (hd_targets h) i \<noteq> None) ids"
      by (simp only: present)
    show ?thesis unfolding step vis using snoc.IH [of "?rest @ [i]" ?h'] rot Some
      by (simp only: ids fst_conv snd_conv) (auto simp: ac_simps)
  qed
qed auto

lemma submit_with_ids:
  "submit_and_await req m s p now (with_ids ids h) =
     (fst (submit_and_await req m s p now h), with_ids ids (snd (submit_and_await req m s p now h)))"
  "hd_targets (snd (submit_and_await req m s p now h)) = hd_targets h"
  by (simp_all add: submit_and_await_def with_ids_def await_def case_prod_beta Let_def split: option.split)

lemma navigation_with_ids:
  "on_navigation_lifecycle_completed res (with_ids ids h) = with_ids ids (on_navigation_lifecycle_completed res h)"
  "hd_targets (on_navigation_lifecycle_completed res h) = hd_targets h"
  "consume_bytes n (with_ids ids h) = with_ids ids (consume_bytes n h)"
  "hd_targets (consume_bytes n h) = hd_targets h"
  by (simp_all add: on_navigation_lifecycle_completed_def hd_send_def with_ids_def consume_bytes_def Let_def
      split: sum.split option.split navigation_request.split)

lemma message_with_ids:
  "on_target_message env msg now t (with_ids ids h) =
     (fst (on_target_message env msg now t h), with_ids ids (snd (on_target_message env msg now t h)))"
  "hd_targets (snd (on_target_message env msg now t h)) = hd_targets h"
proof -
  have "session_target s (with_ids ids h) = session_target s h" for s
    by (simp add: session_target_def with_ids_def)
  then show "on_target_message env msg now t (with_ids ids h) =
     (fst (on_target_message env msg now t h), with_ids ids (snd (on_target_message env msg now t h)))"
    by (simp add: on_target_message_def submit_external_command_def submit_with_ids case_prod_beta Let_def)
      (simp add: next_navigation_id_def start_navigation_def with_ids_def)
  show "hd_targets (snd (on_target_message env msg now t h)) = hd_targets h"
    by (simp add: on_target_message_def submit_external_command_def submit_with_ids case_prod_beta Let_def
        next_navigation_id_def start_navigation_def)
qed

lemma event_with_ids:
  "stream_event env now ev t (with_ids ids h) =
     (fst (stream_event env now ev t h), with_ids ids (snd (stream_event env now ev t h)))"
  "hd_targets (snd (stream_event env now ev t h)) = hd_targets h"
  by (cases ev; simp add: submit_internal_command_def submit_navigation_def submit_with_ids navigation_with_ids
      message_with_ids case_prod_beta)+

lemma poll_with_ids:
  "poll_target env now rd n t (with_ids ids h) = (fst (poll_target env now rd n t h),
     fst (snd (poll_target env now rd n t h)), with_ids ids (snd (snd (poll_target env now rd n t h)))) \<and>
   hd_targets (snd (snd (poll_target env now rd n t h))) = hd_targets h"
proof (induction n arbitrary: rd t h)
  case (Suc n)
  obtain r t1 where poll: "Target_poll (he_target env) (rd_gone (rd 0)) (rd_lid (rd 0)) now (rd_clock (rd 0))
      (fold page_sends (rd_arrived (rd 0)) t) = (r, t1)" by fastforce
  show ?case
    by (cases r) (simp_all add: poll Suc.IH event_with_ids case_prod_beta Let_def)
qed simp

lemma stream_drive_own: "minds_own_target (stream_drive env now rd alive)"
  unfolding minds_own_target_def stream_drive_def poll_target_listeners_def Let_def
  by (simp add: poll_with_ids case_prod_beta) (simp add: with_ids_def)

text \<open>C20 (a pass visits every target once). The pass of the stream, which takes ids out of the list with
  \<open>swap_remove\<close> and pushes them back, does to the handler what visiting the targets one after the other
  in reverse order does; afterwards the list holds the same ids with the same multiplicity, less
  those of targets that are gone.\<close>

theorem pass_visits_each_target:
  "let drive = stream_drive env now rd alive;
       (hit, h') = for_targets drive (length (hd_target_ids h)) h;
       (hit'', h'') = visit drive (rev (hd_target_ids h)) h
   in hit = hit'' \<and> h'\<lparr>hd_target_ids := []\<rparr> = h''\<lparr>hd_target_ids := []\<rparr> \<and>
      mset (hd_target_ids h') = mset (filter (\<lambda>i. hm_get (hd_targets h) i \<noteq> None) (hd_target_ids h))"
proof -
  have "with_ids (hd_target_ids h) h = h" by (simp add: with_ids_def)
  then show ?thesis
    using for_targets_visit [OF stream_drive_own [of env now rd alive], where ids = "hd_target_ids h" and seen = "[]" and h = h]
    by (auto simp: Let_def case_prod_beta fold_ids)
qed

section \<open>Findings\<close>

text \<open>A target that is known already is listed a second time: the answer to \<open>Target.getTargets\<close> goes
  through \<open>on_target_created\<close> for every target there is, which also replaces the live target.\<close>

lemma known_target_listed_again:
  assumes "hd_contexts h = {} \<or> ti_browser_context_id info = None"
  shows "hd_target_ids (on_target_created env info h) = hd_target_ids h @ [ti_target_id info]"
    and "\<exists>c ctx. get_target (ti_target_id info) (on_target_created env info h) =
      Some (Target_new (he_target env) info c ctx)"
proof -
  have "target_id (Target_new (he_target env) info c ctx) = ti_target_id info" for c ctx
    by (simp add: target_id_def Target_new_def)
  then show "hd_target_ids (on_target_created env info h) = hd_target_ids h @ [ti_target_id info]"
    "\<exists>c ctx. get_target (ti_target_id info) (on_target_created env info h) = Some (Target_new (he_target env) info c ctx)"
    using assms by (auto simp: on_target_created_def get_target_def Let_def)
qed

text \<open>A navigation of a page is submitted at once by \<open>run\<close>, which also registers it with the target whose
  next poll requests it again; the stream leaves it to that request.\<close>

lemma run_submits_navigation_at_once:
  assumes "is_navigation msg" "\<not> wt_closed w" "0 < wt_free w"
  shows "length (wt_sent (snd (snd (run_command env now msg t (h, w))))) = Suc (length (wt_sent w))"
  using assms by (simp add: run_command_def submit_async_def ws_submit_def try_send_def case_prod_beta Let_def)

lemma stream_leaves_navigation_to_target:
  "is_navigation msg \<Longrightarrow> hd_conn (snd (on_target_message env msg now t h)) = hd_conn h"
  by (simp add: on_target_message_def next_navigation_id_def start_navigation_def case_prod_beta Let_def)

text \<open>The byte budget of the handler is never set, so it never runs out.\<close>

lemma byte_budget_never_set:
  "hd_remaining_bytes (Handler_new conn config) = None"
  "hd_remaining_bytes h = None \<Longrightarrow> consume_bytes n h = h"
  by (simp_all add: Handler_new_def consume_bytes_def)

end
