(* ===== verification/Session_Task.thy ===== *)
theory Session_Task
  imports Handler_Run
begin

text \<open>
  The parallel handler of \<open>src/handler/parallel/\<close>, its smaller half: the call ids and their routes
  (\<open>ids.rs\<close>), the messages between the tasks (\<open>types.rs\<close>), and the task that drives one target
  (\<open>session.rs\<close>). What the tasks share, the channels and the allocator, is one record that every
  operation takes and returns.
\<close>

section \<open>Call ids and routes\<close>

type_synonym slot = "16 word"

text \<open>\<open>ia_drawn\<close> is an output: the ids drawn so far, in order, each with the slot it was drawn for.\<close>

record id_allocator =
  ia_next :: u64
  ia_routing :: "(call_id, slot) hash_map"
  ia_drawn :: "(call_id \<times> slot) list"

definition CallIdAllocator_new :: "u64 \<Rightarrow> id_allocator" where
  "CallIdAllocator_new start = \<lparr>ia_next = max start 1, ia_routing = [], ia_drawn = []\<rparr>"

definition ids_alloc :: "slot \<Rightarrow> id_allocator \<Rightarrow> call_id \<times> id_allocator" where
  "ids_alloc k a =
     (let n = ia_next a;
          a = a\<lparr>ia_next := n + 1, ia_drawn := ia_drawn a @ [(n, k)]\<rparr>
      in (n, if k \<noteq> 0 then a\<lparr>ia_routing := hm_insert n k (ia_routing a)\<rparr> else a))"

definition take_route :: "call_id \<Rightarrow> id_allocator \<Rightarrow> slot option \<times> id_allocator" where
  "take_route c a = (hm_get (ia_routing a) c, a\<lparr>ia_routing := hm_remove c (ia_routing a)\<rparr>)"

definition drop_slot :: "slot \<Rightarrow> id_allocator \<Rightarrow> id_allocator" where
  "drop_slot k a = a\<lparr>ia_routing := hm_retain (\<lambda>_ s. s \<noteq> k) (ia_routing a)\<rparr>"

section \<open>Messages and channels\<close>

datatype router_to_session =
    RtsResponse call_id cdp_response method_id
  | RtsEvent cdp_event_message
  | RtsSetInitiator sender
  | RtsShutdown

datatype session_to_router =
    SessionAttached slot session_id
  | Detached slot

definition SESSION_INBOX_CAPACITY :: nat where
  "SESSION_INBOX_CAPACITY = 1024"

definition SESSION_LIFECYCLE_CAPACITY :: nat where
  "SESSION_LIFECYCLE_CAPACITY = 256"

text \<open>What the tasks share. \<open>pw_calls\<close> is what was put into the channel to the writer, \<open>pw_closed\<close> says
  that the writer has gone; \<open>pw_inboxes\<close> holds the inbox of every task that still receives. A \<open>send\<close>
  that waits for a free place is taken to happen when there is one, so the queues carry no bound; only
  \<open>try_send\<close> asks for the capacity. \<open>pw_sent\<close> and \<open>pw_delivered\<close> are outputs.\<close>

record wires =
  pw_ids :: id_allocator
  pw_calls :: "method_call list"
  pw_closed :: bool
  pw_lifecycle :: "session_to_router list"
  pw_inboxes :: "(slot, router_to_session list) hash_map"
  pw_router_alive :: bool
  pw_sent :: "(sender \<times> handler_reply) list"
  pw_delivered :: "(channel \<times> cdp_event) list"

definition wire_answer :: "sender \<Rightarrow> handler_reply \<Rightarrow> wires \<Rightarrow> wires" where
  "wire_answer tx r w = w\<lparr>pw_sent := pw_sent w @ [(tx, r)]\<rparr>"

text \<open>Draw an id for the slot and send the call to the writer: the id, \<open>None\<close> when the writer has gone.\<close>

definition wire_call :: "slot \<Rightarrow> cdp_request \<Rightarrow> wires \<Rightarrow> call_id option \<times> wires" where
  "wire_call k req w =
     (let (c, ids) = ids_alloc k (pw_ids w); w = w\<lparr>pw_ids := ids\<rparr>
      in if pw_closed w then (None, w)
         else (Some c, w\<lparr>pw_calls := pw_calls w @ [\<lparr>mc_id = c, mc_method = rq_method req,
                 mc_session_id = rq_session_id req, mc_params = rq_params req\<rparr>]\<rparr>))"

text \<open>Into the inbox of a task, by \<open>send\<close> and by \<open>try_send\<close>; to a task that has gone both fail.\<close>

definition post :: "slot \<Rightarrow> router_to_session \<Rightarrow> wires \<Rightarrow> wires" where
  "post k msg w = w\<lparr>pw_inboxes := hm_modify k (\<lambda>q. q @ [msg]) (pw_inboxes w)\<rparr>"

definition try_post :: "slot \<Rightarrow> router_to_session \<Rightarrow> wires \<Rightarrow> wires" where
  "try_post k msg w = w\<lparr>pw_inboxes :=
     hm_modify k (\<lambda>q. if length q < SESSION_INBOX_CAPACITY then q @ [msg] else q) (pw_inboxes w)\<rparr>"

definition report :: "session_to_router \<Rightarrow> wires \<Rightarrow> wires" where
  "report msg w =
     (if pw_router_alive w \<and> length (pw_lifecycle w) < SESSION_LIFECYCLE_CAPACITY
      then w\<lparr>pw_lifecycle := pw_lifecycle w @ [msg]\<rparr> else w)"

section \<open>The session task\<close>

datatype session_pending =
    SpInternal
  | SpExternal sender
  | SpNavigate navigation_id

record session_task =
  st_slot :: slot
  st_target :: target
  st_pending :: "(call_id, session_pending \<times> method_id \<times> instant) hash_map"
  st_navigations :: "(navigation_id, navigation_in_progress) hash_map"
  st_next_nav_id :: u64
  st_session_id_reported :: bool
  st_request_timeout :: duration

type_synonym session_state = "session_task \<times> wires"

definition SessionTask_new :: "slot \<Rightarrow> target \<Rightarrow> duration \<Rightarrow> session_task" where
  "SessionTask_new k t timeout = \<lparr>st_slot = k, st_target = t, st_pending = [], st_navigations = [],
     st_next_nav_id = 0, st_session_id_reported = False, st_request_timeout = timeout\<rparr>"

definition target_gone :: cdp_error where
  "target_gone = CdpError_msg ''target detached or crashed''"

definition writer_closed :: cdp_error where
  "writer_closed = CdpError_msg ''WS writer closed''"

definition session_await :: "call_id \<Rightarrow> session_pending \<Rightarrow> method_id \<Rightarrow> instant \<Rightarrow> session_task \<Rightarrow> session_task" where
  "session_await c p m now s = s\<lparr>st_pending := hm_insert c (p, m, now) (st_pending s)\<rparr>"

subsection \<open>Submitting\<close>

definition submit_internal :: "cdp_request \<Rightarrow> instant \<Rightarrow> session_state \<Rightarrow> session_state" where
  "submit_internal req now sw =
     (case wire_call (st_slot (fst sw)) req (snd sw) of
        (Some c, w) \<Rightarrow> (session_await c SpInternal (rq_method req) now (fst sw), w)
      | (None, w) \<Rightarrow> (fst sw, w))"

definition submit_external :: "command_message \<Rightarrow> instant \<Rightarrow> session_state \<Rightarrow> session_state" where
  "submit_external msg now sw =
     (let (req, tx) = CommandMessage_split msg
      in case wire_call (st_slot (fst sw)) req (snd sw) of
           (Some c, w) \<Rightarrow> (session_await c (SpExternal tx) (cm_method msg) now (fst sw), w)
         | (None, w) \<Rightarrow> (fst sw, wire_answer tx (AnswerResponse (Inl writer_closed)) w))"

definition alloc_nav_id :: "session_task \<Rightarrow> navigation_id \<times> session_task" where
  "alloc_nav_id s = (st_next_nav_id s, s\<lparr>st_next_nav_id := st_next_nav_id s + 1\<rparr>)"

text \<open>The target learns of the navigation before the call is sent, and keeps it when sending fails.\<close>

definition submit_navigation_command :: "handler_env \<Rightarrow> command_message \<Rightarrow> instant \<Rightarrow> session_state \<Rightarrow> session_state" where
  "submit_navigation_command env msg now sw =
     (let (req, tx) = CommandMessage_split msg;
          (i, s) = alloc_nav_id (fst sw);
          s = s\<lparr>st_target := Target_goto (he_target env)
                (FrameRequestedNavigation_new i req (st_request_timeout s)) (st_target s)\<rparr>
      in case wire_call (st_slot s) req (snd sw) of
           (Some c, w) \<Rightarrow>
             let s = session_await c (SpNavigate i) (rq_method req) now s
             in (s\<lparr>st_navigations := hm_insert i (NavigationInProgress_new tx) (st_navigations s)\<rparr>, w)
         | (None, w) \<Rightarrow> (s, wire_answer tx (AnswerResponse (Inl writer_closed)) w))"

text \<open>The sender of a navigation whose call cannot be sent is dropped unanswered.\<close>

definition submit_nav_request :: "navigation_id \<Rightarrow> cdp_request \<Rightarrow> instant \<Rightarrow> session_state \<Rightarrow> session_state" where
  "submit_nav_request i req now sw =
     (case wire_call (st_slot (fst sw)) req (snd sw) of
        (Some c, w) \<Rightarrow> (session_await c (SpNavigate i) (rq_method req) now (fst sw), w)
      | (None, w) \<Rightarrow> ((fst sw)\<lparr>st_navigations := hm_remove i (st_navigations (fst sw))\<rparr>, w))"

subsection \<open>Navigations\<close>

definition session_navigation_response :: "navigation_id \<Rightarrow> cdp_response \<Rightarrow> session_state \<Rightarrow> session_state" where
  "session_navigation_response i resp sw =
     (let (s, w) = sw in
      case hm_get (st_navigations s) i of
        None \<Rightarrow> (s, w)
      | Some nav \<Rightarrow>
          let s = s\<lparr>st_navigations := hm_remove i (st_navigations s)\<rparr>
          in if np_navigated nav then (s, wire_answer (np_tx nav) (AnswerResponse (Inr resp)) w)
             else (s\<lparr>st_navigations := hm_insert i (set_response resp nav) (st_navigations s)\<rparr>, w))"

definition session_lifecycle_completed :: "navigation_error + navigation_ok \<Rightarrow> session_state \<Rightarrow> session_state" where
  "session_lifecycle_completed res sw =
     (let (s, w) = sw in
      case res of
        Inr ok \<Rightarrow>
          let i = NavigationOk_navigation_id ok in
          (case hm_get (st_navigations s) i of
             None \<Rightarrow> (s, w)
           | Some nav \<Rightarrow>
               let s = s\<lparr>st_navigations := hm_remove i (st_navigations s)\<rparr> in
               (case np_response nav of
                  Some resp \<Rightarrow> (s, wire_answer (np_tx nav) (AnswerResponse (Inr resp)) w)
                | None \<Rightarrow> (s\<lparr>st_navigations := hm_insert i (set_navigated nav) (st_navigations s)\<rparr>, w)))
      | Inl err \<Rightarrow>
          let i = NavigationError_navigation_id err in
          (case hm_get (st_navigations s) i of
             None \<Rightarrow> (s, w)
           | Some nav \<Rightarrow> (s\<lparr>st_navigations := hm_remove i (st_navigations s)\<rparr>,
               wire_answer (np_tx nav) (AnswerResponse (Inl (CdpError_from_navigation err))) w)))"

subsection \<open>Responses\<close>

text \<open>What the answer to \<open>Target.attachToTarget\<close> tells: the target gets its session, and the router
  hears of the first one.\<close>

definition learn_session :: "handler_env \<Rightarrow> method_id \<Rightarrow> cdp_response \<Rightarrow> session_state \<Rightarrow> session_state" where
  "learn_session env m resp sw =
     (if m \<noteq> ''Target.attachToTarget'' then sw
      else (case to_command_response (te_attach_session (he_target env)) resp m of
              Inl _ \<Rightarrow> sw
            | Inr r \<Rightarrow>
                let s = (fst sw)\<lparr>st_target := set_session_id (cr_result r) (st_target (fst sw))\<rparr>
                in if st_session_id_reported s then (s, snd sw)
                   else (s\<lparr>st_session_id_reported := True\<rparr>, report (SessionAttached (st_slot s) (cr_result r)) (snd sw))))"

definition session_on_response :: "handler_env \<Rightarrow> call_id \<Rightarrow> cdp_response \<Rightarrow> session_state \<Rightarrow> session_state" where
  "session_on_response env c resp sw =
     (case hm_get (st_pending (fst sw)) c of
        None \<Rightarrow> sw
      | Some (p, m, _) \<Rightarrow>
          let s = (fst sw)\<lparr>st_pending := hm_remove c (st_pending (fst sw))\<rparr> in
          (case p of
             SpInternal \<Rightarrow>
               let (s, w) = learn_session env m resp (s, snd sw)
               in (s\<lparr>st_target := Target_on_response (he_target env) resp m (st_target s)\<rparr>, w)
           | SpExternal tx \<Rightarrow> (s, wire_answer tx (AnswerResponse (Inr resp)) (snd sw))
           | SpNavigate i \<Rightarrow> session_navigation_response i resp (s, snd sw)))"

subsection \<open>Timeouts and the end\<close>

text \<open>Answer what waits behind a pending entry with an error; a navigation is answered through its table.\<close>

definition fail_pending :: "cdp_error \<Rightarrow> session_pending \<Rightarrow> session_state \<Rightarrow> session_state" where
  "fail_pending err p sw =
     (case p of
        SpInternal \<Rightarrow> sw
      | SpExternal tx \<Rightarrow> (fst sw, wire_answer tx (AnswerResponse (Inl err)) (snd sw))
      | SpNavigate i \<Rightarrow>
          (case hm_get (st_navigations (fst sw)) i of
             None \<Rightarrow> sw
           | Some nav \<Rightarrow> ((fst sw)\<lparr>st_navigations := hm_remove i (st_navigations (fst sw))\<rparr>,
               wire_answer (np_tx nav) (AnswerResponse (Inl err)) (snd sw))))"

definition evict_call :: "call_id \<Rightarrow> session_state \<Rightarrow> session_state" where
  "evict_call c sw =
     (let (s, w) = sw; w = w\<lparr>pw_ids := snd (take_route c (pw_ids w))\<rparr> in
      case hm_get (st_pending s) c of
        None \<Rightarrow> (s, w)
      | Some (p, _, _) \<Rightarrow> fail_pending Timeout p (s\<lparr>st_pending := hm_remove c (st_pending s)\<rparr>, w))"

definition stale_calls :: "instant \<Rightarrow> session_task \<Rightarrow> call_id list" where
  "stale_calls deadline s = filter (\<lambda>c. case hm_get (st_pending s) c of
      Some (_, _, ts) \<Rightarrow> ts < deadline | None \<Rightarrow> False) (hm_keys (st_pending s))"

definition session_evict_stale :: "instant \<Rightarrow> session_state \<Rightarrow> session_state" where
  "session_evict_stale now sw =
     (case checked_sub now (st_request_timeout (fst sw)) of
        None \<Rightarrow> sw
      | Some deadline \<Rightarrow> fold evict_call (stale_calls deadline (fst sw)) sw)"

text \<open>The table of pending calls is drained, then what is left of the navigations.\<close>

definition cancel_in_flight :: "session_state \<Rightarrow> session_state" where
  "cancel_in_flight sw =
     (let (s, w) = fold (\<lambda>(p, _, _). fail_pending target_gone p) (hm_values (st_pending (fst sw)))
            ((fst sw)\<lparr>st_pending := []\<rparr>, snd sw)
      in (s\<lparr>st_navigations := []\<rparr>,
          fold (\<lambda>nav. wire_answer (np_tx nav) (AnswerResponse (Inl target_gone))) (hm_values (st_navigations s)) w))"

subsection \<open>Driving the target\<close>

fun session_event :: "handler_env \<Rightarrow> instant \<Rightarrow> target_event \<Rightarrow> session_state \<Rightarrow> session_state" where
  "session_event env now (TargetRequest req) sw = submit_internal req now sw"
| "session_event env now (TargetCommand msg) sw =
     (if is_navigation msg then submit_navigation_command env msg now sw else submit_external msg now sw)"
| "session_event env now (TargetNavigationRequest i req) sw = submit_nav_request i req now sw"
| "session_event env now (TargetNavigationResult res) sw = session_lifecycle_completed res sw"
| "session_event env now (TargetBytesConsumed _) sw = sw"

lemmas session_defs = submit_internal_def submit_external_def submit_navigation_command_def submit_nav_request_def
  session_navigation_response_def session_lifecycle_completed_def session_await_def alloc_nav_id_def

lemma session_event_target:
  "st_target (fst (session_event env now ev sw)) = (case ev of
      TargetCommand msg \<Rightarrow> if is_navigation msg
        then Target_goto (he_target env) (FrameRequestedNavigation_new (st_next_nav_id (fst sw))
            (fst (CommandMessage_split msg)) (st_request_timeout (fst sw))) (st_target (fst sw))
        else st_target (fst sw)
    | _ \<Rightarrow> st_target (fst sw))"
  by (cases ev) (simp_all add: session_defs case_prod_beta Let_def split: option.split sum.split)

lemma session_event_init: "tg_init (st_target (fst (session_event env now ev sw))) = tg_init (st_target (fst sw))"
  unfolding session_event_target by (cases ev) simp_all

lemma session_event_work:
  "target_work (st_target (fst (session_event env now ev sw))) + 1 \<le> target_work (st_target (fst sw)) + event_weight ev"
  unfolding session_event_target using goto_work by (cases ev) (simp_all add: add.commute)

text \<open>The loop over \<open>advance\<close>, for as long as the target has something to do. \<open>rd n\<close> is the reading of
  the n-th call.\<close>

function advance_session :: "handler_env \<Rightarrow> instant \<Rightarrow> (nat \<Rightarrow> reading) \<Rightarrow> session_state \<Rightarrow> session_state" where
  "advance_session env now rd sw =
     (case Target_advance (he_target env) (rd_gone (rd 0)) now (rd_clock (rd 0)) (st_target (fst sw)) of
        (None, t) \<Rightarrow> ((fst sw)\<lparr>st_target := t\<rparr>, snd sw)
      | (Some ev, t) \<Rightarrow> advance_session env now (\<lambda>n. rd (Suc n))
          (session_event env now ev ((fst sw)\<lparr>st_target := t\<rparr>, snd sw)))"
  by pat_completeness auto

lemma session_event_decreases:
  assumes "Target_advance (he_target env) gone now clock t = (Some ev, t')" "st_target (fst sw) = t'"
  shows "init_rank (tg_init (st_target (fst (session_event env now ev sw)))) < init_rank (tg_init t) \<or>
    init_rank (tg_init (st_target (fst (session_event env now ev sw)))) = init_rank (tg_init t) \<and>
    (chain_left (tg_init (st_target (fst (session_event env now ev sw)))) < chain_left (tg_init t) \<or>
     chain_left (tg_init (st_target (fst (session_event env now ev sw)))) = chain_left (tg_init t) \<and>
     target_work (st_target (fst (session_event env now ev sw))) < target_work t)"
  using advance_progress [OF assms(1)] session_event_work [of env now ev sw] session_event_init [of env now ev sw] assms(2)
  by (auto simp: init_drops_iff)

termination advance_session
proof (relation "inv_image (less_than <*lex*> less_than <*lex*> less_than)
    (\<lambda>(env, now, rd, sw). (init_rank (tg_init (st_target (fst sw))), chain_left (tg_init (st_target (fst sw))),
       target_work (st_target (fst sw))))", goal_cases)
  case 1
  show ?case by (intro wf_inv_image wf_lex_prod wf_less_than)
qed (auto dest!: sym [of "(_, _)" "Target_advance _ _ _ _ _"] session_event_decreases
    [where sw = "((fst sw)\<lparr>st_target := t\<rparr>, snd sw)" for sw t])

declare advance_session.simps [simp del]

text \<open>All messages in the channel of the page are taken out, then handled in order.\<close>

definition drain_page :: "(nat \<Rightarrow> listener_id) \<Rightarrow> target \<Rightarrow> target" where
  "drain_page lid t =
     (case tg_page t of
        None \<Rightarrow> t
      | Some p \<Rightarrow> page_messages lid (ph_rx p) (t\<lparr>tg_page := Some (p\<lparr>ph_rx := []\<rparr>)\<rparr>))"

text \<open>What one turn of the task finds: the time, the messages that have arrived from the page, whether
  the page has woken the task and the eviction timer has ticked, the clock the branch taken reads, and
  the readings of the target.\<close>

record session_turn =
  sn_now :: instant
  sn_arrived :: "target_message list"
  sn_wake :: bool
  sn_tick :: bool
  sn_clock :: instant
  sn_lid :: "nat \<Rightarrow> listener_id"
  sn_reading :: "nat \<Rightarrow> reading"
  sn_alive :: "channel \<Rightarrow> bool"

definition session_drive :: "handler_env \<Rightarrow> session_turn \<Rightarrow> session_state \<Rightarrow> session_state" where
  "session_drive env sn sw =
     (let (s, w) = advance_session env (sn_now sn) (sn_reading sn)
            ((fst sw)\<lparr>st_target := drain_page (sn_lid sn) (st_target (fst sw))\<rparr>, snd sw);
          (sent, ls) = EventListeners_flush (sn_alive sn) (tg_listeners (st_target s))
      in (s\<lparr>st_target := (st_target s)\<lparr>tg_listeners := ls\<rparr>\<rparr>, w\<lparr>pw_delivered := pw_delivered w @ sent\<rparr>))"

subsection \<open>The loop of the task\<close>

text \<open>A message of the router; \<open>None\<close> when it ends the task.\<close>

fun session_message :: "handler_env \<Rightarrow> instant \<Rightarrow> router_to_session \<Rightarrow> session_state \<Rightarrow> session_state option" where
  "session_message env clock (RtsResponse c resp _) sw = Some (session_on_response env c resp sw)"
| "session_message env clock (RtsEvent ev) sw =
     Some ((fst sw)\<lparr>st_target := Target_on_event (he_target env) clock ev (st_target (fst sw))\<rparr>, snd sw)"
| "session_message env clock (RtsSetInitiator tx) sw =
     Some ((fst sw)\<lparr>st_target := set_initiator tx (st_target (fst sw))\<rparr>, snd sw)"
| "session_message env clock RtsShutdown sw = None"

datatype session_select = SelectPending | SelectBreak | SelectGo session_state

text \<open>The branches in their order: the inbox, whose end is that of the router, the page, the timer.\<close>

definition select_session :: "handler_env \<Rightarrow> session_turn \<Rightarrow> session_state \<Rightarrow> session_select" where
  "select_session env sn sw =
     (case hm_get (pw_inboxes (snd sw)) (st_slot (fst sw)) of
        Some (msg # q) \<Rightarrow>
          (case session_message env (sn_clock sn) msg
              (fst sw, (snd sw)\<lparr>pw_inboxes := hm_insert (st_slot (fst sw)) q (pw_inboxes (snd sw))\<rparr>) of
             None \<Rightarrow> SelectBreak
           | Some sw \<Rightarrow> SelectGo sw)
      | _ \<Rightarrow>
          if \<not> pw_router_alive (snd sw) then SelectBreak
          else if sn_wake sn then SelectGo sw
          else if sn_tick sn then SelectGo (session_evict_stale (sn_clock sn) sw)
          else SelectPending)"

text \<open>The end of the task: what is in flight is cancelled, the router is told if it can be, the inbox
  is dropped with the task.\<close>

definition session_ends :: "session_state \<Rightarrow> wires" where
  "session_ends sw =
     (let (s, w) = cancel_in_flight sw; w = report (Detached (st_slot s)) w
      in w\<lparr>pw_inboxes := hm_remove (st_slot s) (pw_inboxes w)\<rparr>)"

text \<open>One turn of the loop; \<open>None\<close> for a task that has ended. \<open>first_turn\<close> is what comes before the loop.\<close>

definition page_arrivals :: "target_message list \<Rightarrow> session_task \<Rightarrow> session_task" where
  "page_arrivals msgs s = s\<lparr>st_target := fold page_sends msgs (st_target s)\<rparr>"

definition session_turns :: "handler_env \<Rightarrow> session_turn \<Rightarrow> session_state \<Rightarrow> session_task option \<times> wires" where
  "session_turns env sn sw =
     (let sw = (page_arrivals (sn_arrived sn) (fst sw), snd sw) in
      case select_session env sn sw of
        SelectPending \<Rightarrow> (Some (fst sw), snd sw)
      | SelectBreak \<Rightarrow> (None, session_ends sw)
      | SelectGo sw \<Rightarrow> (let (s, w) = session_drive env sn sw in (Some s, w)))"

definition first_turn :: "handler_env \<Rightarrow> session_turn \<Rightarrow> session_state \<Rightarrow> session_task option \<times> wires" where
  "first_turn env sn sw = (let (s, w) = session_drive env sn (page_arrivals (sn_arrived sn) (fst sw), snd sw) in (Some s, w))"

end
