(* ===== verification/Router.thy ===== *)
theory Router
  imports Session_Task
begin

text \<open>
  The router of \<open>src/handler/parallel/router.rs\<close>: it owns the slots and the routing tables, reads the
  socket, hands responses and events to the tasks, and answers the browser handle itself. Then the
  whole parallel handler: the router and the tasks it has spawned, taking turns.
\<close>

section \<open>The router\<close>

datatype router_pending =
    RpCreateTarget sender
  | RpBrowserCommand sender
  | RpBoot

text \<open>The sending half of the inbox is the slot, the key of the entry.\<close>

record session_entry =
  en_target_id :: target_id
  en_session_id :: "session_id option"

record router =
  ro_config :: handler_config
  ro_default_context :: browser_context
  ro_pending :: "(call_id, router_pending \<times> method_id \<times> instant) hash_map"
  ro_pending_initiator_ts :: "(target_id, instant) hash_map"
  ro_sessions :: "(slot, session_entry) hash_map"
  ro_target_slots :: "(target_id, slot) hash_map"
  ro_session_slots :: "(session_id, slot) hash_map"
  ro_next_slot :: slot
  ro_pending_initiators :: "(target_id, sender) hash_map"
  ro_listeners :: "cdp_event event_listeners"

type_synonym router_state = "router \<times> wires"

definition Router_new :: "handler_config \<Rightarrow> browser_context \<Rightarrow> call_id \<Rightarrow> method_id \<Rightarrow> instant \<Rightarrow> router" where
  "Router_new config ctx boot_call_id boot_method clock = \<lparr>ro_config = config, ro_default_context = ctx,
     ro_pending = [(boot_call_id, (RpBoot, boot_method, clock))], ro_pending_initiator_ts = [], ro_sessions = [],
     ro_target_slots = [], ro_session_slots = [], ro_next_slot = 1, ro_pending_initiators = [], ro_listeners = []\<rparr>"

text \<open>The wires at the start: the calls queued before are in the channel already.\<close>

definition Router_wires :: "u64 \<Rightarrow> method_call list \<Rightarrow> wires" where
  "Router_wires start calls = \<lparr>pw_ids = CallIdAllocator_new start, pw_calls = calls, pw_closed = False,
     pw_lifecycle = [], pw_inboxes = [], pw_router_alive = True, pw_sent = [], pw_delivered = []\<rparr>"

section \<open>Responses\<close>

definition handle_router_response :: "handler_env \<Rightarrow> instant \<Rightarrow> call_id \<Rightarrow> cdp_response \<Rightarrow> router_state \<Rightarrow> router_state" where
  "handle_router_response env clock c resp rw =
     (let (r, w) = rw in
      case hm_get (ro_pending r) c of
        None \<Rightarrow> (r, w)
      | Some (p, m, _) \<Rightarrow>
          let r = r\<lparr>ro_pending := hm_remove c (ro_pending r)\<rparr> in
          (case p of
             RpBoot \<Rightarrow> (r, w)
           | RpBrowserCommand tx \<Rightarrow> (r, wire_answer tx (AnswerResponse (Inr resp)) w)
           | RpCreateTarget tx \<Rightarrow>
               (case to_command_response (he_created_target env) resp m of
                  Inr parsed \<Rightarrow>
                    let i = cr_result parsed in
                    (case hm_get (ro_target_slots r) i of
                       Some k \<Rightarrow>
                         if hm_get (ro_sessions r) k \<noteq> None then (r, post k (RtsSetInitiator tx) w)
                         else (r, wire_answer tx (AnswerPage (Inl NotFound)) w)
                     | None \<Rightarrow> (r\<lparr>ro_pending_initiator_ts := hm_insert i clock (ro_pending_initiator_ts r),
                           ro_pending_initiators := hm_insert i tx (ro_pending_initiators r)\<rparr>, w))
                | Inl err \<Rightarrow> (r, wire_answer tx (AnswerPage (Inl err)) w))))"

text \<open>A route is taken by the first response with its id; ids without a route belong to the router.\<close>

definition router_on_response :: "handler_env \<Rightarrow> instant \<Rightarrow> cdp_response \<Rightarrow> router_state \<Rightarrow> router_state" where
  "router_on_response env clock resp rw =
     (let (r, w) = rw;
          (route, ids) = take_route (rs_id resp) (pw_ids w);
          w = w\<lparr>pw_ids := ids\<rparr>
      in case route of
           Some k \<Rightarrow> (r, if hm_get (ro_sessions r) k \<noteq> None then post k (RtsResponse (rs_id resp) resp []) w else w)
         | None \<Rightarrow> handle_router_response env clock (rs_id resp) resp (r, w))"

section \<open>Events\<close>

text \<open>The literal of the code leaves three fields of the configuration out; they have their default here.\<close>

definition router_target_config :: "handler_config \<Rightarrow> target_config" where
  "router_target_config c = (target_config_of c)\<lparr>
     tc_allow_first_party_stylesheets := tc_allow_first_party_stylesheets TargetConfig_default,
     tc_allow_first_party_javascript := tc_allow_first_party_javascript TargetConfig_default,
     tc_allow_first_party_visuals := tc_allow_first_party_visuals TargetConfig_default\<rparr>"

text \<open>\<open>None\<close> for the panic when the slots have run out.\<close>

definition alloc_slot :: "router \<Rightarrow> (slot \<times> router) option" where
  "alloc_slot r = (if ro_next_slot r = - 1 then None
     else Some (ro_next_slot r, r\<lparr>ro_next_slot := ro_next_slot r + 1\<rparr>))"

datatype router_outcome =
    RouterGoes "session_task option" router_state
  | RouterPanics
  | RouterEnds router_state

definition router_target_created :: "handler_env \<Rightarrow> target_info \<Rightarrow> router_state \<Rightarrow> router_outcome" where
  "router_target_created env info rw =
     (let (r, w) = rw; i = ti_target_id info in
      if hm_get (ro_target_slots r) i \<noteq> None then RouterGoes None rw
      else
        let ctx = (case ti_browser_context_id info of None \<Rightarrow> ro_default_context r | Some c \<Rightarrow> BrowserContext_from c);
            t = Target_new (he_target env) info (router_target_config (ro_config r)) ctx
        in case alloc_slot r of
             None \<Rightarrow> RouterPanics
           | Some (k, r) \<Rightarrow>
               let s = SessionTask_new k t (hc_request_timeout (ro_config r));
                   parked = hm_get (ro_pending_initiators r) i;
                   r = r\<lparr>ro_target_slots := hm_insert i k (ro_target_slots r),
                         ro_pending_initiators := hm_remove i (ro_pending_initiators r),
                         ro_pending_initiator_ts := hm_remove i (ro_pending_initiator_ts r),
                         ro_sessions := hm_insert k \<lparr>en_target_id = i, en_session_id = None\<rparr> (ro_sessions r)\<rparr>;
                   w = w\<lparr>pw_inboxes := hm_insert k [] (pw_inboxes w)\<rparr>
               in RouterGoes (Some s)
                    (r, case parked of None \<Rightarrow> w | Some tx \<Rightarrow> post k (RtsSetInitiator tx) w))"

definition router_attached :: "session_id \<Rightarrow> target_info \<Rightarrow> router \<Rightarrow> router" where
  "router_attached sid info r =
     (case hm_get (ro_target_slots r) (ti_target_id info) of
        None \<Rightarrow> r
      | Some k \<Rightarrow> r\<lparr>ro_session_slots := hm_insert sid k (ro_session_slots r),
            ro_sessions := hm_modify k (\<lambda>e. e\<lparr>en_session_id := Some sid\<rparr>) (ro_sessions r)\<rparr>)"

text \<open>Tell the task behind a key of one of the tables, if there is one, to shut down.\<close>

definition shut_down :: "slot option \<Rightarrow> router_state \<Rightarrow> router_state" where
  "shut_down found rw =
     (case found of
        Some k \<Rightarrow> (fst rw, if hm_get (ro_sessions (fst rw)) k \<noteq> None then post k RtsShutdown (snd rw) else snd rw)
      | None \<Rightarrow> rw)"

definition router_target_gone :: "target_id \<Rightarrow> router_state \<Rightarrow> router_state" where
  "router_target_gone i rw = shut_down (hm_get (ro_target_slots (fst rw)) i) rw"

fun browser_event :: "handler_env \<Rightarrow> cdp_event \<Rightarrow> router_state \<Rightarrow> router_outcome" where
  "browser_event env (EvTargetCreated info) rw = router_target_created env info rw"
| "browser_event env (EvAttachedToTarget sid info _) rw = RouterGoes None (router_attached sid info (fst rw), snd rw)"
| "browser_event env (EvTargetDestroyed i) rw = RouterGoes None (router_target_gone i rw)"
| "browser_event env (EvTargetCrashed i _ _) rw = RouterGoes None (router_target_gone i rw)"
| "browser_event env (EvDetachedFromTarget sid) rw =
     RouterGoes None (shut_down (hm_get (ro_session_slots (fst rw)) sid) rw)"
| "browser_event env _ rw = RouterGoes None rw"

text \<open>An event of a session that has no task is dropped.\<close>

definition router_on_event :: "handler_env \<Rightarrow> cdp_event_message \<Rightarrow> router_state \<Rightarrow> router_outcome" where
  "router_on_event env ev rw =
     (case ev_session_id ev of
        Some sid \<Rightarrow> RouterGoes None
          (case hm_get (ro_session_slots (fst rw)) sid of
             None \<Rightarrow> rw
           | Some k \<Rightarrow> if hm_get (ro_sessions (fst rw)) k \<noteq> None then (fst rw, post k (RtsEvent ev) (snd rw)) else rw)
      | None \<Rightarrow>
          (case browser_event env (ev_params ev) rw of
             RouterGoes s rw \<Rightarrow>
               RouterGoes s ((fst rw)\<lparr>ro_listeners := consume_event (ev_method ev) (ev_params ev) (ro_listeners (fst rw))\<rparr>, snd rw)
           | out \<Rightarrow> out))"

section \<open>Messages of the browser handle\<close>

text \<open>Send a call of the router's own; the answer is awaited or the caller told that the writer has gone.\<close>

definition router_submit :: "(sender \<Rightarrow> router_pending) \<Rightarrow> (cdp_error \<Rightarrow> handler_reply) \<Rightarrow> cdp_request \<Rightarrow> sender \<Rightarrow> instant
    \<Rightarrow> router_state \<Rightarrow> router_state" where
  "router_submit mk failed req tx clock rw =
     (case wire_call 0 req (snd rw) of
        (Some c, w) \<Rightarrow> ((fst rw)\<lparr>ro_pending := hm_insert c (mk tx, rq_method req, clock) (ro_pending (fst rw))\<rparr>, w)
      | (None, w) \<Rightarrow> (fst rw, wire_answer tx (failed writer_closed) w))"

definition router_create_page :: "create_target_params \<Rightarrow> sender \<Rightarrow> instant \<Rightarrow> router_state \<Rightarrow> router_state" where
  "router_create_page params tx clock rw =
     (let about_blank = (ct_url params = ''about:blank'');
          http_check = (\<not> about_blank \<and> (starts_with (ct_url params) ''http'' \<or> starts_with (ct_url params) ''file://''))
      in if \<not> about_blank \<and> \<not> http_check
         then (fst rw, wire_answer tx (AnswerPage (Inl NotFound)) (snd rw))
         else router_submit RpCreateTarget (\<lambda>e. AnswerPage (Inl e))
                \<lparr>rq_method = ''Target.createTarget'', rq_session_id = None, rq_params = ct_value params\<rparr> tx clock rw)"

text \<open>A command for a session is sent by the router too, which awaits the answer itself: both branches do the same.\<close>

definition dispatch_session_command_via_ws :: "slot \<Rightarrow> command_message \<Rightarrow> instant \<Rightarrow> router_state \<Rightarrow> router_state" where
  "dispatch_session_command_via_ws k cmd clock rw =
     (let (req, tx) = CommandMessage_split cmd
      in router_submit RpBrowserCommand (\<lambda>e. AnswerResponse (Inl e)) req tx clock rw)"

definition dispatch_browser_command :: "command_message \<Rightarrow> instant \<Rightarrow> router_state \<Rightarrow> router_state" where
  "dispatch_browser_command cmd clock rw =
     (case Option.bind (cm_session_id cmd) (\<lambda>sid. Option.bind (hm_get (ro_session_slots (fst rw)) sid)
         (\<lambda>k. if hm_get (ro_sessions (fst rw)) k \<noteq> None then Some k else None)) of
        Some k \<Rightarrow> dispatch_session_command_via_ws k cmd clock rw
      | None \<Rightarrow>
          let (req, tx) = CommandMessage_split cmd
          in router_submit RpBrowserCommand (\<lambda>e. AnswerResponse (Inl e)) req tx clock rw)"

fun router_message :: "instant \<Rightarrow> listener_id \<Rightarrow> handler_message \<Rightarrow> router_state \<Rightarrow> router_state" where
  "router_message clock lid (CreatePage params tx) rw = router_create_page params tx clock rw"
| "router_message clock lid (HandlerCommand cmd) rw = dispatch_browser_command cmd clock rw"
| "router_message clock lid (CloseBrowser tx) rw = (fst rw, wire_answer tx (AnswerClose (Inr ())) (snd rw))"
| "router_message clock lid (GetPages tx) rw = (fst rw, wire_answer tx (AnswerPages []) (snd rw))"
| "router_message clock lid (GetPage _ tx) rw = (fst rw, wire_answer tx (AnswerMaybePage None) (snd rw))"
| "router_message clock lid (FetchTargets tx) rw = (fst rw, wire_answer tx (AnswerTargets (Inr [])) (snd rw))"
| "router_message clock lid (InsertContext _) rw = rw"
| "router_message clock lid (DisposeContext _) rw = rw"
| "router_message clock lid (HandlerAddEventListener req) rw =
     ((fst rw)\<lparr>ro_listeners := snd (add_listener lid req (ro_listeners (fst rw)))\<rparr>, snd rw)"

section \<open>Timeouts and the end of a session\<close>

definition router_expire :: "call_id \<Rightarrow> router_state \<Rightarrow> router_state" where
  "router_expire c rw =
     (let (r, w) = rw in
      case hm_get (ro_pending r) c of
        None \<Rightarrow> (r, w)
      | Some (p, _, _) \<Rightarrow>
          (r\<lparr>ro_pending := hm_remove c (ro_pending r)\<rparr>,
           case p of
             RpBoot \<Rightarrow> w
           | RpBrowserCommand tx \<Rightarrow> wire_answer tx (AnswerResponse (Inl Timeout)) w
           | RpCreateTarget tx \<Rightarrow> wire_answer tx (AnswerPage (Inl Timeout)) w))"

definition expire_initiator :: "target_id \<Rightarrow> router_state \<Rightarrow> router_state" where
  "expire_initiator i rw =
     (let (r, w) = rw; r = r\<lparr>ro_pending_initiator_ts := hm_remove i (ro_pending_initiator_ts r)\<rparr> in
      case hm_get (ro_pending_initiators r) i of
        None \<Rightarrow> (r, w)
      | Some tx \<Rightarrow> (r\<lparr>ro_pending_initiators := hm_remove i (ro_pending_initiators r)\<rparr>,
            wire_answer tx (AnswerPage (Inl Timeout)) w))"

definition router_stale :: "instant \<Rightarrow> router \<Rightarrow> call_id list" where
  "router_stale deadline r = filter (\<lambda>c. case hm_get (ro_pending r) c of
      Some (_, _, ts) \<Rightarrow> ts < deadline | None \<Rightarrow> False) (hm_keys (ro_pending r))"

definition stale_initiators :: "instant \<Rightarrow> router \<Rightarrow> target_id list" where
  "stale_initiators deadline r = filter (\<lambda>i. case hm_get (ro_pending_initiator_ts r) i of
      Some ts \<Rightarrow> ts < deadline | None \<Rightarrow> False) (hm_keys (ro_pending_initiator_ts r))"

definition evict_router_pending :: "instant \<Rightarrow> duration \<Rightarrow> router_state \<Rightarrow> router_state" where
  "evict_router_pending now timeout rw =
     (case checked_sub now timeout of
        None \<Rightarrow> rw
      | Some deadline \<Rightarrow>
          let rw = fold router_expire (router_stale deadline (fst rw)) rw
          in fold expire_initiator (stale_initiators deadline (fst rw)) rw)"

definition remove_session :: "slot \<Rightarrow> router_state \<Rightarrow> router_state" where
  "remove_session k rw =
     (let (r, w) = rw in
      case hm_get (ro_sessions r) k of
        None \<Rightarrow> (r, w)
      | Some e \<Rightarrow>
          (r\<lparr>ro_sessions := hm_remove k (ro_sessions r),
             ro_target_slots := hm_remove (en_target_id e) (ro_target_slots r),
             ro_session_slots := (case en_session_id e of None \<Rightarrow> ro_session_slots r
               | Some sid \<Rightarrow> hm_remove sid (ro_session_slots r))\<rparr>,
           w\<lparr>pw_ids := drop_slot k (pw_ids w)\<rparr>))"

fun on_lifecycle :: "session_to_router \<Rightarrow> router_state \<Rightarrow> router_state" where
  "on_lifecycle (SessionAttached k sid) rw =
     ((fst rw)\<lparr>ro_sessions := hm_modify k (\<lambda>e. e\<lparr>en_session_id := Some sid\<rparr>) (ro_sessions (fst rw)),
        ro_session_slots := hm_insert sid k (ro_session_slots (fst rw))\<rparr>, snd rw)"
| "on_lifecycle (Detached k) rw = remove_session k rw"

section \<open>The loop of the router\<close>

text \<open>What one turn finds: whether the timer has ticked, what the socket and the browser handle have, if
  anything (\<open>Some None\<close>: they have ended), the clock, the listener id and the subscribers.\<close>

record router_turn =
  ru_tick :: bool
  ru_socket :: "(cdp_error + cdp_message) option option"
  ru_browser :: "handler_message option option"
  ru_clock :: instant
  ru_lid :: listener_id
  ru_alive :: "channel \<Rightarrow> bool"

definition flush_router :: "(channel \<Rightarrow> bool) \<Rightarrow> router_state \<Rightarrow> router_state" where
  "flush_router alive rw =
     (let (sent, ls) = EventListeners_flush alive (ro_listeners (fst rw))
      in ((fst rw)\<lparr>ro_listeners := ls\<rparr>, (snd rw)\<lparr>pw_delivered := pw_delivered (snd rw) @ sent\<rparr>))"

text \<open>The branches in their order: the timer, the socket, the tasks, the browser handle.\<close>

definition select_router :: "handler_env \<Rightarrow> router_turn \<Rightarrow> router_state \<Rightarrow> router_outcome" where
  "select_router env ru rw =
     (if ru_tick ru
      then RouterGoes None (evict_router_pending (ru_clock ru) (hc_request_timeout (ro_config (fst rw))) rw)
      else (case ru_socket ru of
          Some (Some (Inr (WsResponse resp))) \<Rightarrow> RouterGoes None (router_on_response env (ru_clock ru) resp rw)
        | Some (Some (Inr (WsEvent ev))) \<Rightarrow> router_on_event env ev rw
        | Some _ \<Rightarrow> RouterEnds rw
        | None \<Rightarrow>
            (case pw_lifecycle (snd rw) of
               msg # msgs \<Rightarrow> RouterGoes None (on_lifecycle msg (fst rw, (snd rw)\<lparr>pw_lifecycle := msgs\<rparr>))
             | [] \<Rightarrow>
                 (case ru_browser ru of
                    None \<Rightarrow> RouterGoes None rw
                  | Some None \<Rightarrow> RouterEnds rw
                  | Some (Some msg) \<Rightarrow> RouterGoes None (router_message (ru_clock ru) (ru_lid ru) msg rw)))))"

definition router_turns :: "handler_env \<Rightarrow> router_turn \<Rightarrow> router_state \<Rightarrow> router_outcome" where
  "router_turns env ru rw = select_router env ru (flush_router (ru_alive ru) rw)"

text \<open>After the loop every session is told to shut down, as far as its inbox has room; then the router and
  its halves of the channels are dropped.\<close>

definition shut_down_all :: "router_state \<Rightarrow> wires" where
  "shut_down_all rw = fold (\<lambda>k. try_post k RtsShutdown) (hm_keys (ro_sessions (fst rw))) (snd rw)"

definition drop_router :: "wires \<Rightarrow> wires" where
  "drop_router w = w\<lparr>pw_router_alive := False, pw_lifecycle := []\<rparr>"

section \<open>The parallel handler\<close>

text \<open>\<open>pl_tasks\<close> holds the tasks that run, with whether they have had their first turn.\<close>

record parallel =
  pl_router :: "router option"
  pl_tasks :: "(slot, bool \<times> session_task) hash_map"
  pl_wires :: wires

datatype parallel_input =
    RouterTurn router_turn
  | SessionTurn slot session_turn
  | WriterGone

definition spawn :: "session_task option \<Rightarrow> (slot, bool \<times> session_task) hash_map \<Rightarrow> (slot, bool \<times> session_task) hash_map" where
  "spawn new tasks = (case new of None \<Rightarrow> tasks | Some s \<Rightarrow> hm_insert (st_slot s) (False, s) tasks)"

fun parallel_step :: "handler_env \<Rightarrow> parallel \<Rightarrow> parallel_input \<Rightarrow> parallel" where
  "parallel_step env p (RouterTurn ru) =
     (case pl_router p of
        None \<Rightarrow> p
      | Some r \<Rightarrow>
          (case router_turns env ru (r, pl_wires p) of
             RouterGoes new (r, w) \<Rightarrow> p\<lparr>pl_router := Some r, pl_tasks := spawn new (pl_tasks p), pl_wires := w\<rparr>
           | RouterPanics \<Rightarrow> p\<lparr>pl_router := None, pl_wires := drop_router (pl_wires p)\<rparr>
           | RouterEnds rw \<Rightarrow> p\<lparr>pl_router := None, pl_wires := drop_router (shut_down_all rw)\<rparr>))"
| "parallel_step env p (SessionTurn k sn) =
     (case hm_get (pl_tasks p) k of
        None \<Rightarrow> p
      | Some (started, s) \<Rightarrow>
          (case (if started then session_turns else first_turn) env sn (s, pl_wires p) of
             (Some s, w) \<Rightarrow> p\<lparr>pl_tasks := hm_insert k (True, s) (pl_tasks p), pl_wires := w\<rparr>
           | (None, w) \<Rightarrow> p\<lparr>pl_tasks := hm_remove k (pl_tasks p), pl_wires := w\<rparr>))"
| "parallel_step env p WriterGone = p\<lparr>pl_wires := (pl_wires p)\<lparr>pw_closed := True\<rparr>\<rparr>"

text \<open>\<open>run_parallel\<close>: the connection is split, the boot command is the last one queued. \<open>None\<close> without a
  connection.\<close>

definition run_parallel :: "instant \<Rightarrow> handler \<Rightarrow> parallel option" where
  "run_parallel clock h =
     (case hd_conn h of
        None \<Rightarrow> None
      | Some c \<Rightarrow>
          let ws = into_async c;
              next_id = wt_next_id ws;
              boot_call_id = saturating_sub64 next_id 1
          in Some \<lparr>pl_router = Some (Router_new (hd_config h) (hd_default_context h) boot_call_id (fst DISCOVER_ID) clock),
               pl_tasks = [], pl_wires = Router_wires next_id (wt_sent ws)\<rparr>)"

end
