(* ===== verification/Parallel_Routing.thy ===== *)
theory Parallel_Routing
  imports Router
begin

text \<open>
  Who owns a call of the parallel handler. Every call id is drawn once, for one slot; its route, the
  inbox its response is put in and the table it waits in all belong to that slot. What a task does to
  the shared record touches its own part of it only; the tables of slots agree with each other and
  with the tasks that run.
\<close>

section \<open>Drawn ids\<close>

text \<open>The ids are drawn in sequence; below the width of the counter none comes twice.\<close>

definition ids_ok :: "u64 \<Rightarrow> id_allocator \<Rightarrow> bool" where
  "ids_ok start a \<longleftrightarrow> map fst (ia_drawn a) = map (\<lambda>n. start + of_nat n) [0..<length (ia_drawn a)] \<and>
     ia_next a = start + of_nat (length (ia_drawn a))"

lemma alloc_fields [simp]:
  "fst (ids_alloc k a) = ia_next a" "ia_drawn (snd (ids_alloc k a)) = ia_drawn a @ [(ia_next a, k)]"
  "ia_next (snd (ids_alloc k a)) = ia_next a + 1"
  "ia_routing (snd (ids_alloc k a)) = (if k \<noteq> 0 then hm_insert (ia_next a) k (ia_routing a) else ia_routing a)"
  by (simp_all add: ids_alloc_def Let_def)

lemma route_fields [simp]:
  "ia_drawn (snd (take_route c a)) = ia_drawn a" "ia_next (snd (take_route c a)) = ia_next a"
  "ia_routing (snd (take_route c a)) = hm_remove c (ia_routing a)" "fst (take_route c a) = hm_get (ia_routing a) c"
  "ia_drawn (drop_slot k a) = ia_drawn a" "ia_next (drop_slot k a) = ia_next a"
  "ia_routing (drop_slot k a) = hm_retain (\<lambda>_ s. s \<noteq> k) (ia_routing a)"
  by (simp_all add: take_route_def drop_slot_def)

lemma ids_ok_simps:
  "ids_ok start a \<Longrightarrow> ids_ok start (snd (ids_alloc k a))"
  "ids_ok start (snd (take_route c a)) = ids_ok start a" "ids_ok start (drop_slot k a) = ids_ok start a"
  by (auto simp: ids_ok_def add.assoc)

lemma offset_inj: "(start::u64) + of_nat m = start + of_nat n \<Longrightarrow> m < 2 ^ 64 \<Longrightarrow> n < 2 ^ 64 \<Longrightarrow> m = n"
proof -
  assume "start + of_nat m = start + of_nat n" and bounds: "m < 2 ^ 64" "n < 2 ^ 64"
  then have "unat (of_nat m :: u64) = unat (of_nat n :: u64)" by simp
  then show ?thesis using bounds by (simp add: unsigned_of_nat take_bit_nat_eq_self)
qed

lemma drawn_distinct:
  assumes "ids_ok start a" "length (ia_drawn a) < 2 ^ 64"
  shows "distinct (map fst (ia_drawn a))"
proof -
  have "inj_on (\<lambda>n. start + of_nat n) (set [0..<length (ia_drawn a)])"
    using assms(2) by (intro inj_onI) (auto intro: offset_inj)
  then have "distinct (map (\<lambda>n. start + of_nat n) [0..<length (ia_drawn a)])" by (simp add: distinct_map)
  then show ?thesis using assms(1) by (simp add: ids_ok_def)
qed

lemma drawn_id: "ids_ok start a \<Longrightarrow> (c, k) \<in> set (ia_drawn a) \<Longrightarrow> \<exists>n < length (ia_drawn a). c = start + of_nat n"
proof -
  assume ok: "ids_ok start a" and "(c, k) \<in> set (ia_drawn a)"
  then have "c \<in> set (map fst (ia_drawn a))" by force
  also have "set (map fst (ia_drawn a)) = (\<lambda>n. start + of_nat n) ` {0..<length (ia_drawn a)}"
    using ok unfolding ids_ok_def by (metis set_map set_upt)
  finally show ?thesis by auto
qed

lemma next_fresh: "ids_ok start a \<Longrightarrow> length (ia_drawn a) < 2 ^ 64 \<Longrightarrow> (ia_next a, k) \<notin> set (ia_drawn a)"
proof
  assume ok: "ids_ok start a" and bound: "length (ia_drawn a) < 2 ^ 64" and "(ia_next a, k) \<in> set (ia_drawn a)"
  then obtain n where n: "n < length (ia_drawn a)" "start + of_nat (length (ia_drawn a)) = start + of_nat n"
    using drawn_id [of start a "ia_next a" k] by (auto simp: ids_ok_def)
  then show False using offset_inj [OF n(2)] bound by simp
qed

lemma owner_unique:
  assumes "ids_ok start a" "length (ia_drawn a) < 2 ^ 64" "(c, j) \<in> set (ia_drawn a)" "(c, k) \<in> set (ia_drawn a)"
  shows "j = k"
  using drawn_distinct [OF assms(1,2)] assms(3,4) by (metis eq_key_imp_eq_value)

abbreviation drawn :: "wires \<Rightarrow> (call_id \<times> slot) list" where
  "drawn w \<equiv> ia_drawn (pw_ids w)"

abbreviation route :: "wires \<Rightarrow> call_id \<Rightarrow> slot option" where
  "route w \<equiv> hm_get (ia_routing (pw_ids w))"

text \<open>A response to \<open>c\<close> is in the inbox of slot \<open>k\<close>.\<close>

definition answered_in :: "wires \<Rightarrow> slot \<Rightarrow> call_id \<Rightarrow> bool" where
  "answered_in w k c \<longleftrightarrow> (\<exists>q resp m. hm_get (pw_inboxes w) k = Some q \<and> RtsResponse c resp m \<in> set q)"

definition waiting :: "session_task \<Rightarrow> call_id \<Rightarrow> bool" where
  "waiting s c \<longleftrightarrow> hm_get (st_pending s) c \<noteq> None"

section \<open>What a task does to the wires\<close>

text \<open>The routes and the waiting calls of a task are those it has drawn.\<close>

definition routes_ok :: "u64 \<Rightarrow> wires \<Rightarrow> bool" where
  "routes_ok start w \<longleftrightarrow> ids_ok start (pw_ids w) \<and> (\<forall>c k. route w c = Some k \<longrightarrow> k \<noteq> 0 \<and> (c, k) \<in> set (drawn w))"

definition waits_ok :: "slot \<Rightarrow> session_task \<Rightarrow> wires \<Rightarrow> bool" where
  "waits_ok k s w \<longleftrightarrow> st_slot s = k \<and> k \<noteq> 0 \<and> (\<forall>c. waiting s c \<longrightarrow>
     (c, k) \<in> set (drawn w) \<and> (route w c = Some k \<or> answered_in w k c))"

definition session_ok :: "u64 \<Rightarrow> slot \<Rightarrow> session_state \<Rightarrow> bool" where
  "session_ok start k sw \<longleftrightarrow> routes_ok start (snd sw) \<and> waits_ok k (fst sw) (snd sw)"

fun lifecycle_slot :: "session_to_router \<Rightarrow> slot" where
  "lifecycle_slot (SessionAttached k _) = k"
| "lifecycle_slot (Detached k) = k"

text \<open>Everything that belongs to other slots is kept, and what is new belongs to \<open>k\<close>.\<close>

definition others_kept :: "slot \<Rightarrow> wires \<Rightarrow> wires \<Rightarrow> bool" where
  "others_kept k w w' \<longleftrightarrow>
     (\<exists>new. drawn w' = drawn w @ new \<and> list_all (\<lambda>(_, j). j = k) new) \<and>
     (\<forall>c j. j \<noteq> k \<longrightarrow> (route w' c = Some j) = (route w c = Some j)) \<and>
     (\<forall>j. j \<noteq> k \<longrightarrow> hm_get (pw_inboxes w') j = hm_get (pw_inboxes w) j) \<and>
     pw_router_alive w' = pw_router_alive w \<and>
     (\<exists>msgs. pw_lifecycle w' = pw_lifecycle w @ msgs \<and> list_all (\<lambda>m. lifecycle_slot m = k) msgs)"

definition own_inbox_kept :: "slot \<Rightarrow> wires \<Rightarrow> wires \<Rightarrow> bool" where
  "own_inbox_kept k w w' \<longleftrightarrow> hm_get (pw_inboxes w') k = hm_get (pw_inboxes w) k \<and>
     (\<forall>j. Detached j \<in> set (pw_lifecycle w') \<longrightarrow> Detached j \<in> set (pw_lifecycle w))"

lemma others_kept_refl: "others_kept k w w"
  unfolding others_kept_def by (auto intro: exI [of _ "[]"])

lemma others_kept_trans:
  assumes "others_kept k w1 w2" "others_kept k w2 w3"
  shows "others_kept k w1 w3"
proof -
  obtain n1 m1 n2 m2 where
    "drawn w2 = drawn w1 @ n1" "list_all (\<lambda>(_, j). j = k) n1"
    "pw_lifecycle w2 = pw_lifecycle w1 @ m1" "list_all (\<lambda>m. lifecycle_slot m = k) m1"
    "drawn w3 = drawn w2 @ n2" "list_all (\<lambda>(_, j). j = k) n2"
    "pw_lifecycle w3 = pw_lifecycle w2 @ m2" "list_all (\<lambda>m. lifecycle_slot m = k) m2"
    using assms unfolding others_kept_def by blast
  then have "drawn w3 = drawn w1 @ (n1 @ n2) \<and> list_all (\<lambda>(_, j). j = k) (n1 @ n2)"
    "pw_lifecycle w3 = pw_lifecycle w1 @ (m1 @ m2) \<and> list_all (\<lambda>m. lifecycle_slot m = k) (m1 @ m2)"
    by simp_all
  then show ?thesis using assms unfolding others_kept_def by auto
qed

text \<open>
  A move of the task of slot \<open>k\<close>: it draws ids of its own, keeps its invariant and what belongs to
  others. The width of the counter bounds the ids drawn in the end, so also those drawn before.
\<close>

definition session_moves :: "u64 \<Rightarrow> slot \<Rightarrow> session_state \<Rightarrow> session_state \<Rightarrow> bool" where
  "session_moves start k sw sw' \<longleftrightarrow> length (drawn (snd sw)) \<le> length (drawn (snd sw')) \<and>
     (length (drawn (snd sw')) < 2 ^ 64 \<longrightarrow> session_ok start k sw \<longrightarrow>
       session_ok start k sw' \<and> others_kept k (snd sw) (snd sw') \<and> own_inbox_kept k (snd sw) (snd sw'))"

lemma session_moves_refl: "session_moves start k sw sw"
  by (simp add: session_moves_def others_kept_refl own_inbox_kept_def)

lemma session_moves_trans: "session_moves start k sw1 sw2 \<Longrightarrow> session_moves start k sw2 sw3 \<Longrightarrow> session_moves start k sw1 sw3"
  unfolding session_moves_def own_inbox_kept_def using others_kept_trans by (smt (verit) le_less_trans order_trans)

lemma moves_fold: "(\<And>x sw. session_moves start k sw (f x sw)) \<Longrightarrow> session_moves start k sw (fold f xs sw)"
proof (induction xs arbitrary: sw)
  case (Cons x xs)
  then show ?case using session_moves_trans [OF Cons.prems [of sw x] Cons.IH] by simp
qed (simp add: session_moves_refl)

text \<open>Moves that draw nothing, and that draw one id.\<close>

lemma moves_quiet:
  assumes "pw_ids w' = pw_ids w" "pw_inboxes w' = pw_inboxes w" "pw_router_alive w' = pw_router_alive w"
    "\<exists>msgs. pw_lifecycle w' = pw_lifecycle w @ msgs \<and> list_all (\<lambda>m. \<exists>sid. m = SessionAttached (st_slot s) sid) msgs"
    "st_slot s' = st_slot s" "\<And>c. waiting s' c \<Longrightarrow> waiting s c"
  shows "session_moves start k (s, w) (s', w')"
proof -
  have "others_kept (st_slot s) w w'" "own_inbox_kept (st_slot s) w w'"
    using assms(1-4) unfolding others_kept_def own_inbox_kept_def by (fastforce simp: list_all_iff)+
  moreover have "session_ok start k (s, w) \<Longrightarrow> session_ok start k (s', w')"
    using assms by (auto simp: session_ok_def routes_ok_def waits_ok_def answered_in_def)
  ultimately show ?thesis using assms(1) by (auto simp: session_moves_def session_ok_def waits_ok_def)
qed

lemma moves_drawn:
  assumes "pw_ids w' = snd (ids_alloc (st_slot s) (pw_ids w))" "pw_inboxes w' = pw_inboxes w"
    "pw_router_alive w' = pw_router_alive w" "pw_lifecycle w' = pw_lifecycle w" "st_slot s' = st_slot s"
    "\<And>c. waiting s' c \<Longrightarrow> waiting s c \<or> c = ia_next (pw_ids w)"
  shows "session_moves start k (s, w) (s', w')"
proof -
  have "session_ok start k (s', w') \<and> others_kept k w w' \<and> own_inbox_kept k w w'"
    if bound: "length (drawn w') < 2 ^ 64" and ok: "session_ok start k (s, w)"
  proof -
    have k: "st_slot s = k" "k \<noteq> 0" and ids: "ids_ok start (pw_ids w)"
      and routes: "\<And>c j. route w c = Some j \<Longrightarrow> j \<noteq> 0 \<and> (c, j) \<in> set (drawn w)"
      using ok by (auto simp: session_ok_def waits_ok_def routes_ok_def)
    have fresh: "\<And>j. (ia_next (pw_ids w), j) \<notin> set (drawn w)"
      using next_fresh [OF ids] bound assms(1) by simp
    have new: "route w' c = (if c = ia_next (pw_ids w) then Some k else route w c)" for c
      using assms(1) k by simp
    have "others_kept k w w'" unfolding others_kept_def
      using assms(1-4) k new routes fresh by auto
    moreover have "routes_ok start w'"
      using ids_ok_simps(1) [OF ids] routes new k assms(1) by (auto simp: routes_ok_def split: if_splits)
    moreover have "waits_ok k s' w'"
      using ok assms(2,5,6) new k assms(1) unfolding session_ok_def waits_ok_def answered_in_def by fastforce
    ultimately show ?thesis using assms(2,4) by (simp add: session_ok_def own_inbox_kept_def)
  qed
  then show ?thesis using assms(1) by (simp add: session_moves_def)
qed

lemma wire_call_fields [simp]:
  "pw_ids (snd (wire_call k req w)) = snd (ids_alloc k (pw_ids w))"
  "pw_inboxes (snd (wire_call k req w)) = pw_inboxes w" "pw_router_alive (snd (wire_call k req w)) = pw_router_alive w"
  "pw_lifecycle (snd (wire_call k req w)) = pw_lifecycle w" "pw_sent (snd (wire_call k req w)) = pw_sent w"
  "fst (wire_call k req w) = Some c \<Longrightarrow> c = ia_next (pw_ids w)"
  by (auto simp: wire_call_def case_prod_beta Let_def split: if_splits)

lemma answer_fields [simp]:
  "pw_ids (wire_answer tx r w) = pw_ids w" "pw_inboxes (wire_answer tx r w) = pw_inboxes w"
  "pw_router_alive (wire_answer tx r w) = pw_router_alive w" "pw_lifecycle (wire_answer tx r w) = pw_lifecycle w"
  by (simp_all add: wire_answer_def)

lemma waiting_fields [simp]:
  "waiting (s\<lparr>st_target := t\<rparr>) = waiting s" "waiting (s\<lparr>st_navigations := n\<rparr>) = waiting s"
  "waiting (s\<lparr>st_next_nav_id := i\<rparr>) = waiting s" "waiting (s\<lparr>st_session_id_reported := b\<rparr>) = waiting s"
  "waiting (s\<lparr>st_pending := []\<rparr>) c = False"
  "waiting (session_await c p m now s) c' = (c' = c \<or> waiting s c')"
  "waiting (s\<lparr>st_pending := hm_remove c (st_pending s)\<rparr>) c' = (c' \<noteq> c \<and> waiting s c')"
  by (auto simp: waiting_def fun_eq_iff session_await_def)

lemma slot_fields [simp]: "st_slot (session_await c p m now s) = st_slot s"
  by (simp add: session_await_def)

text \<open>Every submission is a move that draws one id.\<close>

lemma moves_call:
  assumes "wire_call (st_slot s) req w = (r, w1)" "pw_ids w' = pw_ids w1" "pw_inboxes w' = pw_inboxes w1"
    "pw_router_alive w' = pw_router_alive w1" "pw_lifecycle w' = pw_lifecycle w1" "st_slot s' = st_slot s"
    "\<And>c. waiting s' c \<Longrightarrow> waiting s c \<or> r = Some c"
  shows "session_moves start k (s, w) (s', w')"
proof -
  have w1: "w1 = snd (wire_call (st_slot s) req w)" and r: "r = fst (wire_call (st_slot s) req w)" using assms(1) by simp_all
  show ?thesis
  proof (rule moves_drawn)
    show "waiting s c \<or> c = ia_next (pw_ids w)" if "waiting s' c" for c
      using assms(7) [OF that] wire_call_fields(6) [of "st_slot s" req w c] unfolding r by blast
  qed (use assms(2-6) in \<open>simp_all add: w1\<close>)
qed

lemma moves_event: "session_moves start k sw (session_event env now ev sw)"
proof -
  obtain s w where sw: "sw = (s, w)" by fastforce
  show ?thesis
  proof (cases ev)
    case (TargetRequest req)
    obtain r w1 where "wire_call (st_slot s) req w = (r, w1)" by fastforce
    then show ?thesis using TargetRequest sw
      by (cases r) (auto simp: submit_internal_def intro!: moves_call [of s req w])
  next
    case (TargetNavigationRequest i req)
    obtain r w1 where "wire_call (st_slot s) req w = (r, w1)" by fastforce
    then show ?thesis using TargetNavigationRequest sw
      by (cases r) (auto simp: submit_nav_request_def intro!: moves_call [of s req w])
  next
    case (TargetCommand msg)
    let ?req = "fst (CommandMessage_split msg)"
    obtain r w1 where "wire_call (st_slot s) ?req w = (r, w1)" by fastforce
    then show ?thesis using TargetCommand sw
      by (cases r) (auto simp: submit_external_def submit_navigation_command_def alloc_nav_id_def case_prod_beta Let_def
          intro!: moves_call [of s ?req w])
  next
    case (TargetNavigationResult res)
    show ?thesis unfolding TargetNavigationResult sw
      by (auto simp: session_lifecycle_completed_def Let_def session_moves_refl split: sum.split option.split intro!: moves_quiet)
  qed (simp add: session_moves_refl)
qed

lemma moves_advance: "session_moves start k sw (advance_session env now rd sw)"
proof (induction env now rd sw rule: advance_session.induct)
  case (1 env now rd sw)
  obtain r t where adv: "Target_advance (he_target env) (rd_gone (rd 0)) now (rd_clock (rd 0)) (st_target (fst sw)) = (r, t)"
    by fastforce
  have first: "session_moves start k sw ((fst sw)\<lparr>st_target := t\<rparr>, snd sw)"
    by (cases sw) (auto intro!: moves_quiet)
  show ?case
  proof (cases r)
    case (Some ev)
    then show ?thesis using session_moves_trans [OF first session_moves_trans [OF moves_event 1 [OF adv [symmetric] Some]]] adv
      by (simp add: advance_session.simps [of env now rd sw])
  qed (use first adv in \<open>simp add: advance_session.simps [of env now rd sw]\<close>)
qed

lemma moves_drive: "session_moves start k sw (session_drive env sn sw)"
proof -
  obtain s w where sw: "sw = (s, w)" by fastforce
  have first: "session_moves start k sw (s\<lparr>st_target := drain_page (sn_lid sn) (st_target s)\<rparr>, w)"
    unfolding sw by (rule moves_quiet) simp_all
  obtain s1 w1 where adv: "advance_session env (sn_now sn) (sn_reading sn)
      (s\<lparr>st_target := drain_page (sn_lid sn) (st_target s)\<rparr>, w) = (s1, w1)" by fastforce
  have last: "session_moves start k (s1, w1) (s1\<lparr>st_target := t\<rparr>, w1\<lparr>pw_delivered := d\<rparr>)" for t d
    by (rule moves_quiet) simp_all
  have "session_moves start k (s\<lparr>st_target := drain_page (sn_lid sn) (st_target s)\<rparr>, w) (s1, w1)"
    using moves_advance adv by metis
  then show ?thesis using session_moves_trans [OF first session_moves_trans [OF _ last]] adv
    by (simp add: session_drive_def sw case_prod_beta)
qed

lemma moves_arrivals: "session_moves start k (s, w) (page_arrivals msgs s, w)"
  unfolding page_arrivals_def by (rule moves_quiet) simp_all

lemma moves_evict_call:
  assumes "waiting (fst sw) c"
  shows "session_moves start k sw (evict_call c sw)"
proof -
  obtain s w where sw: "sw = (s, w)" by fastforce
  let ?w = "w\<lparr>pw_ids := snd (take_route c (pw_ids w))\<rparr>"
  let ?s = "s\<lparr>st_pending := hm_remove c (st_pending s)\<rparr>"
  have route: "route ?w c' = (if c' = c then None else route w c')" for c' by simp
  have first: "session_moves start k (s, w) (?s, ?w)"
  proof -
    have "session_ok start k (?s, ?w) \<and> others_kept k w ?w \<and> own_inbox_kept k w ?w"
      if ok: "session_ok start k (s, w)" and bound: "length (drawn w) < 2 ^ 64"
    proof -
      have "(c, k) \<in> set (drawn w)" using ok assms sw by (simp add: session_ok_def waits_ok_def)
      then have own: "route w c = Some j \<Longrightarrow> j = k" for j
        using ok owner_unique [of start "pw_ids w" c j k] bound by (auto simp: session_ok_def routes_ok_def)
      have "others_kept k w ?w" unfolding others_kept_def route using own by auto
      moreover have "routes_ok start ?w" using ok unfolding session_ok_def routes_ok_def route
        by (auto simp: ids_ok_simps split: if_splits)
      moreover have "waits_ok k ?s ?w" using ok unfolding session_ok_def waits_ok_def route
        by (auto simp: answered_in_def)
      ultimately show ?thesis by (simp add: session_ok_def own_inbox_kept_def)
    qed
    then show ?thesis by (simp add: session_moves_def)
  qed
  have fail: "session_moves start k (s1, w1) (fail_pending e p (s1, w1))" for s1 w1 e p
    by (auto simp: fail_pending_def session_moves_refl split: session_pending.split option.split intro!: moves_quiet)
  obtain p m ts where "hm_get (st_pending s) c = Some (p, m, ts)"
    using assms sw unfolding waiting_def by (cases "hm_get (st_pending s) c") auto
  then show ?thesis using session_moves_trans [OF first fail] assms sw by (simp add: evict_call_def)
qed

lemma evict_call_waiting: "waiting (fst (evict_call c sw)) c' \<longleftrightarrow> c' \<noteq> c \<and> waiting (fst sw) c'"
proof -
  obtain s w where sw: "sw = (s, w)" by fastforce
  have fail: "waiting (fst (fail_pending e p sw')) = waiting (fst sw')" for e p sw'
    by (auto simp: fail_pending_def split: session_pending.split option.split)
  show ?thesis
  proof (cases "hm_get (st_pending s) c")
    case None
    then show ?thesis by (auto simp: evict_call_def sw waiting_def)
  next
    case (Some q)
    then show ?thesis by (cases q) (simp add: evict_call_def sw fail)
  qed
qed

lemma moves_evict: "session_moves start k sw (session_evict_stale now sw)"
proof -
  have "distinct cs \<Longrightarrow> \<forall>c \<in> set cs. waiting (fst sw) c \<Longrightarrow> session_moves start k sw (fold evict_call cs sw)" for cs sw
  proof (induction cs arbitrary: sw)
    case (Cons c cs)
    then have "session_moves start k (evict_call c sw) (fold evict_call cs (evict_call c sw))"
      by (intro Cons.IH) (auto simp: evict_call_waiting)
    from session_moves_trans [OF moves_evict_call this] show ?case using Cons.prems by simp
  qed (simp add: session_moves_refl)
  moreover have "distinct (stale_calls d s)" "\<forall>c \<in> set (stale_calls d s). waiting s c" for d s
    by (auto simp: stale_calls_def waiting_def hm.distinct_keys split: option.splits)
  ultimately show ?thesis by (simp add: session_evict_stale_def session_moves_refl split: option.split)
qed

section \<open>A turn of a task\<close>

lemma session_ok_pop:
  assumes "session_ok start k (s, w)" "hm_get (pw_inboxes w) k = Some (msg # q)" "st_slot s' = st_slot s"
    and "\<And>c. waiting s' c \<Longrightarrow> waiting s c \<and> (\<forall>resp m. msg \<noteq> RtsResponse c resp m)"
  shows "session_ok start k (s', w\<lparr>pw_inboxes := hm_insert k q (pw_inboxes w)\<rparr>)"
proof -
  have "answered_in (w\<lparr>pw_inboxes := hm_insert k q (pw_inboxes w)\<rparr>) k c" if "waiting s' c" "answered_in w k c" for c
    using assms(2) assms(4) [OF that(1)] that(2) by (auto simp: answered_in_def)
  then have "waits_ok k s' (w\<lparr>pw_inboxes := hm_insert k q (pw_inboxes w)\<rparr>)"
    using assms(1,3) assms(4) unfolding session_ok_def waits_ok_def by simp blast
  then show ?thesis using assms(1) by (simp add: session_ok_def routes_ok_def)
qed

lemma fail_moves: "session_moves start k sw (fail_pending e p sw)"
  by (cases sw) (auto simp: fail_pending_def session_moves_refl split: session_pending.split option.split intro!: moves_quiet)

lemma report_attached: "\<exists>msgs. pw_lifecycle (report (SessionAttached k sid) w) = pw_lifecycle w @ msgs \<and>
    list_all (\<lambda>m. \<exists>sid. m = SessionAttached k sid) msgs"
  by (auto simp: report_def)

lemma report_fields [simp]: "pw_ids (report m w) = pw_ids w" "pw_inboxes (report m w) = pw_inboxes w"
  "pw_router_alive (report m w) = pw_router_alive w" "pw_sent (report m w) = pw_sent w"
  by (simp_all add: report_def)

lemma moves_learn: "session_moves start k sw (learn_session env m resp sw)"
  by (cases sw) (auto simp: learn_session_def Let_def session_moves_refl report_attached split: sum.split intro!: moves_quiet)

lemma moves_navigation: "session_moves start k sw (session_navigation_response i resp sw)"
  by (cases sw) (auto simp: session_navigation_response_def Let_def session_moves_refl split: option.split intro!: moves_quiet)

text \<open>After the response has left the inbox and its entry the table, the rest is a move.\<close>

lemma moves_response:
  assumes "hm_get (st_pending s) c = Some (p, m, ts)"
  shows "session_moves start k (s\<lparr>st_pending := hm_remove c (st_pending s)\<rparr>, w) (session_on_response env c resp (s, w))"
proof (cases p)
  case SpInternal
  let ?s = "s\<lparr>st_pending := hm_remove c (st_pending s)\<rparr>"
  obtain s1 w1 where learn: "learn_session env m resp (?s, w) = (s1, w1)" by fastforce
  have "session_moves start k (s1, w1) (s1\<lparr>st_target := t\<rparr>, w1)" for t by (rule moves_quiet) simp_all
  then show ?thesis using session_moves_trans [OF moves_learn [of start k "(?s, w)" env m resp]] assms SpInternal learn
    by (simp add: session_on_response_def)
next
  case (SpExternal tx)
  then show ?thesis using assms by (auto simp: session_on_response_def intro!: moves_quiet)
next
  case (SpNavigate i)
  then show ?thesis using assms moves_navigation by (simp add: session_on_response_def)
qed

text \<open>What a turn of a running task does: others are kept, and its inbox loses at most its first message.\<close>

definition turn_ok :: "u64 \<Rightarrow> slot \<Rightarrow> session_state \<Rightarrow> session_state \<Rightarrow> bool" where
  "turn_ok start k sw sw' \<longleftrightarrow> length (drawn (snd sw)) \<le> length (drawn (snd sw')) \<and>
     (length (drawn (snd sw')) < 2 ^ 64 \<longrightarrow> session_ok start k sw \<longrightarrow>
       session_ok start k sw' \<and> others_kept k (snd sw) (snd sw') \<and>
       (hm_get (pw_inboxes (snd sw')) k = hm_get (pw_inboxes (snd sw)) k \<or>
        (\<exists>msg q. hm_get (pw_inboxes (snd sw)) k = Some (msg # q) \<and> hm_get (pw_inboxes (snd sw')) k = Some q)) \<and>
       (\<forall>j. Detached j \<in> set (pw_lifecycle (snd sw')) \<longrightarrow> Detached j \<in> set (pw_lifecycle (snd sw))))"

lemma turn_of_moves: "session_moves start k sw sw' \<Longrightarrow> turn_ok start k sw sw'"
  by (simp add: session_moves_def turn_ok_def own_inbox_kept_def)

lemma turn_then_moves: "turn_ok start k sw1 sw2 \<Longrightarrow> session_moves start k sw2 sw3 \<Longrightarrow> turn_ok start k sw1 sw3"
  unfolding session_moves_def turn_ok_def own_inbox_kept_def using others_kept_trans by (smt (verit) le_less_trans order_trans)

lemma moves_then_turn: "session_moves start k sw1 sw2 \<Longrightarrow> turn_ok start k sw2 sw3 \<Longrightarrow> turn_ok start k sw1 sw3"
  unfolding session_moves_def turn_ok_def own_inbox_kept_def using others_kept_trans by (smt (verit) le_less_trans order_trans)

lemma turn_pop:
  assumes "hm_get (pw_inboxes w) (st_slot s) = Some (msg # q)" "st_slot s' = st_slot s"
    and "\<And>c. waiting s' c \<Longrightarrow> waiting s c \<and> (\<forall>resp m. msg \<noteq> RtsResponse c resp m)"
  shows "turn_ok start k (s, w) (s', w\<lparr>pw_inboxes := hm_insert (st_slot s) q (pw_inboxes w)\<rparr>)"
proof -
  let ?w = "w\<lparr>pw_inboxes := hm_insert (st_slot s) q (pw_inboxes w)\<rparr>"
  have "session_ok start k (s', ?w)" "others_kept k w ?w" "hm_get (pw_inboxes w) k = Some (msg # q)"
    if ok: "session_ok start k (s, w)"
  proof -
    have k: "st_slot s = k" using ok by (simp add: session_ok_def waits_ok_def)
    show "session_ok start k (s', ?w)" using session_ok_pop [OF ok _ assms(2,3)] assms(1) k by simp
    show "others_kept k w ?w" using k by (auto simp: others_kept_def)
    show "hm_get (pw_inboxes w) k = Some (msg # q)" using assms(1) k by simp
  qed
  then show ?thesis by (auto simp: turn_ok_def session_ok_def waits_ok_def)
qed

lemma turn_select:
  assumes "select_session env sn (s, w) = SelectGo sw'"
  shows "turn_ok start k (s, w) sw'"
proof (cases "\<exists>msg q. hm_get (pw_inboxes w) (st_slot s) = Some (msg # q)")
  case True
  then obtain msg q where head: "hm_get (pw_inboxes w) (st_slot s) = Some (msg # q)" by blast
  let ?w = "w\<lparr>pw_inboxes := hm_insert (st_slot s) q (pw_inboxes w)\<rparr>"
  have out: "session_message env (sn_clock sn) msg (s, ?w) = Some sw'"
    using assms head by (auto simp: select_session_def split: option.splits)
  show ?thesis
  proof (cases msg)
    case (RtsResponse c resp m)
    show ?thesis
    proof (cases "hm_get (st_pending s) c")
      case None
      then have "turn_ok start k (s, w) (s, ?w)"
        using head RtsResponse by (intro turn_pop) (auto simp: waiting_def)
      then show ?thesis using out RtsResponse None by (simp add: session_on_response_def)
    next
      case (Some p)
      let ?s = "s\<lparr>st_pending := hm_remove c (st_pending s)\<rparr>"
      have "turn_ok start k (s, w) (?s, ?w)" using head RtsResponse by (intro turn_pop) auto
      then show ?thesis using out RtsResponse Some turn_then_moves moves_response [of s c _ _ _ start k ?w env resp]
        by (cases p) auto
    qed
  qed (use out head in \<open>auto intro!: turn_pop\<close>)
next
  case False
  then have "sw' = (s, w) \<or> sw' = session_evict_stale (sn_clock sn) (s, w)"
    using assms by (auto simp: select_session_def split: option.splits list.splits if_splits)
  then show ?thesis using turn_of_moves session_moves_refl moves_evict by metis
qed

lemma turn_session:
  assumes "session_turns env sn (s, w) = (Some s', w') \<or> first_turn env sn (s, w) = (Some s', w')"
  shows "turn_ok start k (s, w) (s', w')"
proof -
  let ?s = "page_arrivals (sn_arrived sn) s"
  have drive: "turn_ok start k (s, w) (session_drive env sn sw)" if "turn_ok start k (?s, w) sw" for sw
    using moves_then_turn [OF moves_arrivals turn_then_moves [OF that moves_drive]] .
  consider "first_turn env sn (s, w) = (Some s', w')"
    | "session_turns env sn (s, w) = (Some s', w')" "select_session env sn (?s, w) = SelectPending"
    | sw where "session_turns env sn (s, w) = (Some s', w')" "select_session env sn (?s, w) = SelectGo sw"
    using assms by (cases "select_session env sn (?s, w)") (auto simp: session_turns_def)
  then show ?thesis
  proof cases
    case 1
    then have "(s', w') = session_drive env sn (?s, w)" by (simp add: first_turn_def case_prod_beta prod_eq_iff)
    then show ?thesis using drive [OF turn_of_moves [OF session_moves_refl]] by metis
  next
    case 2
    then show ?thesis using turn_of_moves [OF moves_arrivals [of start k s w "sn_arrived sn"]] by (simp add: session_turns_def)
  next
    case 3
    then have "(s', w') = session_drive env sn sw" by (simp add: session_turns_def case_prod_beta prod_eq_iff)
    then show ?thesis using drive [OF turn_select [OF 3(2)]] by metis
  qed
qed

text \<open>The end of a task.\<close>

lemma cancel_fields:
  "pw_ids (snd (cancel_in_flight sw)) = pw_ids (snd sw)" "pw_inboxes (snd (cancel_in_flight sw)) = pw_inboxes (snd sw)"
  "pw_router_alive (snd (cancel_in_flight sw)) = pw_router_alive (snd sw)"
  "pw_lifecycle (snd (cancel_in_flight sw)) = pw_lifecycle (snd sw)" "st_slot (fst (cancel_in_flight sw)) = st_slot (fst sw)"
proof -
  let ?same = "\<lambda>sw sw'. pw_ids (snd sw') = pw_ids (snd sw) \<and> pw_inboxes (snd sw') = pw_inboxes (snd sw) \<and>
    pw_router_alive (snd sw') = pw_router_alive (snd sw) \<and> pw_lifecycle (snd sw') = pw_lifecycle (snd sw) \<and>
    st_slot (fst sw') = st_slot (fst sw)"
  have fail: "?same u (fail_pending e p u)" for e p u
    by (auto simp: fail_pending_def split: session_pending.split option.split)
  have fold: "?same u (fold (\<lambda>(p, _, _). fail_pending e p) ps u)" for e ps u
    by (induction ps arbitrary: u) (auto simp: fail)
  have answers: "pw_ids (fold (\<lambda>nav :: navigation_in_progress. wire_answer (np_tx nav) r) ns w) = pw_ids w \<and>
      pw_inboxes (fold (\<lambda>nav. wire_answer (np_tx nav) r) ns w) = pw_inboxes w \<and>
      pw_router_alive (fold (\<lambda>nav. wire_answer (np_tx nav) r) ns w) = pw_router_alive w \<and>
      pw_lifecycle (fold (\<lambda>nav. wire_answer (np_tx nav) r) ns w) = pw_lifecycle w" for r ns w
    by (induction ns arbitrary: w) auto
  have "?same sw (cancel_in_flight sw)"
    using fold [of target_gone "hm_values (st_pending (fst sw))" "((fst sw)\<lparr>st_pending := []\<rparr>, snd sw)"] answers
    by (simp add: cancel_in_flight_def case_prod_beta)
  then show "pw_ids (snd (cancel_in_flight sw)) = pw_ids (snd sw)" "pw_inboxes (snd (cancel_in_flight sw)) = pw_inboxes (snd sw)"
    "pw_router_alive (snd (cancel_in_flight sw)) = pw_router_alive (snd sw)"
    "pw_lifecycle (snd (cancel_in_flight sw)) = pw_lifecycle (snd sw)" "st_slot (fst (cancel_in_flight sw)) = st_slot (fst sw)"
    by simp_all
qed

lemma turn_ends:
  assumes "session_turns env sn (s, w) = (None, w')"
  shows "pw_ids w' = pw_ids w" "pw_inboxes w' = hm_remove (st_slot s) (pw_inboxes w)" "pw_router_alive w' = pw_router_alive w"
    "pw_lifecycle w' = pw_lifecycle w \<or> pw_lifecycle w' = pw_lifecycle w @ [Detached (st_slot s)]"
    "\<not> pw_router_alive w \<Longrightarrow> pw_lifecycle w' = pw_lifecycle w"
proof -
  have "w' = session_ends (page_arrivals (sn_arrived sn) s, w)"
    using assms by (cases "select_session env sn (page_arrivals (sn_arrived sn) s, w)")
      (simp_all add: session_turns_def case_prod_beta)
  then show "pw_ids w' = pw_ids w" "pw_inboxes w' = hm_remove (st_slot s) (pw_inboxes w)" "pw_router_alive w' = pw_router_alive w"
    "pw_lifecycle w' = pw_lifecycle w \<or> pw_lifecycle w' = pw_lifecycle w @ [Detached (st_slot s)]"
    "\<not> pw_router_alive w \<Longrightarrow> pw_lifecycle w' = pw_lifecycle w"
    by (simp_all add: session_ends_def case_prod_beta cancel_fields page_arrivals_def)
      (simp_all add: report_def cancel_fields)
qed

lemma first_turn_runs: "\<exists>s' w'. first_turn env sn sw = (Some s', w')"
  by (simp add: first_turn_def case_prod_beta)

end
