(* ===== verification/Parallel_Inv.thy ===== *)
theory Parallel_Inv
  imports Parallel_Routing Handler_Callers
begin

text \<open>
  The invariant of the whole parallel handler: the tables of the router agree with each other and with
  the tasks that run, and every call belongs to one task or to the router. What follows from it: a
  response reaches whoever waits for it, and nobody else.
\<close>

section \<open>The invariant\<close>

type_synonym task_table = "(slot, bool \<times> session_task) hash_map"

definition tasks_ok :: "u64 \<Rightarrow> task_table \<Rightarrow> wires \<Rightarrow> bool" where
  "tasks_ok start tasks w \<longleftrightarrow> routes_ok start w \<and>
     (\<forall>k b s. hm_get tasks k = Some (b, s) \<longrightarrow> waits_ok k s w) \<and>
     (\<forall>k q c resp m. hm_get (pw_inboxes w) k = Some q \<longrightarrow> RtsResponse c resp m \<in> set q \<longrightarrow>
        rs_id resp = c \<and> (c, k) \<in> set (drawn w)) \<and>
     (\<forall>k. hm_get (pw_inboxes w) k = None \<longleftrightarrow> hm_get tasks k = None) \<and>
     (\<forall>k. Detached k \<in> set (pw_lifecycle w) \<longrightarrow> hm_get tasks k = None)"

definition router_waiting :: "router \<Rightarrow> call_id \<Rightarrow> bool" where
  "router_waiting r c \<longleftrightarrow> hm_get (ro_pending r) c \<noteq> None"

text \<open>The table of targets is the inverse of the table of sessions, whose slots have been handed out.\<close>

definition tables_ok :: "router \<Rightarrow> bool" where
  "tables_ok r \<longleftrightarrow>
     (\<forall>i k. hm_get (ro_target_slots r) i = Some k \<longleftrightarrow> (\<exists>e. hm_get (ro_sessions r) k = Some e \<and> en_target_id e = i)) \<and>
     (\<forall>k. hm_get (ro_sessions r) k \<noteq> None \<longrightarrow> k \<noteq> 0 \<and> k < ro_next_slot r) \<and> ro_next_slot r \<noteq> 0"

text \<open>The boot command has the id before the first one drawn.\<close>

definition router_ok :: "u64 \<Rightarrow> router \<Rightarrow> task_table \<Rightarrow> wires \<Rightarrow> bool" where
  "router_ok start r tasks w \<longleftrightarrow> tables_ok r \<and> pw_router_alive w \<and>
     (\<forall>c. router_waiting r c \<longrightarrow> (c, 0) \<in> set (drawn w) \<or> c = start - 1) \<and>
     (\<forall>k. hm_get tasks k \<noteq> None \<longrightarrow> hm_get (ro_sessions r) k \<noteq> None) \<and>
     (\<forall>c k. route w c = Some k \<longrightarrow> hm_get (ro_sessions r) k \<noteq> None) \<and>
     (\<forall>k. Detached k \<in> set (pw_lifecycle w) \<longrightarrow> k < ro_next_slot r)"

definition live_ok :: "u64 \<Rightarrow> router \<Rightarrow> task_table \<Rightarrow> wires \<Rightarrow> bool" where
  "live_ok start r tasks w \<longleftrightarrow> tasks_ok start tasks w \<and> router_ok start r tasks w"

definition parallel_ok :: "u64 \<Rightarrow> parallel \<Rightarrow> bool" where
  "parallel_ok start p \<longleftrightarrow> (case pl_router p of
      None \<Rightarrow> tasks_ok start (pl_tasks p) (pl_wires p) \<and> \<not> pw_router_alive (pl_wires p)
    | Some r \<Rightarrow> live_ok start r (pl_tasks p) (pl_wires p))"

section \<open>Steps of the router\<close>

text \<open>What leaves the tables, the ids, the inboxes and the lifecycle channel alone.\<close>

lemma live_same:
  assumes "live_ok start r tasks w" "ro_sessions r' = ro_sessions r" "ro_target_slots r' = ro_target_slots r"
    "ro_next_slot r' = ro_next_slot r" "\<And>c. router_waiting r' c \<Longrightarrow> router_waiting r c"
    "ids_ok start (pw_ids w') = ids_ok start (pw_ids w)" "drawn w' = drawn w" "\<And>c. route w' c = route w c"
    "pw_inboxes w' = pw_inboxes w" "pw_router_alive w' = pw_router_alive w" "pw_lifecycle w' = pw_lifecycle w"
  shows "live_ok start r' tasks w'"
proof -
  have "tasks_ok start tasks w'" using assms(1,6-11)
    by (simp add: live_ok_def tasks_ok_def routes_ok_def waits_ok_def answered_in_def)
  moreover have "router_ok start r' tasks w'" using assms(1-4,7,8,10,11) assms(5)
    unfolding live_ok_def router_ok_def tables_ok_def by auto
  ultimately show ?thesis by (simp add: live_ok_def)
qed

lemma live_quiet:
  assumes "live_ok start r tasks w" "ro_sessions r' = ro_sessions r" "ro_target_slots r' = ro_target_slots r"
    "ro_next_slot r' = ro_next_slot r" "\<And>c. router_waiting r' c \<Longrightarrow> router_waiting r c"
    "pw_ids w' = pw_ids w" "pw_inboxes w' = pw_inboxes w" "pw_router_alive w' = pw_router_alive w" "pw_lifecycle w' = pw_lifecycle w"
  shows "live_ok start r' tasks w'"
  using assms by (intro live_same [OF assms(1)]) simp_all

text \<open>A message into the inbox of a task; a response only by its own task.\<close>

lemma post_fields [simp]: "pw_ids (post k msg w) = pw_ids w" "pw_router_alive (post k msg w) = pw_router_alive w"
  "pw_lifecycle (post k msg w) = pw_lifecycle w" "pw_sent (post k msg w) = pw_sent w"
  "hm_get (pw_inboxes (post k msg w)) j = (if j = k then map_option (\<lambda>q. q @ [msg]) (hm_get (pw_inboxes w) k) else hm_get (pw_inboxes w) j)"
  by (simp_all add: post_def)

lemma answered_post: "answered_in w j c \<Longrightarrow> answered_in (post k msg w) j c"
  by (fastforce simp: answered_in_def)

lemma tasks_post:
  assumes "tasks_ok start tasks w" "\<And>c resp m. msg = RtsResponse c resp m \<Longrightarrow> rs_id resp = c \<and> (c, k) \<in> set (drawn w)"
  shows "tasks_ok start tasks (post k msg w)"
proof -
  have "waits_ok j s (post k msg w)" if "waits_ok j s w" for j s
    using that answered_post [of w j _ k msg] unfolding waits_ok_def by auto
  moreover have "rs_id resp = c \<and> (c, j) \<in> set (drawn w)"
    if "hm_get (pw_inboxes (post k msg w)) j = Some q" "RtsResponse c resp m \<in> set q" for j q c resp m
    using that assms unfolding tasks_ok_def by (fastforce split: if_splits)
  moreover have "hm_get (pw_inboxes (post k msg w)) j = None \<longleftrightarrow> hm_get (pw_inboxes w) j = None" for j by simp
  ultimately show ?thesis using assms(1) unfolding tasks_ok_def routes_ok_def by simp
qed

lemma live_post:
  "live_ok start r tasks w \<Longrightarrow> (\<And>c resp m. msg = RtsResponse c resp m \<Longrightarrow> rs_id resp = c \<and> (c, k) \<in> set (drawn w)) \<Longrightarrow>
    live_ok start r tasks (post k msg w)"
  using tasks_post [of start tasks w msg k] by (simp add: live_ok_def router_ok_def)

lemma live_shut_down: "live_ok start r tasks w \<Longrightarrow> live_ok start (fst (shut_down f (r, w))) tasks (snd (shut_down f (r, w)))"
  using live_post [of start r tasks w RtsShutdown] by (auto simp: shut_down_def split: option.split)

lemma waiting_removed [simp]:
  "router_waiting (r\<lparr>ro_pending := hm_remove c (ro_pending r)\<rparr>) c' \<longleftrightarrow> c' \<noteq> c \<and> router_waiting r c'"
  "router_waiting (r\<lparr>ro_pending := hm_insert c p (ro_pending r)\<rparr>) c' \<longleftrightarrow> c' = c \<or> router_waiting r c'"
  "router_waiting (r\<lparr>ro_pending_initiator_ts := x1\<rparr>) = router_waiting r" "router_waiting (r\<lparr>ro_sessions := x2\<rparr>) = router_waiting r"
  "router_waiting (r\<lparr>ro_target_slots := x3\<rparr>) = router_waiting r" "router_waiting (r\<lparr>ro_session_slots := x4\<rparr>) = router_waiting r"
  "router_waiting (r\<lparr>ro_next_slot := x5\<rparr>) = router_waiting r" "router_waiting (r\<lparr>ro_pending_initiators := x6\<rparr>) = router_waiting r"
  "router_waiting (r\<lparr>ro_listeners := x7\<rparr>) = router_waiting r"
  by (cases p; simp add: router_waiting_def fun_eq_iff)+

subsection \<open>Responses\<close>

lemma live_own_response:
  assumes "live_ok start r tasks w"
  shows "live_ok start (fst (handle_router_response env clock c resp (r, w))) tasks (snd (handle_router_response env clock c resp (r, w)))"
proof (cases "hm_get (ro_pending r) c")
  case (Some q)
  obtain p m ts where q: "q = (p, m, ts)" by (cases q)
  let ?r = "r\<lparr>ro_pending := hm_remove c (ro_pending r)\<rparr>"
  have removed: "live_ok start ?r tasks w" by (rule live_quiet [OF assms]) simp_all
  have quiet: "live_ok start (?r\<lparr>ro_pending_initiator_ts := x, ro_pending_initiators := y\<rparr>) tasks w" for x y
    by (rule live_quiet [OF assms]) simp_all
  have answer: "live_ok start ?r tasks (wire_answer tx a w)" for tx a
    by (rule live_quiet [OF assms]) simp_all
  show ?thesis using Some q removed quiet answer live_post [OF removed, of "RtsSetInitiator _"]
    by (simp add: handle_router_response_def Let_def split: router_pending.split sum.split option.split)
qed (use assms in \<open>simp add: handle_router_response_def\<close>)

lemma live_response:
  assumes ok: "live_ok start r tasks w" and bound: "length (drawn w) < 2 ^ 64"
  shows "live_ok start (fst (router_on_response env clock resp (r, w))) tasks (snd (router_on_response env clock resp (r, w)))"
proof -
  let ?c = "rs_id resp" and ?w = "w\<lparr>pw_ids := snd (take_route (rs_id resp) (pw_ids w))\<rparr>"
  have route: "route ?w c' = (if c' = ?c then None else route w c')" for c' by simp
  show ?thesis
  proof (cases "route w ?c")
    case None
    then have "live_ok start r tasks ?w" by (intro live_same [OF ok]) (simp_all add: ids_ok_simps)
    then show ?thesis using live_own_response None by (simp add: router_on_response_def take_route_def)
  next
    case (Some k)
    let ?p = "post k (RtsResponse ?c resp []) ?w"
    have own: "(?c, k) \<in> set (drawn w)" and ids: "ids_ok start (pw_ids w)" and session: "hm_get (ro_sessions r) k \<noteq> None"
      using ok Some by (auto simp: live_ok_def tasks_ok_def routes_ok_def router_ok_def)
    have "waits_ok j s ?p" if task: "hm_get tasks j = Some (b, s)" for j b s
    proof -
      have waits: "waits_ok j s w" using ok task by (auto simp: live_ok_def tasks_ok_def)
      have "hm_get (pw_inboxes w) j \<noteq> None" using ok task by (metis live_ok_def tasks_ok_def option.distinct(1))
      moreover have "j = k" if "waiting s ?c"
        using waits that owner_unique [OF ids bound _ own] by (auto simp: waits_ok_def)
      ultimately have "answered_in ?p j ?c" if "waiting s ?c" using that by (fastforce simp: answered_in_def)
      moreover have "answered_in w j c \<Longrightarrow> answered_in ?p j c" for c by (fastforce simp: answered_in_def)
      moreover have "route ?p c = (if c = ?c then None else route w c)" for c by simp
      ultimately show ?thesis using waits unfolding waits_ok_def by auto
    qed
    moreover have "tasks_ok start tasks (post k (RtsResponse ?c resp []) w)"
      using ok own by (intro tasks_post) (auto simp: live_ok_def)
    moreover have "hm_get (pw_inboxes ?p) j = hm_get (pw_inboxes (post k (RtsResponse ?c resp []) w)) j" for j by simp
    ultimately have "tasks_ok start tasks ?p" unfolding tasks_ok_def
      by (auto simp: routes_ok_def ids_ok_simps simp del: post_fields(5) split: if_splits)
    moreover have "router_ok start r tasks ?p" using ok by (auto simp: live_ok_def router_ok_def split: if_splits)
    ultimately show ?thesis using Some session by (simp add: router_on_response_def take_route_def live_ok_def)
  qed
qed

subsection \<open>Commands of its own\<close>

lemma live_call:
  assumes ok: "live_ok start r tasks w" and call: "wire_call 0 req w = (c, w')"
    and r': "ro_sessions r' = ro_sessions r" "ro_target_slots r' = ro_target_slots r" "ro_next_slot r' = ro_next_slot r"
      "\<And>c'. router_waiting r' c' \<Longrightarrow> router_waiting r c' \<or> c = Some c'"
  shows "live_ok start r' tasks w'"
proof -
  have w': "w' = snd (wire_call 0 req w)" and c: "c = fst (wire_call 0 req w)" using call by simp_all
  have drawn: "drawn w' = drawn w @ [(ia_next (pw_ids w), 0)]" "route w' = route w" by (simp_all add: w')
  have "ids_ok start (pw_ids w')" using ok ids_ok_simps(1) [of start "pw_ids w" 0]
    by (simp add: w' live_ok_def tasks_ok_def routes_ok_def)
  then have "tasks_ok start tasks w'" using ok unfolding live_ok_def tasks_ok_def routes_ok_def waits_ok_def answered_in_def drawn
    by (auto simp: w')
  moreover have "c = Some c' \<Longrightarrow> c' = ia_next (pw_ids w)" for c' using wire_call_fields(6) c by metis
  then have "(c', 0) \<in> set (drawn w') \<or> c' = start - 1" if "router_waiting r' c'" for c'
    using r'(4) [OF that] ok by (auto simp: live_ok_def router_ok_def drawn)
  then have "router_ok start r' tasks w'" using ok r'(1-3) unfolding live_ok_def router_ok_def tables_ok_def drawn
    by (simp add: w')
  ultimately show ?thesis by (simp add: live_ok_def)
qed

lemma live_submit:
  assumes "live_ok start r tasks w"
  shows "live_ok start (fst (router_submit mk failed req tx clock (r, w))) tasks (snd (router_submit mk failed req tx clock (r, w)))"
proof -
  obtain c w1 where call: "wire_call 0 req w = (c, w1)" by fastforce
  show ?thesis
  proof (cases c)
    case None
    then show ?thesis using call live_quiet [OF live_call [OF assms call, of r]] by (simp add: router_submit_def)
  next
    case (Some c')
    then show ?thesis using call by (auto simp: router_submit_def intro!: live_call [OF assms call])
  qed
qed

lemma live_message:
  assumes "live_ok start r tasks w"
  shows "live_ok start (fst (router_message clock lid msg (r, w))) tasks (snd (router_message clock lid msg (r, w)))"
proof (cases msg)
  case (CreatePage params tx)
  then show ?thesis using live_submit [OF assms] live_quiet [OF assms] by (simp add: router_create_page_def Let_def)
next
  case (HandlerCommand cmd)
  then show ?thesis using live_submit [OF assms]
    by (simp add: dispatch_browser_command_def dispatch_session_command_via_ws_def case_prod_beta split: option.split)
next
  case (HandlerAddEventListener req)
  then show ?thesis by (auto intro: live_quiet [OF assms])
qed (simp_all add: assms live_quiet [OF assms])

subsection \<open>Timeouts\<close>

lemma live_expire:
  assumes "live_ok start r tasks w"
  shows "live_ok start (fst (router_expire c (r, w))) tasks (snd (router_expire c (r, w)))"
proof (cases "hm_get (ro_pending r) c")
  case (Some q)
  obtain p m ts where "q = (p, m, ts)" by (cases q)
  then show ?thesis using Some by (cases p) (auto simp: router_expire_def intro: live_quiet [OF assms])
qed (simp add: router_expire_def assms)

lemma live_initiator:
  assumes "live_ok start r tasks w"
  shows "live_ok start (fst (expire_initiator i (r, w))) tasks (snd (expire_initiator i (r, w)))"
  by (cases "hm_get (ro_pending_initiators r) i") (auto simp: expire_initiator_def intro: live_quiet [OF assms])

lemma live_fold:
  "(\<And>x r w. live_ok start r tasks w \<Longrightarrow> live_ok start (fst (f x (r, w))) tasks (snd (f x (r, w)))) \<Longrightarrow>
    live_ok start (fst rw) tasks (snd rw) \<Longrightarrow> live_ok start (fst (fold f xs rw)) tasks (snd (fold f xs rw))"
proof (induction xs arbitrary: rw)
  case (Cons x xs)
  show ?case using Cons.IH [OF Cons.prems(1), of "f x rw"] Cons.prems(1) [of "fst rw" "snd rw" x] Cons.prems(2) by simp
qed simp

lemma live_evict:
  assumes "live_ok start r tasks w"
  shows "live_ok start (fst (evict_router_pending now timeout (r, w))) tasks (snd (evict_router_pending now timeout (r, w)))"
proof -
  let ?rw = "\<lambda>d. fold router_expire (router_stale d r) (r, w)"
  have "live_ok start (fst (?rw d)) tasks (snd (?rw d))" for d using assms by (intro live_fold live_expire) simp_all
  then show ?thesis using assms live_fold [where f = expire_initiator, OF live_initiator]
    by (simp add: evict_router_pending_def Let_def split: option.split)
qed

subsection \<open>Lifecycle\<close>

lemma modify_session [simp]: "hm_get (hm_modify k (\<lambda>e. e\<lparr>en_session_id := x\<rparr>) m) j = None \<longleftrightarrow> hm_get m j = None"
  "(\<exists>e. hm_get (hm_modify k (\<lambda>e. e\<lparr>en_session_id := x\<rparr>) m) j = Some e \<and> en_target_id e = i) \<longleftrightarrow>
     (\<exists>e. hm_get m j = Some e \<and> en_target_id e = i)"
  by (auto split: if_splits)

lemma live_session_id:
  assumes "live_ok start r tasks w"
  shows "live_ok start (r\<lparr>ro_sessions := hm_modify k (\<lambda>e. e\<lparr>en_session_id := x\<rparr>) (ro_sessions r), ro_session_slots := y\<rparr>) tasks w"
    "live_ok start (r\<lparr>ro_session_slots := y, ro_sessions := hm_modify k (\<lambda>e. e\<lparr>en_session_id := x\<rparr>) (ro_sessions r)\<rparr>) tasks w"
  using assms unfolding live_ok_def router_ok_def tables_ok_def by (simp_all del: hm_get_simps)

lemma live_pop:
  assumes "live_ok start r tasks w" "pw_lifecycle w = msg # msgs"
  shows "live_ok start r tasks (w\<lparr>pw_lifecycle := msgs\<rparr>)"
  using assms unfolding live_ok_def tasks_ok_def router_ok_def routes_ok_def waits_ok_def answered_in_def by simp

lemma live_remove:
  assumes ok: "live_ok start r tasks w" and gone: "hm_get tasks k = None"
  shows "live_ok start (fst (remove_session k (r, w))) tasks (snd (remove_session k (r, w)))"
proof (cases "hm_get (ro_sessions r) k")
  case (Some e)
  let ?w = "w\<lparr>pw_ids := drop_slot k (pw_ids w)\<rparr>"
  let ?r = "r\<lparr>ro_sessions := hm_remove k (ro_sessions r), ro_target_slots := hm_remove (en_target_id e) (ro_target_slots r)\<rparr>"
  have route: "route ?w c = Some j \<longleftrightarrow> route w c = Some j \<and> j \<noteq> k" for c j by (auto split: option.splits)
  have "waits_ok j s ?w" if "hm_get tasks j = Some (b, s)" for j b s
  proof -
    have "j \<noteq> k" using that gone by auto
    moreover have "waits_ok j s w" using ok that by (auto simp: live_ok_def tasks_ok_def)
    ultimately show ?thesis unfolding waits_ok_def answered_in_def route by simp
  qed
  moreover have "routes_ok start ?w" using ok unfolding live_ok_def tasks_ok_def routes_ok_def route by (auto simp: ids_ok_simps)
  ultimately have "tasks_ok start tasks ?w" using ok by (simp add: live_ok_def tasks_ok_def)
  moreover have "tables_ok ?r"
    using ok Some unfolding live_ok_def router_ok_def tables_ok_def by (auto split: if_splits) (metis option.inject)+
  then have "router_ok start (?r\<lparr>ro_session_slots := x\<rparr>) tasks ?w" for x
    using ok gone unfolding live_ok_def router_ok_def route by (auto simp: tables_ok_def)
  ultimately show ?thesis using Some by (simp add: remove_session_def live_ok_def)
qed (use ok in \<open>simp add: remove_session_def\<close>)

lemma live_lifecycle:
  assumes "live_ok start r tasks w" "pw_lifecycle w = msg # msgs"
  shows "live_ok start (fst (on_lifecycle msg (r, w\<lparr>pw_lifecycle := msgs\<rparr>))) tasks (snd (on_lifecycle msg (r, w\<lparr>pw_lifecycle := msgs\<rparr>)))"
proof (cases msg)
  case (Detached k)
  then have "hm_get tasks k = None" using assms by (simp add: live_ok_def tasks_ok_def)
  then show ?thesis using live_remove [OF live_pop [OF assms]] Detached by simp
qed (use live_session_id [OF live_pop [OF assms]] in simp)

subsection \<open>Events\<close>

lemma next_slot_less: "(k :: slot) \<noteq> - 1 \<Longrightarrow> j \<le> k \<longleftrightarrow> j < k + 1" "(k :: slot) \<noteq> - 1 \<Longrightarrow> k + 1 \<noteq> 0"
proof -
  assume k: "k \<noteq> - 1"
  then show "k + 1 \<noteq> 0" by (metis add.commute add_eq_0_iff)
  then have "unat (k + 1) = Suc (unat k)" by (metis add.commute unatSuc)
  then show "j \<le> k \<longleftrightarrow> j < k + 1" by (simp add: word_le_nat_alt word_less_nat_alt less_Suc_eq_le)
qed

lemma live_spawn:
  assumes ok: "live_ok start r tasks w" and free: "hm_get (ro_target_slots r) i = None" and k: "ro_next_slot r \<noteq> - 1"
    and s: "st_slot s = ro_next_slot r" "st_pending s = []"
  shows "live_ok start (r\<lparr>ro_next_slot := ro_next_slot r + 1, ro_target_slots := hm_insert i (ro_next_slot r) (ro_target_slots r),
      ro_pending_initiators := x, ro_pending_initiator_ts := y,
      ro_sessions := hm_insert (ro_next_slot r) \<lparr>en_target_id = i, en_session_id = None\<rparr> (ro_sessions r)\<rparr>)
    (hm_insert (ro_next_slot r) (False, s) tasks) (w\<lparr>pw_inboxes := hm_insert (ro_next_slot r) [] (pw_inboxes w)\<rparr>)"
proof -
  let ?k = "ro_next_slot r" and ?w = "w\<lparr>pw_inboxes := hm_insert (ro_next_slot r) [] (pw_inboxes w)\<rparr>"
  let ?tasks = "hm_insert ?k (False, s) tasks"
  have tables: "\<And>i k. hm_get (ro_target_slots r) i = Some k \<longleftrightarrow> (\<exists>e. hm_get (ro_sessions r) k = Some e \<and> en_target_id e = i)"
    "\<And>j. hm_get (ro_sessions r) j \<noteq> None \<Longrightarrow> j \<noteq> 0 \<and> j < ?k" "?k \<noteq> 0"
    and used: "\<And>j. hm_get tasks j \<noteq> None \<Longrightarrow> hm_get (ro_sessions r) j \<noteq> None"
      "\<And>j. Detached j \<in> set (pw_lifecycle w) \<Longrightarrow> j < ?k"
    using ok by (auto simp: live_ok_def router_ok_def tables_ok_def)
  have new: "hm_get (ro_sessions r) ?k = None" "hm_get tasks ?k = None" using tables(2) [of ?k] used(1) [of ?k] by (metis less_irrefl)+
  have waits: "waits_ok j u ?w" if "hm_get ?tasks j = Some (b, u)" for j b u
  proof (cases "j = ?k")
    case True
    then show ?thesis using that s tables(3) by (simp add: waits_ok_def waiting_def)
  next
    case False
    then have "waits_ok j u w" using that ok by (simp add: live_ok_def tasks_ok_def)
    then show ?thesis using False by (simp add: waits_ok_def answered_in_def)
  qed
  have "tasks_ok start ?tasks ?w" unfolding tasks_ok_def
    using ok waits used(2) by (auto simp: live_ok_def tasks_ok_def routes_ok_def split: if_splits)
  moreover have "tables_ok (r\<lparr>ro_next_slot := ?k + 1, ro_target_slots := hm_insert i ?k (ro_target_slots r),
      ro_sessions := hm_insert ?k \<lparr>en_target_id = i, en_session_id = None\<rparr> (ro_sessions r)\<rparr>)"
    unfolding tables_ok_def
  proof (intro conjI allI)
    fix i' j
    have "hm_get (ro_target_slots r) i' \<noteq> Some ?k" using tables(1) [of i' ?k] new(1) by simp
    moreover have "hm_get (ro_sessions r) j = Some e \<Longrightarrow> en_target_id e \<noteq> i" for e using tables(1) [of i j] free by auto
    ultimately show "(hm_get (ro_target_slots (r\<lparr>ro_next_slot := ?k + 1, ro_target_slots := hm_insert i ?k (ro_target_slots r),
        ro_sessions := hm_insert ?k \<lparr>en_target_id = i, en_session_id = None\<rparr> (ro_sessions r)\<rparr>)) i' = Some j) =
      (\<exists>e. hm_get (ro_sessions (r\<lparr>ro_next_slot := ?k + 1, ro_target_slots := hm_insert i ?k (ro_target_slots r),
        ro_sessions := hm_insert ?k \<lparr>en_target_id = i, en_session_id = None\<rparr> (ro_sessions r)\<rparr>)) j = Some e \<and> en_target_id e = i')"
      using tables(1) [of i' j] new(1) by auto
  qed (use tables(2,3) next_slot_less [OF k] in \<open>auto split: if_splits simp flip: next_slot_less(1) [OF k] dest: less_imp_le\<close>)
  moreover have "j < ?k + 1" if "Detached j \<in> set (pw_lifecycle w)" for j
    using used(2) [OF that] next_slot_less(1) [OF k, of j] less_imp_le by blast
  ultimately show ?thesis using ok unfolding live_ok_def router_ok_def by (auto simp: tables_ok_def split: if_splits)
qed

lemma spawn_simps [simp]: "spawn None tasks = tasks" "spawn (Some s) tasks = hm_insert (st_slot s) (False, s) tasks"
  by (simp_all add: spawn_def)

lemma live_created:
  assumes ok: "live_ok start r tasks w" and out: "router_target_created env info (r, w) = RouterGoes new (r', w')"
  shows "live_ok start r' (spawn new tasks) w'"
proof (cases "hm_get (ro_target_slots r) (ti_target_id info) = None \<and> ro_next_slot r \<noteq> - 1")
  case False
  then show ?thesis using assms
    by (auto simp: router_target_created_def alloc_slot_def Let_def split: if_splits)
next
  case True
  let ?i = "ti_target_id info" and ?k = "ro_next_slot r"
  define ctx where "ctx = (case ti_browser_context_id info of None \<Rightarrow> ro_default_context r | Some c \<Rightarrow> BrowserContext_from c)"
  define s where "s = SessionTask_new ?k (Target_new (he_target env) info (router_target_config (ro_config r)) ctx)
    (hc_request_timeout (ro_config r))"
  have s: "st_slot s = ?k" "st_pending s = []" by (simp_all add: s_def SessionTask_new_def)
  let ?r = "r\<lparr>ro_next_slot := ?k + 1, ro_target_slots := hm_insert ?i ?k (ro_target_slots r),
      ro_pending_initiators := hm_remove ?i (ro_pending_initiators r), ro_pending_initiator_ts := hm_remove ?i (ro_pending_initiator_ts r),
      ro_sessions := hm_insert ?k \<lparr>en_target_id = ?i, en_session_id = None\<rparr> (ro_sessions r)\<rparr>"
  let ?w = "w\<lparr>pw_inboxes := hm_insert ?k [] (pw_inboxes w)\<rparr>"
  have spawned: "live_ok start ?r (hm_insert ?k (False, s) tasks) ?w"
    using True by (intro live_spawn [OF ok _ _ s]) simp_all
  have "live_ok start ?r (hm_insert ?k (False, s) tasks) (post ?k (RtsSetInitiator tx) ?w)" for tx
    by (rule live_post [OF spawned]) simp
  moreover have "new = Some s \<and> r' = ?r \<and>
      w' = (case hm_get (ro_pending_initiators r) ?i of None \<Rightarrow> ?w | Some tx \<Rightarrow> post ?k (RtsSetInitiator tx) ?w)"
    using out True by (simp add: router_target_created_def alloc_slot_def s_def ctx_def Let_def)
  ultimately show ?thesis using spawned s(1) by (auto split: option.split)
qed

lemma live_browser_event:
  assumes ok: "live_ok start r tasks w" and out: "browser_event env ev (r, w) = RouterGoes new (r', w')"
  shows "live_ok start r' (spawn new tasks) w'"
proof -
  have gone: "live_ok start r' tasks w'" if "shut_down f (r, w) = (r', w')" for f
    using live_shut_down [OF ok, of f] that by simp
  have attached: "live_ok start (router_attached sid info r) tasks w" for sid info
    using live_session_id [OF ok] ok by (simp add: router_attached_def split: option.split)
  show ?thesis
    using out ok attached by (cases "(env, ev, (r, w))" rule: browser_event.cases)
      (auto simp: live_created gone router_target_gone_def)
qed

lemma live_event:
  assumes ok: "live_ok start r tasks w" and out: "router_on_event env ev (r, w) = RouterGoes new (r', w')"
  shows "live_ok start r' (spawn new tasks) w'"
proof (cases "ev_session_id ev")
  case None
  then obtain r1 where b: "browser_event env (ev_params ev) (r, w) = RouterGoes new (r1, w')"
      "r' = r1\<lparr>ro_listeners := consume_event (ev_method ev) (ev_params ev) (ro_listeners r1)\<rparr>"
    using out by (auto simp: router_on_event_def split: router_outcome.splits)
  show ?thesis unfolding b(2) by (rule live_quiet [OF live_browser_event [OF ok b(1)]]) simp_all
next
  case (Some sid)
  then show ?thesis using out ok live_post [OF ok, of "RtsEvent ev"]
    by (auto simp: router_on_event_def split: option.splits if_splits)
qed

section \<open>Every step\<close>

lemma live_flush:
  assumes "live_ok start r tasks w"
  shows "live_ok start (fst (flush_router alive (r, w))) tasks (snd (flush_router alive (r, w)))"
  by (auto simp: flush_router_def case_prod_beta intro: live_quiet [OF assms])

text \<open>The router draws at most one id in a turn.\<close>

lemma drawn_submit: "length (drawn w) \<le> length (drawn (snd (router_submit mk failed req tx clock (r, w))))"
proof -
  obtain c w1 where call: "wire_call 0 req w = (c, w1)" by fastforce
  have "drawn w1 = drawn w @ [(ia_next (pw_ids w), 0)]" using wire_call_fields(1) [of 0 req w] call by simp
  then show ?thesis using call by (cases c) (simp_all add: router_submit_def)
qed

lemma drawn_fold: "(\<And>x rw. drawn (snd (f x rw)) = drawn (snd rw)) \<Longrightarrow> drawn (snd (fold f xs rw)) = drawn (snd rw)"
  by (induction xs arbitrary: rw) auto

lemma drawn_kept:
  "drawn (snd (router_expire c rw)) = drawn (snd rw)" "drawn (snd (expire_initiator i rw)) = drawn (snd rw)"
  "drawn (snd (shut_down f rw)) = drawn (snd rw)" "drawn (snd (on_lifecycle m rw)) = drawn (snd rw)"
  "drawn (snd (handle_router_response env clock c resp rw)) = drawn (snd rw)"
  "drawn (snd (router_on_response env clock resp rw)) = drawn (snd rw)"
  "drawn (snd (flush_router alive rw)) = drawn (snd rw)"
proof -
  show own: "drawn (snd (handle_router_response env clock c resp rw)) = drawn (snd rw)" for c rw
    by (auto simp: handle_router_response_def Let_def split: prod.split option.split router_pending.split sum.split)
  show "drawn (snd (router_on_response env clock resp rw)) = drawn (snd rw)"
    by (cases rw) (simp add: router_on_response_def take_route_def own Let_def split: option.split)
  show "drawn (snd (on_lifecycle m rw)) = drawn (snd rw)"
    by (cases m) (auto simp: remove_session_def split: prod.split option.split)
qed (auto simp: router_expire_def expire_initiator_def shut_down_def flush_router_def Let_def
    split: prod.split option.split router_pending.split)

lemma drawn_event: "router_on_event env ev rw = RouterGoes new rw' \<Longrightarrow> drawn (snd rw') = drawn (snd rw)"
proof -
  have browser: "drawn (snd rw') = drawn (snd rw)" if "browser_event env e rw = RouterGoes new rw'" for e new rw rw'
    using that by (cases "(env, e, rw)" rule: browser_event.cases)
      (auto simp: router_target_created_def router_target_gone_def drawn_kept Let_def split: prod.splits if_splits option.splits)
  then show "router_on_event env ev rw = RouterGoes new rw' \<Longrightarrow> drawn (snd rw') = drawn (snd rw)"
    by (fastforce simp: router_on_event_def split: option.splits router_outcome.splits if_splits)
qed

lemma drawn_message: "length (drawn (snd rw)) \<le> length (drawn (snd (router_message clock lid msg rw)))"
  using drawn_submit by (cases rw, cases msg)
    (auto simp: router_create_page_def dispatch_browser_command_def dispatch_session_command_via_ws_def case_prod_beta Let_def
      split: option.split)

text \<open>The branches a turn of the router can take.\<close>

lemma router_turn_cases:
  assumes "router_turns env ru rw = RouterGoes new rw'"
  obtains (tick) timeout where "new = None" "rw' = evict_router_pending (ru_clock ru) timeout (flush_router (ru_alive ru) rw)"
    | (response) resp where "new = None" "rw' = router_on_response env (ru_clock ru) resp (flush_router (ru_alive ru) rw)"
    | (event) ev where "router_on_event env ev (flush_router (ru_alive ru) rw) = RouterGoes new rw'"
    | (lifecycle) msg msgs where "new = None" "pw_lifecycle (snd (flush_router (ru_alive ru) rw)) = msg # msgs"
        "rw' = on_lifecycle msg (fst (flush_router (ru_alive ru) rw), (snd (flush_router (ru_alive ru) rw))\<lparr>pw_lifecycle := msgs\<rparr>)"
    | (idle) "new = None" "rw' = flush_router (ru_alive ru) rw"
    | (browser) msg where "new = None" "ru_browser ru = Some (Some msg)"
        "rw' = router_message (ru_clock ru) (ru_lid ru) msg (flush_router (ru_alive ru) rw)"
proof -
  let ?rw = "flush_router (ru_alive ru) rw"
  have out: "select_router env ru ?rw = RouterGoes new rw'" using assms by (simp add: router_turns_def)
  show ?thesis
  proof (cases "ru_tick ru")
    case True
    then show ?thesis using out tick by (auto simp: select_router_def)
  next
    case False
    show ?thesis
    proof (cases "ru_socket ru")
      case None
      then show ?thesis using False out lifecycle idle browser
        by (cases "pw_lifecycle (snd ?rw)") (auto simp: select_router_def split: option.splits)
    next
      case (Some m)
      then show ?thesis using False out response event
        by (auto simp: select_router_def split: option.splits sum.splits cdp_message.splits)
    qed
  qed
qed

lemma drawn_turn:
  assumes "router_turns env ru rw = RouterGoes new rw'"
  shows "length (drawn (snd rw)) \<le> length (drawn (snd rw'))"
proof -
  have "drawn (snd (evict_router_pending now timeout rw1)) = drawn (snd rw1)" for now timeout rw1
    by (simp add: evict_router_pending_def drawn_fold drawn_kept Let_def split: option.split)
  with assms show ?thesis
  proof (cases rule: router_turn_cases)
    case (event ev)
    then show ?thesis using drawn_event [OF event] by (simp add: drawn_kept)
  next
    case (browser msg)
    then show ?thesis using drawn_message [of "flush_router (ru_alive ru) rw" "ru_clock ru" "ru_lid ru" msg] by (simp add: drawn_kept)
  qed (simp_all add: drawn_kept)
qed

lemma live_turn:
  assumes ok: "live_ok start r tasks w" and bound: "length (drawn w) < 2 ^ 64"
    and out: "router_turns env ru (r, w) = RouterGoes new (r', w')"
  shows "live_ok start r' (spawn new tasks) w'"
proof -
  obtain r1 w1 where flushed: "flush_router (ru_alive ru) (r, w) = (r1, w1)" by fastforce
  have ok1: "live_ok start r1 tasks w1" and drawn1: "length (drawn w1) < 2 ^ 64"
    using live_flush [OF ok, of "ru_alive ru"] drawn_kept(7) [of "ru_alive ru" "(r, w)"] flushed bound by simp_all
  have plain: "live_ok start r' (spawn new tasks) w'" if "new = None" "(r', w') = rw" "live_ok start (fst rw) tasks (snd rw)" for rw
    using that by (metis fst_conv snd_conv spawn_simps(1))
  from out show ?thesis
  proof (cases rule: router_turn_cases)
    case (tick timeout)
    then show ?thesis using live_evict [OF ok1] by (intro plain [OF tick]) (simp add: flushed)
  next
    case (response resp)
    then show ?thesis using live_response [OF ok1 drawn1] by (intro plain [OF response]) (simp add: flushed)
  next
    case (event ev)
    then show ?thesis using live_event [OF ok1] by (simp add: flushed)
  next
    case (lifecycle msg msgs)
    then show ?thesis using live_lifecycle [OF ok1, of msg msgs] by (intro plain [OF lifecycle(1,3)]) (simp add: flushed)
  next
    case idle
    then show ?thesis using ok1 by (simp add: flushed)
  next
    case (browser msg)
    then show ?thesis using live_message [OF ok1] by (intro plain [OF browser(1,3)]) (simp add: flushed)
  qed
qed

text \<open>The end of the router leaves the tasks as they are, with more in their inboxes.\<close>

lemma tasks_try_post: "tasks_ok start tasks w \<Longrightarrow> tasks_ok start tasks (try_post k RtsShutdown w)"
proof -
  assume ok: "tasks_ok start tasks w"
  let ?w = "try_post k RtsShutdown w"
  have box: "hm_get (pw_inboxes ?w) j = hm_get (pw_inboxes w) j \<or>
      (\<exists>q. hm_get (pw_inboxes w) j = Some q \<and> hm_get (pw_inboxes ?w) j = Some (q @ [RtsShutdown]))" for j
    by (cases "hm_get (pw_inboxes w) j") (auto simp: try_post_def)
  have "answered_in w j c \<Longrightarrow> answered_in ?w j c" for j c using box [of j] by (fastforce simp: answered_in_def)
  moreover have "rs_id resp = c \<and> (c, j) \<in> set (drawn w)"
    if "hm_get (pw_inboxes ?w) j = Some q" "RtsResponse c resp m \<in> set q" for j q c resp m
    using ok that box [of j] unfolding tasks_ok_def by fastforce
  moreover have "hm_get (pw_inboxes ?w) j = None \<longleftrightarrow> hm_get (pw_inboxes w) j = None" for j using box [of j] by auto
  moreover have "pw_ids ?w = pw_ids w" "pw_lifecycle ?w = pw_lifecycle w" by (simp_all add: try_post_def)
  moreover have "waits_ok j s ?w" if "waits_ok j s w" for j s
    using that calculation(1,4) unfolding waits_ok_def by metis
  ultimately show ?thesis using ok unfolding tasks_ok_def routes_ok_def by simp
qed

lemma tasks_drop: "tasks_ok start tasks w \<Longrightarrow> tasks_ok start tasks (drop_router w)"
  by (simp add: tasks_ok_def drop_router_def routes_ok_def waits_ok_def answered_in_def)

lemma tasks_shut_down: "tasks_ok start tasks (snd rw) \<Longrightarrow> tasks_ok start tasks (shut_down_all rw)"
proof -
  have "tasks_ok start tasks w \<Longrightarrow> tasks_ok start tasks (fold (\<lambda>k. try_post k RtsShutdown) ks w)" for ks w
    by (induction ks arbitrary: w) (auto intro: tasks_try_post)
  then show "tasks_ok start tasks (snd rw) \<Longrightarrow> tasks_ok start tasks (shut_down_all rw)" by (simp add: shut_down_all_def)
qed

lemma router_ends: "router_turns env ru (r, w) = RouterEnds rw \<Longrightarrow> rw = flush_router (ru_alive ru) (r, w)"
proof -
  have event: "router_on_event env ev rw0 \<noteq> RouterEnds rw" for ev rw0
  proof -
    have "browser_event env e rw1 \<noteq> RouterEnds rw" for e rw1
      by (cases "(env, e, rw1)" rule: browser_event.cases)
        (auto simp: router_target_created_def Let_def split: prod.split option.split)
    then show ?thesis by (cases rw0) (auto simp: router_on_event_def split: option.split router_outcome.split)
  qed
  show "router_turns env ru (r, w) = RouterEnds rw \<Longrightarrow> rw = flush_router (ru_alive ru) (r, w)"
    by (auto simp: router_turns_def select_router_def event split: if_splits option.splits sum.splits cdp_message.splits list.splits)
qed

text \<open>A turn of a task, seen from outside.\<close>

lemma tasks_turn:
  assumes ok: "tasks_ok start tasks w" and task: "hm_get tasks k = Some (b, s)" and bound: "length (drawn w') < 2 ^ 64"
    and turn: "turn_ok start k (s, w) (s', w')"
  shows "tasks_ok start (hm_insert k (True, s') tasks) w'" "others_kept k w w'"
    "\<forall>j. Detached j \<in> set (pw_lifecycle w') \<longrightarrow> Detached j \<in> set (pw_lifecycle w)"
proof -
  have "session_ok start k (s, w)" using ok task by (auto simp: tasks_ok_def session_ok_def)
  then have session: "session_ok start k (s', w')" and kept: "others_kept k w w'"
    and box: "hm_get (pw_inboxes w') k = hm_get (pw_inboxes w) k \<or>
      (\<exists>msg q. hm_get (pw_inboxes w) k = Some (msg # q) \<and> hm_get (pw_inboxes w') k = Some q)"
    and told: "\<forall>j. Detached j \<in> set (pw_lifecycle w') \<longrightarrow> Detached j \<in> set (pw_lifecycle w)"
    using turn bound by (auto simp: turn_ok_def)
  have others: "hm_get (pw_inboxes w') j = hm_get (pw_inboxes w) j" "route w c = Some j \<Longrightarrow> route w' c = Some j" if "j \<noteq> k" for j c
    using kept that by (auto simp: others_kept_def)
  have drawn: "set (drawn w) \<subseteq> set (drawn w')" using kept by (auto simp: others_kept_def)
  have waits: "waits_ok j u w'" if "hm_get (hm_insert k (True, s') tasks) j = Some (b', u)" for j b' u
  proof (cases "j = k")
    case True
    then show ?thesis using session that by (simp add: session_ok_def)
  next
    case False
    then have "waits_ok j u w" using ok that by (simp add: tasks_ok_def)
    then show ?thesis using others [OF False] drawn by (auto simp: waits_ok_def answered_in_def)
  qed
  have "rs_id resp = c \<and> (c, j) \<in> set (drawn w')"
    if "hm_get (pw_inboxes w') j = Some q" "RtsResponse c resp m \<in> set q" for j q c resp m
  proof -
    note found = that
    obtain q' where "hm_get (pw_inboxes w) j = Some q'" "RtsResponse c resp m \<in> set q'"
      using found others(1) [of j] box by (cases "j = k") (auto dest: sym)
    then show ?thesis using ok drawn unfolding tasks_ok_def by blast
  qed
  moreover have "hm_get (pw_inboxes w') j = None \<longleftrightarrow> hm_get (pw_inboxes w) j = None" for j
    using others(1) [of j] box by (cases "j = k") auto
  ultimately show "tasks_ok start (hm_insert k (True, s') tasks) w'"
    using ok session waits told task unfolding tasks_ok_def by (auto simp: session_ok_def)
qed (use assms in \<open>auto simp: turn_ok_def tasks_ok_def session_ok_def\<close>)

lemma live_task_turn:
  assumes "live_ok start r tasks w" "hm_get tasks k = Some (b, s)" "length (drawn w') < 2 ^ 64" "turn_ok start k (s, w) (s', w')"
  shows "live_ok start r (hm_insert k (True, s') tasks) w'"
proof -
  have ok: "tasks_ok start tasks w" "router_ok start r tasks w" using assms(1) by (simp_all add: live_ok_def)
  note turn = tasks_turn [OF ok(1) assms(2-4)]
  have "hm_get (ro_sessions r) j \<noteq> None" if "route w' c = Some j" for c j
    using that turn(2) ok(2) assms(2) by (cases "j = k") (auto simp: others_kept_def router_ok_def)
  then have "router_ok start r (hm_insert k (True, s') tasks) w'"
    using ok(2) turn(2,3) assms(2) unfolding router_ok_def others_kept_def by (auto split: if_splits)
  then show ?thesis using turn(1) by (simp add: live_ok_def)
qed

lemma tasks_end:
  assumes ok: "tasks_ok start tasks w" and task: "hm_get tasks k = Some (b, s)" and turn: "session_turns env sn (s, w) = (None, w')"
  shows "tasks_ok start (hm_remove k tasks) w'"
proof -
  have slot: "st_slot s = k" using ok task by (auto simp: tasks_ok_def waits_ok_def)
  note ends = turn_ends [OF turn, unfolded slot]
  have "waits_ok j u w'" if "hm_get (hm_remove k tasks) j = Some (b', u)" for j b' u
    using ok that unfolding tasks_ok_def by (auto simp: waits_ok_def answered_in_def ends(1,2) split: if_splits)
  then show ?thesis using ok ends(4) unfolding tasks_ok_def by (auto simp: ends(1,2) routes_ok_def split: if_splits)
qed

lemma step_ok:
  assumes ok: "parallel_ok start p" and bound: "length (drawn (pl_wires p)) < 2 ^ 64"
    and bound': "length (drawn (pl_wires (parallel_step env p i))) < 2 ^ 64"
  shows "parallel_ok start (parallel_step env p i)"
proof (cases i)
  case (RouterTurn ru)
  show ?thesis
  proof (cases "pl_router p")
    case (Some r)
    then have live: "live_ok start r (pl_tasks p) (pl_wires p)" using ok by (simp add: parallel_ok_def)
    then have tasks: "tasks_ok start (pl_tasks p) (pl_wires p)" by (simp add: live_ok_def)
    show ?thesis
    proof (cases "router_turns env ru (r, pl_wires p)")
      case (RouterGoes new rw)
      then show ?thesis using RouterTurn Some live_turn [OF live bound, of env ru new "fst rw" "snd rw"]
        by (cases rw) (simp add: parallel_ok_def)
    next
      case RouterPanics
      then show ?thesis using RouterTurn Some tasks_drop [OF tasks] by (simp add: parallel_ok_def) (simp add: drop_router_def)
    next
      case (RouterEnds rw)
      have "tasks_ok start (pl_tasks p) (snd rw)"
        using live_flush [OF live, of "ru_alive ru"] router_ends [OF RouterEnds] by (simp add: live_ok_def)
      then show ?thesis using RouterTurn Some RouterEnds tasks_drop [OF tasks_shut_down]
        by (simp add: parallel_ok_def) (simp add: drop_router_def)
    qed
  qed (use ok RouterTurn in simp)
next
  case (SessionTurn k sn)
  show ?thesis
  proof (cases "hm_get (pl_tasks p) k")
    case (Some bs)
    obtain b s where bs: "bs = (b, s)" by fastforce
    obtain out w' where turn: "(if b then session_turns else first_turn) env sn (s, pl_wires p) = (out, w')" by fastforce
    show ?thesis
    proof (cases out)
      case None
      then have ends: "session_turns env sn (s, pl_wires p) = (None, w')"
        using turn first_turn_runs [of env sn "(s, pl_wires p)"] by (auto split: if_splits)
      have task: "hm_get (pl_tasks p) k = Some (b, s)" using Some bs by simp
      have tasks: "tasks_ok start (pl_tasks p) (pl_wires p)" using ok by (auto simp: parallel_ok_def live_ok_def split: option.splits)
      then have slot: "st_slot s = k" using task by (auto simp: tasks_ok_def waits_ok_def)
      note facts = turn_ends [OF ends, unfolded slot]
      have "router_ok start r (hm_remove k (pl_tasks p)) w'" if "router_ok start r (pl_tasks p) (pl_wires p)" for r
      proof -
        have "k < ro_next_slot r" using that task unfolding router_ok_def tables_ok_def by (metis option.distinct(1))
        then show ?thesis using that facts(4) unfolding router_ok_def by (auto simp: facts(1,3) split: if_splits)
      qed
      then show ?thesis using ok SessionTurn Some bs turn None tasks_end [OF tasks task ends] facts(3)
        by (auto simp: parallel_ok_def live_ok_def split: option.splits)
    next
      case (Some s')
      have "session_turns env sn (s, pl_wires p) = (Some s', w') \<or> first_turn env sn (s, pl_wires p) = (Some s', w')"
        using turn Some by (auto split: if_splits)
      then have moves: "turn_ok start k (s, pl_wires p) (s', w')" by (rule turn_session)
      have step: "parallel_step env p i = p\<lparr>pl_tasks := hm_insert k (True, s') (pl_tasks p), pl_wires := w'\<rparr>"
        using SessionTurn \<open>hm_get (pl_tasks p) k = Some bs\<close> bs turn Some by simp
      have task: "hm_get (pl_tasks p) k = Some (b, s)" using \<open>hm_get (pl_tasks p) k = Some bs\<close> bs by simp
      have bound1: "length (drawn w') < 2 ^ 64" using bound' step by simp
      show ?thesis
      proof (cases "pl_router p")
        case None
        then have tasks: "tasks_ok start (pl_tasks p) (pl_wires p)" and dead: "\<not> pw_router_alive (pl_wires p)"
          using ok by (simp_all add: parallel_ok_def)
        show ?thesis using tasks_turn [OF tasks task bound1 moves] dead None by (simp add: step parallel_ok_def others_kept_def)
      next
        case (Some r)
        then show ?thesis using ok live_task_turn [OF _ task bound1 moves] by (simp add: step parallel_ok_def)
      qed
    qed
  qed (use ok SessionTurn in simp)
next
  case WriterGone
  have "live_ok start r (pl_tasks p) (pl_wires p) \<Longrightarrow> live_ok start r (pl_tasks p) ((pl_wires p)\<lparr>pw_closed := True\<rparr>)" for r
    by (erule live_quiet) simp_all
  moreover have "tasks_ok start (pl_tasks p) (pl_wires p) \<Longrightarrow> tasks_ok start (pl_tasks p) ((pl_wires p)\<lparr>pw_closed := True\<rparr>)"
    by (simp add: tasks_ok_def routes_ok_def waits_ok_def answered_in_def)
  ultimately show ?thesis using ok WriterGone by (simp add: parallel_ok_def split: option.splits)
qed

section \<open>Runs\<close>

lemma turn_drawn: "turn_ok start k sw sw' \<Longrightarrow> length (drawn (snd sw)) \<le> length (drawn (snd sw'))"
  by (simp add: turn_ok_def)

lemma drawn_grows: "length (drawn (pl_wires p)) \<le> length (drawn (pl_wires (parallel_step env p i)))"
proof (cases i)
  case (RouterTurn ru)
  show ?thesis
  proof (cases "pl_router p")
    case (Some r)
    have posts: "drawn (fold (\<lambda>k. try_post k RtsShutdown) ks w) = drawn w" for ks w
      by (induction ks arbitrary: w) (auto simp: try_post_def)
    show ?thesis
    proof (cases "router_turns env ru (r, pl_wires p)")
      case (RouterGoes new rw)
      then show ?thesis using RouterTurn Some drawn_turn [OF RouterGoes] by (cases rw) simp
    next
      case (RouterEnds rw)
      then show ?thesis using RouterTurn Some router_ends [OF RouterEnds]
        by (simp add: drop_router_def shut_down_all_def posts drawn_kept)
    qed (use RouterTurn Some in \<open>simp add: drop_router_def\<close>)
  qed (use RouterTurn in simp)
next
  case (SessionTurn k sn)
  show ?thesis
  proof (cases "hm_get (pl_tasks p) k")
    case (Some bs)
    obtain b s where bs: "bs = (b, s)" by fastforce
    obtain out w' where turn: "(if b then session_turns else first_turn) env sn (s, pl_wires p) = (out, w')" by fastforce
    have "drawn w' = drawn (pl_wires p)" if "out = None"
      using turn that first_turn_runs [of env sn "(s, pl_wires p)"] turn_ends(1) by (auto split: if_splits)
    moreover have "length (drawn (pl_wires p)) \<le> length (drawn w')" if "out = Some s'" for s'
      using turn that turn_drawn [OF turn_session] by (fastforce split: if_splits)
    ultimately show ?thesis using SessionTurn Some bs turn by (cases out) simp_all
  qed (use SessionTurn in simp)
qed simp

abbreviation ids_drawn :: "parallel \<Rightarrow> nat" where
  "ids_drawn p \<equiv> length (drawn (pl_wires p))"

interpretation parallel_machine: event_machine "parallel_step env" "\<lambda>p. ids_drawn p < 2 ^ 64 \<longrightarrow> parallel_ok start p"
  for env start
proof unfold_locales
  fix p i
  assume inv: "ids_drawn p < 2 ^ 64 \<longrightarrow> parallel_ok start p"
  show "ids_drawn (parallel_step env p i) < 2 ^ 64 \<longrightarrow> parallel_ok start (parallel_step env p i)"
  proof
    assume bound: "ids_drawn (parallel_step env p i) < 2 ^ 64"
    then have "ids_drawn p < 2 ^ 64" using drawn_grows [of p env i] by simp
    then show "parallel_ok start (parallel_step env p i)" using inv step_ok bound by blast
  qed
qed

lemma initial_ok:
  assumes "run_parallel clock h = Some p"
  shows "\<exists>start. parallel_ok start p"
proof -
  obtain next_id calls config ctx m where p: "p = \<lparr>pl_router = Some (Router_new config ctx (saturating_sub64 next_id 1) m clock),
      pl_tasks = [], pl_wires = Router_wires next_id calls\<rparr>"
    using assms by (auto simp: run_parallel_def Let_def split: option.splits)
  have boot: "saturating_sub64 next_id 1 = max next_id 1 - 1"
  proof (cases "next_id = 0")
    case False
    then have "1 \<le> next_id" by (metis linorder_not_less unsigned_0 word_less_1)
    then show ?thesis using False by (simp add: saturating_sub64_def max_absorb1)
  qed (simp add: saturating_sub64_def)
  have "parallel_ok (max next_id 1) p"
    by (simp add: p parallel_ok_def live_ok_def tasks_ok_def router_ok_def tables_ok_def routes_ok_def ids_ok_def Router_new_def
        Router_wires_def CallIdAllocator_new_def router_waiting_def boot hm_get_def)
  then show ?thesis ..
qed

lemma reachable_ok:
  assumes "run_parallel clock h = Some p" "ids_drawn (run (parallel_step env) p is) < 2 ^ 64"
  shows "\<exists>start. parallel_ok start (run (parallel_step env) p is)"
proof -
  obtain start where "parallel_ok start p" using initial_ok [OF assms(1)] ..
  then show ?thesis using parallel_machine.run_inv [where s = p and start = start and env = env and es = "is"] assms(2) by blast
qed

section \<open>Properties\<close>

definition task_waits :: "parallel \<Rightarrow> slot \<Rightarrow> call_id \<Rightarrow> bool" where
  "task_waits p k c = (case hm_get (pl_tasks p) k of None \<Rightarrow> False | Some (_, s) \<Rightarrow> hm_get (st_pending s) c \<noteq> None)"

definition router_waits :: "parallel \<Rightarrow> call_id \<Rightarrow> bool" where
  "router_waits p c = (case pl_router p of None \<Rightarrow> False | Some r \<Rightarrow> hm_get (ro_pending r) c \<noteq> None)"

fun answers_call :: "call_id \<Rightarrow> router_to_session \<Rightarrow> bool" where
  "answers_call c (RtsResponse c' _ _) = (c' = c)"
| "answers_call c _ = False"

definition response_queued :: "parallel \<Rightarrow> slot \<Rightarrow> call_id \<Rightarrow> bool" where
  "response_queued p k c = (case hm_get (pw_inboxes (pl_wires p)) k of
      None \<Rightarrow> False | Some q \<Rightarrow> list_ex (answers_call c) q)"

lemma response_queued_iff: "response_queued p k c \<longleftrightarrow> answered_in (pl_wires p) k c"
proof -
  have "answers_call c m \<longleftrightarrow> (\<exists>resp m'. m = RtsResponse c resp m')" for m by (cases m) auto
  then show ?thesis by (auto simp: response_queued_def answered_in_def list_ex_iff split: option.split)
qed

text \<open>The parts of the invariant, by what they say of a call.\<close>

lemma tasks_of: "parallel_ok start p \<Longrightarrow> tasks_ok start (pl_tasks p) (pl_wires p)"
  by (auto simp: parallel_ok_def live_ok_def split: option.splits)

lemma task_owner:
  assumes "parallel_ok start p" "task_waits p k c"
  shows "k \<noteq> 0 \<and> (c, k) \<in> set (drawn (pl_wires p)) \<and> (route (pl_wires p) c = Some k \<or> response_queued p k c)"
proof -
  obtain b s where "hm_get (pl_tasks p) k = Some (b, s)" "waiting s c"
    using assms(2) by (auto simp: task_waits_def waiting_def split: option.splits)
  then show ?thesis using tasks_of [OF assms(1)] unfolding tasks_ok_def waits_ok_def response_queued_iff by blast
qed

lemma queued_owner:
  assumes "parallel_ok start p" "response_queued p k c"
  shows "k \<noteq> 0 \<and> (c, k) \<in> set (drawn (pl_wires p))"
proof -
  obtain q resp m where q: "hm_get (pw_inboxes (pl_wires p)) k = Some q" "RtsResponse c resp m \<in> set q"
    using assms(2) by (auto simp: response_queued_iff answered_in_def)
  have ok: "tasks_ok start (pl_tasks p) (pl_wires p)" using tasks_of [OF assms(1)] .
  have "hm_get (pl_tasks p) k \<noteq> None" using ok q(1) unfolding tasks_ok_def by (metis option.distinct(1))
  then obtain b s where "hm_get (pl_tasks p) k = Some (b, s)" by auto
  then have "k \<noteq> 0" using ok by (auto simp: tasks_ok_def waits_ok_def)
  then show ?thesis using ok q unfolding tasks_ok_def by blast
qed

lemma router_owner:
  assumes "parallel_ok start p" "router_waits p c" "ids_drawn p < 2 ^ 64" "(c, k) \<in> set (drawn (pl_wires p))"
  shows "k = 0"
proof -
  have ids: "ids_ok start (pw_ids (pl_wires p))" using tasks_of [OF assms(1)] by (simp add: tasks_ok_def routes_ok_def)
  have "c \<noteq> start - 1"
  proof
    obtain n where n: "n < ids_drawn p" "c = start + of_nat n" using drawn_id [OF ids assms(4)] by auto
    assume "c = start - 1"
    then have "start + of_nat n = start + of_nat (2 ^ 64 - 1)" using n(2) by simp
    then have "n = 2 ^ 64 - 1" using n(1) assms(3) by (intro offset_inj) simp_all
    then show False using n(1) assms(3) by simp
  qed
  then have "(c, 0) \<in> set (drawn (pl_wires p))"
    using assms(1,2) by (auto simp: parallel_ok_def live_ok_def router_ok_def router_waits_def router_waiting_def split: option.splits)
  then show ?thesis using owner_unique [OF ids assms(3) assms(4)] by simp
qed




section \<open>A small run\<close>

text \<open>A target is created and its task has its first turn: it asks to be attached and waits for the answer.\<close>

definition demo_start :: parallel where
  "demo_start = the (run_parallel 0 (Handler_new (fresh_connection [] False) HandlerConfig_default))"

definition router_reads :: "cdp_message \<Rightarrow> router_turn" where
  "router_reads m = \<lparr>ru_tick = False, ru_socket = Some (Some (Inr m)), ru_browser = None, ru_clock = 0, ru_lid = 0,
     ru_alive = (\<lambda>_. True)\<rparr>"

definition demo_session_turn :: session_turn where
  "demo_session_turn = \<lparr>sn_now = 0, sn_arrived = [], sn_wake = False, sn_tick = False, sn_clock = 0, sn_lid = (\<lambda>_. 0),
     sn_reading = (\<lambda>_. demo_reading), sn_alive = (\<lambda>_. True)\<rparr>"

definition demo_inputs :: "parallel_input list" where
  "demo_inputs = [RouterTurn (router_reads (WsEvent \<lparr>ev_method = ''Target.targetCreated'', ev_session_id = None,
       ev_params = EvTargetCreated demo_info\<rparr>)), SessionTurn 1 demo_session_turn]"

definition demo_running :: parallel where
  "demo_running = run (parallel_step demo_handler_env) demo_start demo_inputs"

lemma demo_attaches:
  assumes "is_page t" "tg_init t = AttachToTarget" "tg_session_id t = None" "tg_listeners t = []" "tg_page t = None"
  shows "\<exists>s' w'. first_turn demo_handler_env demo_session_turn (SessionTask_new 1 t d, w) = (Some s', w') \<and>
    (\<not> pw_closed w \<longrightarrow> waiting s' (ia_next (pw_ids w))) \<and> pw_ids w' = snd (ids_alloc 1 (pw_ids w)) \<and>
    pw_inboxes w' = pw_inboxes w"
proof -
  let ?req = "Request_new (fst (command_pair (TargetAttachToTarget (target_id t)))) (snd (command_pair (TargetAttachToTarget (target_id t))))"
  let ?t = "t\<lparr>tg_init := InitializingFrame (FrameManager_init_commands (tc_request_timeout (tg_config t)))\<rparr>"
  have first: "Target_advance e gone now clock t = (Some (TargetRequest ?req), ?t)" for e gone now clock
    using assms by (simp add: Target_advance_def run_init.simps [of e now t] target_init_step_def Let_def)
  have second: "Target_advance e gone now clock ?t = (None, ?t)" for e gone now clock
    using assms by (simp add: Target_advance_def run_init.simps [of e now ?t] target_init_step_def is_page_def)
  obtain c w1 where call: "wire_call 1 ?req w = (c, w1)" by fastforce
  have w1: "pw_ids w1 = snd (ids_alloc 1 (pw_ids w))" "pw_inboxes w1 = pw_inboxes w"
    "c = (if pw_closed w then None else Some (ia_next (pw_ids w)))"
    using call by (auto simp: wire_call_def ids_alloc_def Let_def split: if_splits)
  let ?s = "(SessionTask_new 1 t d)\<lparr>st_target := ?t\<rparr>"
  have "advance_session demo_handler_env 0 (\<lambda>_. demo_reading) (SessionTask_new 1 t d, w) =
      (case c of Some c \<Rightarrow> (session_await c SpInternal (rq_method ?req) 0 ?s, w1) | None \<Rightarrow> (?s, w1))"
    using first second call by (cases c)
      (simp_all add: advance_session.simps [of _ _ _ "(_, _)"] SessionTask_new_def submit_internal_def session_await_def)
  then show ?thesis using assms w1
    by (cases c) (simp_all add: first_turn_def session_drive_def page_arrivals_def drain_page_def demo_session_turn_def
        SessionTask_new_def EventListeners_flush_def session_await_def waiting_def hm_values_def split: if_splits)
qed

lemma demo_spawned:
  "\<exists>r t d w. parallel_step demo_handler_env demo_start (hd demo_inputs) =
     \<lparr>pl_router = Some r, pl_tasks = [(1, (False, SessionTask_new 1 t d))], pl_wires = w\<rparr> \<and>
     is_page t \<and> tg_init t = AttachToTarget \<and> tg_session_id t = None \<and> tg_listeners t = [] \<and> tg_page t = None \<and>
     pw_ids w = CallIdAllocator_new 1 \<and> pw_inboxes w = [(1, [])] \<and> \<not> pw_closed w"
proof -
  have new: "is_page (Target_new e demo_info c ctx)" "tg_init (Target_new e demo_info c ctx) = AttachToTarget"
    "tg_session_id (Target_new e demo_info c ctx) = None" "tg_listeners (Target_new e demo_info c ctx) = []"
    "tg_page (Target_new e demo_info c ctx) = None" for e c ctx
    by (simp_all add: Target_new_def demo_info_def is_page_def type_is_page_def TargetType_new_def)
  have ids: "wt_next_id (into_async (snd (submit_command m s p (fresh_connection [] False)))) = 1" for m s p
    by (simp add: into_async_def submit_command_def next_call_id_def fresh_connection_def try_send_def WS_CMD_CHANNEL_CAPACITY_def Let_def)
  have "ti_browser_context_id demo_info = None" by (simp add: demo_info_def)
  then show ?thesis using new
    by (simp add: demo_inputs_def demo_start_def run_parallel_def Handler_new_def router_reads_def ids Router_new_def Router_wires_def
        router_turns_def select_router_def flush_router_def EventListeners_flush_def hm_values_def router_on_event_def
        router_target_created_def alloc_slot_def hm_insert_def hm_remove_def hm_get_def SessionTask_new_def Let_def)
qed

lemma demo_running_facts:
  "task_waits demo_running 1 1" "\<not> response_queued demo_running 1 1" "pl_router demo_running \<noteq> None"
  "length (ia_drawn (pw_ids (pl_wires demo_running))) = 1"
proof -
  obtain r t d w where p1: "parallel_step demo_handler_env demo_start (hd demo_inputs) =
      \<lparr>pl_router = Some r, pl_tasks = [(1, (False, SessionTask_new 1 t d))], pl_wires = w\<rparr>"
    and t: "is_page t" "tg_init t = AttachToTarget" "tg_session_id t = None" "tg_listeners t = []" "tg_page t = None"
    and w: "pw_ids w = CallIdAllocator_new 1" "pw_inboxes w = [(1, [])]" "\<not> pw_closed w"
    using demo_spawned by blast
  obtain s' w' where turn: "first_turn demo_handler_env demo_session_turn (SessionTask_new 1 t d, w) = (Some s', w')"
    "waiting s' 1" "pw_ids w' = snd (ids_alloc 1 (pw_ids w))" "pw_inboxes w' = [(1, [])]"
    using demo_attaches [OF t, of d w] w by (auto simp: CallIdAllocator_new_def)
  have "demo_running = parallel_step demo_handler_env (parallel_step demo_handler_env demo_start (hd demo_inputs))
      (SessionTurn 1 demo_session_turn)"
    by (simp add: demo_running_def demo_inputs_def)
  then have running: "demo_running = \<lparr>pl_router = Some r, pl_tasks = [(1, (True, s'))], pl_wires = w'\<rparr>"
    unfolding p1 using turn(1) by (simp add: hm_get_def hm_insert_def)
  show "task_waits demo_running 1 1" "\<not> response_queued demo_running 1 1" "pl_router demo_running \<noteq> None"
    "length (ia_drawn (pw_ids (pl_wires demo_running))) = 1"
    using turn w by (simp_all add: running task_waits_def response_queued_def waiting_def hm_get_def CallIdAllocator_new_def)
qed

lemma demo_runs: "run_parallel 0 (Handler_new (fresh_connection [] False) HandlerConfig_default) = Some demo_start"
  by (simp add: demo_start_def run_parallel_def Handler_new_def Let_def)




end
