(* ===== verification/Parallel_Callers.thy ===== *)
theory Parallel_Callers
  imports Parallel_Inv
begin

text \<open>
  The callers of the parallel handler: a sender waits in one place at a time, with the router, in the
  inbox of a task, with a task or in the channel of its page, and is answered at most once; a task
  that ends answers everyone who still waits with it. Also how the navigations of a task relate to
  those of the serial handler.
\<close>

section \<open>Where a sender can be\<close>

fun session_pending_owes :: "sender \<Rightarrow> session_pending \<Rightarrow> nat" where
  "session_pending_owes tx SpInternal = 0"
| "session_pending_owes tx (SpExternal s) = of_bool (s = tx)"
| "session_pending_owes tx (SpNavigate _) = 0"

fun router_pending_owes :: "sender \<Rightarrow> router_pending \<Rightarrow> nat" where
  "router_pending_owes tx (RpCreateTarget s) = of_bool (s = tx)"
| "router_pending_owes tx (RpBrowserCommand s) = of_bool (s = tx)"
| "router_pending_owes tx RpBoot = 0"

fun inbox_message_owes :: "sender \<Rightarrow> router_to_session \<Rightarrow> nat" where
  "inbox_message_owes tx (RtsSetInitiator s) = of_bool (s = tx)"
| "inbox_message_owes tx _ = 0"

definition session_owes :: "sender \<Rightarrow> session_task \<Rightarrow> nat" where
  "session_owes tx s = hm_sum (\<lambda>(p, _, _). session_pending_owes tx p) (st_pending s) +
     hm_sum (\<lambda>n. of_bool (np_tx n = tx)) (st_navigations s) + target_owes tx (st_target s)"

definition router_owes :: "sender \<Rightarrow> router \<Rightarrow> nat" where
  "router_owes tx r = hm_sum (\<lambda>(p, _, _). router_pending_owes tx p) (ro_pending r) +
     hm_sum (\<lambda>s. of_bool (s = tx)) (ro_pending_initiators r)"

definition inbox_owes :: "sender \<Rightarrow> router_to_session list \<Rightarrow> nat" where
  "inbox_owes tx q = sum_list (map (inbox_message_owes tx) q)"

definition wire_answers :: "sender \<Rightarrow> wires \<Rightarrow> nat" where
  "wire_answers tx w = count_list (map fst (pw_sent w)) tx"

text \<open>What the whole handler owes, and what it has answered.\<close>

definition parallel_owed :: "sender \<Rightarrow> parallel \<Rightarrow> nat" where
  "parallel_owed tx p = (case pl_router p of None \<Rightarrow> 0 | Some r \<Rightarrow> router_owes tx r) +
     hm_sum (\<lambda>(_, s). session_owes tx s) (pl_tasks p) + hm_sum (inbox_owes tx) (pw_inboxes (pl_wires p))"

definition parallel_answers :: "sender \<Rightarrow> parallel \<Rightarrow> nat" where
  "parallel_answers tx p = wire_answers tx (pl_wires p)"

definition wire_account :: "sender \<Rightarrow> wires \<Rightarrow> nat" where
  "wire_account tx w = wire_answers tx w + hm_sum (inbox_owes tx) (pw_inboxes w)"

definition session_account :: "sender \<Rightarrow> session_state \<Rightarrow> nat" where
  "session_account tx sw = session_owes tx (fst sw) + wire_account tx (snd sw)"

definition router_account :: "sender \<Rightarrow> router_state \<Rightarrow> nat" where
  "router_account tx rw = router_owes tx (fst rw) + wire_account tx (snd rw)"

lemma wire_account_same: "pw_sent w' = pw_sent w \<Longrightarrow> pw_inboxes w' = pw_inboxes w \<Longrightarrow> wire_account tx w' = wire_account tx w"
  by (simp add: wire_account_def wire_answers_def)

lemma wire_account_fields [simp]:
  "wire_account tx (w\<lparr>pw_ids := a1\<rparr>) = wire_account tx w" "wire_account tx (w\<lparr>pw_calls := a2\<rparr>) = wire_account tx w"
  "wire_account tx (w\<lparr>pw_lifecycle := a3\<rparr>) = wire_account tx w" "wire_account tx (w\<lparr>pw_delivered := a4\<rparr>) = wire_account tx w"
  "wire_account tx (w\<lparr>pw_closed := a5\<rparr>) = wire_account tx w" "wire_account tx (w\<lparr>pw_router_alive := a6\<rparr>) = wire_account tx w"
  "wire_account tx (wire_answer s r w) = wire_account tx w + of_bool (s = tx)"
  "wire_account tx (snd (wire_call k req w)) = wire_account tx w" "wire_account tx (report m w) = wire_account tx w"
  by (simp_all add: wire_account_def wire_answers_def wire_answer_def report_def)

lemma wire_call_account: "wire_call k req w = (c, w') \<Longrightarrow> wire_account tx w' = wire_account tx w"
  using wire_account_fields(8) [of tx k req w] by simp

lemma session_owes_fields [simp]:
  "session_owes tx (s\<lparr>st_next_nav_id := i\<rparr>) = session_owes tx s" "session_owes tx (s\<lparr>st_session_id_reported := b\<rparr>) = session_owes tx s"
  by (simp_all add: session_owes_def)

lemma session_owes_target: "session_owes tx s + target_owes tx t = session_owes tx (s\<lparr>st_target := t\<rparr>) + target_owes tx (st_target s)"
  by (simp add: session_owes_def)

lemma session_owes_await: "session_owes tx (session_await c p m now s) \<le> session_owes tx s + session_pending_owes tx p"
  using hm_sum_insert_le [of "\<lambda>(p, _, _). session_pending_owes tx p" c "(p, m, now)" "st_pending s"]
  by (simp add: session_await_def session_owes_def)

lemma session_owes_pending:
  "hm_get (st_pending s) c = Some (p, m, ts) \<Longrightarrow>
    session_owes tx (s\<lparr>st_pending := hm_remove c (st_pending s)\<rparr>) + session_pending_owes tx p = session_owes tx s"
  using hm_sum_take [of "st_pending s" c "(p, m, ts)" "\<lambda>(p, _, _). session_pending_owes tx p"]
  by (simp add: session_owes_def)

lemma session_owes_take_navigation:
  "hm_get (st_navigations s) i = Some n \<Longrightarrow>
    session_owes tx (s\<lparr>st_navigations := hm_remove i (st_navigations s)\<rparr>) + of_bool (np_tx n = tx) = session_owes tx s"
  using hm_sum_take [of "st_navigations s" i n "\<lambda>n. of_bool (np_tx n = tx)"] by (simp add: session_owes_def)

lemma session_owes_put_navigation:
  "session_owes tx (s\<lparr>st_navigations := hm_insert i n (st_navigations s)\<rparr>) \<le> session_owes tx s + of_bool (np_tx n = tx)"
  using hm_sum_insert_le [of "\<lambda>n. of_bool (np_tx n = tx)" i n "st_navigations s"] by (simp add: session_owes_def)

lemma session_owes_drop_navigation: "session_owes tx (s\<lparr>st_navigations := hm_remove i (st_navigations s)\<rparr>) \<le> session_owes tx s"
  using hm_sum_remove_le [of "\<lambda>n. of_bool (np_tx n = tx)" i "st_navigations s"] by (simp add: session_owes_def)

lemma session_owes_reinsert:
  assumes "hm_get (st_navigations s) i = Some n" "np_tx n' = np_tx n"
  shows "session_owes tx (s\<lparr>st_navigations := hm_insert i n' (hm_remove i (st_navigations s))\<rparr>) \<le> session_owes tx s"
  using session_owes_take_navigation [OF assms(1), of tx] assms(2)
    session_owes_put_navigation [where tx = tx and s = "s\<lparr>st_navigations := hm_remove i (st_navigations s)\<rparr>" and i = i and n = n'] by simp

section \<open>The task\<close>

lemma account_navigation: "session_account tx (session_navigation_response i resp sw) \<le> session_account tx sw"
proof -
  obtain s w where sw: "sw = (s, w)" by fastforce
  show ?thesis
  proof (cases "hm_get (st_navigations s) i")
    case (Some n)
    then show ?thesis using session_owes_take_navigation [OF Some, of tx] session_owes_reinsert [OF Some, of "set_response resp n" tx]
      by (simp add: sw session_navigation_response_def session_account_def set_response_def Let_def)
  qed (simp add: sw session_navigation_response_def)
qed

lemma account_lifecycle: "session_account tx (session_lifecycle_completed res sw) \<le> session_account tx sw"
proof -
  obtain s w where sw: "sw = (s, w)" by fastforce
  let ?i = "case res of Inr ok \<Rightarrow> NavigationOk_navigation_id ok | Inl err \<Rightarrow> NavigationError_navigation_id err"
  show ?thesis
  proof (cases "hm_get (st_navigations s) ?i")
    case (Some n)
    then show ?thesis using session_owes_take_navigation [OF Some, of tx] session_owes_reinsert [OF Some, of "set_navigated n" tx]
      by (cases res) (simp_all add: sw session_lifecycle_completed_def session_account_def set_navigated_def Let_def split: option.split)
  qed (cases res; simp add: sw session_lifecycle_completed_def Let_def)
qed

lemma account_event: "session_account tx (session_event env now ev sw) \<le> session_account tx sw + event_owes tx ev"
proof -
  obtain s w where sw: "sw = (s, w)" by fastforce
  show ?thesis
  proof (cases ev)
    case (TargetRequest req)
    obtain c w1 where call: "wire_call (st_slot s) req w = (c, w1)" by fastforce
    then show ?thesis using TargetRequest session_owes_await [of tx _ SpInternal "rq_method req" now s] wire_call_account [OF call, of tx]
      by (cases c) (simp_all add: sw submit_internal_def session_account_def)
  next
    case (TargetNavigationRequest i req)
    obtain c w1 where call: "wire_call (st_slot s) req w = (c, w1)" by fastforce
    then show ?thesis using TargetNavigationRequest session_owes_await [of tx _ "SpNavigate i" "rq_method req" now s]
        wire_call_account [OF call, of tx] session_owes_drop_navigation [where tx = tx and s = s and i = i]
      by (cases c) (simp_all add: sw submit_nav_request_def session_account_def)
  next
    case (TargetCommand msg)
    let ?req = "fst (CommandMessage_split msg)"
    obtain c w1 where call: "wire_call (st_slot s) ?req w = (c, w1)" by fastforce
    let ?s = "s\<lparr>st_next_nav_id := st_next_nav_id s + 1,
      st_target := Target_goto (he_target env) (FrameRequestedNavigation_new (st_next_nav_id s) ?req (st_request_timeout s)) (st_target s)\<rparr>"
    have goto: "session_owes tx ?s = session_owes tx s"
      by (simp add: session_owes_def)
    have "session_owes tx ((session_await c' (SpNavigate i) m now ?s)\<lparr>st_navigations := hm_insert i (NavigationInProgress_new x)
        (st_navigations ?s)\<rparr>) \<le> session_owes tx s + of_bool (x = tx)" for c' i m x
      using session_owes_put_navigation [where tx = tx and s = "session_await c' (SpNavigate i) m now ?s" and i = i and n = "NavigationInProgress_new x"]
        session_owes_await [of tx c' "SpNavigate i" m now ?s] goto by (simp add: NavigationInProgress_new_def session_await_def)
    then show ?thesis using TargetCommand call goto wire_call_account [OF call, of tx]
        session_owes_await [of tx _ "SpExternal (cm_sender msg)" "cm_method msg" now s]
      by (cases c) (simp_all add: sw submit_external_def submit_navigation_command_def alloc_nav_id_def session_account_def
          case_prod_beta Let_def session_await_def)
  qed (simp_all add: account_lifecycle)
qed

lemma account_target: "target_owes tx t \<le> target_owes tx (st_target s) + n \<Longrightarrow>
    session_account tx (s\<lparr>st_target := t\<rparr>, w) \<le> session_account tx (s, w) + n"
  using session_owes_target [of tx s t] by (simp add: session_account_def)

lemma account_advance: "session_account tx (advance_session env now rd sw) \<le> session_account tx sw"
proof (induction env now rd sw rule: advance_session.induct)
  case (1 env now rd sw)
  obtain s w where sw: "sw = (s, w)" by fastforce
  obtain r t where adv: "Target_advance (he_target env) (rd_gone (rd 0)) now (rd_clock (rd 0)) (st_target (fst sw)) = (r, t)"
    by fastforce
  have owes: "session_account tx (s\<lparr>st_target := t\<rparr>, w) + event_part tx r \<le> session_account tx sw"
    using advance_owes [OF adv, of tx] session_owes_target [of tx s t] by (simp add: sw session_account_def)
  show ?case
  proof (cases r)
    case None
    then show ?thesis using adv owes by (simp add: sw advance_session.simps [of env now rd "(s, w)"])
  next
    case (Some ev)
    then show ?thesis using 1 [OF adv [symmetric] Some] account_event [of tx env now ev "(s\<lparr>st_target := t\<rparr>, w)"] adv owes
      by (simp add: sw advance_session.simps [of env now rd "(s, w)"] event_part_def)
  qed
qed

lemma drain_page_owes: "target_owes tx (drain_page lid t) \<le> target_owes tx t"
proof (cases "tg_page t")
  case (Some p)
  then show ?thesis using page_messages_owe [of tx lid "ph_rx p" "t\<lparr>tg_page := Some (p\<lparr>ph_rx := []\<rparr>)\<rparr>"]
    by (simp add: drain_page_def target_owes_def)
qed (simp add: drain_page_def)

lemma account_drive: "session_account tx (session_drive env sn sw) \<le> session_account tx sw"
proof -
  obtain s w where sw: "sw = (s, w)" by fastforce
  let ?sw = "(s\<lparr>st_target := drain_page (sn_lid sn) (st_target s)\<rparr>, w)"
  obtain s1 w1 where adv: "advance_session env (sn_now sn) (sn_reading sn) ?sw = (s1, w1)" by fastforce
  have "session_account tx ?sw \<le> session_account tx sw"
    using account_target [of tx "drain_page (sn_lid sn) (st_target s)" s 0 w] drain_page_owes by (simp add: sw)
  moreover have "session_account tx (s1, w1) \<le> session_account tx ?sw"
    using account_advance [of tx env "sn_now sn" "sn_reading sn" ?sw] adv by simp
  moreover have "session_account tx (s1\<lparr>st_target := (st_target s1)\<lparr>tg_listeners := ls\<rparr>\<rparr>, w1\<lparr>pw_delivered := d\<rparr>) = session_account tx (s1, w1)" for ls d
    using session_owes_target [of tx s1 "(st_target s1)\<lparr>tg_listeners := ls\<rparr>"] by (simp add: session_account_def)
  ultimately show ?thesis by (simp add: session_drive_def sw adv case_prod_beta)
qed

lemma account_fail: "session_account tx (fail_pending e p sw) \<le> session_account tx sw + session_pending_owes tx p"
proof (cases p)
  case (SpNavigate i)
  obtain s w where sw: "sw = (s, w)" by fastforce
  show ?thesis
  proof (cases "hm_get (st_navigations s) i")
    case (Some n)
    then show ?thesis using SpNavigate session_owes_take_navigation [OF Some, of tx] by (simp add: sw fail_pending_def session_account_def)
  qed (simp add: sw SpNavigate fail_pending_def)
qed (simp_all add: fail_pending_def session_account_def)

lemma account_evict_call: "session_account tx (evict_call c sw) \<le> session_account tx sw"
proof -
  obtain s w where sw: "sw = (s, w)" by fastforce
  let ?w = "w\<lparr>pw_ids := snd (take_route c (pw_ids w))\<rparr>"
  show ?thesis
  proof (cases "hm_get (st_pending s) c")
    case (Some q)
    obtain p m ts where q: "q = (p, m, ts)" by (cases q)
    then show ?thesis using Some session_owes_pending [of s c p m ts tx]
        account_fail [of tx Timeout p "(s\<lparr>st_pending := hm_remove c (st_pending s)\<rparr>, ?w)"]
      by (simp add: sw evict_call_def session_account_def)
  qed (simp add: sw evict_call_def session_account_def)
qed

lemma account_evict: "session_account tx (session_evict_stale now sw) \<le> session_account tx sw"
proof -
  have "session_account tx (fold evict_call cs sw) \<le> session_account tx sw" for cs sw
  proof (induction cs arbitrary: sw)
    case (Cons c cs)
    then show ?case using order.trans [OF Cons.IH [of "evict_call c sw"] account_evict_call] by simp
  qed simp
  then show ?thesis by (simp add: session_evict_stale_def split: option.split)
qed

lemma account_learn: "session_account tx (learn_session env m resp sw) = session_account tx sw"
proof -
  have "session_owes tx (s\<lparr>st_target := set_session_id x (st_target s)\<rparr>) = session_owes tx s" for s x
    using session_owes_target [of tx s "set_session_id x (st_target s)"] by simp
  then show ?thesis by (cases sw) (auto simp: learn_session_def session_account_def Let_def split: sum.split)
qed

lemma account_response: "session_account tx (session_on_response env c resp sw) \<le> session_account tx sw"
proof -
  obtain s w where sw: "sw = (s, w)" by fastforce
  show ?thesis
  proof (cases "hm_get (st_pending s) c")
    case (Some q)
    obtain p m ts where q: "q = (p, m, ts)" by (cases q)
    let ?s = "s\<lparr>st_pending := hm_remove c (st_pending s)\<rparr>"
    have take: "session_owes tx ?s + session_pending_owes tx p = session_owes tx s"
      using session_owes_pending [of s c p m ts tx] Some q by simp
    show ?thesis
    proof (cases p)
      case SpInternal
      obtain s1 w1 where learn: "learn_session env m resp (?s, w) = (s1, w1)" by fastforce
      have "session_owes tx (s1\<lparr>st_target := Target_on_response (he_target env) resp m (st_target s1)\<rparr>) = session_owes tx s1"
        using session_owes_target [of tx s1 "Target_on_response (he_target env) resp m (st_target s1)"] by simp
      then show ?thesis using Some q SpInternal take learn account_learn [of tx env m resp "(?s, w)"]
        by (simp add: sw session_on_response_def session_account_def)
    qed (use Some q take account_navigation [of tx _ resp "(?s, w)"] in \<open>simp_all add: sw session_on_response_def session_account_def\<close>)
  qed (simp add: sw session_on_response_def)
qed

lemma account_pop:
  assumes "hm_get (pw_inboxes w) k = Some (msg # q)"
  shows "wire_account tx (w\<lparr>pw_inboxes := hm_insert k q (pw_inboxes w)\<rparr>) + inbox_message_owes tx msg = wire_account tx w"
  using hm_sum_take [OF assms, of "inbox_owes tx"] by (simp add: wire_account_def wire_answers_def hm_sum_insert inbox_owes_def)

lemma account_message:
  assumes "session_message env clock msg sw = Some sw'"
  shows "session_account tx sw' \<le> session_account tx sw"
proof -
  obtain s w where sw: "sw = (s, w)" by fastforce
  have target: "session_account tx (s\<lparr>st_target := t\<rparr>, w) = session_account tx (s, w)" if "target_owes tx t = target_owes tx (st_target s)" for t
    using session_owes_target [of tx s t] that by (simp add: session_account_def)
  show ?thesis using assms account_response [of tx env _ _ sw] target sw by (cases msg) auto
qed

lemma account_select:
  assumes "select_session env sn sw = SelectGo sw'"
  shows "session_account tx sw' \<le> session_account tx sw"
proof -
  obtain s w where sw: "sw = (s, w)" by fastforce
  show ?thesis
  proof (cases "\<exists>msg q. hm_get (pw_inboxes w) (st_slot s) = Some (msg # q)")
    case True
    then obtain msg q where head: "hm_get (pw_inboxes w) (st_slot s) = Some (msg # q)" by blast
    let ?w = "w\<lparr>pw_inboxes := hm_insert (st_slot s) q (pw_inboxes w)\<rparr>"
    have "session_message env (sn_clock sn) msg (s, ?w) = Some sw'"
      using assms head by (auto simp: sw select_session_def split: option.splits)
    from account_message [OF this, of tx] show ?thesis using account_pop [OF head, of tx]
      by (simp add: sw session_account_def)
  next
    case False
    then have "sw' = sw \<or> sw' = session_evict_stale (sn_clock sn) sw"
      using assms by (auto simp: sw select_session_def split: option.splits list.splits if_splits)
    then show ?thesis using account_evict [of tx "sn_clock sn" sw] by auto
  qed
qed

lemma arrivals_owe: "session_owes tx (page_arrivals msgs s) \<le> session_owes tx s + sum_list (map (page_owes tx) msgs)"
proof -
  have one: "target_owes tx (page_sends msg t) \<le> target_owes tx t + page_owes tx msg" for msg t
    by (simp add: page_sends_def target_owes_def split: option.split)
  have "target_owes tx (fold page_sends msgs t) \<le> target_owes tx t + sum_list (map (page_owes tx) msgs)" for t
  proof (induction msgs arbitrary: t)
    case (Cons msg msgs)
    then show ?case using Cons.IH [of "page_sends msg t"] one [of msg t]
      unfolding fold_Cons o_apply list.map sum_list.Cons by linarith
  qed simp
  then show ?thesis using session_owes_target [of tx s "fold page_sends msgs (st_target s)"]
    \<open>\<And>t. target_owes tx (fold page_sends msgs t) \<le> target_owes tx t + sum_list (map (page_owes tx) msgs)\<close> [of "st_target s"]
    unfolding page_arrivals_def by linarith
qed

section \<open>The end of a task\<close>

lemma hm_sum_values: "hm_sum f m = sum_list (map f (hm_values m))"
proof -
  have "hm_sum f m = (\<Sum>k \<leftarrow> hm_keys m. case hm_get m k of None \<Rightarrow> 0 | Some v \<Rightarrow> f v)"
    by (simp add: hm_sum_def hm.distinct_keys sum_list_distinct_conv_sum_set)
  also have "\<dots> = sum_list (map f (hm_values m))"
  proof -
    have "map (\<lambda>k. case hm_get m k of None \<Rightarrow> 0 | Some v \<Rightarrow> f v) (hm_keys m) = map f (hm_values m)"
      unfolding hm_keys_def hm_values_def map_map
    proof (rule map_cong [OF refl])
      fix x assume "x \<in> set (AList.clearjunk m)"
      then have "hm_get m (fst x) = Some (snd x)"
        by (metis distinct_clearjunk hm_get_def map_of_clearjunk map_of_is_SomeI prod.collapse)
      then show "((\<lambda>k. case hm_get m k of None \<Rightarrow> 0 | Some v \<Rightarrow> f v) \<circ> fst) x = (f \<circ> snd) x" by simp
    qed
    then show ?thesis by simp
  qed
  finally show ?thesis .
qed

definition table_owes :: "sender \<Rightarrow> session_task \<Rightarrow> nat" where
  "table_owes tx s = hm_sum (\<lambda>(p, _, _). session_pending_owes tx p) (st_pending s) +
     hm_sum (\<lambda>n. of_bool (np_tx n = tx)) (st_navigations s)"

text \<open>Every answer a task sends with this error.\<close>

definition only_errors :: "cdp_error \<Rightarrow> wires \<Rightarrow> wires \<Rightarrow> bool" where
  "only_errors e w w' \<longleftrightarrow> (\<exists>new. pw_sent w' = pw_sent w @ new \<and> list_all (\<lambda>(_, r). r = AnswerResponse (Inl e)) new)"

lemma only_errors_trans: "only_errors e w1 w2 \<Longrightarrow> only_errors e w2 w3 \<Longrightarrow> only_errors e w1 w3"
  unfolding only_errors_def by (metis append.assoc list_all_append)

lemma only_errors_simps: "only_errors e w w" "only_errors e w (wire_answer tx (AnswerResponse (Inl e)) w)"
  by (simp_all add: only_errors_def wire_answer_def)

lemma fail_facts:
  "wire_answers tx (snd (fail_pending e p sw)) + hm_sum (\<lambda>n. of_bool (np_tx n = tx)) (st_navigations (fst (fail_pending e p sw))) =
     wire_answers tx (snd sw) + hm_sum (\<lambda>n. of_bool (np_tx n = tx)) (st_navigations (fst sw)) + session_pending_owes tx p"
  "only_errors e (snd sw) (snd (fail_pending e p sw))"
  "st_pending (fst (fail_pending e p sw)) = st_pending (fst sw)" "pw_inboxes (snd (fail_pending e p sw)) = pw_inboxes (snd sw)"
proof -
  let ?navs = "\<lambda>s. hm_sum (\<lambda>n. of_bool (np_tx n = tx)) (st_navigations s)"
  show "wire_answers tx (snd (fail_pending e p sw)) + ?navs (fst (fail_pending e p sw)) =
      wire_answers tx (snd sw) + ?navs (fst sw) + session_pending_owes tx p"
  proof (cases p)
    case (SpNavigate i)
    show ?thesis
    proof (cases "hm_get (st_navigations (fst sw)) i")
      case (Some n)
      then show ?thesis using SpNavigate hm_sum_take [OF Some, of "\<lambda>n. of_bool (np_tx n = tx)"]
        by (simp add: fail_pending_def wire_answer_def wire_answers_def)
    qed (simp add: SpNavigate fail_pending_def)
  qed (simp_all add: fail_pending_def wire_answer_def wire_answers_def)
qed (auto simp: fail_pending_def only_errors_simps split: session_pending.split option.split)

lemma cancel_facts:
  "wire_answers tx (snd (cancel_in_flight sw)) = wire_answers tx (snd sw) + table_owes tx (fst sw)"
  "only_errors target_gone (snd sw) (snd (cancel_in_flight sw))"
  "st_pending (fst (cancel_in_flight sw)) = []" "st_navigations (fst (cancel_in_flight sw)) = []"
proof -
  let ?navs = "\<lambda>s. hm_sum (\<lambda>n. of_bool (np_tx n = tx)) (st_navigations s)"
  let ?all = "\<lambda>ps sw. fold (\<lambda>(p, _, _). fail_pending target_gone p) ps sw"
  have pass: "wire_answers tx (snd (?all ps u)) + ?navs (fst (?all ps u)) =
        wire_answers tx (snd u) + ?navs (fst u) + sum_list (map (\<lambda>(p, _, _). session_pending_owes tx p) ps) \<and>
      only_errors target_gone (snd u) (snd (?all ps u)) \<and> st_pending (fst (?all ps u)) = st_pending (fst u)"
    for ps :: "(session_pending \<times> method_id \<times> instant) list" and u
  proof (induction ps arbitrary: u)
    case (Cons q ps)
    obtain p m ts where q: "q = (p, m, ts)" by (cases q)
    then show ?case using Cons.IH [of "fail_pending target_gone p u"] fail_facts(1) [of tx target_gone p u]
        fail_facts(2) [of target_gone u p] fail_facts(3) [of target_gone p u] only_errors_trans by (auto simp: q)
  qed (simp add: only_errors_simps)
  have drain: "wire_answers tx (fold (\<lambda>n. wire_answer (np_tx n) (AnswerResponse (Inl target_gone))) ns w) =
        wire_answers tx w + sum_list (map (\<lambda>n. of_bool (np_tx n = tx)) ns) \<and>
      only_errors target_gone w (fold (\<lambda>n. wire_answer (np_tx n) (AnswerResponse (Inl target_gone))) ns w)"
    for ns :: "navigation_in_progress list" and w
  proof (induction ns arbitrary: w)
    case (Cons n ns)
    have "wire_answers tx (wire_answer (np_tx n) r w) = wire_answers tx w + of_bool (np_tx n = tx)" for r
      by (simp add: wire_answer_def wire_answers_def)
    moreover have "only_errors target_gone w (fold (\<lambda>n. wire_answer (np_tx n) (AnswerResponse (Inl target_gone))) (n # ns) w)"
      using only_errors_trans [OF only_errors_simps(2), of target_gone "np_tx n" w]
        Cons.IH [of "wire_answer (np_tx n) (AnswerResponse (Inl target_gone)) w"]
      by (metis fold_simps(2))
    ultimately show ?case using Cons.IH [of "wire_answer (np_tx n) (AnswerResponse (Inl target_gone)) w"] by simp
  qed (simp add: only_errors_simps)
  obtain s w where after: "?all (hm_values (st_pending (fst sw))) ((fst sw)\<lparr>st_pending := []\<rparr>, snd sw) = (s, w)" by fastforce
  have cancel: "cancel_in_flight sw = (s\<lparr>st_navigations := []\<rparr>,
      fold (\<lambda>n. wire_answer (np_tx n) (AnswerResponse (Inl target_gone))) (hm_values (st_navigations s)) w)"
    by (simp add: cancel_in_flight_def after)
  note facts = pass [of "hm_values (st_pending (fst sw))" "((fst sw)\<lparr>st_pending := []\<rparr>, snd sw)", unfolded after]
  show "wire_answers tx (snd (cancel_in_flight sw)) = wire_answers tx (snd sw) + table_owes tx (fst sw)"
    using facts drain [of "hm_values (st_navigations s)" w] by (simp add: cancel table_owes_def hm_sum_values)
  show "only_errors target_gone (snd sw) (snd (cancel_in_flight sw))"
    using facts drain [of "hm_values (st_navigations s)" w] only_errors_trans by (simp add: cancel) blast
  show "st_pending (fst (cancel_in_flight sw)) = []" "st_navigations (fst (cancel_in_flight sw)) = []"
    using facts by (simp_all add: cancel)
qed

lemma account_ends: "wire_account tx (session_ends sw) \<le> session_account tx sw"
proof -
  have "pw_sent (report m w) = pw_sent w" for m w by simp
  then show ?thesis
    using cancel_facts(1) [of tx sw] hm_sum_remove_le [of "inbox_owes tx" "st_slot (fst sw)" "pw_inboxes (snd sw)"]
    by (simp add: session_ends_def case_prod_beta wire_account_def wire_answers_def session_account_def table_owes_def
        session_owes_def cancel_fields)
qed

section \<open>The turns of a task\<close>

definition task_owes :: "sender \<Rightarrow> session_task option \<Rightarrow> nat" where
  "task_owes tx s = (case s of None \<Rightarrow> 0 | Some s \<Rightarrow> session_owes tx s)"

lemma account_turn:
  assumes "session_turns env sn (s, w) = (s', w') \<or> first_turn env sn (s, w) = (s', w')"
  shows "task_owes tx s' + wire_account tx w' \<le>
    session_owes tx s + wire_account tx w + sum_list (map (page_owes tx) (sn_arrived sn))"
proof -
  let ?sw = "(page_arrivals (sn_arrived sn) s, w)"
  have start: "session_account tx ?sw \<le> session_owes tx s + wire_account tx w + sum_list (map (page_owes tx) (sn_arrived sn))"
    using arrivals_owe [of tx "sn_arrived sn" s] by (simp add: session_account_def)
  have drive: "task_owes tx (Some (fst (session_drive env sn sw))) + wire_account tx (snd (session_drive env sn sw)) \<le> session_account tx sw" for sw
    using account_drive [of tx env sn sw] by (simp add: task_owes_def session_account_def)
  from assms show ?thesis
  proof
    assume turn: "session_turns env sn (s, w) = (s', w')"
    show ?thesis
    proof (cases "select_session env sn ?sw")
      case SelectPending
      then show ?thesis using turn start by (auto simp: session_turns_def task_owes_def session_account_def)
    next
      case SelectBreak
      then show ?thesis using turn start account_ends [of tx ?sw] by (auto simp: session_turns_def task_owes_def)
    next
      case (SelectGo sw)
      then have "s' = Some (fst (session_drive env sn sw))" "w' = snd (session_drive env sn sw)"
        using turn by (auto simp: session_turns_def case_prod_beta)
      then show ?thesis using drive [of sw] account_select [OF SelectGo, of tx] start by simp
    qed
  next
    assume "first_turn env sn (s, w) = (s', w')"
    then have "s' = Some (fst (session_drive env sn ?sw))" "w' = snd (session_drive env sn ?sw)"
      by (auto simp: first_turn_def case_prod_beta)
    then show ?thesis using drive [of ?sw] start by simp
  qed
qed

section \<open>The router\<close>

lemma inbox_append [simp]: "inbox_owes tx (q @ [msg]) = inbox_owes tx q + inbox_message_owes tx msg"
  by (simp add: inbox_owes_def)

lemma account_post: "wire_account tx (post k msg w) \<le> wire_account tx w + inbox_message_owes tx msg"
proof (cases "hm_get (pw_inboxes w) k")
  case (Some q)
  then show ?thesis using hm_sum_take [OF Some, of "inbox_owes tx"]
    by (simp add: post_def wire_account_def wire_answers_def hm_sum_insert hm_modify_def)
qed (simp add: post_def wire_account_def wire_answers_def hm_modify_def)

lemma account_silent_post: "inbox_message_owes tx msg = 0 \<Longrightarrow> wire_account tx (post k msg w) \<le> wire_account tx w"
  using account_post [of tx k msg w] by simp

lemma router_owes_fields [simp]:
  "router_owes tx (r\<lparr>ro_sessions := a1\<rparr>) = router_owes tx r" "router_owes tx (r\<lparr>ro_target_slots := a2\<rparr>) = router_owes tx r"
  "router_owes tx (r\<lparr>ro_session_slots := a3\<rparr>) = router_owes tx r" "router_owes tx (r\<lparr>ro_listeners := a4\<rparr>) = router_owes tx r"
  "router_owes tx (r\<lparr>ro_next_slot := a5\<rparr>) = router_owes tx r" "router_owes tx (r\<lparr>ro_pending_initiator_ts := a6\<rparr>) = router_owes tx r"
  by (simp_all add: router_owes_def)

lemma router_owes_take:
  "hm_get (ro_pending r) c = Some (p, m, ts) \<Longrightarrow>
    router_owes tx (r\<lparr>ro_pending := hm_remove c (ro_pending r)\<rparr>) + router_pending_owes tx p = router_owes tx r"
  using hm_sum_take [of "ro_pending r" c "(p, m, ts)" "\<lambda>(p, _, _). router_pending_owes tx p"] by (simp add: router_owes_def)

lemma router_owes_put: "router_owes tx (r\<lparr>ro_pending := hm_insert c (p, m, ts) (ro_pending r)\<rparr>) \<le> router_owes tx r + router_pending_owes tx p"
  using hm_sum_insert_le [of "\<lambda>(p, _, _). router_pending_owes tx p" c "(p, m, ts)" "ro_pending r"] by (simp add: router_owes_def)

lemma router_owes_park:
  "router_owes tx (r\<lparr>ro_pending_initiators := hm_insert i s (ro_pending_initiators r)\<rparr>) \<le> router_owes tx r + of_bool (s = tx)"
  using hm_sum_insert_le [of "\<lambda>s. of_bool (s = tx)" i s "ro_pending_initiators r"] by (simp add: router_owes_def)

lemma router_owes_unpark:
  "hm_get (ro_pending_initiators r) i = Some s \<Longrightarrow>
    router_owes tx (r\<lparr>ro_pending_initiators := hm_remove i (ro_pending_initiators r)\<rparr>) + of_bool (s = tx) = router_owes tx r"
  "router_owes tx (r\<lparr>ro_pending_initiators := hm_remove i (ro_pending_initiators r)\<rparr>) \<le> router_owes tx r"
  using hm_sum_take [of "ro_pending_initiators r" i s "\<lambda>s. of_bool (s = tx)"]
    hm_sum_remove_le [of "\<lambda>s. of_bool (s = tx)" i "ro_pending_initiators r"] by (simp_all add: router_owes_def)

lemma router_account_pair: "router_account tx (r, w) = router_owes tx r + wire_account tx w"
  by (simp add: router_account_def)

lemma account_own_response: "router_account tx (handle_router_response env clock c resp rw) \<le> router_account tx rw"
proof -
  obtain r w where rw: "rw = (r, w)" by fastforce
  show ?thesis
  proof (cases "hm_get (ro_pending r) c")
    case (Some q)
    obtain p m ts where q: "q = (p, m, ts)" by (cases q)
    let ?r = "r\<lparr>ro_pending := hm_remove c (ro_pending r)\<rparr>"
    have take: "router_owes tx ?r + router_pending_owes tx p = router_owes tx r"
      using router_owes_take [of r c p m ts tx] Some q by simp
    show ?thesis
    proof (cases p)
      case (RpCreateTarget s)
      have "router_owes tx (?r\<lparr>ro_pending_initiator_ts := x, ro_pending_initiators := hm_insert i s (ro_pending_initiators r)\<rparr>)
          \<le> router_owes tx ?r + of_bool (s = tx)" for x i
        using router_owes_park [where tx = tx and r = ?r and i = i and s = s] by (simp add: router_owes_def)
      moreover have "router_owes tx ?r + wire_account tx (post k (RtsSetInitiator s) w) \<le> router_owes tx r + wire_account tx w" for k
        using account_post [of tx k "RtsSetInitiator s" w] take RpCreateTarget by simp
      ultimately show ?thesis using Some q take RpCreateTarget
        by (simp add: rw handle_router_response_def router_account_pair Let_def add_mono split: sum.split option.split)
    qed (use Some q take in \<open>simp_all add: rw handle_router_response_def router_account_pair\<close>)
  qed (simp add: rw handle_router_response_def)
qed

lemma account_router_response: "router_account tx (router_on_response env clock resp rw) \<le> router_account tx rw"
proof -
  obtain r w where rw: "rw = (r, w)" by fastforce
  obtain route ids where take: "take_route (rs_id resp) (pw_ids w) = (route, ids)" by fastforce
  show ?thesis
  proof (cases route)
    case None
    then show ?thesis using account_own_response [of tx env clock "rs_id resp" resp "(r, w\<lparr>pw_ids := ids\<rparr>)"]
      by (simp add: rw router_on_response_def take router_account_pair)
  next
    case (Some k)
    then show ?thesis using account_silent_post [of tx "RtsResponse (rs_id resp) resp []" k "w\<lparr>pw_ids := ids\<rparr>"]
      by (simp add: rw router_on_response_def take router_account_pair Let_def)
  qed
qed

lemma account_shut_down: "router_account tx (shut_down found rw) \<le> router_account tx rw"
  using account_silent_post [of tx RtsShutdown _ "snd rw"]
  by (simp add: shut_down_def router_account_def split: option.split)

lemma account_submit:
  "(\<And>s. router_pending_owes tx (mk s) = of_bool (s = tx)) \<Longrightarrow>
    router_account tx (router_submit mk failed req s clock rw) \<le> router_account tx rw + of_bool (s = tx)"
proof -
  assume mk: "\<And>s. router_pending_owes tx (mk s) = of_bool (s = tx)"
  obtain c w where call: "wire_call 0 req (snd rw) = (c, w)" by fastforce
  show ?thesis using mk wire_call_account [OF call, of tx] router_owes_put [where tx = tx and r = "fst rw" and p = "mk s"]
    by (cases c) (simp_all add: router_submit_def call router_account_def)
qed

lemma account_router_message: "router_account tx (router_message clock lid msg rw) \<le> router_account tx rw + browser_owes tx msg"
proof (cases msg)
  case (HandlerCommand cmd)
  have "snd (CommandMessage_split cmd) = cm_sender cmd" by (simp add: CommandMessage_split_def)
  then show ?thesis using HandlerCommand
      account_submit [of tx RpBrowserCommand "\<lambda>e. AnswerResponse (Inl e)" "fst (CommandMessage_split cmd)" "cm_sender cmd" clock rw]
    by (auto simp add: dispatch_browser_command_def dispatch_session_command_via_ws_def case_prod_beta split: option.split)
next
  case (CreatePage params s)
  then show ?thesis using account_submit [of tx RpCreateTarget "\<lambda>e. AnswerPage (Inl e)" _ s clock rw]
    by (simp add: router_create_page_def router_account_def Let_def)
qed (simp_all add: router_account_def)

lemma account_expire: "router_account tx (router_expire c rw) \<le> router_account tx rw"
proof -
  obtain r w where rw: "rw = (r, w)" by fastforce
  show ?thesis
  proof (cases "hm_get (ro_pending r) c")
    case (Some q)
    obtain p m ts where q: "q = (p, m, ts)" by (cases q)
    show ?thesis using Some q router_owes_take [of r c p m ts tx]
      by (cases p) (simp_all add: rw router_expire_def router_account_pair)
  qed (simp add: rw router_expire_def)
qed

lemma account_initiator: "router_account tx (expire_initiator i rw) \<le> router_account tx rw"
proof -
  obtain r w where rw: "rw = (r, w)" by fastforce
  let ?r = "r\<lparr>ro_pending_initiator_ts := hm_remove i (ro_pending_initiator_ts r)\<rparr>"
  show ?thesis using router_owes_unpark(1) [of ?r i _ tx]
    by (auto simp: rw expire_initiator_def router_account_pair Let_def split: option.split)
qed

lemma account_fold: "(\<And>x rw. router_account tx (f x rw) \<le> router_account tx rw) \<Longrightarrow> router_account tx (fold f xs rw) \<le> router_account tx rw"
proof (induction xs arbitrary: rw)
  case (Cons x xs)
  then show ?case using order.trans [OF Cons.IH [of "f x rw"] Cons.prems(1) [of x rw]] by simp
qed simp

lemma account_router_evict: "router_account tx (evict_router_pending now timeout rw) \<le> router_account tx rw"
proof -
  have "router_account tx (fold expire_initiator is (fold router_expire cs rw)) \<le> router_account tx rw" for cs "is"
    using account_fold [where f = expire_initiator and xs = "is", OF account_initiator]
      account_fold [where f = router_expire and xs = cs, OF account_expire] order.trans by blast
  then show ?thesis by (simp add: evict_router_pending_def Let_def split: option.split)
qed

lemma account_router_lifecycle: "router_account tx (on_lifecycle msg (r, w)) = router_account tx (r, w)"
  by (cases msg) (auto simp: router_account_pair remove_session_def split: option.split)

lemma account_flush: "router_account tx (flush_router alive rw) = router_account tx rw"
  by (simp add: flush_router_def router_account_def case_prod_beta)

lemma account_created:
  assumes "router_target_created env info rw = RouterGoes new rw'"
  shows "router_account tx rw' + task_owes tx new \<le> router_account tx rw"
proof -
  obtain r w where rw: "rw = (r, w)" by fastforce
  let ?i = "ti_target_id info"
  show ?thesis
  proof (cases "hm_get (ro_target_slots r) ?i = None")
    case False
    then show ?thesis using assms by (auto simp: rw router_target_created_def task_owes_def)
  next
    case absent: True
    then obtain k r1 where slot: "alloc_slot r = Some (k, r1)"
      using assms by (auto simp: rw router_target_created_def Let_def split: option.splits)
    then have r1: "r1 = r\<lparr>ro_next_slot := ro_next_slot r + 1\<rparr>" by (auto simp: alloc_slot_def split: if_splits)
    let ?r = "\<lambda>x y z. r1\<lparr>ro_target_slots := x, ro_pending_initiators := hm_remove ?i (ro_pending_initiators r1),
      ro_pending_initiator_ts := y, ro_sessions := z\<rparr>"
    let ?w = "w\<lparr>pw_inboxes := hm_insert k [] (pw_inboxes w)\<rparr>"
    have same: "router_owes tx (?r x y z) = router_owes tx (r\<lparr>ro_pending_initiators := hm_remove ?i (ro_pending_initiators r)\<rparr>)" for x y z
      by (simp add: r1 router_owes_def)
    have new: "new = None \<or> (\<exists>t timeout. new = Some (SessionTask_new k t timeout) \<and> target_owes tx t = 0)"
      using assms absent slot by (auto simp: rw router_target_created_def Let_def)
    then have silent: "task_owes tx new = 0" by (auto simp: task_owes_def session_owes_def SessionTask_new_def)
    have wires: "wire_account tx ?w \<le> wire_account tx w"
      using hm_sum_remove_le [of "inbox_owes tx" k "pw_inboxes w"]
      by (simp add: wire_account_def wire_answers_def hm_sum_insert inbox_owes_def [of tx "[]"])
    show ?thesis
    proof (cases "hm_get (ro_pending_initiators r) ?i")
      case None
      then have "rw' = (?r (hm_insert ?i k (ro_target_slots r1)) (hm_remove ?i (ro_pending_initiator_ts r1))
          (hm_insert k \<lparr>en_target_id = ?i, en_session_id = None\<rparr> (ro_sessions r1)), ?w)"
        using assms absent slot by (auto simp: rw router_target_created_def Let_def r1)
      then show ?thesis using same wires silent router_owes_unpark(2) [where tx = tx and r = r and i = ?i] by (simp add: rw router_account_pair)
    next
      case (Some s)
      then have "rw' = (?r (hm_insert ?i k (ro_target_slots r1)) (hm_remove ?i (ro_pending_initiator_ts r1))
          (hm_insert k \<lparr>en_target_id = ?i, en_session_id = None\<rparr> (ro_sessions r1)), post k (RtsSetInitiator s) ?w)"
        using assms absent slot by (auto simp: rw router_target_created_def Let_def r1)
      then show ?thesis using same wires silent router_owes_unpark(1) [OF Some, of tx] account_post [of tx k "RtsSetInitiator s" ?w]
        by (simp add: rw router_account_pair)
    qed
  qed
qed

lemma account_browser_event:
  assumes "browser_event env ev rw = RouterGoes new rw'"
  shows "router_account tx rw' + task_owes tx new \<le> router_account tx rw"
proof (cases ev)
  case (EvTargetCreated info)
  then show ?thesis using assms account_created by simp
next
  case (EvAttachedToTarget sid info waiting)
  then show ?thesis using assms
    by (auto simp: router_attached_def router_account_def task_owes_def split: option.split)
qed (use assms in \<open>auto simp: task_owes_def router_target_gone_def intro: account_shut_down\<close>)

lemma account_router_event:
  assumes "router_on_event env ev rw = RouterGoes new rw'"
  shows "router_account tx rw' + task_owes tx new \<le> router_account tx rw"
proof (cases "ev_session_id ev")
  case None
  then obtain rw1 where event: "browser_event env (ev_params ev) rw = RouterGoes new rw1"
    and rw': "rw' = ((fst rw1)\<lparr>ro_listeners := consume_event (ev_method ev) (ev_params ev) (ro_listeners (fst rw1))\<rparr>, snd rw1)"
    using assms by (auto simp: router_on_event_def split: router_outcome.splits)
  from account_browser_event [OF event, of tx] show ?thesis by (simp add: rw' router_account_def)
next
  case (Some sid)
  then show ?thesis using assms account_silent_post [of tx "RtsEvent ev" _ "snd rw"]
    by (auto simp: router_on_event_def router_account_def task_owes_def split: option.splits if_splits)
qed

definition turn_owes :: "sender \<Rightarrow> router_turn \<Rightarrow> nat" where
  "turn_owes tx ru = (case ru_browser ru of Some (Some msg) \<Rightarrow> browser_owes tx msg | _ \<Rightarrow> 0)"

lemma account_router_turn:
  assumes "router_turns env ru rw = RouterGoes new rw'"
  shows "router_account tx rw' + task_owes tx new \<le> router_account tx rw + turn_owes tx ru"
proof -
  let ?rw = "flush_router (ru_alive ru) rw"
  have silent: "task_owes tx None = 0" by (simp add: task_owes_def)
  from assms show ?thesis
  proof (cases rule: router_turn_cases)
    case (tick timeout)
    then show ?thesis using account_router_evict [of tx "ru_clock ru" timeout ?rw] by (simp add: silent account_flush)
  next
    case (response resp)
    then show ?thesis using account_router_response [of tx env "ru_clock ru" resp ?rw] by (simp add: silent account_flush)
  next
    case (event ev)
    then show ?thesis using account_router_event [OF event, of tx] by (simp add: account_flush)
  next
    case (lifecycle msg msgs)
    have "router_account tx (fst ?rw, (snd ?rw)\<lparr>pw_lifecycle := msgs\<rparr>) = router_account tx ?rw"
      by (simp add: router_account_def)
    with lifecycle show ?thesis by (simp add: silent account_router_lifecycle account_flush)
  next
    case idle
    then show ?thesis by (simp add: silent account_flush)
  next
    case (browser msg)
    then show ?thesis using account_router_message [of tx "ru_clock ru" "ru_lid ru" msg ?rw]
      by (simp add: silent account_flush turn_owes_def)
  qed
qed

lemma account_drop: "wire_account tx (drop_router (shut_down_all rw)) \<le> wire_account tx (snd rw)"
proof -
  have one: "wire_account tx (try_post k RtsShutdown w) \<le> wire_account tx w" for k w
    using hm_sum_modify_le [of "inbox_owes tx" "\<lambda>q. if length q < SESSION_INBOX_CAPACITY then q @ [RtsShutdown] else q" k "pw_inboxes w"]
    by (simp add: try_post_def wire_account_def wire_answers_def)
  have "wire_account tx (fold (\<lambda>k. try_post k RtsShutdown) ks w) \<le> wire_account tx w" for ks w
  proof (induction ks arbitrary: w)
    case (Cons k ks)
    then show ?case using order.trans [OF Cons.IH [of "try_post k RtsShutdown w"] one] by simp
  qed simp
  then show ?thesis by (simp add: drop_router_def shut_down_all_def)
qed

section \<open>The whole handler\<close>

fun parallel_input_owes :: "sender \<Rightarrow> parallel_input \<Rightarrow> nat" where
  "parallel_input_owes tx (RouterTurn ru) = turn_owes tx ru"
| "parallel_input_owes tx (SessionTurn k sn) = sum_list (map (page_owes tx) (sn_arrived sn))"
| "parallel_input_owes tx WriterGone = 0"

definition parallel_account :: "sender \<Rightarrow> parallel \<Rightarrow> nat" where
  "parallel_account tx p = (case pl_router p of None \<Rightarrow> 0 | Some r \<Rightarrow> router_owes tx r) +
     hm_sum (\<lambda>(_, s). session_owes tx s) (pl_tasks p) + wire_account tx (pl_wires p)"

lemma parallel_account_parts: "parallel_answers tx p + parallel_owed tx p = parallel_account tx p"
  by (simp add: parallel_answers_def parallel_owed_def parallel_account_def wire_account_def)

lemma spawn_owes: "hm_sum (\<lambda>(_, s). session_owes tx s) (spawn new tasks) \<le> hm_sum (\<lambda>(_, s). session_owes tx s) tasks + task_owes tx new"
proof (cases new)
  case (Some s)
  then show ?thesis using hm_sum_insert_le [of "\<lambda>(_, s). session_owes tx s" "st_slot s" "(False, s)" tasks]
    by (simp add: task_owes_def)
qed (simp add: task_owes_def)

lemma account_step: "parallel_account tx (parallel_step env p i) \<le> parallel_account tx p + parallel_input_owes tx i"
proof (cases i)
  case (RouterTurn ru)
  show ?thesis
  proof (cases "pl_router p")
    case (Some r)
    show ?thesis
    proof (cases "router_turns env ru (r, pl_wires p)")
      case (RouterGoes new rw)
      obtain r' w' where rw: "rw = (r', w')" by fastforce
      show ?thesis using account_router_turn [OF RouterGoes, of tx] spawn_owes [of tx new "pl_tasks p"]
        by (simp add: RouterTurn Some RouterGoes rw parallel_account_def router_account_pair)
    next
      case RouterPanics
      have "wire_account tx (drop_router (pl_wires p)) = wire_account tx (pl_wires p)" by (simp add: drop_router_def)
      then show ?thesis by (simp add: RouterTurn Some RouterPanics parallel_account_def)
    next
      case (RouterEnds rw)
      have "rw = flush_router (ru_alive ru) (r, pl_wires p)" by (rule router_ends [OF RouterEnds])
      then have "router_account tx rw = router_account tx (r, pl_wires p)" by (simp add: account_flush)
      then show ?thesis using account_drop [of tx rw]
        by (simp add: RouterTurn Some RouterEnds parallel_account_def router_account_def)
    qed
  qed (simp add: RouterTurn)
next
  case (SessionTurn k sn)
  show ?thesis
  proof (cases "hm_get (pl_tasks p) k")
    case (Some found)
    obtain started s where found: "found = (started, s)" by fastforce
    obtain s' w' where turn: "(if started then session_turns else first_turn) env sn (s, pl_wires p) = (s', w')" by fastforce
    have "task_owes tx s' + wire_account tx w' \<le>
        session_owes tx s + wire_account tx (pl_wires p) + sum_list (map (page_owes tx) (sn_arrived sn))"
      using turn by (intro account_turn [of env]) (auto split: if_splits)
    moreover have "hm_sum (\<lambda>(_, s). session_owes tx s) (pl_tasks p) =
        session_owes tx s + hm_sum (\<lambda>(_, s). session_owes tx s) (hm_remove k (pl_tasks p))"
      using hm_sum_take [OF Some, of "\<lambda>(_, s). session_owes tx s"] by (simp add: found)
    ultimately show ?thesis
      by (cases s') (simp_all add: SessionTurn Some found turn parallel_account_def task_owes_def hm_sum_insert)
  qed (simp add: SessionTurn)
qed (simp add: parallel_account_def)

lemma account_run: "parallel_account tx (run (parallel_step env) p is) \<le> parallel_account tx p + sum_list (map (parallel_input_owes tx) is)"
proof (induction "is" arbitrary: p)
  case (Cons i "is")
  show ?case using Cons.IH [of "parallel_step env p i"] account_step [of tx env p i] by simp
qed simp

section \<open>What the callers are promised\<close>

lemma started_account: "run_parallel clock h = Some p \<Longrightarrow> parallel_account tx p = 0"
  by (auto simp: run_parallel_def parallel_account_def Router_new_def router_owes_def wire_account_def wire_answers_def
      Router_wires_def hm_sum_insert hm_sum_def hm_keys_def hm_get_def Let_def split: option.splits)


definition demo_asks :: router_turn where
  "demo_asks = (router_reads (WsEvent undefined))\<lparr>ru_socket := None, ru_browser := Some (Some (FetchTargets 7))\<rparr>"


text \<open>C14 (a task that ends leaves no caller behind). Whatever ends the task, every sender behind its pending calls
  and its navigations is answered, each as often as it waits there and all with the error that the target has gone;
  the inbox is dropped, and the router is told to give the slot back as long as it runs and its channel has room.\<close>

theorem ended_task_answers_callers:
  assumes "session_turns env sn (s, w) = (None, w')"
  shows "(\<forall>tx. wire_answers tx w' = wire_answers tx w + table_owes tx s) \<and> only_errors target_gone w w' \<and>
    hm_get (pw_inboxes w') (st_slot s) = None \<and>
    pw_lifecycle w' = pw_lifecycle w @
      (if pw_router_alive w \<and> length (pw_lifecycle w) < SESSION_LIFECYCLE_CAPACITY then [Detached (st_slot s)] else [])"
proof -
  let ?sw = "(page_arrivals (sn_arrived sn) s, w)"
  have w': "w' = session_ends ?sw"
    using assms by (auto simp: session_turns_def case_prod_beta Let_def split: session_select.splits)
  have same: "table_owes tx (page_arrivals msgs s) = table_owes tx s" "st_slot (page_arrivals msgs s) = st_slot s" for tx msgs
    by (simp_all add: table_owes_def page_arrivals_def)
  obtain s1 w1 where cancelled: "cancel_in_flight ?sw = (s1, w1)" by fastforce
  note facts = cancel_facts(1) [of _ ?sw, unfolded cancelled] cancel_facts(2-4) [of ?sw, unfolded cancelled]
    cancel_fields [of ?sw, unfolded cancelled]
  have ends: "w' = (report (Detached (st_slot s)) w1)\<lparr>pw_inboxes := hm_remove (st_slot s) (pw_inboxes w1)\<rparr>"
    using facts by (simp add: w' session_ends_def cancelled same)
  show ?thesis
    using facts by (simp add: ends same wire_answers_def only_errors_def report_def)
qed

definition demo_waiting :: session_task where
  "demo_waiting = (SessionTask_new 1 (Target_new demo_env demo_info TargetConfig_default BrowserContext_default) 0)
     \<lparr>st_pending := [(3, (SpExternal 7, ''Page.reload'', 0)), (4, (SpNavigate 0, ''Page.navigate'', 0))],
      st_navigations := [(0, NavigationInProgress_new 8)]\<rparr>"

definition demo_alone :: wires where
  "demo_alone = (Router_wires 5 [])\<lparr>pw_router_alive := False\<rparr>"

lemma ended_task_answers_callers_witness:
  "\<exists>w'. session_turns demo_handler_env demo_session_turn (demo_waiting, demo_alone) = (None, w') \<and>
    wire_answers 7 w' = 1 \<and> wire_answers 8 w' = 1"
proof -
  obtain w' where turn: "session_turns demo_handler_env demo_session_turn (demo_waiting, demo_alone) = (None, w')"
    by (simp add: session_turns_def select_session_def demo_alone_def Router_wires_def hm_get_def)
  have "table_owes 7 demo_waiting = 1" "table_owes 8 demo_waiting = 1"
    by (simp_all add: table_owes_def demo_waiting_def hm_sum_def hm_keys_def hm_get_def NavigationInProgress_new_def)
  then show ?thesis using turn ended_task_answers_callers [OF turn]
    by (simp add: wire_answers_def demo_alone_def Router_wires_def)
qed

text \<open>A task whose report does not fit is never forgotten: neither the timer nor a failed post removes its slot.\<close>

lemma lost_report_keeps_slot:
  assumes "SESSION_LIFECYCLE_CAPACITY \<le> length (pw_lifecycle w)"
  shows "pw_lifecycle (session_ends (s, w)) = pw_lifecycle w"
    "ro_sessions (fst (evict_router_pending now timeout rw)) = ro_sessions (fst rw)"
proof -
  show "pw_lifecycle (session_ends (s, w)) = pw_lifecycle w"
    using assms by (simp add: session_ends_def case_prod_beta report_def cancel_fields)
  have "ro_sessions (fst (router_expire c rw)) = ro_sessions (fst rw)" "ro_sessions (fst (expire_initiator i rw)) = ro_sessions (fst rw)" for c i rw
    by (cases rw; simp add: router_expire_def expire_initiator_def Let_def split: option.split prod.split)+
  then have "ro_sessions (fst (fold router_expire cs rw)) = ro_sessions (fst rw)"
    "ro_sessions (fst (fold expire_initiator is rw)) = ro_sessions (fst rw)" for cs "is" rw
    by (induction cs arbitrary: rw; induction "is" arbitrary: rw; simp)+
  then show "ro_sessions (fst (evict_router_pending now timeout rw)) = ro_sessions (fst rw)"
    by (simp add: evict_router_pending_def Let_def split: option.split)
qed

section \<open>The navigations of a task and of the serial handler\<close>

datatype navigation_step =
    NavigationStarted navigation_id sender
  | NavigationResponse navigation_id cdp_response
  | NavigationCompleted "navigation_error + navigation_ok"

fun serial_navigation :: "navigation_step \<Rightarrow> handler \<Rightarrow> handler" where
  "serial_navigation (NavigationStarted i tx) h = start_navigation i tx h"
| "serial_navigation (NavigationResponse i resp) h = on_navigation_response i resp h"
| "serial_navigation (NavigationCompleted res) h = on_navigation_lifecycle_completed res h"

fun task_navigation :: "navigation_step \<Rightarrow> session_state \<Rightarrow> session_state" where
  "task_navigation (NavigationStarted i tx) (s, w) =
     (s\<lparr>st_navigations := hm_insert i (NavigationInProgress_new tx) (st_navigations s)\<rparr>, w)"
| "task_navigation (NavigationResponse i resp) sw = session_navigation_response i resp sw"
| "task_navigation (NavigationCompleted res) sw = session_lifecycle_completed res sw"

text \<open>The same navigations in flight, the same answers given.\<close>

definition same_navigations :: "session_state \<Rightarrow> handler \<Rightarrow> bool" where
  "same_navigations sw h \<longleftrightarrow> hd_sent h = pw_sent (snd sw) \<and>
     (\<forall>i. hm_get (hd_navigations h) i = map_option Navigate (hm_get (st_navigations (fst sw)) i))"

lemma same_step: "same_navigations sw h \<Longrightarrow> same_navigations (task_navigation step sw) (serial_navigation step h)"
proof (cases step)
  case (NavigationStarted i tx)
  assume same: "same_navigations sw h"
  obtain s w where sw: "sw = (s, w)" by fastforce
  show ?thesis using same by (simp add: NavigationStarted sw same_navigations_def start_navigation_def)
next
  case (NavigationResponse i resp)
  assume same: "same_navigations sw h"
  obtain s w where sw: "sw = (s, w)" by fastforce
  show ?thesis using same
    by (cases "hm_get (st_navigations s) i")
      (simp_all add: NavigationResponse sw same_navigations_def session_navigation_response_def on_navigation_response_def
        hd_send_def wire_answer_def Let_def)
next
  case (NavigationCompleted res)
  assume same: "same_navigations sw h"
  obtain s w where sw: "sw = (s, w)" by fastforce
  let ?i = "case res of Inr ok \<Rightarrow> NavigationOk_navigation_id ok | Inl err \<Rightarrow> NavigationError_navigation_id err"
  show ?thesis using same
    by (cases "hm_get (st_navigations s) ?i"; cases res)
      (simp_all add: NavigationCompleted sw same_navigations_def session_lifecycle_completed_def
        on_navigation_lifecycle_completed_def hd_send_def wire_answer_def Let_def split: option.split)
qed

text \<open>C15 (the tasks treat navigations as the serial handler does). The task and the serial handler start with the same
  navigations in flight and get the same starts, responses and completions in the same order: they give the same
  answers in the same order and are left with the same navigations.\<close>

theorem task_navigations_match_serial:
  "same_navigations sw h \<Longrightarrow> same_navigations (fold task_navigation steps sw) (fold serial_navigation steps h)"
proof (induction steps arbitrary: sw h)
  case (Cons step steps)
  then show ?case using same_step [OF Cons.prems, of step] by simp
qed simp

lemma task_navigations_match_serial_witness:
  "let steps = [NavigationStarted 0 7, NavigationCompleted (Inr (NewDocumentNavigation 0)), NavigationResponse 0 \<lparr>rs_id = 1, rs_result = None, rs_error = None\<rparr>];
     h = Handler_new (fresh_connection [] False) HandlerConfig_default;
     (s, w) = fold task_navigation steps (demo_waiting\<lparr>st_navigations := []\<rparr>, demo_alone)
   in pw_sent w = hd_sent (fold serial_navigation steps h)"
  using task_navigations_match_serial [of "(demo_waiting\<lparr>st_navigations := []\<rparr>, demo_alone)"
      "Handler_new (fresh_connection [] False) HandlerConfig_default"
      "[NavigationStarted 0 7, NavigationCompleted (Inr (NewDocumentNavigation 0)), NavigationResponse 0 \<lparr>rs_id = 1, rs_result = None, rs_error = None\<rparr>]"]
  by (simp add: same_navigations_def Handler_new_def demo_alone_def Router_wires_def Let_def case_prod_beta)

end
