(* ===== verification/Page_Futures.thy ===== *)
theory Page_Futures
  imports Target_Types
begin

text \<open>
  How a page waits: the sender to its target (\<open>handler/sender.rs\<close>), the future of a command
  (\<open>handler/commandfuture.rs\<close>), of a message to the target (\<open>handler/target_message_future.rs\<close>) and of
  a command that navigates (\<open>handler/httpfuture.rs\<close>), and the operations of the page that make them
  (\<open>handler/page.rs\<close>). A future is polled; what tokio's channels and its clock answer in a poll is
  given with the poll; both errors of the channels are one value of the error type. A message is sent at most once and a navigation is awaited only after its
  command has succeeded; every future ends once it is polled after its deadline.
\<close>

section \<open>The sender\<close>

text \<open>What \<open>try_send\<close> of the channel answers, and a poll of its asynchronous \<open>send\<close>: not yet, sent, or closed.\<close>

datatype send_outcome = SendOk | SendFull | SendClosed

text \<open>The sender with what went through it: the messages that entered the channel, in order, and the
  number of times the handler was notified.\<close>

record page_sender =
  ps_wake :: bool
  ps_sent :: "target_message list"
  ps_notified :: nat

definition PageSender_new :: "bool \<Rightarrow> page_sender" where
  "PageSender_new wake = \<lparr>ps_wake = wake, ps_sent = [], ps_notified = 0\<rparr>"

definition PageSender_notify :: "page_sender \<Rightarrow> page_sender" where
  "PageSender_notify s = (if ps_wake s then s\<lparr>ps_notified := Suc (ps_notified s)\<rparr> else s)"

definition PageSender_try_send :: "send_outcome \<Rightarrow> target_message \<Rightarrow> page_sender \<Rightarrow> send_outcome \<times> page_sender" where
  "PageSender_try_send outcome msg s =
     (outcome, if outcome = SendOk then PageSender_notify (s\<lparr>ps_sent := ps_sent s @ [msg]\<rparr>) else s)"

definition PageSender_send :: "bool poll \<Rightarrow> target_message \<Rightarrow> page_sender \<Rightarrow> bool poll \<times> page_sender" where
  "PageSender_send outcome msg s =
     (outcome, if outcome = Ready True then PageSender_notify (s\<lparr>ps_sent := ps_sent s @ [msg]\<rparr>) else s)"

section \<open>The futures\<close>

text \<open>A command future and a message future have the same shape: the message until it is tried, the message
  parked in \<open>send_fut\<close>, the deadline of \<open>delay\<close>, and the timeout it was made with.\<close>

record page_future =
  pf_message :: "target_message option"
  pf_parked :: "target_message option"
  pf_deadline :: instant
  pf_timeout :: duration

text \<open>What the outside answers in one poll: the clock, both ways of sending, and the oneshot receiver, whose
  sender may be gone (\<open>None\<close>).\<close>

record 'a poll_env =
  pe_now :: instant
  pe_try_send :: send_outcome
  pe_parked :: "bool poll"
  pe_answer :: "'a option poll"

definition future_new :: "instant \<Rightarrow> target_message \<Rightarrow> duration \<Rightarrow> page_future" where
  "future_new now msg timeout = \<lparr>pf_message = Some msg, pf_parked = None, pf_deadline = now + timeout, pf_timeout = timeout\<rparr>"

definition CommandFuture_new :: "instant \<Rightarrow> method_id \<Rightarrow> json option \<Rightarrow> sender \<Rightarrow> session_id option \<Rightarrow> duration \<Rightarrow>
    (cdp_error + page_future)" where
  "CommandFuture_new now m params tx session timeout =
     (case CommandMessage_with_session m params tx session of
        None \<Rightarrow> Inl ErrSerde
      | Some msg \<Rightarrow> Inr (future_new now (MsgCommand msg) timeout))"

definition TargetMessageFuture_new :: "instant \<Rightarrow> target_message \<Rightarrow> duration \<Rightarrow> page_future" where
  "TargetMessageFuture_new now msg timeout = future_new now msg timeout"

definition TargetMessageFuture_wait :: "instant \<Rightarrow> sender \<Rightarrow> duration \<Rightarrow> (sender \<Rightarrow> target_message) \<Rightarrow> page_future" where
  "TargetMessageFuture_wait now tx timeout make_msg = TargetMessageFuture_new now (make_msg tx) timeout"

definition wait_for_navigation :: "instant \<Rightarrow> sender \<Rightarrow> duration \<Rightarrow> page_future" where
  "wait_for_navigation now tx timeout = TargetMessageFuture_wait now tx timeout MsgWaitForNavigation"

definition wait_for_dom_content_loaded :: "instant \<Rightarrow> sender \<Rightarrow> duration \<Rightarrow> page_future" where
  "wait_for_dom_content_loaded now tx timeout = TargetMessageFuture_wait now tx timeout MsgWaitForDomContentLoaded"

definition wait_for_load :: "instant \<Rightarrow> sender \<Rightarrow> duration \<Rightarrow> page_future" where
  "wait_for_load now tx timeout = TargetMessageFuture_wait now tx timeout MsgWaitForLoad"

definition wait_for_network_idle :: "instant \<Rightarrow> sender \<Rightarrow> duration \<Rightarrow> page_future" where
  "wait_for_network_idle now tx timeout = TargetMessageFuture_wait now tx timeout MsgWaitForNetworkIdle"

definition wait_for_network_almost_idle :: "instant \<Rightarrow> sender \<Rightarrow> duration \<Rightarrow> page_future" where
  "wait_for_network_almost_idle now tx timeout = TargetMessageFuture_wait now tx timeout MsgWaitForNetworkAlmostIdle"

definition reset_deadline :: "instant \<Rightarrow> page_future \<Rightarrow> page_future" where
  "reset_deadline now f = f\<lparr>pf_deadline := now + pf_timeout f\<rparr>"

text \<open>The delivery of the message. \<open>Ready None\<close> is a message in the channel. First the parked send.\<close>

definition poll_parked :: "'a poll_env \<Rightarrow> page_future \<Rightarrow> page_sender \<Rightarrow> cdp_error option poll \<times> page_future \<times> page_sender" where
  "poll_parked e f s =
     (case pf_parked f of
        None \<Rightarrow> (Ready None, f, s)
      | Some msg \<Rightarrow> (case PageSender_send (pe_parked e) msg s of
            (Ready True, s') \<Rightarrow> (Ready None, f\<lparr>pf_parked := None\<rparr>, s')
          | (Ready False, s') \<Rightarrow> (Ready (Some ChannelSendError), f, s')
          | (Pending, s') \<Rightarrow> if pf_deadline f \<le> pe_now e then (Ready (Some Timeout), f, s') else (Pending, f, s')))"

definition poll_delivery :: "'a poll_env \<Rightarrow> page_future \<Rightarrow> page_sender \<Rightarrow> cdp_error option poll \<times> page_future \<times> page_sender" where
  "poll_delivery e f s =
     (case pf_message f of
        None \<Rightarrow> poll_parked e f s
      | Some msg \<Rightarrow> (case PageSender_try_send (pe_try_send e) msg s of
            (SendOk, s') \<Rightarrow> poll_parked e (f\<lparr>pf_message := None\<rparr>) s'
          | (SendFull, s') \<Rightarrow> poll_parked e (f\<lparr>pf_message := None, pf_parked := Some msg\<rparr>) s'
          | (SendClosed, s') \<Rightarrow> (Ready (Some ChannelSendError), f\<lparr>pf_message := None\<rparr>, s')))"

text \<open>Then the answer; a deadline that has passed wins over an answer that is there.\<close>

definition CommandFuture_poll :: "(json \<Rightarrow> 'r option) \<Rightarrow> method_id \<Rightarrow> (cdp_error + cdp_response) poll_env \<Rightarrow> page_future \<Rightarrow> page_sender \<Rightarrow>
    (cdp_error + 'r command_response) poll \<times> page_future \<times> page_sender" where
  "CommandFuture_poll from_value m e f s =
     (case poll_delivery e f s of
        (Pending, f', s') \<Rightarrow> (Pending, f', s')
      | (Ready (Some err), f', s') \<Rightarrow> (Ready (Inl err), f', s')
      | (Ready None, f', s') \<Rightarrow>
          (if pf_deadline f' \<le> pe_now e then Ready (Inl Timeout)
           else (case pe_answer e of
               Ready (Some (Inr response)) \<Rightarrow> Ready (to_command_response from_value response m)
             | Ready (Some (Inl err)) \<Rightarrow> Ready (Inl err)
             | Ready None \<Rightarrow> Ready (Inl ChannelSendError)
             | Pending \<Rightarrow> Pending), f', s'))"

definition TargetMessageFuture_poll :: "'v poll_env \<Rightarrow> page_future \<Rightarrow> page_sender \<Rightarrow> (cdp_error + 'v) poll \<times> page_future \<times> page_sender" where
  "TargetMessageFuture_poll e f s =
     (case poll_delivery e f s of
        (Pending, f', s') \<Rightarrow> (Pending, f', s')
      | (Ready (Some err), f', s') \<Rightarrow> (Ready (Inl err), f', s')
      | (Ready None, f', s') \<Rightarrow>
          (if pf_deadline f' \<le> pe_now e then Ready (Inl Timeout)
           else (case pe_answer e of
               Ready (Some v) \<Rightarrow> Ready (Inr v)
             | Ready None \<Rightarrow> Ready (Inl ChannelSendError)
             | Pending \<Rightarrow> Pending), f', s'))"

text \<open>The command, fused (\<open>None\<close> once it has returned), and the navigation awaited after it.\<close>

record http_future =
  hf_method :: method_id
  hf_command :: "page_future option"
  hf_navigation :: page_future

definition HttpFuture_new :: "instant \<Rightarrow> method_id \<Rightarrow> sender \<Rightarrow> page_future \<Rightarrow> duration \<Rightarrow> http_future" where
  "HttpFuture_new now m tx command timeout =
     \<lparr>hf_method = m, hf_command = Some command, hf_navigation = wait_for_navigation now tx timeout\<rparr>"

definition poll_navigation :: "'v poll_env \<Rightarrow> http_future \<Rightarrow> page_sender \<Rightarrow> (cdp_error + 'v) poll \<times> http_future \<times> page_sender" where
  "poll_navigation e h s =
     (let (r, f, s') = TargetMessageFuture_poll e (hf_navigation h) s in (r, h\<lparr>hf_navigation := f\<rparr>, s'))"

definition HttpFuture_poll :: "(json \<Rightarrow> 'r option) \<Rightarrow> (cdp_error + cdp_response) poll_env \<Rightarrow> 'v poll_env \<Rightarrow> http_future \<Rightarrow> page_sender \<Rightarrow>
    (cdp_error + 'v) poll \<times> http_future \<times> page_sender" where
  "HttpFuture_poll from_value e1 e2 h s =
     (case hf_command h of
        None \<Rightarrow> poll_navigation e2 h s
      | Some c \<Rightarrow> (case CommandFuture_poll from_value (hf_method h) e1 c s of
            (Ready (Inr _), c', s') \<Rightarrow>
              poll_navigation e2 (h\<lparr>hf_command := None, hf_navigation := reset_deadline (pe_now e2) (hf_navigation h)\<rparr>) s'
          | (Ready (Inl err), c', s') \<Rightarrow> (Ready (Inl err), h\<lparr>hf_command := None\<rparr>, s')
          | (Pending, c', s') \<Rightarrow> (Pending, h\<lparr>hf_command := Some c'\<rparr>, s')))"

section \<open>The page\<close>

definition PageInner_command_future :: "page_inner \<Rightarrow> instant \<Rightarrow> method_id \<Rightarrow> json option \<Rightarrow> sender \<Rightarrow> cdp_error + page_future" where
  "PageInner_command_future p now m params tx =
     CommandFuture_new now m params tx (Some (pg_session_id p)) (pg_request_timeout p)"

definition PageInner_http_future :: "page_inner \<Rightarrow> instant \<Rightarrow> method_id \<Rightarrow> json option \<Rightarrow> sender \<Rightarrow> sender \<Rightarrow> cdp_error + http_future" where
  "PageInner_http_future p now m params tx tx' =
     (case PageInner_command_future p now m params tx of
        Inl e \<Rightarrow> Inl e
      | Inr c \<Rightarrow> Inr (HttpFuture_new now m tx' c (pg_request_timeout p)))"

definition PageInner_wait_for_navigation :: "page_inner \<Rightarrow> instant \<Rightarrow> sender \<Rightarrow> page_future" where
  "PageInner_wait_for_navigation p now tx = wait_for_navigation now tx (pg_request_timeout p)"

definition PageInner_wait_for_dom_content_loaded :: "page_inner \<Rightarrow> instant \<Rightarrow> sender \<Rightarrow> page_future" where
  "PageInner_wait_for_dom_content_loaded p now tx = wait_for_dom_content_loaded now tx (pg_request_timeout p)"

definition PageInner_wait_for_load :: "page_inner \<Rightarrow> instant \<Rightarrow> sender \<Rightarrow> page_future" where
  "PageInner_wait_for_load p now tx = wait_for_load now tx (pg_request_timeout p)"

definition PageInner_wait_for_network_idle :: "page_inner \<Rightarrow> instant \<Rightarrow> sender \<Rightarrow> page_future" where
  "PageInner_wait_for_network_idle p now tx = wait_for_network_idle now tx (pg_request_timeout p)"

definition PageInner_wait_for_network_almost_idle :: "page_inner \<Rightarrow> instant \<Rightarrow> sender \<Rightarrow> page_future" where
  "PageInner_wait_for_network_almost_idle p now tx = wait_for_network_almost_idle now tx (pg_request_timeout p)"

text \<open>\<open>send_msg\<close>: what \<open>try_send\<close> answers, and what the asynchronous send answers before the page's
  timeout (\<open>Pending\<close> when the timeout is over first). \<open>recv_msg\<close> likewise.\<close>

definition PageInner_send_msg :: "send_outcome \<Rightarrow> bool poll \<Rightarrow> target_message \<Rightarrow> page_sender \<Rightarrow> (cdp_error + unit) \<times> page_sender" where
  "PageInner_send_msg outcome later msg s =
     (case PageSender_try_send outcome msg s of
        (SendOk, s') \<Rightarrow> (Inr (), s')
      | (SendFull, s') \<Rightarrow> (case PageSender_send later msg s' of
            (Pending, s'') \<Rightarrow> (Inl Timeout, s'')
          | (Ready False, s'') \<Rightarrow> (Inl ChannelSendError, s'')
          | (Ready True, s'') \<Rightarrow> (Inr (), s''))
      | (SendClosed, s') \<Rightarrow> (Inl ChannelSendError, s'))"

definition PageInner_recv_msg :: "'v option poll \<Rightarrow> cdp_error + 'v" where
  "PageInner_recv_msg answer =
     (case answer of Pending \<Rightarrow> Inl Timeout | Ready None \<Rightarrow> Inl ChannelSendError | Ready (Some v) \<Rightarrow> Inr v)"

definition send_command :: "send_outcome \<Rightarrow> bool poll \<Rightarrow> method_id \<Rightarrow> json option \<Rightarrow> sender \<Rightarrow> session_id option \<Rightarrow> page_sender \<Rightarrow>
    (cdp_error + sender) \<times> page_sender" where
  "send_command outcome later m params tx session s =
     (case CommandMessage_with_session m params tx session of
        None \<Rightarrow> (Inl ErrSerde, s)
      | Some msg \<Rightarrow> (case PageSender_try_send outcome (MsgCommand msg) s of
            (SendOk, s') \<Rightarrow> (Inr tx, s')
          | (SendFull, s') \<Rightarrow> (case PageSender_send later (MsgCommand msg) s' of
                (Pending, s'') \<Rightarrow> (Inl Timeout, s'')
              | (Ready False, s'') \<Rightarrow> (Inl ChannelSendError, s'')
              | (Ready True, s'') \<Rightarrow> (Inr tx, s''))
          | (SendClosed, s') \<Rightarrow> (Inl ChannelSendError, s')))"

definition execute :: "(json \<Rightarrow> 'r option) \<Rightarrow> send_outcome \<Rightarrow> bool poll \<Rightarrow> (cdp_error + cdp_response) option poll \<Rightarrow> method_id \<Rightarrow>
    json option \<Rightarrow> sender \<Rightarrow> session_id option \<Rightarrow> page_sender \<Rightarrow> (cdp_error + 'r command_response) \<times> page_sender" where
  "execute from_value outcome later answer m params tx session s =
     (case send_command outcome later m params tx session s of
        (Inl e, s') \<Rightarrow> (Inl e, s')
      | (Inr _, s') \<Rightarrow> (case answer of
            Pending \<Rightarrow> Inl Timeout
          | Ready None \<Rightarrow> Inl ChannelSendError
          | Ready (Some (Inl e)) \<Rightarrow> Inl e
          | Ready (Some (Inr resp)) \<Rightarrow> to_command_response from_value resp m, s'))"

definition PageInner_execute :: "page_inner \<Rightarrow> (json \<Rightarrow> 'r option) \<Rightarrow> send_outcome \<Rightarrow> bool poll \<Rightarrow>
    (cdp_error + cdp_response) option poll \<Rightarrow> method_id \<Rightarrow> json option \<Rightarrow> sender \<Rightarrow> page_sender \<Rightarrow>
    (cdp_error + 'r command_response) \<times> page_sender" where
  "PageInner_execute p from_value outcome later answer m params tx s =
     execute from_value outcome later answer m params tx (Some (pg_session_id p)) s"

text \<open>\<open>PageInner::send_command\<close> drops what sending answers.\<close>

definition PageInner_send_command :: "page_inner \<Rightarrow> send_outcome \<Rightarrow> bool poll \<Rightarrow> method_id \<Rightarrow> json option \<Rightarrow> sender \<Rightarrow> page_sender \<Rightarrow>
    (cdp_error + page_inner) \<times> page_sender" where
  "PageInner_send_command p outcome later m params tx s =
     (Inr p, snd (send_command outcome later m params tx (Some (pg_session_id p)) s))"

end
