(* ===== verification/Page_Waits.thy ===== *)
theory Page_Waits
  imports Page_Futures "HOL-Library.Sublist"
begin

text \<open>
  What the futures of a page guarantee, over any sequence of polls: messages enter the channel at
  most once and in order, the handler is notified of each, a navigation is awaited only after its
  command was answered, and the futures end.
\<close>

section \<open>Runs\<close>

text \<open>Polling a future of a navigating command until it is ready.\<close>

fun http_run :: "(json \<Rightarrow> 'r option) \<Rightarrow> ((cdp_error + cdp_response) poll_env \<times> 'v poll_env) list \<Rightarrow> http_future \<Rightarrow> page_sender \<Rightarrow>
    (cdp_error + 'v) option \<times> http_future \<times> page_sender" where
  "http_run from_value [] h s = (None, h, s)"
| "http_run from_value ((e1, e2) # es) h s =
     (case HttpFuture_poll from_value e1 e2 h s of
        (Ready r, h', s') \<Rightarrow> (Some r, h', s')
      | (Pending, h', s') \<Rightarrow> http_run from_value es h' s')"

section \<open>Messages are sent once\<close>

text \<open>The message a future still holds; it holds it in one place.\<close>

definition unsent :: "page_future \<Rightarrow> target_message list" where
  "unsent f = (case pf_message f of Some msg \<Rightarrow> [msg] | None \<Rightarrow> (case pf_parked f of Some msg \<Rightarrow> [msg] | None \<Rightarrow> []))"

definition held_once :: "page_future \<Rightarrow> bool" where
  "held_once f = (pf_message f = None \<or> pf_parked f = None)"

text \<open>Every message that entered the channel notified the handler, where there is one to notify.\<close>

definition all_notified :: "page_sender \<Rightarrow> bool" where
  "all_notified s = (ps_notified s = (if ps_wake s then length (ps_sent s) else 0))"

text \<open>What a poll may do to the message: keep it, send it, or lose it with an error.\<close>

definition conserved :: "bool \<Rightarrow> bool \<Rightarrow> page_future \<Rightarrow> page_sender \<Rightarrow> page_future \<Rightarrow> page_sender \<Rightarrow> bool" where
  "conserved pending ok f s f' s' =
     (held_once f' \<and> pf_deadline f' = pf_deadline f \<and> pf_timeout f' = pf_timeout f \<and> (all_notified s \<longrightarrow> all_notified s') \<and>
      (pending \<longrightarrow> ps_sent s' @ unsent f' = ps_sent s @ unsent f) \<and>
      (ok \<longrightarrow> ps_sent s' = ps_sent s @ unsent f \<and> unsent f' = []) \<and>
      prefix (ps_sent s') (ps_sent s @ unsent f) \<and> prefix (ps_sent s) (ps_sent s'))"

lemma poll_parked_conserves:
  assumes "poll_parked e f s = (r, f', s')" "pf_message f = None"
  shows "conserved (r = Pending \<or> r = Ready None) (r = Ready None) f s f' s'"
  using assms
  by (auto simp: poll_parked_def PageSender_send_def PageSender_notify_def conserved_def held_once_def unsent_def all_notified_def
      split: option.splits poll.splits bool.splits if_splits prod.splits)

lemma poll_delivery_conserves:
  assumes "poll_delivery e f s = (r, f', s')" "held_once f"
  shows "conserved (r = Pending) (r = Ready None) f s f' s'"
proof (cases "pf_message f")
  case None
  then show ?thesis using assms(1) poll_parked_conserves [of e f s r f' s'] by (auto simp: poll_delivery_def conserved_def)
next
  case (Some msg)
  define f0 where "f0 = f\<lparr>pf_message := None\<rparr>"
  have parked: "pf_parked f = None" using assms(2) Some by (simp add: held_once_def)
  show ?thesis
  proof (cases "pe_try_send e")
    case SendOk
    then have "(r, f', s') = (Ready None, f0, PageSender_notify (s\<lparr>ps_sent := ps_sent s @ [msg]\<rparr>))"
      using assms(1) Some parked by (simp add: poll_delivery_def PageSender_try_send_def poll_parked_def f0_def)
    then show ?thesis using Some parked
      by (auto simp: conserved_def held_once_def unsent_def all_notified_def f0_def PageSender_notify_def)
  next
    case SendFull
    then have "poll_parked e (f0\<lparr>pf_parked := Some msg\<rparr>) s = (r, f', s')"
      using assms(1) Some by (simp add: poll_delivery_def PageSender_try_send_def f0_def)
    from poll_parked_conserves [OF this] show ?thesis using Some by (auto simp: conserved_def unsent_def f0_def)
  next
    case SendClosed
    then show ?thesis using assms(1) Some parked
      by (auto simp: poll_delivery_def PageSender_try_send_def conserved_def held_once_def unsent_def)
  qed
qed

lemma conserved_delivered: "conserved pending True f s f' s' \<Longrightarrow> conserved pending' ok f s f' s'"
  by (simp add: conserved_def)

lemma CommandFuture_poll_conserves:
  assumes "CommandFuture_poll fv m e f s = (r, f', s')" "held_once f"
  shows "conserved (r = Pending) (\<exists>v. r = Ready (Inr v)) f s f' s'"
proof -
  obtain d f1 s1 where d: "poll_delivery e f s = (d, f1, s1)" by (metis prod_cases3)
  note c = poll_delivery_conserves [OF this assms(2)]
  consider "d = Pending" | err where "d = Ready (Some err)" | "d = Ready None" by (metis option.exhaust poll.exhaust)
  then show ?thesis
  proof cases
    case 3
    then have "f1 = f'" "s1 = s'" using assms(1) d by (simp_all add: CommandFuture_poll_def)
    then show ?thesis using c 3 by (auto intro: conserved_delivered)
  qed (use assms(1) c d in \<open>auto simp: CommandFuture_poll_def\<close>)
qed

lemma TargetMessageFuture_poll_conserves:
  assumes "TargetMessageFuture_poll e f s = (r, f', s')" "held_once f"
  shows "conserved (r = Pending) (\<exists>v. r = Ready (Inr v)) f s f' s'"
proof -
  obtain d f1 s1 where d: "poll_delivery e f s = (d, f1, s1)" by (metis prod_cases3)
  note c = poll_delivery_conserves [OF this assms(2)]
  consider "d = Pending" | err where "d = Ready (Some err)" | "d = Ready None" by (metis option.exhaust poll.exhaust)
  then show ?thesis
  proof cases
    case 3
    then have "f1 = f'" "s1 = s'" using assms(1) d by (simp_all add: TargetMessageFuture_poll_def)
    then show ?thesis using c 3 by (auto intro: conserved_delivered)
  qed (use assms(1) c d in \<open>auto simp: TargetMessageFuture_poll_def\<close>)
qed

section \<open>A navigating command\<close>

text \<open>What the two futures still hold, the command's message first; a navigation that has begun means that
  the command was answered.\<close>

definition http_unsent :: "http_future \<Rightarrow> target_message list" where
  "http_unsent h = (case hf_command h of Some c \<Rightarrow> unsent c | None \<Rightarrow> []) @ unsent (hf_navigation h)"

definition http_held :: "http_future \<Rightarrow> bool" where
  "http_held h = ((case hf_command h of Some c \<Rightarrow> held_once c | None \<Rightarrow> True) \<and> held_once (hf_navigation h))"

definition command_succeeds :: "(json \<Rightarrow> 'r option) \<Rightarrow> method_id \<Rightarrow> (cdp_error + cdp_response) poll_env \<Rightarrow> bool" where
  "command_succeeds fv m e = (\<exists>resp r. pe_answer e = Ready (Some (Inr resp)) \<and> to_command_response fv resp m = Inr r)"

lemma reset_deadline_simps [simp]:
  "unsent (reset_deadline t f) = unsent f" "held_once (reset_deadline t f) = held_once f"
  "pf_deadline (reset_deadline t f) = t + pf_timeout f" "pf_timeout (reset_deadline t f) = pf_timeout f"
  by (simp_all add: reset_deadline_def unsent_def held_once_def split: option.split)

lemma CommandFuture_success:
  "CommandFuture_poll fv m e f s = (Ready (Inr v), f', s') \<Longrightarrow> command_succeeds fv m e"
  by (auto simp: CommandFuture_poll_def command_succeeds_def split: prod.splits poll.splits option.splits sum.splits if_splits)

text \<open>One poll: while the command is out, only its message may be sent; then the navigation's.\<close>

lemma poll_navigation_conserves:
  assumes "poll_navigation e h s = (r, h', s')" "held_once (hf_navigation h)"
  shows "hf_command h' = hf_command h \<and> hf_method h' = hf_method h \<and>
    conserved (r = Pending) (\<exists>v. r = Ready (Inr v)) (hf_navigation h) s (hf_navigation h') s'"
proof -
  obtain f' where "TargetMessageFuture_poll e (hf_navigation h) s = (r, f', s')" "h' = h\<lparr>hf_navigation := f'\<rparr>"
    using assms(1) by (auto simp: poll_navigation_def Let_def split: prod.splits)
  then show ?thesis using TargetMessageFuture_poll_conserves [OF _ assms(2)] by simp
qed

text \<open>The state of a run: what was sent and is held is the command's message and then the navigation's; the
  second was touched only if a poll so far saw the command succeed.\<close>

definition http_progress :: "target_message \<Rightarrow> target_message \<Rightarrow> bool \<Rightarrow> http_future \<Rightarrow> page_sender \<Rightarrow> bool" where
  "http_progress c n succeeded h s =
     (http_held h \<and> all_notified s \<and> ps_sent s @ http_unsent h = [c, n] \<and>
      (hf_command h = None \<longrightarrow> succeeded) \<and> (hf_command h \<noteq> None \<longrightarrow> unsent (hf_navigation h) = [n]))"

lemma http_poll_progress:
  assumes "HttpFuture_poll fv e1 e2 h s = (r, h', s')" "http_progress c n ok h s"
  defines "ok' \<equiv> ok \<or> command_succeeds fv (hf_method h) e1"
  shows "(r = Pending \<longrightarrow> http_progress c n ok' h' s') \<and> hf_method h' = hf_method h \<and> all_notified s' \<and>
    prefix (ps_sent s') [c, n] \<and> ((\<exists>v. r = Ready (Inr v)) \<longrightarrow> ps_sent s' = [c, n]) \<and>
    (\<not> prefix (ps_sent s') [c] \<longrightarrow> ok')"
proof (cases "hf_command h")
  case None
  then have nav: "poll_navigation e2 h s = (r, h', s')" "held_once (hf_navigation h)" "ok" "all_notified s"
    "ps_sent s @ unsent (hf_navigation h) = [c, n]"
    using assms(1,2) by (auto simp: HttpFuture_poll_def http_progress_def http_held_def http_unsent_def)
  from poll_navigation_conserves [OF nav(1,2)] show ?thesis using None nav(3-5) unfolding conserved_def
    by (auto simp: ok'_def http_progress_def http_held_def http_unsent_def)
next
  case (Some f)
  then have held: "held_once f" "held_once (hf_navigation h)" "unsent (hf_navigation h) = [n]" "all_notified s"
    "ps_sent s @ unsent f = [c]"
    using assms(2) by (auto simp: http_progress_def http_held_def http_unsent_def)
  obtain d f1 s1 where d: "CommandFuture_poll fv (hf_method h) e1 f s = (d, f1, s1)" by (metis prod_cases3)
  note con = CommandFuture_poll_conserves [OF d held(1), unfolded conserved_def held(5)]
  have sent: "prefix (ps_sent s1) [c]" "prefix (ps_sent s1) [c, n]" using con held(5) by (auto simp: prefix_Cons)
  consider "d = Pending" | err where "d = Ready (Inl err)" | v where "d = Ready (Inr v)" by (metis poll.exhaust sum.exhaust)
  then show ?thesis
  proof cases
    case 1
    then have "r = Pending" "h' = h\<lparr>hf_command := Some f1\<rparr>" "s' = s1"
      using assms(1) Some d by (simp_all add: HttpFuture_poll_def)
    then show ?thesis using con 1 held sent by (auto simp: http_progress_def http_held_def http_unsent_def)
  next
    case 2
    then have "r = Ready (Inl err)" "h' = h\<lparr>hf_command := None\<rparr>" "s' = s1"
      using assms(1) Some d by (simp_all add: HttpFuture_poll_def)
    then show ?thesis using con held(4) sent by auto
  next
    case 3
    define h1 where "h1 = h\<lparr>hf_command := None, hf_navigation := reset_deadline (pe_now e2) (hf_navigation h)\<rparr>"
    have ok: "ok'" using CommandFuture_success [of fv "hf_method h" e1 f s v f1 s1] d 3 by (simp add: ok'_def)
    have nav: "poll_navigation e2 h1 s1 = (r, h', s')" "held_once (hf_navigation h1)"
      using assms(1) Some d 3 held(2) by (simp_all add: HttpFuture_poll_def h1_def)
    from poll_navigation_conserves [OF nav] con held 3 ok show ?thesis unfolding conserved_def
      by (auto simp: h1_def http_progress_def http_held_def http_unsent_def)
  qed
qed

lemma http_run_progress:
  assumes "http_run fv es h s = (r, h', s')" "http_progress c n ok h s"
  shows "all_notified s' \<and> prefix (ps_sent s') [c, n] \<and> ((\<exists>v. r = Some (Inr v)) \<longrightarrow> ps_sent s' = [c, n]) \<and>
    (\<not> prefix (ps_sent s') [c] \<longrightarrow> ok \<or> list_ex (\<lambda>(e1, _). command_succeeds fv (hf_method h) e1) es)"
  using assms
proof (induction es arbitrary: h s ok)
  case Nil
  have all: "ps_sent s @ http_unsent h = [c, n]" using Nil(2) by (simp add: http_progress_def)
  have "prefix (ps_sent s) [c]" if "hf_command h = Some f" for f
  proof -
    have "ps_sent s @ unsent f @ [n] = [c] @ [n]" using Nil(2) that by (auto simp: http_progress_def http_unsent_def)
    then show ?thesis unfolding append_assoc [symmetric] append_same_eq by (metis prefixI)
  qed
  then show ?case using Nil all by (cases "hf_command h") (auto simp: http_progress_def intro: prefixI dest: sym)
next
  case (Cons e es)
  obtain e1 e2 where e: "e = (e1, e2)" by fastforce
  obtain p h1 s1 where p: "HttpFuture_poll fv e1 e2 h s = (p, h1, s1)" by (metis prod_cases3)
  note step = http_poll_progress [OF p Cons.prems(2)]
  show ?case
  proof (cases p)
    case Pending
    then have "http_run fv es h1 s1 = (r, h', s')" using Cons.prems(1) e p by simp
    with Cons.IH [of h1 s1] step Pending e show ?thesis by auto
  next
    case (Ready v)
    then have "r = Some v" "h' = h1" "s' = s1" using Cons.prems(1) e p by simp_all
    then show ?thesis using step Ready e by auto
  qed
qed

lemma http_future_starts:
  assumes "PageInner_http_future p now m params tx tx' = Inr h"
  obtains msg where "CommandMessage_with_session m params tx (Some (pg_session_id p)) = Some msg" "hf_method h = m"
    "hf_command h = Some (future_new now (MsgCommand msg) (pg_request_timeout p))"
    "hf_navigation h = future_new now (MsgWaitForNavigation tx') (pg_request_timeout p)"
    "http_progress (MsgCommand msg) (MsgWaitForNavigation tx') False h (PageSender_new wake)"
proof -
  obtain msg where msg: "CommandMessage_with_session m params tx (Some (pg_session_id p)) = Some msg"
    "h = HttpFuture_new now m tx' (future_new now (MsgCommand msg) (pg_request_timeout p)) (pg_request_timeout p)"
    using assms by (auto simp: PageInner_http_future_def PageInner_command_future_def CommandFuture_new_def
        split: sum.splits option.splits)
  show ?thesis
    by (rule that [OF msg(1)])
      (simp_all add: msg(2) HttpFuture_new_def wait_for_navigation_def TargetMessageFuture_wait_def TargetMessageFuture_new_def
        http_progress_def http_held_def http_unsent_def held_once_def unsent_def future_new_def all_notified_def PageSender_new_def)
qed

text \<open>C25 (Messages of a navigating command). Poll the future of a navigating command as often as one likes, whatever
  the channel, the clock and the handler answer: its command enters the channel at most once, the
  request to be told of the navigation at most once, after the command, and only if a poll saw the
  command succeed; the handler is notified of each message; and the future returns a result only
  when both were sent.\<close>

theorem navigation_messages_in_order:
  assumes "PageInner_http_future p now m params tx tx' = Inr h"
    and "http_run fv es h (PageSender_new wake) = (r, h', s')"
  shows "\<exists>msg. CommandMessage_with_session m params tx (Some (pg_session_id p)) = Some msg \<and>
    prefix (ps_sent s') [MsgCommand msg, MsgWaitForNavigation tx'] \<and>
    ((\<exists>v. r = Some (Inr v)) \<longrightarrow> ps_sent s' = [MsgCommand msg, MsgWaitForNavigation tx']) \<and>
    (\<not> prefix (ps_sent s') [MsgCommand msg] \<longrightarrow> list_ex (\<lambda>(e1, _). command_succeeds fv m e1) es) \<and>
    ps_notified s' = (if ps_wake s' then length (ps_sent s') else 0)"
proof -
  obtain msg where h: "CommandMessage_with_session m params tx (Some (pg_session_id p)) = Some msg" "hf_method h = m"
    "http_progress (MsgCommand msg) (MsgWaitForNavigation tx') False h (PageSender_new wake)"
    using assms(1) by (rule http_future_starts)
  from http_run_progress [OF assms(2) h(3)] show ?thesis
    by (intro exI [of _ msg] conjI) (simp_all add: h all_notified_def)
qed

text \<open>A page, and polls of a navigation: the first finds the channel full, the second sends the parked
  command, the third brings its answer and sends the second message, the fourth brings the request.\<close>

definition demo_page :: page_inner where
  "demo_page = \<lparr>pg_target_id = ''T'', pg_session_id = ''S'', pg_opener_id = None, pg_request_timeout = 10, pg_channel_capacity = 1\<rparr>"

definition demo_future :: "cdp_error + http_future" where
  "demo_future = PageInner_http_future demo_page 0 ''Page.navigate'' (Some JNull) 1 2"

definition demo_poll :: "instant \<Rightarrow> send_outcome \<Rightarrow> bool poll \<Rightarrow> 'a option poll \<Rightarrow> 'a poll_env" where
  "demo_poll t o1 o2 a = \<lparr>pe_now = t, pe_try_send = o1, pe_parked = o2, pe_answer = a\<rparr>"

definition demo_polls :: "((cdp_error + cdp_response) poll_env \<times> nat poll_env) list" where
  "demo_polls =
     [(demo_poll 1 SendFull Pending Pending, demo_poll 1 SendOk Pending Pending),
      (demo_poll 2 SendOk (Ready True) Pending, demo_poll 2 SendOk Pending Pending),
      (demo_poll 9 SendOk Pending (Ready (Some (Inr \<lparr>rs_id = 7, rs_result = Some JNull, rs_error = None\<rparr>))), demo_poll 9 SendOk Pending Pending),
      (demo_poll 18 SendOk Pending Pending, demo_poll 18 SendOk Pending (Ready (Some 200)))]"

lemma demo_future_made: "\<exists>h. demo_future = Inr h"
  by (simp add: demo_future_def demo_page_def PageInner_http_future_def PageInner_command_future_def CommandFuture_new_def
      CommandMessage_with_session_def)

lemma demo_run:
  "demo_future = Inr h \<Longrightarrow> fst (http_run Some demo_polls h (PageSender_new True)) = Some (Inr 200)"
  by (auto simp: demo_future_def demo_page_def demo_polls_def demo_poll_def PageInner_http_future_def PageInner_command_future_def
      CommandFuture_new_def CommandMessage_with_session_def HttpFuture_new_def future_new_def wait_for_navigation_def
      TargetMessageFuture_wait_def TargetMessageFuture_new_def HttpFuture_poll_def CommandFuture_poll_def poll_delivery_def
      poll_parked_def PageSender_try_send_def PageSender_send_def PageSender_notify_def PageSender_new_def poll_navigation_def
      TargetMessageFuture_poll_def reset_deadline_def to_command_response_def)

lemma navigation_messages_in_order_witness:
  "\<exists>h msg. demo_future = Inr h \<and>
     ps_sent (snd (snd (http_run Some demo_polls h (PageSender_new True)))) = [MsgCommand msg, MsgWaitForNavigation 2]"
proof -
  obtain h where h: "demo_future = Inr h" using demo_future_made by blast
  obtain r h' s' where run: "http_run Some demo_polls h (PageSender_new True) = (r, h', s')" by (metis prod_cases3)
  from navigation_messages_in_order [OF h [unfolded demo_future_def] run] demo_run [OF h] run h
  show ?thesis by auto
qed

section \<open>The futures end\<close>

lemma poll_delivery_by_deadline:
  assumes "poll_delivery e f s = (r, f', s')" "pf_deadline f \<le> pe_now e"
  shows "r \<noteq> Pending \<and> pf_deadline f' = pf_deadline f"
  using assms
  by (auto simp: poll_delivery_def poll_parked_def PageSender_try_send_def PageSender_send_def
      split: option.splits send_outcome.splits poll.splits bool.splits if_splits)

lemma CommandFuture_ends:
  assumes "pf_deadline f \<le> pe_now e"
  shows "fst (CommandFuture_poll fv m e f s) \<noteq> Pending"
proof -
  obtain r f' s' where d: "poll_delivery e f s = (r, f', s')" by (metis prod_cases3)
  from poll_delivery_by_deadline [OF d assms] d assms show ?thesis
    by (auto simp: CommandFuture_poll_def split: poll.splits option.splits)
qed

lemma TargetMessageFuture_ends:
  assumes "pf_deadline f \<le> pe_now e"
  shows "fst (TargetMessageFuture_poll e f s) \<noteq> Pending"
proof -
  obtain r f' s' where d: "poll_delivery e f s = (r, f', s')" by (metis prod_cases3)
  from poll_delivery_by_deadline [OF d assms] d assms show ?thesis
    by (auto simp: TargetMessageFuture_poll_def split: poll.splits option.splits)
qed

text \<open>The deadlines of a run: the command's stays, the navigation's is one timeout after some poll.\<close>

definition due_by :: "instant \<Rightarrow> instant \<Rightarrow> duration \<Rightarrow> http_future \<Rightarrow> bool" where
  "due_by start t d h =
     ((case hf_command h of Some c \<Rightarrow> held_once c \<and> pf_deadline c = start + d | None \<Rightarrow> pf_deadline (hf_navigation h) \<le> t + d) \<and>
      held_once (hf_navigation h) \<and> pf_timeout (hf_navigation h) = d)"

lemma http_poll_due:
  assumes "HttpFuture_poll fv e1 e2 h s = (Pending, h', s')" "due_by start t d h" "pe_now e2 \<le> t"
  shows "due_by start t d h'"
proof (cases "hf_command h")
  case None
  then have "poll_navigation e2 h s = (Pending, h', s')" "held_once (hf_navigation h)"
    using assms(1,2) by (auto simp: HttpFuture_poll_def due_by_def)
  from poll_navigation_conserves [OF this] None assms(2) show ?thesis by (auto simp: due_by_def conserved_def)
next
  case (Some f)
  obtain r f1 s1 where d: "CommandFuture_poll fv (hf_method h) e1 f s = (r, f1, s1)" by (metis prod_cases3)
  have held: "held_once f" "held_once (hf_navigation h)" using assms(2) Some by (auto simp: due_by_def)
  note con = CommandFuture_poll_conserves [OF d held(1), unfolded conserved_def]
  consider "r = Pending" "h' = h\<lparr>hf_command := Some f1\<rparr>"
    | "poll_navigation e2 (h\<lparr>hf_command := None, hf_navigation := reset_deadline (pe_now e2) (hf_navigation h)\<rparr>) s1 = (Pending, h', s')"
    using assms(1) Some d by (cases r) (auto simp: HttpFuture_poll_def split: sum.splits)
  then show ?thesis
  proof cases
    case 1
    then show ?thesis using con assms(2) Some by (simp add: due_by_def)
  next
    case 2
    from poll_navigation_conserves [OF this] held(2) assms(2,3) Some show ?thesis by (auto simp: due_by_def conserved_def)
  qed
qed

lemma http_run_append:
  "http_run fv (es @ es') h s =
     (case http_run fv es h s of (None, h', s') \<Rightarrow> http_run fv es' h' s' | r \<Rightarrow> r)"
  by (induction fv es h s rule: http_run.induct) (auto split: prod.split poll.split)

lemma http_run_due:
  assumes "http_run fv es h s = (None, h', s')" "due_by start t d h" "list_all (\<lambda>(_, e2). pe_now e2 \<le> t) es"
  shows "due_by start t d h'"
  using assms
proof (induction es arbitrary: h s)
  case (Cons e es)
  obtain e1 e2 where e: "e = (e1, e2)" by fastforce
  obtain r h1 s1 where p: "HttpFuture_poll fv e1 e2 h s = (r, h1, s1)" by (metis prod_cases3)
  then show ?case using Cons e by (cases r) (auto dest: http_poll_due)
qed simp

text \<open>Once the command is over, only the navigation is polled.\<close>

lemma http_run_navigating:
  assumes "http_run fv es h s = (None, h', s')" "hf_command h = None" "due_by start t d h"
  shows "hf_command h' = None \<and> due_by start t d h'"
  using assms
proof (induction es arbitrary: h s)
  case (Cons e es)
  obtain e1 e2 where e: "e = (e1, e2)" by fastforce
  obtain r h1 s1 where p: "HttpFuture_poll fv e1 e2 h s = (r, h1, s1)" by (metis prod_cases3)
  have pending: "r = Pending" "http_run fv es h1 s1 = (None, h', s')" using Cons.prems(1) e p by (auto split: poll.splits)
  have "poll_navigation e2 h s = (Pending, h1, s1)" "held_once (hf_navigation h)"
    using p pending(1) Cons.prems by (auto simp: HttpFuture_poll_def due_by_def)
  from poll_navigation_conserves [OF this] Cons.prems(2,3) have "hf_command h1 = None" "due_by start t d h1"
    by (auto simp: due_by_def conserved_def)
  with Cons.IH pending show ?case by blast
qed simp

lemma http_command_over:
  assumes "HttpFuture_poll fv e1 e2 h s = (Pending, h', s')" "due_by start t d h" "start + d \<le> pe_now e1"
  shows "hf_command h' = None"
proof (cases "hf_command h")
  case None
  with assms(1,2) poll_navigation_conserves [of e2 h s Pending h' s'] show ?thesis by (simp add: HttpFuture_poll_def due_by_def)
next
  case (Some f)
  obtain r f1 s1 where c: "CommandFuture_poll fv (hf_method h) e1 f s = (r, f1, s1)" by (metis prod_cases3)
  have "r \<noteq> Pending" using CommandFuture_ends [of f e1 fv "hf_method h" s] assms(2,3) c Some by (simp add: due_by_def)
  then have "poll_navigation e2 (h\<lparr>hf_command := None, hf_navigation := reset_deadline (pe_now e2) (hf_navigation h)\<rparr>) s1 = (Pending, h', s')"
    using assms(1) Some c by (cases r) (auto simp: HttpFuture_poll_def split: sum.splits)
  from poll_navigation_conserves [OF this] show ?thesis using assms(2) by (simp add: due_by_def)
qed

lemma http_navigation_over:
  assumes "due_by start t d h" "hf_command h = None" "t + d \<le> pe_now e2"
  shows "fst (HttpFuture_poll fv e1 e2 h s) \<noteq> Pending"
proof -
  have "pf_deadline (hf_navigation h) \<le> pe_now e2" using assms by (simp add: due_by_def)
  from TargetMessageFuture_ends [OF this, of s] assms(2) show ?thesis
    by (simp add: HttpFuture_poll_def poll_navigation_def split_beta Let_def)
qed

text \<open>C24 (A navigating command ends). The future of a navigating command made at one moment returns once it is polled
  at least one request timeout later, and again at least one request timeout after that: the
  command and the navigation each get one timeout, the second counted from the command's success,
  and neither a full channel nor a silent handler keeps the caller waiting longer.\<close>

theorem navigation_wait_ends:
  assumes "PageInner_http_future p start m params tx tx' = Inr h"
    and "list_all (\<lambda>(_, e2). pe_now e2 \<le> pe_now a2) before"
    and "start + pg_request_timeout p \<le> pe_now a1" "pe_now a2 + pg_request_timeout p \<le> pe_now b2"
  shows "fst (http_run fv (before @ (a1, a2) # between @ [(b1, b2)]) h (PageSender_new wake)) \<noteq> None"
proof
  let ?t = "pe_now a2" and ?d = "pg_request_timeout p"
  assume none: "fst (http_run fv (before @ (a1, a2) # between @ [(b1, b2)]) h (PageSender_new wake)) = None"
  obtain msg where "hf_command h = Some (future_new start (MsgCommand msg) ?d)"
    "hf_navigation h = future_new start (MsgWaitForNavigation tx') ?d"
    using assms(1) by (rule http_future_starts [where wake = wake])
  then have due: "due_by start ?t ?d h" by (simp add: due_by_def future_new_def held_once_def)
  obtain r1 h1 s1 where 1: "http_run fv before h (PageSender_new wake) = (r1, h1, s1)" by (metis prod_cases3)
  have run1: "r1 = None" "fst (http_run fv ((a1, a2) # between @ [(b1, b2)]) h1 s1) = None"
    using none 1 by (cases r1; simp add: http_run_append)+
  have due1: "due_by start ?t ?d h1" using http_run_due [OF _ due assms(2)] 1 run1(1) by blast
  obtain r2 h2 s2 where 2: "HttpFuture_poll fv a1 a2 h1 s1 = (r2, h2, s2)" by (metis prod_cases3)
  have run2: "r2 = Pending" "fst (http_run fv (between @ [(b1, b2)]) h2 s2) = None"
    using run1(2) 2 by (cases r2; simp)+
  have over: "hf_command h2 = None" using 2 run2(1) due1 assms(3) by (auto intro: http_command_over)
  have due2: "due_by start ?t ?d h2" using 2 run2(1) due1 by (auto intro: http_poll_due)
  obtain r3 h3 s3 where 3: "http_run fv between h2 s2 = (r3, h3, s3)" by (metis prod_cases3)
  have run3: "r3 = None" "fst (http_run fv [(b1, b2)] h3 s3) = None"
    using run2(2) 3 by (cases r3; simp add: http_run_append)+
  have "hf_command h3 = None \<and> due_by start ?t ?d h3" using http_run_navigating [OF _ over due2] 3 run3(1) by blast
  with http_navigation_over assms(4) have "fst (HttpFuture_poll fv b1 b2 h3 s3) \<noteq> Pending" by blast
  with run3(2) show False by (auto split: prod.splits poll.splits)
qed

lemma navigation_wait_ends_witness:
  "\<exists>h r. demo_future = Inr h \<and>
     fst (http_run (Some :: json \<Rightarrow> json option) ([] @ (demo_poll 10 SendFull Pending Pending, demo_poll 10 SendOk Pending Pending) # [] @
       [(demo_poll 20 SendFull Pending Pending, demo_poll 20 SendOk Pending (Pending :: nat option poll))]) h (PageSender_new False)) = Some r"
proof -
  obtain h where h: "demo_future = Inr h" using demo_future_made by blast
  have "fst (http_run (Some :: json \<Rightarrow> json option) ([] @ (demo_poll 10 SendFull Pending Pending, demo_poll 10 SendOk Pending Pending) # [] @
       [(demo_poll 20 SendFull Pending Pending, demo_poll 20 SendOk Pending (Pending :: nat option poll))]) h (PageSender_new False)) \<noteq> None"
    by (rule navigation_wait_ends [OF h [unfolded demo_future_def]]) (simp_all add: demo_poll_def demo_page_def)
  then show ?thesis using h by blast
qed

end
