(* ===== verification/Utf16_Len.thy ===== *)
theory Utf16_Len
  imports Prelude
begin

text \<open>
  Counting the UTF-16 code units of a UTF-8 slice (\<open>content_stream.rs\<close>): the word-parallel loop
  of \<open>utf16_len_of_utf8\<close> with the zero-byte trick of \<open>count_zero_bytes_u64\<close>, and the proof that
  it counts as the plain loop over the bytes does. The trick miscounts in general (a lane of one
  above a zero lane is counted too); the lanes the loop feeds it are never one.
\<close>

unbundle bit_operations_syntax

section \<open>The routine\<close>

text \<open>\<open>u64::from_ne_bytes\<close>: the byte order is the machine's. \<open>count_ones\<close> of the standard library.\<close>

definition from_ne_bytes :: "bool \<Rightarrow> u8 list \<Rightarrow> u64" where
  "from_ne_bytes big_endian bs = word_rcat (if big_endian then bs else rev bs)"

definition count_ones :: "u64 \<Rightarrow> u32" where
  "count_ones w = of_nat (length (filter (bit w) [0..<64]))"

definition count_zero_bytes_u64 :: "u64 \<Rightarrow> u32" where
  "count_zero_bytes_u64 v = count_ones ((v - 0x0101010101010101) AND NOT v AND 0x8080808080808080)"

definition cont_mask :: "u64 \<Rightarrow> u64" where
  "cont_mask w = (w AND 0xC0C0C0C0C0C0C0C0) XOR 0x8080808080808080"

definition four_mask :: "u64 \<Rightarrow> u64" where
  "four_mask w = (w AND 0xF0F0F0F0F0F0F0F0) XOR 0xF0F0F0F0F0F0F0F0"

text \<open>The loop over \<open>chunks_exact(8)\<close>; it leaves the remainder of less than eight bytes.\<close>

function (sequential) count_words :: "bool \<Rightarrow> u64 \<Rightarrow> u64 \<Rightarrow> u8 list \<Rightarrow> u64 \<times> u64 \<times> u8 list" where
  "count_words be cont four bs =
     (if length bs < 8 then (cont, four, bs)
      else let w = from_ne_bytes be (take 8 bs) in
        count_words be (cont + ucast (count_zero_bytes_u64 (cont_mask w)))
          (four + ucast (count_zero_bytes_u64 (four_mask w))) (drop 8 bs))"
  by pat_completeness auto
termination by (relation "measure (\<lambda>(_, _, _, bs). length bs)") auto

fun count_tail :: "u64 \<Rightarrow> u64 \<Rightarrow> u8 list \<Rightarrow> u64 \<times> u64" where
  "count_tail cont four [] = (cont, four)"
| "count_tail cont four (b # bs) =
     count_tail (if b AND 0xC0 = 0x80 then cont + 1 else cont) (if b \<ge> 0xF0 then four + 1 else four) bs"

definition saturating_add64 :: "u64 \<Rightarrow> u64 \<Rightarrow> u64" where
  "saturating_add64 a b = (if a + b < a then - 1 else a + b)"

definition utf16_len_of_utf8 :: "bool \<Rightarrow> u8 list \<Rightarrow> u32" where
  "utf16_len_of_utf8 be bs =
     (let (cont, four, rest) = count_words be 0 0 bs;
          (cont, four) = count_tail cont four rest;
          units = saturating_add64 (saturating_sub64 (of_nat (length bs)) cont) four
      in ucast (min units (ucast (- 1 :: u32))))"

declare count_words.simps [simp del]

section \<open>Lanes\<close>

lemma u32_bound: "unat (w :: u32) < 2 ^ 32"
  using unsigned_less [of w] by simp

lemma u64_bound: "unat (w :: u64) < 2 ^ 64"
  using unsigned_less [of w] by simp

text \<open>The word whose lanes, lowest first, are the bytes of a list.\<close>

definition lanes :: "u8 list \<Rightarrow> int" where
  "lanes bs = horner_sum uint (2 ^ 8) bs"

lemma lanes_simps [simp]: "lanes [] = 0" "lanes (b # bs) = uint b + 256 * lanes bs"
  by (simp_all add: lanes_def)

lemma bit_lanes: "bit (lanes bs) n \<longleftrightarrow> n div 8 < length bs \<and> bit (bs ! (n div 8)) (n mod 8)"
  using bit_horner_sum_uint_exp_iff [of bs n] by (simp add: lanes_def)

lemma from_ne_bytes_lanes: "from_ne_bytes be bs = word_of_int (lanes (if be then rev bs else bs))"
  by (simp add: from_ne_bytes_def word_rcat_def lanes_def)

text \<open>Subtracting one, and a borrow, in each lane: bit seven of a lane that was below 128 is set
  exactly in the zero lanes, provided no lane is one.\<close>

lemma bit_lane_step:
  fixes r y :: int
  assumes "0 \<le> r" "r < 256"
  shows "bit (r + 256 * y) (8 * Suc i + 7) \<longleftrightarrow> bit y (8 * i + 7)" "bit (r + 256 * y) 7 \<longleftrightarrow> 128 \<le> r"
proof -
  have "(r + 256 * y) div 2 ^ 8 = y" using assms by simp
  then have "bit (r + 256 * y) (8 + (8 * i + 7)) = bit y (8 * i + 7)"
    by (metis bit_drop_bit_eq comp_apply drop_bit_eq_div)
  then show "bit (r + 256 * y) (8 * Suc i + 7) \<longleftrightarrow> bit y (8 * i + 7)" by simp
  have "(r + 2 * y * 128) div 128 = 2 * y + r div 128" by (rule div_mult_self1) simp
  moreover have "odd (r div 128) \<longleftrightarrow> 128 \<le> r"
  proof (cases "128 \<le> r")
    case True
    then have "r div 128 = 1" using assms by (simp add: div_pos_geq)
    then show ?thesis using True by simp
  qed (use assms in \<open>simp add: div_pos_pos_trivial\<close>)
  ultimately show "bit (r + 256 * y) 7 \<longleftrightarrow> 128 \<le> r" by (simp add: bit_iff_odd)
qed

lemma uint_eq_1: "uint (b :: u8) = 1 \<longleftrightarrow> b = 1"
  by (metis uint_1_eq word_uint_eq_iff)

lemma borrow_flags_zero_lanes:
  assumes "1 \<notin> set bs" "i < length bs" "c = 0 \<or> c = 1"
  shows "bit (lanes bs - lanes (replicate (length bs) 1) - c) (8 * i + 7) \<and> \<not> bit (lanes bs) (8 * i + 7) \<longleftrightarrow>
    bs ! i = 0"
  using assms
proof (induction bs arbitrary: i c)
  case (Cons b bs)
  let ?y = "lanes bs - lanes (replicate (length bs) 1)" and ?r = "uint b - 1 - c"
  have b: "0 \<le> uint b" "uint b < 256" "uint b \<noteq> 1" using Cons.prems uint_lt2p [of b] uint_eq_1 [of b] by auto
  define r' where "r' = (if ?r < 0 then ?r + 256 else ?r)"
  define c' :: int where "c' = (if ?r < 0 then 1 else 0)"
  have diff: "lanes (b # bs) - lanes (replicate (length (b # bs)) 1) - c = r' + 256 * (?y - c')"
    by (simp add: r'_def c'_def)
  have r': "0 \<le> r'" "r' < 256" using b Cons.prems(3) by (auto simp: r'_def)
  have zero: "b = 0 \<longleftrightarrow> uint b = 0" by (simp add: word_uint_eq_iff)
  show ?case
  proof (cases i)
    case 0
    have "128 \<le> r' \<and> \<not> 128 \<le> uint b \<longleftrightarrow> uint b = 0" using b Cons.prems(3) unfolding r'_def by presburger
    then show ?thesis unfolding diff 0
      using bit_lane_step(2) [OF r', of "?y - c'"] bit_lane_step(2) [OF b(1,2), of "lanes bs"] zero by simp
  next
    case (Suc j)
    have "bit (?y - c') (8 * j + 7) \<and> \<not> bit (lanes bs) (8 * j + 7) \<longleftrightarrow> bs ! j = 0"
      using Cons.prems Suc by (intro Cons.IH) (auto simp: c'_def)
    then show ?thesis unfolding diff Suc
      using bit_lane_step(1) [OF r', of "?y - c'" j] bit_lane_step(1) [OF b(1,2), of "lanes bs" j] by simp
  qed
qed simp

section \<open>Counting zero bytes\<close>

lemma unat_count_ones: "unat (count_ones w) = length (filter (bit w) [0..<64])"
proof -
  have "length (filter (bit w) [0..<64]) \<le> 64" using length_filter_le [of "bit w" "[0..<64]"] by simp
  then show ?thesis by (simp add: count_ones_def unat_of_nat take_bit_nat_eq_self)
qed

text \<open>A mask with no bit but bit seven of each lane has as many ones as lanes with that bit.\<close>

lemma length_filter_sum: "length (filter P xs) = (\<Sum>x\<leftarrow>xs. of_bool (P x))"
  by (induction xs) auto

lemma count_high_bits:
  "length (filter (bit (x AND 0x8080808080808080 :: u64)) [0..<64]) = length (filter (\<lambda>i. bit x (8 * i + 7)) [0..<8])"
proof -
  have 64: "[0..<64] = concat (map (\<lambda>i. map (\<lambda>j. 8 * i + j) [0..<8]) [0..<8])" by code_simp
  have 8: "[0..<8] = [0, 1, 2, 3, 4, 5, 6, 7]" by code_simp
  show ?thesis unfolding length_filter_sum 64 8 by (simp add: bit_and_iff)
qed

lemma replicate_8: "replicate 8 m = [m, m, m, m, m, m, m, m]"
  by (simp add: numeral_eq_Suc)

lemma lanes_ones: "(0x0101010101010101 :: u64) = word_of_int (lanes (replicate 8 1))"
  unfolding replicate_8 by simp

lemma bit_word_lanes: "n < 64 \<Longrightarrow> bit (word_of_int x :: u64) n \<longleftrightarrow> bit x n"
  by (simp add: bit_word_of_int_iff)

lemma filter_nth_upt: "length (filter (\<lambda>i. P (xs ! i)) [0..<length xs]) = length (filter P xs)"
proof -
  have "filter P xs = filter P (map ((!) xs) [0..<length xs])" by (simp add: map_nth)
  then show ?thesis by (simp add: filter_map comp_def)
qed

lemma count_zero_bytes_lanes:
  assumes "length bs = 8" "1 \<notin> set bs"
  shows "unat (count_zero_bytes_u64 (word_of_int (lanes bs))) = length (filter (\<lambda>b. b = 0) bs)"
proof -
  let ?v = "word_of_int (lanes bs) :: u64"
  have "bit ((?v - 0x0101010101010101) AND NOT ?v) (8 * i + 7) \<longleftrightarrow> bs ! i = 0" if "i < 8" for i
  proof -
    have "?v - 0x0101010101010101 = word_of_int (lanes bs - lanes (replicate (length bs) 1) - 0)"
      unfolding lanes_ones assms(1) by (simp only: wi_hom_sub diff_zero)
    moreover have "8 * i + 7 < 64" "i < length bs" using that assms(1) by auto
    ultimately show ?thesis using borrow_flags_zero_lanes [OF assms(2), of i 0]
      by (simp only: bit_and_iff bit_not_iff bit_word_lanes) (simp add: bit_word_lanes)
  qed
  then have "filter (\<lambda>i. bit ((?v - 0x0101010101010101) AND NOT ?v) (8 * i + 7)) [0..<8] = filter (\<lambda>i. bs ! i = 0) [0..<length bs]"
    unfolding assms(1) by (intro filter_cong) auto
  then show ?thesis unfolding count_zero_bytes_u64_def unat_count_ones and.assoc [symmetric] count_high_bits
    by (simp only: filter_nth_upt [of "\<lambda>b. b = 0"])
qed

section \<open>The masks, lane by lane\<close>

definition is_continuation :: "u8 \<Rightarrow> bool" where
  "is_continuation b = (b AND 0xC0 = 0x80)"

definition is_four_byte_lead :: "u8 \<Rightarrow> bool" where
  "is_four_byte_lead b = (b \<ge> 0xF0)"

lemma lanes_and:
  assumes "length bs = 8"
  shows "(word_of_int (lanes bs) :: u64) AND word_of_int (lanes (replicate 8 m)) = word_of_int (lanes (map (\<lambda>b. b AND m) bs))"
proof (rule bit_eqI)
  fix n assume "possible_bit TYPE(64 word) n"
  then have "n < 64" "n div 8 < 8" by (auto simp: possible_bit_def)
  then show "bit ((word_of_int (lanes bs) :: u64) AND word_of_int (lanes (replicate 8 m))) n \<longleftrightarrow>
    bit (word_of_int (lanes (map (\<lambda>b. b AND m) bs)) :: u64) n"
    using assms by (simp add: bit_and_iff bit_word_lanes bit_lanes)
qed

lemma lanes_xor:
  assumes "length bs = 8"
  shows "(word_of_int (lanes bs) :: u64) XOR word_of_int (lanes (replicate 8 m)) = word_of_int (lanes (map (\<lambda>b. b XOR m) bs))"
proof (rule bit_eqI)
  fix n assume "possible_bit TYPE(64 word) n"
  then have "n < 64" "n div 8 < 8" by (auto simp: possible_bit_def)
  then show "bit ((word_of_int (lanes bs) :: u64) XOR word_of_int (lanes (replicate 8 m))) n \<longleftrightarrow>
    bit (word_of_int (lanes (map (\<lambda>b. b XOR m) bs)) :: u64) n"
    using assms by (simp add: bit_xor_iff bit_word_lanes bit_lanes)
qed

lemma lanes_constants:
  "(0x8080808080808080 :: u64) = word_of_int (lanes (replicate 8 0x80))"
  "(0xC0C0C0C0C0C0C0C0 :: u64) = word_of_int (lanes (replicate 8 0xC0))"
  "(0xF0F0F0F0F0F0F0F0 :: u64) = word_of_int (lanes (replicate 8 0xF0))"
  unfolding replicate_8 by simp_all

lemma cont_mask_lanes:
  "length bs = 8 \<Longrightarrow> cont_mask (word_of_int (lanes bs)) = word_of_int (lanes (map (\<lambda>b. (b AND 0xC0) XOR 0x80) bs))"
  unfolding cont_mask_def lanes_constants by (simp add: lanes_and lanes_xor comp_def)

lemma four_mask_lanes:
  "length bs = 8 \<Longrightarrow> four_mask (word_of_int (lanes bs)) = word_of_int (lanes (map (\<lambda>b. (b AND 0xF0) XOR 0xF0) bs))"
  unfolding four_mask_def lanes_constants by (simp add: lanes_and lanes_xor comp_def)

text \<open>Both masks keep the high bits of a byte, so they decide its range.\<close>

lemma unat_high_bits: "unat ((b :: u8) AND NOT (mask k)) = unat b div 2 ^ k * 2 ^ k"
proof -
  have byte: "unat b < 2 ^ 8" using unsigned_less [of b] by simp
  have "b AND NOT (mask k) = push_bit k (drop_bit k b)"
    by (rule bit_eqI) (auto simp: bit_simps)
  then have "unat (b AND NOT (mask k)) = take_bit 8 (take_bit 8 (unat b) div 2 ^ k * 2 ^ k)"
    by (simp only: unsigned_push_bit_eq unsigned_drop_bit_eq) (simp add: drop_bit_eq_div push_bit_eq_mult)
  moreover have "unat b div 2 ^ k * 2 ^ k < 2 ^ 8" using div_times_less_eq_dividend [of "unat b" "2 ^ k"] byte by (rule le_less_trans)
  ultimately show ?thesis using byte by (simp only: take_bit_nat_eq_self)
qed

lemma multiples:
  fixes q r n :: nat
  shows "n = q * 64 + r \<Longrightarrow> r < 64 \<Longrightarrow> q * 64 = 128 \<longleftrightarrow> 128 \<le> n \<and> n < 192"
    "n = q * 16 + r \<Longrightarrow> r < 16 \<Longrightarrow> n < 256 \<Longrightarrow> q * 16 = 240 \<longleftrightarrow> 240 \<le> n"
  by presburger+

lemma multiple_of_64: "(n :: nat) div 64 * 64 = 128 \<longleftrightarrow> 128 \<le> n \<and> n < 192"
  by (rule multiples(1) [of n "n div 64" "n mod 64"]) simp_all

lemma multiple_of_16: "(n :: nat) < 256 \<Longrightarrow> n div 16 * 16 = 240 \<longleftrightarrow> 240 \<le> n"
  by (rule multiples(2) [of n "n div 16" "n mod 16"]) simp_all

lemma is_continuation_iff: "is_continuation b \<longleftrightarrow> 0x80 \<le> unat b \<and> unat b < 0xC0"
proof -
  have "(0xC0 :: u8) = NOT (mask 6)" by (simp add: mask_eq_exp_minus_1)
  then have "unat (b AND 0xC0) = unat b div 64 * 64" using unat_high_bits [of b 6] by simp
  moreover have "is_continuation b \<longleftrightarrow> unat (b AND 0xC0) = 0x80" by (simp add: is_continuation_def word_unat_eq_iff)
  ultimately show ?thesis using multiple_of_64 [of "unat b"] by simp
qed

lemma is_four_byte_lead_iff: "is_four_byte_lead b \<longleftrightarrow> 0xF0 \<le> unat b"
  by (simp add: is_four_byte_lead_def word_le_nat_alt)

lemma xor_eq_0: "(x :: u8) XOR y = 0 \<longleftrightarrow> x = y"
  by (auto simp: bit_eq_iff bit_xor_iff)

lemma high_bits_lead: "(b :: u8) AND 0xF0 = 0xF0 \<longleftrightarrow> 0xF0 \<le> b"
proof -
  have "(0xF0 :: u8) = NOT (mask 4)" by (simp add: mask_eq_exp_minus_1)
  then have "unat (b AND 0xF0) = unat b div 16 * 16" using unat_high_bits [of b 4] by simp
  moreover have "b AND 0xF0 = 0xF0 \<longleftrightarrow> unat (b AND 0xF0) = 0xF0" by (simp add: word_unat_eq_iff)
  moreover have "unat b < 256" using unsigned_less [of b] by simp
  moreover have "0xF0 \<le> b \<longleftrightarrow> 0xF0 \<le> unat b" by (simp add: word_le_nat_alt)
  ultimately show ?thesis using multiple_of_16 [of "unat b"] by simp
qed

lemma masked_lane:
  "((b :: u8) AND 0xC0) XOR 0x80 \<noteq> 1" "(b AND 0xF0) XOR 0xF0 \<noteq> 1"
  "(b AND 0xC0) XOR 0x80 = 0 \<longleftrightarrow> is_continuation b" "(b AND 0xF0) XOR 0xF0 = 0 \<longleftrightarrow> is_four_byte_lead b"
proof -
  have "bit (((b :: u8) AND 0xC0) XOR 0x80) 0 \<noteq> bit (1 :: u8) 0" "bit ((b AND 0xF0) XOR 0xF0) 0 \<noteq> bit (1 :: u8) 0"
    by (simp_all add: bit_xor_iff bit_and_iff)
  then show "(b AND 0xC0) XOR 0x80 \<noteq> 1" "(b AND 0xF0) XOR 0xF0 \<noteq> 1" by metis+
qed (simp_all add: xor_eq_0 is_continuation_def is_four_byte_lead_def high_bits_lead)

lemma filter_masked:
  "filter (\<lambda>b. b = 0) (map (\<lambda>b. (b AND 0xC0) XOR 0x80) bs) = map (\<lambda>b. (b AND 0xC0) XOR 0x80) (filter is_continuation bs)"
  "filter (\<lambda>b. b = 0) (map (\<lambda>b. (b AND 0xF0) XOR 0xF0) bs) = map (\<lambda>b. (b AND 0xF0) XOR 0xF0) (filter is_four_byte_lead bs)"
  using masked_lane by (simp_all add: filter_map comp_def)

section \<open>The count\<close>

lemma count_zero_bytes_masks:
  assumes "length bs = 8"
  shows "unat (count_zero_bytes_u64 (cont_mask (from_ne_bytes be bs))) = length (filter is_continuation bs)"
    "unat (count_zero_bytes_u64 (four_mask (from_ne_bytes be bs))) = length (filter is_four_byte_lead bs)"
proof -
  define cs where "cs = (if be then rev bs else bs)"
  have cs: "length cs = 8" "from_ne_bytes be bs = word_of_int (lanes cs)"
    using assms by (simp_all add: cs_def from_ne_bytes_lanes)
  have same: "length (filter P cs) = length (filter P bs)" for P by (simp add: cs_def rev_filter [symmetric])
  have one: "1 \<notin> set (map (\<lambda>b. (b AND 0xC0) XOR 0x80) cs)" "1 \<notin> set (map (\<lambda>b. (b AND 0xF0) XOR 0xF0) cs)"
    using masked_lane by (auto dest: sym)
  show "unat (count_zero_bytes_u64 (cont_mask (from_ne_bytes be bs))) = length (filter is_continuation bs)"
    using count_zero_bytes_lanes [OF _ one(1)] cs by (simp add: cont_mask_lanes filter_masked same)
  show "unat (count_zero_bytes_u64 (four_mask (from_ne_bytes be bs))) = length (filter is_four_byte_lead bs)"
    using count_zero_bytes_lanes [OF _ one(2)] cs by (simp add: four_mask_lanes filter_masked same)
qed

lemma ucast_count:
  assumes "unat (x :: u32) = n"
  shows "(ucast x :: u64) = of_nat n"
  using assms by (metis of_nat_unat)

lemma count_tail_counts:
  "count_tail cont four bs =
     (cont + of_nat (length (filter is_continuation bs)), four + of_nat (length (filter is_four_byte_lead bs)))"
  by (induction bs arbitrary: cont four) (simp_all add: is_continuation_def is_four_byte_lead_def)

lemma count_words_counts:
  "(case count_words be cont four bs of (cont', four', rest) \<Rightarrow> count_tail cont' four' rest) =
     (cont + of_nat (length (filter is_continuation bs)), four + of_nat (length (filter is_four_byte_lead bs)))"
proof (induction be cont four bs rule: count_words.induct)
  case (1 be cont four bs)
  show ?case
  proof (cases "length bs < 8")
    case True
    then show ?thesis by (subst count_words.simps) (simp add: count_tail_counts)
  next
    case False
    let ?w = "from_ne_bytes be (take 8 bs)"
    have "length (take 8 bs) = 8" using False by simp
    note w = count_zero_bytes_masks [OF this, of be, THEN ucast_count]
    have "length (filter P bs) = length (filter P (take 8 bs)) + length (filter P (drop 8 bs))" for P
      by (metis append_take_drop_id filter_append length_append)
    then show ?thesis using 1 [OF False refl] False by (subst count_words.simps) (simp add: Let_def w add.assoc)
  qed
qed

lemma unat_saturating_add64: "unat (saturating_add64 a b) = min (unat a + unat b) (2 ^ 64 - 1)"
proof (cases "unat a + unat b < 2 ^ 64")
  case True
  then have "unat (a + b) = unat a + unat b" by (simp add: unat_word_ariths)
  then show ?thesis using True by (simp add: saturating_add64_def word_less_nat_alt)
next
  case False
  have "unat a < 2 ^ 64" "unat b < 2 ^ 64" using unsigned_less [of a] unsigned_less [of b] by simp_all
  then have "(unat a + unat b) mod 2 ^ 64 = unat a + unat b - 2 ^ 64" using False by (simp add: mod_if)
  then have "unat (a + b) = unat a + unat b - 2 ^ 64" by (simp add: unat_word_ariths)
  moreover have "unat (- 1 :: u64) = 2 ^ 64 - 1" by (simp add: unsigned_minus_1_eq_mask mask_eq_exp_minus_1)
  ultimately show ?thesis using False \<open>unat b < 2 ^ 64\<close> by (simp add: saturating_add64_def word_less_nat_alt)
qed

text \<open>The reference: a continuation byte is no code unit, a four byte lead is two, any other byte is one.\<close>

fun code_units :: "u8 list \<Rightarrow> nat" where
  "code_units [] = 0"
| "code_units (b # bs) = (if is_continuation b then 0 else if is_four_byte_lead b then 2 else 1) + code_units bs"

lemma code_units_append [simp]: "code_units (as @ bs) = code_units as + code_units bs"
  by (induction as) auto

lemma continuation_is_no_lead: "\<not> (is_continuation b \<and> is_four_byte_lead b)"
  by (simp add: is_continuation_iff is_four_byte_lead_iff)

lemma code_units_counts:
  "code_units bs + length (filter is_continuation bs) = length bs + length (filter is_four_byte_lead bs)"
proof (induction bs)
  case (Cons b bs)
  then show ?case using continuation_is_no_lead [of b] by auto
qed simp

lemma utf16_len_counts:
  assumes "length bs < 2 ^ 63"
  shows "unat (utf16_len_of_utf8 be bs) = min (code_units bs) (2 ^ 32 - 1)"
proof -
  let ?c = "length (filter is_continuation bs)" and ?f = "length (filter is_four_byte_lead bs)"
  have len: "?c \<le> length bs" "?f \<le> length bs" by simp_all
  moreover have 64: "length bs < 2 ^ 64" using assms by simp
  ultimately have "?c < 2 ^ 64" "?f < 2 ^ 64" by (meson le_less_trans)+
  with 64 have w: "unat (of_nat (length bs) :: u64) = length bs" "unat (of_nat ?c :: u64) = ?c" "unat (of_nat ?f :: u64) = ?f"
    by (simp_all add: unat_of_nat take_bit_nat_eq_self)
  define units :: u64 where "units = saturating_add64 (saturating_sub64 (of_nat (length bs)) (of_nat ?c)) (of_nat ?f)"
  have "length bs < 9223372036854775808" using assms by simp
  then have "length bs - ?c + ?f \<le> 18446744073709551615" using len by linarith
  then have "unat units = length bs - ?c + ?f"
    unfolding units_def by (simp only: unat_saturating_add64 unat_saturating_sub64 w) simp
  then have units: "unat units = code_units bs" using code_units_counts [of bs] len by simp
  have top: "unat (ucast (- 1 :: u32) :: u64) = 2 ^ 32 - 1" by (simp add: unat_max_u32 unsigned_ucast_eq)
  have "utf16_len_of_utf8 be bs = ucast (min units (ucast (- 1 :: u32)))"
    using count_words_counts [of be 0 0 bs] unfolding utf16_len_of_utf8_def units_def
    by (auto simp: Let_def split: prod.splits)
  moreover have "unat (min units (ucast (- 1 :: u32))) = min (code_units bs) (2 ^ 32 - 1)"
    using units top by (auto simp: min_def word_le_nat_alt)
  ultimately show ?thesis by (simp add: unsigned_ucast_eq take_bit_nat_eq_self)
qed

end
