(* ===== verification/Utf.thy ===== *)
theory Utf
  imports Utf16_Len
begin

text \<open>
  The two encodings of text the content stream moves between: a Rust \<open>String\<close> is the UTF-8 of a
  list of Unicode scalar values, a JavaScript string a list of UTF-16 code units. The decoder is
  \<open>String::from_utf8\<close> of the standard library, strict about overlong forms, surrogates and range.
\<close>

section \<open>Encoding\<close>

type_synonym scalar = nat

definition is_scalar :: "scalar \<Rightarrow> bool" where
  "is_scalar c = (c < 0x110000 \<and> \<not> (0xD800 \<le> c \<and> c \<le> 0xDFFF))"

definition utf8_char :: "scalar \<Rightarrow> u8 list" where
  "utf8_char c = map of_nat
     (if c < 0x80 then [c]
      else if c < 0x800 then [0xC0 + c div 64, 0x80 + c mod 64]
      else if c < 0x10000 then [0xE0 + c div 4096, 0x80 + c div 64 mod 64, 0x80 + c mod 64]
      else [0xF0 + c div 262144, 0x80 + c div 4096 mod 64, 0x80 + c div 64 mod 64, 0x80 + c mod 64])"

definition utf8 :: "scalar list \<Rightarrow> u8 list" where
  "utf8 cs = concat (map utf8_char cs)"

definition is_high_surrogate :: "nat \<Rightarrow> bool" where
  "is_high_surrogate u = (0xD800 \<le> u \<and> u \<le> 0xDBFF)"

definition is_low_surrogate :: "nat \<Rightarrow> bool" where
  "is_low_surrogate u = (0xDC00 \<le> u \<and> u \<le> 0xDFFF)"

definition utf16_char :: "scalar \<Rightarrow> nat list" where
  "utf16_char c = (if c < 0x10000 then [c] else [0xD800 + (c - 0x10000) div 1024, 0xDC00 + (c - 0x10000) mod 1024])"

definition utf16 :: "scalar list \<Rightarrow> nat list" where
  "utf16 cs = concat (map utf16_char cs)"

lemma utf8_simps [simp]: "utf8 [] = []" "utf8 (c # cs) = utf8_char c @ utf8 cs" "utf8 (as @ bs) = utf8 as @ utf8 bs"
  by (simp_all add: utf8_def)

lemma utf16_simps [simp]: "utf16 [] = []" "utf16 (c # cs) = utf16_char c @ utf16 cs" "utf16 (as @ bs) = utf16 as @ utf16 bs"
  by (simp_all add: utf16_def)

lemma utf16_char_not_Nil [simp]: "utf16_char c \<noteq> []"
  by (simp add: utf16_char_def)

lemma utf8_char_not_Nil [simp]: "utf8_char c \<noteq> []"
  by (simp add: utf8_char_def)

lemma utf16_Nil_iff [simp]: "utf16 cs = [] \<longleftrightarrow> cs = []"
  by (cases cs) auto

lemma utf8_Nil_iff [simp]: "utf8 cs = [] \<longleftrightarrow> cs = []"
  by (cases cs) auto

section \<open>Decoding\<close>

definition tail_bits :: "u8 \<Rightarrow> nat option" where
  "tail_bits b = (if 0x80 \<le> unat b \<and> unat b < 0xC0 then Some (unat b - 0x80) else None)"

text \<open>The scalar at the front of a byte sequence, and the rest.\<close>

definition decode_char :: "u8 list \<Rightarrow> (scalar \<times> u8 list) option" where
  "decode_char bs =
     (case bs of
        [] \<Rightarrow> None
      | b # r \<Rightarrow> let n = unat b in
          if n < 0x80 then Some (n, r)
          else if 0xC2 \<le> n \<and> n < 0xE0 then
            (case r of
               b1 # r1 \<Rightarrow> (case tail_bits b1 of
                   Some t1 \<Rightarrow> Some ((n - 0xC0) * 64 + t1, r1)
                 | None \<Rightarrow> None)
             | _ \<Rightarrow> None)
          else if 0xE0 \<le> n \<and> n < 0xF0 then
            (case r of
               b1 # b2 # r2 \<Rightarrow> (case (tail_bits b1, tail_bits b2) of
                   (Some t1, Some t2) \<Rightarrow> let c = (n - 0xE0) * 4096 + t1 * 64 + t2 in
                     if 0x800 \<le> c \<and> is_scalar c then Some (c, r2) else None
                 | _ \<Rightarrow> None)
             | _ \<Rightarrow> None)
          else if 0xF0 \<le> n \<and> n < 0xF5 then
            (case r of
               b1 # b2 # b3 # r3 \<Rightarrow> (case (tail_bits b1, tail_bits b2, tail_bits b3) of
                   (Some t1, Some t2, Some t3) \<Rightarrow> let c = (n - 0xF0) * 262144 + t1 * 4096 + t2 * 64 + t3 in
                     if 0x10000 \<le> c \<and> is_scalar c then Some (c, r3) else None
                 | _ \<Rightarrow> None)
             | _ \<Rightarrow> None)
          else None)"

lemma decode_char_shorter: "decode_char bs = Some (c, r) \<Longrightarrow> length r < length bs"
  by (auto simp: decode_char_def Let_def split: list.splits option.splits if_splits)

function (sequential) from_utf8 :: "u8 list \<Rightarrow> scalar list option" where
  "from_utf8 [] = Some []"
| "from_utf8 bs =
     (case decode_char bs of
        None \<Rightarrow> None
      | Some (c, r) \<Rightarrow> map_option ((#) c) (from_utf8 r))"
  by pat_completeness auto
termination by (relation "measure length") (auto dest: decode_char_shorter)

text \<open>Decoding well-formed UTF-16; a lone surrogate becomes the replacement character.\<close>

fun utf16_decode :: "nat list \<Rightarrow> scalar list" where
  "utf16_decode (h # l # us) =
     (if is_high_surrogate h \<and> is_low_surrogate l
      then (0x10000 + (h - 0xD800) * 1024 + (l - 0xDC00)) # utf16_decode us
      else (if is_high_surrogate h \<or> is_low_surrogate h then 0xFFFD else h) # utf16_decode (l # us))"
| "utf16_decode [h] = [if is_high_surrogate h \<or> is_low_surrogate h then 0xFFFD else h]"
| "utf16_decode [] = []"

section \<open>Round trips\<close>

lemma unat_byte [simp]: "n < 256 \<Longrightarrow> unat (of_nat n :: u8) = n"
  by (simp add: unat_of_nat take_bit_nat_eq_self)

lemma tail_bits_byte [simp]: "n < 64 \<Longrightarrow> tail_bits (of_nat (0x80 + n)) = Some n"
  unfolding tail_bits_def by (subst unat_byte, simp)+ simp

lemma decode_1: "unat b < 0x80 \<Longrightarrow> decode_char (b # r) = Some (unat b, r)"
  by (simp add: decode_char_def)

lemma decode_2:
  assumes "unat b = 0xC0 + n" "2 \<le> n" "n < 32" "tail_bits b1 = Some t1"
  shows "decode_char (b # b1 # r) = Some (n * 64 + t1, r)"
  using assms by (simp add: decode_char_def)

lemma decode_3:
  assumes "unat b = 0xE0 + n" "n < 16" "tail_bits b1 = Some t1" "tail_bits b2 = Some t2"
    "n * 4096 + t1 * 64 + t2 = c" "0x800 \<le> c" "is_scalar c"
  shows "decode_char (b # b1 # b2 # r) = Some (c, r)"
  using assms by (simp add: decode_char_def)

lemma decode_4:
  assumes "unat b = 0xF0 + n" "n < 5" "tail_bits b1 = Some t1" "tail_bits b2 = Some t2" "tail_bits b3 = Some t3"
    "n * 262144 + t1 * 4096 + t2 * 64 + t3 = c" "0x10000 \<le> c" "is_scalar c"
  shows "decode_char (b # b1 # b2 # b3 # r) = Some (c, r)"
  using assms by (simp add: decode_char_def)

lemma split_64: "(n :: nat) div 64 * 64 + n mod 64 = n"
  by (rule div_mult_mod_eq)

lemma decode_utf8_char:
  assumes "is_scalar c"
  shows "decode_char (utf8_char c @ r) = Some (c, r)"
proof -
  have c: "c < 0x110000" using assms by (simp add: is_scalar_def)
  have div: "c div 64 div 64 = c div 4096" "c div 4096 div 64 = c div 262144" by (simp_all add: div_mult2_eq [symmetric])
  note parts = split_64 [of c] split_64 [of "c div 64", unfolded div] split_64 [of "c div 4096", unfolded div]
  consider "c < 0x80" | "0x80 \<le> c" "c < 0x800" | "0x800 \<le> c" "c < 0x10000" | "0x10000 \<le> c" by linarith
  then show ?thesis
  proof cases
    case 1
    then show ?thesis using decode_1 [of "of_nat c"] by (simp add: utf8_char_def)
  next
    case 2
    then have n: "2 \<le> c div 64" "c div 64 < 32" by auto
    then have "unat (of_nat (0xC0 + c div 64) :: u8) = 0xC0 + c div 64" by (intro unat_byte) simp
    from decode_2 [OF this n tail_bits_byte [of "c mod 64"]] show ?thesis using 2 parts
      by (simp add: utf8_char_def del: of_nat_add)
  next
    case 3
    then have n: "c div 4096 < 16" by auto
    then have "unat (of_nat (0xE0 + c div 4096) :: u8) = 0xE0 + c div 4096" by (intro unat_byte) simp
    from decode_3 [OF this n tail_bits_byte [of "c div 64 mod 64"] tail_bits_byte [of "c mod 64"] _ 3(1) assms]
    show ?thesis using 3 parts by (simp add: utf8_char_def del: of_nat_add)
  next
    case 4
    have n: "c div 262144 < 5" using c by auto
    then have "unat (of_nat (0xF0 + c div 262144) :: u8) = 0xF0 + c div 262144" by (intro unat_byte) simp
    from decode_4 [OF this n tail_bits_byte [of "c div 4096 mod 64"] tail_bits_byte [of "c div 64 mod 64"]
        tail_bits_byte [of "c mod 64"] _ 4 assms]
    show ?thesis using 4 parts by (simp add: utf8_char_def del: of_nat_add)
  qed
qed

lemma from_utf8_step: "decode_char bs = Some (c, r) \<Longrightarrow> from_utf8 bs = map_option ((#) c) (from_utf8 r)"
  by (cases bs) (simp_all add: decode_char_def)

lemma from_utf8_utf8: "list_all is_scalar cs \<Longrightarrow> from_utf8 (utf8 cs) = Some cs"
  by (induction cs) (simp_all add: from_utf8_step [OF decode_utf8_char])

section \<open>Code units of an encoded text\<close>

lemma code_units_tail: "n < 64 \<Longrightarrow> code_units (of_nat (0x80 + n) # bs) = code_units bs"
  unfolding code_units.simps is_continuation_iff by (subst unat_byte, simp)+ simp

lemma code_units_lead:
  assumes "unat b < 0x80 \<or> 0xC0 \<le> unat b"
  shows "code_units (b # bs) = (if 0xF0 \<le> unat b then 2 else 1) + code_units bs"
  using assms by (auto simp: is_continuation_iff is_four_byte_lead_iff)

lemma code_units_utf8_char:
  assumes "is_scalar c"
  shows "code_units (utf8_char c) = length (utf16_char c)"
proof -
  have c: "c < 0x110000" using assms by (simp add: is_scalar_def)
  note [simp del] = code_units.simps(2) of_nat_add
  note [simp] = code_units_tail
  consider "c < 0x80" | "0x80 \<le> c" "c < 0x800" | "0x800 \<le> c" "c < 0x10000" | "0x10000 \<le> c" by linarith
  then show ?thesis
  proof cases
    case 1
    then show ?thesis using code_units_lead [of "of_nat c" "[]"] by (simp add: utf8_char_def utf16_char_def)
  next
    case 2
    then have "unat (of_nat (0xC0 + c div 64) :: u8) = 0xC0 + c div 64" "c div 64 < 32" by (auto intro!: unat_byte)
    with 2 code_units_lead [of "of_nat (0xC0 + c div 64)"] show ?thesis by (simp add: utf8_char_def utf16_char_def)
  next
    case 3
    then have "unat (of_nat (0xE0 + c div 4096) :: u8) = 0xE0 + c div 4096" "c div 4096 < 16" by (auto intro!: unat_byte)
    with 3 code_units_lead [of "of_nat (0xE0 + c div 4096)"] show ?thesis by (simp add: utf8_char_def utf16_char_def)
  next
    case 4
    then have "unat (of_nat (0xF0 + c div 262144) :: u8) = 0xF0 + c div 262144" using c by (auto intro!: unat_byte)
    with 4 code_units_lead [of "of_nat (0xF0 + c div 262144)"] show ?thesis by (simp add: utf8_char_def utf16_char_def)
  qed
qed

lemma code_units_utf8: "list_all is_scalar cs \<Longrightarrow> code_units (utf8 cs) = length (utf16 cs)"
  by (induction cs) (simp_all add: code_units_utf8_char)

section \<open>Cutting UTF-16 text\<close>

lemma utf16_char_astral:
  assumes "is_scalar c" "0x10000 \<le> c"
  obtains h l where "utf16_char c = [h, l]" "is_high_surrogate h" "is_low_surrogate l"
    "0x10000 + (h - 0xD800) * 1024 + (l - 0xDC00) = c"
proof
  let ?d = "c - 0x10000"
  have "?d div 1024 < 1024" "?d mod 1024 < 1024" using assms by (auto simp: is_scalar_def)
  then show "is_high_surrogate (0xD800 + ?d div 1024)" "is_low_surrogate (0xDC00 + ?d mod 1024)"
    by (simp_all add: is_high_surrogate_def is_low_surrogate_def)
  show "utf16_char c = [0xD800 + ?d div 1024, 0xDC00 + ?d mod 1024]" using assms by (simp add: utf16_char_def)
  have "?d div 1024 * 1024 + ?d mod 1024 = ?d" by (rule div_mult_mod_eq)
  then show "0x10000 + (0xD800 + ?d div 1024 - 0xD800) * 1024 + (0xDC00 + ?d mod 1024 - 0xDC00) = c"
    using assms by simp
qed

lemma utf16_char_bmp: "c < 0x10000 \<Longrightarrow> utf16_char c = [c]"
  by (simp add: utf16_char_def)

lemma bmp_no_surrogate:
  assumes "is_scalar c" "c < 0x10000"
  shows "\<not> is_high_surrogate c" "\<not> is_low_surrogate c"
  using assms by (auto simp: is_scalar_def is_high_surrogate_def is_low_surrogate_def)

lemma surrogates_differ: "is_low_surrogate u \<Longrightarrow> \<not> is_high_surrogate u"
  by (auto simp: is_high_surrogate_def is_low_surrogate_def)

lemma utf16_decode_utf16: "list_all is_scalar cs \<Longrightarrow> utf16_decode (utf16 cs) = cs"
proof (induction cs)
  case (Cons c cs)
  show ?case
  proof (cases "c < 0x10000")
    case True
    with Cons show ?thesis using bmp_no_surrogate [of c]
      by (cases "utf16 cs") (auto simp: utf16_char_bmp)
  next
    case False
    from Cons have "is_scalar c" by simp
    with False obtain h l where "utf16_char c = [h, l]" "is_high_surrogate h" "is_low_surrogate l"
      "0x10000 + (h - 0xD800) * 1024 + (l - 0xDC00) = c" by (auto elim: utf16_char_astral)
    with Cons show ?thesis by simp
  qed
qed simp

lemma last_utf16_not_high:
  assumes "list_all is_scalar cs" "cs \<noteq> []"
  shows "\<not> is_high_surrogate (last (utf16 cs))"
proof -
  have c: "is_scalar (last cs)" using assms by (simp add: list_all_iff)
  have "last (utf16 cs) = last (utf16_char (last cs))"
    using assms(2) by (induction cs) auto
  then show ?thesis using c bmp_no_surrogate [of "last cs"]
    by (cases "last cs < 0x10000") (auto simp: utf16_char_bmp elim!: utf16_char_astral dest: surrogates_differ)
qed

text \<open>The first units of a text are whole characters, or whole characters and a high surrogate.\<close>

lemma take_utf16:
  assumes "list_all is_scalar cs" "n < length (utf16 cs)"
  obtains as bs where "cs = as @ bs" "bs \<noteq> []" "length (utf16 as) = n" "take n (utf16 cs) = utf16 as"
  | as bs u where "cs = as @ bs" "bs \<noteq> []" "n = Suc (length (utf16 as))" "take n (utf16 cs) = utf16 as @ [u]"
      "is_high_surrogate u"
  using assms
proof (induction cs arbitrary: n thesis)
  case (Cons c cs)
  have c: "is_scalar c" "list_all is_scalar cs" using Cons.prems by simp_all
  have "n = 0 \<or> n = 1 \<and> 0x10000 \<le> c \<or> length (utf16_char c) \<le> n" by (auto simp: utf16_char_def)
  then consider "n = 0" | "n = 1" "0x10000 \<le> c" | "length (utf16_char c) \<le> n" by blast
  then show ?case
  proof cases
    case 1
    then show ?thesis using Cons.prems(1) [of "[]" "c # cs"] by simp
  next
    case 2
    then obtain h l where "utf16_char c = [h, l]" "is_high_surrogate h" using c by (auto elim: utf16_char_astral)
    then show ?thesis using Cons.prems(2) [of "[]" "c # cs" h] 2 by simp
  next
    case 3
    let ?m = "n - length (utf16_char c)"
    have m: "?m < length (utf16 cs)" using 3 Cons.prems by simp
    show ?thesis
    proof (rule Cons.IH [of ?m])
      fix as bs assume "cs = as @ bs" "bs \<noteq> []" "length (utf16 as) = ?m" "take ?m (utf16 cs) = utf16 as"
      then show thesis using 3 by (intro Cons.prems(1) [of "c # as" bs]) simp_all
    next
      fix as bs u assume "cs = as @ bs" "bs \<noteq> []" "?m = Suc (length (utf16 as))" "take ?m (utf16 cs) = utf16 as @ [u]"
        "is_high_surrogate u"
      then show thesis using 3 by (intro Cons.prems(2) [of "c # as" bs u]) simp_all
    qed (use c m in auto)
  qed
qed simp

end
