(* ===== verification/Content_Stream.thy ===== *)
theory Content_Stream
  imports Utf Cmd Text
begin

text \<open>
  Reading the HTML of a page in slices (\<open>content_stream.rs\<close>, without the disk sink): the page
  keeps the document in an object of its own, is asked for its length and then for one slice after
  another; \<open>content_bytes_streaming\<close> gathers the slices, \<open>content_bytes_stream\<close> yields them.
  A record holds what the page answers; the answer to a slice may depend on the round, so a page
  may answer whatever it likes.
\<close>

section \<open>The page's side\<close>

text \<open>\<open>SLICE_FN\<close>, the JavaScript the page runs on the document it holds.\<close>

definition slice_fn :: "nat list \<Rightarrow> nat \<Rightarrow> nat \<Rightarrow> nat list" where
  "slice_fn s start n =
     (let L = length s in
      if start \<ge> L then []
      else let stop = start + n;
               stop = (if stop > L then L else stop);
               stop = (if stop < L \<and> 0 < stop \<and> is_high_surrogate (s ! (stop - 1)) then stop - 1 else stop)
           in drop start (take stop s))"

text \<open>The answer to an evaluation or a call: the exception it threw, the object and the value it returned.\<close>

record evaluated =
  ev_exception :: "string option"
  ev_object_id :: "string option"
  ev_value :: "json option"

text \<open>
  What the reader takes from outside: the byte order, the count of live pages, the environment
  variable, the look-up of the execution context, and the page's answers.
\<close>

record content_page =
  cp_big_endian :: bool
  cp_active_pages :: u64
  cp_max_bytes_var :: "string option"
  cp_context :: "cdp_error + int option"
  cp_init :: "int option \<Rightarrow> cdp_error + evaluated"
  cp_length :: "string \<Rightarrow> cdp_error + evaluated"
  cp_slice :: "string \<Rightarrow> nat \<Rightarrow> u32 \<Rightarrow> u32 \<Rightarrow> cdp_error + evaluated"

section \<open>Bounds\<close>

definition DEFAULT_CHUNK_UNITS :: u32 where "DEFAULT_CHUNK_UNITS = 65536"
definition MIN_CHUNK_UNITS :: u32 where "MIN_CHUNK_UNITS = 1024"
definition MAX_CHUNK_UNITS :: u32 where "MAX_CHUNK_UNITS = 4194304"
definition MAX_DOCUMENT_UNITS :: u32 where "MAX_DOCUMENT_UNITS = 256 * 1024 * 1024"
definition DEFAULT_MAX_ACCUMULATED_BYTES :: u64 where "DEFAULT_MAX_ACCUMULATED_BYTES = 512 * 1024 * 1024"
definition MAX_CHUNKS :: nat where "MAX_CHUNKS = 262144"

lemmas content_bounds = DEFAULT_CHUNK_UNITS_def MIN_CHUNK_UNITS_def MAX_CHUNK_UNITS_def MAX_DOCUMENT_UNITS_def
  DEFAULT_MAX_ACCUMULATED_BYTES_def MAX_CHUNKS_def

definition clamp_chunk_units :: "u32 \<Rightarrow> u32" where
  "clamp_chunk_units units = (if units < MIN_CHUNK_UNITS then MIN_CHUNK_UNITS
     else if units > MAX_CHUNK_UNITS then MAX_CHUNK_UNITS else units)"

definition stream_threshold_units :: "content_page \<Rightarrow> u32" where
  "stream_threshold_units cp =
     (let base = 1048576; least = 262144; high_pressure_pages = 128; pages = ucast (cp_active_pages cp) :: u32 in
      if pages \<ge> high_pressure_pages then least
      else let width = base - least; reduction = width * pages div high_pressure_pages in base - reduction)"

definition max_accumulated_bytes :: "string option \<Rightarrow> u64" where
  "max_accumulated_bytes var =
     (case Option.bind var parse_u64 of
        Some n \<Rightarrow> n
      | None \<Rightarrow> DEFAULT_MAX_ACCUMULATED_BYTES)"

definition saturating_add32 :: "u32 \<Rightarrow> u32 \<Rightarrow> u32" where
  "saturating_add32 a b = (if a + b < a then - 1 else a + b)"

section \<open>The object held in the page\<close>

text \<open>
  \<open>RemoteRefGuard\<close> holds the object's id; dropping it hands a non-empty id to the release worker.
  Every operation returns the ids released, in order, beside its result.
\<close>

definition guard_drop :: "string \<Rightarrow> string list" where
  "guard_drop oid = (if oid = '''' then [] else [oid])"

text \<open>\<open>Value::as_u64\<close>: a number that is a natural number of 64 bits.\<close>

fun as_u64 :: "json \<Rightarrow> u64 option" where
  "as_u64 (JNumber q) = (if 0 \<le> q \<and> q < 2 ^ 64 \<and> of_int \<lfloor>q\<rfloor> = q then Some (of_int \<lfloor>q\<rfloor>) else None)"
| "as_u64 _ = None"

text \<open>The length the page reports, once its object is held.\<close>

definition probe_length :: "content_page \<Rightarrow> string \<Rightarrow> cdp_error + (u32 \<times> u32) option" where
  "probe_length cp oid =
     (case cp_length cp oid of
        Inl e \<Rightarrow> Inl e
      | Inr resp \<Rightarrow> (case ev_exception resp of
            Some ex \<Rightarrow> Inl (JavascriptException ex)
          | None \<Rightarrow> (case Option.bind (ev_value resp) as_u64 of
                None \<Rightarrow> Inl (CdpError_msg ''content stream: length was not a number'')
              | Some n \<Rightarrow>
                  if n > ucast MAX_DOCUMENT_UNITS then Inl (CdpError_msg ''content stream: document exceeds MAX_DOCUMENT_UNITS'')
                  else let total_units = ucast n :: u32 in
                    if total_units = 0 then Inr None
                    else Inr (Some (total_units,
                      if total_units < stream_threshold_units cp then max DEFAULT_CHUNK_UNITS total_units else DEFAULT_CHUNK_UNITS)))))"

text \<open>The guard is returned with the length, and dropped on every other way out.\<close>

definition init_state :: "content_page \<Rightarrow> string list \<times> (cdp_error + (string \<times> u32 \<times> u32) option)" where
  "init_state cp =
     (case cp_context cp of
        Inl e \<Rightarrow> ([], Inl e)
      | Inr ctx \<Rightarrow> (case cp_init cp ctx of
            Inl e \<Rightarrow> ([], Inl e)
          | Inr resp \<Rightarrow> (case ev_exception resp of
                Some ex \<Rightarrow> ([], Inl (JavascriptException ex))
              | None \<Rightarrow> (case ev_object_id resp of
                    None \<Rightarrow> ([], Inl (CdpError_msg ''content stream: init returned no objectId''))
                  | Some oid \<Rightarrow> (case probe_length cp oid of
                        Inl e \<Rightarrow> (guard_drop oid, Inl e)
                      | Inr None \<Rightarrow> (guard_drop oid, Inr None)
                      | Inr (Some (total_units, chunk)) \<Rightarrow> ([], Inr (Some (oid, total_units, chunk))))))))"

definition into_bytes :: "string \<Rightarrow> u8 list" where
  "into_bytes s = map of_char s"

definition read_slice :: "content_page \<Rightarrow> string \<Rightarrow> nat \<Rightarrow> u32 \<Rightarrow> u32 \<Rightarrow> cdp_error + u8 list" where
  "read_slice cp oid n offset chunk =
     (case cp_slice cp oid n offset chunk of
        Inl e \<Rightarrow> Inl e
      | Inr resp \<Rightarrow> (case ev_exception resp of
            Some ex \<Rightarrow> Inl (JavascriptException ex)
          | None \<Rightarrow> (case ev_value resp of
                Some (JString s) \<Rightarrow> Inr (into_bytes s)
              | Some JNull \<Rightarrow> Inr []
              | None \<Rightarrow> Inr []
              | Some _ \<Rightarrow> Inl (CdpError_msg ''content stream: unexpected slice value''))))"

section \<open>Gathering the slices\<close>

text \<open>The loop of \<open>read_chunks\<close>, over its offset, its rounds, the bytes counted and the buffer.\<close>

function read_loop :: "content_page \<Rightarrow> string \<Rightarrow> u64 \<Rightarrow> u32 \<Rightarrow> u32 \<Rightarrow> u32 \<Rightarrow> nat \<Rightarrow> u64 \<Rightarrow> u8 list \<Rightarrow> cdp_error + u8 list" where
  "read_loop cp oid cap total_units chunk offset rounds total_bytes buf =
     (if offset < total_units then
        if rounds \<ge> MAX_CHUNKS then Inl (CdpError_msg ''content stream exceeded MAX_CHUNKS'')
        else (case read_slice cp oid rounds offset chunk of
            Inl e \<Rightarrow> Inl e
          | Inr bytes \<Rightarrow>
              let advanced = utf16_len_of_utf8 (cp_big_endian cp) bytes;
                  total_bytes = saturating_add64 total_bytes (of_nat (length bytes)) in
              if bytes = [] \<or> advanced = 0 then Inr buf
              else if total_bytes > cap then Inl (CdpError_msg ''content stream: accumulated bytes exceeded cap'')
              else read_loop cp oid cap total_units chunk (saturating_add32 offset advanced) (Suc rounds) total_bytes (buf @ bytes))
      else Inr buf)"
  by pat_completeness auto
termination by (relation "measure (\<lambda>(_, _, _, _, _, _, rounds, _, _). MAX_CHUNKS - rounds)") auto

definition read_chunks :: "content_page \<Rightarrow> string \<Rightarrow> u32 \<Rightarrow> u32 \<Rightarrow> cdp_error + u8 list" where
  "read_chunks cp oid total_units chunk = read_loop cp oid (max_accumulated_bytes (cp_max_bytes_var cp)) total_units chunk 0 0 0 []"

definition content_bytes_streaming :: "content_page \<Rightarrow> string list \<times> (cdp_error + u8 list)" where
  "content_bytes_streaming cp =
     (case init_state cp of
        (released, Inl e) \<Rightarrow> (released, Inl e)
      | (released, Inr None) \<Rightarrow> (released, Inr [])
      | (released, Inr (Some (oid, total_units, chunk))) \<Rightarrow> (released @ guard_drop oid, read_chunks cp oid total_units chunk))"

text \<open>\<open>content_streaming\<close>: the bytes as a \<open>String\<close>, here the list of its characters.\<close>

definition content_streaming :: "content_page \<Rightarrow> string list \<times> (cdp_error + scalar list)" where
  "content_streaming cp =
     (case content_bytes_streaming cp of
        (released, Inl e) \<Rightarrow> (released, Inl e)
      | (released, Inr bytes) \<Rightarrow> (released, case from_utf8 bytes of
            None \<Rightarrow> Inl (CdpError_msg ''invalid UTF-8 in page content'')
          | Some s \<Rightarrow> Inr s))"

section \<open>Yielding the slices\<close>

text \<open>The states of the unfold; \<open>Ended\<close> is what \<open>try_unfold\<close> is in once a step returned
  nothing or an error.\<close>

datatype pump_state = PumpInit "u32 option" | Pumping string u32 u32 u32 nat | Ended

definition pump_next :: "content_page \<Rightarrow> string \<Rightarrow> u32 \<Rightarrow> u32 \<Rightarrow> u32 \<Rightarrow> nat \<Rightarrow> cdp_error + (u8 list \<times> pump_state) option" where
  "pump_next cp oid total_units offset chunk rounds =
     (if offset \<ge> total_units \<or> rounds \<ge> MAX_CHUNKS then Inr None
      else (case read_slice cp oid rounds offset chunk of
          Inl e \<Rightarrow> Inl e
        | Inr bytes \<Rightarrow>
            let advanced = utf16_len_of_utf8 (cp_big_endian cp) bytes in
            if bytes = [] \<or> advanced = 0 then Inr None
            else Inr (Some (bytes, Pumping oid total_units (saturating_add32 offset advanced) chunk (Suc rounds)))))"

text \<open>One poll of the stream: what was released, the item yielded, the state after it. A step that
  does not return the guard in its next state drops it.\<close>

definition pump_step :: "content_page \<Rightarrow> string \<Rightarrow> u32 \<Rightarrow> u32 \<Rightarrow> u32 \<Rightarrow> nat \<Rightarrow>
    string list \<times> (cdp_error + u8 list) option \<times> pump_state" where
  "pump_step cp oid total_units offset chunk rounds =
     (case pump_next cp oid total_units offset chunk rounds of
        Inl e \<Rightarrow> (guard_drop oid, Some (Inl e), Ended)
      | Inr None \<Rightarrow> (guard_drop oid, None, Ended)
      | Inr (Some (bytes, st)) \<Rightarrow> ([], Some (Inr bytes), st))"

fun stream_poll :: "content_page \<Rightarrow> pump_state \<Rightarrow> string list \<times> (cdp_error + u8 list) option \<times> pump_state" where
  "stream_poll cp (PumpInit override) =
     (case init_state cp of
        (released, Inl e) \<Rightarrow> (released, Some (Inl e), Ended)
      | (released, Inr None) \<Rightarrow> (released, None, Ended)
      | (released, Inr (Some (oid, total_units, units))) \<Rightarrow>
          (let (released', item, st) = pump_step cp oid total_units 0 (case override of Some n \<Rightarrow> n | None \<Rightarrow> units) 0
           in (released @ released', item, st)))"
| "stream_poll cp (Pumping oid total_units offset chunk rounds) = pump_step cp oid total_units offset chunk rounds"
| "stream_poll cp Ended = ([], None, Ended)"

text \<open>Dropping the stream drops the guard its state holds.\<close>

fun stream_drop :: "pump_state \<Rightarrow> string list" where
  "stream_drop (Pumping oid _ _ _ _) = guard_drop oid"
| "stream_drop _ = []"

text \<open>A consumer that polls at most a number of times, stopping at the end, and then drops the
  stream: the objects released, and the items it saw.\<close>

primrec stream_take :: "content_page \<Rightarrow> nat \<Rightarrow> pump_state \<Rightarrow> string list \<times> (cdp_error + u8 list) list" where
  "stream_take cp 0 st = (stream_drop st, [])"
| "stream_take cp (Suc n) st =
     (case stream_poll cp st of
        (released, None, st') \<Rightarrow> (released @ stream_drop st', [])
      | (released, Some item, st') \<Rightarrow>
          (let (released', items) = stream_take cp n st' in (released @ released', item # items)))"

definition content_bytes_stream :: "content_page \<Rightarrow> u32 option \<Rightarrow> nat \<Rightarrow> string list \<times> (cdp_error + u8 list) list" where
  "content_bytes_stream cp chunk_units n = stream_take cp n (PumpInit (map_option clamp_chunk_units chunk_units))"

definition chunk_text :: "cdp_error + u8 list \<Rightarrow> cdp_error + scalar list" where
  "chunk_text item = (case item of
     Inl e \<Rightarrow> Inl e
   | Inr bytes \<Rightarrow> (case from_utf8 bytes of
       None \<Rightarrow> Inl (CdpError_msg ''invalid UTF-8 in page content chunk'')
     | Some s \<Rightarrow> Inr s))"

definition content_stream :: "content_page \<Rightarrow> u32 option \<Rightarrow> nat \<Rightarrow> string list \<times> (cdp_error + scalar list) list" where
  "content_stream cp chunk_units n = (let (released, items) = content_bytes_stream cp chunk_units n in (released, map chunk_text items))"

declare read_loop.simps [simp del]

end
