(* ===== verification/Content_Props.thy ===== *)
theory Content_Props
  imports Content_Stream
begin

text \<open>
  What the content stream guarantees: a page that holds a document and answers the slices of it is
  read completely, by the gathering reader and by the stream; the two agree on any page; and the
  object held in the page is released exactly once, however the reading ends.
\<close>

section \<open>Words\<close>

lemma unat_saturating_add32: "unat a + unat b < 2 ^ 32 \<Longrightarrow> unat (saturating_add32 a b) = unat a + unat b"
proof -
  assume "unat a + unat b < 2 ^ 32"
  then have "unat (a + b) = unat a + unat b" by (simp add: unat_word_ariths)
  then show ?thesis by (simp add: saturating_add32_def word_less_nat_alt)
qed

text \<open>The string with given bytes.\<close>

definition string_of_bytes :: "u8 list \<Rightarrow> string" where
  "string_of_bytes bs = map (\<lambda>b. char_of (unat b)) bs"

lemma into_bytes_string_of_bytes [simp]: "into_bytes (string_of_bytes bs) = bs"
proof -
  have "of_char (char_of (unat b)) = b" for b :: u8
  proof -
    have "unat b < 256" using unsigned_less [of b] by simp
    then have "of_nat (of_char (char_of (unat b) :: char) :: nat) = b" by simp
    then show ?thesis by (simp only: of_nat_of_char)
  qed
  then show ?thesis by (simp add: into_bytes_def string_of_bytes_def comp_def)
qed

lemma length_utf8_utf16: "length (utf8 cs) \<le> 3 * length (utf16 cs)"
  by (induction cs) (auto simp: utf8_char_def utf16_char_def)

section \<open>Slices of a text\<close>

text \<open>A slice that starts at a character, of at least two units, is a non-empty run of whole characters; it falls
  short by at most one unit, except at the end of the text.\<close>

lemma slice_inside:
  assumes "n < length q" "0 < n"
  shows "slice_fn (p @ q) (length p) n =
    (if is_high_surrogate (last (take n q)) then take (n - 1) q else take n q)"
proof -
  have stop: "last (take n q) = q ! (n - 1)" using last_conv_nth [of "take n q"] assms by fastforce
  have "length p + n - Suc 0 = length p + (n - 1)" using assms(2) by simp
  then have "(p @ q) ! (length p + n - Suc 0) = last (take n q)" by (simp only: nth_append_length_plus stop)
  then show ?thesis using assms by (simp add: slice_fn_def Let_def)
qed

lemma slice_of_text:
  assumes suf: "list_all is_scalar suf" "suf \<noteq> []" and n: "2 \<le> n"
  obtains as bs where "suf = as @ bs" "as \<noteq> []" "slice_fn (utf16 (pre @ suf)) (length (utf16 pre)) n = utf16 as"
    "bs = [] \<or> n - 1 \<le> length (utf16 as)"
proof (cases "n < length (utf16 suf)")
  case False
  then have "slice_fn (utf16 (pre @ suf)) (length (utf16 pre)) n = utf16 suf"
    using suf(2) by (auto simp: slice_fn_def Let_def)
  then show ?thesis using that [of suf "[]"] suf(2) by simp
next
  case True
  then have slice: "slice_fn (utf16 (pre @ suf)) (length (utf16 pre)) n =
    (if is_high_surrogate (last (take n (utf16 suf))) then take (n - 1) (utf16 suf) else take n (utf16 suf))"
    unfolding utf16_simps using n by (intro slice_inside) simp_all
  show ?thesis using suf(1) True
  proof (cases rule: take_utf16)
    fix as bs
    assume *: "suf = as @ bs" "bs \<noteq> []" "length (utf16 as) = n" "take n (utf16 suf) = utf16 as"
    then have "as \<noteq> []" using n by auto
    then have "\<not> is_high_surrogate (last (utf16 as))" using suf(1) * by (intro last_utf16_not_high) simp_all
    then have "slice_fn (utf16 (pre @ suf)) (length (utf16 pre)) n = utf16 as"
      by (simp only: slice *(4) if_False)
    then show ?thesis using that [of as bs] * \<open>as \<noteq> []\<close> by simp
  next
    fix as bs u
    assume *: "suf = as @ bs" "bs \<noteq> []" "n = Suc (length (utf16 as))" "take n (utf16 suf) = utf16 as @ [u]"
      "is_high_surrogate u"
    have "take (n - 1) (utf16 suf) = utf16 as" using * by simp
    then have "slice_fn (utf16 (pre @ suf)) (length (utf16 pre)) n = utf16 as"
      by (simp only: slice *(4,5) last_snoc if_True)
    moreover have "as \<noteq> []" using *(3) n by auto
    ultimately show ?thesis using that [of as bs] * by simp
  qed
qed

section \<open>A page that holds a document\<close>

definition slices_of :: "content_page \<Rightarrow> string \<Rightarrow> scalar list \<Rightarrow> bool" where
  "slices_of cp oid doc = (\<forall>n start units cs.
     list_all is_scalar cs \<and> utf16 cs = slice_fn (utf16 doc) (unat start) (unat units) \<longrightarrow>
     (\<exists>r. cp_slice cp oid n start units = Inr r \<and> ev_exception r = None \<and> ev_value r = Some (JString (string_of_bytes (utf8 cs)))))"

definition holds_document :: "content_page \<Rightarrow> string \<Rightarrow> scalar list \<Rightarrow> bool" where
  "holds_document cp oid doc =
     ((\<exists>ctx r. cp_context cp = Inr ctx \<and> cp_init cp ctx = Inr r \<and> ev_exception r = None \<and> ev_object_id r = Some oid) \<and>
      (\<exists>r. cp_length cp oid = Inr r \<and> ev_exception r = None \<and> ev_value r = Some (JNumber (of_nat (length (utf16 doc))))) \<and>
      slices_of cp oid doc)"

lemma read_slice_text:
  assumes "slices_of cp oid doc" "list_all is_scalar cs" "utf16 cs = slice_fn (utf16 doc) (unat off) (unat chunk)"
  shows "read_slice cp oid n off chunk = Inr (utf8 cs)"
proof -
  from assms obtain r where "cp_slice cp oid n off chunk = Inr r" "ev_exception r = None"
    "ev_value r = Some (JString (string_of_bytes (utf8 cs)))"
    unfolding slices_of_def by blast
  then show ?thesis by (simp add: read_slice_def)
qed

lemma utf16_length_word:
  assumes "list_all is_scalar cs" "length (utf16 cs) < 2 ^ 32"
  shows "unat (utf16_len_of_utf8 be (utf8 cs)) = length (utf16 cs)"
proof -
  have "length (utf8 cs) < 2 ^ 63" using length_utf8_utf16 [of cs] assms(2) by simp
  from utf16_len_counts [OF this, of be] show ?thesis using assms by (simp add: code_units_utf8)
qed

text \<open>One round of reading, at a character of the document.\<close>

lemma slice_round:
  assumes page: "slices_of cp oid (pre @ suf)" and doc: "list_all is_scalar (pre @ suf)" "suf \<noteq> []"
    and off: "unat off = length (utf16 pre)" "length (utf16 (pre @ suf)) < 2 ^ 32" and chunk: "2 \<le> unat chunk"
  obtains as bs where "suf = as @ bs" "as \<noteq> []" "read_slice cp oid n off chunk = Inr (utf8 as)"
    "utf16_len_of_utf8 be (utf8 as) \<noteq> 0"
    "unat (saturating_add32 off (utf16_len_of_utf8 be (utf8 as))) = length (utf16 (pre @ as))"
    "bs = [] \<or> unat chunk - 1 \<le> length (utf16 as)"
proof -
  have "list_all is_scalar suf" using doc(1) by simp
  then obtain as bs where *: "suf = as @ bs" "as \<noteq> []" "slice_fn (utf16 (pre @ suf)) (length (utf16 pre)) (unat chunk) = utf16 as"
    "bs = [] \<or> unat chunk - 1 \<le> length (utf16 as)" using doc(2) chunk by (rule slice_of_text)
  have as: "list_all is_scalar as" "length (utf16 as) < 2 ^ 32" using doc(1) off(2) * by simp_all
  have len: "unat (utf16_len_of_utf8 be (utf8 as)) = length (utf16 as)" using as by (rule utf16_length_word)
  show ?thesis
  proof
    show "read_slice cp oid n off chunk = Inr (utf8 as)" 
      using *(3) off(1) by (intro read_slice_text [OF page as(1)]) simp
    show "utf16_len_of_utf8 be (utf8 as) \<noteq> 0" using len *(2) by auto
    show "unat (saturating_add32 off (utf16_len_of_utf8 be (utf8 as))) = length (utf16 (pre @ as))"
      using off * len by (simp add: unat_saturating_add32)
  qed (use * in auto)
qed

lemma read_loop_document:
  assumes "slices_of cp oid (pre @ suf)" "list_all is_scalar (pre @ suf)" "2 \<le> unat chunk"
    and "unat total_units = length (utf16 (pre @ suf))" "unat off = length (utf16 pre)"
    and "length (utf8 (pre @ suf)) \<le> unat cap" "unat tb = length (utf8 pre)"
    and "length (utf16 suf) \<le> (MAX_CHUNKS - rounds) * (unat chunk - 1)"
  shows "read_loop cp oid cap total_units chunk off rounds tb (utf8 pre) = Inr (utf8 (pre @ suf))"
  using assms
proof (induction suf arbitrary: pre off tb rounds rule: measure_induct_rule [of length])
  case (less suf)
  show ?case
  proof (cases "suf = []")
    case True
    then show ?thesis using less.prems by (subst read_loop.simps) (simp add: word_less_nat_alt)
  next
    case False
    have small: "length (utf16 (pre @ suf)) < 2 ^ 32" using less.prems(4) u32_bound [of total_units] by simp
    from False less.prems have "off < total_units" by (simp add: word_less_nat_alt)
    moreover have "rounds < MAX_CHUNKS" using less.prems(8) False by (cases "MAX_CHUNKS \<le> rounds") simp_all
    moreover obtain as bs where r: "suf = as @ bs" "as \<noteq> []" "read_slice cp oid rounds off chunk = Inr (utf8 as)"
      "utf16_len_of_utf8 (cp_big_endian cp) (utf8 as) \<noteq> 0"
      "unat (saturating_add32 off (utf16_len_of_utf8 (cp_big_endian cp) (utf8 as))) = length (utf16 (pre @ as))"
      "bs = [] \<or> unat chunk - 1 \<le> length (utf16 as)"
      using less.prems(1,2) False less.prems(5) small less.prems(3) by (rule slice_round)
    define tb' where "tb' = saturating_add64 tb (of_nat (length (utf8 as)))"
    have len: "length (utf8 pre) + length (utf8 as) < 2 ^ 64"
      using less.prems(6) r(1) u64_bound [of cap] by simp
    then have tb': "unat tb' = length (utf8 (pre @ as))"
      using less.prems(7) by (simp add: tb'_def unat_saturating_add64 unat_of_nat take_bit_nat_eq_self)
    then have "\<not> cap < tb'" using less.prems(6) r(1) by (simp add: word_less_nat_alt)
    moreover have "read_loop cp oid cap total_units chunk (saturating_add32 off (utf16_len_of_utf8 (cp_big_endian cp) (utf8 as)))
        (Suc rounds) tb' (utf8 (pre @ as)) = Inr (utf8 ((pre @ as) @ bs))"
    proof (rule less.IH)
      have "(MAX_CHUNKS - rounds) * (unat chunk - 1) = (MAX_CHUNKS - Suc rounds) * (unat chunk - 1) + (unat chunk - 1)"
        using \<open>rounds < MAX_CHUNKS\<close> by (metis Suc_diff_Suc add.commute mult_Suc)
      then show "length (utf16 bs) \<le> (MAX_CHUNKS - Suc rounds) * (unat chunk - 1)"
        using less.prems(8) r(1,6) by auto
    qed (use less.prems r tb' in auto)
    ultimately show ?thesis using r by (subst read_loop.simps) (simp add: tb'_def)
  qed
qed

lemma max_document_units: "unat MAX_DOCUMENT_UNITS = 2 ^ 28"
  by (simp add: MAX_DOCUMENT_UNITS_def)

lemma as_u64_of_nat: "n < 2 ^ 64 \<Longrightarrow> as_u64 (JNumber (of_nat n)) = Some (of_nat n)"
  by simp

text \<open>A held document of a size within the limit: its length is found, and the slices are long enough to
  finish before the rounds run out.\<close>

lemma init_state_document:
  assumes "holds_document cp oid doc" "length (utf16 doc) \<le> unat MAX_DOCUMENT_UNITS"
  shows "doc = [] \<and> init_state cp = (guard_drop oid, Inr None) \<or>
    (\<exists>total_units chunk. doc \<noteq> [] \<and> init_state cp = ([], Inr (Some (oid, total_units, chunk))) \<and>
      unat total_units = length (utf16 doc) \<and> 65536 \<le> unat chunk)"
proof -
  let ?n = "length (utf16 doc)"
  obtain ctx r where init: "cp_context cp = Inr ctx" "cp_init cp ctx = Inr r" "ev_exception r = None" "ev_object_id r = Some oid"
    using assms(1) by (auto simp: holds_document_def)
  obtain r' where len: "cp_length cp oid = Inr r'" "ev_exception r' = None" "ev_value r' = Some (JNumber (of_nat ?n))"
    using assms(1) by (auto simp: holds_document_def)
  have n: "?n \<le> 2 ^ 28" using assms(2) max_document_units by simp
  have u64: "unat (of_nat ?n :: u64) = ?n" and u32: "unat (of_nat ?n :: u32) = ?n"
    using n by (simp_all add: unat_of_nat take_bit_nat_eq_self)
  have "unat (ucast MAX_DOCUMENT_UNITS :: u64) = 2 ^ 28" by (simp add: MAX_DOCUMENT_UNITS_def)
  then have within: "\<not> (of_nat ?n :: u64) > ucast MAX_DOCUMENT_UNITS" using n u64 by (simp add: word_less_nat_alt)
  have cast: "(ucast (of_nat ?n :: u64) :: u32) = of_nat ?n"
    using u64 by (metis of_nat_unat unsigned_ucast_eq ucast_id)
  have val: "Option.bind (ev_value r') as_u64 = Some (of_nat ?n)" using n by (simp add: len(3) as_u64_of_nat)
  define chunk where "chunk = (if (of_nat ?n :: u32) < stream_threshold_units cp then max DEFAULT_CHUNK_UNITS (of_nat ?n) else DEFAULT_CHUNK_UNITS)"
  have probe: "probe_length cp oid = (if (of_nat ?n :: u32) = 0 then Inr None else Inr (Some (of_nat ?n, chunk)))"
    unfolding probe_length_def using len(1,2) val within cast by (simp add: chunk_def Let_def)
  have zero: "(of_nat ?n :: u32) = 0 \<longleftrightarrow> doc = []" by (simp only: word_unat_eq_iff u32 unsigned_0 length_0_conv utf16_Nil_iff)
  have "65536 \<le> unat chunk" by (auto simp: chunk_def DEFAULT_CHUNK_UNITS_def max_def word_le_nat_alt word_less_nat_alt)
  then show ?thesis unfolding init_state_def using init probe zero u32 by (cases "doc = []") simp_all
qed

lemma rounds_suffice:
  assumes "length (utf16 doc) \<le> unat MAX_DOCUMENT_UNITS" "1025 \<le> unat chunk"
  shows "length (utf16 doc) \<le> (MAX_CHUNKS - 0) * (unat chunk - 1)"
proof -
  have "MAX_CHUNKS * 1024 \<le> MAX_CHUNKS * (unat chunk - 1)" using assms(2) by (intro mult_le_mono2) simp
  then show ?thesis using assms(1) by (simp add: max_document_units MAX_CHUNKS_def)
qed

lemma read_chunks_document:
  assumes "slices_of cp oid doc" "list_all is_scalar doc" "unat total_units = length (utf16 doc)"
    "length (utf16 doc) \<le> unat MAX_DOCUMENT_UNITS" "1025 \<le> unat chunk" "length (utf8 doc) \<le> unat cap"
  shows "read_loop cp oid cap total_units chunk 0 0 0 [] = Inr (utf8 doc)"
  using read_loop_document [of cp oid "[]" doc chunk total_units 0 cap 0 0] rounds_suffice [OF assms(4,5)] assms by simp

section \<open>Properties\<close>

text \<open>C23 (UTF-16 length). On the UTF-8 of any text, whatever the byte order of the machine, the
  word-parallel count is the number of UTF-16 code units of the text, capped at the largest 32-bit
  value: the routine agrees with the definition of the encodings.\<close>

theorem utf16_length_exact:
  assumes "list_all is_scalar cs" "length (utf8 cs) < 2 ^ 63"
  shows "unat (utf16_len_of_utf8 be (utf8 cs)) = min (length (utf16 cs)) (2 ^ 32 - 1)"
  using utf16_len_counts [OF assms(2), of be] assms(1) by (simp only: code_units_utf8)

lemma utf16_length_exact_witness:
  "unat (utf16_len_of_utf8 False (utf8 [97, 233, 8364, 128512])) = 5"
  using utf16_length_exact [of "[97, 233, 8364, 128512]" False]
  by (simp add: is_scalar_def utf8_char_def utf16_char_def)

text \<open>C22 (The document is read whole). A page that holds a document of at most
  \<open>MAX_DOCUMENT_UNITS\<close> code units and answers each slice call with the slice is read completely:
  the result is the document, character by character, if its UTF-8 fits the byte cap. No
  surrogate pair is split, no part is skipped or read twice, and the round limit is not met. The
  page's object is released.\<close>

theorem document_read_whole:
  assumes "holds_document cp oid doc" "list_all is_scalar doc" "length (utf16 doc) \<le> unat MAX_DOCUMENT_UNITS"
    and "length (utf8 doc) \<le> unat (max_accumulated_bytes (cp_max_bytes_var cp))"
  shows "content_streaming cp = (guard_drop oid, Inr doc)"
proof -
  have slices: "slices_of cp oid doc" using assms(1) by (simp add: holds_document_def)
  have "content_bytes_streaming cp = (guard_drop oid, Inr (utf8 doc))"
    using init_state_document [OF assms(1,3)] read_chunks_document [OF slices assms(2) _ assms(3) _ assms(4)]
    by (auto simp: content_bytes_streaming_def read_chunks_def)
  then show ?thesis by (simp add: content_streaming_def from_utf8_utf8 [OF assms(2)])
qed

text \<open>A page that runs the script on its document.\<close>

definition document_page :: "string \<Rightarrow> scalar list \<Rightarrow> content_page" where
  "document_page oid doc =
     \<lparr>cp_big_endian = False, cp_active_pages = 1, cp_max_bytes_var = None, cp_context = Inr (Some 1),
      cp_init = (\<lambda>_. Inr \<lparr>ev_exception = None, ev_object_id = Some oid, ev_value = None\<rparr>),
      cp_length = (\<lambda>_. Inr \<lparr>ev_exception = None, ev_object_id = None, ev_value = Some (JNumber (of_nat (length (utf16 doc))))\<rparr>),
      cp_slice = (\<lambda>_ _ start units. Inr \<lparr>ev_exception = None, ev_object_id = None,
        ev_value = Some (JString (string_of_bytes (utf8 (utf16_decode (slice_fn (utf16 doc) (unat start) (unat units))))))\<rparr>)\<rparr>"

lemma document_page_holds: "holds_document (document_page oid doc) oid doc"
proof -
  have "slices_of (document_page oid doc) oid doc"
    by (auto simp: slices_of_def document_page_def utf16_decode_utf16 dest: sym)
  then show ?thesis by (simp add: holds_document_def document_page_def)
qed

lemma document_read_whole_witness:
  "content_streaming (document_page ''object'' [60, 8364, 128512, 62]) = ([''object''], Inr [60, 8364, 128512, 62])"
  using document_read_whole [OF document_page_holds [of "''object''" "[60, 8364, 128512, 62]"]]
  by (simp add: guard_drop_def is_scalar_def utf16_char_def utf8_char_def max_document_units max_accumulated_bytes_def
      document_page_def DEFAULT_MAX_ACCUMULATED_BYTES_def)

section \<open>The stream and the reader\<close>

lemma stream_take_Ended [simp]: "stream_take cp n Ended = ([], [])"
  by (cases n) simp_all

lemma stream_matches_loop:
  "read_loop cp oid cap total_units chunk off rounds tb buf = Inr out \<Longrightarrow> MAX_CHUNKS - rounds < n \<Longrightarrow>
   \<exists>parts. stream_take cp n (Pumping oid total_units off chunk rounds) = (guard_drop oid, map Inr parts) \<and> out = buf @ concat parts"
proof (induction cp oid cap total_units chunk off rounds tb buf arbitrary: n rule: read_loop.induct)
  case (1 cp oid cap total_units chunk off rounds tb buf)
  obtain m where n: "n = Suc m" using "1.prems"(2) by (cases n) auto
  note loop = "1.prems"(1) [unfolded read_loop.simps [of cp oid cap total_units chunk off]]
  show ?case
  proof (cases "off < total_units")
    case False
    then have "out = buf" using loop by simp
    with False show ?thesis by (intro exI [of _ "[]"]) (simp add: n pump_step_def pump_next_def not_less)
  next
    case True
    then have r: "rounds < MAX_CHUNKS" using loop by (auto split: if_splits)
    then obtain bytes where bytes: "read_slice cp oid rounds off chunk = Inr bytes"
      using loop True by (auto split: sum.splits)
    let ?adv = "utf16_len_of_utf8 (cp_big_endian cp) bytes" and ?tb = "saturating_add64 tb (of_nat (length bytes))"
    show ?thesis
    proof (cases "bytes = [] \<or> ?adv = 0")
      case True
      then have "out = buf" using loop r \<open>off < total_units\<close> bytes by (simp add: Let_def)
      with True r bytes \<open>off < total_units\<close> show ?thesis
        by (intro exI [of _ "[]"]) (simp add: n pump_step_def pump_next_def Let_def not_le not_less)
    next
      case False
      then have step: "stream_poll cp (Pumping oid total_units off chunk rounds) =
          ([], Some (Inr bytes), Pumping oid total_units (saturating_add32 off ?adv) chunk (Suc rounds))"
        using True r bytes by (simp add: pump_step_def pump_next_def Let_def not_le not_less)
      have cap: "\<not> ?tb > cap" using loop False True r bytes by (auto simp: Let_def split: if_splits)
      then have "read_loop cp oid cap total_units chunk (saturating_add32 off ?adv) (Suc rounds) ?tb (buf @ bytes) = Inr out"
        using loop False True r bytes by (simp add: Let_def)
      moreover have "MAX_CHUNKS - Suc rounds < m" using "1.prems"(2) n r by linarith
      ultimately obtain parts where "stream_take cp m (Pumping oid total_units (saturating_add32 off ?adv) chunk (Suc rounds)) =
          (guard_drop oid, map Inr parts)" "out = (buf @ bytes) @ concat parts"
        using "1.IH" [OF True _ bytes refl refl False cap] r by (metis not_less)
      then show ?thesis using step by (intro exI [of _ "bytes # parts"]) (simp add: n)
    qed
  qed
qed

text \<open>C27 (Reader and stream agree). Whatever the page answers, when gathering the slices succeeds, a stream
  with the default slices polled to its end yields slices only, no error, whose concatenation is
  the gathered result, and releases the same objects.\<close>

theorem streams_agree:
  assumes "content_bytes_streaming cp = (released, Inr bytes)" "MAX_CHUNKS < n"
  shows "\<exists>parts. content_bytes_stream cp None n = (released, map Inr parts) \<and> concat parts = bytes"
proof -
  obtain m where n: "n = Suc m" "MAX_CHUNKS \<le> m" using assms(2) by (cases n) auto
  consider "init_state cp = (released, Inr None)" "bytes = []"
    | r oid total_units chunk where "init_state cp = (r, Inr (Some (oid, total_units, chunk)))" "released = r @ guard_drop oid"
      "read_chunks cp oid total_units chunk = Inr bytes"
    using assms(1) by (auto simp: content_bytes_streaming_def split: prod.splits sum.splits option.splits)
  then show ?thesis
  proof cases
    case 1
    then show ?thesis by (intro exI [of _ "[]"]) (simp add: content_bytes_stream_def n)
  next
    case 2
    have "\<exists>parts. stream_take cp n (Pumping oid total_units 0 chunk 0) = (guard_drop oid, map Inr parts) \<and> bytes = [] @ concat parts"
      using 2(3) assms(2) by (intro stream_matches_loop) (simp_all add: read_chunks_def)
    then obtain parts where "stream_take cp n (Pumping oid total_units 0 chunk 0) = (guard_drop oid, map Inr parts)" "bytes = concat parts"
      by auto
    moreover have "r = []" using 2(1) by (auto simp: init_state_def split: sum.splits option.splits)
    ultimately show ?thesis using 2
      by (intro exI [of _ parts]) (auto simp: content_bytes_stream_def n split: prod.splits option.splits)
  qed
qed

lemma streams_agree_witness:
  "\<exists>parts. content_bytes_stream (document_page ''object'' []) None (Suc MAX_CHUNKS) = ([''object''], map Inr parts) \<and> concat parts = []"
proof (rule streams_agree)
  show "content_bytes_streaming (document_page ''object'' []) = ([''object''], Inr [])"
    by (simp add: content_bytes_streaming_def init_state_def probe_length_def document_page_def guard_drop_def MAX_DOCUMENT_UNITS_def)
qed simp

section \<open>The object in the page\<close>

text \<open>The object the page is made to hold, if it gets that far.\<close>

definition held_objects :: "content_page \<Rightarrow> string list" where
  "held_objects cp =
     (case cp_context cp of
        Inl _ \<Rightarrow> []
      | Inr ctx \<Rightarrow> (case cp_init cp ctx of
            Inl _ \<Rightarrow> []
          | Inr r \<Rightarrow> if ev_exception r = None then (case ev_object_id r of None \<Rightarrow> [] | Some oid \<Rightarrow> guard_drop oid) else []))"

lemma init_state_releases:
  "case init_state cp of
     (released, Inr (Some (oid, _, _))) \<Rightarrow> released = [] \<and> held_objects cp = guard_drop oid
   | (released, _) \<Rightarrow> released = held_objects cp"
  by (auto simp: init_state_def held_objects_def split: sum.split option.split)

lemma pump_step_keeps_object:
  "pump_step cp oid total_units off chunk rounds = (released, item, st) \<Longrightarrow> released @ stream_drop st = guard_drop oid"
  by (auto simp: pump_step_def pump_next_def Let_def split: sum.splits option.splits if_splits)

lemma pump_step_state:
  "pump_step cp oid total_units off chunk rounds = (released, Some item, st) \<Longrightarrow>
   released = guard_drop oid \<and> st = Ended \<or> released = [] \<and> (\<exists>off' rounds'. st = Pumping oid total_units off' chunk rounds')"
  by (auto simp: pump_step_def pump_next_def Let_def split: sum.splits option.splits if_splits)

lemma stream_take_releases: "fst (stream_take cp n (Pumping oid total_units off chunk rounds)) = guard_drop oid"
proof (induction n arbitrary: off rounds)
  case (Suc n)
  obtain released item st where step: "pump_step cp oid total_units off chunk rounds = (released, item, st)"
    by (metis prod_cases3)
  show ?case
  proof (cases item)
    case None
    then show ?thesis using step pump_step_keeps_object [OF step] by simp
  next
    case (Some i)
    then show ?thesis using step pump_step_state [of cp oid total_units off chunk rounds released i st] Suc.IH
      by (auto simp: split_beta)
  qed
qed simp

text \<open>C28 (The page's object is released once). Whatever the page answers, both ways of reading release exactly
  the object the page was made to hold, once: after a complete reading, an error at any point, a
  length over the limit, and when the consumer drops the stream after any number of polls.\<close>

theorem page_object_released_once:
  "fst (content_bytes_streaming cp) = held_objects cp \<and> fst (content_bytes_stream cp chunk_units (Suc n)) = held_objects cp"
proof (cases "init_state cp")
  case (Pair released r)
  consider e where "r = Inl e" | "r = Inr None" | oid total_units chunk where "r = Inr (Some (oid, total_units, chunk))"
    by (metis old.sum.exhaust option.exhaust prod_cases3)
  then show ?thesis
  proof cases
    case 3
    let ?chunk = "case map_option clamp_chunk_units chunk_units of Some n \<Rightarrow> n | None \<Rightarrow> chunk"
    have "stream_take cp (Suc n) (PumpInit (map_option clamp_chunk_units chunk_units)) =
        stream_take cp (Suc n) (Pumping oid total_units 0 ?chunk 0)"
      using init_state_releases [of cp] Pair 3 by (simp add: split_beta)
    then show ?thesis using init_state_releases [of cp] Pair 3 stream_take_releases [of cp "Suc n"]
      by (simp add: content_bytes_streaming_def content_bytes_stream_def)
  qed (use init_state_releases [of cp] Pair in \<open>auto simp: content_bytes_streaming_def content_bytes_stream_def\<close>)
qed

section \<open>Two limits of the code\<close>

text \<open>The zero-byte trick counts a lane of one above a zero lane as well.\<close>

lemma zero_bytes_overcounted: "count_zero_bytes_u64 0x0100 = 8"
  by code_simp

text \<open>At the smallest slice size a large document is cut off without an error: when every slice falls short
  by one unit, the rounds run out before the document does.\<close>

definition short_block :: "scalar list" where
  "short_block = replicate 511 128512 @ [97]"

definition blocks :: "nat \<Rightarrow> scalar list" where
  "blocks k = concat (replicate k short_block)"

lemma utf16_replicate: "length (utf16 (replicate k 128512)) = 2 * k"
  by (induction k) (simp_all add: utf16_char_def)

lemma short_block_facts:
  shows short_block_scalars: "list_all is_scalar short_block"
    and short_block_units: "length (utf16 short_block) = 1023"
    and short_block_hd: "take 1 (utf16 short_block) = [0xD83D]"
proof -
  show "list_all is_scalar short_block" by (simp add: short_block_def is_scalar_def list_all_iff)
  show "length (utf16 short_block) = 1023" unfolding short_block_def utf16_simps length_append utf16_replicate
    by (simp add: utf16_char_def)
  have "short_block = 128512 # replicate 510 128512 @ [97]"
    using replicate_Suc [of 510 "128512 :: nat"] by (simp add: short_block_def)
  then have "utf16 short_block = utf16_char 128512 @ utf16 (replicate 510 128512 @ [97])" by (metis utf16_simps(2))
  then show "take 1 (utf16 short_block) = [0xD83D]" by (simp add: utf16_char_def)
qed

lemma blocks_Suc: "blocks (Suc k) = short_block @ blocks k" "blocks (a + b) = blocks a @ blocks b"
  by (simp_all add: blocks_def replicate_add)

lemma length_blocks: "length (utf16 (blocks k)) = 1023 * k"
  by (induction k) (simp_all add: blocks_Suc short_block_units, simp add: blocks_def)

lemma blocks_scalars: "list_all is_scalar (blocks k)"
  by (induction k) (simp_all add: blocks_Suc short_block_scalars, simp add: blocks_def)

text \<open>The slice at the start of a block followed by another one is that block.\<close>

lemma slice_block:
  assumes "a + 2 \<le> k"
  shows "slice_fn (utf16 (blocks k)) (1023 * a) 1024 = utf16 short_block"
proof -
  define b where "b = k - a - 2"
  then have k: "k = a + Suc (Suc b)" using assms by simp
  let ?q = "utf16 (blocks (Suc (Suc b)))"
  have take: "take (length p + 1) (p @ q @ r) = p @ take 1 q" if "q \<noteq> []" for p q r :: "nat list"
    using that by (cases q) simp_all
  have "take (length (utf16 short_block) + 1) ?q = utf16 short_block @ take 1 (utf16 short_block)"
    unfolding blocks_Suc utf16_simps using short_block_hd by (intro take) auto
  then have slice: "take 1024 ?q = utf16 short_block @ [0xD83D]" by (simp only: short_block_units short_block_hd) simp
  have "slice_fn (utf16 (blocks a) @ ?q) (length (utf16 (blocks a))) 1024 =
      (if is_high_surrogate (last (take 1024 ?q)) then take (1024 - 1) ?q else take 1024 ?q)"
    by (rule slice_inside) (simp_all add: length_blocks)
  moreover have "take 1023 ?q = take 1023 (take 1024 ?q)" by (simp only: take_take) simp
  then have "take 1023 ?q = utf16 short_block" unfolding slice by (simp add: short_block_units)
  ultimately show ?thesis unfolding k blocks_Suc(2) utf16_simps
    by (simp add: length_blocks slice is_high_surrogate_def)
qed

lemma stream_of_blocks:
  assumes page: "slices_of cp oid (blocks (Suc MAX_CHUNKS))" and total_units: "unat total_units = 1023 * Suc MAX_CHUNKS"
  shows "unat off = 1023 * r \<Longrightarrow> r + d = MAX_CHUNKS \<Longrightarrow> d < n \<Longrightarrow>
    stream_take cp n (Pumping oid total_units off 1024 r) = (guard_drop oid, replicate d (Inr (utf8 short_block)))"
proof (induction d arbitrary: r off n)
  case 0
  then show ?case by (cases n) (simp_all add: pump_step_def pump_next_def)
next
  case (Suc d)
  obtain m where n: "n = Suc m" "d < m" using Suc.prems(3) by (cases n) auto
  have "utf16 short_block = slice_fn (utf16 (blocks (Suc MAX_CHUNKS))) (unat off) (unat (1024 :: u32))"
    using slice_block [of r "Suc MAX_CHUNKS"] Suc.prems by simp
  then have bytes: "read_slice cp oid r off 1024 = Inr (utf8 short_block)"
    by (rule read_slice_text [OF page short_block_scalars])
  let ?adv = "utf16_len_of_utf8 (cp_big_endian cp) (utf8 short_block)"
  have adv: "unat ?adv = 1023" using utf16_length_word [OF short_block_scalars] by (simp add: short_block_units)
  have off: "unat (saturating_add32 off ?adv) = 1023 * Suc r"
    using Suc.prems(1,2) adv by (subst unat_saturating_add32) (simp_all add: MAX_CHUNKS_def)
  have "off < total_units" using Suc.prems(1,2) total_units by (simp add: word_less_nat_alt)
  moreover have "?adv \<noteq> 0" "short_block \<noteq> []" using adv by (auto simp: short_block_def)
  ultimately have "pump_step cp oid total_units off 1024 r =
      ([], Some (Inr (utf8 short_block)), Pumping oid total_units (saturating_add32 off ?adv) 1024 (Suc r))"
    using bytes Suc.prems(2) by (simp add: pump_step_def pump_next_def Let_def not_le)
  moreover have "stream_take cp m (Pumping oid total_units (saturating_add32 off ?adv) 1024 (Suc r)) =
      (guard_drop oid, replicate d (Inr (utf8 short_block)))"
    using off Suc.prems(2) n(2) by (intro Suc.IH) simp_all
  ultimately show ?case by (simp add: n)
qed

theorem small_slices_truncate:
  assumes "holds_document cp oid (blocks (Suc MAX_CHUNKS))" "MAX_CHUNKS < n"
  shows "content_bytes_stream cp (Some 1024) n = (guard_drop oid, replicate MAX_CHUNKS (Inr (utf8 short_block)))"
proof -
  let ?doc = "blocks (Suc MAX_CHUNKS)"
  obtain m where n: "n = Suc m" using assms(2) by (cases n) auto
  have "length (utf16 ?doc) \<le> unat MAX_DOCUMENT_UNITS" by (simp add: length_blocks max_document_units MAX_CHUNKS_def)
  then obtain total_units chunk where init: "init_state cp = ([], Inr (Some (oid, total_units, chunk)))"
    "unat total_units = length (utf16 ?doc)"
    using init_state_document [OF assms(1)] by (auto simp: blocks_Suc short_block_def)
  have "stream_take cp n (PumpInit (Some 1024)) = stream_take cp n (Pumping oid total_units 0 1024 0)"
    using init by (simp add: n split_beta)
  also have "\<dots> = (guard_drop oid, replicate MAX_CHUNKS (Inr (utf8 short_block)))"
    using assms init(2) by (intro stream_of_blocks) (simp_all add: holds_document_def length_blocks)
  finally show ?thesis by (simp add: content_bytes_stream_def clamp_chunk_units_def content_bounds)
qed

end
