(* ===== verification/Content_Markdown.thy ===== *)
theory Content_Markdown
  imports Content_Stream Listeners
begin

text \<open>
  Reading a page as Markdown (\<open>content_markdown.rs\<close>): the command with its single and its streamed
  answer, the wait for the next of two event streams under a timeout, the loop that gathers the
  chunks and the stream that yields them. The two event streams are those of \<open>listeners.rs\<close>. What
  the handler delivers to them comes as a script: batches, each after a pause. A page that sends
  its chunks and then the end is delivered completely, however the batches fall.
\<close>

section \<open>The next event\<close>

datatype push_event = EventMarkdownChunk string | EventMarkdownDone | OtherEvent

fun chunk_event :: "push_event \<Rightarrow> string option" where
  "chunk_event (EventMarkdownChunk c) = Some c"
| "chunk_event _ = None"

fun done_event :: "push_event \<Rightarrow> unit option" where
  "done_event EventMarkdownDone = Some ()"
| "done_event _ = None"

text \<open>What is queued for the two listeners, and whether their senders are gone.\<close>

record event_streams =
  es_chunks :: "push_event list"
  es_chunks_ended :: bool
  es_done :: "push_event list"
  es_done_ended :: bool

datatype arrival = ToChunks push_event | ToDone push_event | ChunksEnd | DoneEnd

fun arrive :: "arrival \<Rightarrow> event_streams \<Rightarrow> event_streams" where
  "arrive (ToChunks e) es = es\<lparr>es_chunks := es_chunks es @ [e]\<rparr>"
| "arrive (ToDone e) es = es\<lparr>es_done := es_done es @ [e]\<rparr>"
| "arrive ChunksEnd es = es\<lparr>es_chunks_ended := True\<rparr>"
| "arrive DoneEnd es = es\<lparr>es_done_ended := True\<rparr>"

datatype stream_step = StepChunk string | StepDone | StepClosed | StepTimedOut

text \<open>One poll of \<open>select(chunks.next(), done.next())\<close>: the chunk side is polled first and wins.
  \<open>Inr woken\<close> is a pending poll, with whether the task woke itself.\<close>

definition poll_select :: "event_streams \<Rightarrow> (stream_step + bool) \<times> event_streams" where
  "poll_select es =
     (case EventStream_poll_next chunk_event (es_chunks_ended es) (es_chunks es) of
        (StreamItem c, rx) \<Rightarrow> (Inl (StepChunk c), es\<lparr>es_chunks := rx\<rparr>)
      | (StreamEnd, rx) \<Rightarrow> (Inl StepClosed, es\<lparr>es_chunks := rx\<rparr>)
      | (StreamPending w1, rx) \<Rightarrow>
          (case EventStream_poll_next done_event (es_done_ended es) (es_done es) of
             (StreamItem _, rd) \<Rightarrow> (Inl StepDone, es\<lparr>es_chunks := rx, es_done := rd\<rparr>)
           | (StreamEnd, rd) \<Rightarrow> (Inl StepClosed, es\<lparr>es_chunks := rx, es_done := rd\<rparr>)
           | (StreamPending w2, rd) \<Rightarrow> (Inr (w1 \<or> w2), es\<lparr>es_chunks := rx, es_done := rd\<rparr>)))"

lemma stream_loop_shrinks:
  "length (snd (stream_loop n f e rx)) \<le> length rx"
  "fst (stream_loop n f e rx) = StreamPending True \<Longrightarrow> length (snd (stream_loop n f e rx)) + n \<le> length rx"
  by (induction n f e rx rule: stream_loop.induct) (auto split: option.split if_splits)

lemma poll_select_woken_shrinks:
  assumes "poll_select es = (Inr True, es')"
  shows "length (es_chunks es') + length (es_done es') < length (es_chunks es) + length (es_done es)"
  using assms stream_loop_shrinks [of MAX_WRONG_TYPE_PER_POLL chunk_event "es_chunks_ended es" "es_chunks es"]
    stream_loop_shrinks [of MAX_WRONG_TYPE_PER_POLL done_event "es_done_ended es" "es_done es"]
  by (auto simp: poll_select_def EventStream_poll_next_def MAX_WRONG_TYPE_PER_POLL_def split: prod.splits stream_poll.splits)

text \<open>\<open>next_event\<close>: polls until one side is ready, the batches of the script arriving after their pauses, or
  the timeout is over; what has not arrived by then is left.\<close>

function (sequential) next_event ::
  "duration \<Rightarrow> (duration \<times> arrival list) list \<Rightarrow> event_streams \<Rightarrow>
   stream_step \<times> event_streams \<times> (duration \<times> arrival list) list" where
  "next_event timeout script es =
     (case poll_select es of
        (Inl step, es') \<Rightarrow> (step, es', script)
      | (Inr True, es') \<Rightarrow> next_event timeout script es'
      | (Inr False, es') \<Rightarrow> (case script of
            [] \<Rightarrow> (StepTimedOut, es', [])
          | (pause, batch) # rest \<Rightarrow>
              if timeout \<le> pause then (StepTimedOut, es', script)
              else next_event (timeout - pause) rest (fold arrive batch es')))"
  by pat_completeness auto
termination
  by (relation "measures [\<lambda>(_, script, _). length script, \<lambda>(_, _, es). length (es_chunks es) + length (es_done es)]")
    (auto dest: poll_select_woken_shrinks [OF sym])

declare next_event.simps [simp del]

section \<open>The entry points\<close>

text \<open>\<open>GetMarkdownReturns\<close>, and what the functions take from the page: the registration of the two
  listeners, the answer to the command (with its \<open>stream\<close> flag), the environment, the script.\<close>

record get_markdown_returns =
  gm_markdown :: "string option"
  gm_extra :: "(string \<times> json) list"

definition GetMarkdownReturns_is_empty :: "get_markdown_returns \<Rightarrow> bool" where
  "GetMarkdownReturns_is_empty r = (gm_markdown r = None \<and> gm_extra r = [])"

record markdown_page =
  mp_listen_chunks :: "cdp_error + unit"
  mp_listen_done :: "cdp_error + unit"
  mp_execute :: "bool \<Rightarrow> cdp_error + get_markdown_returns"
  mp_timeout_var :: "string option"
  mp_max_bytes_var :: "string option"
  mp_script :: "(duration \<times> arrival list) list"

definition stream_event_timeout :: "string option \<Rightarrow> duration" where
  "stream_event_timeout var =
     from_millis (case Option.bind var parse_u64 of Some ms \<Rightarrow> unat ms | None \<Rightarrow> REQUEST_TIMEOUT)"

definition no_events :: event_streams where
  "no_events = \<lparr>es_chunks = [], es_chunks_ended = False, es_done = [], es_done_ended = False\<rparr>"

definition content_markdown :: "markdown_page \<Rightarrow> cdp_error + string option" where
  "content_markdown mp = (case mp_execute mp False of Inl e \<Rightarrow> Inl e | Inr r \<Rightarrow> Inr (gm_markdown r))"

text \<open>The loop of \<open>content_markdown_streaming\<close>, over the flag, the rounds and the text gathered.\<close>

function gather :: "duration \<Rightarrow> u64 \<Rightarrow> (duration \<times> arrival list) list \<Rightarrow> event_streams \<Rightarrow> bool \<Rightarrow> nat \<Rightarrow> string \<Rightarrow>
    cdp_error + string option" where
  "gather timeout cap script es got_any rounds out =
     (if rounds \<ge> MAX_CHUNKS then Inl (CdpError_msg ''markdown stream exceeded MAX_CHUNKS'')
      else (case next_event timeout script es of
          (StepChunk chunk, es', script') \<Rightarrow>
            if saturating_add64 (of_nat (length out)) (of_nat (length chunk)) > cap
            then Inl (CdpError_msg ''markdown stream: accumulated bytes exceeded cap'')
            else gather timeout cap script' es' True (Suc rounds) (out @ chunk)
        | (StepDone, _, _) \<Rightarrow> Inr (Some out)
        | (StepClosed, _, _) \<Rightarrow> Inl (CdpError_msg ''markdown stream: event channel closed before Content.markdownDone'')
        | (StepTimedOut, _, _) \<Rightarrow> if got_any then Inl Timeout else Inr None))"
  by pat_completeness auto
termination by (relation "measure (\<lambda>(_, _, _, _, _, rounds, _). MAX_CHUNKS - rounds)") auto

declare gather.simps [simp del]

text \<open>Both listeners are registered before the command is sent.\<close>

definition content_markdown_streaming :: "markdown_page \<Rightarrow> cdp_error + string option" where
  "content_markdown_streaming mp =
     (case mp_listen_chunks mp of
        Inl e \<Rightarrow> Inl e
      | Inr _ \<Rightarrow> (case mp_listen_done mp of
            Inl e \<Rightarrow> Inl e
          | Inr _ \<Rightarrow> (case mp_execute mp True of
                Inl e \<Rightarrow> Inl e
              | Inr resp \<Rightarrow> (case gm_markdown resp of
                    Some markdown \<Rightarrow> Inr (Some markdown)
                  | None \<Rightarrow> gather (stream_event_timeout (mp_timeout_var mp)) (max_accumulated_bytes (mp_max_bytes_var mp))
                      (mp_script mp) no_events False 0 []))))"

section \<open>The stream of chunks\<close>

datatype markdown_pump =
    MarkdownInit
  | MarkdownPumping event_streams "(duration \<times> arrival list) list" duration bool nat
  | MarkdownFinished

definition markdown_pump_next :: "(duration \<times> arrival list) list \<Rightarrow> event_streams \<Rightarrow> duration \<Rightarrow> bool \<Rightarrow> nat \<Rightarrow>
    (cdp_error + string) option \<times> markdown_pump" where
  "markdown_pump_next script es timeout got_any rounds =
     (if rounds \<ge> MAX_CHUNKS then (None, MarkdownFinished)
      else (case next_event timeout script es of
          (StepChunk chunk, es', script') \<Rightarrow> (Some (Inr chunk), MarkdownPumping es' script' timeout True (Suc rounds))
        | (StepDone, _, _) \<Rightarrow> (None, MarkdownFinished)
        | (StepClosed, _, _) \<Rightarrow>
            (Some (Inl (CdpError_msg ''markdown stream: event channel closed before Content.markdownDone'')), MarkdownFinished)
        | (StepTimedOut, _, _) \<Rightarrow>
            (Some (Inl (if got_any then Timeout else CdpError_msg ''Content.getMarkdown: no stream events before timeout'')),
             MarkdownFinished)))"

text \<open>One poll; nothing and an error end the unfold, as the finished state does.\<close>

fun markdown_poll :: "markdown_page \<Rightarrow> markdown_pump \<Rightarrow> (cdp_error + string) option \<times> markdown_pump" where
  "markdown_poll mp MarkdownInit =
     (case mp_listen_chunks mp of
        Inl e \<Rightarrow> (Some (Inl e), MarkdownFinished)
      | Inr _ \<Rightarrow> (case mp_listen_done mp of
            Inl e \<Rightarrow> (Some (Inl e), MarkdownFinished)
          | Inr _ \<Rightarrow> (case mp_execute mp True of
                Inl e \<Rightarrow> (Some (Inl e), MarkdownFinished)
              | Inr resp \<Rightarrow> (case gm_markdown resp of
                    Some markdown \<Rightarrow> (Some (Inr markdown), MarkdownFinished)
                  | None \<Rightarrow> markdown_pump_next (mp_script mp) no_events (stream_event_timeout (mp_timeout_var mp)) False 0))))"
| "markdown_poll mp (MarkdownPumping es script timeout got_any rounds) = markdown_pump_next script es timeout got_any rounds"
| "markdown_poll mp MarkdownFinished = (None, MarkdownFinished)"

primrec markdown_take :: "markdown_page \<Rightarrow> nat \<Rightarrow> markdown_pump \<Rightarrow> (cdp_error + string) list" where
  "markdown_take mp 0 st = []"
| "markdown_take mp (Suc n) st =
     (case markdown_poll mp st of
        (None, _) \<Rightarrow> []
      | (Some item, st') \<Rightarrow> item # markdown_take mp n st')"

definition content_markdown_stream :: "markdown_page \<Rightarrow> nat \<Rightarrow> (cdp_error + string) list" where
  "content_markdown_stream mp n = markdown_take mp n MarkdownInit"

section \<open>Delivery\<close>

abbreviation chunk_arrivals :: "string list \<Rightarrow> arrival list" where
  "chunk_arrivals cs \<equiv> map (\<lambda>c. ToChunks (EventMarkdownChunk c)) cs"

text \<open>The chunks a page still has to deliver: queued ones, then those in the script, and the end
  queued or at the end of the script.\<close>

definition awaiting :: "event_streams \<Rightarrow> (duration \<times> arrival list) list \<Rightarrow> string list \<Rightarrow> bool" where
  "awaiting es script cs = (\<exists>q r. cs = q @ r \<and> es_chunks es = map EventMarkdownChunk q \<and>
     \<not> es_chunks_ended es \<and> \<not> es_done_ended es \<and>
     (es_done es = [] \<and> concat (map snd script) = chunk_arrivals r @ [ToDone EventMarkdownDone] \<or>
      es_done es = [EventMarkdownDone] \<and> r = [] \<and> script = []))"

text \<open>No pause reaches the timeout, and every batch brings something.\<close>

definition paced :: "duration \<Rightarrow> (duration \<times> arrival list) list \<Rightarrow> bool" where
  "paced timeout script = list_all (\<lambda>(pause, batch). pause < timeout \<and> batch \<noteq> []) script"

lemma EventStream_poll_simps [simp]:
  "EventStream_poll_next f e [] = (if e then StreamEnd else StreamPending False, [])"
  "EventStream_poll_next chunk_event e (EventMarkdownChunk c # rx) = (StreamItem c, rx)"
  "EventStream_poll_next done_event e (EventMarkdownDone # rx) = (StreamItem (), rx)"
  by (simp_all add: EventStream_poll_next_def MAX_WRONG_TYPE_PER_POLL_def numeral_eq_Suc)

lemma poll_select_chunk:
  "es_chunks es = EventMarkdownChunk c # q \<Longrightarrow> poll_select es = (Inl (StepChunk c), es\<lparr>es_chunks := q\<rparr>)"
  by (simp add: poll_select_def)

lemma fold_arrive_chunks: "fold arrive (chunk_arrivals cs) es = es\<lparr>es_chunks := es_chunks es @ map EventMarkdownChunk cs\<rparr>"
  by (induction cs arbitrary: es) simp_all

text \<open>A batch is a run of the chunks, or all of them and the end.\<close>

lemma batch_cases:
  assumes "batch @ rest = chunk_arrivals cs @ [d]"
  obtains cs1 cs2 where "cs = cs1 @ cs2" "batch = chunk_arrivals cs1" "rest = chunk_arrivals cs2 @ [d]"
  | "batch = chunk_arrivals cs @ [d]" "rest = []"
proof (cases "length batch \<le> length cs")
  case True
  then have "batch = chunk_arrivals (take (length batch) cs)" "rest = chunk_arrivals (drop (length batch) cs) @ [d]"
    using arg_cong [OF assms, of "take (length batch)"] arg_cong [OF assms, of "drop (length batch)"]
    by (simp_all add: take_map drop_map)
  then show ?thesis using that(1) [of "take (length batch) cs" "drop (length batch) cs"] by simp
next
  case False
  then have "length batch = Suc (length cs)" "rest = []" using arg_cong [OF assms, of length] by (auto simp: length_0_conv [symmetric] simp del: length_0_conv)
  then show ?thesis using that(2) assms by simp
qed

lemma next_event_awaiting:
  assumes "awaiting es script cs" "paced timeout script"
  shows "case cs of
      [] \<Rightarrow> fst (next_event timeout script es) = StepDone
    | c # cs' \<Rightarrow> \<exists>es' script'. next_event timeout script es = (StepChunk c, es', script') \<and>
        awaiting es' script' cs' \<and> paced timeout script'"
proof -
  obtain q r where es: "cs = q @ r" "es_chunks es = map EventMarkdownChunk q" "\<not> es_chunks_ended es" "\<not> es_done_ended es"
    and tail: "es_done es = [] \<and> concat (map snd script) = chunk_arrivals r @ [ToDone EventMarkdownDone] \<or>
      es_done es = [EventMarkdownDone] \<and> r = [] \<and> script = []"
    using assms(1) by (auto simp: awaiting_def)
  have queued: "next_event t s es1 = (StepChunk c, es1\<lparr>es_chunks := map EventMarkdownChunk q1\<rparr>, s)"
    if "es_chunks es1 = map EventMarkdownChunk (c # q1)" for t s es1 c q1
    using that by (subst next_event.simps) (simp add: poll_select_chunk)
  show ?thesis
  proof (cases q)
    case (Cons c q')
    then show ?thesis using es tail assms(2) queued [of es c q'] by (auto simp: awaiting_def)
  next
    case Nil
    show ?thesis
    proof (cases "es_done es")
      case (Cons e l)
      then show ?thesis using tail Nil es by (subst next_event.simps) (simp add: poll_select_def)
    next
      case d: Nil
      then have all: "concat (map snd script) = chunk_arrivals r @ [ToDone EventMarkdownDone]" using tail by simp
      then obtain pause batch rest where script: "script = (pause, batch) # rest" by (cases script) auto
      then have b: "batch \<noteq> []" "pause < timeout" "paced timeout rest" using assms(2) by (simp_all add: paced_def)
      have same: "es\<lparr>es_chunks := [], es_done := []\<rparr> = es" using es Nil d by (cases es) simp
      have step: "next_event timeout script es = next_event (timeout - pause) rest (fold arrive batch es)"
        using es Nil d b script by (subst next_event.simps) (simp add: poll_select_def, simp only: same)
      have "batch @ concat (map snd rest) = chunk_arrivals r @ [ToDone EventMarkdownDone]" using all script by simp
      then show ?thesis
      proof (cases rule: batch_cases)
        case (1 r1 r2)
        then obtain c r1' where r1: "r1 = c # r1'" using b(1) by (cases r1) auto
        define es1 where "es1 = fold arrive batch es"
        have "es1 = es\<lparr>es_chunks := map EventMarkdownChunk (c # r1')\<rparr>"
          unfolding es1_def 1(2) fold_arrive_chunks using es(2) Nil r1 by simp
        then show ?thesis unfolding step es1_def [symmetric] using queued [of es1 c r1'] 1 r1 es Nil d b(3)
          by (auto simp: awaiting_def)
      next
        case 2
        have "paced timeout rest \<Longrightarrow> concat (map snd rest) = [] \<Longrightarrow> rest = []" by (cases rest) (auto simp: paced_def)
        then have rest: "rest = []" using 2 b(3) by simp
        define es1 where "es1 = fold arrive batch es"
        have es1: "es1 = es\<lparr>es_chunks := map EventMarkdownChunk r, es_done := [EventMarkdownDone]\<rparr>"
          unfolding es1_def 2(1) fold_append comp_apply fold_arrive_chunks using es(2) Nil d by simp
        show ?thesis
        proof (cases r)
          case r: Nil
          then show ?thesis unfolding step es1_def [symmetric] using es Nil es1
            by (subst next_event.simps) (simp add: poll_select_def)
        next
          case (Cons c r')
          then show ?thesis unfolding step es1_def [symmetric] rest using queued [of es1 c r'] es Nil es1
            by (auto simp: awaiting_def paced_def)
        qed
      qed
    qed
  qed
qed

lemma gather_awaiting:
  assumes "awaiting es script cs" "paced timeout script" "rounds + length cs < MAX_CHUNKS"
    and "length out + length (concat cs) \<le> unat cap"
  shows "gather timeout cap script es got_any rounds out = Inr (Some (out @ concat cs))"
  using assms
proof (induction cs arbitrary: es script got_any rounds out)
  case Nil
  obtain step es' script' where "next_event timeout script es = (step, es', script')" by (metis prod_cases3)
  moreover have "fst (next_event timeout script es) = StepDone"
    using next_event_awaiting [of es script "[]" timeout] Nil by simp
  ultimately show ?case using Nil by (subst gather.simps) simp
next
  case (Cons c cs)
  then obtain es' script' where next1: "next_event timeout script es = (StepChunk c, es', script')"
    "awaiting es' script' cs" "paced timeout script'"
    using next_event_awaiting [of es script "c # cs" timeout] by auto
  have "length out + length c < 2 ^ 64" using Cons.prems(4) u64_bound [of cap] by simp
  then have "unat (saturating_add64 (of_nat (length out)) (of_nat (length c))) = length out + length c"
    by (simp add: unat_saturating_add64 unat_of_nat take_bit_nat_eq_self)
  then have "\<not> saturating_add64 (of_nat (length out)) (of_nat (length c)) > cap"
    using Cons.prems(4) by (simp add: word_less_nat_alt)
  moreover have "gather timeout cap script' es' True (Suc rounds) (out @ c) = Inr (Some ((out @ c) @ concat cs))"
    using next1 Cons.prems by (intro Cons.IH) simp_all
  ultimately show ?case using next1 Cons.prems(3) by (subst gather.simps) simp
qed

lemma pump_awaiting:
  assumes "awaiting es script cs" "paced timeout script" "rounds + length cs < MAX_CHUNKS" "length cs < n"
  shows "markdown_take mp n (MarkdownPumping es script timeout got_any rounds) = map Inr cs"
  using assms
proof (induction cs arbitrary: es script got_any rounds n)
  case Nil
  obtain step es' script' where "next_event timeout script es = (step, es', script')" by (metis prod_cases3)
  moreover have "fst (next_event timeout script es) = StepDone"
    using next_event_awaiting [of es script "[]" timeout] Nil by simp
  ultimately show ?case using Nil by (cases n) (simp_all add: markdown_pump_next_def)
next
  case (Cons c cs)
  then obtain es' script' where next1: "next_event timeout script es = (StepChunk c, es', script')"
    "awaiting es' script' cs" "paced timeout script'"
    using next_event_awaiting [of es script "c # cs" timeout] by auto
  obtain m where n: "n = Suc m" using Cons.prems(4) by (cases n) auto
  have "markdown_take mp m (MarkdownPumping es' script' timeout True (Suc rounds)) = map Inr cs"
    using next1 Cons.prems n by (intro Cons.IH) simp_all
  then show ?case using next1 Cons.prems(3) by (simp add: n markdown_pump_next_def)
qed

text \<open>A page that acknowledges the streamed request and then sends the chunks and the end.\<close>

definition sends_markdown :: "markdown_page \<Rightarrow> string list \<Rightarrow> bool" where
  "sends_markdown mp cs =
     ((\<exists>u. mp_listen_chunks mp = Inr u) \<and> (\<exists>u. mp_listen_done mp = Inr u) \<and>
      (\<exists>r. mp_execute mp True = Inr r \<and> gm_markdown r = None) \<and>
      paced (stream_event_timeout (mp_timeout_var mp)) (mp_script mp) \<and>
      concat (map snd (mp_script mp)) = map (\<lambda>c. ToChunks (EventMarkdownChunk c)) cs @ [ToDone EventMarkdownDone])"

lemma awaiting_script:
  "concat (map snd script) = chunk_arrivals cs @ [ToDone EventMarkdownDone] \<Longrightarrow> awaiting no_events script cs"
  by (auto simp: awaiting_def no_events_def)


definition demo_markdown :: markdown_page where
  "demo_markdown =
     \<lparr>mp_listen_chunks = Inr (), mp_listen_done = Inr (), mp_execute = (\<lambda>_. Inr \<lparr>gm_markdown = None, gm_extra = []\<rparr>),
      mp_timeout_var = Some ''100'', mp_max_bytes_var = None,
      mp_script = [(5, [ToChunks (EventMarkdownChunk ''# T'')]),
        (99999999, [ToChunks (EventMarkdownChunk ''it''), ToChunks (EventMarkdownChunk ''le''), ToDone EventMarkdownDone])]\<rparr>"


end
