(* ===== verification/Pdl_Types.thy ===== *)
theory Pdl_Types
  imports Text
begin

text \<open>
  The protocol descriptions of \<open>src/pdl/src/pdl/mod.rs\<close>: domains with their types, commands and
  events, and the table of types that are boxed when they are generated (\<open>src/pdl/src/pdl/dep.rs\<close>).
\<close>

section \<open>The description of a protocol\<close>

record variant =
  va_description :: "string option"
  va_name :: string

definition Variant_new :: "string \<Rightarrow> variant" where
  "Variant_new n = \<lparr>va_description = None, va_name = n\<rparr>"

datatype pdl_type =
    TyInteger
  | TyNumber
  | TyBoolean
  | TyString
  | TyObject
  | TyAny
  | TyBinary
  | TyEnum "variant list"
  | TyArrayOf pdl_type
  | TyRef string

definition simple_type :: "string \<Rightarrow> pdl_type" where
  "simple_type ty =
     (if ty = ''enum'' then TyEnum []
      else if ty = ''integer'' then TyInteger
      else if ty = ''number'' then TyNumber
      else if ty = ''boolean'' then TyBoolean
      else if ty = ''string'' then TyString
      else if ty = ''object'' then TyObject
      else if ty = ''any'' then TyAny
      else if ty = ''binary'' then TyBinary
      else TyRef ty)"

definition Type_new :: "string \<Rightarrow> bool \<Rightarrow> pdl_type" where
  "Type_new ty is_array = (if is_array then TyArrayOf (simple_type ty) else simple_type ty)"

record param =
  pa_description :: "string option"
  pa_experimental :: bool
  pa_deprecated :: bool
  pa_optional :: bool
  pa_type :: pdl_type
  pa_name :: string
  pa_raw_name :: string
  pa_is_circular_dep :: bool

datatype item = ItemEnum "variant list" | ItemProperties "param list"

record type_def =
  td_description :: "string option"
  td_experimental :: bool
  td_deprecated :: bool
  td_name :: string
  td_extends :: pdl_type
  td_item :: "item option"
  td_raw_name :: string
  td_is_circular_dep :: bool

record redirect =
  re_description :: "string option"
  re_domain :: string
  re_name :: "string option"

record pdl_command =
  pc_description :: "string option"
  pc_experimental :: bool
  pc_deprecated :: bool
  pc_name :: string
  pc_redirect :: "redirect option"
  pc_parameters :: "param list"
  pc_returns :: "param list"
  pc_raw_name :: string
  pc_is_circular_dep :: bool

record pdl_event =
  pe_description :: "string option"
  pe_experimental :: bool
  pe_deprecated :: bool
  pe_name :: string
  pe_parameters :: "param list"
  pe_raw_name :: string
  pe_is_circular_dep :: bool

record domain =
  do_description :: "string option"
  do_experimental :: bool
  do_deprecated :: bool
  do_name :: string
  do_dependencies :: "string list"
  do_types :: "type_def list"
  do_commands :: "pdl_command list"
  do_events :: "pdl_event list"

record version =
  ve_major :: u64
  ve_minor :: u64

definition Version_default :: version where
  "Version_default = \<lparr>ve_major = 0, ve_minor = 0\<rparr>"

record protocol =
  pr_description :: "string option"
  pr_version :: version
  pr_domains :: "domain list"

definition Protocol_default :: protocol where
  "Protocol_default = \<lparr>pr_description = None, pr_version = Version_default, pr_domains = []\<rparr>"

section \<open>Circular types\<close>

definition CIRCULAR_DEPS :: "string list" where
  "CIRCULAR_DEPS = [''browser.browsercontextid'', ''dom.backendnodeid'', ''dom.backendnode'', ''dom.nodeid'',
     ''dom.node'', ''dom.nodetype'', ''dom.pseudotype'', ''dom.rgba'', ''dom.shadowroottype'', ''network.loaderid'',
     ''network.monotonictime'', ''network.timesinceepoch'', ''page.frameid'', ''page.frame'']"

definition is_circular_dep :: "string \<Rightarrow> string \<Rightarrow> bool" where
  "is_circular_dep dty ty_str = (ascii_lower dty @ ''.'' @ ascii_lower ty_str \<in> set CIRCULAR_DEPS)"

end
