(* ===== verification/Pdl_Parser.thy ===== *)
theory Pdl_Parser
  imports Pdl_Types
begin

text \<open>
  The parser of protocol descriptions, \<open>parse_pdl\<close> of \<open>src/pdl/src/pdl/parser.rs\<close>: one step per line
  over a state of pending description, element and member. First the regular expressions it uses,
  as patterns with the leftmost, greedy, backtracking semantics of the \<open>regex\<close> crate.
\<close>

section \<open>Patterns\<close>

text \<open>Every expression of the parser is anchored at the start and is a sequence of these: a literal, an
  optional group of a literal, a group of alternatives, a greedy group of at least so many characters
  of a class, and the end of the text.\<close>

datatype pattern_item =
    Lit string
  | Maybe string
  | OneOf "string list"
  | Span "char \<Rightarrow> bool" nat
  | AtEnd

type_synonym captures = "string option list"

fun first_some :: "('a \<Rightarrow> 'b option) \<Rightarrow> 'a list \<Rightarrow> 'b option" where
  "first_some f [] = None"
| "first_some f (x # xs) = (case f x of Some y \<Rightarrow> Some y | None \<Rightarrow> first_some f xs)"

text \<open>The groups of the first match, in the order in which a backtracking matcher tries: an optional group
  first with its literal, a greedy group first as long as it can be.\<close>

fun captures :: "pattern_item list \<Rightarrow> string \<Rightarrow> captures option" where
  "captures [] s = Some []"
| "captures (Lit w # p) s = Option.bind (strip_prefix w s) (captures p)"
| "captures (Maybe w # p) s =
     (case Option.bind (strip_prefix w s) (captures p) of
        Some cs \<Rightarrow> Some (Some w # cs)
      | None \<Rightarrow> map_option ((#) None) (captures p s))"
| "captures (OneOf ws # p) s =
     first_some (\<lambda>w. map_option ((#) (Some w)) (Option.bind (strip_prefix w s) (captures p))) ws"
| "captures (Span P m # p) s =
     first_some (\<lambda>n. map_option ((#) (Some (take n s))) (captures p (drop n s)))
       (rev [m ..< Suc (length (takeWhile P s))])"
| "captures (AtEnd # p) s = (if s = [] then captures p s else None)"

definition newline :: char where
  "newline = CHR 0x0A"

definition any_char :: "char \<Rightarrow> bool" where
  "any_char c = (c \<noteq> newline)"

definition non_space :: "char \<Rightarrow> bool" where
  "non_space c = (\<not> is_space c)"

definition domain_re :: "pattern_item list" where
  "domain_re = [Maybe ''experimental '', Maybe ''deprecated '', Lit ''domain '', Span any_char 0]"

definition depends_re :: "pattern_item list" where
  "depends_re = [Lit ''  depends on '', Span non_space 1]"

definition type_re :: "pattern_item list" where
  "type_re = [Lit ''  '', Maybe ''experimental '', Maybe ''deprecated '', Lit ''type '', Span any_char 0,
     Lit '' extends '', Maybe ''array of '', Span non_space 1]"

definition item_re :: "pattern_item list" where
  "item_re = [Lit ''  '', Maybe ''experimental '', Maybe ''deprecated '', OneOf [''command'', ''event''],
     Lit '' '', Span any_char 0]"

definition member_re :: "pattern_item list" where
  "member_re = [Lit ''      '', Maybe ''experimental '', Maybe ''deprecated '', Maybe ''optional '', Maybe ''array of '',
     Span non_space 1, Lit '' '', Span non_space 1]"

definition section_re :: "pattern_item list" where
  "section_re = [Lit ''    '', OneOf [''parameters'', ''returns'', ''properties'']]"

definition major_re :: "pattern_item list" where
  "major_re = [Lit ''  major '', Span is_ascii_digit 1]"

definition minor_re :: "pattern_item list" where
  "minor_re = [Lit ''  minor '', Span is_ascii_digit 1]"

definition redirect_re :: "pattern_item list" where
  "redirect_re = [Lit ''    redirect '', Span non_space 1]"

definition use_re :: "pattern_item list" where
  "use_re = [Lit ''Use '', Lit [CHR 0x27], Span (\<lambda>c. c \<noteq> CHR 0x27) 1, Lit [CHR 0x27], Lit '' instead'', AtEnd]"

definition literal_re :: "pattern_item list" where
  "literal_re = [Lit ''      '', Maybe ''  '', Span (\<lambda>c. c \<noteq> newline \<and> c \<noteq> CHR 0x09) 1, AtEnd]"

lemmas pattern_defs = domain_re_def depends_re_def type_re_def item_re_def member_re_def section_re_def major_re_def minor_re_def
  redirect_re_def literal_re_def

section \<open>The state of the parser\<close>

datatype member =
    MemberParameters "param list"
  | MemberReturns "param list"
  | MemberProperties "param list"

datatype element =
    ElementType type_def
  | ElementCommand pdl_command
  | ElementEvent pdl_event

text \<open>The errors with the line and the text they name; \<open>PdlPanic\<close> is the failed \<open>unwrap\<close> of a number.\<close>

datatype pdl_error =
    MissingDomain nat
  | NoMemberSection nat string
  | NoParentItem nat
  | EnumNotAllowed nat
  | VersionNotDeclared nat
  | MissingItem nat
  | RedirectNotAllowed nat
  | MissingMember nat
  | MissingParameter nat
  | MissingEnum nat
  | UnknownToken nat string
  | AdditionalProperties string
  | InvalidMember
  | MissingVersion
  | PdlPanic nat

record parser =
  ps_protocol :: protocol
  ps_description :: "string option"
  ps_version :: "version option"
  ps_element :: "element option"
  ps_member :: "member option"
  ps_member_enum :: bool

definition parser_new :: parser where
  "parser_new = \<lparr>ps_protocol = Protocol_default, ps_description = None, ps_version = None, ps_element = None,
     ps_member = None, ps_member_enum = False\<rparr>"

fun bind_result :: "'e + 'a \<Rightarrow> ('a \<Rightarrow> 'e + 'b) \<Rightarrow> 'e + 'b" where
  "bind_result (Inl e) f = Inl e"
| "bind_result (Inr x) f = f x"

lemma bind_result_Inr: "bind_result r f = Inr y \<longleftrightarrow> (\<exists>x. r = Inr x \<and> f x = Inr y)"
  by (cases r) simp_all

lemma bind_result_Inl: "bind_result r f = Inl e \<longleftrightarrow> r = Inl e \<or> (\<exists>x. r = Inr x \<and> f x = Inl e)"
  by (cases r) simp_all

fun consume :: "element \<Rightarrow> domain \<Rightarrow> domain" where
  "consume (ElementType ty) d = d\<lparr>do_types := do_types d @ [ty]\<rparr>"
| "consume (ElementCommand cmd) d = d\<lparr>do_commands := do_commands d @ [cmd]\<rparr>"
| "consume (ElementEvent ev) d = d\<lparr>do_events := do_events d @ [ev]\<rparr>"

fun add_member :: "member \<Rightarrow> element \<Rightarrow> pdl_error + element" where
  "add_member (MemberParameters params) (ElementCommand cmd) = Inr (ElementCommand (cmd\<lparr>pc_parameters := params\<rparr>))"
| "add_member (MemberParameters params) (ElementEvent ev) = Inr (ElementEvent (ev\<lparr>pe_parameters := params\<rparr>))"
| "add_member (MemberReturns params) (ElementCommand cmd) = Inr (ElementCommand (cmd\<lparr>pc_returns := params\<rparr>))"
| "add_member (MemberProperties params) (ElementType ty) =
     (if td_item ty \<noteq> None then Inl (AdditionalProperties (td_name ty))
      else Inr (ElementType (ty\<lparr>td_item := Some (ItemProperties params)\<rparr>)))"
| "add_member _ _ = Inl InvalidMember"

text \<open>The element and its member are taken and go into the domain.\<close>

definition close_element :: "domain \<Rightarrow> parser \<Rightarrow> pdl_error + (domain \<times> parser)" where
  "close_element d ps =
     (case ps_element ps of
        None \<Rightarrow> Inr (d, ps)
      | Some el \<Rightarrow>
          bind_result (case ps_member ps of None \<Rightarrow> Inr el | Some m \<Rightarrow> add_member m el)
            (\<lambda>el. Inr (consume el d, ps\<lparr>ps_element := None, ps_member := None\<rparr>)))"

definition last_domain :: "parser \<Rightarrow> domain option" where
  "last_domain ps = (case rev (pr_domains (ps_protocol ps)) of [] \<Rightarrow> None | d # _ \<Rightarrow> Some d)"

definition set_domains :: "domain list \<Rightarrow> parser \<Rightarrow> parser" where
  "set_domains ds ps = ps\<lparr>ps_protocol := (ps_protocol ps)\<lparr>pr_domains := ds\<rparr>\<rparr>"

definition set_last :: "domain \<Rightarrow> parser \<Rightarrow> parser" where
  "set_last d ps = set_domains (butlast (pr_domains (ps_protocol ps)) @ [d]) ps"

text \<open>What happens to the last domain at the next domain, at the next element and at the end.\<close>

definition close_last :: "parser \<Rightarrow> pdl_error + parser" where
  "close_last ps =
     (case last_domain ps of
        None \<Rightarrow> Inr ps
      | Some d \<Rightarrow> bind_result (close_element d ps) (\<lambda>(d, ps). Inr (set_last d ps)))"

definition captured :: "captures \<Rightarrow> nat \<Rightarrow> string" where
  "captured cs n = (case cs ! n of Some s \<Rightarrow> s | None \<Rightarrow> [])"

definition has_group :: "captures \<Rightarrow> nat \<Rightarrow> bool" where
  "has_group cs n = (cs ! n \<noteq> None)"

definition raw_name :: "string \<Rightarrow> string \<Rightarrow> string" where
  "raw_name d n = d @ ''.'' @ n"

definition take_description :: "parser \<Rightarrow> string option \<times> parser" where
  "take_description ps = (ps_description ps, ps\<lparr>ps_description := None\<rparr>)"

section \<open>The kinds of lines\<close>

text \<open>\<open>nr\<close> is the number of the line, \<open>cs\<close> what the groups of its pattern matched.\<close>

definition comment_line :: "string \<Rightarrow> parser \<Rightarrow> parser" where
  "comment_line trim_line ps =
     (let desc = dropWhile is_space (drop 1 trim_line) in
      ps\<lparr>ps_description := Some (case ps_description ps of None \<Rightarrow> desc | Some d \<Rightarrow> d @ newline # desc)\<rparr>)"

definition domain_line :: "captures \<Rightarrow> parser \<Rightarrow> pdl_error + parser" where
  "domain_line cs ps =
     bind_result (close_last ps) (\<lambda>ps.
       let (desc, ps) = take_description ps;
           d = \<lparr>do_description = desc, do_experimental = has_group cs 0, do_deprecated = has_group cs 1, do_name = captured cs 2,
             do_dependencies = [], do_types = [], do_commands = [], do_events = []\<rparr>
       in Inr (set_domains (pr_domains (ps_protocol ps) @ [d]) ps))"

definition depends_line :: "nat \<Rightarrow> captures \<Rightarrow> parser \<Rightarrow> pdl_error + parser" where
  "depends_line nr cs ps =
     (case last_domain ps of
        None \<Rightarrow> Inl (MissingDomain nr)
      | Some d \<Rightarrow> Inr (set_last (d\<lparr>do_dependencies := do_dependencies d @ [captured cs 0]\<rparr>) ps))"

definition type_line :: "nat \<Rightarrow> captures \<Rightarrow> parser \<Rightarrow> pdl_error + parser" where
  "type_line nr cs ps =
     (case last_domain ps of
        None \<Rightarrow> Inl (MissingDomain nr)
      | Some d \<Rightarrow> bind_result (close_last ps) (\<lambda>ps.
          let (desc, ps) = take_description ps;
              ty = \<lparr>td_description = desc, td_experimental = has_group cs 0, td_deprecated = has_group cs 1,
                td_name = captured cs 2, td_extends = Type_new (captured cs 4) (has_group cs 3), td_item = None,
                td_raw_name = raw_name (do_name d) (captured cs 2), td_is_circular_dep = is_circular_dep (do_name d) (captured cs 2)\<rparr>
          in Inr (ps\<lparr>ps_element := Some (ElementType ty)\<rparr>)))"

definition item_line :: "nat \<Rightarrow> captures \<Rightarrow> parser \<Rightarrow> pdl_error + parser" where
  "item_line nr cs ps =
     (case last_domain ps of
        None \<Rightarrow> Inl (MissingDomain nr)
      | Some d \<Rightarrow> bind_result (close_last ps) (\<lambda>ps.
          let (desc, ps) = take_description ps;
              name = captured cs 3;
              el = (if captured cs 2 = ''command''
                then ElementCommand \<lparr>pc_description = desc, pc_experimental = has_group cs 0, pc_deprecated = has_group cs 1,
                  pc_name = name, pc_redirect = None, pc_parameters = [], pc_returns = [],
                  pc_raw_name = raw_name (do_name d) name, pc_is_circular_dep = is_circular_dep (do_name d) name\<rparr>
                else ElementEvent \<lparr>pe_description = desc, pe_experimental = has_group cs 0, pe_deprecated = has_group cs 1,
                  pe_name = name, pe_parameters = [], pe_raw_name = raw_name (do_name d) name,
                  pe_is_circular_dep = is_circular_dep (do_name d) name\<rparr>)
          in Inr (ps\<lparr>ps_element := Some el\<rparr>)))"

fun member_params :: "member \<Rightarrow> param list" where
  "member_params (MemberParameters params) = params"
| "member_params (MemberReturns params) = params"
| "member_params (MemberProperties params) = params"

fun with_params :: "param list \<Rightarrow> member \<Rightarrow> member" where
  "with_params params (MemberParameters _) = MemberParameters params"
| "with_params params (MemberReturns _) = MemberReturns params"
| "with_params params (MemberProperties _) = MemberProperties params"

definition member_line :: "nat \<Rightarrow> captures \<Rightarrow> parser \<Rightarrow> pdl_error + parser" where
  "member_line nr cs ps =
     (case last_domain ps of
        None \<Rightarrow> Inl (MissingDomain nr)
      | Some d \<Rightarrow>
          let (desc, ps) = take_description ps;
              name = captured cs 5;
              pa = \<lparr>pa_description = desc, pa_experimental = has_group cs 0, pa_deprecated = has_group cs 1,
                pa_optional = has_group cs 2, pa_type = Type_new (captured cs 4) (has_group cs 3), pa_name = name,
                pa_raw_name = raw_name (do_name d) name, pa_is_circular_dep = is_circular_dep (do_name d) name\<rparr>
          in case ps_member ps of
               None \<Rightarrow> Inl (NoMemberSection nr name)
             | Some m \<Rightarrow> Inr (ps\<lparr>ps_member := Some (with_params (member_params m @ [pa]) m),
                 ps_member_enum := (ps_member_enum ps \<or> captured cs 4 = ''enum'')\<rparr>))"

definition section_line :: "nat \<Rightarrow> captures \<Rightarrow> parser \<Rightarrow> pdl_error + parser" where
  "section_line nr cs ps =
     bind_result
       (case ps_member ps of
          None \<Rightarrow> Inr ps
        | Some m \<Rightarrow>
            (case ps_element ps of
               None \<Rightarrow> Inl (NoParentItem nr)
             | Some el \<Rightarrow> bind_result (add_member m el) (\<lambda>el. Inr (ps\<lparr>ps_element := Some el\<rparr>))))
       (\<lambda>ps. Inr (ps\<lparr>ps_member := Some
          (if captured cs 0 = ''parameters'' then MemberParameters []
           else if captured cs 0 = ''returns'' then MemberReturns [] else MemberProperties [])\<rparr>))"

definition enum_line :: "nat \<Rightarrow> parser \<Rightarrow> pdl_error + parser" where
  "enum_line nr ps =
     (case ps_element ps of
        Some (ElementType ty) \<Rightarrow>
          if td_item ty = None
          then Inr (ps\<lparr>ps_member_enum := False, ps_element := Some (ElementType (ty\<lparr>td_item := Some (ItemEnum [])\<rparr>))\<rparr>)
          else Inl (EnumNotAllowed nr)
      | _ \<Rightarrow> Inl (EnumNotAllowed nr))"

definition version_line :: "parser \<Rightarrow> parser" where
  "version_line ps =
     (let (desc, ps) = take_description ps
      in ps\<lparr>ps_protocol := (ps_protocol ps)\<lparr>pr_description := desc\<rparr>, ps_version := Some Version_default\<rparr>)"

definition number_line :: "(u64 \<Rightarrow> version \<Rightarrow> version) \<Rightarrow> nat \<Rightarrow> captures \<Rightarrow> parser \<Rightarrow> pdl_error + parser" where
  "number_line upd nr cs ps =
     (case ps_version ps of
        None \<Rightarrow> Inl (VersionNotDeclared nr)
      | Some v \<Rightarrow>
          (case parse_u64 (captured cs 0) of
             None \<Rightarrow> Inl (PdlPanic nr)
           | Some n \<Rightarrow> Inr (ps\<lparr>ps_version := Some (upd n v)\<rparr>)))"

definition set_major :: "u64 \<Rightarrow> version \<Rightarrow> version" where
  "set_major n v = v\<lparr>ve_major := n\<rparr>"

definition set_minor :: "u64 \<Rightarrow> version \<Rightarrow> version" where
  "set_minor n v = v\<lparr>ve_minor := n\<rparr>"

text \<open>\<open>name.rsplit('.').next()\<close>\<close>

definition after_last_dot :: "string \<Rightarrow> string" where
  "after_last_dot s = rev (takeWhile (\<lambda>c. c \<noteq> CHR ''.'') (rev s))"

definition redirect_line :: "nat \<Rightarrow> captures \<Rightarrow> parser \<Rightarrow> pdl_error + parser" where
  "redirect_line nr cs ps =
     (let (desc, ps) = take_description ps;
          r = \<lparr>re_description = desc, re_domain = captured cs 0, re_name = None\<rparr>;
          r = (case ps_description ps of
                 None \<Rightarrow> r
               | Some desc \<Rightarrow>
                   (case captures use_re desc of
                      None \<Rightarrow> r
                    | Some cs \<Rightarrow> r\<lparr>re_name := Some (after_last_dot (captured cs 0))\<rparr>))
      in case ps_element ps of
           None \<Rightarrow> Inl (MissingItem nr)
         | Some (ElementCommand cmd) \<Rightarrow> Inr (ps\<lparr>ps_element := Some (ElementCommand (cmd\<lparr>pc_redirect := Some r\<rparr>))\<rparr>)
         | Some _ \<Rightarrow> Inl (RedirectNotAllowed nr))"

definition literal_line :: "nat \<Rightarrow> string \<Rightarrow> parser \<Rightarrow> pdl_error + parser" where
  "literal_line nr trim_line ps =
     (let (desc, ps') = take_description ps; va = \<lparr>va_description = desc, va_name = trim_line\<rparr> in
      if ps_member_enum ps
      then (case ps_member ps of
              None \<Rightarrow> Inl (MissingMember nr)
            | Some m \<Rightarrow>
                (case rev (member_params m) of
                   [] \<Rightarrow> Inl (MissingParameter nr)
                 | pa # _ \<Rightarrow>
                     (case pa_type pa of
                        TyEnum vars \<Rightarrow> Inr (ps'\<lparr>ps_member := Some (with_params
                          (butlast (member_params m) @ [pa\<lparr>pa_type := TyEnum (vars @ [va])\<rparr>]) m)\<rparr>)
                      | _ \<Rightarrow> Inl (MissingEnum nr))))
      else (case ps_element ps of
              None \<Rightarrow> Inl (MissingItem nr)
            | Some (ElementType ty) \<Rightarrow>
                (case td_item ty of
                   Some (ItemEnum vars) \<Rightarrow>
                     Inr (ps'\<lparr>ps_element := Some (ElementType (ty\<lparr>td_item := Some (ItemEnum (vars @ [va]))\<rparr>))\<rparr>)
                 | _ \<Rightarrow> Inl (MissingEnum nr))
            | Some _ \<Rightarrow> Inl (MissingEnum nr)))"

text \<open>The tests in their order.\<close>

definition parse_line :: "nat \<Rightarrow> string \<Rightarrow> parser \<Rightarrow> pdl_error + parser" where
  "parse_line nr line ps =
     (let trim_line = trim_space line in
      if starts_with ''#'' trim_line then Inr (comment_line trim_line ps)
      else if trim_line = [] then Inr ps
      else case captures domain_re line of Some cs \<Rightarrow> domain_line cs ps
      | None \<Rightarrow> case captures depends_re line of Some cs \<Rightarrow> depends_line nr cs ps
      | None \<Rightarrow> case captures type_re line of Some cs \<Rightarrow> type_line nr cs ps
      | None \<Rightarrow> case captures item_re line of Some cs \<Rightarrow> item_line nr cs ps
      | None \<Rightarrow> case captures member_re line of Some cs \<Rightarrow> member_line nr cs ps
      | None \<Rightarrow> case captures section_re line of Some cs \<Rightarrow> section_line nr cs ps
      | None \<Rightarrow> if starts_with ''    enum'' line then enum_line nr ps
      else if starts_with ''version'' line then Inr (version_line ps)
      else case captures major_re line of Some cs \<Rightarrow> number_line set_major nr cs ps
      | None \<Rightarrow> case captures minor_re line of Some cs \<Rightarrow> number_line set_minor nr cs ps
      | None \<Rightarrow> case captures redirect_re line of Some cs \<Rightarrow> redirect_line nr cs ps
      | None \<Rightarrow> if captures literal_re line \<noteq> None then literal_line nr trim_line ps
      else Inl (UnknownToken nr line))"

fun parse_lines :: "nat \<Rightarrow> string list \<Rightarrow> parser \<Rightarrow> pdl_error + parser" where
  "parse_lines nr [] ps = Inr ps"
| "parse_lines nr (line # ls) ps = bind_result (parse_line nr line ps) (parse_lines (Suc nr) ls)"

text \<open>\<open>str::lines\<close>: at line feeds, a carriage return before one going with it.\<close>

definition strip_return :: "string \<Rightarrow> string" where
  "strip_return l = (if l \<noteq> [] \<and> last l = CHR 0x0D then butlast l else l)"

function lines_of :: "string \<Rightarrow> string list" where
  "lines_of s =
     (if s = [] then []
      else case dropWhile any_char s of
             [] \<Rightarrow> [s]
           | _ # rest \<Rightarrow> strip_return (takeWhile any_char s) # lines_of rest)"
  by pat_completeness auto

termination lines_of
proof (relation "measure length")
  fix s x and rest :: string
  assume "dropWhile any_char s = x # rest"
  then have "length rest < length (dropWhile any_char s)" by simp
  also have "\<dots> \<le> length s" by (rule length_dropWhile_le)
  finally show "(rest, s) \<in> measure length" by simp
qed simp

declare lines_of.simps [simp del]

definition parse_pdl :: "string \<Rightarrow> pdl_error + protocol" where
  "parse_pdl input =
     bind_result (parse_lines 1 (lines_of input) parser_new) (\<lambda>ps.
     bind_result (close_last ps) (\<lambda>ps.
       case ps_version ps of
         None \<Rightarrow> Inl MissingVersion
       | Some v \<Rightarrow> Inr ((ps_protocol ps)\<lparr>pr_version := v\<rparr>)))"

section \<open>Fields\<close>

lemma last_domain_fields [simp]:
  "last_domain (ps\<lparr>ps_description := a1\<rparr>) = last_domain ps" "last_domain (ps\<lparr>ps_member := a2\<rparr>) = last_domain ps"
  "last_domain (ps\<lparr>ps_member_enum := a3\<rparr>) = last_domain ps" "last_domain (ps\<lparr>ps_element := a4\<rparr>) = last_domain ps"
  by (simp_all add: last_domain_def)

lemma with_params_simps [simp]:
  "member_params (with_params pas m) = pas" "with_params pas (with_params pas' m) = with_params pas m"
  "with_params (member_params m) m = m"
  by (cases m; simp)+

end
