(* ===== verification/Pdl_Print.thy ===== *)
theory Pdl_Print
  imports Pdl_Parser
begin

text \<open>
  A printer of protocol descriptions in the layout of Chromium's files, which protocols it can print,
  and how the parser reads each of its lines.
\<close>

section \<open>The printer\<close>

fun split_nl :: "string \<Rightarrow> string list" where
  "split_nl [] = [[]]"
| "split_nl (c # s) = (if c = newline then [] # split_nl s else (c # hd (split_nl s)) # tl (split_nl s))"

definition desc_lines :: "string \<Rightarrow> string option \<Rightarrow> string list" where
  "desc_lines ind d = (case d of None \<Rightarrow> [] | Some t \<Rightarrow> map (\<lambda>l. ind @ ''# '' @ l) (split_nl t))"

definition flag :: "bool \<Rightarrow> string \<Rightarrow> string" where
  "flag b w = (if b then w else [])"

fun type_word :: "pdl_type \<Rightarrow> string" where
  "type_word TyInteger = ''integer''"
| "type_word TyNumber = ''number''"
| "type_word TyBoolean = ''boolean''"
| "type_word TyString = ''string''"
| "type_word TyObject = ''object''"
| "type_word TyAny = ''any''"
| "type_word TyBinary = ''binary''"
| "type_word (TyEnum _) = ''enum''"
| "type_word (TyArrayOf t) = type_word t"
| "type_word (TyRef r) = r"

definition is_array :: "pdl_type \<Rightarrow> bool" where
  "is_array t = (case t of TyArrayOf _ \<Rightarrow> True | _ \<Rightarrow> False)"

definition print_type :: "pdl_type \<Rightarrow> string" where
  "print_type t = flag (is_array t) ''array of '' @ type_word t"

definition print_variant :: "string \<Rightarrow> variant \<Rightarrow> string list" where
  "print_variant ind va = desc_lines ind (va_description va) @ [ind @ va_name va]"

definition param_line :: "param \<Rightarrow> string" where
  "param_line pa = ''      '' @ flag (pa_experimental pa) ''experimental '' @ flag (pa_deprecated pa) ''deprecated '' @
     flag (pa_optional pa) ''optional '' @ print_type (pa_type pa) @ '' '' @ pa_name pa"

definition print_param :: "param \<Rightarrow> string list" where
  "print_param pa = desc_lines ''      '' (pa_description pa) @ [param_line pa] @
     (case pa_type pa of TyEnum vs \<Rightarrow> concat (map (print_variant ''        '') vs) | _ \<Rightarrow> [])"

definition print_section :: "string \<Rightarrow> param list \<Rightarrow> string list" where
  "print_section w pas = (if pas = [] then [] else (''    '' @ w) # concat (map print_param pas))"

definition print_item :: "item option \<Rightarrow> string list" where
  "print_item it = (case it of
      None \<Rightarrow> []
    | Some (ItemEnum vs) \<Rightarrow> ''    enum'' # concat (map (print_variant ''      '') vs)
    | Some (ItemProperties pas) \<Rightarrow> ''    properties'' # concat (map print_param pas))"

definition element_flags :: "bool \<Rightarrow> bool \<Rightarrow> string" where
  "element_flags e d = flag e ''experimental '' @ flag d ''deprecated ''"

definition print_type_def :: "type_def \<Rightarrow> string list" where
  "print_type_def td = desc_lines ''  '' (td_description td) @
     [''  '' @ element_flags (td_experimental td) (td_deprecated td) @ ''type '' @ td_name td @ '' extends '' @
        print_type (td_extends td)] @ print_item (td_item td)"

definition print_redirect :: "redirect option \<Rightarrow> string list" where
  "print_redirect r = (case r of
      None \<Rightarrow> []
    | Some r \<Rightarrow> desc_lines ''    '' (re_description r) @ [''    redirect '' @ re_domain r])"

definition print_command :: "pdl_command \<Rightarrow> string list" where
  "print_command pc = desc_lines ''  '' (pc_description pc) @
     [''  '' @ element_flags (pc_experimental pc) (pc_deprecated pc) @ ''command '' @ pc_name pc] @
     print_redirect (pc_redirect pc) @
     print_section ''parameters'' (pc_parameters pc) @ print_section ''returns'' (pc_returns pc)"

definition print_event :: "pdl_event \<Rightarrow> string list" where
  "print_event pe = desc_lines ''  '' (pe_description pe) @
     [''  '' @ element_flags (pe_experimental pe) (pe_deprecated pe) @ ''event '' @ pe_name pe] @
     print_section ''parameters'' (pe_parameters pe)"

definition print_domain :: "domain \<Rightarrow> string list" where
  "print_domain d = desc_lines [] (do_description d) @
     [element_flags (do_experimental d) (do_deprecated d) @ ''domain '' @ do_name d] @
     map (\<lambda>n. ''  depends on '' @ n) (do_dependencies d) @
     concat (map print_type_def (do_types d)) @ concat (map print_command (do_commands d)) @
     concat (map print_event (do_events d))"

definition print_protocol :: "protocol \<Rightarrow> string list" where
  "print_protocol p = desc_lines [] (pr_description p) @
     [''version'', ''  major '' @ digits (unat (ve_major (pr_version p))), ''  minor '' @ digits (unat (ve_minor (pr_version p)))] @
     concat (map print_domain (pr_domains p))"

definition unlines :: "string list \<Rightarrow> string" where
  "unlines ls = concat (map (\<lambda>l. l @ [newline]) ls)"

section \<open>The protocols it can print\<close>

definition is_word :: "string \<Rightarrow> bool" where
  "is_word w = (w \<noteq> [] \<and> list_all non_space w \<and> hd w \<noteq> CHR ''#'')"

text \<open>Every line of a description is trimmed.\<close>

definition good_description :: "string option \<Rightarrow> bool" where
  "good_description d = (case d of None \<Rightarrow> True | Some t \<Rightarrow> list_all (\<lambda>l. trim_space l = l) (split_nl t))"

definition good_variant :: "variant \<Rightarrow> bool" where
  "good_variant va = (good_description (va_description va) \<and> is_word (va_name va))"

text \<open>Types the parser can make: no arrays of arrays, no literals within an array, no reference with the name
  of a built-in type.\<close>

definition good_simple :: "pdl_type \<Rightarrow> bool" where
  "good_simple t = (case t of TyArrayOf _ \<Rightarrow> False | TyEnum vs \<Rightarrow> vs = [] | TyRef r \<Rightarrow> is_word r \<and> simple_type r = TyRef r | _ \<Rightarrow> True)"

definition good_type :: "pdl_type \<Rightarrow> bool" where
  "good_type t = (case t of TyArrayOf u \<Rightarrow> good_simple u | _ \<Rightarrow> good_simple t)"

definition good_param_type :: "pdl_type \<Rightarrow> bool" where
  "good_param_type t = (type_word t \<notin> {''experimental'', ''deprecated'', ''optional''} \<and>
     (case t of TyEnum vs \<Rightarrow> list_all good_variant vs | _ \<Rightarrow> good_type t))"

definition named_in :: "string \<Rightarrow> string \<Rightarrow> string \<Rightarrow> bool \<Rightarrow> bool" where
  "named_in owner n raw circ = (is_word n \<and> raw = raw_name owner n \<and> circ = is_circular_dep owner n)"

definition good_param :: "string \<Rightarrow> param \<Rightarrow> bool" where
  "good_param owner pa = (good_description (pa_description pa) \<and> good_param_type (pa_type pa) \<and>
     named_in owner (pa_name pa) (pa_raw_name pa) (pa_is_circular_dep pa))"

definition good_item :: "string \<Rightarrow> item option \<Rightarrow> bool" where
  "good_item owner it = (case it of
      None \<Rightarrow> True
    | Some (ItemEnum vs) \<Rightarrow> list_all good_variant vs
    | Some (ItemProperties pas) \<Rightarrow> list_all (good_param owner) pas)"

definition good_type_def :: "string \<Rightarrow> type_def \<Rightarrow> bool" where
  "good_type_def owner td = (good_description (td_description td) \<and> good_type (td_extends td) \<and> good_item owner (td_item td) \<and>
     named_in owner (td_name td) (td_raw_name td) (td_is_circular_dep td))"

text \<open>The parser never learns the name of a redirect.\<close>

definition good_redirect :: "redirect option \<Rightarrow> bool" where
  "good_redirect r = (case r of
      None \<Rightarrow> True
    | Some r \<Rightarrow> good_description (re_description r) \<and> is_word (re_domain r) \<and> re_name r = None)"

definition good_command :: "string \<Rightarrow> pdl_command \<Rightarrow> bool" where
  "good_command owner pc = (good_description (pc_description pc) \<and> good_redirect (pc_redirect pc) \<and>
     list_all (good_param owner) (pc_parameters pc) \<and> list_all (good_param owner) (pc_returns pc) \<and>
     named_in owner (pc_name pc) (pc_raw_name pc) (pc_is_circular_dep pc))"

definition good_event :: "string \<Rightarrow> pdl_event \<Rightarrow> bool" where
  "good_event owner pe = (good_description (pe_description pe) \<and> list_all (good_param owner) (pe_parameters pe) \<and>
     named_in owner (pe_name pe) (pe_raw_name pe) (pe_is_circular_dep pe))"

definition good_domain :: "domain \<Rightarrow> bool" where
  "good_domain d = (good_description (do_description d) \<and> is_word (do_name d) \<and> list_all is_word (do_dependencies d) \<and>
     list_all (good_type_def (do_name d)) (do_types d) \<and> list_all (good_command (do_name d)) (do_commands d) \<and>
     list_all (good_event (do_name d)) (do_events d))"

definition good_protocol :: "protocol \<Rightarrow> bool" where
  "good_protocol p = (good_description (pr_description p) \<and> list_all good_domain (pr_domains p))"

end
