(* ===== verification/Pdl_Lines.thy ===== *)
theory Pdl_Lines
  imports Pdl_Print
begin

text \<open>
  How the parser reads each kind of line the printer writes: the pattern that matches it, with its groups.
\<close>

section \<open>Words and prefixes\<close>

lemma strip_prefix_simps [simp]:
  "strip_prefix [] s = Some s" "strip_prefix (c # w) [] = None"
  "strip_prefix (c # w) (a # s) = (if c = a then strip_prefix w s else None)"
  by (simp_all add: strip_prefix_def starts_with_def)

lemma starts_with_simps [simp]:
  "starts_with [] s" "\<not> starts_with (c # w) []" "starts_with (c # w) (a # s) = (c = a \<and> starts_with w s)"
  by (auto simp: starts_with_def)

lemma strip_prefix_append: "strip_prefix w (w @ s) = Some s"
  by (induction w) simp_all

lemma strip_prefix_Some: "strip_prefix w s = Some r \<longleftrightarrow> s = w @ r"
proof (induction w arbitrary: s)
  case (Cons c w)
  then show ?case by (cases s) auto
qed auto

lemma strip_prefix_foreign: "c \<in> set w \<Longrightarrow> c \<notin> set s \<Longrightarrow> strip_prefix w s = None"
  by (metis Un_iff not_Some_eq set_append strip_prefix_Some)

definition blank :: char where
  "blank = CHR '' ''"

lemma blank_simps [simp]: "is_space (CHR '' '')" "is_space newline" "is_space (CHR 0x0D)" "\<not> non_space (CHR '' '')"
  by (simp_all add: is_space_def non_space_def newline_def)

lemma newline_simps [simp]: "newline \<noteq> CHR '' ''" "any_char (CHR '' '')"
  by (simp_all add: newline_def any_char_def)

lemma word_facts:
  assumes "is_word w"
  shows "w \<noteq> []" "hd w \<noteq> CHR ''#''" "CHR '' '' \<notin> set w" "newline \<notin> set w" "list_all non_space w" "list_all any_char w"
    "last w \<noteq> CHR 0x0D" "\<not> is_space (hd w)" "\<not> is_space (last w)"
proof -
  show w: "w \<noteq> []" "hd w \<noteq> CHR ''#''" "list_all non_space w" using assms by (simp_all add: is_word_def)
  show "CHR '' '' \<notin> set w" "newline \<notin> set w" using w(3) blank_simps by (auto simp: list_all_iff non_space_def)
  then show "list_all any_char w" by (auto simp: list_all_iff any_char_def)
  show "\<not> is_space (hd w)" "\<not> is_space (last w)" using w(1,3) by (auto simp: list_all_iff non_space_def)
  then show "last w \<noteq> CHR 0x0D" using blank_simps(3) by metis
qed

section \<open>Patterns\<close>

lemma spans_head: "m \<le> n \<Longrightarrow> rev [m ..< Suc n] = n # rev [m ..< n]"
  by simp

lemma takeWhile_whole: "list_all P s \<Longrightarrow> takeWhile P s = s"
  by (simp add: list_all_iff takeWhile_eq_all_conv)

lemma captures_to_end: "list_all P s \<Longrightarrow> m \<le> length s \<Longrightarrow> captures [Span P m] s = Some [Some s]"
  by (simp add: takeWhile_whole)

lemma captures_literal_end: "list_all P s \<Longrightarrow> m \<le> length s \<Longrightarrow> captures [Span P m, AtEnd] s = Some [Some s]"
  by (simp add: takeWhile_whole)

lemma first_some_None: "(\<And>x. x \<in> set xs \<Longrightarrow> f x = None) \<Longrightarrow> first_some f xs = None"
  by (induction xs) simp_all

text \<open>A greedy group before a literal: it is as long as it can be with the literal after it.\<close>

lemma captures_word_before:
  assumes "list_all P w" "\<not> P c" "m \<le> length w"
  shows "captures (Span P m # Lit [c] # p) (w @ c # s) = map_option ((#) (Some w)) (captures p s)"
proof -
  have len: "length (takeWhile P (w @ c # s)) = length w" using assms(1,2) by (simp add: takeWhile_tail list_all_iff)
  have shorter: "captures (Lit [c] # p) (drop n (w @ c # s)) = None" if "n < length w" for n
  proof -
    have "drop n (w @ c # s) = w ! n # drop (Suc n) w @ c # s" using that by (simp add: Cons_nth_drop_Suc [symmetric])
    moreover have "w ! n \<noteq> c" using assms(1,2) that by (auto simp: list_all_iff)
    ultimately show ?thesis by simp
  qed
  have rest: "first_some (\<lambda>n. map_option ((#) (Some (take n (w @ c # s)))) (captures (Lit [c] # p) (drop n (w @ c # s))))
      (rev [m ..< length w]) = None"
    using shorter by (intro first_some_None) (simp del: captures.simps(2))
  have "captures (Span P m # Lit [c] # p) (w @ c # s) =
      first_some (\<lambda>n. map_option ((#) (Some (take n (w @ c # s)))) (captures (Lit [c] # p) (drop n (w @ c # s))))
        (length w # rev [m ..< length w])"
    using assms(3) by (simp only: captures.simps(5) len spans_head)
  also have "\<dots> = map_option ((#) (Some w)) (captures p s)"
    using rest by (simp del: captures.simps(2) add: captures.simps(2) [of "[c]"] split: option.split)
  finally show ?thesis .
qed

lemma captures_no_word:
  assumes "c \<notin> set s" "c \<in> set w"
  shows "captures (Span P m # Lit w # p) s = None"
proof -
  have "strip_prefix w (drop n s) = None" for n
    using strip_prefix_foreign [OF assms(2)] assms(1) by (meson in_set_dropD)
  then show ?thesis by (simp del: upt_Suc add: first_some_None)
qed

text \<open>The name of a type ends at the last \<open>extends\<close>.\<close>

lemma captures_last:
  assumes "list_all P (a @ w @ b)" "captures p b = Some cs" "\<And>n. 0 < n \<Longrightarrow> strip_prefix w (drop n (w @ b)) = None"
  shows "captures (Span P 0 # Lit w # p) (a @ w @ b) = Some (Some a # cs)"
proof -
  let ?s = "a @ w @ b"
  define f where "f = (\<lambda>n. map_option ((#) (Some (take n ?s))) (captures (Lit w # p) (drop n ?s)))"
  have later: "f n = None" if "length a < n" for n
  proof -
    have "strip_prefix w (drop n ?s) = None" using assms(3) [of "n - length a"] that by simp
    then show ?thesis by (simp add: f_def)
  qed
  have here: "f (length a) = Some (Some a # cs)" using assms(2) by (simp add: f_def strip_prefix_append)
  have split: "rev [0 ..< Suc (length ?s)] = rev [Suc (length a) ..< Suc (length ?s)] @ length a # rev [0 ..< length a]"
  proof -
    have "[0 ..< Suc (length ?s)] = [0 ..< length a] @ length a # [Suc (length a) ..< Suc (length ?s)]"
      using upt_add_eq_append [of 0 "length a" "Suc (length (w @ b))"] by (simp add: upt_conv_Cons del: upt_Suc)
    then show ?thesis by simp
  qed
  have skip: "first_some g (xs @ y # ys) = Some z" if "\<And>x. x \<in> set xs \<Longrightarrow> g x = None" "g y = Some z" for g xs y ys z
    using that by (induction xs) simp_all
  have "captures (Span P 0 # Lit w # p) ?s = first_some f (rev [0 ..< Suc (length ?s)])"
    using takeWhile_whole [OF assms(1)] by (simp only: captures.simps(5) f_def)
  also have "\<dots> = Some (Some a # cs)"
    unfolding split by (rule skip [OF later]) (use here in auto)
  finally show ?thesis .
qed

section \<open>Lines with a word\<close>

lemma flag_simps [simp]: "flag True w = w" "flag False w = []"
  by (simp_all add: flag_def)

lemma first_char: "starts_with ''#'' (trim_space s) = starts_with ''#'' (dropWhile is_space s)"
proof -
  have "starts_with ''#'' (rev (dropWhile is_space (rev u))) = starts_with ''#'' u" if "u = [] \<or> \<not> is_space (hd u)" for u
  proof (cases u)
    case (Cons c v)
    then have "dropWhile is_space (rev u) = dropWhile is_space (rev v) @ [c] \<or> dropWhile is_space (rev u) = [c]"
      using that by (auto simp: dropWhile_append)
    then show ?thesis using Cons by auto
  qed simp
  moreover have "dropWhile is_space s = [] \<or> \<not> is_space (hd (dropWhile is_space s))" using hd_dropWhile by blast
  ultimately show ?thesis by (simp add: trim_space_def)
qed

lemma trim_Nil: "trim_space s = [] \<longleftrightarrow> list_all is_space s"
  by (auto simp: trim_space_def list_all_iff dropWhile_eq_Nil_conv dest: set_dropWhileD)
    (metis dropWhile_eq_Nil_conv hd_dropWhile list.set_sel(1))

lemma drop_none: "u = [] \<or> \<not> is_space (hd u) \<Longrightarrow> dropWhile is_space u = u"
  by (cases u) auto

lemma drop_indent: "list_all is_space ind \<Longrightarrow> dropWhile is_space (ind @ s) = dropWhile is_space s"
  by (induction ind) simp_all

lemma trim_word: "is_word w \<Longrightarrow> list_all is_space ind \<Longrightarrow> trim_space (ind @ w) = w"
  using word_facts [of w] by (simp add: trim_space_def drop_indent drop_none hd_rev)

text \<open>The tests before the patterns, for a line whose first character that is no blank is \<open>c\<close>.\<close>

lemma line_start:
  assumes "dropWhile is_space line = c # r" "c \<noteq> CHR ''#''"
  shows "\<not> starts_with ''#'' (trim_space line)" "trim_space line \<noteq> []"
proof -
  show "\<not> starts_with ''#'' (trim_space line)" using assms by (simp add: first_char)
  have "\<not> list_all is_space line" using assms(1) by (metis dropWhile_eq_Nil_conv list.discI list_all_iff)
  then show "trim_space line \<noteq> []" by (simp add: trim_Nil)
qed

lemma letters [simp]: "is_space c = False" if "c \<in> {CHR ''a'', CHR ''c'', CHR ''d'', CHR ''e'', CHR ''m'', CHR ''o'', CHR ''p'', CHR ''r'', CHR ''t'', CHR ''v''}"
  using that by (auto simp: is_space_def)

lemma domain_captures:
  assumes "is_word n"
  shows "captures domain_re (element_flags e d @ ''domain '' @ n) =
    Some [if e then Some ''experimental '' else None, if d then Some ''deprecated '' else None, Some n]"
  using captures_to_end [of any_char n 0] word_facts [OF assms]
  by (simp add: domain_re_def element_flags_def del: captures.simps(5))

lemma depends_captures: "is_word n \<Longrightarrow> captures depends_re (''  depends on '' @ n) = Some [Some n]"
  using captures_to_end [of non_space n 1] word_facts [of n] by (simp add: depends_re_def Suc_le_eq del: captures.simps(5))

lemma item_captures:
  assumes "is_word n" "w = ''command'' \<or> w = ''event''"
  shows "captures item_re (''  '' @ element_flags e d @ w @ '' '' @ n) =
    Some [if e then Some ''experimental '' else None, if d then Some ''deprecated '' else None, Some w, Some n]"
  using captures_to_end [of any_char n 0] word_facts [OF assms(1)] assms(2)
  by (auto simp add: item_re_def element_flags_def flag_def simp del: captures.simps(5))

lemma no_blank: "CHR '' '' \<notin> set s \<Longrightarrow> CHR '' '' \<in> set w \<Longrightarrow> strip_prefix w s = None"
  by (rule strip_prefix_foreign)

lemma no_blank_drop: "CHR '' '' \<notin> set s \<Longrightarrow> CHR '' '' \<in> set w \<Longrightarrow> strip_prefix w (drop n s) = None"
  by (meson in_set_dropD no_blank)

lemma last_extends:
  assumes "CHR '' '' \<notin> set t" "0 < n"
  shows "strip_prefix '' extends '' (drop n ('' extends '' @ flag a ''array of '' @ t)) = None"
proof -
  have tail: "strip_prefix '' extends '' (drop k (flag a ''array of '' @ t)) = None" for k
  proof (cases a)
    case True
    have "k < 9 \<or> (\<exists>j. k = 9 + j)" by presburger
    then show ?thesis
    proof
      assume "k < 9"
      then have "k \<in> {0, 1, 2, 3, 4, 5, 6, 7, 8}" by auto
      then show ?thesis using True no_blank [OF assms(1), of "''extends ''"] by (auto simp: numeral_eq_Suc)
    next
      assume "\<exists>j. k = 9 + j"
      then show ?thesis using True no_blank_drop [OF assms(1), of "'' extends ''"] by (auto simp: numeral_eq_Suc)
    qed
  next
    case False
    then show ?thesis using no_blank_drop [OF assms(1), of "'' extends ''"] by simp
  qed
  have "n < 9 \<or> (\<exists>j. n = 9 + j)" by presburger
  then show ?thesis
  proof
    assume "n < 9"
    then have "n \<in> {1, 2, 3, 4, 5, 6, 7, 8}" using assms(2) by auto
    moreover have "strip_prefix ''extends '' (flag a ''array of '' @ t) = None"
      using no_blank [OF assms(1), of "''extends ''"] by (cases a) simp_all
    ultimately show ?thesis by (auto simp: numeral_eq_Suc)
  next
    assume "\<exists>j. n = 9 + j"
    then show ?thesis using tail by (auto simp: numeral_eq_Suc)
  qed
qed

lemma type_captures:
  assumes "is_word n" "is_word t"
  shows "captures type_re (''  '' @ element_flags e d @ ''type '' @ n @ '' extends '' @ flag a ''array of '' @ t) =
    Some [if e then Some ''experimental '' else None, if d then Some ''deprecated '' else None, Some n,
      if a then Some ''array of '' else None, Some t]"
proof -
  have t: "captures [Span non_space 1] t = Some [Some t]" "strip_prefix ''array of '' t = None"
    using captures_to_end [of non_space t 1] word_facts [OF assms(2)] no_blank [of t] by (simp_all add: Suc_le_eq del: captures.simps(5))
  have "captures [Maybe ''array of '', Span non_space 1] (flag a ''array of '' @ t) =
      Some [if a then Some ''array of '' else None, Some t]"
    using t by (cases a) (simp_all del: captures.simps(5))
  moreover have "list_all any_char (n @ '' extends '' @ flag a ''array of '' @ t)"
    using word_facts [OF assms(1)] word_facts [OF assms(2)] by (cases a) (simp_all add: any_char_def newline_def)
  ultimately have "captures [Span any_char 0, Lit '' extends '', Maybe ''array of '', Span non_space 1]
      (n @ '' extends '' @ flag a ''array of '' @ t) =
      Some [Some n, if a then Some ''array of '' else None, Some t]"
    using captures_last [of any_char n "'' extends ''" "flag a ''array of '' @ t"] last_extends [OF word_facts(3) [OF assms(2)]] by blast
  then show ?thesis by (simp add: type_re_def element_flags_def flag_def del: captures.simps(5))
qed

lemma split_at: "c \<notin> set a \<Longrightarrow> c \<notin> set b \<Longrightarrow> a @ c # s = b @ c # t \<Longrightarrow> a = b \<and> s = t"
proof (induction a arbitrary: b)
  case Nil
  then show ?case by (cases b) auto
next
  case (Cons x a)
  then show ?case by (cases b) auto
qed

lemma other_word:
  assumes "CHR '' '' \<notin> set t" "CHR '' '' \<notin> set k" "t \<noteq> k"
  shows "strip_prefix (k @ '' '') (t @ CHR '' '' # n) = None"
proof (rule ccontr)
  assume "strip_prefix (k @ '' '') (t @ CHR '' '' # n) \<noteq> None"
  then obtain r where "t @ CHR '' '' # n = k @ CHR '' '' # r" by (auto simp: strip_prefix_Some)
  then show False using split_at [OF assms(1,2)] assms(3) by blast
qed

lemma not_array:
  assumes "CHR '' '' \<notin> set t" "CHR '' '' \<notin> set n"
  shows "strip_prefix ''array of '' (t @ CHR '' '' # n) = None"
proof (rule ccontr)
  assume "strip_prefix ''array of '' (t @ CHR '' '' # n) \<noteq> None"
  then obtain r where "t @ CHR '' '' # n = ''array'' @ CHR '' '' # (''of '' @ r)" by (auto simp: strip_prefix_Some)
  then have "n = ''of '' @ r" using split_at [OF assms(1), of "''array''"] by simp
  then show False using assms(2) by simp
qed

lemma member_captures:
  assumes "is_word n" "is_word t" "t \<notin> {''experimental'', ''deprecated'', ''optional''}"
  shows "captures member_re (''      '' @ flag e ''experimental '' @ flag d ''deprecated '' @ flag p ''optional '' @
      flag a ''array of '' @ t @ '' '' @ n) =
    Some [if e then Some ''experimental '' else None, if d then Some ''deprecated '' else None,
      if p then Some ''optional '' else None, if a then Some ''array of '' else None, Some t, Some n]"
proof -
  note n = word_facts [OF assms(1)] and t = word_facts [OF assms(2)]
  let ?rest = "[Span non_space 1, Lit '' '', Span non_space 1]"
  have core: "captures ?rest (t @ CHR '' '' # n) = Some [Some t, Some n]"
    using captures_word_before [of non_space t "CHR '' ''" 1 "[Span non_space 1]" n] captures_to_end [of non_space n 1] n t
    by (simp add: Suc_le_eq del: captures.simps)
  have words: "strip_prefix ''experimental '' (t @ CHR '' '' # n) = None" "strip_prefix ''deprecated '' (t @ CHR '' '' # n) = None"
    "strip_prefix ''optional '' (t @ CHR '' '' # n) = None" "strip_prefix ''array of '' (t @ CHR '' '' # n) = None"
    using other_word [OF t(3), of "''experimental''" n] other_word [OF t(3), of "''deprecated''" n]
      other_word [OF t(3), of "''optional''" n] not_array [OF t(3) n(3)] assms(3) by simp_all
  have array: "captures (Maybe ''array of '' # ?rest) (flag a ''array of '' @ t @ CHR '' '' # n) =
      Some [if a then Some ''array of '' else None, Some t, Some n]"
    using core words by (cases a) (simp_all del: captures.simps(2,5))
  have opt: "captures (Maybe ''optional '' # Maybe ''array of '' # ?rest)
      (flag p ''optional '' @ flag a ''array of '' @ t @ CHR '' '' # n) =
      Some [if p then Some ''optional '' else None, if a then Some ''array of '' else None, Some t, Some n]"
    using array words by (cases p; cases a) (simp_all del: captures.simps(2,5))
  have dep: "captures (Maybe ''deprecated '' # Maybe ''optional '' # Maybe ''array of '' # ?rest)
      (flag d ''deprecated '' @ flag p ''optional '' @ flag a ''array of '' @ t @ CHR '' '' # n) =
      Some [if d then Some ''deprecated '' else None, if p then Some ''optional '' else None,
        if a then Some ''array of '' else None, Some t, Some n]"
    using opt words by (cases d; cases p; cases a) (simp_all del: captures.simps(2,5))
  show ?thesis unfolding member_re_def
    using dep words by (cases e; cases d; cases p; cases a) (simp_all del: captures.simps(5))
qed

text \<open>A literal has no second word.\<close>

lemma literal_no_member: "is_word w \<Longrightarrow> captures member_re (''      '' @ w) = None"
  using word_facts(3) [of w] no_blank [of w] captures_no_word [of "CHR '' ''" w "'' ''" non_space 1]
  by (simp add: member_re_def del: captures.simps(5))

lemma literal_captures:
  assumes "is_word w"
  shows "captures literal_re (''      '' @ w) \<noteq> None" "captures literal_re (''        '' @ w) \<noteq> None"
proof -
  let ?P = "\<lambda>c. c \<noteq> newline \<and> c \<noteq> CHR 0x09"
  have "list_all ?P w" using word_facts(4,5) [OF assms] by (auto simp: list_all_iff non_space_def is_space_def)
  then have "captures [Span ?P 1, AtEnd] w = Some [Some w]"
    using captures_literal_end [of ?P w 1] word_facts(1) [OF assms] by (simp add: Suc_le_eq del: captures.simps)
  then show "captures literal_re (''      '' @ w) \<noteq> None" "captures literal_re (''        '' @ w) \<noteq> None"
    using no_blank [of w "''  ''"] word_facts(3) [OF assms] by (simp_all add: literal_re_def del: captures.simps(5))
qed

lemma redirect_captures: "is_word n \<Longrightarrow> captures redirect_re (''    redirect '' @ n) = Some [Some n]"
  using captures_to_end [of non_space n 1] word_facts [of n] by (simp add: redirect_re_def Suc_le_eq del: captures.simps(5))

section \<open>Numbers and comments\<close>

lemma number_captures:
  "captures major_re (''  major '' @ digits n) = Some [Some (digits n)]"
  "captures minor_re (''  minor '' @ digits n) = Some [Some (digits n)]"
  using captures_to_end [of is_ascii_digit "digits n" 1] digits_facts [of n]
  by (simp_all add: major_re_def minor_re_def Suc_le_eq del: captures.simps(5))

lemma comment_trim:
  assumes "list_all is_space ind" "trim_space l = l"
  shows "\<exists>t. trim_space (ind @ ''# '' @ l) = CHR ''#'' # t \<and> dropWhile is_space t = l"
proof -
  have start: "dropWhile is_space (ind @ ''# '' @ l) = CHR ''#'' # CHR '' '' # l"
    using assms(1) by (simp add: drop_indent is_space_def)
  show ?thesis
  proof (cases "l = []")
    case True
    then show ?thesis using start by (simp add: trim_space_def is_space_def)
  next
    case False
    have ends: "\<not> is_space (hd l)" "\<not> is_space (last l)"
    proof -
      show "\<not> is_space (last l)"
      proof
        assume "is_space (last l)"
        then have "last (trim_space l) \<noteq> last l"
          using False assms(2) hd_dropWhile [of is_space "rev (dropWhile is_space l)"] unfolding trim_space_def
          by (metis dropWhile_eq_Nil_conv hd_rev rev_is_Nil_conv rev_rev_ident)
        then show False using assms(2) by simp
      qed
      show "\<not> is_space (hd l)"
      proof
        assume "is_space (hd l)"
        then have "length (dropWhile is_space l) < length l"
          using False length_dropWhile_le [of is_space "tl l"] by (cases l) (simp_all add: less_Suc_eq_le)
        then have "length (trim_space l) < length l"
          using length_dropWhile_le [of is_space "rev (dropWhile is_space l)"] by (simp add: trim_space_def)
        then show False using assms(2) by simp
      qed
    qed
    have "trim_space (ind @ ''# '' @ l) = ''# '' @ l"
      using start ends(2) False by (simp add: trim_space_def drop_none hd_rev hd_append)
    then show ?thesis using ends(1) by (simp add: drop_none)
  qed
qed

section \<open>Reading a line\<close>

lemma read_comment:
  assumes "list_all is_space ind" "trim_space l = l"
  shows "parse_line nr (ind @ ''# '' @ l) ps =
    Inr (ps\<lparr>ps_description := Some (case ps_description ps of None \<Rightarrow> l | Some d \<Rightarrow> d @ newline # l)\<rparr>)"
proof -
  obtain t where "trim_space (ind @ ''# '' @ l) = CHR ''#'' # t" "dropWhile is_space t = l"
    using comment_trim [OF assms] by blast
  then show ?thesis by (simp add: parse_line_def comment_line_def Let_def)
qed

lemma read_domain:
  assumes "is_word n"
  shows "parse_line nr (element_flags e d @ ''domain '' @ n) ps =
    domain_line [if e then Some ''experimental '' else None, if d then Some ''deprecated '' else None, Some n] ps"
proof -
  let ?line = "element_flags e d @ ''domain '' @ n"
  have "\<exists>c r. dropWhile is_space ?line = c # r \<and> c \<noteq> CHR ''#''" by (cases e; cases d) (simp_all add: element_flags_def)
  then show ?thesis using line_start [of ?line] domain_captures [OF assms, of e d]
    by (auto simp: parse_line_def Let_def simp del: captures.simps)
qed

lemma read_depends: "is_word n \<Longrightarrow> parse_line nr (''  depends on '' @ n) ps = depends_line nr [Some n] ps"
  using line_start [of "''  depends on '' @ n"] depends_captures [of n]
  by (simp add: parse_line_def Let_def domain_re_def del: captures.simps(5))

lemma read_type:
  assumes "is_word n" "is_word t"
  shows "parse_line nr (''  '' @ element_flags e d @ ''type '' @ n @ '' extends '' @ flag a ''array of '' @ t) ps =
    type_line nr [if e then Some ''experimental '' else None, if d then Some ''deprecated '' else None, Some n,
      if a then Some ''array of '' else None, Some t] ps"
proof -
  let ?line = "''  '' @ element_flags e d @ ''type '' @ n @ '' extends '' @ flag a ''array of '' @ t"
  have "\<exists>c r. dropWhile is_space ?line = c # r \<and> c \<noteq> CHR ''#''" by (cases e; cases d) (simp_all add: element_flags_def)
  moreover have "captures domain_re ?line = None" "captures depends_re ?line = None"
    by (cases e; cases d; simp add: domain_re_def depends_re_def element_flags_def)+
  ultimately show ?thesis using line_start [of ?line] type_captures [OF assms, of e d a]
    by (auto simp: parse_line_def Let_def simp del: captures.simps)
qed

lemma read_item:
  assumes "is_word n" "w = ''command'' \<or> w = ''event''"
  shows "parse_line nr (''  '' @ element_flags e d @ w @ '' '' @ n) ps =
    item_line nr [if e then Some ''experimental '' else None, if d then Some ''deprecated '' else None, Some w, Some n] ps"
proof -
  let ?line = "''  '' @ element_flags e d @ w @ '' '' @ n"
  have "\<exists>c r. dropWhile is_space ?line = c # r \<and> c \<noteq> CHR ''#''"
    using assms(2) by (cases e; cases d) (auto simp: element_flags_def)
  moreover have "captures domain_re ?line = None" "captures depends_re ?line = None" "captures type_re ?line = None"
    using assms(2) by (cases e; cases d; auto simp: domain_re_def depends_re_def type_re_def element_flags_def)+
  ultimately show ?thesis using line_start [of ?line] item_captures [OF assms, of e d]
    by (auto simp: parse_line_def Let_def simp del: captures.simps)
qed

lemma read_member:
  assumes "is_word n" "is_word t" "t \<notin> {''experimental'', ''deprecated'', ''optional''}"
  shows "parse_line nr (''      '' @ flag e ''experimental '' @ flag d ''deprecated '' @ flag p ''optional '' @
      flag a ''array of '' @ t @ '' '' @ n) ps =
    member_line nr [if e then Some ''experimental '' else None, if d then Some ''deprecated '' else None,
      if p then Some ''optional '' else None, if a then Some ''array of '' else None, Some t, Some n] ps"
proof -
  let ?text = "flag e ''experimental '' @ flag d ''deprecated '' @ flag p ''optional '' @ flag a ''array of '' @ t @ '' '' @ n"
  let ?line = "''      '' @ ?text"
  have "dropWhile is_space ?line = ?text"
  proof (cases "e \<or> d \<or> p \<or> a")
    case True
    then show ?thesis by (cases e; cases d; cases p; cases a) (simp_all add: is_space_def)
  next
    case False
    then show ?thesis using word_facts(1,8) [OF assms(2)] by (cases t) simp_all
  qed
  moreover have "\<exists>c r. ?text = c # r \<and> c \<noteq> CHR ''#''"
    using word_facts(1,2) [OF assms(2)] by (cases e; cases d; cases p; cases a; cases t) simp_all
  moreover have "captures domain_re ?line = None" "captures depends_re ?line = None" "captures type_re ?line = None"
    "captures item_re ?line = None"
    by (simp_all add: domain_re_def depends_re_def type_re_def item_re_def)
  ultimately show ?thesis using line_start [of ?line] member_captures [OF assms, of e d p a]
    by (auto simp: parse_line_def Let_def simp del: captures.simps append.simps)
qed

lemma read_section:
  assumes "w \<in> {''parameters'', ''returns'', ''properties''}"
  shows "parse_line nr (''    '' @ w) ps = section_line nr [Some w] ps"
  using assms line_start [of "''    '' @ w" "hd w" "tl w"]
  by (auto simp: parse_line_def Let_def domain_re_def depends_re_def type_re_def item_re_def member_re_def section_re_def)

lemma read_enum: "parse_line nr ''    enum'' ps = enum_line nr ps"
  using line_start [of "''    enum''" "CHR ''e''" "''num''"]
  by (simp add: parse_line_def Let_def domain_re_def depends_re_def type_re_def item_re_def member_re_def section_re_def)

lemma read_version: "parse_line nr ''version'' ps = Inr (version_line ps)"
  using line_start [of "''version''" "CHR ''v''" "''ersion''"]
  by (simp add: parse_line_def Let_def domain_re_def depends_re_def type_re_def item_re_def member_re_def section_re_def)

lemma read_number:
  "parse_line nr (''  major '' @ digits n) ps = number_line set_major nr [Some (digits n)] ps"
  "parse_line nr (''  minor '' @ digits n) ps = number_line set_minor nr [Some (digits n)] ps"
proof -
  have "captures r (''  major '' @ digits n) = None \<and> captures r (''  minor '' @ digits n) = None"
    if "r \<in> {domain_re, depends_re, type_re, item_re, member_re, section_re}" for r
    using that by (auto simp: domain_re_def depends_re_def type_re_def item_re_def member_re_def section_re_def)
  moreover have "captures major_re (''  minor '' @ digits n) = None" by (simp add: major_re_def)
  ultimately show "parse_line nr (''  major '' @ digits n) ps = number_line set_major nr [Some (digits n)] ps"
    "parse_line nr (''  minor '' @ digits n) ps = number_line set_minor nr [Some (digits n)] ps"
    using line_start [of "''  major '' @ digits n"] line_start [of "''  minor '' @ digits n"] number_captures [of n]
    by (simp_all add: parse_line_def Let_def del: captures.simps)
qed

lemma read_redirect:
  assumes "is_word n"
  shows "parse_line nr (''    redirect '' @ n) ps = redirect_line nr [Some n] ps"
proof -
  have "captures r (''    redirect '' @ n) = None"
    if "r \<in> {domain_re, depends_re, type_re, item_re, member_re, section_re, major_re, minor_re}" for r
    using that by (auto simp: domain_re_def depends_re_def type_re_def item_re_def member_re_def section_re_def
        major_re_def minor_re_def)
  then show ?thesis using line_start [of "''    redirect '' @ n"] redirect_captures [OF assms]
    by (simp add: parse_line_def Let_def del: captures.simps)
qed

lemma read_literal:
  assumes "is_word w" "ind = ''      '' \<or> ind = ''        ''"
  shows "parse_line nr (ind @ w) ps = literal_line nr w ps"
proof -
  have no_member: "captures member_re (ind @ w) = None"
    using assms(2) literal_no_member [OF assms(1)] by (auto simp: member_re_def)
  have "captures r (ind @ w) = None"
    if "r \<in> {domain_re, depends_re, type_re, item_re, section_re, major_re, minor_re, redirect_re}" for r
    using that assms(2) by (auto simp: domain_re_def depends_re_def type_re_def item_re_def section_re_def
        major_re_def minor_re_def redirect_re_def)
  moreover have "captures literal_re (ind @ w) \<noteq> None" using literal_captures [OF assms(1)] assms(2) by auto
  moreover have "list_all is_space ind" using assms(2) by (auto simp: is_space_def)
  then have trim: "trim_space (ind @ w) = w" by (rule trim_word [OF assms(1)])
  moreover have "w \<noteq> []" "\<not> starts_with ''#'' w" using word_facts(1,2) [OF assms(1)] by (cases w; simp)+
  moreover have "\<not> starts_with ''    enum'' (ind @ w)" "\<not> starts_with ''version'' (ind @ w)" using assms(2) by auto
  ultimately show ?thesis using no_member by (auto simp: parse_line_def Let_def simp del: captures.simps)
qed

end
