(* ===== verification/Pdl_Round_Trip.thy ===== *)
theory Pdl_Round_Trip
  imports Pdl_Lines
begin

text \<open>
  The parser reads back every protocol the printer can print.
\<close>

section \<open>Runs over lines\<close>

text \<open>The lines take the parser from one state to the other, wherever they stand in the file.\<close>

definition reads :: "string list \<Rightarrow> parser \<Rightarrow> parser \<Rightarrow> bool" where
  "reads ls ps ps' = (\<forall>nr. parse_lines nr ls ps = Inr ps')"

lemma reads_Nil [simp]: "reads [] ps ps' = (ps' = ps)"
  by (auto simp: reads_def)

lemma reads_line: "(\<And>nr. parse_line nr l ps = Inr ps') \<Longrightarrow> reads [l] ps ps'"
  by (simp add: reads_def)

lemma parse_lines_append: "parse_lines nr (ls @ ls') ps = bind_result (parse_lines nr ls ps) (parse_lines (nr + length ls) ls')"
proof (induction ls arbitrary: nr ps)
  case (Cons l ls)
  then show ?case by (cases "parse_line nr l ps") simp_all
qed simp

lemma reads_append: "reads ls ps ps1 \<Longrightarrow> reads ls' ps1 ps2 \<Longrightarrow> reads (ls @ ls') ps ps2"
  by (simp add: reads_def parse_lines_append)

lemma reads_Cons: "(\<And>nr. parse_line nr l ps = Inr ps1) \<Longrightarrow> reads ls ps1 ps2 \<Longrightarrow> reads (l # ls) ps ps2"
  using reads_append [OF reads_line, of l ps ps1 ls ps2] by simp

section \<open>Descriptions\<close>

definition join_nl :: "string list \<Rightarrow> string" where
  "join_nl ls = hd ls @ concat (map (\<lambda>l. newline # l) (tl ls))"

lemma split_nl_Nil [simp]: "split_nl s \<noteq> []"
  by (cases s) simp_all

lemma join_split: "join_nl (split_nl s) = s"
proof (induction s)
  case (Cons c s)
  obtain l ls where "split_nl s = l # ls" using split_nl_Nil [of s] by (cases "split_nl s") blast+
  then show ?case using Cons by (auto simp: join_nl_def)
qed (simp add: join_nl_def)

lemma reads_comments:
  assumes "list_all is_space ind" "list_all (\<lambda>l. trim_space l = l) ls" "ps_description ps = Some t"
  shows "reads (map (\<lambda>l. ind @ ''# '' @ l) ls) ps (ps\<lparr>ps_description := Some (t @ concat (map (\<lambda>l. newline # l) ls))\<rparr>)"
  using assms(2,3)
proof (induction ls arbitrary: ps t)
  case (Cons l ls)
  let ?ps = "ps\<lparr>ps_description := Some (t @ newline # l)\<rparr>"
  have "parse_line nr (ind @ ''# '' @ l) ps = Inr ?ps" for nr
    using read_comment [OF assms(1), of l nr ps] Cons.prems by simp
  moreover have "reads (map (\<lambda>l. ind @ ''# '' @ l) ls) ?ps (?ps\<lparr>ps_description := Some ((t @ newline # l) @ concat (map (\<lambda>l. newline # l) ls))\<rparr>)"
    using Cons.prems by (intro Cons.IH) simp_all
  ultimately show ?case using reads_Cons [of "ind @ ''# '' @ l" ps ?ps] by simp
qed simp

lemma reads_description:
  assumes "list_all is_space ind" "good_description d" "ps_description ps = None"
  shows "reads (desc_lines ind d) ps (ps\<lparr>ps_description := d\<rparr>)"
proof (cases d)
  case None
  then show ?thesis using assms(3) by (simp add: desc_lines_def)
next
  case (Some t)
  obtain l ls where split: "split_nl t = l # ls" using split_nl_Nil [of t] by (cases "split_nl t") blast+
  have good: "trim_space l = l" "list_all (\<lambda>l. trim_space l = l) ls"
    using assms(2) by (simp_all add: Some good_description_def split)
  let ?ps = "ps\<lparr>ps_description := Some l\<rparr>"
  have "parse_line nr (ind @ ''# '' @ l) ps = Inr ?ps" for nr
    using read_comment [OF assms(1) good(1), of nr ps] assms(3) by simp
  moreover have "reads (map (\<lambda>l. ind @ ''# '' @ l) ls) ?ps (?ps\<lparr>ps_description := Some (l @ concat (map (\<lambda>l. newline # l) ls))\<rparr>)"
    by (rule reads_comments [OF assms(1) good(2)]) simp
  ultimately show ?thesis using reads_Cons [of "ind @ ''# '' @ l" ps ?ps] join_split [of t]
    by (simp add: Some desc_lines_def split join_nl_def)
qed

lemma blanks [simp]: "list_all is_space []" "list_all is_space ''  ''" "list_all is_space ''    ''" "list_all is_space ''      ''"
  "list_all is_space ''        ''"
  by (simp_all add: is_space_def)

section \<open>Literals and parameters\<close>

lemma reads_literals:
  assumes "list_all good_variant vs" "ind = ''      '' \<or> ind = ''        ''"
    and step: "\<And>nr va acc. literal_line nr (va_name va) ((st acc)\<lparr>ps_description := va_description va\<rparr>) = Inr (st (acc @ [va]))"
    and none: "\<And>acc. ps_description (st acc) = None"
  shows "reads (concat (map (print_variant ind) vs)) (st acc) (st (acc @ vs))"
  using assms(1)
proof (induction vs arbitrary: acc)
  case (Cons va vs)
  have va: "good_description (va_description va)" "is_word (va_name va)" using Cons.prems by (simp_all add: good_variant_def)
  have ind: "list_all is_space ind" using assms(2) blanks by blast
  let ?ps = "(st acc)\<lparr>ps_description := va_description va\<rparr>"
  have "parse_line nr (ind @ va_name va) ?ps = Inr (st (acc @ [va]))" for nr
    using read_literal [OF va(2) assms(2), of nr ?ps] step [of nr va acc] by simp
  then have "reads (print_variant ind va) (st acc) (st (acc @ [va]))"
    unfolding print_variant_def using reads_append [OF reads_description [OF ind va(1) none] reads_line] by blast
  moreover have "reads (concat (map (print_variant ind) vs)) (st (acc @ [va])) (st ((acc @ [va]) @ vs))"
    using Cons.prems by (intro Cons.IH) simp
  ultimately show ?case using reads_append [of "print_variant ind va" "st acc"] by simp
qed simp

text \<open>What \<open>Type::new\<close> makes of the word of a type: the type without its literals.\<close>

definition bare_type :: "pdl_type \<Rightarrow> pdl_type" where
  "bare_type t = (case t of TyEnum _ \<Rightarrow> TyEnum [] | _ \<Rightarrow> t)"

lemma simple_types: "good_simple t \<Longrightarrow> simple_type (type_word t) = t \<and> is_word (type_word t) \<and> \<not> is_array t"
  by (cases t) (auto simp: good_simple_def simple_type_def is_array_def is_word_def non_space_def is_space_def)

lemma types_read: "good_type t \<Longrightarrow> Type_new (type_word t) (is_array t) = t \<and> is_word (type_word t) \<and> bare_type t = t"
  using simple_types [of t] simple_types [of u for u]
  by (cases t) (auto simp: good_type_def Type_new_def is_array_def good_simple_def bare_type_def)

lemma param_types_read:
  assumes "good_param_type t"
  shows "Type_new (type_word t) (is_array t) = bare_type t \<and> is_word (type_word t)"
proof (cases "\<exists>vs. t = TyEnum vs")
  case True
  then show ?thesis by (auto simp: Type_new_def is_array_def bare_type_def simple_type_def is_word_def non_space_def is_space_def)
next
  case False
  then have "good_type t" using assms by (cases t) (simp_all add: good_param_type_def)
  then show ?thesis using types_read [of t] by simp
qed

lemma option_flag [simp]: "(\<exists>y. (if b then Some x else None) = Some y) = b" "(if b then Some x else None) = None \<longleftrightarrow> \<not> b"
  by simp_all

lemma no_description: "ps_description ps = None \<Longrightarrow> ps\<lparr>ps_description := None\<rparr> = ps"
  by (cases ps) simp

lemma variant_fields [simp]: "\<lparr>va_description = va_description va, va_name = va_name va\<rparr> = va"
  by simp

lemma param_fields:
  "\<lparr>pa_description = pa_description pa, pa_experimental = pa_experimental pa, pa_deprecated = pa_deprecated pa,
     pa_optional = pa_optional pa, pa_type = t, pa_name = pa_name pa, pa_raw_name = pa_raw_name pa,
     pa_is_circular_dep = pa_is_circular_dep pa\<rparr> = pa\<lparr>pa_type := t\<rparr>"
  by simp

lemma reads_param:
  assumes "ps_member ps = Some m" "ps_description ps = None" "last_domain ps = Some d" "good_param (do_name d) pa"
  shows "\<exists>e. reads (print_param pa) ps (ps\<lparr>ps_member := Some (with_params (member_params m @ [pa]) m), ps_member_enum := e\<rparr>)"
proof -
  have good: "good_description (pa_description pa)" "is_word (pa_name pa)" "good_param_type (pa_type pa)"
    "pa_raw_name pa = raw_name (do_name d) (pa_name pa)" "pa_is_circular_dep pa = is_circular_dep (do_name d) (pa_name pa)"
    using assms(4) by (simp_all add: good_param_def named_in_def)
  have word: "is_word (type_word (pa_type pa))" "type_word (pa_type pa) \<notin> {''experimental'', ''deprecated'', ''optional''}"
    "Type_new (type_word (pa_type pa)) (is_array (pa_type pa)) = bare_type (pa_type pa)"
    using param_types_read [OF good(3)] good(3) by (simp_all add: good_param_type_def)
  let ?ps = "ps\<lparr>ps_description := pa_description pa\<rparr>"
  let ?e = "ps_member_enum ps \<or> type_word (pa_type pa) = ''enum''"
  let ?next = "ps\<lparr>ps_member := Some (with_params (member_params m @ [pa\<lparr>pa_type := bare_type (pa_type pa)\<rparr>]) m), ps_member_enum := ?e\<rparr>"
  have "parse_line nr (param_line pa) ?ps = Inr ?next" for nr
    using read_member [OF good(2) word(1,2), of nr "pa_experimental pa" "pa_deprecated pa" "pa_optional pa" "is_array (pa_type pa)" ?ps]
      assms(1-3) good(4,5) [symmetric] word(3) no_description [OF assms(2)]
    by (simp add: param_line_def print_type_def member_line_def take_description_def has_group_def captured_def param_fields Let_def
        split del: if_split)
  then have head: "reads (desc_lines ''      '' (pa_description pa) @ [param_line pa]) ps ?next"
    by (intro reads_append [OF reads_description [OF _ good(1) assms(2)] reads_line]) simp
  show ?thesis
  proof (cases "\<exists>vs. pa_type pa = TyEnum vs")
    case False
    then have "bare_type (pa_type pa) = pa_type pa" by (cases "pa_type pa") (simp_all add: bare_type_def)
    moreover have "print_param pa = desc_lines ''      '' (pa_description pa) @ [param_line pa]"
      using False by (cases "pa_type pa") (simp_all add: print_param_def)
    ultimately show ?thesis using head by auto
  next
    case True
    then obtain vs where vs: "pa_type pa = TyEnum vs" by blast
    let ?st = "\<lambda>acc. ps\<lparr>ps_member := Some (with_params (member_params m @ [pa\<lparr>pa_type := TyEnum acc\<rparr>]) m), ps_member_enum := True\<rparr>"
    have "reads (concat (map (print_variant ''        '') vs)) (?st []) (?st ([] @ vs))"
    proof (rule reads_literals)
      show "list_all good_variant vs" using good(3) by (simp add: vs good_param_type_def)
      fix nr va acc
      show "literal_line nr (va_name va) ((?st acc)\<lparr>ps_description := va_description va\<rparr>) = Inr (?st (acc @ [va]))"
        using assms(2) by (simp add: literal_line_def take_description_def no_description Let_def)
    qed (use assms(2) in simp_all)
    moreover have "?next = ?st []" by (simp add: vs bare_type_def)
    moreover have whole: "pa\<lparr>pa_type := TyEnum vs\<rparr> = pa" using vs by (cases pa) simp
    have "?st vs = ps\<lparr>ps_member := Some (with_params (member_params m @ [pa]) m), ps_member_enum := True\<rparr>"
      using whole by simp
    ultimately have "reads (print_param pa) ps (ps\<lparr>ps_member := Some (with_params (member_params m @ [pa]) m), ps_member_enum := True\<rparr>)"
      using reads_append [OF head, of "concat (map (print_variant ''        '') vs)"] by (simp add: print_param_def vs)
    then show ?thesis by blast
  qed
qed

lemma reads_params:
  assumes "ps_member ps = Some m" "ps_description ps = None" "last_domain ps = Some d" "list_all (good_param (do_name d)) pas"
  shows "\<exists>e. reads (concat (map print_param pas)) ps (ps\<lparr>ps_member := Some (with_params (member_params m @ pas) m), ps_member_enum := e\<rparr>)"
  using assms(1,2,3,4)
proof (induction pas arbitrary: ps m)
  case Nil
  then show ?case by (auto intro!: exI [of _ "ps_member_enum ps"])
next
  case (Cons pa pas)
  obtain e where first: "reads (print_param pa) ps (ps\<lparr>ps_member := Some (with_params (member_params m @ [pa]) m), ps_member_enum := e\<rparr>)"
    using reads_param [OF Cons.prems(1-3), of pa] Cons.prems(4) by auto
  let ?ps = "ps\<lparr>ps_member := Some (with_params (member_params m @ [pa]) m), ps_member_enum := e\<rparr>"
  have "\<exists>e'. reads (concat (map print_param pas)) ?ps (?ps\<lparr>ps_member := Some (with_params
      (member_params (with_params (member_params m @ [pa]) m) @ pas) (with_params (member_params m @ [pa]) m)), ps_member_enum := e'\<rparr>)"
    using Cons.prems by (intro Cons.IH) simp_all
  then show ?case using reads_append [OF first, of "concat (map print_param pas)"] by auto
qed

section \<open>Elements\<close>

text \<open>The state within an element, and the state between elements of a domain: the parser may still hold the
  element before, which goes into the domain when the next one begins.\<close>

definition in_element :: "version \<Rightarrow> string option \<Rightarrow> domain list \<Rightarrow> element \<Rightarrow> member option \<Rightarrow> bool \<Rightarrow> parser" where
  "in_element v pd ds el m e = \<lparr>ps_protocol = \<lparr>pr_description = pd, pr_version = Version_default, pr_domains = ds\<rparr>,
     ps_description = None, ps_version = Some v, ps_element = Some el, ps_member = m, ps_member_enum = e\<rparr>"

definition between :: "version \<Rightarrow> string option \<Rightarrow> domain list \<Rightarrow> string option \<Rightarrow> bool \<Rightarrow> parser" where
  "between v pd ds desc e = \<lparr>ps_protocol = \<lparr>pr_description = pd, pr_version = Version_default, pr_domains = ds\<rparr>,
     ps_description = desc, ps_version = Some v, ps_element = None, ps_member = None, ps_member_enum = e\<rparr>"

definition at_domain :: "version \<Rightarrow> string option \<Rightarrow> domain list \<Rightarrow> domain \<Rightarrow> parser \<Rightarrow> bool" where
  "at_domain v pd pre d ps =
     ((\<exists>e. close_last ps = Inr (between v pd (pre @ [d]) (ps_description ps) e)) \<and>
      (\<exists>d'. last_domain ps = Some d' \<and> do_name d' = do_name d))"

lemma at_domainE:
  assumes "at_domain v pd pre d ps"
  obtains e d' where "close_last ps = Inr (between v pd (pre @ [d]) (ps_description ps) e)"
    "last_domain ps = Some d'" "do_name d' = do_name d"
  using assms by (auto simp: at_domain_def)

lemma in_element_simps [simp]:
  "ps_member (in_element v pd ds el m e) = m" "ps_element (in_element v pd ds el m e) = Some el"
  "ps_description (in_element v pd ds el m e) = None" "ps_member_enum (in_element v pd ds el m e) = e"
  "last_domain (in_element v pd (pre @ [d]) el m e) = Some d"
  "(in_element v pd ds el m e)\<lparr>ps_member := m', ps_member_enum := e'\<rparr> = in_element v pd ds el m' e'"
  "(in_element v pd ds el m e)\<lparr>ps_member_enum := e'\<rparr> = in_element v pd ds el m e'"
  "(in_element v pd ds el m e)\<lparr>ps_member := m'\<rparr> = in_element v pd ds el m' e"
  "(in_element v pd ds el m e)\<lparr>ps_element := Some el'\<rparr> = in_element v pd ds el' m e"
  by (simp_all add: in_element_def last_domain_def)

lemma between_simps [simp]:
  "(between v pd ds desc e)\<lparr>ps_description := None, ps_element := Some el\<rparr> = in_element v pd ds el None e"
  "ps_description (between v pd ds desc e) = desc"
  by (simp_all add: between_def in_element_def)

lemma close_in_element:
  "close_last (in_element v pd (pre @ [d]) el m e) =
    bind_result (case m of None \<Rightarrow> Inr el | Some m \<Rightarrow> add_member m el) (\<lambda>el. Inr (between v pd (pre @ [consume el d]) None e))"
  by (cases m; cases "add_member (the m) el")
    (simp_all add: close_last_def close_element_def in_element_def last_domain_def between_def set_last_def set_domains_def)

lemma consume_name [simp]: "do_name (consume el d) = do_name d"
  by (cases el) simp_all

lemma at_domain_closes:
  "(case m of None \<Rightarrow> Inr el | Some m \<Rightarrow> add_member m el) = Inr el' \<Longrightarrow>
    at_domain v pd pre (consume el' d) (in_element v pd (pre @ [d]) el m e)"
  by (auto simp: at_domain_def close_in_element)

lemma at_domain_description:
  assumes "at_domain v pd pre d ps"
  shows "at_domain v pd pre d (ps\<lparr>ps_description := x\<rparr>)"
proof -
  have "close_last (ps\<lparr>ps_description := x\<rparr>) = map_sum id (\<lambda>ps. ps\<lparr>ps_description := x\<rparr>) (close_last ps)"
    by (cases "last_domain ps"; cases "ps_element ps"; cases "ps_member ps"; cases "add_member (the (ps_member ps)) (the (ps_element ps))")
      (simp_all add: close_last_def close_element_def set_last_def set_domains_def)
  with assms show ?thesis by (auto simp: at_domain_def between_def)
qed

text \<open>One section of parameters.\<close>

lemma reads_section:
  assumes "list_all (good_param (do_name d)) pas" "w \<in> {''parameters'', ''returns'', ''properties''}"
    and "(case m of None \<Rightarrow> Inr el | Some m \<Rightarrow> add_member m el) = Inr el'"
    and "mk = (if w = ''parameters'' then MemberParameters else if w = ''returns'' then MemberReturns else MemberProperties)"
  shows "\<exists>e'. reads ((''    '' @ w) # concat (map print_param pas)) (in_element v pd (pre @ [d]) el m e) (in_element v pd (pre @ [d]) el' (Some (mk pas)) e')"
proof -
  let ?ps = "in_element v pd (pre @ [d]) el' (Some (mk [])) e"
  have head: "parse_line nr (''    '' @ w) (in_element v pd (pre @ [d]) el m e) = Inr ?ps" for nr
    using read_section [OF assms(2)] assms(2-4) by (cases m) (auto simp: section_line_def captured_def)
  have "\<exists>e'. reads (concat (map print_param pas)) ?ps
      (?ps\<lparr>ps_member := Some (with_params (member_params (mk []) @ pas) (mk [])), ps_member_enum := e'\<rparr>)"
    by (rule reads_params [OF _ _ _ assms(1)]) simp_all
  moreover have "with_params (member_params (mk []) @ pas) (mk []) = mk pas" by (simp add: assms(4))
  ultimately obtain e' where "reads (concat (map print_param pas)) ?ps (in_element v pd (pre @ [d]) el' (Some (mk pas)) e')"
    by auto
  from reads_Cons [OF head this] show ?thesis by blast
qed

lemma type_fields:
  "\<lparr>td_description = td_description td, td_experimental = td_experimental td, td_deprecated = td_deprecated td, td_name = td_name td,
     td_extends = td_extends td, td_item = it, td_raw_name = td_raw_name td, td_is_circular_dep = td_is_circular_dep td\<rparr> = td\<lparr>td_item := it\<rparr>"
  by simp

lemma reads_type_head:
  assumes "at_domain v pd pre d ps" "ps_description ps = None" "good_type_def (do_name d) td"
  shows "\<exists>e. reads (desc_lines ''  '' (td_description td) @
     [''  '' @ element_flags (td_experimental td) (td_deprecated td) @ ''type '' @ td_name td @ '' extends '' @
        print_type (td_extends td)]) ps (in_element v pd (pre @ [d]) (ElementType (td\<lparr>td_item := None\<rparr>)) None e)"
proof -
  let ?ps = "ps\<lparr>ps_description := td_description td\<rparr>"
  have good: "good_description (td_description td)" "is_word (td_name td)" "good_type (td_extends td)"
    "td_raw_name td = raw_name (do_name d) (td_name td)" "td_is_circular_dep td = is_circular_dep (do_name d) (td_name td)"
    using assms(3) by (simp_all add: good_type_def_def named_in_def)
  from at_domain_description [OF assms(1), of "td_description td"]
  obtain e d' where at: "close_last ?ps = Inr (between v pd (pre @ [d]) (td_description td) e)"
    "last_domain ?ps = Some d'" "do_name d' = do_name d"
    by (rule at_domainE) simp
  let ?line = "''  '' @ element_flags (td_experimental td) (td_deprecated td) @ ''type '' @ td_name td @ '' extends '' @ print_type (td_extends td)"
  have "parse_line nr ?line ?ps = Inr (in_element v pd (pre @ [d]) (ElementType (td\<lparr>td_item := None\<rparr>)) None e)" for nr
    using read_type [OF good(2), of "type_word (td_extends td)" nr "td_experimental td" "td_deprecated td" "is_array (td_extends td)" ?ps]
      types_read [OF good(3)] at good(4,5) [symmetric]
    by (simp add: print_type_def type_line_def take_description_def has_group_def captured_def type_fields Let_def)
  then show ?thesis using reads_append [OF reads_description [OF _ good(1) assms(2)] reads_line, of "''  ''" ?line] by auto
qed

lemma reads_type_def:
  assumes "at_domain v pd pre d ps" "ps_description ps = None" "good_type_def (do_name d) td"
  shows "\<exists>ps'. reads (print_type_def td) ps ps' \<and> at_domain v pd pre (consume (ElementType td) d) ps' \<and> ps_description ps' = None"
proof -
  let ?td = "\<lambda>it. ElementType (td\<lparr>td_item := it\<rparr>)"
  obtain e where head: "reads (desc_lines ''  '' (td_description td) @
     [''  '' @ element_flags (td_experimental td) (td_deprecated td) @ ''type '' @ td_name td @ '' extends '' @
        print_type (td_extends td)]) ps (in_element v pd (pre @ [d]) (?td None) None e)"
    using reads_type_head [OF assms] by blast
  have item: "good_item (do_name d) (td_item td)" using assms(3) by (simp add: good_type_def_def)
  have whole: "td\<lparr>td_item := it\<rparr> = td" if "td_item td = it" for it using that by (cases td) simp
  have "\<exists>el m e'. reads (print_item (td_item td)) (in_element v pd (pre @ [d]) (?td None) None e) (in_element v pd (pre @ [d]) el m e') \<and>
      (case m of None \<Rightarrow> Inr el | Some m \<Rightarrow> add_member m el) = Inr (ElementType td)"
  proof (cases "td_item td")
    case None
    then show ?thesis using whole [OF None] by (auto simp: print_item_def intro!: exI [of _ "None :: member option"])
  next
    case (Some it)
    show ?thesis
    proof (cases it)
      case (ItemEnum vs)
      let ?st = "\<lambda>acc. in_element v pd (pre @ [d]) (?td (Some (ItemEnum acc))) None False"
      have "parse_line nr ''    enum'' (in_element v pd (pre @ [d]) (?td None) None e) = Inr (?st [])" for nr
        by (simp add: read_enum enum_line_def)
      moreover have "reads (concat (map (print_variant ''      '') vs)) (?st []) (?st ([] @ vs))"
      proof (rule reads_literals)
        show "list_all good_variant vs" using item by (simp add: good_item_def Some ItemEnum)
        fix nr va acc
        show "literal_line nr (va_name va) ((?st acc)\<lparr>ps_description := va_description va\<rparr>) = Inr (?st (acc @ [va]))"
          by (simp add: literal_line_def take_description_def no_description Let_def)
      qed simp_all
      ultimately have "reads (print_item (td_item td)) (in_element v pd (pre @ [d]) (?td None) None e) (?st vs)"
        using reads_Cons [of "''    enum''"] by (simp add: print_item_def Some ItemEnum)
      then show ?thesis using whole [of "Some (ItemEnum vs)"] Some ItemEnum
        by (intro exI [of _ "ElementType td"] exI [of _ None] exI [of _ False]) simp
    next
      case (ItemProperties pas)
      have pas: "list_all (good_param (do_name d)) pas" using item by (simp add: good_item_def Some ItemProperties)
      obtain e' where "reads ((''    '' @ ''properties'') # concat (map print_param pas)) (in_element v pd (pre @ [d]) (?td None) None e)
          (in_element v pd (pre @ [d]) (?td None) (Some (MemberProperties pas)) e')"
        using reads_section [OF pas, of "''properties''" "?td None" None "?td None" MemberProperties v pd pre e] by auto
      moreover have "add_member (MemberProperties pas) (?td None) = Inr (ElementType td)"
        using whole [of "Some (ItemProperties pas)"] Some ItemProperties by simp
      ultimately show ?thesis
        by (intro exI [of _ "?td None"] exI [of _ "Some (MemberProperties pas)"] exI [of _ e'])
          (simp add: print_item_def Some ItemProperties)
    qed
  qed
  then obtain el m e' where rest: "reads (print_item (td_item td)) (in_element v pd (pre @ [d]) (?td None) None e) (in_element v pd (pre @ [d]) el m e')"
    "(case m of None \<Rightarrow> Inr el | Some m \<Rightarrow> add_member m el) = Inr (ElementType td)" by blast
  show ?thesis
    using reads_append [OF head rest(1)] at_domain_closes [OF rest(2), of v pd pre d e']
    by (intro exI [of _ "in_element v pd (pre @ [d]) el m e'"]) (simp add: print_type_def_def)
qed

lemma reads_item_head:
  assumes "at_domain v pd pre d ps" "ps_description ps = None" "good_description desc" "named_in (do_name d) n raw circ"
    and "w = ''command'' \<and> el = ElementCommand \<lparr>pc_description = desc, pc_experimental = x, pc_deprecated = y,
        pc_name = n, pc_redirect = None, pc_parameters = [], pc_returns = [], pc_raw_name = raw, pc_is_circular_dep = circ\<rparr> \<or>
      w = ''event'' \<and> el = ElementEvent \<lparr>pe_description = desc, pe_experimental = x, pe_deprecated = y, pe_name = n,
        pe_parameters = [], pe_raw_name = raw, pe_is_circular_dep = circ\<rparr>"
  shows "\<exists>e. reads (desc_lines ''  '' desc @ [''  '' @ element_flags x y @ w @ '' '' @ n]) ps (in_element v pd (pre @ [d]) el None e)"
proof -
  let ?ps = "ps\<lparr>ps_description := desc\<rparr>"
  have n: "is_word n" "raw = raw_name (do_name d) n" "circ = is_circular_dep (do_name d) n"
    using assms(4) by (simp_all add: named_in_def)
  from at_domain_description [OF assms(1), of desc]
  obtain e d' where at: "close_last ?ps = Inr (between v pd (pre @ [d]) desc e)"
    "last_domain ?ps = Some d'" "do_name d' = do_name d"
    by (rule at_domainE) simp
  let ?line = "''  '' @ element_flags x y @ w @ '' '' @ n"
  have "w = ''command'' \<or> w = ''event''" using assms(5) by blast
  from read_item [OF n(1) this, of nr x y ?ps for nr]
  have "parse_line nr ?line ?ps = Inr (in_element v pd (pre @ [d]) el None e)" for nr
    using assms(5) at n(2,3)
    by (auto simp: item_line_def take_description_def has_group_def captured_def Let_def)
  then show ?thesis using reads_append [OF reads_description [OF _ assms(3,2)] reads_line, of "''  ''" ?line] by auto
qed

lemma reads_redirect:
  assumes "good_redirect r" "pc_redirect pc = None"
  shows "reads (print_redirect r) (in_element v pd ds (ElementCommand pc) None e)
    (in_element v pd ds (ElementCommand (pc\<lparr>pc_redirect := r\<rparr>)) None e)"
proof (cases r)
  case None
  have "pc\<lparr>pc_redirect := None\<rparr> = pc" using assms(2) by (cases pc) simp
  then show ?thesis by (simp add: None print_redirect_def)
next
  case (Some re)
  have re: "good_description (re_description re)" "is_word (re_domain re)" "re_name re = None"
    using assms(1) by (simp_all add: good_redirect_def Some)
  have fields: "\<lparr>re_description = re_description re, re_domain = re_domain re, re_name = None\<rparr> = re"
    using re(3) by (cases re) simp
  let ?ps = "(in_element v pd ds (ElementCommand pc) None e)\<lparr>ps_description := re_description re\<rparr>"
  have "parse_line nr (''    redirect '' @ re_domain re) ?ps = Inr (in_element v pd ds (ElementCommand (pc\<lparr>pc_redirect := Some re\<rparr>)) None e)" for nr
    by (simp add: read_redirect [OF re(2)] redirect_line_def take_description_def captured_def no_description fields Let_def
        del: append_Cons)
  then show ?thesis
    using reads_append [OF reads_description [OF _ re(1)] reads_line, of "''    ''" "in_element v pd ds (ElementCommand pc) None e"]
    by (simp add: Some print_redirect_def)
qed

text \<open>An optional section of a command or an event; \<open>set\<close> is what closing it does.\<close>

lemma reads_optional_section:
  assumes "list_all (good_param (do_name d)) pas" "w \<in> {''parameters'', ''returns'', ''properties''}"
    and "mk = (if w = ''parameters'' then MemberParameters else if w = ''returns'' then MemberReturns else MemberProperties)"
    and "(case m of None \<Rightarrow> Inr el | Some m \<Rightarrow> add_member m el) = Inr el1" "add_member (mk pas) el1 = Inr el2" "pas = [] \<Longrightarrow> el2 = el1"
  shows "\<exists>el' m' e'. reads (print_section w pas) (in_element v pd (pre @ [d]) el m e) (in_element v pd (pre @ [d]) el' m' e') \<and>
    (case m' of None \<Rightarrow> Inr el' | Some m \<Rightarrow> add_member m el') = Inr el2"
proof (cases "pas = []")
  case True
  then show ?thesis using assms(4,6) by (intro exI [of _ el] exI [of _ m] exI [of _ e]) (simp add: print_section_def)
next
  case False
  obtain e' where "reads ((''    '' @ w) # concat (map print_param pas)) (in_element v pd (pre @ [d]) el m e)
      (in_element v pd (pre @ [d]) el1 (Some (mk pas)) e')"
    using reads_section [OF assms(1,2,4,3), of v pd pre e] by blast
  then show ?thesis using False assms(5)
    by (intro exI [of _ el1] exI [of _ "Some (mk pas)"] exI [of _ e']) (simp add: print_section_def)
qed

lemma reads_event:
  assumes "at_domain v pd pre d ps" "ps_description ps = None" "good_event (do_name d) pe"
  shows "\<exists>ps'. reads (print_event pe) ps ps' \<and> at_domain v pd pre (consume (ElementEvent pe) d) ps' \<and> ps_description ps' = None"
proof -
  have good: "good_description (pe_description pe)" "named_in (do_name d) (pe_name pe) (pe_raw_name pe) (pe_is_circular_dep pe)"
    "list_all (good_param (do_name d)) (pe_parameters pe)" using assms(3) by (simp_all add: good_event_def)
  let ?el = "ElementEvent (pe\<lparr>pe_parameters := []\<rparr>)"
  obtain e where head: "reads (desc_lines ''  '' (pe_description pe) @
      [''  '' @ element_flags (pe_experimental pe) (pe_deprecated pe) @ ''event'' @ '' '' @ pe_name pe]) ps (in_element v pd (pre @ [d]) ?el None e)"
    using reads_item_head [OF assms(1,2) good(1,2), of "''event''" ?el "pe_experimental pe" "pe_deprecated pe"] by auto
  have whole: "pe_parameters pe = [] \<Longrightarrow> pe\<lparr>pe_parameters := []\<rparr> = pe" by (cases pe) simp
  obtain el' m' e' where rest: "reads (print_section ''parameters'' (pe_parameters pe)) (in_element v pd (pre @ [d]) ?el None e)
      (in_element v pd (pre @ [d]) el' m' e')"
    "(case m' of None \<Rightarrow> Inr el' | Some m \<Rightarrow> add_member m el') = Inr (ElementEvent pe)"
    using reads_optional_section [OF good(3), of "''parameters''" MemberParameters ?el None ?el "ElementEvent pe" v pd pre e] whole
    by auto
  show ?thesis
    using reads_append [OF head rest(1)] at_domain_closes [OF rest(2), of v pd pre d e']
    by (intro exI [of _ "in_element v pd (pre @ [d]) el' m' e'"]) (simp add: print_event_def)
qed

lemma reads_command:
  assumes "at_domain v pd pre d ps" "ps_description ps = None" "good_command (do_name d) pc"
  shows "\<exists>ps'. reads (print_command pc) ps ps' \<and> at_domain v pd pre (consume (ElementCommand pc) d) ps' \<and> ps_description ps' = None"
proof -
  have good: "good_description (pc_description pc)" "named_in (do_name d) (pc_name pc) (pc_raw_name pc) (pc_is_circular_dep pc)"
    "list_all (good_param (do_name d)) (pc_parameters pc)" "list_all (good_param (do_name d)) (pc_returns pc)" "good_redirect (pc_redirect pc)"
    using assms(3) by (simp_all add: good_command_def)
  let ?pc = "\<lambda>r ps rs. pc\<lparr>pc_redirect := r, pc_parameters := ps, pc_returns := rs\<rparr>"
  obtain e where head: "reads (desc_lines ''  '' (pc_description pc) @
      [''  '' @ element_flags (pc_experimental pc) (pc_deprecated pc) @ ''command'' @ '' '' @ pc_name pc]) ps
      (in_element v pd (pre @ [d]) (ElementCommand (?pc None [] [])) None e)"
    using reads_item_head [OF assms(1,2) good(1,2), of "''command''" "ElementCommand (?pc None [] [])" "pc_experimental pc" "pc_deprecated pc"]
    by auto
  have redirect: "reads (print_redirect (pc_redirect pc)) (in_element v pd (pre @ [d]) (ElementCommand (?pc None [] [])) None e)
      (in_element v pd (pre @ [d]) (ElementCommand (?pc (pc_redirect pc) [] [])) None e)"
    using reads_redirect [OF good(5), of "?pc None [] []" v pd "pre @ [d]" e] by simp
  obtain el1 m1 e1 where params: "reads (print_section ''parameters'' (pc_parameters pc))
      (in_element v pd (pre @ [d]) (ElementCommand (?pc (pc_redirect pc) [] [])) None e) (in_element v pd (pre @ [d]) el1 m1 e1)"
    "(case m1 of None \<Rightarrow> Inr el1 | Some m \<Rightarrow> add_member m el1) = Inr (ElementCommand (?pc (pc_redirect pc) (pc_parameters pc) []))"
    using reads_optional_section [OF good(3), of "''parameters''" MemberParameters "ElementCommand (?pc (pc_redirect pc) [] [])" None
        "ElementCommand (?pc (pc_redirect pc) [] [])" "ElementCommand (?pc (pc_redirect pc) (pc_parameters pc) [])" v pd pre e]
    by auto
  have whole: "?pc (pc_redirect pc) (pc_parameters pc) (pc_returns pc) = pc" by simp
  obtain el2 m2 e2 where returns: "reads (print_section ''returns'' (pc_returns pc))
      (in_element v pd (pre @ [d]) el1 m1 e1) (in_element v pd (pre @ [d]) el2 m2 e2)"
    "(case m2 of None \<Rightarrow> Inr el2 | Some m \<Rightarrow> add_member m el2) = Inr (ElementCommand pc)"
    using reads_optional_section [OF good(4), of "''returns''" MemberReturns el1 m1
        "ElementCommand (?pc (pc_redirect pc) (pc_parameters pc) [])" "ElementCommand pc" v pd pre e1] params(2) whole
    by auto
  show ?thesis
    using reads_append [OF head reads_append [OF redirect reads_append [OF params(1) returns(1)]]]
      at_domain_closes [OF returns(2), of v pd pre d e2]
    by (intro exI [of _ "in_element v pd (pre @ [d]) el2 m2 e2"]) (simp add: print_command_def)
qed

section \<open>Domains and the whole file\<close>

text \<open>A list of elements of one kind.\<close>

lemma reads_elements:
  assumes "at_domain v pd pre d ps" "ps_description ps = None"
    and "\<And>d ps x. at_domain v pd pre d ps \<Longrightarrow> ps_description ps = None \<Longrightarrow> do_name d = n \<Longrightarrow> x \<in> set xs \<Longrightarrow>
      \<exists>ps'. reads (pr x) ps ps' \<and> at_domain v pd pre (consume (el x) d) ps' \<and> ps_description ps' = None"
    and "do_name d = n"
  shows "\<exists>ps'. reads (concat (map pr xs)) ps ps' \<and> at_domain v pd pre (fold (\<lambda>x. consume (el x)) xs d) ps' \<and> ps_description ps' = None"
  using assms
proof (induction xs arbitrary: d ps)
  case (Cons x xs)
  obtain ps1 where first: "reads (pr x) ps ps1" "at_domain v pd pre (consume (el x) d) ps1" "ps_description ps1 = None"
    using Cons.prems(3) [OF Cons.prems(1,2,4), of x] by auto
  have "\<exists>ps'. reads (concat (map pr xs)) ps1 ps' \<and> at_domain v pd pre (fold (\<lambda>x. consume (el x)) xs (consume (el x) d)) ps' \<and>
      ps_description ps' = None"
    using Cons.prems(3,4) by (intro Cons.IH [OF first(2,3)]) simp_all
  then show ?case using reads_append [OF first(1)] by auto
qed auto

lemma consume_all:
  "fold (\<lambda>td. consume (ElementType td)) tds d = d\<lparr>do_types := do_types d @ tds\<rparr>"
  "fold (\<lambda>pc. consume (ElementCommand pc)) pcs d = d\<lparr>do_commands := do_commands d @ pcs\<rparr>"
  "fold (\<lambda>pe. consume (ElementEvent pe)) pes d = d\<lparr>do_events := do_events d @ pes\<rparr>"
proof -
  show "fold (\<lambda>td. consume (ElementType td)) tds d = d\<lparr>do_types := do_types d @ tds\<rparr>" by (induction tds arbitrary: d) simp_all
  show "fold (\<lambda>pc. consume (ElementCommand pc)) pcs d = d\<lparr>do_commands := do_commands d @ pcs\<rparr>" by (induction pcs arbitrary: d) simp_all
  show "fold (\<lambda>pe. consume (ElementEvent pe)) pes d = d\<lparr>do_events := do_events d @ pes\<rparr>" by (induction pes arbitrary: d) simp_all
qed

lemma reads_depends:
  assumes "list_all is_word ns"
  shows "reads (map (\<lambda>n. ''  depends on '' @ n) ns) (between v pd (pre @ [d]) None e)
    (between v pd (pre @ [d\<lparr>do_dependencies := do_dependencies d @ ns\<rparr>]) None e)"
  using assms
proof (induction ns arbitrary: d)
  case (Cons n ns)
  have step: "parse_line nr (''  depends on '' @ n) (between v pd (pre @ [d]) None e) =
      Inr (between v pd (pre @ [d\<lparr>do_dependencies := do_dependencies d @ [n]\<rparr>]) None e)" for nr
    using read_depends [of n nr "between v pd (pre @ [d]) None e"] Cons.prems
    by (simp add: depends_line_def last_domain_def between_def set_last_def set_domains_def captured_def)
  have "reads (map (\<lambda>n. ''  depends on '' @ n) ns) (between v pd (pre @ [d\<lparr>do_dependencies := do_dependencies d @ [n]\<rparr>]) None e)
      (between v pd (pre @ [(d\<lparr>do_dependencies := do_dependencies d @ [n]\<rparr>)\<lparr>do_dependencies := (do_dependencies d @ [n]) @ ns\<rparr>]) None e)"
    using Cons.IH [of "d\<lparr>do_dependencies := do_dependencies d @ [n]\<rparr>"] Cons.prems by simp
  from reads_Cons [OF step this] show ?case by simp
qed simp

lemma close_between: "close_last (between v pd ds desc e) = Inr (between v pd ds desc e)"
  by (cases ds rule: rev_cases)
    (simp_all add: close_last_def last_domain_def between_def close_element_def set_last_def set_domains_def)

lemma at_between: "at_domain v pd pre d (between v pd (pre @ [d]) desc e)"
  by (auto simp: at_domain_def close_between) (simp add: between_def last_domain_def)

text \<open>Between domains nothing is open, or an element of the domain before.\<close>

definition at_file :: "version \<Rightarrow> string option \<Rightarrow> domain list \<Rightarrow> parser \<Rightarrow> bool" where
  "at_file v pd ds ps = (\<exists>e. close_last ps = Inr (between v pd ds (ps_description ps) e))"

lemma at_file_description: "at_file v pd ds ps \<Longrightarrow> at_file v pd ds (ps\<lparr>ps_description := x\<rparr>)"
proof -
  have "close_last (ps\<lparr>ps_description := x\<rparr>) = map_sum id (\<lambda>ps. ps\<lparr>ps_description := x\<rparr>) (close_last ps)"
    by (cases "last_domain ps"; cases "ps_element ps"; cases "ps_member ps"; cases "add_member (the (ps_member ps)) (the (ps_element ps))")
      (simp_all add: close_last_def close_element_def set_last_def set_domains_def)
  then show "at_file v pd ds ps \<Longrightarrow> at_file v pd ds (ps\<lparr>ps_description := x\<rparr>)" by (auto simp: at_file_def between_def)
qed

lemma reads_domain:
  assumes "at_file v pd pre ps" "ps_description ps = None" "good_domain d"
  shows "\<exists>ps'. reads (print_domain d) ps ps' \<and> at_file v pd (pre @ [d]) ps' \<and> ps_description ps' = None"
proof -
  have good: "good_description (do_description d)" "is_word (do_name d)" "list_all is_word (do_dependencies d)"
    "list_all (good_type_def (do_name d)) (do_types d)" "list_all (good_command (do_name d)) (do_commands d)"
    "list_all (good_event (do_name d)) (do_events d)" using assms(3) by (simp_all add: good_domain_def)
  let ?ps = "ps\<lparr>ps_description := do_description d\<rparr>"
  let ?d = "\<lambda>ns ts cs es. d\<lparr>do_dependencies := ns, do_types := ts, do_commands := cs, do_events := es\<rparr>"
  obtain e where closed: "close_last ?ps = Inr (between v pd pre (do_description d) e)"
    using at_file_description [OF assms(1), of "do_description d"] by (auto simp: at_file_def)
  let ?line = "element_flags (do_experimental d) (do_deprecated d) @ ''domain '' @ do_name d"
  have "parse_line nr ?line ?ps = Inr (between v pd (pre @ [?d [] [] [] []]) None e)" for nr
    using read_domain [OF good(2), of nr "do_experimental d" "do_deprecated d" ?ps] closed
    by (simp add: domain_line_def take_description_def between_def set_domains_def has_group_def captured_def Let_def)
  then have head: "reads (desc_lines [] (do_description d) @ [?line]) ps (between v pd (pre @ [?d [] [] [] []]) None e)"
    by (intro reads_append [OF reads_description [OF _ good(1) assms(2)] reads_line]) simp
  let ?d1 = "?d (do_dependencies d) [] [] []"
  have depends: "reads (map (\<lambda>n. ''  depends on '' @ n) (do_dependencies d)) (between v pd (pre @ [?d [] [] [] []]) None e)
      (between v pd (pre @ [?d1]) None e)"
    using reads_depends [OF good(3), of v pd pre "?d [] [] [] []" e] by simp
  obtain ps1 where types: "reads (concat (map print_type_def (do_types d))) (between v pd (pre @ [?d1]) None e) ps1"
    "at_domain v pd pre (fold (\<lambda>x. consume (ElementType x)) (do_types d) ?d1) ps1" "ps_description ps1 = None"
    using reads_elements [OF at_between, of v pd pre ?d1 None e "do_name d" "do_types d" print_type_def ElementType]
      reads_type_def good(4) by (auto simp: list_all_iff)
  let ?d2 = "?d (do_dependencies d) (do_types d) [] []"
  have d2: "fold (\<lambda>x. consume (ElementType x)) (do_types d) ?d1 = ?d2" by (simp add: consume_all)
  obtain ps2 where commands: "reads (concat (map print_command (do_commands d))) ps1 ps2"
    "at_domain v pd pre (fold (\<lambda>x. consume (ElementCommand x)) (do_commands d) ?d2) ps2" "ps_description ps2 = None"
    using reads_elements [OF types(2) [unfolded d2] types(3), of "do_name d" "do_commands d" print_command ElementCommand]
      reads_command good(5) by (auto simp: list_all_iff)
  let ?d3 = "?d (do_dependencies d) (do_types d) (do_commands d) []"
  have d3: "fold (\<lambda>x. consume (ElementCommand x)) (do_commands d) ?d2 = ?d3" by (simp add: consume_all)
  obtain ps3 where events: "reads (concat (map print_event (do_events d))) ps2 ps3"
    "at_domain v pd pre (fold (\<lambda>x. consume (ElementEvent x)) (do_events d) ?d3) ps3" "ps_description ps3 = None"
    using reads_elements [OF commands(2) [unfolded d3] commands(3), of "do_name d" "do_events d" print_event ElementEvent]
      reads_event good(6) by (auto simp: list_all_iff)
  have "fold (\<lambda>x. consume (ElementEvent x)) (do_events d) ?d3 = d" by (simp add: consume_all)
  with events(2) have "at_file v pd (pre @ [d]) ps3" by (auto simp: at_domain_def at_file_def)
  then show ?thesis
    using reads_append [OF head reads_append [OF depends reads_append [OF types(1) reads_append [OF commands(1) events(1)]]]] events(3)
    by (auto simp: print_domain_def)
qed

lemma reads_domains:
  assumes "at_file v pd pre ps" "ps_description ps = None" "list_all good_domain ds"
  shows "\<exists>ps'. reads (concat (map print_domain ds)) ps ps' \<and> at_file v pd (pre @ ds) ps'"
  using assms
proof (induction ds arbitrary: pre ps)
  case (Cons d ds)
  obtain ps1 where first: "reads (print_domain d) ps ps1" "at_file v pd (pre @ [d]) ps1" "ps_description ps1 = None"
    using reads_domain [OF Cons.prems(1,2)] Cons.prems(3) by auto
  obtain ps' where "reads (concat (map print_domain ds)) ps1 ps'" "at_file v pd ((pre @ [d]) @ ds) ps'"
    using Cons.IH [OF first(2,3)] Cons.prems(3) by auto
  with reads_append [OF first(1)] show ?case by auto
qed auto

section \<open>The text\<close>

lemma lines_unlines:
  assumes "list_all (\<lambda>l. newline \<notin> set l \<and> (l = [] \<or> last l \<noteq> CHR 0x0D)) ls"
  shows "lines_of (unlines ls) = ls"
  using assms
proof (induction ls)
  case (Cons l ls)
  have l: "list_all any_char l" "strip_return l = l"
    using Cons.prems by (auto simp: list_all_iff any_char_def strip_return_def)
  have "takeWhile any_char (l @ newline # unlines ls) = l" "dropWhile any_char (l @ newline # unlines ls) = newline # unlines ls"
    using l(1) by (simp_all add: takeWhile_tail list_all_iff dropWhile_append any_char_def)
  then have "lines_of (l @ newline # unlines ls) = strip_return l # lines_of (unlines ls)"
    by (subst lines_of.simps) simp
  then show ?case using Cons l(2) by (simp add: unlines_def)
qed (simp add: unlines_def lines_of.simps)

text \<open>Lines without line feeds and without a carriage return at the end.\<close>

definition plain :: "string \<Rightarrow> bool" where
  "plain s = (newline \<notin> set s)"

lemma plain_simps [simp]:
  "plain []" "plain (c # s) = (c \<noteq> CHR 0x0A \<and> plain s)" "plain (s @ t) = (plain s \<and> plain t)" "plain (flag b s) = (b \<longrightarrow> plain s)"
  by (auto simp: plain_def newline_def flag_def)

lemma plain_flags [simp]: "plain (element_flags e d)"
  by (simp add: element_flags_def)

definition clean_line :: "string \<Rightarrow> bool" where
  "clean_line l = (plain l \<and> (l = [] \<or> last l \<noteq> CHR 0x0D))"

lemma plain_word: "is_word w \<Longrightarrow> plain w"
  using word_facts(4) by (simp add: plain_def)

lemma clean_word: "is_word w \<Longrightarrow> plain p \<Longrightarrow> clean_line (p @ w)"
  using word_facts(1,7) [of w] plain_word [of w] by (simp add: clean_line_def)

lemma split_nl_clean: "l \<in> set (split_nl s) \<Longrightarrow> plain l"
proof (induction s arbitrary: l)
  case (Cons c s)
  obtain k ks where split: "split_nl s = k # ks" using split_nl_Nil [of s] by (cases "split_nl s") blast+
  then show ?case using Cons.prems Cons.IH by (auto simp: newline_def split: if_splits)
qed simp

lemma trimmed_last: "trim_space l = l \<Longrightarrow> l = [] \<or> \<not> is_space (last l)"
  unfolding trim_space_def
  by (metis dropWhile_eq_Nil_conv hd_dropWhile hd_rev rev_is_Nil_conv rev_rev_ident)

lemma clean_description:
  assumes "good_description d" "plain ind"
  shows "list_all clean_line (desc_lines ind d)"
proof -
  have "clean_line (ind @ ''# '' @ l)" if "trim_space l = l" "plain l" for l
    using that trimmed_last [OF that(1)] assms(2) blank_simps(3)
    by (cases "l = []") (auto simp: clean_line_def)
  then show ?thesis using assms(1) split_nl_clean
    by (auto simp: desc_lines_def good_description_def list_all_iff split: option.splits)
qed

lemma clean_keywords:
  "clean_line ''    enum''" "clean_line ''    properties''" "clean_line ''    parameters''" "clean_line ''    returns''" "clean_line ''version''"
  by (simp_all add: clean_line_def)

lemma clean_all: "list_all clean_line (concat (map f xs)) = list_all (\<lambda>x. list_all clean_line (f x)) xs"
  by (induction xs) simp_all

lemma list_all_mono: "list_all P xs \<Longrightarrow> (\<And>x. P x \<Longrightarrow> Q x) \<Longrightarrow> list_all Q xs"
  by (simp add: list_all_iff)

lemma clean_variants:
  assumes "list_all good_variant vs" "plain ind"
  shows "list_all clean_line (concat (map (print_variant ind) vs))"
  unfolding clean_all
proof (rule list_all_mono [OF assms(1)])
  fix va assume "good_variant va"
  then show "list_all clean_line (print_variant ind va)"
    using clean_description [OF _ assms(2)] clean_word [OF _ assms(2)] by (simp add: print_variant_def good_variant_def)
qed

lemma plain_type: "good_param_type t \<or> good_type t \<Longrightarrow> plain (print_type t)"
  using param_types_read [of t] types_read [of t] plain_word [of "type_word t"] by (auto simp: print_type_def)

lemma clean_param:
  assumes "good_param owner pa"
  shows "list_all clean_line (print_param pa)"
proof -
  have good: "good_description (pa_description pa)" "good_param_type (pa_type pa)" "is_word (pa_name pa)"
    using assms by (simp_all add: good_param_def named_in_def)
  have "clean_line (param_line pa)"
    unfolding param_line_def
    using clean_word [OF good(3), of "''      '' @ flag (pa_experimental pa) ''experimental '' @ flag (pa_deprecated pa) ''deprecated '' @
      flag (pa_optional pa) ''optional '' @ print_type (pa_type pa) @ '' ''"] plain_type [of "pa_type pa"] good(2)
    by simp
  moreover have "list_all clean_line (case pa_type pa of TyEnum vs \<Rightarrow> concat (map (print_variant ''        '') vs) | _ \<Rightarrow> [])"
    using good(2) clean_variants by (cases "pa_type pa") (auto simp: good_param_type_def)
  ultimately show ?thesis using clean_description [OF good(1), of "''      ''"] by (simp add: print_param_def)
qed

lemma clean_params: "list_all (good_param owner) pas \<Longrightarrow> list_all clean_line (concat (map print_param pas))"
  unfolding clean_all by (erule list_all_mono) (rule clean_param)

lemma clean_section:
  "list_all (good_param owner) pas \<Longrightarrow> clean_line (''    '' @ w) \<Longrightarrow> list_all clean_line (print_section w pas)"
  using clean_params by (simp add: print_section_def)

lemma clean_type_def:
  assumes "good_type_def owner td"
  shows "list_all clean_line (print_type_def td)"
proof -
  have good: "good_description (td_description td)" "is_word (td_name td)" "good_type (td_extends td)" "good_item owner (td_item td)"
    using assms by (simp_all add: good_type_def_def named_in_def)
  have "list_all clean_line (print_item (td_item td))"
    using good(4) clean_variants [of _ "''      ''"] clean_params clean_keywords
    by (auto simp: print_item_def good_item_def split: option.splits item.splits)
  moreover have "clean_line (''  '' @ element_flags (td_experimental td) (td_deprecated td) @ ''type '' @ td_name td @ '' extends '' @
      print_type (td_extends td))"
    using clean_word [of "type_word (td_extends td)" "''  '' @ element_flags (td_experimental td) (td_deprecated td) @ ''type '' @
        td_name td @ '' extends '' @ flag (is_array (td_extends td)) ''array of ''"] types_read [OF good(3)] plain_word [OF good(2)]
    by (simp add: print_type_def)
  ultimately show ?thesis using clean_description [OF good(1), of "''  ''"] by (simp add: print_type_def_def)
qed

lemma clean_redirect: "good_redirect r \<Longrightarrow> list_all clean_line (print_redirect r)"
  using clean_description [of _ "''    ''"] clean_word [of _ "''    redirect ''"]
  by (auto simp: print_redirect_def good_redirect_def split: option.splits)

lemma clean_command: "good_command owner pc \<Longrightarrow> list_all clean_line (print_command pc)"
  using clean_description [of "pc_description pc" "''  ''"] clean_redirect [of "pc_redirect pc"] clean_keywords
    clean_section [of owner "pc_parameters pc" "''parameters''"] clean_section [of owner "pc_returns pc" "''returns''"]
    clean_word [of "pc_name pc" "''  '' @ element_flags (pc_experimental pc) (pc_deprecated pc) @ ''command ''"]
  by (simp add: print_command_def good_command_def named_in_def)

lemma clean_event: "good_event owner pe \<Longrightarrow> list_all clean_line (print_event pe)"
  using clean_description [of "pe_description pe" "''  ''"] clean_keywords
    clean_section [of owner "pe_parameters pe" "''parameters''"]
    clean_word [of "pe_name pe" "''  '' @ element_flags (pe_experimental pe) (pe_deprecated pe) @ ''event ''"]
  by (simp add: print_event_def good_event_def named_in_def)

lemma clean_domain:
  assumes "good_domain d"
  shows "list_all clean_line (print_domain d)"
proof -
  have good: "good_description (do_description d)" "is_word (do_name d)" "list_all is_word (do_dependencies d)"
    "list_all (good_type_def (do_name d)) (do_types d)" "list_all (good_command (do_name d)) (do_commands d)"
    "list_all (good_event (do_name d)) (do_events d)" using assms by (simp_all add: good_domain_def)
  have "list_all clean_line (map (\<lambda>n. ''  depends on '' @ n) (do_dependencies d))"
    using good(3) clean_word [of _ "''  depends on ''"] by (auto simp: list_all_iff)
  moreover have "clean_line (element_flags (do_experimental d) (do_deprecated d) @ ''domain '' @ do_name d)"
    using clean_word [OF good(2), of "element_flags (do_experimental d) (do_deprecated d) @ ''domain ''"] by simp
  ultimately show ?thesis
    using clean_description [OF good(1), of "[]"] list_all_mono [OF good(4) clean_type_def] list_all_mono [OF good(5) clean_command]
      list_all_mono [OF good(6) clean_event]
    by (simp add: print_domain_def clean_all)
qed

lemma clean_digits: "plain p \<Longrightarrow> clean_line (p @ digits n)"
proof -
  assume p: "plain p"
  have d: "list_all is_ascii_digit (digits n)" "digits n \<noteq> []" using digits_facts [of n] by simp_all
  have no: "\<not> is_ascii_digit newline" "\<not> is_ascii_digit (CHR 0x0D)" by (simp_all add: is_ascii_digit_def newline_def)
  have "newline \<notin> set (digits n)" "last (digits n) \<noteq> CHR 0x0D"
    using d no last_in_set [OF d(2)] unfolding list_all_iff by metis+
  then show ?thesis using p d(2) by (simp add: clean_line_def plain_def [of "digits n"])
qed

lemma clean_protocol:
  assumes "good_protocol p"
  shows "list_all clean_line (print_protocol p)"
  using assms clean_description [of "pr_description p" "[]"] clean_keywords(5) clean_digits [of "''  major ''"] clean_digits [of "''  minor ''"]
    list_all_mono [OF _ clean_domain, of good_domain "pr_domains p"]
  by (simp add: print_protocol_def good_protocol_def clean_all)

text \<open>The prologue of the file.\<close>

lemma reads_version:
  assumes "good_description (pr_description p)"
  shows "\<exists>e. reads (desc_lines [] (pr_description p) @ [''version'', ''  major '' @ digits (unat (ve_major (pr_version p))),
      ''  minor '' @ digits (unat (ve_minor (pr_version p)))]) parser_new (between (pr_version p) (pr_description p) [] None e)"
proof -
  let ?ps = "parser_new\<lparr>ps_description := pr_description p\<rparr>"
  let ?v = "\<lambda>v. between v (pr_description p) [] None False"
  have v: "parse_line nr ''version'' ?ps = Inr (?v Version_default)" for nr
    by (simp add: read_version version_line_def take_description_def parser_new_def between_def Protocol_default_def)
  have major: "parse_line nr (''  major '' @ digits (unat (ve_major (pr_version p)))) (?v Version_default) =
      Inr (?v (Version_default\<lparr>ve_major := ve_major (pr_version p)\<rparr>))" for nr
    using read_number(1) [of nr "unat (ve_major (pr_version p))" "?v Version_default"]
    by (simp add: number_line_def captured_def parse_digits between_def set_major_def)
  have minor: "parse_line nr (''  minor '' @ digits (unat (ve_minor (pr_version p)))) (?v (Version_default\<lparr>ve_major := ve_major (pr_version p)\<rparr>)) =
      Inr (?v (pr_version p))" for nr
    using read_number(2) [of nr "unat (ve_minor (pr_version p))" "?v (Version_default\<lparr>ve_major := ve_major (pr_version p)\<rparr>)"]
    by (simp add: number_line_def captured_def parse_digits between_def set_minor_def Version_default_def)
  have "reads (desc_lines [] (pr_description p)) parser_new ?ps"
    by (rule reads_description [OF _ assms]) (simp_all add: parser_new_def)
  from reads_append [OF this reads_Cons [OF v reads_Cons [OF major reads_line [OF minor]]]]
  show ?thesis by blast
qed

text \<open>C29 (printing and parsing round-trip). Every protocol that can be written, however many domains, types, commands and
  events it has, with descriptions, flags, redirects, enumerations and arrays, is parsed back from its printed text as it was.\<close>

theorem pdl_round_trip:
  assumes "good_protocol p"
  shows "parse_pdl (unlines (print_protocol p)) = Inr p"
proof -
  have good: "good_description (pr_description p)" "list_all good_domain (pr_domains p)"
    using assms by (simp_all add: good_protocol_def)
  obtain e where first: "reads (desc_lines [] (pr_description p) @ [''version'', ''  major '' @ digits (unat (ve_major (pr_version p))),
      ''  minor '' @ digits (unat (ve_minor (pr_version p)))]) parser_new (between (pr_version p) (pr_description p) [] None e)"
    using reads_version [OF good(1)] by blast
  have start: "at_file (pr_version p) (pr_description p) [] (between (pr_version p) (pr_description p) [] None e)"
    by (auto simp: at_file_def close_between)
  obtain ps where rest: "reads (concat (map print_domain (pr_domains p))) (between (pr_version p) (pr_description p) [] None e) ps"
    "at_file (pr_version p) (pr_description p) (pr_domains p) ps"
    using reads_domains [OF start _ good(2)] by auto
  have "parse_lines 1 (print_protocol p) parser_new = Inr ps"
    using reads_append [OF first rest(1)] by (simp add: reads_def print_protocol_def)
  moreover have "lines_of (unlines (print_protocol p)) = print_protocol p"
    by (intro lines_unlines list_all_mono [OF clean_protocol [OF assms]]) (simp add: clean_line_def plain_def)
  ultimately show ?thesis using rest(2) by (auto simp: parse_pdl_def at_file_def between_def)
qed

definition demo_protocol :: protocol where
  "demo_protocol = \<lparr>pr_description = Some ''Demo'', pr_version = \<lparr>ve_major = 1, ve_minor = 3\<rparr>, pr_domains = [
     \<lparr>do_description = None, do_experimental = True, do_deprecated = False, do_name = ''Page'', do_dependencies = [''DOM''],
       do_types = [\<lparr>td_description = None, td_experimental = False, td_deprecated = False, td_name = ''FrameId'',
         td_extends = TyString, td_item = Some (ItemEnum [Variant_new ''main'', Variant_new ''sub'']),
         td_raw_name = ''Page.FrameId'', td_is_circular_dep = True\<rparr>],
       do_commands = [\<lparr>pc_description = None, pc_experimental = False, pc_deprecated = True, pc_name = ''go'',
         pc_redirect = Some \<lparr>re_description = None, re_domain = ''Target'', re_name = None\<rparr>,
         pc_parameters = [\<lparr>pa_description = None, pa_experimental = False, pa_deprecated = False, pa_optional = True,
           pa_type = TyArrayOf (TyRef ''FrameId''), pa_name = ''ids'', pa_raw_name = ''Page.ids'', pa_is_circular_dep = False\<rparr>],
         pc_returns = [], pc_raw_name = ''Page.go'', pc_is_circular_dep = False\<rparr>],
       do_events = []\<rparr>]\<rparr>"

lemma demo_circular: "is_circular_dep ''Page'' ''FrameId''" "\<not> is_circular_dep ''Page'' ''ids''" "\<not> is_circular_dep ''Page'' ''go''"
  by code_simp+

lemma pdl_round_trip_witness: "parse_pdl (unlines (print_protocol demo_protocol)) = Inr demo_protocol"
proof (rule pdl_round_trip)
  show "good_protocol demo_protocol"
    using demo_circular
    by (simp add: good_protocol_def good_domain_def good_type_def_def good_command_def good_item_def good_param_def good_param_type_def
        good_type_def good_simple_def good_redirect_def good_description_def good_variant_def Variant_new_def named_in_def raw_name_def
        is_word_def non_space_def is_space_def trim_space_def simple_type_def demo_protocol_def newline_def)
qed

end
