(* ===== verification/Pdl_Typed.thy ===== *)
theory Pdl_Typed
  imports Pdl_Lines
begin

text \<open>
  What every protocol the parser returns satisfies, how it reports errors, and what it loses: the name of
  a redirect, and the owner of a section outside an element.
\<close>

section \<open>What the groups of a match are\<close>

fun caps_ok :: "pattern_item list \<Rightarrow> captures \<Rightarrow> bool" where
  "caps_ok [] cs = (cs = [])"
| "caps_ok (Lit w # p) cs = caps_ok p cs"
| "caps_ok (AtEnd # p) cs = caps_ok p cs"
| "caps_ok (Maybe w # p) cs = (case cs of [] \<Rightarrow> False | c # cs \<Rightarrow> (c = None \<or> c = Some w) \<and> caps_ok p cs)"
| "caps_ok (OneOf ws # p) cs = (case cs of [] \<Rightarrow> False | c # cs \<Rightarrow> (\<exists>w \<in> set ws. c = Some w) \<and> caps_ok p cs)"
| "caps_ok (Span P m # p) cs = (case cs of [] \<Rightarrow> False
    | c # cs \<Rightarrow> (case c of None \<Rightarrow> False | Some s \<Rightarrow> m \<le> length s \<and> list_all P s) \<and> caps_ok p cs)"

lemma first_some_Some: "first_some f xs = Some y \<Longrightarrow> \<exists>x \<in> set xs. f x = Some y"
  by (induction xs) (auto split: option.splits)

lemma captures_ok: "captures p s = Some cs \<Longrightarrow> caps_ok p cs"
proof (induction p s arbitrary: cs rule: captures.induct)
  case (2 w p s)
  then show ?case by (auto simp: bind_eq_Some_conv)
next
  case (3 w p s)
  then show ?case by (auto simp: bind_eq_Some_conv split: option.splits)
next
  case (4 ws p s)
  from first_some_Some [OF "4.prems" [unfolded captures.simps]] 4 show ?case by (fastforce simp: bind_eq_Some_conv)
next
  case (5 P m p s)
  from first_some_Some [OF "5.prems" [unfolded captures.simps]]
  obtain n where n: "m \<le> n" "n \<le> length (takeWhile P s)" "map_option ((#) (Some (take n s))) (captures p (drop n s)) = Some cs"
    by (auto simp del: upt_Suc)
  then obtain cs' where cs: "captures p (drop n s) = Some cs'" "cs = Some (take n s) # cs'" by auto
  have "take n s = take n (takeWhile P s)" 
    using n(2) takeWhile_dropWhile_id [of P s] by (metis append_Nil2 diff_is_0_eq take0 take_append)
  then have "list_all P (take n s)" by (auto simp: list_all_iff dest: in_set_takeD set_takeWhileD)
  moreover have "m \<le> length (take n s)" using n(1,2) length_takeWhile_le [of P s] by simp
  moreover have "n \<in> set (rev [m ..< Suc (length (takeWhile P s))])" using n(1,2) by (simp del: upt_Suc)
  ultimately show ?case using "5.IH" cs by simp
qed (auto split: if_splits)

section \<open>Typed protocols\<close>

definition bare_word :: "string \<Rightarrow> bool" where
  "bare_word w = (w \<noteq> [] \<and> list_all non_space w)"

definition parsed_simple :: "pdl_type \<Rightarrow> bool" where
  "parsed_simple t = (case t of TyArrayOf _ \<Rightarrow> False | TyEnum vs \<Rightarrow> vs = [] | TyRef r \<Rightarrow> bare_word r \<and> simple_type r = TyRef r | _ \<Rightarrow> True)"

definition parsed_type :: "pdl_type \<Rightarrow> bool" where
  "parsed_type t = (case t of TyArrayOf u \<Rightarrow> parsed_simple u | _ \<Rightarrow> parsed_simple t)"

text \<open>Only a parameter of an enumeration type has literals of its own, never one of an array.\<close>

definition parsed_param_type :: "pdl_type \<Rightarrow> bool" where
  "parsed_param_type t = (case t of TyEnum _ \<Rightarrow> True | _ \<Rightarrow> parsed_type t)"

definition owned :: "string \<Rightarrow> string \<Rightarrow> string \<Rightarrow> bool \<Rightarrow> bool" where
  "owned owner n raw circ = (raw = raw_name owner n \<and> circ = is_circular_dep owner n)"

definition typed_param :: "string set \<Rightarrow> param \<Rightarrow> bool" where
  "typed_param owners pa = (bare_word (pa_name pa) \<and> parsed_param_type (pa_type pa) \<and>
     (\<exists>owner \<in> owners. owned owner (pa_name pa) (pa_raw_name pa) (pa_is_circular_dep pa)))"

fun typed_element :: "string set \<Rightarrow> string \<Rightarrow> element \<Rightarrow> bool" where
  "typed_element owners owner (ElementType td) = (owned owner (td_name td) (td_raw_name td) (td_is_circular_dep td) \<and>
     parsed_type (td_extends td) \<and>
     (case td_item td of Some (ItemProperties pas) \<Rightarrow> list_all (typed_param owners) pas | _ \<Rightarrow> True))"
| "typed_element owners owner (ElementCommand pc) = (owned owner (pc_name pc) (pc_raw_name pc) (pc_is_circular_dep pc) \<and>
     list_all (typed_param owners) (pc_parameters pc) \<and> list_all (typed_param owners) (pc_returns pc) \<and>
     (case pc_redirect pc of None \<Rightarrow> True | Some r \<Rightarrow> bare_word (re_domain r) \<and> re_name r = None))"
| "typed_element owners owner (ElementEvent pe) = (owned owner (pe_name pe) (pe_raw_name pe) (pe_is_circular_dep pe) \<and>
     list_all (typed_param owners) (pe_parameters pe))"

definition typed_domain :: "string set \<Rightarrow> domain \<Rightarrow> bool" where
  "typed_domain owners d = (list_all bare_word (do_dependencies d) \<and>
     list_all (\<lambda>td. typed_element owners (do_name d) (ElementType td)) (do_types d) \<and>
     list_all (\<lambda>pc. typed_element owners (do_name d) (ElementCommand pc)) (do_commands d) \<and>
     list_all (\<lambda>pe. typed_element owners (do_name d) (ElementEvent pe)) (do_events d))"

definition owners_of :: "domain list \<Rightarrow> string set" where
  "owners_of ds = do_name ` set ds"

definition typed_protocol :: "protocol \<Rightarrow> bool" where
  "typed_protocol p = list_all (typed_domain (owners_of (pr_domains p))) (pr_domains p)"

section \<open>The parser keeps its state typed\<close>

definition typed_state :: "parser \<Rightarrow> bool" where
  "typed_state ps = (let ds = pr_domains (ps_protocol ps) in
     list_all (typed_domain (owners_of ds)) ds \<and>
     (case ps_element ps of None \<Rightarrow> True
      | Some el \<Rightarrow> (case last_domain ps of None \<Rightarrow> False | Some d \<Rightarrow> typed_element (owners_of ds) (do_name d) el)) \<and>
     (case ps_member ps of None \<Rightarrow> True | Some m \<Rightarrow> list_all (typed_param (owners_of ds)) (member_params m)))"

lemma typed_param_mono: "typed_param A pa \<Longrightarrow> A \<subseteq> B \<Longrightarrow> typed_param B pa"
  unfolding typed_param_def by blast

lemma typed_params_mono: "list_all (typed_param A) pas \<Longrightarrow> A \<subseteq> B \<Longrightarrow> list_all (typed_param B) pas"
  using typed_param_mono by (auto simp: list_all_iff)

lemma typed_element_mono: "typed_element A owner el \<Longrightarrow> A \<subseteq> B \<Longrightarrow> typed_element B owner el"
  by (cases el) (auto intro: typed_params_mono split: option.splits item.splits)

lemma typed_domain_mono: "typed_domain A d \<Longrightarrow> A \<subseteq> B \<Longrightarrow> typed_domain B d"
  unfolding typed_domain_def list_all_iff using typed_element_mono by blast

lemma typed_consume: "typed_domain A d \<Longrightarrow> typed_element A (do_name d) el \<Longrightarrow> typed_domain A (consume el d)"
  by (cases el) (simp_all add: typed_domain_def)

lemma typed_add_member:
  "add_member m el = Inr el' \<Longrightarrow> list_all (typed_param A) (member_params m) \<Longrightarrow> typed_element A owner el \<Longrightarrow> typed_element A owner el'"
  by (cases "(m, el)" rule: add_member.cases) (auto split: if_splits option.splits)

text \<open>The last domain and the ones before it.\<close>

lemma last_domain_Some:
  "last_domain ps = Some d \<longleftrightarrow> (\<exists>ds. pr_domains (ps_protocol ps) = ds @ [d])"
  by (cases "pr_domains (ps_protocol ps)" rule: rev_cases) (auto simp: last_domain_def)

lemma last_domain_None: "last_domain ps = None \<longleftrightarrow> pr_domains (ps_protocol ps) = []"
  by (cases "pr_domains (ps_protocol ps)" rule: rev_cases) (auto simp: last_domain_def)

lemma set_last_same: "last_domain ps = Some d \<Longrightarrow> set_last d ps = ps"
proof -
  assume "last_domain ps = Some d"
  then obtain ds where "pr_domains (ps_protocol ps) = ds @ [d]" by (auto simp: last_domain_Some)
  moreover have "(ps_protocol ps)\<lparr>pr_domains := pr_domains (ps_protocol ps)\<rparr> = ps_protocol ps" by simp
  ultimately show "set_last d ps = ps" by (simp add: set_last_def set_domains_def)
qed

lemma close_last_typed:
  assumes "typed_state ps" "close_last ps = Inr ps'"
  shows "typed_state ps' \<and> owners_of (pr_domains (ps_protocol ps')) = owners_of (pr_domains (ps_protocol ps)) \<and>
    ps_element ps' = None \<and> ps_description ps' = ps_description ps \<and> ps_version ps' = ps_version ps \<and>
    map_option do_name (last_domain ps') = map_option do_name (last_domain ps)"
proof (cases "last_domain ps")
  case None
  then show ?thesis using assms by (auto simp: close_last_def typed_state_def Let_def split: option.splits)
next
  case (Some d)
  then obtain ds where ds: "pr_domains (ps_protocol ps) = ds @ [d]" by (auto simp: last_domain_Some)
  let ?A = "owners_of (ds @ [d])"
  have typed: "list_all (typed_domain ?A) (ds @ [d])"
    "\<And>m. ps_member ps = Some m \<Longrightarrow> list_all (typed_param ?A) (member_params m)"
    "\<And>el. ps_element ps = Some el \<Longrightarrow> typed_element ?A (do_name d) el"
    using assms(1) Some ds by (auto simp: typed_state_def Let_def)
  show ?thesis
  proof (cases "ps_element ps")
    case None
    then have "ps' = ps" using assms(2) Some set_last_same [OF Some]
      by (auto simp: close_last_def close_element_def bind_result_Inr)
    then show ?thesis using assms(1) None by simp
  next
    case el: (Some el)
    obtain el' where el': "(case ps_member ps of None \<Rightarrow> Inr el | Some m \<Rightarrow> add_member m el) = Inr el'"
      "ps' = set_last (consume el' d) (ps\<lparr>ps_element := None, ps_member := None\<rparr>)"
      using assms(2) Some el by (auto simp: close_last_def close_element_def bind_result_Inr)
    have "typed_element ?A (do_name d) el'"
      using el'(1) typed(2,3) el typed_add_member by (cases "ps_member ps") auto
    then have "typed_domain ?A (consume el' d)" using typed(1) typed_consume by simp
    moreover have "do_name (consume el' d) = do_name d" by (cases el') simp_all
    moreover have "pr_domains (ps_protocol ps') = ds @ [consume el' d]"
      by (simp add: el'(2) set_last_def set_domains_def ds)
    ultimately show ?thesis using typed(1) Some
      by (simp add: typed_state_def el'(2) set_last_def set_domains_def ds owners_of_def last_domain_def)
  qed
qed

lemma simple_parsed: "bare_word w \<Longrightarrow> parsed_simple (simple_type w)"
  by (simp add: simple_type_def parsed_simple_def)

lemma Type_new_parsed: "bare_word w \<Longrightarrow> parsed_type (Type_new w b)" "bare_word w \<Longrightarrow> parsed_param_type (Type_new w b)"
proof -
  assume w: "bare_word w"
  show "parsed_type (Type_new w b)"
    using simple_parsed [OF w] by (cases "simple_type w") (auto simp: Type_new_def parsed_type_def parsed_simple_def)
  then show "parsed_param_type (Type_new w b)"
    by (cases "Type_new w b") (simp_all add: parsed_param_type_def parsed_type_def parsed_simple_def)
qed

lemma typed_state_description [simp]: "typed_state (ps\<lparr>ps_description := x\<rparr>) = typed_state ps"
  by (simp add: typed_state_def Let_def split: option.split)

lemma typed_state_same:
  "pr_domains (ps_protocol ps') = pr_domains (ps_protocol ps) \<Longrightarrow> ps_element ps' = ps_element ps \<Longrightarrow> ps_member ps' = ps_member ps \<Longrightarrow>
    typed_state ps' = typed_state ps"
proof -
  assume same: "pr_domains (ps_protocol ps') = pr_domains (ps_protocol ps)" "ps_element ps' = ps_element ps" "ps_member ps' = ps_member ps"
  then have last: "last_domain ps' = last_domain ps" by (simp add: last_domain_def)
  show "typed_state ps' = typed_state ps" unfolding typed_state_def same last ..
qed

lemma typed_new: "typed_state parser_new"
  by (simp add: typed_state_def parser_new_def Protocol_default_def)

lemma words_captured:
  "caps_ok depends_re cs \<Longrightarrow> bare_word (captured cs 0)"
  "caps_ok type_re cs \<Longrightarrow> bare_word (captured cs 4)"
  "caps_ok member_re cs \<Longrightarrow> bare_word (captured cs 4) \<and> bare_word (captured cs 5)"
  "caps_ok redirect_re cs \<Longrightarrow> bare_word (captured cs 0)"
  by (auto simp: depends_re_def type_re_def member_re_def redirect_re_def captured_def bare_word_def split: list.splits option.splits)

lemma typed_domain_line: "typed_state ps \<Longrightarrow> domain_line cs ps = Inr ps' \<Longrightarrow> typed_state ps'"
proof -
  assume typed: "typed_state ps" and line: "domain_line cs ps = Inr ps'"
  obtain ps1 where closed: "close_last ps = Inr ps1" using line by (auto simp: domain_line_def bind_result_Inr)
  note facts = close_last_typed [OF typed closed]
  obtain d where d: "ps' = set_domains (pr_domains (ps_protocol ps1) @ [d]) (ps1\<lparr>ps_description := None\<rparr>)"
    "do_dependencies d = []" "do_types d = []" "do_commands d = []" "do_events d = []"
    using line closed by (auto simp: domain_line_def take_description_def Let_def)
  let ?ds = "pr_domains (ps_protocol ps1)"
  have mono: "owners_of ?ds \<subseteq> owners_of (?ds @ [d])" by (auto simp: owners_of_def)
  have "list_all (typed_domain (owners_of (?ds @ [d]))) ?ds"
    using facts typed_domain_mono [OF _ mono] by (auto simp: typed_state_def list_all_iff Let_def)
  moreover have "typed_domain (owners_of (?ds @ [d])) d" by (simp add: typed_domain_def d)
  moreover have "case ps_member ps1 of None \<Rightarrow> True | Some m \<Rightarrow> list_all (typed_param (owners_of (?ds @ [d]))) (member_params m)"
    using facts typed_params_mono [OF _ mono] by (auto simp: typed_state_def Let_def split: option.splits)
  ultimately show "typed_state ps'" using facts
    by (simp add: typed_state_def d(1) set_domains_def)
qed

text \<open>A change of the last domain that keeps its name.\<close>

lemma typed_set_last:
  assumes "typed_state ps" "last_domain ps = Some d" "do_name d' = do_name d"
    and "\<And>A. typed_domain A d \<Longrightarrow> typed_domain A d'"
  shows "typed_state (set_last d' ps)"
proof -
  obtain ds where ds: "pr_domains (ps_protocol ps) = ds @ [d]" using assms(2) by (auto simp: last_domain_Some)
  have "owners_of (ds @ [d']) = owners_of (ds @ [d])" by (simp add: owners_of_def assms(3))
  then show ?thesis using assms ds by (auto simp: typed_state_def set_last_def set_domains_def last_domain_def Let_def split: option.splits)
qed

lemma typed_depends_line:
  assumes "typed_state ps" "caps_ok depends_re cs" "depends_line nr cs ps = Inr ps'"
  shows "typed_state ps'"
proof -
  obtain d where d: "last_domain ps = Some d" "ps' = set_last (d\<lparr>do_dependencies := do_dependencies d @ [captured cs 0]\<rparr>) ps"
    using assms(3) by (auto simp: depends_line_def split: option.splits)
  show ?thesis unfolding d(2)
    by (rule typed_set_last [OF assms(1) d(1)]) (simp_all add: typed_domain_def words_captured(1) [OF assms(2)])
qed

text \<open>A new element takes the place of the one closed.\<close>

lemma typed_new_element:
  assumes "typed_state ps" "close_last ps = Inr ps1" "last_domain ps = Some d" "\<And>A. typed_element A (do_name d) el"
  shows "typed_state (ps1\<lparr>ps_description := None, ps_element := Some el\<rparr>)"
proof -
  note facts = close_last_typed [OF assms(1,2)]
  then obtain d1 where "last_domain ps1 = Some d1" "do_name d1 = do_name d" using assms(3) by (cases "last_domain ps1") auto
  then show ?thesis using facts assms(4) by (auto simp: typed_state_def Let_def split: option.splits)
qed

lemma typed_type_line:
  assumes "typed_state ps" "caps_ok type_re cs" "type_line nr cs ps = Inr ps'"
  shows "typed_state ps'"
proof -
  obtain d ps1 where d: "last_domain ps = Some d" "close_last ps = Inr ps1"
    using assms(3) by (auto simp: type_line_def bind_result_Inr split: option.splits)
  let ?el = "ElementType \<lparr>td_description = ps_description ps1, td_experimental = has_group cs 0, td_deprecated = has_group cs 1,
    td_name = captured cs 2, td_extends = Type_new (captured cs 4) (has_group cs 3), td_item = None,
    td_raw_name = raw_name (do_name d) (captured cs 2), td_is_circular_dep = is_circular_dep (do_name d) (captured cs 2)\<rparr>"
  have "ps' = ps1\<lparr>ps_description := None, ps_element := Some ?el\<rparr>"
    using assms(3) d by (simp add: type_line_def take_description_def)
  then show ?thesis
    using typed_new_element [OF assms(1) d(2,1), of ?el] Type_new_parsed(1) [OF words_captured(2) [OF assms(2)]]
    by (simp add: owned_def)
qed

lemma typed_item_line:
  assumes "typed_state ps" "item_line nr cs ps = Inr ps'"
  shows "typed_state ps'"
proof -
  obtain d ps1 where d: "last_domain ps = Some d" "close_last ps = Inr ps1"
    using assms(2) by (auto simp: item_line_def bind_result_Inr split: option.splits)
  obtain el where el: "ps' = ps1\<lparr>ps_description := None, ps_element := Some el\<rparr>" "\<And>A. typed_element A (do_name d) el"
    using assms(2) d by (auto simp: item_line_def take_description_def owned_def Let_def)
  show ?thesis unfolding el(1) by (rule typed_new_element [OF assms(1) d(2,1) el(2)])
qed

lemma typed_members:
  assumes "typed_state ps" "ps_member ps = Some m"
  shows "list_all (typed_param (owners_of (pr_domains (ps_protocol ps)))) (member_params m)"
  using assms by (simp add: typed_state_def Let_def)

lemma typed_set_member:
  assumes "typed_state ps" "list_all (typed_param (owners_of (pr_domains (ps_protocol ps)))) (member_params m)"
  shows "typed_state (ps\<lparr>ps_member := Some m\<rparr>)"
  using assms by (auto simp: typed_state_def Let_def split: option.splits)

lemma typed_set_element:
  assumes "typed_state ps" "ps_element ps = Some el"
    and "\<And>owner. typed_element (owners_of (pr_domains (ps_protocol ps))) owner el \<Longrightarrow>
      typed_element (owners_of (pr_domains (ps_protocol ps))) owner el'"
  shows "typed_state (ps\<lparr>ps_element := Some el'\<rparr>)"
  using assms by (auto simp: typed_state_def Let_def split: option.splits)

lemma typed_state_enum [simp]: "typed_state (ps\<lparr>ps_member_enum := e\<rparr>) = typed_state ps"
  by (simp add: typed_state_def Let_def split: option.split)

lemma typed_state_version [simp]: "typed_state (ps\<lparr>ps_version := v\<rparr>) = typed_state ps"
  by (simp add: typed_state_def Let_def last_domain_def split: option.split)

lemma typed_member_line:
  assumes "typed_state ps" "caps_ok member_re cs" "member_line nr cs ps = Inr ps'"
  shows "typed_state ps'"
proof -
  let ?n = "captured cs 5"
  obtain d m where d: "last_domain ps = Some d" "ps_member ps = Some m"
    using assms(3) by (auto simp: member_line_def take_description_def Let_def split: option.splits)
  let ?pa = "\<lparr>pa_description = ps_description ps, pa_experimental = has_group cs 0, pa_deprecated = has_group cs 1,
    pa_optional = has_group cs 2, pa_type = Type_new (captured cs 4) (has_group cs 3), pa_name = ?n,
    pa_raw_name = raw_name (do_name d) ?n, pa_is_circular_dep = is_circular_dep (do_name d) ?n\<rparr>"
  obtain e where ps': "ps' = (ps\<lparr>ps_description := None\<rparr>)\<lparr>ps_member := Some (with_params (member_params m @ [?pa]) m), ps_member_enum := e\<rparr>"
    using assms(3) d by (auto simp: member_line_def take_description_def Let_def)
  have "do_name d \<in> owners_of (pr_domains (ps_protocol ps))" using d(1) by (auto simp: last_domain_Some owners_of_def)
  then have "typed_param (owners_of (pr_domains (ps_protocol ps))) ?pa"
    using words_captured(3) [OF assms(2)] Type_new_parsed(2) by (auto simp: typed_param_def owned_def)
  then show ?thesis using typed_members [OF assms(1) d(2)] assms(1) unfolding ps' typed_state_enum
    by (intro typed_set_member) simp_all
qed

lemma typed_section_line:
  assumes "typed_state ps" "section_line nr cs ps = Inr ps'"
  shows "typed_state ps'"
proof -
  obtain ps1 m' where step: "typed_state ps1" "ps' = ps1\<lparr>ps_member := Some m'\<rparr>" "member_params m' = []"
  proof (cases "ps_member ps")
    case None
    then show ?thesis using assms that by (auto simp: section_line_def split: if_splits)
  next
    case (Some m)
    then obtain el el' where el: "ps_element ps = Some el" "add_member m el = Inr el'"
      using assms(2) by (auto simp: section_line_def bind_result_Inr split: option.splits)
    have "typed_state (ps\<lparr>ps_element := Some el'\<rparr>)"
      by (rule typed_set_element [OF assms(1) el(1)]) (rule typed_add_member [OF el(2) typed_members [OF assms(1) Some]])
    then show ?thesis using assms(2) Some el that by (auto simp: section_line_def split: if_splits)
  qed
  show ?thesis unfolding step(2) using step(1,3) by (intro typed_set_member) simp_all
qed

lemma typed_enum_line:
  assumes "typed_state ps" "enum_line nr ps = Inr ps'"
  shows "typed_state ps'"
proof -
  obtain td where td: "ps_element ps = Some (ElementType td)"
    "ps' = (ps\<lparr>ps_member_enum := False\<rparr>)\<lparr>ps_element := Some (ElementType (td\<lparr>td_item := Some (ItemEnum [])\<rparr>))\<rparr>"
    using assms(2) by (auto simp: enum_line_def split: option.splits element.splits if_splits)
  show ?thesis unfolding td(2) using assms(1) td(1) by (intro typed_set_element [of _ "ElementType td"]) simp_all
qed

lemma typed_redirect_line:
  assumes "typed_state ps" "caps_ok redirect_re cs" "redirect_line nr cs ps = Inr ps'"
  shows "typed_state ps'"
proof -
  obtain pc where pc: "ps_element ps = Some (ElementCommand pc)"
    "ps' = (ps\<lparr>ps_description := None\<rparr>)\<lparr>ps_element := Some (ElementCommand (pc\<lparr>pc_redirect :=
       Some \<lparr>re_description = ps_description ps, re_domain = captured cs 0, re_name = None\<rparr>\<rparr>))\<rparr>"
    using assms(3) by (auto simp: redirect_line_def take_description_def Let_def split: option.splits element.splits)
  show ?thesis unfolding pc(2) using assms(1) pc(1) words_captured(4) [OF assms(2)]
    by (intro typed_set_element [of _ "ElementCommand pc"]) simp_all
qed

lemma typed_literal_line:
  assumes "typed_state ps" "literal_line nr l ps = Inr ps'"
  shows "typed_state ps'"
proof (cases "ps_member_enum ps")
  case True
  let ?va = "\<lparr>va_description = ps_description ps, va_name = l\<rparr>"
  from True obtain m pa rest vs where m: "ps_member ps = Some m" "rev (member_params m) = pa # rest" "pa_type pa = TyEnum vs"
    and ps': "ps' = (ps\<lparr>ps_description := None\<rparr>)\<lparr>ps_member :=
      Some (with_params (butlast (member_params m) @ [pa\<lparr>pa_type := TyEnum (vs @ [?va])\<rparr>]) m)\<rparr>"
    using assms(2) by (simp add: literal_line_def take_description_def Let_def split: option.splits list.splits pdl_type.splits)
  have all: "member_params m = rev rest @ [pa]" using m(2) by (simp add: rev_eq_Cons_iff)
  then have pas: "ps' = (ps\<lparr>ps_description := None\<rparr>)\<lparr>ps_member := Some (with_params (rev rest @ [pa\<lparr>pa_type := TyEnum (vs @ [?va])\<rparr>]) m)\<rparr>"
    by (simp add: ps')
  show ?thesis unfolding pas using typed_members [OF assms(1) m(1)] assms(1) all
    by (intro typed_set_member) (auto simp: typed_param_def parsed_param_type_def)
next
  case False
  then obtain td vs where td: "ps_element ps = Some (ElementType td)" "td_item td = Some (ItemEnum vs)"
    "\<exists>va. ps' = (ps\<lparr>ps_description := None\<rparr>)\<lparr>ps_element := Some (ElementType (td\<lparr>td_item := Some (ItemEnum (vs @ [va]))\<rparr>))\<rparr>"
    using assms(2) by (auto simp: literal_line_def take_description_def Let_def split: option.splits element.splits item.splits)
  then show ?thesis using assms(1) by (auto intro!: typed_set_element [of _ "ElementType td"])
qed

text \<open>The line that was read.\<close>

lemma parse_line_cases:
  assumes "parse_line nr line ps = Inr ps'"
  shows "ps' = comment_line (trim_space line) ps \<or> ps' = ps \<or>
    (\<exists>cs. captures domain_re line = Some cs \<and> domain_line cs ps = Inr ps') \<or>
    (\<exists>cs. captures depends_re line = Some cs \<and> depends_line nr cs ps = Inr ps') \<or>
    (\<exists>cs. captures type_re line = Some cs \<and> type_line nr cs ps = Inr ps') \<or>
    (\<exists>cs. captures item_re line = Some cs \<and> item_line nr cs ps = Inr ps') \<or>
    (\<exists>cs. captures member_re line = Some cs \<and> member_line nr cs ps = Inr ps') \<or>
    (\<exists>cs. captures section_re line = Some cs \<and> section_line nr cs ps = Inr ps') \<or>
    enum_line nr ps = Inr ps' \<or> ps' = version_line ps \<or>
    (\<exists>upd cs. number_line upd nr cs ps = Inr ps') \<or>
    (\<exists>cs. captures redirect_re line = Some cs \<and> redirect_line nr cs ps = Inr ps') \<or>
    literal_line nr (trim_space line) ps = Inr ps'"
  using assms unfolding parse_line_def Let_def
  by (simp split: if_split_asm option.split_asm; blast)

lemma typed_line:
  assumes "typed_state ps" "parse_line nr line ps = Inr ps'"
  shows "typed_state ps'"
proof -
  have number: "number_line upd nr cs ps = Inr ps' \<Longrightarrow> typed_state ps'" for upd cs
    using assms(1) by (auto simp: number_line_def split: option.splits)
  have version: "typed_state (version_line ps)"
    using assms(1) typed_state_same [of "version_line ps" ps] by (simp add: version_line_def take_description_def Let_def)
  have comment: "typed_state (comment_line l ps)" for l using assms(1) by (simp add: comment_line_def Let_def)
  from parse_line_cases [OF assms(2)] show ?thesis
    by (elim disjE exE conjE)
      (simp_all add: comment version number assms(1) typed_domain_line [OF assms(1)] typed_depends_line [OF assms(1) captures_ok]
        typed_type_line [OF assms(1) captures_ok] typed_item_line [OF assms(1)] typed_member_line [OF assms(1) captures_ok]
        typed_section_line [OF assms(1)] typed_enum_line [OF assms(1)] typed_redirect_line [OF assms(1) captures_ok]
        typed_literal_line [OF assms(1)])
qed

lemma typed_lines: "typed_state ps \<Longrightarrow> parse_lines nr ls ps = Inr ps' \<Longrightarrow> typed_state ps'"
proof (induction ls arbitrary: nr ps)
  case (Cons l ls)
  from Cons.prems(2) obtain ps1 where "parse_line nr l ps = Inr ps1" "parse_lines (Suc nr) ls ps1 = Inr ps'"
    by (auto simp: bind_result_Inr)
  then show ?case using Cons.IH typed_line [OF Cons.prems(1)] by blast
qed simp

text \<open>C30 (what a parsed protocol looks like). In every protocol the parser returns, whatever the text, the types, commands and
  events carry the raw name and the circularity of their own domain; names of parameters, references and dependencies are single words;
  arrays are not nested and hold no literals, references are not built-in types; no redirect has a name.\<close>

theorem parsed_protocol_typed:
  assumes "parse_pdl input = Inr p"
  shows "typed_protocol p"
proof -
  obtain ps ps1 v where run: "parse_lines 1 (lines_of input) parser_new = Inr ps" "close_last ps = Inr ps1"
    "p = (ps_protocol ps1)\<lparr>pr_version := v\<rparr>"
    using assms by (auto simp: parse_pdl_def bind_result_Inr split: option.splits)
  have "typed_state ps1" using close_last_typed [OF typed_lines [OF typed_new run(1)] run(2)] by blast
  then show ?thesis by (simp add: typed_protocol_def typed_state_def run(3) Let_def)
qed

lemma parsed_protocol_typed_witness:
  "\<exists>p. parse_pdl (unlines [''version'', ''domain A'', ''  depends on B'']) = Inr p \<and> typed_protocol p"
proof -
  let ?ls = "[''version'', ''domain A'', ''  depends on B'']"
  have "is_word ''A''" "is_word ''B''" by (simp_all add: is_word_def non_space_def is_space_def)
  then have lines: "parse_line nr ''version'' ps = Inr (version_line ps)" "parse_line nr ''domain A'' ps = domain_line [None, None, Some ''A''] ps"
    "parse_line nr ''  depends on B'' ps = depends_line nr [Some ''B''] ps" for nr ps
    using read_version [of nr ps] read_domain [of "''A''" nr False False ps] read_depends [of "''B''" nr ps]
    by (simp_all add: element_flags_def)
  have text_lines: "lines_of (unlines ?ls) = ?ls"
    by (simp add: unlines_def lines_of.simps any_char_def newline_def strip_return_def)
  have "\<exists>p. parse_pdl (unlines ?ls) = Inr p"
    by (simp add: parse_pdl_def text_lines lines version_line_def domain_line_def depends_line_def close_last_def take_description_def
        parser_new_def Protocol_default_def last_domain_def set_domains_def set_last_def close_element_def Let_def)
  then show ?thesis using parsed_protocol_typed by blast
qed

section \<open>Errors\<close>

fun error_line :: "pdl_error \<Rightarrow> nat option" where
  "error_line (MissingDomain n) = Some n"
| "error_line (NoMemberSection n _) = Some n"
| "error_line (NoParentItem n) = Some n"
| "error_line (EnumNotAllowed n) = Some n"
| "error_line (VersionNotDeclared n) = Some n"
| "error_line (MissingItem n) = Some n"
| "error_line (RedirectNotAllowed n) = Some n"
| "error_line (MissingMember n) = Some n"
| "error_line (MissingParameter n) = Some n"
| "error_line (MissingEnum n) = Some n"
| "error_line (UnknownToken n _) = Some n"
| "error_line (PdlPanic n) = Some n"
| "error_line (AdditionalProperties _) = None"
| "error_line InvalidMember = None"
| "error_line MissingVersion = None"

lemma add_member_error: "add_member m el = Inl e \<Longrightarrow> error_line e = None"
  by (cases "(m, el)" rule: add_member.cases) (auto split: if_splits)

lemma close_error: "close_last ps = Inl e \<Longrightarrow> error_line e = None"
  by (auto simp: close_last_def close_element_def bind_result_Inl add_member_error split: option.splits)

text \<open>An error that names a line names the one that was read.\<close>

lemma line_errors:
  "domain_line cs ps = Inl e \<Longrightarrow> error_line e = None"
  "depends_line nr cs ps = Inl e \<Longrightarrow> error_line e = Some nr"
  "type_line nr cs ps = Inl e \<Longrightarrow> error_line e \<in> {None, Some nr}"
  "item_line nr cs ps = Inl e \<Longrightarrow> error_line e \<in> {None, Some nr}"
  "member_line nr cs ps = Inl e \<Longrightarrow> error_line e = Some nr"
  "section_line nr cs ps = Inl e \<Longrightarrow> error_line e \<in> {None, Some nr}"
  "enum_line nr ps = Inl e \<Longrightarrow> error_line e = Some nr"
  "number_line upd nr cs ps = Inl e \<Longrightarrow> error_line e = Some nr"
  "redirect_line nr cs ps = Inl e \<Longrightarrow> error_line e = Some nr"
  "literal_line nr l ps = Inl e \<Longrightarrow> error_line e = Some nr"
proof -
  show "domain_line cs ps = Inl e \<Longrightarrow> error_line e = None"
    using close_error by (auto simp: domain_line_def take_description_def bind_result_Inl Let_def)
  show "depends_line nr cs ps = Inl e \<Longrightarrow> error_line e = Some nr" by (auto simp: depends_line_def split: option.splits)
  show "type_line nr cs ps = Inl e \<Longrightarrow> error_line e \<in> {None, Some nr}" "item_line nr cs ps = Inl e \<Longrightarrow> error_line e \<in> {None, Some nr}"
    using close_error by (auto simp: type_line_def item_line_def take_description_def bind_result_Inl Let_def split: option.splits)
  show "member_line nr cs ps = Inl e \<Longrightarrow> error_line e = Some nr"
    by (auto simp: member_line_def take_description_def Let_def split: option.splits)
  show "section_line nr cs ps = Inl e \<Longrightarrow> error_line e \<in> {None, Some nr}"
    using add_member_error by (auto simp: section_line_def bind_result_Inl split: option.splits)
  show "enum_line nr ps = Inl e \<Longrightarrow> error_line e = Some nr"
    by (auto simp: enum_line_def split: option.splits element.splits if_splits)
  show "number_line upd nr cs ps = Inl e \<Longrightarrow> error_line e = Some nr" by (auto simp: number_line_def split: option.splits)
  show "redirect_line nr cs ps = Inl e \<Longrightarrow> error_line e = Some nr"
    by (auto simp: redirect_line_def take_description_def Let_def split: option.splits element.splits)
  show "literal_line nr l ps = Inl e \<Longrightarrow> error_line e = Some nr"
    by (auto simp: literal_line_def take_description_def Let_def
        split: option.splits element.splits list.splits item.splits pdl_type.splits if_splits)
qed

lemma parse_line_error: "parse_line nr line ps = Inl e \<Longrightarrow> error_line e \<in> {None, Some nr}"
  unfolding parse_line_def Let_def
  by (simp split: if_split_asm option.split_asm; (drule line_errors)?; auto)

lemma parse_lines_error:
  "parse_lines nr ls ps = Inl e \<Longrightarrow> \<exists>k ps'. k < length ls \<and> parse_lines nr (take k ls) ps = Inr ps' \<and> parse_line (nr + k) (ls ! k) ps' = Inl e"
proof (induction ls arbitrary: nr ps)
  case (Cons l ls)
  show ?case
  proof (cases "parse_line nr l ps")
    case (Inl e')
    then show ?thesis using Cons.prems by (intro exI [of _ 0] exI [of _ ps]) simp
  next
    case (Inr ps1)
    then obtain k ps' where "k < length ls" "parse_lines (Suc nr) (take k ls) ps1 = Inr ps'" "parse_line (Suc nr + k) (ls ! k) ps' = Inl e"
      using Cons.IH [of "Suc nr" ps1] Cons.prems by auto
    then show ?thesis using Inr by (intro exI [of _ "Suc k"] exI [of _ ps']) simp
  qed
qed simp

text \<open>C32 (errors name their line). When the parser fails with an error that names a line, the text has that line, all lines before
  it were accepted, and it is the line itself, in the state they left, that is refused.\<close>

theorem errors_name_their_line:
  assumes "parse_pdl input = Inl e" "error_line e = Some n"
  shows "0 < n \<and> n \<le> length (lines_of input) \<and>
    (\<exists>ps. parse_lines 1 (take (n - 1) (lines_of input)) parser_new = Inr ps \<and> parse_line n (lines_of input ! (n - 1)) ps = Inl e)"
proof -
  have "parse_lines 1 (lines_of input) parser_new = Inl e"
  proof (rule ccontr)
    assume "parse_lines 1 (lines_of input) parser_new \<noteq> Inl e"
    then obtain ps where "parse_lines 1 (lines_of input) parser_new = Inr ps"
      using assms(1) by (cases "parse_lines 1 (lines_of input) parser_new") (simp_all add: parse_pdl_def)
    then have "close_last ps = Inl e \<or> e = MissingVersion"
      using assms(1) by (auto simp: parse_pdl_def bind_result_Inl split: option.splits)
    then show False using close_error [of ps e] assms(2) by auto
  qed
  from parse_lines_error [OF this]
  obtain k ps where k: "k < length (lines_of input)" "parse_lines 1 (take k (lines_of input)) parser_new = Inr ps"
    "parse_line (1 + k) (lines_of input ! k) ps = Inl e" by blast
  have "n = 1 + k" using parse_line_error [OF k(3)] assms(2) by auto
  then show ?thesis using k by auto
qed

lemma errors_name_their_line_witness:
  "parse_pdl (unlines [''version'', ''?'']) = Inl (UnknownToken 2 ''?'') \<and>
    (\<exists>ps. parse_lines 1 [''version''] parser_new = Inr ps \<and> parse_line 2 ''?'' ps = Inl (UnknownToken 2 ''?''))"
proof -
  have text_lines: "lines_of (unlines [''version'', ''?'']) = [''version'', ''?'']"
    by (simp add: unlines_def lines_of.simps any_char_def newline_def strip_return_def)
  have bad: "parse_line 2 ''?'' ps = Inl (UnknownToken 2 ''?'')" for ps
    using line_start [of "''?''" "CHR ''?''" "[]"]
    by (simp add: parse_line_def Let_def pattern_defs is_space_def)
  then have fails: "parse_pdl (unlines [''version'', ''?'']) = Inl (UnknownToken 2 ''?'')"
    by (simp add: parse_pdl_def text_lines read_version numeral_2_eq_2)
  then show ?thesis using errors_name_their_line [OF fails] text_lines by simp
qed

section \<open>What the parser loses\<close>

text \<open>The description is taken before it is searched for the command to use instead.\<close>

lemma redirect_name_lost:
  assumes "ps_element ps = Some (ElementCommand pc)" "ps_description ps = Some desc" "captures use_re desc = Some us"
  shows "redirect_line nr cs ps = Inr (ps\<lparr>ps_description := None, ps_element := Some (ElementCommand (pc\<lparr>pc_redirect :=
    Some \<lparr>re_description = Some desc, re_domain = captured cs 0, re_name = None\<rparr>\<rparr>))\<rparr>)"
  using assms by (simp add: redirect_line_def take_description_def)

text \<open>A section that follows no element is kept, also over the next domain, and goes to the next element.\<close>

lemma stray_section_kept:
  assumes "ps_element ps = None" "ps_member ps = Some m"
  shows "domain_line cs ps = Inr ps' \<Longrightarrow> ps_element ps' = None \<and> ps_member ps' = Some m"
    "item_line nr cs ps = Inr ps' \<Longrightarrow> ps_element ps' \<noteq> None \<and> ps_member ps' = Some m"
  using assms
  by (auto simp: domain_line_def item_line_def close_last_def close_element_def take_description_def set_domains_def set_last_def
      Let_def split: option.splits)

text \<open>The literals of an enumeration within an array are refused.\<close>

lemma array_of_enum_refused:
  assumes "ps_member ps = Some m" "ps_member_enum ps" "member_params m = pas @ [pa]" "pa_type pa = Type_new ''enum'' True"
  shows "literal_line nr l ps = Inl (MissingEnum nr)"
  using assms by (simp add: literal_line_def take_description_def Type_new_def Let_def)

end
