(* ===== verification/Dns_Cache.thy ===== *)
theory Dns_Cache
  imports Text Cmd
begin

text \<open>
  The cache of host resolutions for connecting (\<open>dns.rs\<close>). The map is shared by all tasks of the
  process, so a store is two steps, the check of the size and the insertion, between which other
  tasks may act. The size stays within the cap plus the stores in flight, and what is served is
  recent.
\<close>

section \<open>The cache\<close>

definition TTL :: duration where "TTL = from_secs 30"
definition REAP_AT :: nat where "REAP_AT = 256"
definition HARD_CAP :: nat where "HARD_CAP = 1024"

record 'a dns_entry =
  de_addrs :: "'a list"
  de_at :: instant

type_synonym 'a dns_cache = "(string, 'a dns_entry) hash_map"

definition dns_key :: "string \<Rightarrow> 16 word \<Rightarrow> string" where
  "dns_key host port = host @ '':'' @ digits (unat port)"

text \<open>\<open>enabled\<close>, over the value of the environment variable.\<close>

definition dns_enabled :: "string option \<Rightarrow> bool" where
  "dns_enabled var = (map_option trim_space var \<notin> {Some ''0'', Some ''false'', Some ''no'', Some ''off''})"

definition dns_len :: "'a dns_cache \<Rightarrow> nat" where
  "dns_len c = length (hm_keys c)"

definition dns_fresh :: "instant \<Rightarrow> string \<Rightarrow> 'a dns_cache \<Rightarrow> 'a list option" where
  "dns_fresh now k c =
     (case hm_get c k of
        None \<Rightarrow> None
      | Some e \<Rightarrow> if now - de_at e \<le> TTL then Some (de_addrs e) else None)"

text \<open>\<open>store\<close>: reaping and the check, then the insertion.\<close>

definition dns_reap :: "instant \<Rightarrow> 'a dns_cache \<Rightarrow> 'a dns_cache" where
  "dns_reap now c = (if REAP_AT \<le> dns_len c then hm_retain (\<lambda>_ e. now - de_at e \<le> TTL) c else c)"

definition dns_insert :: "instant \<Rightarrow> string \<Rightarrow> 'a list \<Rightarrow> 'a dns_cache \<Rightarrow> 'a dns_cache" where
  "dns_insert now k addrs c = hm_insert k \<lparr>de_addrs = addrs, de_at = now\<rparr> c"

definition dns_store :: "instant \<Rightarrow> string \<Rightarrow> 'a list \<Rightarrow> 'a dns_cache \<Rightarrow> 'a dns_cache" where
  "dns_store now k addrs c =
     (let c = dns_reap now c in if dns_len c < HARD_CAP then dns_insert now k addrs c else c)"

definition dns_invalidate :: "string \<Rightarrow> 16 word \<Rightarrow> 'a dns_cache \<Rightarrow> 'a dns_cache" where
  "dns_invalidate host port c = hm_remove (dns_key host port) c"

text \<open>\<open>lookup\<close>, over what \<open>lookup_host\<close> answers.\<close>

definition dns_lookup :: "string \<Rightarrow> 16 word \<Rightarrow> io_error + 'a list \<Rightarrow> cdp_error + 'a list" where
  "dns_lookup host port answer =
     (case answer of
        Inl e \<Rightarrow> Inl (ErrIo e)
      | Inr addrs \<Rightarrow> if addrs = [] then Inl (CdpError_msg (''dns: no addresses for '' @ host @ '':'' @ digits (unat port))) else Inr addrs)"

text \<open>\<open>resolve\<close> when no other task touches the cache meanwhile; the answer comes \<open>later\<close>.\<close>

definition dns_resolve :: "instant \<Rightarrow> instant \<Rightarrow> string \<Rightarrow> 16 word \<Rightarrow> io_error + 'a list \<Rightarrow> 'a dns_cache \<Rightarrow>
    (cdp_error + 'a list) \<times> 'a dns_cache" where
  "dns_resolve now later host port answer c =
     (let k = dns_key host port in
      case dns_fresh now k c of
        Some addrs \<Rightarrow> (Inr addrs, c)
      | None \<Rightarrow> (case dns_lookup host port answer of
            Inl e \<Rightarrow> (Inl e, c)
          | Inr addrs \<Rightarrow> (Inr addrs, dns_store later k addrs c)))"

section \<open>Tasks that share the cache\<close>

text \<open>A store that passed the check waits among the admitted ones until it inserts.\<close>

record 'a dns_state =
  ds_cache :: "'a dns_cache"
  ds_admitted :: "(string \<times> 'a list) list"

datatype 'a dns_action =
    StoreChecks instant string "'a list"
  | StoreInserts instant nat
  | Invalidates string "16 word"

fun dns_step :: "'a dns_state \<Rightarrow> 'a dns_action \<Rightarrow> 'a dns_state" where
  "dns_step s (StoreChecks now k addrs) =
     (let c = dns_reap now (ds_cache s) in
      s\<lparr>ds_cache := c, ds_admitted := (if dns_len c < HARD_CAP then ds_admitted s @ [(k, addrs)] else ds_admitted s)\<rparr>)"
| "dns_step s (StoreInserts now i) =
     (if i < length (ds_admitted s)
      then let (k, addrs) = ds_admitted s ! i in
        \<lparr>ds_cache = dns_insert now k addrs (ds_cache s), ds_admitted = take i (ds_admitted s) @ drop (Suc i) (ds_admitted s)\<rparr>
      else s)"
| "dns_step s (Invalidates host port) = s\<lparr>ds_cache := dns_invalidate host port (ds_cache s)\<rparr>"

definition dns_start :: "'a dns_state" where
  "dns_start = \<lparr>ds_cache = [], ds_admitted = []\<rparr>"

text \<open>A store with nothing in between is the two steps.\<close>

lemma dns_store_steps:
  assumes "ds_admitted s = []"
  shows "ds_cache (dns_step (dns_step s (StoreChecks now k addrs)) (StoreInserts now 0)) = dns_store now k addrs (ds_cache s)"
  using assms by (simp add: dns_store_def Let_def)

section \<open>The size\<close>

lemma dns_len_card: "dns_len c = card (set (hm_keys c))"
  by (simp add: dns_len_def distinct_card hm.distinct_keys)

lemma dns_len_insert: "dns_len (dns_insert now k addrs c) \<le> Suc (dns_len c)"
  by (simp add: dns_len_card dns_insert_def hm.keys_insert card_insert_if)

lemma dns_len_shrinks: "dns_len (dns_reap now c) \<le> dns_len c" "dns_len (dns_invalidate host port c) \<le> dns_len c"
  by (auto simp: dns_len_def dns_reap_def dns_invalidate_def hm.keys_remove intro!: hm.length_keys_mono
      dest: hm.keys_retain [THEN subsetD])

text \<open>With at most \<open>n\<close> stores between check and insertion at any time, the entries and these stores together
  stay below the cap plus \<open>n\<close>.\<close>

definition dns_within :: "nat \<Rightarrow> 'a dns_state \<Rightarrow> bool" where
  "dns_within n s = (dns_len (ds_cache s) + length (ds_admitted s) < HARD_CAP + n)"

lemma dns_step_within:
  assumes "dns_within n s" "length (ds_admitted (dns_step s e)) \<le> n"
  shows "dns_within n (dns_step s e)"
proof (cases e)
  case (StoreChecks now k addrs)
  then show ?thesis using assms dns_len_shrinks(1) [of now "ds_cache s"] by (auto simp: dns_within_def Let_def)
next
  case (StoreInserts now i)
  show ?thesis
  proof (cases "i < length (ds_admitted s)")
    case True
    obtain k addrs where "ds_admitted s ! i = (k, addrs)" by fastforce
    then show ?thesis using assms StoreInserts True dns_len_insert [of now k addrs "ds_cache s"] by (simp add: dns_within_def)
  qed (use assms StoreInserts in simp)
next
  case (Invalidates host port)
  then show ?thesis using assms dns_len_shrinks(2) [of host port "ds_cache s"] by (simp add: dns_within_def)
qed

text \<open>C37 (The DNS cache is bounded). The hard cap holds up to the stores in flight: if never more than \<open>n\<close> stores
  are between their check and their insertion, the cache holds at most \<open>HARD_CAP - 1 + n\<close> entries
  after any sequence of checks, insertions and invalidations; for a single task that is the cap.\<close>

theorem dns_cache_bounded:
  assumes "list_all (\<lambda>i. length (ds_admitted (run dns_step dns_start (take i es))) \<le> n) [0..<Suc (length es)]"
  shows "dns_len (ds_cache (run dns_step dns_start es)) \<le> HARD_CAP - 1 + n"
proof -
  have "dns_within n (run dns_step dns_start (take i es))" if "i \<le> length es" for i
    using that
  proof (induction i)
    case 0
    then show ?case by (simp add: dns_within_def dns_start_def dns_len_def hm_keys_def HARD_CAP_def)
  next
    case (Suc i)
    have step: "run dns_step dns_start (take (Suc i) es) = dns_step (run dns_step dns_start (take i es)) (es ! i)"
      using Suc.prems by (simp add: take_Suc_conv_app_nth run_append)
    have "length (ds_admitted (run dns_step dns_start (take (Suc i) es))) \<le> n"
      using assms Suc.prems unfolding list_all_iff set_upt by (metis atLeastLessThan_iff le0 less_Suc_eq_le)
    then show ?case unfolding step using Suc by (intro dns_step_within) simp_all
  qed
  from this [of "length es"] show ?thesis by (simp add: dns_within_def)
qed

text \<open>Two stores that both pass the check before either inserts push the cache over the cap.\<close>

lemma hard_cap_passed:
  assumes "dns_len c = HARD_CAP - 1" "dns_reap now c = c" "a \<noteq> b" "a \<notin> set (hm_keys c)" "b \<notin> set (hm_keys c)"
  shows "dns_len (ds_cache (run dns_step \<lparr>ds_cache = c, ds_admitted = []\<rparr>
    [StoreChecks now a xs, StoreChecks now b ys, StoreInserts now 0, StoreInserts now 0])) = HARD_CAP + 1"
  using assms by (simp add: dns_len_card dns_insert_def hm.keys_insert HARD_CAP_def)

section \<open>What is served\<close>

lemma admitted_checked:
  "(k, addrs) \<in> set (ds_admitted (run dns_step dns_start es)) \<Longrightarrow> \<exists>t. StoreChecks t k addrs \<in> set es"
proof (induction es rule: rev_induct)
  case (snoc e es)
  then show ?case
    by (cases e) (auto simp: run_append Let_def dest: in_set_takeD in_set_dropD split: if_splits prod.splits)
qed (simp add: dns_start_def)

lemma entry_inserted:
  "hm_get (ds_cache (run dns_step dns_start es)) k = Some entry \<Longrightarrow>
   \<exists>pre i post t'. es = pre @ StoreInserts (de_at entry) i # post \<and> StoreChecks t' k (de_addrs entry) \<in> set pre \<and>
     list_all (\<lambda>e. \<forall>host port. e = Invalidates host port \<longrightarrow> dns_key host port \<noteq> k) post"
proof (induction es rule: rev_induct)
  case Nil
  then show ?case by (simp add: dns_start_def)
next
  case (snoc e es)
  let ?s = "run dns_step dns_start es"
  have step: "hm_get (ds_cache (dns_step ?s e)) k = Some entry" using snoc.prems by (simp add: run_append)
  show ?case
  proof (cases "hm_get (ds_cache ?s) k = Some entry \<and> (\<forall>host port. e = Invalidates host port \<longrightarrow> dns_key host port \<noteq> k)")
    case True
    then obtain pre i post t' where "es = pre @ StoreInserts (de_at entry) i # post" "StoreChecks t' k (de_addrs entry) \<in> set pre"
      "list_all (\<lambda>e. \<forall>host port. e = Invalidates host port \<longrightarrow> dns_key host port \<noteq> k) post"
      using snoc.IH by blast
    moreover from this have "es @ [e] = pre @ StoreInserts (de_at entry) i # (post @ [e])"
      "list_all (\<lambda>e. \<forall>host port. e = Invalidates host port \<longrightarrow> dns_key host port \<noteq> k) (post @ [e])"
      using True by simp_all
    ultimately show ?thesis by blast
  next
    case False
    obtain now i where e: "e = StoreInserts now i" "i < length (ds_admitted ?s)" "ds_admitted ?s ! i = (k, de_addrs entry)" "de_at entry = now"
      using False step
      by (cases e) (auto simp: dns_reap_def dns_insert_def dns_invalidate_def Let_def split: if_splits prod.splits option.splits)
    then have "(k, de_addrs entry) \<in> set (ds_admitted ?s)" by (metis nth_mem)
    then obtain t' where "StoreChecks t' k (de_addrs entry) \<in> set es" using admitted_checked by blast
    moreover have "es @ [e] = es @ StoreInserts (de_at entry) i # []" using e by simp
    moreover have "list_all (\<lambda>e. \<forall>host port. e = Invalidates host port \<longrightarrow> dns_key host port \<noteq> k) []" by simp
    ultimately show ?thesis by blast
  qed
qed

text \<open>Cached addresses are recent. However the tasks interleave, an address list the cache serves was found by a
  lookup of that very host and port, stored at most thirty seconds ago, and not invalidated since.\<close>

theorem dns_hits_recent:
  assumes "dns_fresh now k (ds_cache (run dns_step dns_start es)) = Some addrs"
  shows "\<exists>pre t i post t'. es = pre @ StoreInserts t i # post \<and> StoreChecks t' k addrs \<in> set pre \<and> now - t \<le> TTL \<and>
    list_all (\<lambda>e. \<forall>host port. e = Invalidates host port \<longrightarrow> dns_key host port \<noteq> k) post"
proof -
  obtain entry where "hm_get (ds_cache (run dns_step dns_start es)) k = Some entry" "now - de_at entry \<le> TTL" "addrs = de_addrs entry"
    using assms by (auto simp: dns_fresh_def split: option.splits if_splits)
  then show ?thesis using entry_inserted by blast
qed

definition demo_actions :: "nat dns_action list" where
  "demo_actions = [StoreChecks 1 ''h:80'' [7], StoreInserts 2 0, Invalidates ''g'' 80]"

lemma dns_cache_bounded_witness: "dns_len (ds_cache (run dns_step dns_start demo_actions)) \<le> HARD_CAP - 1 + 1"
  by (rule dns_cache_bounded) (simp add: demo_actions_def dns_start_def dns_reap_def dns_len_def hm_keys_def REAP_AT_def HARD_CAP_def upt_rec)

lemma dns_hits_recent_witness:
  "\<exists>pre t i post t'. demo_actions = pre @ StoreInserts t i # post \<and> StoreChecks t' ''h:80'' [7] \<in> set pre \<and> 5 - t \<le> TTL"
proof -
  have "dns_fresh 5 ''h:80'' (ds_cache (run dns_step dns_start demo_actions)) = Some [7]"
    by (simp add: demo_actions_def dns_start_def dns_fresh_def dns_reap_def dns_len_def hm_keys_def REAP_AT_def HARD_CAP_def
        dns_insert_def dns_invalidate_def dns_key_def digits.simps TTL_def from_secs_def)
  from dns_hits_recent [OF this] show ?thesis by blast
qed

end
