(* ===== verification/Fetcher.thy ===== *)
theory Fetcher
  imports Text
begin

text \<open>
  The fetcher of browser builds (\<open>src/fetcher/src/\<close>): versions as they are written, the build a
  version stands for, where a build is downloaded from and installed to, and the fetch itself. The
  answers of the download servers and of the file system are arguments. A written version reads
  back, and an installed executable belongs to one platform and one build.
\<close>

section \<open>Data\<close>

datatype browser_kind = Chrome | ChromeHeadlessShell | Chromium

datatype platform = Linux | Mac | MacArm | Win32 | Win64

datatype channel = Canary | Dev | Beta | Stable

record browser_version_number =
  vn_major :: u32
  vn_minor :: u32
  vn_build :: u32
  vn_patch :: u32

datatype browser_version =
    VersionChannel channel
  | VersionRevision u32
  | VersionNumber browser_version_number
  | VersionMilestone u32

datatype version_error =
    InvalidChannel string
  | InvalidBuild string
  | InvalidMilestone string
  | InvalidRevision string
  | InvalidVersion string
  | ResolveFailed string

datatype fetcher_error =
    FetcherInvalidVersion version_error
  | NoPathAvailable
  | DownloadFailed string
  | InstallFailed string
  | UnsupportedOs string string

record build_info =
  bi_revision :: "u32 option"
  bi_version :: "string option"
  bi_id :: string

record browser_host =
  bh_object :: string
  bh_metadata :: string

definition BrowserHost_single :: "string \<Rightarrow> browser_host" where
  "BrowserHost_single host = \<lparr>bh_object = host, bh_metadata = host\<rparr>"

definition BrowserHost_current :: "browser_kind \<Rightarrow> browser_host" where
  "BrowserHost_current kind =
     (case kind of
        Chromium \<Rightarrow> \<lparr>bh_object = ''https://storage.googleapis.com'', bh_metadata = ''https://storage.googleapis.com''\<rparr>
      | _ \<Rightarrow> \<lparr>bh_object = ''https://storage.googleapis.com'', bh_metadata = ''https://googlechromelabs.github.io/''\<rparr>)"

definition BrowserVersion_current :: "browser_kind \<Rightarrow> browser_version" where
  "BrowserVersion_current kind = (case kind of Chromium \<Rightarrow> VersionRevision 1355984 | _ \<Rightarrow> VersionChannel Stable)"

section \<open>Versions, written and read\<close>

text \<open>\<open>str::split\<close> on a character, \<open>parse::<u32>\<close> and the display of a \<open>u32\<close>.\<close>

fun split_on :: "char \<Rightarrow> string \<Rightarrow> string list" where
  "split_on c [] = [[]]"
| "split_on c (x # s) = (if x = c then [] # split_on c s else (case split_on c s of p # ps \<Rightarrow> (x # p) # ps | [] \<Rightarrow> [[x]]))"

definition parse_u32 :: "string \<Rightarrow> u32 option" where
  "parse_u32 s =
     (let s = (case s of c # t \<Rightarrow> if c = CHR ''+'' then t else s | [] \<Rightarrow> s) in
      if s = [] \<or> \<not> list_all is_ascii_digit s then None
      else if digits_value s < 2 ^ 32 then Some (of_nat (digits_value s)) else None)"

definition show_u32 :: "u32 \<Rightarrow> string" where
  "show_u32 n = digits (unat n)"

definition Version_display :: "browser_version_number \<Rightarrow> string" where
  "Version_display v =
     show_u32 (vn_major v) @ ''.'' @ show_u32 (vn_minor v) @ ''.'' @ show_u32 (vn_build v) @ ''.'' @ show_u32 (vn_patch v)"

definition Version_from_str :: "string \<Rightarrow> version_error + browser_version_number" where
  "Version_from_str s =
     (case split_on (CHR ''.'') s of
        [a, b, c, d] \<Rightarrow> (case (parse_u32 a, parse_u32 b, parse_u32 c, parse_u32 d) of
            (Some a, Some b, Some c, Some d) \<Rightarrow> Inr \<lparr>vn_major = a, vn_minor = b, vn_build = c, vn_patch = d\<rparr>
          | _ \<Rightarrow> Inl (InvalidVersion s))
      | _ \<Rightarrow> Inl (InvalidVersion s))"

fun Channel_as_key :: "channel \<Rightarrow> string" where
  "Channel_as_key Canary = ''Canary''"
| "Channel_as_key Dev = ''Dev''"
| "Channel_as_key Beta = ''Beta''"
| "Channel_as_key Stable = ''Stable''"

fun Channel_display :: "channel \<Rightarrow> string" where
  "Channel_display Canary = ''canary''"
| "Channel_display Dev = ''dev''"
| "Channel_display Beta = ''beta''"
| "Channel_display Stable = ''stable''"

definition Channel_from_str :: "string \<Rightarrow> version_error + channel" where
  "Channel_from_str s =
     (if s = ''canary'' \<or> s = ''Canary'' then Inr Canary
      else if s = ''dev'' \<or> s = ''Dev'' then Inr Dev
      else if s = ''beta'' \<or> s = ''Beta'' then Inr Beta
      else if s = ''stable'' \<or> s = ''Stable'' then Inr Stable
      else Inl (InvalidChannel s))"

definition Milestone_from_str :: "string \<Rightarrow> version_error + u32" where
  "Milestone_from_str s = (case parse_u32 s of None \<Rightarrow> Inl (InvalidMilestone s) | Some n \<Rightarrow> Inr n)"

definition Revision_from_str :: "string \<Rightarrow> version_error + u32" where
  "Revision_from_str s = (case parse_u32 s of None \<Rightarrow> Inl (InvalidRevision s) | Some n \<Rightarrow> Inr n)"

definition BrowserVersion_from_str :: "string \<Rightarrow> version_error + browser_version" where
  "BrowserVersion_from_str s =
     (case Channel_from_str s of
        Inr c \<Rightarrow> Inr (VersionChannel c)
      | Inl _ \<Rightarrow> (case Version_from_str s of
            Inr v \<Rightarrow> Inr (VersionNumber v)
          | Inl _ \<Rightarrow> (case Revision_from_str s of
                Inr r \<Rightarrow> Inr (VersionRevision r)
              | Inl _ \<Rightarrow> Inl (InvalidVersion s))))"

section \<open>Builds\<close>

definition BuildInfo_revision :: "u32 \<Rightarrow> build_info" where
  "BuildInfo_revision r = \<lparr>bi_revision = Some r, bi_version = None, bi_id = show_u32 r\<rparr>"

definition BuildInfo_version :: "string \<Rightarrow> build_info" where
  "BuildInfo_version v = \<lparr>bi_revision = None, bi_version = Some v, bi_id = v\<rparr>"

definition BuildInfo_both :: "string \<Rightarrow> u32 \<Rightarrow> build_info" where
  "BuildInfo_both v r = \<lparr>bi_revision = Some r, bi_version = Some v, bi_id = v\<rparr>"

fun archive :: "browser_kind \<Rightarrow> platform \<Rightarrow> u32 option \<Rightarrow> string" where
  "archive Chromium Linux r = ''chrome-linux''"
| "archive Chromium Mac r = ''chrome-mac''"
| "archive Chromium MacArm r = ''chrome-mac''"
| "archive Chromium Win32 r = (case r of Some n \<Rightarrow> if n > 591479 then ''chrome-win'' else ''chrome-win32'' | None \<Rightarrow> ''chrome-win'')"
| "archive Chromium Win64 r = (case r of Some n \<Rightarrow> if n > 591479 then ''chrome-win'' else ''chrome-win32'' | None \<Rightarrow> ''chrome-win'')"
| "archive Chrome Linux r = ''chrome-linux64''"
| "archive Chrome Mac r = ''chrome-mac-x64''"
| "archive Chrome MacArm r = ''chrome-mac-arm64''"
| "archive Chrome Win32 r = ''chrome-win32''"
| "archive Chrome Win64 r = ''chrome-win64''"
| "archive ChromeHeadlessShell Linux r = ''chrome-headless-shell-linux64''"
| "archive ChromeHeadlessShell Mac r = ''chrome-headless-shell-mac-x64''"
| "archive ChromeHeadlessShell MacArm r = ''chrome-headless-shell-mac-arm64''"
| "archive ChromeHeadlessShell Win32 r = ''chrome-headless-shell-win32''"
| "archive ChromeHeadlessShell Win64 r = ''chrome-headless-shell-win64''"

fun folder :: "browser_kind \<Rightarrow> platform \<Rightarrow> string" where
  "folder Chromium Linux = ''Linux_x64''"
| "folder Chromium Mac = ''Mac''"
| "folder Chromium MacArm = ''Mac_Arm''"
| "folder Chromium Win32 = ''Win''"
| "folder Chromium Win64 = ''Win_x64''"
| "folder _ Linux = ''linux64''"
| "folder _ Mac = ''mac-x64''"
| "folder _ MacArm = ''mac-arm64''"
| "folder _ Win32 = ''win32''"
| "folder _ Win64 = ''win64''"

definition download_url :: "browser_kind \<Rightarrow> platform \<Rightarrow> build_info \<Rightarrow> browser_host \<Rightarrow> string" where
  "download_url kind platform build host =
     (let folder = folder kind platform; archive = archive kind platform (bi_revision build) in
      if kind = Chromium
      then bh_object host @ ''/chromium-browser-snapshots/'' @ folder @ ''/'' @ bi_id build @ ''/'' @ archive @ ''.zip''
      else bh_object host @ ''/chrome-for-testing-public/'' @ bi_id build @ ''/'' @ folder @ ''/'' @ archive @ ''.zip'')"

text \<open>A path is the list of its components.\<close>

fun launcher :: "browser_kind \<Rightarrow> platform \<Rightarrow> string list" where
  "launcher Chromium Linux = [''chrome'']"
| "launcher Chromium Mac = [''Chromium.app'', ''Contents'', ''MacOS'', ''Chromium'']"
| "launcher Chromium MacArm = [''Chromium.app'', ''Contents'', ''MacOS'', ''Chromium'']"
| "launcher Chrome Linux = [''chrome'']"
| "launcher Chrome Mac = [''Google Chrome for Testing.app'', ''Contents'', ''MacOS'', ''Google Chrome for Testing'']"
| "launcher Chrome MacArm = [''Google Chrome for Testing.app'', ''Contents'', ''MacOS'', ''Google Chrome for Testing'']"
| "launcher ChromeHeadlessShell Win32 = [''chrome-headless-shell.exe'']"
| "launcher ChromeHeadlessShell Win64 = [''chrome-headless-shell.exe'']"
| "launcher ChromeHeadlessShell _ = [''chrome-headless-shell'']"
| "launcher _ Win32 = [''chrome.exe'']"
| "launcher _ Win64 = [''chrome.exe'']"

definition executable :: "browser_kind \<Rightarrow> platform \<Rightarrow> build_info \<Rightarrow> string list \<Rightarrow> string list" where
  "executable kind platform build folder_path =
     folder_path @ [archive kind platform (bi_revision build)] @ launcher kind platform"

fun platform_name :: "platform \<Rightarrow> string" where
  "platform_name Linux = ''linux''"
| "platform_name Mac = ''mac''"
| "platform_name MacArm = ''mac_arm''"
| "platform_name Win32 = ''win32''"
| "platform_name Win64 = ''win64''"

definition folder_name :: "platform \<Rightarrow> build_info \<Rightarrow> string" where
  "folder_name platform build = platform_name platform @ ''-'' @ bi_id build"

text \<open>\<open>Path::with_extension\<close> on the last component: what follows its last dot, unless that is its first character,
  is replaced.\<close>

definition with_extension :: "string \<Rightarrow> string \<Rightarrow> string" where
  "with_extension ext name =
     (let stem = rev (drop 1 (dropWhile (\<lambda>c. c \<noteq> CHR ''.'') (rev name))) in
      (if stem = [] then name else stem) @ ''.'' @ ext)"

section \<open>Resolving and fetching\<close>

text \<open>What the servers and the file system answer: the text or the table of versions behind a URL, whether a
  path exists, and how downloading and unpacking end.\<close>

record fetch_env =
  fe_text :: "string \<Rightarrow> string + string"
  fe_versions :: "string \<Rightarrow> string + (string, string \<times> string) hash_map"
  fe_exists :: "string list \<Rightarrow> bool"
  fe_download :: "string \<Rightarrow> string list \<Rightarrow> string + unit"
  fe_unzip :: "string list \<Rightarrow> string list \<Rightarrow> string + unit"

definition resolve_listed :: "(string, string \<times> string) hash_map \<Rightarrow> string \<Rightarrow> version_error \<Rightarrow> version_error + build_info" where
  "resolve_listed versions k missing =
     (case hm_get versions k of
        None \<Rightarrow> Inl missing
      | Some (version, revision) \<Rightarrow> (case Revision_from_str revision of
            Inl e \<Rightarrow> Inl e
          | Inr r \<Rightarrow> Inr (BuildInfo_both version r)))"

definition Channel_resolve :: "fetch_env \<Rightarrow> browser_kind \<Rightarrow> platform \<Rightarrow> browser_host \<Rightarrow> channel \<Rightarrow> version_error + build_info" where
  "Channel_resolve env kind platform host c =
     (if kind = Chromium then
        if c = Canary
        then (case fe_text env (bh_metadata host @ ''/chromium-browser-snapshots/'' @ folder kind platform @ ''/LAST_CHANGE'') of
            Inl e \<Rightarrow> Inl (ResolveFailed e)
          | Inr last_change \<Rightarrow> (case Revision_from_str (trim_space last_change) of
                Inl e \<Rightarrow> Inl e
              | Inr r \<Rightarrow> Inr (BuildInfo_revision r)))
        else Inl (ResolveFailed ''Only the Canary channel is supported for Chromium'')
      else (case fe_versions env (bh_metadata host @ ''chrome-for-testing/last-known-good-versions.json'') of
          Inl e \<Rightarrow> Inl (ResolveFailed e)
        | Inr versions \<Rightarrow> resolve_listed versions (Channel_as_key c) (InvalidChannel (Channel_display c))))"

definition Milestone_resolve :: "fetch_env \<Rightarrow> browser_kind \<Rightarrow> browser_host \<Rightarrow> u32 \<Rightarrow> version_error + build_info" where
  "Milestone_resolve env kind host m =
     (if kind = Chromium then Inl (ResolveFailed ''Milestone is not supported for Chromium'')
      else (case fe_versions env (bh_metadata host @ ''chrome-for-testing/latest-versions-per-milestone.json'') of
          Inl e \<Rightarrow> Inl (ResolveFailed e)
        | Inr versions \<Rightarrow> resolve_listed versions (show_u32 m) (InvalidMilestone (show_u32 m))))"

definition Version_resolve :: "browser_kind \<Rightarrow> browser_version_number \<Rightarrow> version_error + build_info" where
  "Version_resolve kind v =
     (if kind = Chromium then Inl (ResolveFailed ''Version strings are not supported for Chromium, use Revision instead'')
      else Inr (BuildInfo_version (Version_display v)))"

definition Revision_resolve :: "browser_kind \<Rightarrow> u32 \<Rightarrow> version_error + build_info" where
  "Revision_resolve kind r =
     (if kind = Chromium then Inr (BuildInfo_revision r)
      else Inl (ResolveFailed ''Revision-based lookup is only supported for Chromium, use Version or Channel for Chrome/ChromeHeadlessShell''))"

fun BrowserVersion_resolve :: "fetch_env \<Rightarrow> browser_kind \<Rightarrow> platform \<Rightarrow> browser_host \<Rightarrow> browser_version \<Rightarrow> version_error + build_info" where
  "BrowserVersion_resolve env kind platform host (VersionRevision r) = Revision_resolve kind r"
| "BrowserVersion_resolve env kind platform host (VersionChannel c) = Channel_resolve env kind platform host c"
| "BrowserVersion_resolve env kind platform host (VersionNumber v) = Version_resolve kind v"
| "BrowserVersion_resolve env kind platform host (VersionMilestone m) = Milestone_resolve env kind host m"

record browser_fetcher =
  bf_host :: browser_host
  bf_path :: "string list"
  bf_platform :: platform
  bf_kind :: browser_kind
  bf_version :: browser_version

record installation =
  in_folder_path :: "string list"
  in_executable_path :: "string list"
  in_build_info :: build_info

text \<open>What a fetch does outside: downloads to a path, and unpacks one.\<close>

datatype fetch_effect = Downloads string "string list" | Unzips "string list" "string list"

definition folder_path :: "browser_fetcher \<Rightarrow> build_info \<Rightarrow> string list" where
  "folder_path f build = bf_path f @ [folder_name (bf_platform f) build]"

definition archive_path :: "browser_fetcher \<Rightarrow> build_info \<Rightarrow> string list" where
  "archive_path f build = bf_path f @ [with_extension ''zip'' (folder_name (bf_platform f) build)]"

definition fetch_installation :: "browser_fetcher \<Rightarrow> build_info \<Rightarrow> installation" where
  "fetch_installation f build =
     \<lparr>in_folder_path = folder_path f build,
      in_executable_path = executable (bf_kind f) (bf_platform f) build (folder_path f build), in_build_info = build\<rparr>"

definition fetch_local :: "fetch_env \<Rightarrow> browser_fetcher \<Rightarrow> build_info \<Rightarrow> bool" where
  "fetch_local env f build = fe_exists env (executable (bf_kind f) (bf_platform f) build (folder_path f build))"

definition fetch_download :: "fetch_env \<Rightarrow> browser_fetcher \<Rightarrow> build_info \<Rightarrow> (fetcher_error + unit) \<times> fetch_effect list" where
  "fetch_download env f build =
     (let url = download_url (bf_kind f) (bf_platform f) build (bf_host f); zip = archive_path f build; dest = folder_path f build in
      case fe_download env url zip of
        Inl e \<Rightarrow> (Inl (DownloadFailed e), [Downloads url zip])
      | Inr _ \<Rightarrow> (case fe_unzip env zip dest of
            Inl e \<Rightarrow> (Inl (InstallFailed e), [Downloads url zip, Unzips zip dest])
          | Inr _ \<Rightarrow> (Inr (), [Downloads url zip, Unzips zip dest])))"

definition fetch :: "fetch_env \<Rightarrow> browser_fetcher \<Rightarrow> (fetcher_error + installation) \<times> fetch_effect list" where
  "fetch env f =
     (case BrowserVersion_resolve env (bf_kind f) (bf_platform f) (bf_host f) (bf_version f) of
        Inl e \<Rightarrow> (Inl (FetcherInvalidVersion e), [])
      | Inr build \<Rightarrow>
          if fetch_local env f build then (Inr (fetch_installation f build), [])
          else (case fetch_download env f build of
              (Inl e, effects) \<Rightarrow> (Inl e, effects)
            | (Inr _, effects) \<Rightarrow> (Inr (fetch_installation f build), effects)))"

text \<open>The builder of the options; the cache directory, the current platform and the names of the machine come
  from outside.\<close>

record options_builder =
  ob_host :: "browser_host option"
  ob_path :: "string list option"
  ob_platform :: "platform option"
  ob_kind :: "browser_kind option"
  ob_version :: "browser_version option"

definition OptionsBuilder_with_revision :: "u32 \<Rightarrow> options_builder \<Rightarrow> options_builder" where
  "OptionsBuilder_with_revision r b = b\<lparr>ob_version := Some (VersionRevision r), ob_kind := Some Chromium\<rparr>"

definition OptionsBuilder_build :: "string list option \<Rightarrow> platform option \<Rightarrow> string \<times> string \<Rightarrow> options_builder \<Rightarrow>
    fetcher_error + browser_fetcher" where
  "OptionsBuilder_build cache_dir current machine b =
     (case (case ob_path b of Some p \<Rightarrow> Some p | None \<Rightarrow> map_option (\<lambda>dir. dir @ [''chromiumoxide'']) cache_dir) of
        None \<Rightarrow> Inl NoPathAvailable
      | Some path \<Rightarrow> (case (case ob_platform b of Some p \<Rightarrow> Some p | None \<Rightarrow> current) of
            None \<Rightarrow> Inl (UnsupportedOs (fst machine) (snd machine))
          | Some platform \<Rightarrow>
              let kind = (case ob_kind b of Some k \<Rightarrow> k | None \<Rightarrow> Chrome);
                  version = (case ob_version b of Some v \<Rightarrow> v | None \<Rightarrow> BrowserVersion_current kind);
                  host = (case ob_host b of Some h \<Rightarrow> h | None \<Rightarrow> BrowserHost_current kind)
              in Inr \<lparr>bf_host = host, bf_path = path, bf_platform = platform, bf_kind = kind, bf_version = version\<rparr>))"

section \<open>Written versions read back\<close>

lemma split_on_no_sep: "c \<notin> set s \<Longrightarrow> split_on c s = [s]"
  by (induction s) auto

lemma split_on_append: "c \<notin> set s \<Longrightarrow> split_on c (s @ c # t) = s # split_on c t"
  by (induction s) auto

lemma show_u32_digits: "list_all is_ascii_digit (show_u32 n)" "show_u32 n \<noteq> []" "CHR ''.'' \<notin> set (show_u32 n)"
  using digits_facts [of "unat n"] by (auto simp: show_u32_def list_all_iff is_ascii_digit_def)

lemma parse_u32_show [simp]: "parse_u32 (show_u32 n) = Some n"
proof -
  have "hd (show_u32 n) \<noteq> CHR ''+''" using show_u32_digits(1,2) [of n] by (cases "show_u32 n") (auto simp: is_ascii_digit_def)
  moreover have "unat n < 2 ^ 32" using unsigned_less [of n] by simp
  ultimately show ?thesis using digits_facts [of "unat n"] show_u32_digits(2) [of n]
    by (cases "show_u32 n") (simp_all add: parse_u32_def show_u32_def)
qed

lemma Version_from_display: "Version_from_str (Version_display v) = Inr v"
proof -
  have "split_on (CHR ''.'') (Version_display v) =
      [show_u32 (vn_major v), show_u32 (vn_minor v), show_u32 (vn_build v), show_u32 (vn_patch v)]"
    using show_u32_digits(3) by (simp add: Version_display_def split_on_append split_on_no_sep)
  then show ?thesis by (simp add: Version_from_str_def)
qed

lemma number_no_channel:
  assumes "is_ascii_digit (hd s)"
  shows "Channel_from_str s = Inl (InvalidChannel s)"
proof -
  have "s \<noteq> c # t" if "\<not> is_ascii_digit c" for c t using that assms by auto
  then show ?thesis by (simp add: Channel_from_str_def is_ascii_digit_def)
qed

text \<open>Versions read back. A channel, a version number and a revision that are written out and read
  again give the same version: the reader tries channels, version numbers and revisions in turn,
  and no written form is taken for another.\<close>

theorem version_round_trip:
  "BrowserVersion_from_str (Channel_display c) = Inr (VersionChannel c)"
  "BrowserVersion_from_str (Version_display v) = Inr (VersionNumber v)"
  "BrowserVersion_from_str (show_u32 r) = Inr (VersionRevision r)"
proof -
  have digit: "is_ascii_digit (hd (show_u32 n @ t))" for n t using show_u32_digits(1,2) [of n] by (cases "show_u32 n") auto
  show "BrowserVersion_from_str (Channel_display c) = Inr (VersionChannel c)"
    by (cases c) (simp_all add: BrowserVersion_from_str_def Channel_from_str_def)
  have "Channel_from_str (Version_display v) = Inl (InvalidChannel (Version_display v))"
    by (rule number_no_channel) (simp only: Version_display_def digit)
  then show "BrowserVersion_from_str (Version_display v) = Inr (VersionNumber v)"
    by (simp add: BrowserVersion_from_str_def Version_from_display)
  have "Channel_from_str (show_u32 r) = Inl (InvalidChannel (show_u32 r))"
    by (rule number_no_channel) (use digit [of r "[]"] in simp)
  moreover have "Version_from_str (show_u32 r) = Inl (InvalidVersion (show_u32 r))"
    by (simp add: Version_from_str_def split_on_no_sep show_u32_digits(3))
  ultimately show "BrowserVersion_from_str (show_u32 r) = Inr (VersionRevision r)"
    by (simp add: BrowserVersion_from_str_def Revision_from_str_def)
qed

section \<open>Installed builds\<close>

lemma folder_name_injective:
  assumes "folder_name p1 b1 = folder_name p2 b2"
  shows "p1 = p2 \<and> bi_id b1 = bi_id b2"
proof -
  have "takeWhile (\<lambda>c. c \<noteq> CHR ''-'') (folder_name p b) = platform_name p" for p b
    by (cases p) (simp_all add: folder_name_def)
  then have "platform_name p1 = platform_name p2" using assms by metis
  moreover from this have "p1 = p2" by (cases p1; cases p2) simp_all
  ultimately show ?thesis using assms by (simp add: folder_name_def)
qed

text \<open>An executable belongs to one build. Two installations under one root whose executables are the same
  file are of the same platform and build, and of the same kind, unless one is Chromium and the
  other Chrome for 32 bit Windows; so what the fetcher finds installed is the build it looked for.\<close>

theorem executables_distinct:
  assumes "executable k1 p1 b1 (base_path @ [folder_name p1 b1]) = executable k2 p2 b2 (base_path @ [folder_name p2 b2])"
  shows "p1 = p2 \<and> bi_id b1 = bi_id b2 \<and> (k1 = k2 \<or> p1 = Win32 \<and> k1 \<noteq> ChromeHeadlessShell \<and> k2 \<noteq> ChromeHeadlessShell)"
proof -
  have same: "folder_name p1 b1 = folder_name p2 b2" "archive k1 p1 (bi_revision b1) = archive k2 p2 (bi_revision b2)"
    using assms by (simp_all add: executable_def)
  from folder_name_injective [OF same(1)] have "p1 = p2" "bi_id b1 = bi_id b2" by simp_all
  moreover have "k1 = k2 \<or> p1 = Win32 \<and> k1 \<noteq> ChromeHeadlessShell \<and> k2 \<noteq> ChromeHeadlessShell"
    using same(2) \<open>p1 = p2\<close> by (cases k1; cases k2; cases p2) (auto split: option.splits if_splits)
  ultimately show ?thesis by simp
qed

text \<open>The archive of a build is named without its patch number, so builds that differ in it alone share the
  path they are downloaded to.\<close>

lemma archives_share_path:
  "archive_path f (BuildInfo_version ''120.0.6099.109'') = archive_path f (BuildInfo_version ''120.0.6099.110'')"
  by (cases "bf_platform f") (simp_all add: archive_path_def with_extension_def folder_name_def BuildInfo_version_def)

text \<open>A custom host for Chrome has to end in a slash for the metadata and must not for the downloads.\<close>

lemma single_host_urls:
  "Channel_resolve env Chrome p (BrowserHost_single ''https://mirror'') c =
     (case fe_versions env ''https://mirrorchrome-for-testing/last-known-good-versions.json'' of
        Inl e \<Rightarrow> Inl (ResolveFailed e)
      | Inr versions \<Rightarrow> resolve_listed versions (Channel_as_key c) (InvalidChannel (Channel_display c)))"
  by (simp add: Channel_resolve_def BrowserHost_single_def)

end
