(* ===== verification/Generator.thy ===== *)
theory Generator
  imports Pdl_Parser
begin

text \<open>
  The generator of the protocol types (\<open>src/pdl/src/build/\<close>): what it writes for a description, item by
  item, the sizes it keeps to decide which events are boxed, and the table of events. The emitted
  tokens are represented by the items they declare: structs with their fields, enums with the
  texts of their variants, modules. The conversions of names (crate \<open>heck\<close>) and the size of a JSON
  value are arguments.
\<close>

section \<open>Names and sizes from outside\<close>

record gen_env =
  ge_camel :: "string \<Rightarrow> string"
  ge_snake :: "string \<Rightarrow> string"
  ge_value_size :: u64

datatype gen_panic =
    NoReferencedDomain string
  | NoTypeForRef string
  | NoTypeForEvent string
  | NoMatchingDomain string
  | UnwrapNone
  | OutOfBounds

text \<open>What stands before and after the last dot of a name (\<open>rsplitn\<close>, \<open>rsplit\<close>).\<close>

definition after_dot :: "string \<Rightarrow> string" where
  "after_dot s = rev (takeWhile (\<lambda>c. c \<noteq> CHR ''.'') (rev s))"

definition before_dot :: "string \<Rightarrow> string" where
  "before_dot s = rev (drop 1 (dropWhile (\<lambda>c. c \<noteq> CHR ''.'') (rev s)))"

definition generate_field_name :: "gen_env \<Rightarrow> string \<Rightarrow> string" where
  "generate_field_name env name =
     (let name = ge_snake env name in
      if name = ''type'' then ''r#type'' else if name = ''mod'' then ''r#mod''
      else if name = ''override'' then ''r#override'' else name)"

definition generate_enum_field_name :: "gen_env \<Rightarrow> string \<Rightarrow> string" where
  "generate_enum_field_name env name = (if name = ''Self'' then ''KSelf'' else ge_camel env name)"

definition subenum_name :: "gen_env \<Rightarrow> string \<Rightarrow> string \<Rightarrow> string" where
  "subenum_name env parent inner = ge_camel env parent @ generate_enum_field_name env inner"

section \<open>What a description is generated from\<close>

datatype domain_datatype = DtType type_def | DtCommand pdl_command | DtEvent pdl_event

definition domain_datatypes :: "domain \<Rightarrow> domain_datatype list" where
  "domain_datatypes d = map DtType (do_types d) @ map DtCommand (do_commands d) @ map DtEvent (do_events d)"

fun dt_name :: "domain_datatype \<Rightarrow> string" where
  "dt_name (DtType t) = td_name t"
| "dt_name (DtCommand c) = pc_name c"
| "dt_name (DtEvent e) = pe_name e"

fun dt_raw_name :: "domain_datatype \<Rightarrow> string" where
  "dt_raw_name (DtType t) = td_raw_name t"
| "dt_raw_name (DtCommand c) = pc_raw_name c"
| "dt_raw_name (DtEvent e) = pe_raw_name e"

fun dt_experimental :: "domain_datatype \<Rightarrow> bool" where
  "dt_experimental (DtType t) = td_experimental t"
| "dt_experimental (DtCommand c) = pc_experimental c"
| "dt_experimental (DtEvent e) = pe_experimental e"

fun dt_deprecated :: "domain_datatype \<Rightarrow> bool" where
  "dt_deprecated (DtType t) = td_deprecated t"
| "dt_deprecated (DtCommand c) = pc_deprecated c"
| "dt_deprecated (DtEvent e) = pe_deprecated e"

fun dt_is_type :: "domain_datatype \<Rightarrow> bool" where
  "dt_is_type (DtType _) = True"
| "dt_is_type _ = False"

definition event_ident :: "gen_env \<Rightarrow> string \<Rightarrow> string" where
  "event_ident env name = ''Event'' @ ge_camel env name"

fun dt_ident_name :: "gen_env \<Rightarrow> domain_datatype \<Rightarrow> string" where
  "dt_ident_name env (DtType t) = ge_camel env (td_name t)"
| "dt_ident_name env (DtCommand c) = ge_camel env (pc_name c) @ ''Params''"
| "dt_ident_name env (DtEvent e) = event_ident env (pe_name e)"

fun dt_params :: "domain_datatype \<Rightarrow> param list" where
  "dt_params (DtType t) = (case td_item t of Some (ItemProperties ps) \<Rightarrow> ps | _ \<Rightarrow> [])"
| "dt_params (DtCommand c) = pc_parameters c"
| "dt_params (DtEvent e) = pe_parameters e"

fun dt_as_enum :: "domain_datatype \<Rightarrow> variant list option" where
  "dt_as_enum (DtType t) = (case td_item t of Some (ItemEnum vars) \<Rightarrow> Some vars | _ \<Rightarrow> None)"
| "dt_as_enum _ = None"

definition TypeDef_is_enum :: "type_def \<Rightarrow> bool" where
  "TypeDef_is_enum t = (case td_item t of Some (ItemEnum _) \<Rightarrow> True | _ \<Rightarrow> False)"

definition Type_is_enum :: "pdl_type \<Rightarrow> bool" where
  "Type_is_enum ty = (case ty of TyEnum _ \<Rightarrow> True | _ \<Rightarrow> False)"

section \<open>What is generated\<close>

datatype rust_type =
    RtI64 | RtF64 | RtBool | RtString | RtValue | RtBinary
  | RtIdent string
  | RtSuper string string
  | RtOuter string string string
  | RtVec rust_type
  | RtBox rust_type

record field_type =
  ft_needs_box :: bool
  ft_is_vec :: bool
  ft_ty :: rust_type

definition FieldType_new :: "rust_type \<Rightarrow> field_type" where
  "FieldType_new ty = \<lparr>ft_needs_box = False, ft_is_vec = False, ft_ty = ty\<rparr>"

definition FieldType_new_box :: "rust_type \<Rightarrow> field_type" where
  "FieldType_new_box ty = \<lparr>ft_needs_box = True, ft_is_vec = False, ft_ty = ty\<rparr>"

definition FieldType_new_vec :: "rust_type \<Rightarrow> field_type" where
  "FieldType_new_vec ty = \<lparr>ft_needs_box = False, ft_is_vec = True, ft_ty = ty\<rparr>"

definition FieldType_to_tokens :: "field_type \<Rightarrow> rust_type" where
  "FieldType_to_tokens f =
     (if ft_needs_box f then RtBox (ft_ty f) else if ft_is_vec f then RtVec (ft_ty f) else ft_ty f)"

record field_definition =
  fd_name :: string
  fd_name_ident :: string
  fd_ty :: field_type
  fd_optional :: bool
  fd_deprecated :: bool
  fd_is_enum :: bool
  fd_serde_skip :: bool

text \<open>An enum with, for each variant, its identifier and the texts it is read from, the one it is written
  as first; the enums of a struct's own parameters with their deprecation.\<close>

record gen_enum =
  en_name :: string
  en_variants :: "(string \<times> string list) list"

datatype gen_item =
    ItemStruct string "field_definition list" "(bool \<times> gen_enum) list"
  | ItemWrapper string field_type
  | ItemUnit string
  | ItemEnumDef gen_enum

text \<open>What is generated for a type, command or event: its items, the name it goes by on the wire, whether it
  is a method, and the struct of a command's response.\<close>

record gen_type =
  gt_items :: "gen_item list"
  gt_identifier :: "string option"
  gt_method :: bool
  gt_response :: "string option"
  gt_deprecated :: bool

record generator =
  gn_with_experimental :: bool
  gn_with_deprecated :: bool
  gn_protocol_mods :: "string list"
  gn_domains :: "(string, nat) hash_map"
  gn_type_size :: "(string, u64) hash_map"
  gn_ref_sizes :: "(string \<times> string) list"
  gn_enums :: "string set"

definition Generator_default :: generator where
  "Generator_default =
     \<lparr>gn_with_experimental = True, gn_with_deprecated = False, gn_protocol_mods = [], gn_domains = [],
      gn_type_size = [], gn_ref_sizes = [], gn_enums = {}\<rparr>"

definition included :: "generator \<Rightarrow> bool \<Rightarrow> bool \<Rightarrow> bool" where
  "included g experimental deprecated =
     ((gn_with_deprecated g \<or> \<not> deprecated) \<and> (gn_with_experimental g \<or> \<not> experimental))"

section \<open>Fields\<close>

definition projected_type :: "gen_env \<Rightarrow> generator \<Rightarrow> domain \<Rightarrow> string \<Rightarrow> gen_panic + rust_type" where
  "projected_type env g domain name =
     (let path = before_dot name; ident = ge_camel env (after_dot name) in
      if path = [] then Inr (RtIdent ident)
      else (case hm_get (gn_domains g) (do_name domain) of
          None \<Rightarrow> Inl UnwrapNone
        | Some current \<Rightarrow> (case hm_get (gn_domains g) path of
              None \<Rightarrow> Inl (NoReferencedDomain path)
            | Some ref_idx \<Rightarrow>
                if current = ref_idx then Inr (RtSuper (ge_snake env path) ident)
                else if ref_idx < length (gn_protocol_mods g)
                then Inr (RtOuter (gn_protocol_mods g ! ref_idx) (ge_snake env path) ident)
                else Inl OutOfBounds)))"

text \<open>The type of a field, and its size or the type whose size it has.\<close>

fun generate_field_type :: "gen_env \<Rightarrow> generator \<Rightarrow> domain \<Rightarrow> string \<Rightarrow> string \<Rightarrow> pdl_type \<Rightarrow>
    gen_panic + field_type \<times> (u64 + string)" where
  "generate_field_type env g domain parent param_name TyInteger = Inr (FieldType_new RtI64, Inl 8)"
| "generate_field_type env g domain parent param_name TyNumber = Inr (FieldType_new RtF64, Inl 8)"
| "generate_field_type env g domain parent param_name TyBoolean = Inr (FieldType_new RtBool, Inl 1)"
| "generate_field_type env g domain parent param_name TyString = Inr (FieldType_new RtString, Inl 24)"
| "generate_field_type env g domain parent param_name TyObject = Inr (FieldType_new RtValue, Inl (ge_value_size env))"
| "generate_field_type env g domain parent param_name TyAny = Inr (FieldType_new RtValue, Inl (ge_value_size env))"
| "generate_field_type env g domain parent param_name TyBinary = Inr (FieldType_new RtBinary, Inl 24)"
| "generate_field_type env g domain parent param_name (TyEnum vars) =
     Inr (FieldType_new (RtIdent (subenum_name env parent param_name)), Inl 16)"
| "generate_field_type env g domain parent param_name (TyArrayOf ty) =
     bind_result
       (case ty of
          TyRef name \<Rightarrow> projected_type env g domain name
        | _ \<Rightarrow> bind_result (generate_field_type env g domain parent param_name ty) (\<lambda>(t, _). Inr (FieldType_to_tokens t)))
       (\<lambda>t. Inr (FieldType_new_vec t, Inl 24))"
| "generate_field_type env g domain parent param_name (TyRef name) =
     (if name = parent then Inr (FieldType_new_box (RtIdent (ge_camel env name)), Inl 8)
      else bind_result (projected_type env g domain name)
        (\<lambda>t. Inr (FieldType_new t, Inr (ge_camel env (after_dot name)))))"

definition add_size :: "string \<Rightarrow> u64 \<Rightarrow> (string, u64) hash_map \<Rightarrow> (string, u64) hash_map" where
  "add_size ty n sizes = hm_insert ty ((case hm_get sizes ty of None \<Rightarrow> 0 | Some s \<Rightarrow> s) + n) sizes"

definition store_size :: "string \<Rightarrow> u64 + string \<Rightarrow> generator \<Rightarrow> generator" where
  "store_size ty sz g =
     (case sz of
        Inl n \<Rightarrow> g\<lparr>gn_type_size := add_size ty n (gn_type_size g)\<rparr>
      | Inr name \<Rightarrow> g\<lparr>gn_ref_sizes := gn_ref_sizes g @ [(ty, name)]\<rparr>)"

section \<open>Enums and structs\<close>

definition enum_strings :: "gen_env \<Rightarrow> string \<Rightarrow> string list" where
  "enum_strings env name =
     (let lc = ascii_lower name; cc = generate_enum_field_name env name in
      [name] @ (if cc \<noteq> lc \<and> name \<noteq> cc then [cc] else []) @ (if name \<noteq> lc then [lc] else []))"

definition generate_enum :: "gen_env \<Rightarrow> string \<Rightarrow> variant list \<Rightarrow> generator \<Rightarrow> gen_enum \<times> generator" where
  "generate_enum env ident variants g =
     (let name = ge_camel env (after_dot ident) in
      (\<lparr>en_name = name, en_variants = map (\<lambda>v. (generate_enum_field_name env (va_name v), enum_strings env (va_name v))) variants\<rparr>,
       g\<lparr>gn_type_size := hm_insert name 16 (gn_type_size g)\<rparr>))"

text \<open>The functions generated with an enum, \<open>as_ref\<close> and \<open>from_str\<close>: a \<open>match\<close> takes its first arm that fits.\<close>

definition enum_as_ref :: "gen_enum \<Rightarrow> string \<Rightarrow> string option" where
  "enum_as_ref e variant = map_option hd (map_of (en_variants e) variant)"

definition enum_from_str :: "gen_enum \<Rightarrow> string \<Rightarrow> string + string" where
  "enum_from_str e s =
     (case find (\<lambda>(_, strs). s \<in> set strs) (en_variants e) of
        None \<Rightarrow> Inl s
      | Some (variant, _) \<Rightarrow> Inr variant)"

fun struct_fields :: "gen_env \<Rightarrow> domain \<Rightarrow> string \<Rightarrow> string \<Rightarrow> param list \<Rightarrow> generator \<Rightarrow>
    gen_panic + field_definition list \<times> (bool \<times> gen_enum) list \<times> generator" where
  "struct_fields env domain parent struct_ident [] g = Inr ([], [], g)"
| "struct_fields env domain parent struct_ident (p # ps) g =
     (let (enums, g) = (case pa_type p of
          TyEnum vars \<Rightarrow> let (e, g) = generate_enum env (subenum_name env parent (pa_name p)) vars g in ([(pa_deprecated p, e)], g)
        | _ \<Rightarrow> ([], g))
      in bind_result (generate_field_type env g domain parent (pa_name p) (pa_type p)) (\<lambda>(ty, sz).
         let g = store_size struct_ident sz g;
             is_enum = (case pa_type p of
                 TyRef name \<Rightarrow> name \<in> gn_enums g \<or> do_name domain @ ''.'' @ name \<in> gn_enums g
               | t \<Rightarrow> Type_is_enum t);
             field = \<lparr>fd_name = pa_name p, fd_name_ident = generate_field_name env (pa_name p), fd_ty = ty,
               fd_optional = pa_optional p, fd_deprecated = pa_deprecated p, fd_is_enum = is_enum, fd_serde_skip = False\<rparr>
         in bind_result (struct_fields env domain parent struct_ident ps g) (\<lambda>(fds, enums', g).
            Inr (field # fds, enums @ enums', g))))"

definition fixup_field :: field_definition where
  "fixup_field =
     \<lparr>fd_name = ''eval_as_function_fallback'', fd_name_ident = ''eval_as_function_fallback'', fd_ty = FieldType_new RtBool,
      fd_optional = True, fd_deprecated = False, fd_is_enum = False, fd_serde_skip = True\<rparr>"

definition apply_struct_fixup :: "domain_datatype \<Rightarrow> field_definition list \<Rightarrow> field_definition list" where
  "apply_struct_fixup dt fds = (if dt_raw_name dt = ''Runtime.evaluate'' then fds @ [fixup_field] else fds)"

definition generate_struct :: "gen_env \<Rightarrow> domain \<Rightarrow> domain_datatype \<Rightarrow> string \<Rightarrow> param list \<Rightarrow> generator \<Rightarrow>
    gen_panic + gen_item \<times> generator" where
  "generate_struct env domain dt struct_ident params g =
     bind_result (struct_fields env domain (dt_name dt) struct_ident params g) (\<lambda>(fds, enums, g).
       let fds = apply_struct_fixup dt fds in
       if fds \<noteq> [] then Inr (ItemStruct struct_ident fds enums, g)
       else (case dt of
           DtType t \<Rightarrow> bind_result (generate_field_type env g domain (dt_name dt) (dt_name dt) (td_extends t)) (\<lambda>(ty, sz).
             Inr (ItemWrapper struct_ident ty, store_size struct_ident sz g))
         | _ \<Rightarrow> Inr (ItemUnit struct_ident, g\<lparr>gn_type_size := hm_insert struct_ident 0 (gn_type_size g)\<rparr>)))"

section \<open>Types, domains, protocols\<close>

definition included_params :: "generator \<Rightarrow> param list \<Rightarrow> param list" where
  "included_params g ps = filter (\<lambda>p. included g (pa_experimental p) (pa_deprecated p)) ps"

definition generate_type :: "gen_env \<Rightarrow> domain \<Rightarrow> domain_datatype \<Rightarrow> generator \<Rightarrow> gen_panic + gen_type \<times> generator" where
  "generate_type env domain dt g =
     (case dt_as_enum dt of
        Some vars \<Rightarrow>
          let (e, g) = generate_enum env (dt_name dt) vars g
          in Inr (\<lparr>gt_items = [ItemEnumDef e], gt_identifier = None, gt_method = False, gt_response = None,
               gt_deprecated = dt_deprecated dt\<rparr>, g)
      | None \<Rightarrow>
          bind_result (generate_struct env domain dt (dt_ident_name env dt) (included_params g (dt_params dt)) g) (\<lambda>(item, g).
            case dt of
              DtCommand c \<Rightarrow>
                let response = ge_camel env (pc_name c) @ ''Returns''
                in bind_result (generate_struct env domain dt response (included_params g (pc_returns c)) g) (\<lambda>(returns, g).
                  Inr (\<lparr>gt_items = [item, returns], gt_identifier = Some (dt_raw_name dt), gt_method = True,
                    gt_response = Some response, gt_deprecated = dt_deprecated dt\<rparr>, g))
            | _ \<Rightarrow> Inr (\<lparr>gt_items = [item], gt_identifier = Some (dt_raw_name dt), gt_method = \<not> dt_is_type dt,
                gt_response = None, gt_deprecated = dt_deprecated dt\<rparr>, g)))"

text \<open>The generator threads its state through lists; a panic ends it.\<close>

fun generate_each :: "('a \<Rightarrow> generator \<Rightarrow> gen_panic + 'b \<times> generator) \<Rightarrow> 'a list \<Rightarrow> generator \<Rightarrow> gen_panic + 'b list \<times> generator" where
  "generate_each f [] g = Inr ([], g)"
| "generate_each f (x # xs) g =
     bind_result (f x g) (\<lambda>(y, g). bind_result (generate_each f xs g) (\<lambda>(ys, g). Inr (y # ys, g)))"

definition generate_domain :: "gen_env \<Rightarrow> domain \<Rightarrow> generator \<Rightarrow> gen_panic + gen_type list \<times> generator" where
  "generate_domain env domain g =
     generate_each (generate_type env domain)
       (filter (\<lambda>dt. included g (dt_experimental dt) (dt_deprecated dt)) (domain_datatypes domain)) g"

text \<open>A module of a domain: its name, whether it is deprecated, and its types.\<close>

type_synonym gen_module = "string \<times> bool \<times> gen_type list"

definition included_domains :: "generator \<Rightarrow> domain list \<Rightarrow> domain list" where
  "included_domains g ds = filter (\<lambda>d. included g (do_experimental d) (do_deprecated d)) ds"

definition generate_types :: "gen_env \<Rightarrow> domain list \<Rightarrow> generator \<Rightarrow> gen_panic + gen_module list \<times> generator" where
  "generate_types env domains g =
     generate_each (\<lambda>d g. bind_result (generate_domain env d g) (\<lambda>(types, g). Inr ((ge_snake env (do_name d), do_deprecated d, types), g)))
       (included_domains g domains) g"

section \<open>The sizes of referenced types\<close>

text \<open>The queue of types that have the size of another one is gone through until it is empty or every
  entry of it has been tried in vain in a row.\<close>

function fix_sizes :: "(string \<times> string) list \<Rightarrow> nat \<Rightarrow> (string, u64) hash_map \<Rightarrow> gen_panic + (string, u64) hash_map" where
  "fix_sizes [] retries sizes = Inr sizes"
| "fix_sizes ((name, reff) # refs) retries sizes =
     (case hm_get sizes reff of
        Some n \<Rightarrow> fix_sizes refs 0 (add_size name n sizes)
      | None \<Rightarrow>
          if length refs < Suc retries then Inl (NoTypeForRef reff)
          else fix_sizes (refs @ [(name, reff)]) (Suc retries) sizes)"
  by pat_completeness auto

termination
  by (relation "measures [\<lambda>(q, r, s). length q, \<lambda>(q, r, s). length q - r]") auto

declare fix_sizes.simps [simp del]

section \<open>The events\<close>

record event_type =
  et_protocol_mod :: string
  et_domain :: string
  et_name :: string
  et_raw_name :: string
  et_deprecated :: bool
  et_needs_box :: bool

definition included_events :: "generator \<Rightarrow> domain \<Rightarrow> pdl_event list" where
  "included_events g d = filter (\<lambda>e. included g (pe_experimental e) (pe_deprecated e)) (do_events d)"

definition event_type_of :: "gen_env \<Rightarrow> generator \<Rightarrow> domain \<Rightarrow> pdl_event \<Rightarrow> gen_panic + event_type" where
  "event_type_of env g d e =
     (case hm_get (gn_domains g) (do_name d) of
        None \<Rightarrow> Inl (NoMatchingDomain (do_name d))
      | Some idx \<Rightarrow>
          if length (gn_protocol_mods g) \<le> idx then Inl OutOfBounds
          else (case hm_get (gn_type_size g) (event_ident env (pe_name e)) of
              None \<Rightarrow> Inl (NoTypeForEvent (event_ident env (pe_name e)))
            | Some sz \<Rightarrow> Inr \<lparr>et_protocol_mod = gn_protocol_mods g ! idx, et_domain = do_name d, et_name = pe_name e,
                et_raw_name = pe_raw_name e, et_deprecated = pe_deprecated e, et_needs_box = 200 < sz\<rparr>))"

fun collect_results :: "('a \<Rightarrow> 'e + 'b) \<Rightarrow> 'a list \<Rightarrow> 'e + 'b list" where
  "collect_results f [] = Inr []"
| "collect_results f (x # xs) = bind_result (f x) (\<lambda>y. bind_result (collect_results f xs) (\<lambda>ys. Inr (y # ys)))"

definition all_events :: "generator \<Rightarrow> protocol list \<Rightarrow> (domain \<times> pdl_event) list" where
  "all_events g pdls =
     concat (map (\<lambda>d. map (Pair d) (included_events g d)) (concat (map (\<lambda>p. included_domains g (pr_domains p)) pdls)))"

definition generate_event_enums :: "gen_env \<Rightarrow> generator \<Rightarrow> protocol list \<Rightarrow> gen_panic + event_type list" where
  "generate_event_enums env g pdls = collect_results (\<lambda>(d, e). event_type_of env g d e) (all_events g pdls)"

definition var_ident :: "gen_env \<Rightarrow> event_type \<Rightarrow> string" where
  "var_ident env e = ge_camel env (et_domain e) @ ge_camel env (et_name e)"

section \<open>Compiling descriptions\<close>

datatype gen_error = GenParse pdl_error | GenPanic gen_panic

definition register_protocol :: "nat \<Rightarrow> protocol \<Rightarrow> generator \<Rightarrow> generator" where
  "register_protocol idx pdl g =
     g\<lparr>gn_domains := foldl (\<lambda>m d. hm_insert (do_name d) idx m) (gn_domains g) (pr_domains pdl),
       gn_enums := gn_enums g \<union> set (map td_raw_name (filter TypeDef_is_enum (concat (map do_types (pr_domains pdl)))))\<rparr>"

fun read_protocols :: "nat \<Rightarrow> string list \<Rightarrow> generator \<Rightarrow> pdl_error + protocol list \<times> generator" where
  "read_protocols idx [] g = Inr ([], g)"
| "read_protocols idx (input # inputs) g =
     bind_result (parse_pdl input) (\<lambda>pdl.
     bind_result (read_protocols (Suc idx) inputs (register_protocol idx pdl g)) (\<lambda>(pdls, g). Inr (pdl # pdls, g)))"

definition version_text :: "version \<Rightarrow> string" where
  "version_text v = digits (unat (ve_major v)) @ ''.'' @ digits (unat (ve_minor v))"

text \<open>A protocol's module: its name, version and domains.\<close>

type_synonym gen_protocol = "string \<times> string \<times> gen_module list"

definition generate_protocol :: "gen_env \<Rightarrow> nat \<times> protocol \<Rightarrow> generator \<Rightarrow> gen_panic + gen_protocol \<times> generator" where
  "generate_protocol env = (\<lambda>(idx, pdl) g.
     bind_result (generate_types env (pr_domains pdl) g) (\<lambda>(modules, g).
       if idx < length (gn_protocol_mods g)
       then Inr ((gn_protocol_mods g ! idx, version_text (pr_version pdl), modules), g) else Inl OutOfBounds))"

record generated =
  gd_protocols :: "gen_protocol list"
  gd_events :: "event_type list"

definition map_error :: "('e \<Rightarrow> 'f) \<Rightarrow> 'e + 'a \<Rightarrow> 'f + 'a" where
  "map_error f r = (case r of Inl e \<Rightarrow> Inl (f e) | Inr x \<Rightarrow> Inr x)"

text \<open>\<open>compile_pdls\<close> once the files have been read: for each its stem and its text.\<close>

definition generate_all :: "gen_env \<Rightarrow> protocol list \<Rightarrow> generator \<Rightarrow> gen_panic + generated \<times> generator" where
  "generate_all env pdls g =
     bind_result (generate_each (generate_protocol env) (enumerate 0 pdls) g) (\<lambda>(protocols, g).
     bind_result (fix_sizes (gn_ref_sizes g) 0 (gn_type_size g)) (\<lambda>sizes.
       let g = g\<lparr>gn_type_size := sizes, gn_ref_sizes := []\<rparr> in
       bind_result (generate_event_enums env g pdls) (\<lambda>events.
         Inr (\<lparr>gd_protocols = protocols, gd_events = events\<rparr>, g))))"

definition compile_pdls :: "gen_env \<Rightarrow> (string \<times> string) list \<Rightarrow> generator \<Rightarrow> gen_error + generated \<times> generator" where
  "compile_pdls env files g =
     bind_result (map_error GenParse
         (read_protocols 0 (map snd files) (g\<lparr>gn_protocol_mods := gn_protocol_mods g @ map fst files\<rparr>)))
       (\<lambda>(pdls, g). map_error GenPanic (generate_all env pdls g))"

end
