(* ===== verification/Generator_Props.thy ===== *)
theory Generator_Props
  imports Generator
begin

text \<open>
  What the generator achieves: the sizes of referenced types are found whenever they can be, no event
  is ever left without a size, the events of a description are generated completely and in order,
  and the texts of a generated enum read back.
\<close>

section \<open>The sizes of referenced types\<close>

text \<open>The types whose size can be known: those in \<open>K\<close>, and those that have the size of one that can be known.\<close>

inductive sized :: "string set \<Rightarrow> (string \<times> string) set \<Rightarrow> string \<Rightarrow> bool" for K Q where
  known: "n \<in> K \<Longrightarrow> sized K Q n"
| referring: "(n, x) \<in> Q \<Longrightarrow> sized K Q x \<Longrightarrow> sized K Q n"

lemma sized_resolve:
  assumes "x \<in> K"
  shows "sized K (insert (n, x) Q) y \<longleftrightarrow> sized (insert n K) Q y"
proof
  show "sized (insert n K) Q y" if "sized K (insert (n, x) Q) y"
    using that by induction (auto intro: sized.intros)
  have n: "sized K (insert (n, x) Q) n" using assms by (auto intro: sized.intros)
  show "sized K (insert (n, x) Q) y" if "sized (insert n K) Q y"
    using that by induction (use n in \<open>auto intro: sized.intros\<close>)
qed

lemma sized_stuck:
  assumes "sized K Q y" "\<And>n x. (n, x) \<in> Q \<Longrightarrow> x \<notin> K"
  shows "y \<in> K"
  using assms by (induction rule: sized.induct) auto

definition sizes_known :: "(string, u64) hash_map \<Rightarrow> string set" where
  "sizes_known sizes = set (hm_keys sizes)"

lemma sizes_known_iff: "n \<in> sizes_known sizes \<longleftrightarrow> hm_get sizes n \<noteq> None"
  by (simp add: sizes_known_def hm.set_keys)

lemma sizes_known_add: "sizes_known (add_size n k sizes) = insert n (sizes_known sizes)"
  by (auto simp: sizes_known_def add_size_def hm.keys_insert)

definition size_outcome :: "(string \<times> string) list \<Rightarrow> (string, u64) hash_map \<Rightarrow> gen_panic + (string, u64) hash_map \<Rightarrow> bool" where
  "size_outcome refs sizes r =
     (case r of
        Inr sizes' \<Rightarrow> list_all (\<lambda>(_, x). sized (sizes_known sizes) (set refs) x) refs \<and>
          sizes_known sizes' = sizes_known sizes \<union> fst ` set refs
      | Inl e \<Rightarrow> \<exists>x. e = NoTypeForRef x \<and> x \<in> snd ` set refs \<and> \<not> sized (sizes_known sizes) (set refs) x)"

lemma size_outcome_resolve:
  assumes "x \<in> sizes_known sizes" "size_outcome refs (add_size n k sizes) r"
  shows "size_outcome ((n, x) # refs) sizes r"
  using assms sized.known [OF assms(1)] sized.known [of x "insert n (sizes_known sizes)" "set refs"]
  by (auto simp: size_outcome_def sizes_known_add sized_resolve [OF assms(1)] split: sum.splits)

lemma fix_sizes_outcome:
  "retries \<le> length refs \<Longrightarrow> list_all (\<lambda>(_, x). x \<notin> sizes_known sizes) (drop (length refs - retries) refs) \<Longrightarrow>
   size_outcome refs sizes (fix_sizes refs retries sizes)"
proof (induction refs retries sizes rule: fix_sizes.induct)
  case (1 retries sizes)
  then show ?case by (simp add: fix_sizes.simps size_outcome_def)
next
  case (2 name reff refs retries sizes)
  show ?case
  proof (cases "hm_get sizes reff")
    case (Some n)
    have "size_outcome refs (add_size name n sizes) (fix_sizes refs 0 (add_size name n sizes))"
      by (rule 2(2) [OF Some]) simp_all
    then show ?thesis using Some by (auto simp: fix_sizes.simps sizes_known_iff intro!: size_outcome_resolve)
  next
    case None
    then have unknown: "reff \<notin> sizes_known sizes" by (simp add: sizes_known_iff)
    show ?thesis
    proof (cases "length refs < Suc retries")
      case True
      then have "drop (length ((name, reff) # refs) - retries) ((name, reff) # refs) \<in> {refs, (name, reff) # refs}"
        using 2(3) by (cases "retries = length refs") (auto simp: le_Suc_eq)
      then have "list_all (\<lambda>(_, x). x \<notin> sizes_known sizes) refs" using 2(4) by auto
      then have "\<not> sized (sizes_known sizes) (set ((name, reff) # refs)) reff"
        using sized_stuck [of "sizes_known sizes" "set ((name, reff) # refs)" reff] unknown by (auto simp: list_all_iff)
      then show ?thesis using True None by (simp add: fix_sizes.simps size_outcome_def)
    next
      case False
      then have rotated: "drop (length (refs @ [(name, reff)]) - Suc retries) (refs @ [(name, reff)]) =
          drop (length ((name, reff) # refs) - retries) ((name, reff) # refs) @ [(name, reff)]"
        by (simp add: Suc_diff_le not_less)
      have "size_outcome (refs @ [(name, reff)]) sizes (fix_sizes (refs @ [(name, reff)]) (Suc retries) sizes)"
      proof (rule 2(1) [OF None False])
        show "Suc retries \<le> length (refs @ [(name, reff)])" using False by simp
        show "list_all (\<lambda>(_, x). x \<notin> sizes_known sizes)
            (drop (length (refs @ [(name, reff)]) - Suc retries) (refs @ [(name, reff)]))"
          unfolding rotated using 2(4) unknown by simp
      qed
      moreover have "set (refs @ [(name, reff)]) = set ((name, reff) # refs)" by simp
      ultimately have "size_outcome ((name, reff) # refs) sizes (fix_sizes (refs @ [(name, reff)]) (Suc retries) sizes)"
        unfolding size_outcome_def list_all_iff by metis
      then show ?thesis using None False by (simp add: fix_sizes.simps)
    qed
  qed
qed

text \<open>C36 (Sizes are found when they can be). The loop that gives each type the size of the types it refers to
  ends on every queue. It succeeds exactly when the size of every referenced type follows from the
  sizes known at the start, in whatever order the queue is; then every type that refers to another
  has a size. Otherwise it stops at a reference whose size does not follow.\<close>

theorem sizes_found:
  "case fix_sizes refs 0 sizes of
     Inr sizes' \<Rightarrow> list_all (\<lambda>(_, x). sized (set (hm_keys sizes)) (set refs) x) refs \<and>
       set (hm_keys sizes') = set (hm_keys sizes) \<union> fst ` set refs
   | Inl e \<Rightarrow> \<exists>x. e = NoTypeForRef x \<and> x \<in> snd ` set refs \<and> \<not> sized (set (hm_keys sizes)) (set refs) x"
  using fix_sizes_outcome [of 0 refs sizes, unfolded size_outcome_def sizes_known_def] by simp

text \<open>The sizes themselves do depend on the order: a type is given the size of another before that one's own
  references are added, here 8 instead of 308.\<close>

lemma sizes_depend_on_order:
  "map_option (\<lambda>s. hm_get s ''Event'') (case fix_sizes [(''Event'', ''Node''), (''Node'', ''Big'')] 0 [(''Node'', 8), (''Big'', 300)] of Inr s \<Rightarrow> Some s | _ \<Rightarrow> None) = Some (Some 8)"
  "map_option (\<lambda>s. hm_get s ''Event'') (case fix_sizes [(''Node'', ''Big''), (''Event'', ''Node'')] 0 [(''Node'', 8), (''Big'', 300)] of Inr s \<Rightarrow> Some s | _ \<Rightarrow> None) = Some (Some 308)"
  by (simp_all add: fix_sizes.simps add_size_def hm_defs)

section \<open>What the generator keeps\<close>

text \<open>A type is accounted for when its size is stored or waits for that of another. Generating keeps the tables of
  names and loses no type that is accounted for.\<close>

definition accounted :: "generator \<Rightarrow> string \<Rightarrow> bool" where
  "accounted g n = (n \<in> sizes_known (gn_type_size g) \<or> n \<in> fst ` set (gn_ref_sizes g))"

definition grows :: "generator \<Rightarrow> generator \<Rightarrow> bool" where
  "grows g g' =
     ((\<forall>n. accounted g n \<longrightarrow> accounted g' n) \<and> gn_with_experimental g' = gn_with_experimental g \<and>
      gn_with_deprecated g' = gn_with_deprecated g \<and> gn_protocol_mods g' = gn_protocol_mods g \<and> gn_domains g' = gn_domains g)"

named_theorems grows_intros \<open>an operation of the generator only grows its state\<close>

lemma grows_refl [grows_intros]: "grows g g"
  by (simp add: grows_def)

lemma grows_trans: "grows g g' \<Longrightarrow> grows g' g'' \<Longrightarrow> grows g g''"
  by (auto simp: grows_def)

lemma grows_accounted: "grows g g' \<Longrightarrow> accounted g n \<Longrightarrow> accounted g' n"
  by (simp add: grows_def)

lemma grows_included: "grows g g' \<Longrightarrow> included g' = included g"
  by (simp add: grows_def included_def fun_eq_iff)

lemma store_size_grows [grows_intros]: "grows g (store_size ty sz g)"
  by (auto simp: grows_def accounted_def store_size_def sizes_known_add split: sum.splits)

lemma store_size_accounts: "accounted (store_size ty sz g) ty"
  by (cases sz) (auto simp: accounted_def store_size_def sizes_known_add image_iff)

lemma insert_size_grows [grows_intros]: "grows g (g\<lparr>gn_type_size := hm_insert n k (gn_type_size g)\<rparr>)"
  by (auto simp: grows_def accounted_def sizes_known_def hm.keys_insert)

lemma generate_enum_grows: "generate_enum env ident vars g = (e, g') \<Longrightarrow> grows g g'"
  by (auto simp: generate_enum_def Let_def intro: grows_intros)

lemma struct_fields_grows:
  "struct_fields env domain parent ident ps g = Inr (fds, enums, g') \<Longrightarrow> grows g g' \<and> (ps \<noteq> [] \<longrightarrow> fds \<noteq> [] \<and> accounted g' ident)"
proof (induction ps arbitrary: g fds enums g')
  case (Cons p ps)
  obtain es g1 where first: "(case pa_type p of
      TyEnum vars \<Rightarrow> let (e, g) = generate_enum env (subenum_name env parent (pa_name p)) vars g in ([(pa_deprecated p, e)], g)
    | _ \<Rightarrow> ([], g)) = (es, g1)" by fastforce
  then have "grows g g1"
    by (auto split: pdl_type.splits prod.splits intro: grows_refl dest: generate_enum_grows)
  moreover obtain ty sz fds' enums' where
    "generate_field_type env g1 domain parent (pa_name p) (pa_type p) = Inr (ty, sz)"
    "struct_fields env domain parent ident ps (store_size ident sz g1) = Inr (fds', enums', g')" "fds \<noteq> []"
    using Cons.prems unfolding struct_fields.simps first by (auto simp: bind_result_Inr Let_def split: prod.splits)
  ultimately show ?case
    using Cons.IH store_size_grows [of g1 ident sz] store_size_accounts [of ident sz g1] by (meson grows_accounted grows_trans)
qed (simp add: grows_refl)

lemma generate_struct_grows:
  assumes "generate_struct env domain dt ident ps g = Inr (item, g')"
  shows "grows g g' \<and> (dt_raw_name dt \<noteq> ''Runtime.evaluate'' \<longrightarrow> accounted g' ident)"
proof -
  obtain fds enums g1 where fields: "struct_fields env domain (dt_name dt) ident ps g = Inr (fds, enums, g1)"
    and rest: "(let fds = apply_struct_fixup dt fds in
       if fds \<noteq> [] then Inr (ItemStruct ident fds enums, g1)
       else (case dt of
           DtType t \<Rightarrow> bind_result (generate_field_type env g1 domain (dt_name dt) (dt_name dt) (td_extends t)) (\<lambda>(ty, sz).
             Inr (ItemWrapper ident ty, store_size ident sz g1))
         | _ \<Rightarrow> Inr (ItemUnit ident, g1\<lparr>gn_type_size := hm_insert ident 0 (gn_type_size g1)\<rparr>))) = Inr (item, g')"
    using assms by (auto simp: generate_struct_def bind_result_Inr)
  note step = struct_fields_grows [OF fields]
  have unit: "accounted (g1\<lparr>gn_type_size := hm_insert ident 0 (gn_type_size g1)\<rparr>) ident"
    by (simp add: accounted_def sizes_known_def hm.keys_insert)
  have empty: "ps = [] \<or> accounted g1 ident" using step by blast
  have "fds = []" if "ps = []" using fields that by simp
  then show ?thesis
    using rest step unit empty store_size_accounts [of ident _ g1] grows_trans [OF conjunct1 [OF step]]
    by (auto simp: Let_def apply_struct_fixup_def bind_result_Inr split: if_splits domain_datatype.splits
        intro: grows_intros)
qed

lemma generate_type_grows:
  assumes "generate_type env domain dt g = Inr (ty, g')"
  shows "grows g g' \<and> (\<forall>e. dt = DtEvent e \<longrightarrow> pe_raw_name e \<noteq> ''Runtime.evaluate'' \<longrightarrow> accounted g' (event_ident env (pe_name e)))"
proof (cases "dt_as_enum dt")
  case (Some vars)
  then show ?thesis using assms
    by (cases dt) (auto simp: generate_type_def split: prod.splits dest: generate_enum_grows)
next
  case None
  obtain item g1 where struct: "generate_struct env domain dt (dt_ident_name env dt) (included_params g (dt_params dt)) g = Inr (item, g1)"
    using assms None by (auto simp: generate_type_def bind_result_Inr)
  note step = generate_struct_grows [OF struct]
  show ?thesis
  proof (cases dt)
    case (DtCommand c)
    obtain returns where
      "generate_struct env domain dt (ge_camel env (pc_name c) @ ''Returns'') (included_params g1 (pc_returns c)) g1 = Inr (returns, g')"
      using assms None DtCommand struct by (auto simp: generate_type_def bind_result_Inr Let_def)
    from generate_struct_grows [OF this] show ?thesis using step DtCommand grows_trans by blast
  qed (use assms None struct step in \<open>auto simp: generate_type_def\<close>)
qed

lemma generate_each_keeps:
  assumes "\<And>x g y g'. f x g = Inr (y, g') \<Longrightarrow> grows g g' \<and> P x g'" "\<And>x g g'. P x g \<Longrightarrow> grows g g' \<Longrightarrow> P x g'"
  shows "generate_each f xs g = Inr (ys, g') \<Longrightarrow> grows g g' \<and> list_all (\<lambda>x. P x g') xs"
proof (induction xs arbitrary: g ys)
  case (Cons x xs)
  then obtain y g1 ys' where "f x g = Inr (y, g1)" "generate_each f xs g1 = Inr (ys', g')"
    by (auto simp: bind_result_Inr)
  then show ?case using assms(1) [of x g y g1] assms(2) [of x g1 g'] Cons.IH [of g1 ys'] grows_trans by auto
qed (simp add: grows_refl)

lemma generate_each_panics:
  assumes "\<And>x g y g'. f x g = Inr (y, g') \<Longrightarrow> grows g g'" "\<And>x g p. x \<in> set xs \<Longrightarrow> ok g \<Longrightarrow> f x g = Inl p \<Longrightarrow> R p"
    and "\<And>g g'. ok g \<Longrightarrow> grows g g' \<Longrightarrow> ok g'"
  shows "ok g \<Longrightarrow> generate_each f xs g = Inl p \<Longrightarrow> R p"
  using assms(2)
proof (induction xs arbitrary: g)
  case (Cons x xs)
  from Cons.prems(2) consider "f x g = Inl p" | y g1 where "f x g = Inr (y, g1)" "generate_each f xs g1 = Inl p"
    by (auto simp: bind_result_Inl)
  then show ?case
  proof cases
    case 1
    then show ?thesis using Cons.prems(1) Cons.prems(3) [of x g p] by simp
  next
    case 2
    have "ok g1" using assms(3) [OF Cons.prems(1) assms(1) [OF 2(1)]] .
    from Cons.IH [OF this 2(2)] Cons.prems(3) show ?thesis by (meson list.set_intros(2))
  qed
qed simp

text \<open>Every event that is generated is accounted for, whichever protocol and domain it is in.\<close>

definition event_accounted :: "gen_env \<Rightarrow> pdl_event \<Rightarrow> generator \<Rightarrow> bool" where
  "event_accounted env e g = (pe_raw_name e \<noteq> ''Runtime.evaluate'' \<longrightarrow> accounted g (event_ident env (pe_name e)))"

definition events_accounted :: "gen_env \<Rightarrow> domain \<Rightarrow> generator \<Rightarrow> bool" where
  "events_accounted env d g = list_all (\<lambda>e. event_accounted env e g) (included_events g d)"

lemma events_accounted_grows: "events_accounted env d g \<Longrightarrow> grows g g' \<Longrightarrow> events_accounted env d g'"
  by (auto simp: events_accounted_def event_accounted_def included_events_def list_all_iff grows_included dest: grows_accounted)

lemma generate_domain_grows:
  assumes "generate_domain env d g = Inr (types, g')"
  shows "grows g g' \<and> events_accounted env d g'"
proof -
  have "grows g g' \<and> list_all (\<lambda>dt. \<forall>e. dt = DtEvent e \<longrightarrow> event_accounted env e g')
      (filter (\<lambda>dt. included g (dt_experimental dt) (dt_deprecated dt)) (domain_datatypes d))"
  proof (rule generate_each_keeps [OF _ _ assms [unfolded generate_domain_def]])
    show "grows h h' \<and> (\<forall>e. x = DtEvent e \<longrightarrow> event_accounted env e h')" if "generate_type env d x h = Inr (y, h')" for x h y h'
      using generate_type_grows [OF that] by (simp add: event_accounted_def)
    show "\<forall>e. x = DtEvent e \<longrightarrow> event_accounted env e h'" if "\<forall>e. x = DtEvent e \<longrightarrow> event_accounted env e h" "grows h h'" for x h h'
      using that grows_accounted by (simp add: event_accounted_def)
  qed
  then show ?thesis
    by (auto simp: events_accounted_def included_events_def list_all_iff domain_datatypes_def grows_included)
qed

lemma generate_types_grows:
  assumes "generate_types env ds g = Inr (modules, g')"
  shows "grows g g' \<and> list_all (\<lambda>d. events_accounted env d g') (included_domains g' ds)"
proof -
  have "grows g g' \<and> list_all (\<lambda>d. events_accounted env d g') (included_domains g ds)"
  proof (rule generate_each_keeps [OF _ _ assms [unfolded generate_types_def]])
    show "grows h h' \<and> events_accounted env x h'"
      if "bind_result (generate_domain env x h) (\<lambda>(types, g). Inr ((ge_snake env (do_name x), do_deprecated x, types), g)) = Inr (y, h')"
      for x h y h'
      using that generate_domain_grows by (auto simp: bind_result_Inr)
  qed (rule events_accounted_grows)
  moreover from this have "included g' = included g" by (blast dest: grows_included)
  ultimately show ?thesis by (simp add: included_domains_def)
qed

lemma generate_protocol_grows:
  assumes "generate_protocol env (idx, pdl) g = Inr (m, g')"
  shows "grows g g' \<and> list_all (\<lambda>d. events_accounted env d g') (included_domains g' (pr_domains pdl))"
  using assms generate_types_grows by (auto simp: generate_protocol_def bind_result_Inr split: if_splits)

lemma protocols_grow:
  assumes "generate_each (generate_protocol env) (enumerate n pdls) g = Inr (modules, g')"
  shows "grows g g' \<and> list_all (\<lambda>(d, e). event_accounted env e g') (all_events g' pdls)"
proof -
  have "grows g g' \<and> list_all (\<lambda>x. list_all (\<lambda>d. events_accounted env d g') (included_domains g' (pr_domains (snd x)))) (enumerate n pdls)"
  proof (rule generate_each_keeps [OF _ _ assms])
    show "grows h h' \<and> list_all (\<lambda>d. events_accounted env d h') (included_domains h' (pr_domains (snd x)))"
      if "generate_protocol env x h = Inr (y, h')" for x h y h'
      using that by (cases x) (simp add: generate_protocol_grows)
    show "list_all (\<lambda>d. events_accounted env d h') (included_domains h' (pr_domains (snd x)))"
      if "list_all (\<lambda>d. events_accounted env d h) (included_domains h (pr_domains (snd x)))" "grows h h'" for x :: "nat \<times> protocol" and h h'
      using that events_accounted_grows by (auto simp: list_all_iff included_domains_def grows_included)
  qed
  moreover have "list_all (\<lambda>p. P (snd p)) (enumerate n pdls) = list_all P pdls" for P
    by (induction pdls arbitrary: n) simp_all
  note this [of "\<lambda>p. list_all (\<lambda>d. events_accounted env d g') (included_domains g' (pr_domains p))"]
  ultimately show ?thesis by (auto simp: all_events_def list_all_iff events_accounted_def)
qed

section \<open>What stops the generator\<close>

text \<open>The tables of names are in order: every index is that of a protocol.\<close>

definition indexed :: "generator \<Rightarrow> bool" where
  "indexed g = (\<forall>n i. hm_get (gn_domains g) n = Some i \<longrightarrow> i < length (gn_protocol_mods g))"

definition unresolved :: "gen_panic \<Rightarrow> bool" where
  "unresolved p = (case p of NoReferencedDomain _ \<Rightarrow> True | NoTypeForRef _ \<Rightarrow> True | _ \<Rightarrow> False)"

definition placed :: "domain \<Rightarrow> generator \<Rightarrow> bool" where
  "placed d g = (indexed g \<and> hm_get (gn_domains g) (do_name d) \<noteq> None)"

lemma placed_grows: "placed d g \<Longrightarrow> grows g g' \<Longrightarrow> placed d g'"
  by (simp add: placed_def indexed_def grows_def)

lemma projected_type_panics: "placed d g \<Longrightarrow> projected_type env g d name = Inl p \<Longrightarrow> unresolved p"
  by (auto simp: projected_type_def placed_def indexed_def unresolved_def Let_def split: if_splits option.splits)

lemma field_type_panics: "placed d g \<Longrightarrow> generate_field_type env g d parent name ty = Inl p \<Longrightarrow> unresolved p"
proof (induction ty)
  case (TyArrayOf ty)
  then show ?case by (cases ty) (auto simp: bind_result_Inl dest: projected_type_panics split: if_splits)
qed (auto simp: bind_result_Inl dest: projected_type_panics split: if_splits)

lemma struct_fields_panics:
  "placed d g \<Longrightarrow> struct_fields env d parent ident ps g = Inl p \<Longrightarrow> unresolved p"
proof (induction ps arbitrary: g)
  case (Cons q ps)
  obtain es g1 where first: "(case pa_type q of
      TyEnum vars \<Rightarrow> let (e, g) = generate_enum env (subenum_name env parent (pa_name q)) vars g in ([(pa_deprecated q, e)], g)
    | _ \<Rightarrow> ([], g)) = (es, g1)" by fastforce
  then have "grows g g1"
    by (auto split: pdl_type.splits prod.splits intro: grows_refl dest: generate_enum_grows)
  then have "placed d g1" using Cons.prems(1) placed_grows by blast
  moreover have "placed d (store_size ident sz g1)" for sz
    using \<open>placed d g1\<close> placed_grows store_size_grows by blast
  moreover have "generate_field_type env g1 d parent (pa_name q) (pa_type q) = Inl p \<or>
      (\<exists>sz. struct_fields env d parent ident ps (store_size ident sz g1) = Inl p)"
    using Cons.prems(2) unfolding struct_fields.simps first by (auto simp: bind_result_Inl Let_def)
  ultimately show ?case using Cons.IH field_type_panics by meson
qed simp

lemma generate_struct_panics:
  assumes "placed d g" "generate_struct env d dt ident ps g = Inl p"
  shows "unresolved p"
proof -
  show ?thesis
  proof (cases "struct_fields env d (dt_name dt) ident ps g")
    case (Inl q)
    then show ?thesis using assms struct_fields_panics by (simp add: generate_struct_def)
  next
    case (Inr r)
    obtain fds es g1 where r: "r = (fds, es, g1)" by (metis surj_pair)
    then have "placed d g1" using Inr assms(1) placed_grows struct_fields_grows by blast
    moreover have "\<exists>name ty. generate_field_type env g1 d name name ty = Inl p"
      using assms(2) Inr r by (auto simp: generate_struct_def bind_result_Inl Let_def split: if_splits domain_datatype.splits)
    ultimately show ?thesis using field_type_panics by blast
  qed
qed

lemma generate_type_panics:
  assumes "placed d g" "generate_type env d dt g = Inl p"
  shows "unresolved p"
proof -
  have none: "dt_as_enum dt = None" using assms(2) by (auto simp: generate_type_def split: option.splits prod.splits)
  show ?thesis
  proof (cases "generate_struct env d dt (dt_ident_name env dt) (included_params g (dt_params dt)) g")
    case (Inl q)
    then show ?thesis using assms none generate_struct_panics by (simp add: generate_type_def)
  next
    case (Inr r)
    obtain item g1 where r: "r = (item, g1)" by fastforce
    then have "placed d g1" using Inr assms(1) placed_grows generate_struct_grows by blast
    moreover have "\<exists>ident ps. generate_struct env d dt ident ps g1 = Inl p"
      using assms(2) none Inr r by (cases dt) (auto simp: generate_type_def bind_result_Inl Let_def)
    ultimately show ?thesis using generate_struct_panics by blast
  qed
qed

lemma generate_domain_panics:
  assumes "placed d g" "generate_domain env d g = Inl p"
  shows "unresolved p"
  using _ _ placed_grows assms [unfolded generate_domain_def]
proof (rule generate_each_panics [where R = unresolved])
  show "grows h h'" if "generate_type env d x h = Inr (y, h')" for x h y h'
    using generate_type_grows [OF that] by simp
qed (rule generate_type_panics)

definition all_placed :: "protocol list \<Rightarrow> generator \<Rightarrow> bool" where
  "all_placed pdls g = (length pdls \<le> length (gn_protocol_mods g) \<and> list_all (\<lambda>p. list_all (\<lambda>d. placed d g) (pr_domains p)) pdls)"

lemma all_placed_grows: "all_placed pdls g \<Longrightarrow> grows g g' \<Longrightarrow> all_placed pdls g'"
proof -
  assume all: "all_placed pdls g" and grown: "grows g g'"
  then have "gn_protocol_mods g' = gn_protocol_mods g" by (simp add: grows_def)
  then show ?thesis using all placed_grows [OF _ grown] by (simp add: all_placed_def list_all_iff)
qed

lemma generate_types_panics:
  assumes "list_all (\<lambda>d. placed d g) ds" "generate_types env ds g = Inl p"
  shows "unresolved p"
proof (rule generate_each_panics [where ok = "\<lambda>g. list_all (\<lambda>d. placed d g) ds" and R = unresolved, OF _ _ _ assms(1)])
  let ?f = "\<lambda>d g. bind_result (generate_domain env d g) (\<lambda>(types, g). Inr ((ge_snake env (do_name d), do_deprecated d, types), g))"
  show "generate_each ?f (included_domains g ds) g = Inl p" using assms(2) by (simp add: generate_types_def)
  show "grows h h'" if "?f x h = Inr (y, h')" for x h y h'
    using that generate_domain_grows by (auto simp: bind_result_Inr)
  show "list_all (\<lambda>d. placed d h') ds" if "list_all (\<lambda>d. placed d h) ds" "grows h h'" for h h'
    using that(1) placed_grows [OF _ that(2)] by (simp add: list_all_iff)
  show "unresolved q" if "x \<in> set (included_domains g ds)" "list_all (\<lambda>d. placed d h) ds" "?f x h = Inl q" for x h q
    using that generate_domain_panics by (auto simp: bind_result_Inl included_domains_def list_all_iff)
qed

lemma protocols_panic:
  assumes "all_placed pdls g" "generate_each (generate_protocol env) (enumerate 0 pdls) g = Inl p"
  shows "unresolved p"
proof (rule generate_each_panics [where ok = "all_placed pdls" and R = unresolved, OF _ _ all_placed_grows assms])
  show "grows h h'" if "generate_protocol env x h = Inr (y, h')" for x h y h'
    using that generate_protocol_grows by (cases x) blast
  show "unresolved q" if x: "x \<in> set (enumerate 0 pdls)" "all_placed pdls h" "generate_protocol env x h = Inl q" for x h q
  proof -
    obtain idx pdl where pair: "x = (idx, pdl)" by fastforce
    then have "idx < length (gn_protocol_mods h)" "list_all (\<lambda>d. placed d h) (pr_domains pdl)"
      using x(1,2) by (auto simp: all_placed_def list_all_iff in_set_enumerate_eq)
    then show ?thesis using x(3) pair generate_types_panics generate_types_grows
      by (fastforce simp: generate_protocol_def bind_result_Inl grows_def split: if_splits)
  qed
qed

text \<open>The protocols that were read, registered one after the other.\<close>

fun register_all :: "nat \<Rightarrow> protocol list \<Rightarrow> generator \<Rightarrow> generator" where
  "register_all idx [] g = g"
| "register_all idx (pdl # pdls) g = register_all (Suc idx) pdls (register_protocol idx pdl g)"

lemma read_registers:
  "read_protocols idx inputs g = Inr (pdls, g') \<Longrightarrow>
   g' = register_all idx pdls g \<and> collect_results parse_pdl inputs = Inr pdls"
  by (induction inputs arbitrary: idx g pdls) (fastforce simp: bind_result_Inr)+

lemma registered_domains:
  "hm_get (foldl (\<lambda>m d. hm_insert (do_name d) idx m) m ds) n = (if n \<in> do_name ` set ds then Some idx else hm_get m n)"
  by (induction ds arbitrary: m) auto

lemma register_protocol_domains:
  "hm_get (gn_domains (register_protocol idx pdl g)) n =
     (if n \<in> do_name ` set (pr_domains pdl) then Some idx else hm_get (gn_domains g) n)"
  by (simp add: register_protocol_def registered_domains)

lemma register_all_fields:
  "gn_protocol_mods (register_all idx pdls g) = gn_protocol_mods g"
  "gn_type_size (register_all idx pdls g) = gn_type_size g" "gn_ref_sizes (register_all idx pdls g) = gn_ref_sizes g"
  "included (register_all idx pdls g) = included g"
  by (induction pdls arbitrary: idx g) (simp_all add: register_protocol_def included_def fun_eq_iff)

lemma register_all_kept: "hm_get (gn_domains g) n \<noteq> None \<Longrightarrow> hm_get (gn_domains (register_all idx pdls g)) n \<noteq> None"
  by (induction pdls arbitrary: idx g) (simp_all add: register_protocol_domains)

lemma register_all_domains:
  "pdl \<in> set pdls \<Longrightarrow> d \<in> set (pr_domains pdl) \<Longrightarrow> hm_get (gn_domains (register_all idx pdls g)) (do_name d) \<noteq> None"
proof (induction pdls arbitrary: idx g)
  case (Cons p pdls)
  have "hm_get (gn_domains (register_protocol idx p g)) (do_name d) \<noteq> None" if "pdl = p"
    using that Cons.prems(2) by (simp add: register_protocol_domains)
  then show ?case using Cons register_all_kept by (metis register_all.simps(2) set_ConsD)
qed simp

lemma register_all_indices:
  "(\<And>n i. hm_get (gn_domains g) n = Some i \<Longrightarrow> i < idx + length pdls) \<Longrightarrow>
   hm_get (gn_domains (register_all idx pdls g)) n = Some i \<Longrightarrow> i < idx + length pdls"
proof (induction pdls arbitrary: idx g)
  case (Cons p pdls)
  have "i < Suc idx + length pdls" if "hm_get (gn_domains (register_protocol idx p g)) m = Some i" for m i
    using that Cons.prems(1) [of m i] by (auto simp: register_protocol_domains split: if_splits)
  then show ?case using Cons.IH Cons.prems(2) by fastforce
qed simp

lemma registered_placed:
  assumes "length pdls = length (gn_protocol_mods g)" "gn_domains g = []"
  shows "all_placed pdls (register_all 0 pdls g)"
proof -
  have "i < length pdls" if "hm_get (gn_domains (register_all 0 pdls g)) n = Some i" for n i
    using register_all_indices [OF _ that] assms(2) by simp
  then have "indexed (register_all 0 pdls g)" using assms(1) by (simp add: indexed_def register_all_fields)
  then show ?thesis using assms register_all_domains
    by (simp add: all_placed_def placed_def list_all_iff register_all_fields)
qed

lemma collect_results_Inl: "collect_results f xs = Inl e \<Longrightarrow> \<exists>x \<in> set xs. f x = Inl e"
  by (induction xs) (auto simp: bind_result_Inl)

lemma sizes_outcome:
  "case fix_sizes refs 0 sizes of
     Inr sizes' \<Rightarrow> sizes_known sizes' = sizes_known sizes \<union> fst ` set refs
   | Inl e \<Rightarrow> unresolved e"
  using fix_sizes_outcome [of 0 refs sizes] by (auto simp: size_outcome_def unresolved_def split: sum.splits)

lemma event_type_of_panics:
  assumes "placed d g" "event_ident env (pe_name e) \<in> sizes_known (gn_type_size g)" "event_type_of env g d e = Inl p"
  shows False
  using assms by (auto simp: event_type_of_def placed_def indexed_def sizes_known_iff not_less [symmetric] split: option.splits if_splits)

definition no_evaluate_event :: "protocol list \<Rightarrow> bool" where
  "no_evaluate_event pdls = list_all (\<lambda>p. list_all (\<lambda>d. list_all (\<lambda>e. pe_raw_name e \<noteq> ''Runtime.evaluate'') (do_events d)) (pr_domains p)) pdls"

lemma all_events_in:
  "(d, e) \<in> set (all_events g pdls) \<longleftrightarrow>
   (\<exists>p \<in> set pdls. d \<in> set (included_domains g (pr_domains p))) \<and> e \<in> set (included_events g d)"
  by (auto simp: all_events_def)


section \<open>The events of a description\<close>

lemma collect_results_Inr: "collect_results f xs = Inr ys \<Longrightarrow> list_all2 (\<lambda>x y. f x = Inr y) xs ys"
  by (induction xs arbitrary: ys) (auto simp: bind_result_Inr)

text \<open>The generated events are those of the description that are included, in its order, each in the module of its
  protocol and boxed when its size is above 200.\<close>

definition event_faithful :: "gen_env \<Rightarrow> generator \<Rightarrow> domain \<times> pdl_event \<Rightarrow> event_type \<Rightarrow> bool" where
  "event_faithful env g = (\<lambda>(d, e) et.
     et_domain et = do_name d \<and> et_name et = pe_name e \<and> et_raw_name et = pe_raw_name e \<and> et_deprecated et = pe_deprecated e \<and>
     hm_get (gn_domains g) (do_name d) \<noteq> None \<and> et_protocol_mod et = gn_protocol_mods g ! the (hm_get (gn_domains g) (do_name d)) \<and>
     (\<exists>sz. hm_get (gn_type_size g) (event_ident env (pe_name e)) = Some sz \<and> et_needs_box et = (200 < sz)))"

lemma event_type_faithful: "event_type_of env g d e = Inr et \<Longrightarrow> event_faithful env g (d, e) et"
  by (auto simp: event_type_of_def event_faithful_def split: option.splits if_splits)

lemma generated_events:
  assumes "generate_all env pdls g = Inr (out, g')"
  shows "list_all2 (event_faithful env g') (all_events g' pdls) (gd_events out)"
proof -
  obtain g1 sizes where "generate_event_enums env (g1\<lparr>gn_type_size := sizes, gn_ref_sizes := []\<rparr>) pdls = Inr (gd_events out)"
    "g' = g1\<lparr>gn_type_size := sizes, gn_ref_sizes := []\<rparr>"
    using assms by (auto simp: generate_all_def bind_result_Inr Let_def)
  then have "list_all2 (\<lambda>x y. (\<lambda>(d, e). event_type_of env g' d e) x = Inr y) (all_events g' pdls) (gd_events out)"
    unfolding generate_event_enums_def using collect_results_Inr by blast
  then show ?thesis by (rule list_all2_mono) (auto dest: event_type_faithful)
qed

section \<open>The texts of an enum\<close>

lemma enum_strings_hd: "enum_strings env name \<noteq> [] \<and> hd (enum_strings env name) = name"
  by (simp add: enum_strings_def Let_def)

text \<open>The texts of an enum read back. A variant of a generated enum, written as text and read again, is the
  same variant, provided the variants have different identifiers and no text of one is the name of
  another; and text that stands for no variant is refused.\<close>

theorem enum_round_trip:
  assumes "generate_enum env ident variants g = (e, g')"
    and "distinct (map (generate_enum_field_name env \<circ> va_name) variants)"
    and "list_all (\<lambda>v. list_all (\<lambda>w. va_name v \<in> set (enum_strings env (va_name w)) \<longrightarrow> va_name w = va_name v) variants) variants"
  shows "list_all (\<lambda>v. enum_as_ref e (generate_enum_field_name env (va_name v)) = Some (va_name v) \<and>
      enum_from_str e (va_name v) = Inr (generate_enum_field_name env (va_name v))) variants \<and>
    (\<forall>s. s \<notin> \<Union> (set (map (set \<circ> enum_strings env \<circ> va_name) variants)) \<longrightarrow> enum_from_str e s = Inl s)"
proof -
  let ?pair = "\<lambda>v. (generate_enum_field_name env (va_name v), enum_strings env (va_name v))"
  have e: "en_variants e = map ?pair variants" using assms(1) by (auto simp: generate_enum_def Let_def)
  have written: "enum_as_ref e (generate_enum_field_name env (va_name v)) = Some (va_name v)" if "v \<in> set variants" for v
  proof -
    have "map_of (en_variants e) (generate_enum_field_name env (va_name v)) = Some (enum_strings env (va_name v))"
      unfolding e by (rule map_of_is_SomeI) (use assms(2) that in \<open>auto simp: comp_def\<close>)
    then show ?thesis by (simp add: enum_as_ref_def enum_strings_hd)
  qed
  have read: "enum_from_str e (va_name v) = Inr (generate_enum_field_name env (va_name v))" if v: "v \<in> set variants" for v
  proof (cases "find (\<lambda>(_, strs). va_name v \<in> set strs) (map ?pair variants)")
    case None
    then have "va_name v \<notin> set (enum_strings env (va_name v))" using v by (auto simp: find_None_iff)
    then show ?thesis using enum_strings_hd [of env "va_name v"] by (metis hd_in_set)
  next
    case (Some r)
    then obtain w where "w \<in> set variants" "r = ?pair w" "va_name v \<in> set (enum_strings env (va_name w))"
      by (fastforce simp: find_Some_iff in_set_conv_nth)
    moreover from this have "va_name w = va_name v" using assms(3) v by (auto simp: list_all_iff)
    ultimately show ?thesis using Some by (simp add: enum_from_str_def e)
  qed
  have refused: "enum_from_str e s = Inl s" if "s \<notin> \<Union> (set (map (set \<circ> enum_strings env \<circ> va_name) variants))" for s
  proof -
    have "find (\<lambda>(_, strs). s \<in> set strs) (map ?pair variants) = None" using that by (auto simp: find_None_iff)
    then show ?thesis by (simp add: enum_from_str_def e)
  qed
  show ?thesis using written read refused by (auto simp: list_all_iff)
qed

text \<open>Without the second condition a text is read as another variant: the lower case form of one variant is the name
  of a later one.\<close>

lemma enum_text_misread:
  assumes "ge_camel env ''fooBar'' = ''FooBar''" "ge_camel env ''foobar'' = ''Foobar''"
    and "generate_enum env ''Kind'' [Variant_new ''fooBar'', Variant_new ''foobar''] g = (e, g')"
  shows "enum_as_ref e ''Foobar'' = Some ''foobar'' \<and> enum_from_str e ''foobar'' = Inr ''FooBar''"
proof -
  have lower: "ascii_lower ''fooBar'' = ''foobar''" "ascii_lower ''foobar'' = ''foobar''" by code_simp+
  have "en_variants e = [(''FooBar'', enum_strings env ''fooBar''), (''Foobar'', enum_strings env ''foobar'')]"
    using assms by (auto simp: generate_enum_def Let_def Variant_new_def generate_enum_field_name_def)
  then show ?thesis using assms(1,2) lower
    by (simp add: enum_as_ref_def enum_from_str_def enum_strings_def Let_def generate_enum_field_name_def del: ascii_lower_simps)
qed

text \<open>The structs of the evaluate command and of its response are both given the extra field, though it belongs to
  the parameters.\<close>

lemma fixup_in_response:
  assumes "pc_raw_name c = ''Runtime.evaluate''" "generate_struct env d (DtCommand c) ident ps g = Inr (item, g')"
  shows "\<exists>fds es. item = ItemStruct ident (fds @ [fixup_field]) es"
  using assms by (auto simp: generate_struct_def bind_result_Inr Let_def apply_struct_fixup_def)

text \<open>A qualified reference of a type to itself is not boxed.\<close>

lemma qualified_self_reference_unboxed:
  assumes "do_name d = ''DOM''" "hm_get (gn_domains g) ''DOM'' = Some i"
  shows "generate_field_type env g d ''Node'' ''parent'' (TyRef ''DOM.Node'') =
    Inr (FieldType_new (RtSuper (ge_snake env ''DOM'') (ge_camel env ''Node'')), Inr (ge_camel env ''Node''))"
    "generate_field_type env g d ''Node'' ''parent'' (TyRef ''Node'') = Inr (FieldType_new_box (RtIdent (ge_camel env ''Node'')), Inl 8)"
  using assms by (simp_all add: projected_type_def after_dot_def before_dot_def Let_def)

section \<open>At a concrete description\<close>

definition demo_env :: gen_env where
  "demo_env = \<lparr>ge_camel = (\<lambda>s. s), ge_snake = (\<lambda>s. s), ge_value_size = 32\<rparr>"

definition demo_event :: "pdl_type \<Rightarrow> pdl_event" where
  "demo_event ty = \<lparr>pe_description = None, pe_experimental = False, pe_deprecated = False, pe_name = ''Fired'',
     pe_parameters = [\<lparr>pa_description = None, pa_experimental = False, pa_deprecated = False, pa_optional = False, pa_type = ty,
       pa_name = ''p'', pa_raw_name = ''A.p'', pa_is_circular_dep = False\<rparr>],
     pe_raw_name = ''A.Fired'', pe_is_circular_dep = False\<rparr>"

definition demo_protocol :: "pdl_type \<Rightarrow> protocol" where
  "demo_protocol ty = \<lparr>pr_description = None, pr_version = Version_default, pr_domains =
     [\<lparr>do_description = None, do_experimental = False, do_deprecated = False, do_name = ''A'', do_dependencies = [],
       do_types = [], do_commands = [], do_events = [demo_event ty]\<rparr>]\<rparr>"

lemmas demo_defs = demo_env_def demo_event_def demo_protocol_def Generator_default_def register_protocol_def generate_all_def
  generate_protocol_def generate_types_def included_domains_def included_def generate_domain_def domain_datatypes_def
  generate_type_def included_params_def generate_struct_def apply_struct_fixup_def event_ident_def projected_type_def
  generate_field_name_def after_dot_def before_dot_def store_size_def add_size_def hm_defs FieldType_new_def
  version_text_def Version_default_def


lemma enum_round_trip_witness:
  "list_all (\<lambda>v. enum_as_ref (fst (generate_enum demo_env ''Kind'' [Variant_new ''Ab'', Variant_new ''Cd''] Generator_default))
        (generate_enum_field_name demo_env (va_name v)) = Some (va_name v)) [Variant_new ''Ab'', Variant_new ''Cd'']"
proof -
  let ?vs = "[Variant_new ''Ab'', Variant_new ''Cd'']"
  have strings: "enum_strings demo_env ''Ab'' = [''Ab'', ''ab'']" "enum_strings demo_env ''Cd'' = [''Cd'', ''cd'']" by code_simp+
  have "list_all (\<lambda>v. enum_as_ref (fst (generate_enum demo_env ''Kind'' ?vs Generator_default))
        (generate_enum_field_name demo_env (va_name v)) = Some (va_name v) \<and>
      enum_from_str (fst (generate_enum demo_env ''Kind'' ?vs Generator_default)) (va_name v) =
        Inr (generate_enum_field_name demo_env (va_name v))) ?vs \<and>
    (\<forall>s. s \<notin> \<Union> (set (map (set \<circ> enum_strings demo_env \<circ> va_name) ?vs)) \<longrightarrow>
      enum_from_str (fst (generate_enum demo_env ''Kind'' ?vs Generator_default)) s = Inl s)"
  proof (rule enum_round_trip)
    show "distinct (map (generate_enum_field_name demo_env \<circ> va_name) ?vs)"
      by (simp add: generate_enum_field_name_def demo_env_def Variant_new_def)
    show "list_all (\<lambda>v. list_all (\<lambda>w. va_name v \<in> set (enum_strings demo_env (va_name w)) \<longrightarrow> va_name w = va_name v) ?vs) ?vs"
      by (simp add: Variant_new_def strings)
  qed (rule surjective_pairing)
  then show ?thesis by (simp add: list_all_iff)
qed

end
