(* ===== verification/Event_Message.thy ===== *)
theory Event_Message
  imports Generator_Props
begin

text \<open>
  The messages of events as the generated code reads and writes them (\<open>src/pdl/src/build/event.rs\<close>): the
  enum of events, the visitor over the fields of a message, which hands the parameters to the type
  its method names, and the way back to JSON. The decoders and encoders of the single types are
  derived by serde and are arguments.
\<close>

section \<open>Messages\<close>

datatype de_error = UnknownField string | DuplicateField string | MissingField string | Custom string

text \<open>The variant of an event is given by the event it was generated for.\<close>

datatype ('v, 'd) cdp_event = CdpEvent_of event_type 'd | CdpEvent_Other 'v

record ('v, 'd) cdp_event_message =
  em_method :: string
  em_session_id :: "string option"
  em_params :: "('v, 'd) cdp_event"

record ('v, 'd) serde_env =
  se_string :: "'v \<Rightarrow> string + string"
  se_typed :: "string \<times> string \<times> string \<Rightarrow> 'v \<Rightarrow> string + 'd"
  se_to_value :: "string \<times> string \<times> string \<Rightarrow> 'd \<Rightarrow> string + 'v"

text \<open>The path of an event's type: module of the protocol, module of the domain, name.\<close>

definition ty_qualifier :: "gen_env \<Rightarrow> event_type \<Rightarrow> string \<times> string \<times> string" where
  "ty_qualifier env e = (et_protocol_mod e, ge_snake env (et_domain e), event_ident env (et_name e))"

text \<open>The arms of the generated \<open>match\<close> over the method.\<close>

definition deserialize_from_method :: "gen_env \<Rightarrow> ('v, 'd) serde_env \<Rightarrow> event_type list \<Rightarrow> string \<Rightarrow> 'v \<Rightarrow>
    de_error + ('v, 'd) cdp_event" where
  "deserialize_from_method env se events m v =
     (case find (\<lambda>e. et_raw_name e = m) events of
        None \<Rightarrow> Inr (CdpEvent_Other v)
      | Some e \<Rightarrow> map_error Custom (map_sum id (CdpEvent_of e) (se_typed se (ty_qualifier env e) v)))"

fun visit_map :: "gen_env \<Rightarrow> ('v, 'd) serde_env \<Rightarrow> event_type list \<Rightarrow> string option \<Rightarrow> string option \<Rightarrow>
    ('v, 'd) cdp_event option \<Rightarrow> (string \<times> 'v) list \<Rightarrow> de_error + ('v, 'd) cdp_event_message" where
  "visit_map env se events m session params [] =
     (case m of
        None \<Rightarrow> Inl (MissingField ''method'')
      | Some m \<Rightarrow> (case params of
            None \<Rightarrow> Inl (MissingField ''params'')
          | Some p \<Rightarrow> Inr \<lparr>em_method = m, em_session_id = session, em_params = p\<rparr>))"
| "visit_map env se events m session params ((key, v) # fds) =
     (if key = ''method'' then
        if m \<noteq> None then Inl (DuplicateField ''method'')
        else bind_result (map_error Custom (se_string se v)) (\<lambda>s. visit_map env se events (Some s) session params fds)
      else if key = ''sessionId'' then
        if session \<noteq> None then Inl (DuplicateField ''sessionId'')
        else bind_result (map_error Custom (se_string se v)) (\<lambda>s. visit_map env se events m (Some s) params fds)
      else if key = ''params'' then
        if params \<noteq> None then Inl (DuplicateField ''params'')
        else (case m of
            None \<Rightarrow> Inl (MissingField ''params'')
          | Some name \<Rightarrow> bind_result (deserialize_from_method env se events name v) (\<lambda>p.
              visit_map env se events m session (Some p) fds))
      else Inl (UnknownField key))"

definition deserialize_event :: "gen_env \<Rightarrow> ('v, 'd) serde_env \<Rightarrow> event_type list \<Rightarrow> (string \<times> 'v) list \<Rightarrow>
    de_error + ('v, 'd) cdp_event_message" where
  "deserialize_event env se events fds = visit_map env se events None None None fds"

definition event_identifier :: "('v, 'd) cdp_event_message \<Rightarrow> string" where
  "event_identifier m = (case em_params m of CdpEvent_of e _ \<Rightarrow> et_raw_name e | CdpEvent_Other _ \<Rightarrow> em_method m)"

definition into_json :: "gen_env \<Rightarrow> ('v, 'd) serde_env \<Rightarrow> ('v, 'd) cdp_event \<Rightarrow> string + 'v" where
  "into_json env se p =
     (case p of CdpEvent_of e d \<Rightarrow> se_to_value se (ty_qualifier env e) d | CdpEvent_Other v \<Rightarrow> Inr v)"

text \<open>\<open>try_into\<close> for the event whose parameters are JSON.\<close>

record 'v cdp_json_event_message =
  je_method :: string
  je_session_id :: "string option"
  je_params :: 'v

definition message_try_into :: "gen_env \<Rightarrow> ('v, 'd) serde_env \<Rightarrow> ('v, 'd) cdp_event_message \<Rightarrow> string + 'v cdp_json_event_message" where
  "message_try_into env se m =
     bind_result (into_json env se (em_params m)) (\<lambda>v.
       Inr \<lparr>je_method = event_identifier m, je_session_id = em_session_id m, je_params = v\<rparr>)"

section \<open>Reading a message\<close>

text \<open>What a message holds: its fields in an order in which the method comes before the parameters.\<close>

definition message_fields :: "'v \<Rightarrow> 'v option \<Rightarrow> 'v \<Rightarrow> (string \<times> 'v) list set" where
  "message_fields m session params =
     (case session of
        None \<Rightarrow> {[(''method'', m), (''params'', params)]}
      | Some s \<Rightarrow> {[(''method'', m), (''params'', params), (''sessionId'', s)],
          [(''method'', m), (''sessionId'', s), (''params'', params)], [(''sessionId'', s), (''method'', m), (''params'', params)]})"

lemma deserialize_message:
  assumes "fds \<in> message_fields m session params" "se_string se m = Inr name"
    and "session = None \<and> sid = None \<or> (\<exists>s t. session = Some s \<and> se_string se s = Inr t \<and> sid = Some t)"
  shows "deserialize_event env se events fds =
    bind_result (deserialize_from_method env se events name params) (\<lambda>p. Inr \<lparr>em_method = name, em_session_id = sid, em_params = p\<rparr>)"
  using assms
  by (cases "deserialize_from_method env se events name params")
    (auto simp: message_fields_def deserialize_event_def map_error_def split: option.splits)

text \<open>A message whose parameters come first is refused, and the error names the parameters.\<close>

lemma params_before_method: "deserialize_event env se events ((''params'', v) # fds) = Inl (MissingField ''params'')"
  by (simp add: deserialize_event_def)

lemma event_of_faithful: "event_faithful env g (d, e) et \<Longrightarrow> et_raw_name et = pe_raw_name e"
  by (simp add: event_faithful_def)

lemma find_generated:
  assumes "generate_all env pdls g = Inr (out, g')" "distinct (map (pe_raw_name \<circ> snd) (all_events g' pdls))"
    and "(d, e) \<in> set (all_events g' pdls)"
  shows "\<exists>et. find (\<lambda>et. et_raw_name et = pe_raw_name e) (gd_events out) = Some et \<and> event_faithful env g' (d, e) et"
proof -
  note all = generated_events [OF assms(1)]
  then have len: "length (all_events g' pdls) = length (gd_events out)" by (rule list_all2_lengthD)
  have raw: "et_raw_name (gd_events out ! i) = (pe_raw_name \<circ> snd) (all_events g' pdls ! i)" if "i < length (gd_events out)" for i
    using list_all2_nthD2 [OF all that] event_of_faithful by (cases "all_events g' pdls ! i") auto
  obtain i where i: "i < length (gd_events out)" "all_events g' pdls ! i = (d, e)"
    using assms(3) len by (metis in_set_conv_nth)
  have "j = i" if "j < length (gd_events out)" "et_raw_name (gd_events out ! j) = pe_raw_name e" for j
  proof -
    have "map (pe_raw_name \<circ> snd) (all_events g' pdls) ! j = map (pe_raw_name \<circ> snd) (all_events g' pdls) ! i"
      using that i raw len by simp
    then show ?thesis using nth_eq_iff_index_eq [OF assms(2), of j i] that(1) i(1) len by simp
  qed
  moreover have "et_raw_name (gd_events out ! i) = pe_raw_name e" using raw [OF i(1)] i(2) by simp
  ultimately have "find (\<lambda>et. et_raw_name et = pe_raw_name e) (gd_events out) = Some (gd_events out ! i)"
    unfolding find_Some_iff using i(1) by (metis order.strict_trans less_irrefl)
  moreover have "event_faithful env g' (d, e) (gd_events out ! i)" using list_all2_nthD2 [OF all i(1)] i(2) by simp
  ultimately show ?thesis by blast
qed


text \<open>A method that no event has is kept as it is.\<close>

lemma other_events_kept:
  assumes "m \<notin> et_raw_name ` set events"
  shows "deserialize_from_method env se events m v = Inr (CdpEvent_Other v)"
proof -
  have "find (\<lambda>e. et_raw_name e = m) events = None" using assms by (auto simp: find_None_iff)
  then show ?thesis by (simp add: deserialize_from_method_def)
qed

section \<open>At a concrete description\<close>

definition demo_serde :: "(string, string) serde_env" where
  "demo_serde = \<lparr>se_string = Inr, se_typed = (\<lambda>_. Inr), se_to_value = (\<lambda>_. Inr)\<rparr>"

definition demo_generated :: "generated \<times> generator" where
  "demo_generated = projr (generate_all demo_env [demo_protocol TyInteger] (register_all 0 [demo_protocol TyInteger]
     (Generator_default\<lparr>gn_protocol_mods := [''a'']\<rparr>)))"

lemma demo_generates:
  "generate_all demo_env [demo_protocol TyInteger] (register_all 0 [demo_protocol TyInteger]
     (Generator_default\<lparr>gn_protocol_mods := [''a'']\<rparr>)) = Inr (fst demo_generated, snd demo_generated)"
  by (simp add: demo_generated_def demo_defs Let_def fix_sizes.simps generate_event_enums_def all_events_def included_events_def
      event_type_of_def)

lemma demo_generator: "gn_with_experimental (snd demo_generated) \<and> gn_protocol_mods (snd demo_generated) = [''a''] \<and>
    gn_domains (snd demo_generated) = [(''A'', 0)]"
  by (simp add: demo_generated_def demo_defs Let_def fix_sizes.simps generate_event_enums_def all_events_def included_events_def
      event_type_of_def)


end
