(* ===== verification/Builder_Code.thy ===== *)
theory Builder_Code
  imports Generator
begin

text \<open>
  The implementations generated for a struct (\<open>src/pdl/src/build/builder.rs\<close>): its constructor from the
  mandatory fields, the conversion from a string, and its builder, as what they do with values when
  they run. A value of a field is one value, or the elements of a \<open>Vec\<close>.
\<close>

section \<open>What is generated\<close>

definition Builder_mandatory :: "field_definition list \<Rightarrow> field_definition list" where
  "Builder_mandatory fds = filter (\<lambda>f. \<not> fd_optional f) fds"

text \<open>The names of the parameters of \<open>new\<close>, when it is generated.\<close>

definition generated_new :: "field_definition list \<Rightarrow> string list option" where
  "generated_new fds =
     (let mandatory = map fd_name_ident (Builder_mandatory fds) in
      if mandatory \<noteq> [] \<and> length mandatory \<le> 4 then Some mandatory else None)"

definition generated_from_string :: "field_definition list \<Rightarrow> bool" where
  "generated_from_string fds =
     (case Builder_mandatory fds of
        [f] \<Rightarrow> \<not> ft_is_vec (fd_ty f) \<and> ft_ty (fd_ty f) = RtString
      | _ \<Rightarrow> False)"

text \<open>The setters of a field: for a \<open>Vec\<close> the one that takes an element and the one that takes several.\<close>

datatype setter = SetOne string | PushOne string string | PushMany string string

definition field_setters :: "gen_env \<Rightarrow> field_definition \<Rightarrow> setter list" where
  "field_setters env f =
     (if ft_is_vec (fd_ty f) then
        let s = ge_snake env (fd_name_ident f);
            (iter_name, single_name) =
              (if ends_with ''s'' s then (fd_name_ident f, generate_field_name env (take (length s - 1) s))
               else (s @ ''s'', fd_name_ident f))
        in [PushOne single_name (fd_name_ident f), PushMany iter_name (fd_name_ident f)]
      else [SetOne (fd_name_ident f)])"

section \<open>What the generated code does\<close>

datatype 'v field_value = Single 'v | Many "'v list"

type_synonym 'v struct_builder = "string \<Rightarrow> 'v field_value option"
type_synonym 'v struct_value = "(string \<times> 'v field_value option) list"

text \<open>Calling a setter: a single value replaces, elements are added at the end.\<close>

definition pushed :: "'v field_value option \<Rightarrow> 'v list \<Rightarrow> 'v field_value" where
  "pushed old vs = (case old of Some (Many us) \<Rightarrow> Many (us @ vs) | _ \<Rightarrow> Many vs)"

definition call_set :: "string \<Rightarrow> 'v \<Rightarrow> 'v struct_builder \<Rightarrow> 'v struct_builder" where
  "call_set f v b = b(f \<mapsto> Single v)"

definition call_push_one :: "string \<Rightarrow> 'v \<Rightarrow> 'v struct_builder \<Rightarrow> 'v struct_builder" where
  "call_push_one f v b = b(f \<mapsto> pushed (b f) [v])"

definition call_push_many :: "string \<Rightarrow> 'v list \<Rightarrow> 'v struct_builder \<Rightarrow> 'v struct_builder" where
  "call_push_many f vs b = b(f \<mapsto> pushed (b f) vs)"

text \<open>\<open>build\<close>: the fields in order; the first mandatory one that is missing is the error.\<close>

fun build_fn :: "field_definition list \<Rightarrow> 'v struct_builder \<Rightarrow> string + 'v struct_value" where
  "build_fn [] b = Inr []"
| "build_fn (f # fds) b =
     (if \<not> fd_optional f \<and> b (fd_name_ident f) = None then Inl (''Field `'' @ fd_name_ident f @ ''` is mandatory.'')
      else bind_result (build_fn fds b) (\<lambda>vals. Inr ((fd_name_ident f, b (fd_name_ident f)) # vals)))"

text \<open>\<open>new\<close>: the mandatory fields from the arguments, the others \<open>None\<close>.\<close>

definition new_fn :: "field_definition list \<Rightarrow> 'v field_value list \<Rightarrow> 'v struct_value" where
  "new_fn fds args =
     (let given = map_of (zip (map fd_name_ident (Builder_mandatory fds)) args) in
      map (\<lambda>f. (fd_name_ident f, if fd_optional f then None else given (fd_name_ident f))) fds)"

section \<open>Building\<close>

lemma build_succeeds_iff:
  "(\<exists>vals. build_fn fds b = Inr vals) \<longleftrightarrow> list_all (\<lambda>f. b (fd_name_ident f) \<noteq> None) (Builder_mandatory fds)"
proof (induction fds)
  case (Cons f fds)
  then show ?case by (cases "build_fn fds b") (auto simp: Builder_mandatory_def)
qed (simp add: Builder_mandatory_def)

lemma build_value:
  "build_fn fds b = Inr vals \<Longrightarrow> vals = map (\<lambda>f. (fd_name_ident f, b (fd_name_ident f))) fds"
proof (induction fds arbitrary: vals)
  case (Cons f fds)
  then show ?case by (cases "build_fn fds b") (auto split: if_splits)
qed simp

text \<open>The constructor makes what the builder makes from the mandatory fields alone.\<close>

lemma new_agrees_with_builder:
  assumes "length args = length (Builder_mandatory fds)" "distinct (map fd_name_ident fds)"
  shows "build_fn fds (map_of (zip (map fd_name_ident (Builder_mandatory fds)) args)) = Inr (new_fn fds args)"
proof -
  let ?given = "map_of (zip (map fd_name_ident (Builder_mandatory fds)) args)"
  have dom: "?given n \<noteq> None \<longleftrightarrow> n \<in> fd_name_ident ` set (Builder_mandatory fds)" for n
    using assms(1) dom_map_of_zip [of "map fd_name_ident (Builder_mandatory fds)" args] by (auto simp: dom_def)
  then obtain vals where vals: "build_fn fds ?given = Inr vals"
    using build_succeeds_iff [of fds ?given] by (auto simp: list_all_iff)
  have "?given (fd_name_ident f) = None" if "f \<in> set fds" "fd_optional f" for f
  proof -
    have "fd_name_ident f \<notin> fd_name_ident ` set (Builder_mandatory fds)"
    proof
      assume "fd_name_ident f \<in> fd_name_ident ` set (Builder_mandatory fds)"
      then obtain h where "h \<in> set fds" "\<not> fd_optional h" "fd_name_ident h = fd_name_ident f"
        by (auto simp: Builder_mandatory_def)
      then show False using that assms(2) by (metis distinct_map inj_on_def)
    qed
    then show ?thesis using dom by blast
  qed
  then have "vals = new_fn fds args" unfolding build_value [OF vals] by (simp add: new_fn_def Let_def)
  then show ?thesis using vals by simp
qed

text \<open>Elements pushed one by one are the elements pushed at once.\<close>

lemma push_one_by_one:
  "vs \<noteq> [] \<Longrightarrow> foldl (\<lambda>b v. call_push_one f v b) b vs = call_push_many f vs b"
proof (induction vs rule: rev_induct)
  case (snoc v vs)
  then show ?case
    by (cases "vs = []") (auto simp: call_push_one_def call_push_many_def pushed_def fun_eq_iff split: option.splits field_value.splits)
qed simp

end
