(* ===== verification/Js_Eval.thy ===== *)
theory Js_Eval
  imports Text Cmd
begin

text \<open>
  Evaluating JavaScript: the strings that are built and the guess whether a text is a function
  (\<open>utils.rs\<close>), the conversion of a text (\<open>js.rs\<close>, \<open>src/cdp/src/lib.rs\<close>), and \<open>Page::evaluate\<close> with its
  fallback (\<open>page.rs\<close>, \<open>handler/page.rs\<close>). What the page answers is an argument. The guess finds exactly
  the texts that begin like a function or with balanced parentheses before an arrow.
\<close>

section \<open>Texts\<close>

definition trim_start :: "string \<Rightarrow> string" where
  "trim_start s = dropWhile is_space s"

fun join_with :: "string \<Rightarrow> string list \<Rightarrow> string" where
  "join_with sep [] = []"
| "join_with sep [s] = s"
| "join_with sep (s # t # ts) = s @ sep @ join_with sep (t # ts)"

definition evaluation_string :: "string \<Rightarrow> string list \<Rightarrow> string" where
  "evaluation_string function_text params =
     ''('' @ function_text @ '')('' @ join_with '','' (map (\<lambda>s. [CHR 0x22] @ s @ [CHR 0x22]) params) @ '')''"

definition is_paren :: "char \<Rightarrow> bool" where
  "is_paren c = (c = CHR ''('' \<or> c = CHR '')'')"

text \<open>The loop of \<open>skip_args\<close>: the counts of parentheses, and what is left of the input.\<close>

function skip_loop :: "nat \<Rightarrow> nat \<Rightarrow> string \<Rightarrow> nat \<times> nat \<times> string" where
  "skip_loop opened shut input =
     (if input \<noteq> [] \<and> opened \<noteq> shut then
        (case find_first is_paren input of
           None \<Rightarrow> (opened, shut, input)
         | Some idx \<Rightarrow>
             if input ! idx = CHR '')'' then skip_loop opened (Suc shut) (drop (Suc idx) input)
             else skip_loop (Suc opened) shut (drop (Suc idx) input))
      else (opened, shut, input))"
  by pat_completeness auto

termination
  by (relation "measure (\<lambda>(_, _, s). length s)") auto

declare skip_loop.simps [simp del]

definition skip_args :: "string \<Rightarrow> bool \<times> string" where
  "skip_args input =
     (case input of
        c # rest \<Rightarrow>
          if c = CHR ''('' then let (opened, shut, input) = skip_loop 1 0 rest in (opened = shut, input) else (False, input)
      | [] \<Rightarrow> (False, input))"

definition is_likely_js_function :: "string \<Rightarrow> bool" where
  "is_likely_js_function text =
     (let f = trim_start text in
      if f = [] then False
      else let offset = (if starts_with ''async '' f then 5 else 0) in
        if starts_with ''function '' (trim_start (drop offset f)) then True
        else (case skip_args f of (found, f) \<Rightarrow> found \<and> starts_with ''=>'' (trim_start f)))"

section \<open>Evaluations\<close>

type_synonym context_id = nat

text \<open>The parameters of the two commands, as far as the page operations set or pass them.\<close>

record evaluate_params =
  ev_expression :: string
  ev_object_group :: "string option"
  ev_silent :: "bool option"
  ev_context_id :: "context_id option"
  ev_return_by_value :: "bool option"
  ev_generate_preview :: "bool option"
  ev_user_gesture :: "bool option"
  ev_await_promise :: "bool option"
  ev_eval_as_function_fallback :: "bool option"

record call_function_on_params =
  cf_function_declaration :: string
  cf_object_group :: "string option"
  cf_silent :: "bool option"
  cf_execution_context_id :: "context_id option"
  cf_return_by_value :: "bool option"
  cf_generate_preview :: "bool option"
  cf_user_gesture :: "bool option"
  cf_await_promise :: "bool option"

definition EvaluateParams_new :: "string \<Rightarrow> evaluate_params" where
  "EvaluateParams_new s =
     \<lparr>ev_expression = s, ev_object_group = None, ev_silent = None, ev_context_id = None, ev_return_by_value = None,
      ev_generate_preview = None, ev_user_gesture = None, ev_await_promise = None, ev_eval_as_function_fallback = None\<rparr>"

definition CallFunctionOnParams_new :: "string \<Rightarrow> call_function_on_params" where
  "CallFunctionOnParams_new s =
     \<lparr>cf_function_declaration = s, cf_object_group = None, cf_silent = None, cf_execution_context_id = None,
      cf_return_by_value = None, cf_generate_preview = None, cf_user_gesture = None, cf_await_promise = None\<rparr>"

definition CallFunctionOnParams_from :: "evaluate_params \<Rightarrow> call_function_on_params" where
  "CallFunctionOnParams_from p =
     \<lparr>cf_function_declaration = ev_expression p, cf_object_group = ev_object_group p, cf_silent = ev_silent p,
      cf_execution_context_id = ev_context_id p, cf_return_by_value = ev_return_by_value p,
      cf_generate_preview = ev_generate_preview p, cf_user_gesture = ev_user_gesture p, cf_await_promise = ev_await_promise p\<rparr>"

datatype evaluation = EvalExpression evaluate_params | EvalFunction call_function_on_params

definition Evaluation_from_str :: "string \<Rightarrow> evaluation" where
  "Evaluation_from_str s =
     (if is_likely_js_function s then EvalFunction (CallFunctionOnParams_new s) else EvalExpression (EvaluateParams_new s))"

text \<open>What the page is asked in the course of an evaluation, and its answers: the execution context at each
  time it is asked for, the results of the commands. A result carries whether it is a function.\<close>

datatype js_request = AsksContext | Evaluates evaluate_params | Calls call_function_on_params

record 'v js_page =
  jp_context :: "nat \<Rightarrow> cdp_error + context_id option"
  jp_evaluate :: "evaluate_params \<Rightarrow> cdp_error + string option \<times> 'v"
  jp_call :: "call_function_on_params \<Rightarrow> cdp_error + string option \<times> 'v"
  jp_is_function :: "'v \<Rightarrow> bool"

definition asked :: "js_request list \<Rightarrow> nat" where
  "asked tr = length (filter (\<lambda>r. r = AsksContext) tr)"

text \<open>A context is asked for only when there is none.\<close>

definition with_context :: "'v js_page \<Rightarrow> context_id option \<Rightarrow> js_request list \<Rightarrow> (cdp_error + context_id option) \<times> js_request list" where
  "with_context page ctx tr =
     (case ctx of None \<Rightarrow> (jp_context page (asked tr), tr @ [AsksContext]) | Some c \<Rightarrow> (Inr (Some c), tr))"

definition evaluation_result :: "cdp_error + string option \<times> 'v \<Rightarrow> cdp_error + 'v" where
  "evaluation_result answer =
     (case answer of
        Inl e \<Rightarrow> Inl e
      | Inr (exception, v) \<Rightarrow> (case exception of Some ex \<Rightarrow> Inl (JavascriptException ex) | None \<Rightarrow> Inr v))"

definition or_true :: "bool option \<Rightarrow> bool option" where
  "or_true b = (case b of None \<Rightarrow> Some True | Some _ \<Rightarrow> b)"

definition evaluate_expression :: "'v js_page \<Rightarrow> evaluate_params \<Rightarrow> js_request list \<Rightarrow> (cdp_error + 'v) \<times> js_request list" where
  "evaluate_expression page p tr =
     (case with_context page (ev_context_id p) tr of
        (Inl e, tr) \<Rightarrow> (Inl e, tr)
      | (Inr ctx, tr) \<Rightarrow>
          let p = p\<lparr>ev_context_id := ctx, ev_await_promise := or_true (ev_await_promise p),
                    ev_return_by_value := or_true (ev_return_by_value p)\<rparr>
          in (evaluation_result (jp_evaluate page p), tr @ [Evaluates p]))"

definition evaluate_function :: "'v js_page \<Rightarrow> call_function_on_params \<Rightarrow> js_request list \<Rightarrow> (cdp_error + 'v) \<times> js_request list" where
  "evaluate_function page p tr =
     (case with_context page (cf_execution_context_id p) tr of
        (Inl e, tr) \<Rightarrow> (Inl e, tr)
      | (Inr ctx, tr) \<Rightarrow>
          let p = p\<lparr>cf_execution_context_id := ctx, cf_await_promise := or_true (cf_await_promise p),
                    cf_return_by_value := or_true (cf_return_by_value p)\<rparr>
          in (evaluation_result (jp_call page p), tr @ [Calls p]))"

definition page_evaluate :: "'v js_page \<Rightarrow> evaluation \<Rightarrow> js_request list \<Rightarrow> (cdp_error + 'v) \<times> js_request list" where
  "page_evaluate page e tr =
     (case e of
        EvalExpression expr \<Rightarrow>
          (case with_context page (ev_context_id expr) tr of
             (Inl e, tr) \<Rightarrow> (Inl e, tr)
           | (Inr ctx, tr) \<Rightarrow>
               let expr = expr\<lparr>ev_context_id := ctx\<rparr>;
                   fallback = (if ev_eval_as_function_fallback expr = Some True then Some expr else None)
               in (case evaluate_expression page expr tr of
                   (Inl e, tr) \<Rightarrow> (Inl e, tr)
                 | (Inr res, tr) \<Rightarrow>
                     (case (jp_is_function page res, fallback) of
                        (True, Some expr) \<Rightarrow> evaluate_function page (CallFunctionOnParams_from expr) tr
                      | _ \<Rightarrow> (Inr res, tr))))
      | EvalFunction f \<Rightarrow> evaluate_function page f tr)"

section \<open>Balanced parentheses\<close>

definition opens :: "string \<Rightarrow> nat" where
  "opens s = length (filter (\<lambda>c. c = CHR ''('') s)"

definition shuts :: "string \<Rightarrow> nat" where
  "shuts s = length (filter (\<lambda>c. c = CHR '')'') s)"

lemma counts_append [simp]: "opens (s @ t) = opens s + opens t" "shuts (s @ t) = shuts s + shuts t"
  by (simp_all add: opens_def shuts_def)

lemma counts_simps [simp]:
  "opens [] = 0" "shuts [] = 0" "opens (CHR ''('' # s) = Suc (opens s)" "shuts (CHR '')'' # s) = Suc (shuts s)"
  "opens (CHR '')'' # s) = opens s" "shuts (CHR ''('' # s) = shuts s" "\<not> is_paren c \<Longrightarrow> opens (c # s) = opens s"
  "\<not> is_paren c \<Longrightarrow> shuts (c # s) = shuts s"
  by (auto simp: opens_def shuts_def is_paren_def)

text \<open>A pair of parentheses with what is inside: the counts meet at the end and not before.\<close>

definition closes :: "string \<Rightarrow> bool" where
  "closes p = (p \<noteq> [] \<and> hd p = CHR ''('' \<and> opens p = shuts p \<and>
     list_all (\<lambda>n. shuts (take n p) < opens (take n p)) [1..<length p])"

lemma no_parens: "list_all (\<lambda>c. \<not> is_paren c) s \<Longrightarrow> opens s = 0 \<and> shuts s = 0"
  by (induction s) simp_all

text \<open>What the loop does, one character at a time.\<close>

fun skip_chars :: "nat \<Rightarrow> nat \<Rightarrow> string \<Rightarrow> (nat \<times> nat) \<times> string" where
  "skip_chars opened shut [] = ((opened, shut), [])"
| "skip_chars opened shut (c # s) =
     (if opened = shut then ((opened, shut), c # s)
      else if c = CHR '')'' then skip_chars opened (Suc shut) s
      else if c = CHR ''('' then skip_chars (Suc opened) shut s
      else skip_chars opened shut s)"

fun closing :: "nat \<Rightarrow> nat \<Rightarrow> string \<Rightarrow> bool" where
  "closing opened shut [] = (opened = shut)"
| "closing opened shut (c # p) =
     (shut < opened \<and> closing (if c = CHR ''('' then Suc opened else opened) (if c = CHR '')'' then Suc shut else shut) p)"

lemma closing_iff:
  "closing opened shut p \<longleftrightarrow> opened + opens p = shut + shuts p \<and>
     (\<forall>n < length p. shut + shuts (take n p) < opened + opens (take n p))"
proof (induction p arbitrary: opened shut)
  case (Cons c p)
  consider "c = CHR ''(''" | "c = CHR '')''" | "\<not> is_paren c" by (auto simp: is_paren_def)
  then show ?case by cases (auto simp: Cons.IH All_less_Suc2 is_paren_def)
qed simp

lemma skip_chars_done: "skip_chars n n s = ((n, n), s)"
  by (cases s) simp_all

lemma skip_chars_iff:
  "shut \<le> opened \<Longrightarrow>
   (\<exists>n. skip_chars opened shut s = ((n, n), rest)) \<longleftrightarrow> (\<exists>p. s = p @ rest \<and> closing opened shut p)"
proof (induction s arbitrary: opened shut)
  case (Cons c s)
  show ?case
  proof (cases "opened = shut")
    case True
    then have "closing opened shut p \<longleftrightarrow> p = []" for p by (cases p) simp_all
    then show ?thesis using True by auto
  next
    case False
    let ?o = "if c = CHR ''('' then Suc opened else opened" and ?s = "if c = CHR '')'' then Suc shut else shut"
    have "(\<exists>n. skip_chars opened shut (c # s) = ((n, n), rest)) \<longleftrightarrow> (\<exists>n. skip_chars ?o ?s s = ((n, n), rest))"
      using False by simp
    also have "\<dots> \<longleftrightarrow> (\<exists>p. s = p @ rest \<and> closing ?o ?s p)" using Cons.prems False by (intro Cons.IH) auto
    also have "\<dots> \<longleftrightarrow> (\<exists>p. c # s = p @ rest \<and> closing opened shut p)"
    proof
      assume "\<exists>p. c # s = p @ rest \<and> closing opened shut p"
      then obtain p where "c # s = p @ rest" "closing opened shut p" by blast
      then show "\<exists>p. s = p @ rest \<and> closing ?o ?s p" using False by (cases p) auto
    next
      assume "\<exists>p. s = p @ rest \<and> closing ?o ?s p"
      then obtain p where "s = p @ rest" "closing ?o ?s p" by blast
      then have "c # s = (c # p) @ rest \<and> closing opened shut (c # p)" using False Cons.prems by simp
      then show "\<exists>p. c # s = p @ rest \<and> closing opened shut p" by blast
    qed
    finally show ?thesis .
  qed
qed auto

lemma skip_chars_plain:
  "list_all (\<lambda>c. \<not> is_paren c) p \<Longrightarrow> opened \<noteq> shut \<Longrightarrow> skip_chars opened shut (p @ s) = skip_chars opened shut s"
  by (induction p) (auto simp: is_paren_def)

lemma skip_loop_chars:
  "(case skip_loop opened shut s of (n, m, rest) \<Rightarrow>
      fst (skip_chars opened shut s) = (n, m) \<and> (n = m \<longrightarrow> snd (skip_chars opened shut s) = rest))"
proof (induction opened shut s rule: skip_loop.induct)
  case (1 opened shut s)
  show ?case
  proof (cases "s \<noteq> [] \<and> opened \<noteq> shut")
    case False
    then show ?thesis by (cases s) (auto simp: skip_loop.simps)
  next
    case True
    show ?thesis
    proof (cases "find_first is_paren s")
      case None
      then have "list_all (\<lambda>c. \<not> is_paren c) s" by (simp add: find_first_None list_all_iff)
      then show ?thesis using True None skip_chars_plain [of s opened shut "[]"] by (simp add: skip_loop.simps [of opened])
    next
      case (Some i)
      then have i: "i < length s" "is_paren (s ! i)" "list_all (\<lambda>c. \<not> is_paren c) (take i s)"
        by (auto simp: find_first_Some list_all_iff in_set_conv_nth)
      have "skip_chars opened shut s = skip_chars opened shut (s ! i # drop (Suc i) s)"
        using skip_chars_plain [OF i(3), of opened shut "drop i s"] True i(1) by (simp add: Cons_nth_drop_Suc)
      moreover have "s ! i = CHR ''('' \<or> s ! i = CHR '')''" using i(2) by (simp add: is_paren_def)
      ultimately show ?thesis using True Some 1(1) [OF True Some] 1(2) [OF True Some]
        by (auto simp: skip_loop.simps [of opened shut s])
    qed
  qed
qed

lemma closes_closing: "closes p \<longleftrightarrow> (\<exists>q. p = CHR ''('' # q \<and> closing 1 0 q)"
proof -
  have upto: "set [1..<Suc n] = Suc ` {..<n}" for n
    by (auto simp: image_Suc_lessThan)
  have "(\<forall>n \<in> set [1..<Suc (length q)]. shuts (take n (CHR ''('' # q)) < opens (take n (CHR ''('' # q))) \<longleftrightarrow>
      (\<forall>n < length q. shuts (take n q) < Suc (opens (take n q)))" for q
    unfolding upto by auto
  then show ?thesis by (cases p) (auto simp: closes_def closing_iff list_all_iff)
qed

text \<open>Skipping the arguments succeeds exactly on a text that starts with a closing pair of parentheses, and leaves what
  follows the first such pair.\<close>

lemma skip_args_iff: "skip_args s = (True, rest) \<longleftrightarrow> (\<exists>p. s = p @ rest \<and> closes p)"
proof (cases "\<exists>t. s = CHR ''('' # t")
  case False
  then show ?thesis by (cases s) (auto simp: skip_args_def closes_closing)
next
  case True
  then obtain t where t: "s = CHR ''('' # t" by blast
  have "skip_args s = (True, rest) \<longleftrightarrow> (\<exists>n. skip_chars 1 0 t = ((n, n), rest))"
    using skip_loop_chars [of 1 0 t] t
    by (cases "skip_loop 1 0 t"; cases "skip_chars 1 0 t") (auto simp: skip_args_def)
  also have "\<dots> \<longleftrightarrow> (\<exists>p. t = p @ rest \<and> closing 1 0 p)" by (rule skip_chars_iff) simp
  also have "\<dots> \<longleftrightarrow> (\<exists>p. s = p @ rest \<and> closes p)" using t by (auto simp: closes_closing)
  finally show ?thesis .
qed

text \<open>What is taken for a function. A text is taken for a function exactly when, after leading spaces, it goes on
  with \<open>function \<close>, perhaps behind \<open>async \<close>, or with a pair of parentheses that closes, then an arrow;
  nested parentheses are matched, whatever is between them.\<close>

theorem function_guess_exact:
  "is_likely_js_function s \<longleftrightarrow>
     (\<exists>t. trim_start s = ''async '' @ t \<and> starts_with ''function '' (trim_start t)) \<or>
     starts_with ''function '' (trim_start s) \<or>
     (\<exists>p rest. trim_start s = p @ rest \<and> closes p \<and> starts_with ''=>'' (trim_start rest))"
proof -
  define f where "f = trim_start s"
  define A where "A \<longleftrightarrow> (\<exists>p rest. f = p @ rest \<and> closes p \<and> starts_with ''=>'' (trim_start rest))"
  have "(case skip_args f of (found, f) \<Rightarrow> found \<and> starts_with ''=>'' (trim_start f)) \<longleftrightarrow>
      (\<exists>rest. skip_args f = (True, rest) \<and> starts_with ''=>'' (trim_start rest))"
    by (cases "skip_args f") auto
  then have guess: "is_likely_js_function s \<longleftrightarrow>
      f \<noteq> [] \<and> (starts_with ''function '' (trim_start (drop (if starts_with ''async '' f then 5 else 0) f)) \<or> A)"
    by (auto simp: is_likely_js_function_def Let_def f_def [symmetric] A_def skip_args_iff)
  have trimmed: "trim_start f = f" by (simp add: f_def trim_start_def dropWhile_idem)
  have empty: "f \<noteq> []" if "A \<or> starts_with ''function '' f" using that by (auto simp: A_def closes_def starts_with_def)
  have "is_likely_js_function s \<longleftrightarrow>
      (\<exists>t. f = ''async '' @ t \<and> starts_with ''function '' (trim_start t)) \<or> starts_with ''function '' f \<or> A"
  proof (cases "starts_with ''async '' f")
    case True
    then obtain t where t: "f = ''async '' @ t" by (auto simp: starts_with_iff)
    have "trim_start (drop 5 f) = trim_start t" unfolding t by (simp add: trim_start_def is_space_def)
    moreover have "\<not> starts_with ''function '' f" unfolding t by (simp add: starts_with_def)
    moreover have "(\<exists>u. f = ''async '' @ u \<and> starts_with ''function '' (trim_start u)) \<longleftrightarrow> starts_with ''function '' (trim_start t)"
      unfolding t by simp
    moreover have "f \<noteq> []" unfolding t by simp
    ultimately show ?thesis using True guess by simp
  next
    case False
    then have "\<nexists>t. f = ''async '' @ t" by (auto simp: starts_with_iff)
    then show ?thesis using False guess trimmed empty by auto
  qed
  then show ?thesis by (simp only: f_def A_def)
qed

text \<open>The guess misses an anonymous function without a space and an asynchronous arrow.\<close>

lemma functions_missed:
  "\<not> is_likely_js_function ''function(){return 1}''" "\<not> is_likely_js_function ''async () => 1''"
  by code_simp+

section \<open>Evaluating\<close>

text \<open>The fallback calls the expression as a function in the context it was evaluated in, and with the same settings.\<close>

lemma fallback_same_context:
  assumes "page_evaluate page (EvalExpression expr) [] = (r, tr)" "Evaluates p \<in> set tr" "Calls f \<in> set tr"
    and "ev_context_id p \<noteq> None" "jp_context page 0 = Inr (ev_context_id p)"
  shows "cf_execution_context_id f = ev_context_id p \<and> cf_function_declaration f = ev_expression p \<and>
    cf_await_promise f = ev_await_promise p \<and> cf_return_by_value f = ev_return_by_value p"
  using assms
  by (auto simp: page_evaluate_def evaluate_expression_def evaluate_function_def with_context_def asked_def
      CallFunctionOnParams_from_def Let_def split: option.splits sum.splits prod.splits if_splits bool.splits)

text \<open>Without the fallback, or when the result is no function, there is one command; with it at most two.\<close>

lemma at_most_two_commands:
  assumes "page_evaluate page e [] = (r, tr)"
  shows "length (filter (\<lambda>q. q \<noteq> AsksContext) tr) \<le> 2 \<and> asked tr \<le> 3"
  using assms
  by (auto simp: page_evaluate_def evaluate_expression_def evaluate_function_def with_context_def asked_def
      Let_def split: option.splits sum.splits prod.splits if_splits evaluation.splits bool.splits)

end
