(* ===== verification/Spec2Isabelle.thy ===== *)
theory Spec2Isabelle
  imports Navigation Worlds Net_Props Target_Waiters Emulation Listeners Conn_Props Handler_Callers Rendezvous
    Handler_Props Parallel_Callers Page_Waits Content_Props Content_Markdown Pdl_Round_Trip Pdl_Typed
    Dns_Cache Fetcher Event_Message Builder_Code Js_Eval
begin

text \<open>
  A verification of spider_chrome, a client of the Chrome DevTools Protocol. Paths are under
  \<open>src/src/\<close> unless they begin with \<open>src/\<close>.

  The program. A \<open>Handler\<close> (\<open>handler/mod.rs\<close>) owns a websocket \<open>Connection\<close> (\<open>conn.rs\<close>), the
  targets of the browser (\<open>handler/target.rs\<close>), the sessions, and the tables of pending commands and of
  navigations in progress. It is driven by polling it as a stream (\<open>poll_next\<close>) or as a task (\<open>run\<close>): in
  turns it takes messages of the browser handle, lets each target work, reads responses and events from
  the socket and evicts what is overdue. A \<open>Target\<close> initialises its page with chains of commands
  (\<open>cmd.rs\<close>), feeds protocol events to its frame manager (\<open>handler/frame.rs\<close>) and network manager
  (\<open>handler/network.rs\<close>), and answers or queues what its page asks for. Answers go over oneshot
  channels, events to subscribers over the listeners (\<open>listeners.rs\<close>). A third way to drive it, the
  parallel handler (\<open>handler/parallel/\<close>), gives each target a task of its own and leaves a router between
  the tasks and the socket. The caller's side of all this are the futures of a page; on top of them the
  content readers fetch a document piece by piece. The protocol itself is generated from descriptions,
  which a line parser reads (\<open>src/pdl/src/pdl/\<close>).

  The theories, and what they model:
  \<^item> \<open>Prelude\<close>, \<open>Refine\<close>, \<open>Text\<close>: hash maps and sets with their laws (locale \<open>hash_map_ops\<close>), runs
    of machines (locales \<open>event_machine\<close>, \<open>fifo_machine\<close>, \<open>projected_machine\<close>), sums over maps,
    time and saturating arithmetic; the string functions of the standard library the code uses.
  \<^item> \<open>Cdp\<close>, \<open>Cmd\<close>, \<open>Http\<close>: JSON values, requests, responses and call ids (\<open>src/types/src/lib.rs\<close>),
    errors (\<open>error.rs\<close>), command messages and command chains (\<open>cmd.rs\<close>), the record of a request
    (\<open>handler/http.rs\<close>). A chain has one command in flight, issues them in order, and completes.
  \<^item> \<open>Frames\<close>, \<open>Frame_Manager\<close>: worlds, frames, lifecycle and the frame manager (\<open>handler/domworld.rs\<close>,
    \<open>handler/frame.rs\<close>), with \<open>Frame_Tree\<close>, \<open>Frame_Forest\<close>, \<open>Frame_Inv\<close>, \<open>Frame_Machine\<close>: in
    every reachable state the frames form a tree below the main frame, which detaching and navigating
    prune exactly; \<open>Navigation\<close>: navigations are requested and answered in order, each of them
    eventually; \<open>Worlds\<close>: no frame keeps a context that was destroyed, isolated worlds are made once.
  \<^item> \<open>Url\<close>, \<open>Net_Types\<close>, \<open>Network\<close>: hosts and base domains (\<open>handler/network_utils.rs\<close>) and the
    network manager (\<open>handler/network.rs\<close>, \<open>handler/blockers/\<close>), with \<open>Net_Machine\<close>, \<open>Net_Props\<close>:
    every paused request is answered once, the accounts of requests and bytes balance, strict
    blacklists win, redirects are capped, credentials are offered once.
  \<^item> \<open>Listeners\<close>: subscriptions, fan-out, flushing and the stream of a subscriber (\<open>listeners.rs\<close>).
  \<^item> \<open>Emulation\<close>, \<open>Target_Types\<close>, \<open>Target\<close>: viewport, emulation, sessions and contexts, and the target
    with its initialisation, events, page messages, waiters, \<open>poll\<close> and \<open>advance\<close>, with
    \<open>Target_Machine\<close>, \<open>Target_Phases\<close>, \<open>Target_Waiters\<close>: initialisation only moves forward and
    reaches the ready phase, a late answer closes the target, callers are answered once, and \<open>poll\<close>
    agrees with \<open>advance\<close>.
  \<^item> \<open>Conn\<close>, \<open>Conn_Props\<close>: connecting with retries, sending, polling, decoding and the reader and writer
    tasks (\<open>conn.rs\<close>). Commands are written in the order of submission; the pipelined reader refines
    the serial one and ends; connecting is tried a bounded number of times.
  \<^item> \<open>Handler_Types\<close>, \<open>Handler\<close>, \<open>Handler_Loops\<close>, \<open>Handler_Run\<close>: the handler, its operations, the
    stream and the task (\<open>handler/mod.rs\<close>), with \<open>Handler_Callers\<close>: through all of these parts a caller
    is answered at most once; \<open>Rendezvous\<close>: a navigation refines a rendezvous of response and load event;
    \<open>Handler_Props\<close>: crashes and timeouts hit exactly the commands they should, a pass visits every
    target once.
  \<^item> \<open>Session_Task\<close>, \<open>Router\<close>, \<open>Parallel_Routing\<close>: the task of a target (\<open>handler/parallel/session.rs\<close>),
    the router with its allocation of call ids (\<open>router.rs\<close>, \<open>ids.rs\<close>), and any interleaving of their
    turns. With \<open>Parallel_Inv\<close>, \<open>Parallel_Callers\<close>: every call in flight has one owner and its response
    reaches that task, the tables of slots agree, callers are answered at most once, a task that ends
    answers everyone it owes, and navigations are handled as by the serial handler.
  \<^item> \<open>Page_Futures\<close>: the sender of a page (\<open>handler/sender.rs\<close>), the futures of a command, of a message
    and of a navigating command (\<open>commandfuture.rs\<close>, \<open>target_message_future.rs\<close>, \<open>httpfuture.rs\<close>) and the
    page operations that make them (\<open>handler/page.rs\<close>), with \<open>Page_Waits\<close>: messages are sent once and
    in order, and every wait ends.
  \<^item> \<open>Utf16_Len\<close>, \<open>Utf\<close>: the word-parallel UTF-16 count of UTF-8 bytes and the two encodings;
    \<open>Content_Stream\<close>, \<open>Content_Props\<close>: the reading of a document in slices (\<open>content_stream.rs\<close>), the
    script the page runs included: the whole document arrives, reader and stream agree, the object
    in the page is released once; \<open>Content_Markdown\<close>: the Markdown of a page as events
    (\<open>content_markdown.rs\<close>), delivered whole.
  \<^item> \<open>Pdl_Types\<close>, \<open>Pdl_Parser\<close>: protocol descriptions, the regular expressions as backtracking patterns
    and the parser, with \<open>Pdl_Print\<close>, \<open>Pdl_Lines\<close>, \<open>Pdl_Round_Trip\<close>: a printed description parses back;
    \<open>Pdl_Typed\<close>: what the parser returns is well typed, and its errors name their line.
  \<^item> \<open>Generator\<close>: the generator of the protocol types (\<open>src/pdl/src/build/\<close>), what it emits as items;
    \<open>Generator_Props\<close>: sizes are found when they can be, only unresolved references stop it, the texts
    of enums read back; \<open>Event_Message\<close>: the reader of event messages it emits, which hands each event to
    its own type; \<open>Builder_Code\<close>: the constructors and builders it emits.
  \<^item> \<open>Js_Eval\<close>: the guess whether a text is a function (\<open>utils.rs\<close>, \<open>js.rs\<close>) and \<open>Page::evaluate\<close>.
  \<^item> \<open>Dns_Cache\<close>: the cache of host resolutions (\<open>dns.rs\<close>) shared by tasks that interleave: it is
    bounded and serves recent answers only.
  \<^item> \<open>Fetcher\<close>: the fetcher of browser builds (\<open>src/fetcher/\<close>): versions and their texts, builds, URLs
    and paths, the fetch: texts read back, an executable belongs to one build.

  Conventions. A struct is a record whose fields carry a prefix (\<open>hd_\<close> handler, \<open>tg_\<close> target, \<open>fm_\<close> frame
  manager, \<open>nm_\<close> network manager, \<open>cn_\<close> connection, \<open>st_\<close> session task, \<open>ro_\<close> router, \<open>pf_\<close> page
  future, \<open>cp_\<close> and \<open>mp_\<close> the page a reader reads), an enum a datatype; methods are functions on the
  state, named as in the code, with the type in front where names clash. Integers are words of their width
  and wrap as in a release build; \<open>usize\<close> call ids are 64 bit. Instants and durations are naturals in
  nanoseconds. A \<open>HashMap\<close> is an association list whose order stands for the unspecified iteration
  order. Trimming knows ASCII white space only. What an operation sends is an output field (\<open>hd_sent\<close>,
  \<open>hd_delivered\<close>, \<open>tg_sent\<close>, \<open>tg_woken\<close>, \<open>cn_written\<close>, \<open>rd_tx\<close>, \<open>ps_sent\<close>) or part of its result.

  Parameters. What the code takes from outside is an argument: the crates behind the network manager
  (\<open>externals\<close>), the generated decoders and drawn names (\<open>target_env\<close>, \<open>handler_env\<close>, the decoder of
  frames), the readings of the clock, the receivers that are gone, new listener ids, the answers of the
  sink and of tokio's channels (\<open>poll_env\<close>), the arrivals of a turn (\<open>turn\<close>, \<open>run_turn\<close>, \<open>reading\<close>), what a
  page answers to a reader (\<open>content_page\<close>, \<open>markdown_page\<close>), the servers and the disk of the fetcher
  (\<open>fetch_env\<close>), the conversions of names and the codecs of the generated types (\<open>gen_env\<close>, \<open>serde_env\<close>), the
  answers to an evaluation (\<open>js_page\<close>), and the order of the turns of the parallel
  tasks. Nothing is assumed of them except where a theorem says so. An awaited send of the parallel handler
  completes; its \<open>try_send\<close>s meet the capacities given.

  Loops. Recursions follow the loops of the code without fuel and end by measures: the frames left for the
  removal of subtrees, the queues for the drains, the rank of the phase for the restarts of a target's
  initialisation, the rounds left for the content readers, the queue
  and its retries for the sizes of the generator, and for the unbounded loop over \<open>advance\<close> in
  \<open>run\<close> the phase, its commands and the work left lexicographically. The budgets of the code are its own:
  64 waiters per queue, 128 browser messages and 128 events per target a turn, 512 socket messages, 32
  decodes in flight, 16 skipped frames, 262144 slices. The loops that depend on the outside (\<open>poll_next\<close>,
  \<open>run\<close>) recurse over the turns given and return \<open>None\<close> while they go on; the reader task is a step relation.
  The parallel theorems speak of runs that allocate less than \<open>2 ^ 64\<close> call ids.

  Not modelled: the generated protocol types, the attributes and texts the generator emits with its items,
  and the serialiser of protocol descriptions, whose meaning lies in macro crates; the rest of the
  asynchronous front end (browser, page, element) and launching the browser, which build commands and
  execute them; geometry, mouse and keys, which are floating-point arithmetic, random trajectories and a
  table; the disk sinks and the remote cache, processes, name lookup, file I/O, the fetcher's requests and
  unpacking, and opening sockets, which are the operating system's.
\<close>

end
